(* ===== verification/Skynet_Prelude.thy ===== *)
theory Skynet_Prelude imports Main "HOL-Library.Word" "HOL-Library.Char_ord" begin

text \<open>
  Shared vocabulary of the development: how the Rust standard library's strings, byte
  slices and fixed-width integers are represented, and the generic lemmas about them that
  the component theories use.

  A Rust \<^verbatim>\<open>str\<close> is modelled as the list of its UTF-8 bytes, so that \<open>length\<close>
  is Rust's \<^verbatim>\<open>len()\<close>; a \<^verbatim>\<open>&[u8]\<close> is a list of 8-bit words. Unsigned integers
  that the code computes with are natural numbers, and every wrap-around, overflow check and
  panic of the source is written out where it can happen.
\<close>

section \<open>Results, bytes and words\<close>

type_synonym byte = "8 word"

text \<open>A Rust \<^verbatim>\<open>Result\<close> is a sum, \<open>Inl\<close> being the error; the \<^verbatim>\<open>?\<close> operator.\<close>

definition try_bind :: "'e + 'a \<Rightarrow> ('a \<Rightarrow> 'e + 'b) \<Rightarrow> 'e + 'b" where
  "try_bind r f = (case r of Inl e \<Rightarrow> Inl e | Inr x \<Rightarrow> f x)"

definition ok_or :: "'e \<Rightarrow> 'a option \<Rightarrow> 'e + 'a" where
  "ok_or e x = (case x of None \<Rightarrow> Inl e | Some v \<Rightarrow> Inr v)"

lemma try_bind_simps [simp]:
  "try_bind (Inl e) f = Inl e"
  "try_bind (Inr x) f = f x"
  by (simp_all add: try_bind_def)

lemma try_bind_Inr_iff: "try_bind r f = Inr y \<longleftrightarrow> (\<exists>x. r = Inr x \<and> f x = Inr y)"
  by (cases r) auto

lemma ok_or_simps [simp]:
  "ok_or e None = Inl e"
  "ok_or e (Some v) = Inr v"
  by (simp_all add: ok_or_def)

lemma ok_or_Inr_iff [simp]: "ok_or e x = Inr y \<longleftrightarrow> x = Some y"
  by (cases x) auto

text \<open>The widths of the integer types the code uses, and Rust's checked and saturating
  operations on unsigned values.\<close>

definition u128_limit :: nat where "u128_limit = 2 ^ 128"
definition u64_limit :: nat where "u64_limit = 2 ^ 64"

definition checked_u128 :: "nat \<Rightarrow> nat option" where
  "checked_u128 n = (if n < u128_limit then Some n else None)"

definition saturating_u128 :: "nat \<Rightarrow> nat" where
  "saturating_u128 n = min n (u128_limit - 1)"

lemma checked_u128_Some [simp]: "checked_u128 n = Some m \<longleftrightarrow> m = n \<and> n < u128_limit"
  by (auto simp: checked_u128_def)

lemma u128_limit_pos [simp]: "0 < u128_limit"
  by (simp add: u128_limit_def)

lemma u64_limit_pos [simp]: "0 < u64_limit"
  by (simp add: u64_limit_def)

text \<open>A computation that may panic: \<open>Panic\<close> is a failed slice, index, division or
  \<^verbatim>\<open>expect\<close> of the source.\<close>

datatype 'a run = Panic | Done 'a

definition run_bind :: "'a run \<Rightarrow> ('a \<Rightarrow> 'b run) \<Rightarrow> 'b run" where
  "run_bind r f = (case r of Panic \<Rightarrow> Panic | Done x \<Rightarrow> f x)"

lemma run_bind_simps [simp]:
  "run_bind Panic f = Panic"
  "run_bind (Done x) f = f x"
  by (simp_all add: run_bind_def)

lemma run_bind_Done_iff: "run_bind r f = Done y \<longleftrightarrow> (\<exists>x. r = Done x \<and> f x = Done y)"
  by (cases r) auto

section \<open>Characters\<close>

definition is_ascii_digit :: "char \<Rightarrow> bool" where
  "is_ascii_digit c \<longleftrightarrow> CHR ''0'' \<le> c \<and> c \<le> CHR ''9''"

definition is_ascii_lower :: "char \<Rightarrow> bool" where
  "is_ascii_lower c \<longleftrightarrow> CHR ''a'' \<le> c \<and> c \<le> CHR ''z''"

definition is_ascii_upper :: "char \<Rightarrow> bool" where
  "is_ascii_upper c \<longleftrightarrow> CHR ''A'' \<le> c \<and> c \<le> CHR ''Z''"

definition is_ascii_alphanumeric :: "char \<Rightarrow> bool" where
  "is_ascii_alphanumeric c \<longleftrightarrow> is_ascii_digit c \<or> is_ascii_lower c \<or> is_ascii_upper c"

definition is_ascii_hexdigit :: "char \<Rightarrow> bool" where
  "is_ascii_hexdigit c \<longleftrightarrow> is_ascii_digit c \<or> (CHR ''a'' \<le> c \<and> c \<le> CHR ''f'')
     \<or> (CHR ''A'' \<le> c \<and> c \<le> CHR ''F'')"

definition is_lower_hexdigit :: "char \<Rightarrow> bool" where
  "is_lower_hexdigit c \<longleftrightarrow> is_ascii_digit c \<or> (CHR ''a'' \<le> c \<and> c \<le> CHR ''f'')"

definition ascii_lower_char :: "char \<Rightarrow> char" where
  "ascii_lower_char c = (if is_ascii_upper c then char_of (of_char c + 32 :: nat) else c)"

definition to_ascii_lowercase :: "string \<Rightarrow> string" where
  "to_ascii_lowercase s = map ascii_lower_char s"

lemmas char_class_defs = is_ascii_digit_def is_ascii_lower_def is_ascii_upper_def
  is_ascii_alphanumeric_def is_ascii_hexdigit_def is_lower_hexdigit_def

lemma length_to_ascii_lowercase [simp]: "length (to_ascii_lowercase s) = length s"
  by (simp add: to_ascii_lowercase_def)


lemma char_class_codes:
  "is_ascii_digit c \<longleftrightarrow> 48 \<le> (of_char c :: nat) \<and> (of_char c :: nat) \<le> 57"
  "is_ascii_lower c \<longleftrightarrow> 97 \<le> (of_char c :: nat) \<and> (of_char c :: nat) \<le> 122"
  "is_ascii_upper c \<longleftrightarrow> 65 \<le> (of_char c :: nat) \<and> (of_char c :: nat) \<le> 90"
  "is_lower_hexdigit c \<longleftrightarrow> is_ascii_digit c \<or>
     97 \<le> (of_char c :: nat) \<and> (of_char c :: nat) \<le> 102"
  "is_ascii_hexdigit c \<longleftrightarrow> is_ascii_digit c \<or>
     97 \<le> (of_char c :: nat) \<and> (of_char c :: nat) \<le> 102 \<or>
     65 \<le> (of_char c :: nat) \<and> (of_char c :: nat) \<le> 70"
  by (auto simp: char_class_defs less_eq_char_def)

lemma ascii_lower_char_code:
  "(of_char (ascii_lower_char c) :: nat) =
     (if 65 \<le> (of_char c :: nat) \<and> (of_char c :: nat) \<le> 90 then of_char c + 32 else of_char c)"
  by (simp add: ascii_lower_char_def char_class_codes)

lemma ascii_lower_char_idem [simp]: "ascii_lower_char (ascii_lower_char c) = ascii_lower_char c"
proof -
  have "(of_char (ascii_lower_char (ascii_lower_char c)) :: nat) = of_char (ascii_lower_char c)"
    by (simp add: ascii_lower_char_code)
  then show ?thesis by simp
qed

lemma to_ascii_lowercase_idem [simp]:
  "to_ascii_lowercase (to_ascii_lowercase s) = to_ascii_lowercase s"
  by (simp add: to_ascii_lowercase_def)

lemma lower_hexdigit_hexdigit: "is_lower_hexdigit c \<Longrightarrow> is_ascii_hexdigit c"
  by (auto simp: char_class_codes)

lemma lowercase_hexdigit: "is_ascii_hexdigit c \<Longrightarrow> is_lower_hexdigit (ascii_lower_char c)"
  by (auto simp: char_class_codes ascii_lower_char_code)

lemma lowercase_fixes_lower_hex: "is_lower_hexdigit c \<Longrightarrow> ascii_lower_char c = c"
  by (auto simp: char_class_codes ascii_lower_char_def)

lemma lowercase_fixes_lower_hex_string:
  "\<forall>c \<in> set s. is_lower_hexdigit c \<Longrightarrow> to_ascii_lowercase s = s"
  by (simp add: to_ascii_lowercase_def lowercase_fixes_lower_hex map_idI)

section \<open>Strings\<close>

definition starts_with :: "string \<Rightarrow> string \<Rightarrow> bool" where
  "starts_with p s \<longleftrightarrow> take (length p) s = p"

definition strip_prefix :: "string \<Rightarrow> string \<Rightarrow> string option" where
  "strip_prefix p s = (if starts_with p s then Some (drop (length p) s) else None)"

lemma starts_with_append [simp]: "starts_with p (p @ s)"
  by (simp add: starts_with_def)

lemma starts_with_iff: "starts_with p s \<longleftrightarrow> (\<exists>t. s = p @ t)"
  by (auto simp: starts_with_def) (metis append_take_drop_id)

lemma strip_prefix_append [simp]: "strip_prefix p (p @ s) = Some s"
  by (simp add: strip_prefix_def)

lemma strip_prefix_Some: "strip_prefix p s = Some t \<longleftrightarrow> s = p @ t"
  by (auto simp: strip_prefix_def starts_with_def split: if_splits)
     (metis append_take_drop_id)

text \<open>
  \<^verbatim>\<open>str::trim\<close> removes the characters with the Unicode property White_Space from both
  ends. The list holds their UTF-8 encodings; on a byte string, a whitespace character at an
  end is one of these encodings at that end, since no encoding is a prefix or a suffix of
  another character's.
\<close>

definition white_space :: "string list" where
  "white_space =
     [[CHR 0x09], [CHR 0x0A], [CHR 0x0B], [CHR 0x0C], [CHR 0x0D], [CHR 0x20],
      [CHR 0xC2, CHR 0x85], [CHR 0xC2, CHR 0xA0],
      [CHR 0xE1, CHR 0x9A, CHR 0x80],
      [CHR 0xE2, CHR 0x80, CHR 0x80], [CHR 0xE2, CHR 0x80, CHR 0x81],
      [CHR 0xE2, CHR 0x80, CHR 0x82], [CHR 0xE2, CHR 0x80, CHR 0x83],
      [CHR 0xE2, CHR 0x80, CHR 0x84], [CHR 0xE2, CHR 0x80, CHR 0x85],
      [CHR 0xE2, CHR 0x80, CHR 0x86], [CHR 0xE2, CHR 0x80, CHR 0x87],
      [CHR 0xE2, CHR 0x80, CHR 0x88], [CHR 0xE2, CHR 0x80, CHR 0x89],
      [CHR 0xE2, CHR 0x80, CHR 0x8A],
      [CHR 0xE2, CHR 0x80, CHR 0xA8], [CHR 0xE2, CHR 0x80, CHR 0xA9],
      [CHR 0xE2, CHR 0x80, CHR 0xAF], [CHR 0xE2, CHR 0x81, CHR 0x9F],
      [CHR 0xE3, CHR 0x80, CHR 0x80]]"

fun strip_one :: "string list \<Rightarrow> string \<Rightarrow> string option" where
  "strip_one [] s = None"
| "strip_one (w # ws) s =
     (if w \<noteq> [] \<and> starts_with w s then Some (drop (length w) s) else strip_one ws s)"

lemma strip_one_shorter: "strip_one ws s = Some t \<Longrightarrow> length t < length s"
  by (induction ws s rule: strip_one.induct)
     (auto simp: starts_with_def split: if_splits
       intro!: diff_less dest: arg_cong [where f = length])

function strip_all :: "string list \<Rightarrow> string \<Rightarrow> string" where
  "strip_all ws s = (case strip_one ws s of None \<Rightarrow> s | Some t \<Rightarrow> strip_all ws t)"
  by pat_completeness auto
termination
  by (relation "measure (\<lambda>(ws, s). length s)") (auto dest: strip_one_shorter)

declare strip_all.simps [simp del]

definition trim :: "string \<Rightarrow> string" where
  "trim s = rev (strip_all (map rev white_space) (rev (strip_all white_space s)))"


lemma strip_one_None: "strip_one ws s = None \<longleftrightarrow> (\<forall>w \<in> set ws. w \<noteq> [] \<longrightarrow> \<not> starts_with w s)"
  by (induction ws s rule: strip_one.induct) (auto split: if_splits)

lemma strip_all_fixed: "strip_one ws s = None \<Longrightarrow> strip_all ws s = s"
  by (simp add: strip_all.simps)

lemma strip_one_strip_all: "strip_one ws (strip_all ws s) = None"
proof (induction ws s rule: strip_all.induct)
  case (1 ws s)
  then show ?case
    by (cases "strip_one ws s") (simp_all add: strip_all.simps [of ws s])
qed

lemma strip_all_suffix: "\<exists>p. s = p @ strip_all ws s"
proof (induction ws s rule: strip_all.induct)
  case (1 ws s)
  show ?case
  proof (cases "strip_one ws s")
    case None
    then show ?thesis by (simp add: strip_all_fixed)
  next
    case (Some t)
    have "\<exists>p. s = p @ t"
      using Some by (induction ws s rule: strip_one.induct)
        (auto split: if_splits simp: starts_with_def intro: append_take_drop_id [symmetric])
    with "1.IH" [OF Some] Some show ?thesis
      by (auto simp: strip_all.simps [of ws s]) (metis append.assoc)
  qed
qed

lemma starts_with_prefix: "starts_with w p \<Longrightarrow> starts_with w (p @ q)"
  unfolding starts_with_def
  by (metis append_take_drop_id append.assoc length_take take_all_iff append_eq_conv_conj min.absorb2
      nle_le)

lemma trim_splits: "\<exists>p q. s = p @ trim s @ q"
proof -
  obtain p where p: "s = p @ strip_all white_space s"
    using strip_all_suffix by blast
  obtain r where "rev (strip_all white_space s) =
      r @ strip_all (map rev white_space) (rev (strip_all white_space s))"
    using strip_all_suffix by blast
  then have "strip_all white_space s = trim s @ rev r"
    unfolding trim_def by (metis rev_append rev_rev_ident)
  with p show ?thesis by metis
qed

lemma trim_trim [simp]: "trim (trim s) = trim s"
proof -
  let ?f = "strip_all white_space s"
  obtain r where "rev ?f = r @ strip_all (map rev white_space) (rev ?f)"
    using strip_all_suffix by blast
  then have split: "?f = trim s @ rev r"
    unfolding trim_def by (metis rev_append rev_rev_ident)
  have "strip_one white_space (trim s) = None"
    using strip_one_strip_all [of white_space s] split starts_with_prefix
    unfolding strip_one_None by metis
  moreover have "strip_one (map rev white_space) (rev (trim s)) = None"
    by (simp add: trim_def strip_one_strip_all)
  ultimately show ?thesis
    unfolding trim_def [of "trim s"] by (simp add: strip_all_fixed)
qed

lemma set_trim: "set (trim s) \<subseteq> set s"
  using trim_splits [of s] by (metis Un_iff set_append subsetI)

lemma length_trim: "length (trim s) \<le> length s"
  using trim_splits [of s] by (metis length_append le_add1 le_add2 le_trans)

definition is_graphic :: "char \<Rightarrow> bool" where
  "is_graphic c \<longleftrightarrow> 33 \<le> (of_char c :: nat) \<and> (of_char c :: nat) \<le> 126"

lemma no_graphic_space:
  assumes "s \<noteq> [] \<Longrightarrow> is_graphic (hd s)"
  shows "strip_one white_space s = None" "strip_one (map rev white_space) s = None"
proof -
  have *: "\<forall>w \<in> set white_space. w \<noteq> [] \<and> \<not> is_graphic (hd w) \<and> \<not> is_graphic (last w)"
    by (simp add: white_space_def is_graphic_def)
  have "\<not> starts_with w s" if "w \<noteq> []" "\<not> is_graphic (hd w)" for w
    using that assms by (cases w; cases s) (auto simp: starts_with_def)
  with * show "strip_one white_space s = None" "strip_one (map rev white_space) s = None"
    by (auto simp: strip_one_None hd_rev)
qed

text \<open>A string whose first and last characters are graphic ASCII is left as it is.\<close>

lemma trim_graphic_ends:
  assumes "s \<noteq> [] \<Longrightarrow> is_graphic (hd s) \<and> is_graphic (last s)"
  shows "trim s = s"
  using assms no_graphic_space [of s] no_graphic_space [of "rev s"]
  by (simp add: trim_def strip_all_fixed hd_rev)

lemma trim_graphic: "\<forall>c \<in> set s. is_graphic c \<Longrightarrow> trim s = s"
  by (rule trim_graphic_ends) auto

lemma trim_Nil [simp]: "trim [] = []"
  by (rule trim_graphic_ends) simp

lemma hexdigit_graphic: "is_ascii_hexdigit c \<Longrightarrow> is_graphic c"
  by (auto simp: char_class_codes is_graphic_def)

lemma alphanumeric_graphic: "is_ascii_alphanumeric c \<Longrightarrow> is_graphic c"
  by (auto simp: is_ascii_alphanumeric_def char_class_codes is_graphic_def)


text \<open>\<^verbatim>\<open>split_once\<close> at a character, and \<^verbatim>\<open>trim_end_matches\<close> of one.\<close>

fun split_once :: "char \<Rightarrow> string \<Rightarrow> (string \<times> string) option" where
  "split_once c [] = None"
| "split_once c (x # xs) =
     (if x = c then Some ([], xs)
      else case split_once c xs of None \<Rightarrow> None | Some (a, b) \<Rightarrow> Some (x # a, b))"

definition trim_end_matches :: "char \<Rightarrow> string \<Rightarrow> string" where
  "trim_end_matches c s = rev (dropWhile (\<lambda>x. x = c) (rev s))"

lemma split_once_append: "c \<notin> set s \<Longrightarrow> split_once c (s @ c # t) = Some (s, t)"
  by (induction s) auto

lemma split_once_absent: "c \<notin> set s \<Longrightarrow> split_once c s = None"
  by (induction s) auto

lemma split_once_Some: "split_once c s = Some (a, b) \<Longrightarrow> s = a @ c # b \<and> c \<notin> set a"
  by (induction s arbitrary: a) (auto split: option.splits if_splits)

lemma trim_end_matches_split: "\<exists>k. s = trim_end_matches c s @ replicate k c"
proof -
  let ?w = "takeWhile (\<lambda>x. x = c) (rev s)"
  have "?w = replicate (length ?w) c"
    by (rule replicate_length_same [symmetric]) (auto dest: set_takeWhileD)
  then have "rev s = replicate (length ?w) c @ dropWhile (\<lambda>x. x = c) (rev s)"
    by (metis takeWhile_dropWhile_id)
  then have "s = trim_end_matches c s @ replicate (length ?w) c"
    unfolding trim_end_matches_def by (metis rev_append rev_replicate rev_rev_ident)
  then show ?thesis ..
qed

text \<open>\<^verbatim>\<open>str::split\<close> at a character.\<close>

fun split_char :: "char \<Rightarrow> string \<Rightarrow> string list" where
  "split_char c [] = [[]]"
| "split_char c (x # s) =
     (if x = c then [] # split_char c s
      else case split_char c s of [] \<Rightarrow> [[x]] | p # ps \<Rightarrow> (x # p) # ps)"

lemma split_char_append: "split_char c (a @ c # b) = split_char c a @ split_char c b"
proof (induction a)
  case (Cons x a)
  have "split_char c a \<noteq> []" for a by (induction a) (auto split: list.split)
  then show ?case using Cons by (auto split: list.split)
qed simp

lemma split_char_single: "c \<notin> set s \<Longrightarrow> split_char c s = [s]"
  by (induction s) auto

section \<open>Numbers in text\<close>

text \<open>\<^verbatim>\<open>char::to_digit\<close> and the unsigned \<^verbatim>\<open>from_str_radix\<close>: an optional
  plus sign, then at least one digit, and an error when the value does not fit the width.\<close>

definition digit_value :: "nat \<Rightarrow> char \<Rightarrow> nat option" where
  "digit_value radix c =
     (let d = (if is_ascii_digit c then Some (of_char c - 48)
               else if is_ascii_lower c then Some (of_char c - 87)
               else if is_ascii_upper c then Some (of_char c - 55) else None)
      in case d of None \<Rightarrow> None | Some v \<Rightarrow> if v < radix then Some v else None)"

fun digits_value :: "nat \<Rightarrow> nat \<Rightarrow> string \<Rightarrow> nat option" where
  "digits_value radix acc [] = Some acc"
| "digits_value radix acc (c # cs) =
     (case digit_value radix c of None \<Rightarrow> None
      | Some d \<Rightarrow> digits_value radix (acc * radix + d) cs)"

definition from_str_radix :: "nat \<Rightarrow> nat \<Rightarrow> string \<Rightarrow> nat option" where
  "from_str_radix limit radix s =
     (let t = (case s of [] \<Rightarrow> [] | c # cs \<Rightarrow> if c = CHR ''+'' then cs else s)
      in if t = [] then None
         else case digits_value radix 0 t of None \<Rightarrow> None
           | Some v \<Rightarrow> if v < limit then Some v else None)"

text \<open>Formatting in a radix up to 16, without leading zeros.\<close>

definition digit_char :: "nat \<Rightarrow> char" where
  "digit_char d = (if d < 10 then char_of (48 + d) else char_of (87 + d))"

function radix_string :: "nat \<Rightarrow> nat \<Rightarrow> string" where
  "radix_string radix n =
     (if n < radix \<or> radix < 2 then [digit_char n]
      else radix_string radix (n div radix) @ [digit_char (n mod radix)])"
  by pat_completeness auto
termination
  by (relation "measure (\<lambda>(radix, n). n)") auto

declare radix_string.simps [simp del]

definition decimal :: "nat \<Rightarrow> string" where "decimal n = radix_string 10 n"

lemma digits_value_append:
  "digits_value r a (s @ t) =
     (case digits_value r a s of None \<Rightarrow> None | Some v \<Rightarrow> digits_value r v t)"
  by (induction s arbitrary: a) (auto split: option.split)

lemma digit_char_code:
  "d < 10 \<Longrightarrow> (of_char (digit_char d) :: nat) = 48 + d"
  "10 \<le> d \<Longrightarrow> d < 16 \<Longrightarrow> (of_char (digit_char d) :: nat) = 87 + d"
  by (simp_all add: digit_char_def)

lemma digit_value_char: "d < radix \<Longrightarrow> radix \<le> 16 \<Longrightarrow> digit_value radix (digit_char d) = Some d"
  by (cases "d < 10") (simp_all add: digit_value_def char_class_codes digit_char_code)

lemma digit_char_class:
  "d < 10 \<Longrightarrow> is_ascii_digit (digit_char d)"
  "d < 16 \<Longrightarrow> is_lower_hexdigit (digit_char d)"
  by (cases "d < 10"; simp add: char_class_codes digit_char_code)+

lemma digits_value_radix_string:
  assumes "2 \<le> radix" "radix \<le> 16"
  shows "digits_value radix 0 (radix_string radix n) = Some n"
  using assms
proof (induction radix n rule: radix_string.induct)
  case (1 radix n)
  then show ?case
    by (cases "n < radix")
       (simp_all add: radix_string.simps [of radix n] digits_value_append digit_value_char)
qed

lemma radix_string_not_Nil [simp]: "radix_string radix n \<noteq> []"
  by (simp add: radix_string.simps)

lemma radix_string_digits:
  assumes "2 \<le> radix" "radix \<le> 16"
  shows "\<forall>c \<in> set (radix_string radix n). \<exists>d < radix. c = digit_char d"
  using assms
proof (induction radix n rule: radix_string.induct)
  case (1 radix n)
  then show ?case
    by (cases "n < radix")
       (auto simp: radix_string.simps [of radix n] intro!: exI [of _ "n mod radix"])
qed

lemma decimal_digits: "\<forall>c \<in> set (decimal n). is_ascii_digit c"
  using radix_string_digits [of 10 n] digit_char_class(1) by (auto simp: decimal_def)

lemma length_radix_string:
  "2 \<le> radix \<Longrightarrow> n < radix ^ Suc k \<Longrightarrow> length (radix_string radix n) \<le> Suc k"
proof (induction k arbitrary: n)
  case 0
  then show ?case by (simp add: radix_string.simps)
next
  case (Suc k)
  then have "n div radix < radix ^ Suc k"
    by (simp add: less_mult_imp_div_less mult.commute)
  with Suc show ?case by (auto simp: radix_string.simps [of radix n])
qed

lemma plus_not_digit: "\<not> is_ascii_digit (CHR ''+'')" "\<not> is_lower_hexdigit (CHR ''+'')"
  by (simp_all add: char_class_codes)

lemma from_str_radix_digits:
  assumes "s \<noteq> []" "hd s \<noteq> CHR ''+''" "digits_value radix 0 s = Some v" "v < limit"
  shows "from_str_radix limit radix s = Some v"
  using assms by (cases s) (simp_all add: from_str_radix_def)

lemma from_str_radix_bound: "from_str_radix limit radix s = Some v \<Longrightarrow> v < limit"
  by (auto simp: from_str_radix_def Let_def split: if_splits option.splits)

text \<open>The value of a string of decimal digits, and how zeros and splits act on it.\<close>

lemma digit_value_digit: "is_ascii_digit c \<Longrightarrow> \<exists>d < 10. digit_value 10 c = Some d"
  by (auto simp: digit_value_def char_class_codes)

lemma digits_value_defined:
  "\<forall>c \<in> set s. is_ascii_digit c \<Longrightarrow>
     \<exists>v. digits_value 10 a s = Some (a * 10 ^ length s + v) \<and> v < 10 ^ length s"
proof (induction s arbitrary: a)
  case Nil
  then show ?case by simp
next
  case (Cons c s)
  then obtain d where d: "d < 10" "digit_value 10 c = Some d"
    using digit_value_digit [of c] by auto
  from Cons obtain v where
    v: "digits_value 10 (a * 10 + d) s = Some ((a * 10 + d) * 10 ^ length s + v)"
       "v < 10 ^ length s"
    by (metis list.set_intros(2))
  have "d * 10 ^ length s + v < 10 * 10 ^ length s"
  proof -
    have "d * 10 ^ length s \<le> 9 * 10 ^ length s"
      using d(1) by (intro mult_le_mono1) simp
    with v(2) show ?thesis by linarith
  qed
  with d v show ?case
    by (intro exI [of _ "d * 10 ^ length s + v"]) (simp add: algebra_simps)
qed

lemma digits_value_zeros: "digits_value 10 a (replicate k (CHR ''0'')) = Some (a * 10 ^ k)"
  by (induction k arbitrary: a) (simp_all add: digit_value_def char_class_codes algebra_simps)

section \<open>Big-endian bytes\<close>

text \<open>\<^verbatim>\<open>to_be_bytes\<close> of an integer of \<open>n\<close> bytes, and \<^verbatim>\<open>from_be_bytes\<close>.\<close>

fun be_bytes :: "nat \<Rightarrow> nat \<Rightarrow> byte list" where
  "be_bytes 0 v = []"
| "be_bytes (Suc n) v = be_bytes n (v div 256) @ [word_of_nat (v mod 256)]"

definition be_nat :: "byte list \<Rightarrow> nat" where
  "be_nat bs = foldl (\<lambda>acc b. acc * 256 + unat b) 0 bs"

lemma length_be_bytes [simp]: "length (be_bytes n v) = n"
  by (induction n arbitrary: v) simp_all

lemma be_nat_snoc: "be_nat (bs @ [b]) = be_nat bs * 256 + unat b"
  by (simp add: be_nat_def)

lemma be_nat_Nil [simp]: "be_nat [] = 0"
  by (simp add: be_nat_def)

lemma be_nat_be_bytes: "be_nat (be_bytes n v) = v mod 256 ^ n"
proof (induction n arbitrary: v)
  case 0
  then show ?case by simp
next
  case (Suc n)
  have "unat (word_of_nat (v mod 256) :: byte) = v mod 256"
    by (simp add: unat_of_nat)
  then show ?case
    by (simp add: be_nat_snoc Suc mod_mult2_eq [of v 256 "256 ^ n"] algebra_simps)
qed

lemma unat_byte_bound: "unat (b :: byte) < 256"
  using unsigned_less [of b] by simp

lemma unat_byte_of_nat: "n < 256 \<Longrightarrow> unat (word_of_nat n :: byte) = n"
  by (simp add: unat_of_nat)

lemma be_nat_bound: "be_nat bs < 256 ^ length bs"
proof (induction bs rule: rev_induct)
  case Nil
  then show ?case by simp
next
  case (snoc b bs)
  then have "be_nat bs + 1 \<le> 256 ^ length bs" by simp
  then have "(be_nat bs + 1) * 256 \<le> 256 ^ length bs * 256" by (rule mult_le_mono1)
  then show ?case using unat_byte_bound [of b] by (simp add: be_nat_snoc)
qed

lemma be_bytes_be_nat: "be_bytes (length bs) (be_nat bs) = bs"
proof (induction bs rule: rev_induct)
  case Nil
  then show ?case by simp
next
  case (snoc b bs)
  have "(be_nat bs * 256 + unat b) div 256 = be_nat bs"
    and "(be_nat bs * 256 + unat b) mod 256 = unat b"
    using unat_byte_bound [of b] by simp_all
  with snoc show ?case by (simp add: be_nat_snoc)
qed

text \<open>The bytes of a string.\<close>

definition bytes_of :: "string \<Rightarrow> byte list" where
  "bytes_of s = map of_char s"

lemma length_bytes_of [simp]: "length (bytes_of s) = length s"
  by (simp add: bytes_of_def)

end
