(* ===== verification/Hex_Interface.thy ===== *)
theory Hex_Interface imports Skynet_Prelude begin

text \<open>
  The interface of the \<^verbatim>\<open>hex\<close> crate, which is not part of the repository: the code
  relies on \<open>encode\<close> writing two lowercase digits per byte and on \<open>decode\<close>
  accepting exactly the even-length digit strings of either case. The locale states that
  documented contract; everything the development proves about addresses and calldata rests
  on it and on nothing else of the crate. \<open>hex_encode\<close> and \<open>hex_decode\<close> show
  that the contract can be met and are what witnesses evaluate.
\<close>

section \<open>The contract\<close>

locale hex_codec =
  fixes enc :: "byte list \<Rightarrow> string" and dec :: "string \<Rightarrow> byte list option"
  assumes enc_length: "length (enc bs) = 2 * length bs"
    and enc_lower: "c \<in> set (enc bs) \<Longrightarrow> is_lower_hexdigit c"
    and dec_enc: "dec (enc bs) = Some bs"
    and dec_spelling: "dec s = Some bs \<Longrightarrow> enc bs = to_ascii_lowercase s"
    and dec_defined: "even (length s) \<Longrightarrow> \<forall>c \<in> set s. is_ascii_hexdigit c \<Longrightarrow> \<exists>bs. dec s = Some bs"
    and dec_digits: "dec s = Some bs \<Longrightarrow> \<forall>c \<in> set s. is_ascii_hexdigit c"
begin

lemma dec_length: "dec s = Some bs \<Longrightarrow> length s = 2 * length bs"
  using dec_spelling [of s bs] enc_length [of bs] by (metis length_to_ascii_lowercase)

lemma enc_inject: "enc a = enc b \<longleftrightarrow> a = b"
  using dec_enc by (metis option.inject)

lemma dec_lower: "\<forall>c \<in> set s. is_lower_hexdigit c \<Longrightarrow> dec s = Some bs \<Longrightarrow> enc bs = s"
  using dec_spelling lowercase_fixes_lower_hex_string by metis

lemma dec_length_defined:
  assumes "length s = 2 * n" "\<forall>c \<in> set s. is_ascii_hexdigit c"
  shows "\<exists>bs. dec s = Some bs \<and> length bs = n"
proof -
  obtain bs where "dec s = Some bs" using dec_defined [of s] assms by auto
  with dec_length assms(1) show ?thesis by force
qed

lemma dec_rejects_odd: "odd (length s) \<Longrightarrow> dec s = None"
  using dec_length by (cases "dec s") auto

end

section \<open>A codec that meets it\<close>

definition hex_encode :: "byte list \<Rightarrow> string" where
  "hex_encode bs =
     concat (map (\<lambda>b. [digit_char (unat b div 16), digit_char (unat b mod 16)]) bs)"

fun hex_decode :: "string \<Rightarrow> byte list option" where
  "hex_decode [] = Some []"
| "hex_decode [c] = None"
| "hex_decode (c # d # s) =
     (case (digit_value 16 c, digit_value 16 d, hex_decode s) of
        (Some x, Some y, Some bs) \<Rightarrow> Some (word_of_nat (16 * x + y) # bs)
      | _ \<Rightarrow> None)"

lemma hex_encode_simps [simp]:
  "hex_encode [] = []"
  "hex_encode (b # bs) =
     digit_char (unat b div 16) # digit_char (unat b mod 16) # hex_encode bs"
  by (simp_all add: hex_encode_def)

lemma byte_nibbles: "unat (b :: byte) div 16 < 16" "unat b mod 16 < 16"
  using unat_byte_bound [of b] by simp_all

lemma digit_value_16: "digit_value 16 c = Some v \<Longrightarrow>
    v < 16 \<and> digit_char v = ascii_lower_char c \<and> is_ascii_hexdigit c"
proof -
  assume v: "digit_value 16 c = Some v"
  then have "v < 16" by (auto simp: digit_value_def Let_def split: option.splits if_splits)
  moreover have "(of_char (digit_char v) :: nat) = of_char (ascii_lower_char c)"
    using v \<open>v < 16\<close>
    by (cases "v < 10")
       (auto simp: digit_value_def char_class_codes digit_char_code ascii_lower_char_code
             split: if_splits)
  moreover have "is_ascii_hexdigit c"
    using v by (auto simp: digit_value_def char_class_codes split: if_splits)
  ultimately show ?thesis by simp
qed

lemma digit_value_16_defined: "is_ascii_hexdigit c \<Longrightarrow> \<exists>v < 16. digit_value 16 c = Some v"
  by (auto simp: digit_value_def char_class_codes)

lemma hex_decode_encode: "hex_decode (hex_encode bs) = Some bs"
proof (induction bs)
  case Nil
  then show ?case by simp
next
  case (Cons b bs)
  then show ?case by (simp add: digit_value_char byte_nibbles)
qed

lemma nibbles_of: "x < 16 \<Longrightarrow> y < 16 \<Longrightarrow> unat (word_of_nat (16 * x + y) :: byte) = 16 * x + y"
  by (rule unat_byte_of_nat) simp

lemma hex_encode_decode: "hex_decode s = Some bs \<Longrightarrow> hex_encode bs = to_ascii_lowercase s"
proof (induction s arbitrary: bs rule: hex_decode.induct)
  case 1
  then show ?case by (simp add: to_ascii_lowercase_def)
next
  case (2 c)
  then show ?case by simp
next
  case (3 c d s)
  then obtain x y bs' where *: "digit_value 16 c = Some x" "digit_value 16 d = Some y"
      "hex_decode s = Some bs'" "bs = word_of_nat (16 * x + y) # bs'"
    by (auto split: option.splits)
  then have "hex_encode bs' = to_ascii_lowercase s" by (metis "3.IH")
  with * digit_value_16 [of c x] digit_value_16 [of d y] show ?case
    by (simp add: nibbles_of to_ascii_lowercase_def del: of_nat_add of_nat_mult)
qed

lemma hex_decode_defined:
  "even (length s) \<Longrightarrow> \<forall>c \<in> set s. is_ascii_hexdigit c \<Longrightarrow> \<exists>bs. hex_decode s = Some bs"
proof (induction s rule: hex_decode.induct)
  case (3 c d s)
  then obtain bs where "hex_decode s = Some bs" by auto
  moreover obtain x y where "digit_value 16 c = Some x" "digit_value 16 d = Some y"
    using "3.prems" digit_value_16_defined by (metis list.set_intros)
  ultimately show ?case by simp
qed auto

lemma hex_decode_digits: "hex_decode s = Some bs \<Longrightarrow> \<forall>c \<in> set s. is_ascii_hexdigit c"
  by (induction s arbitrary: bs rule: hex_decode.induct)
     (auto split: option.splits dest: digit_value_16)

lemma hex_encode_lower: "c \<in> set (hex_encode bs) \<Longrightarrow> is_lower_hexdigit c"
  by (induction bs) (auto simp: digit_char_class byte_nibbles)

interpretation hexc: hex_codec hex_encode hex_decode
proof unfold_locales
  show "length (hex_encode bs) = 2 * length bs" for bs
    by (induction bs) simp_all
qed (auto simp: hex_decode_encode hex_encode_decode hex_decode_defined
       intro: hex_encode_lower dest: hex_decode_digits)

end
