(* ===== verification/Ids.thy ===== *)
theory Ids imports Hex_Interface begin

text \<open>
  \<^verbatim>\<open>app/core/src/ids.rs\<close>: the identifier newtypes. A wallet address is the lowercase
  \<^verbatim>\<open>0x\<close> form of 20 bytes, normalised by its constructor; room and message ids are
  checked strings. The \<^verbatim>\<open>hex\<close> crate enters as the functions of \<open>hex_codec\<close>,
  Keccak-256 and SHA-256 as functions on byte lists, passed as arguments.

  The lemmas show that every constructor establishes \<open>wallet_ok\<close>, that an accepted
  string is its own canonical form, that addresses and their 20 bytes determine each other,
  and that the two blocks of reserved sender addresses are well formed and disjoint.
\<close>

section \<open>Types\<close>

datatype id_error = WalletFormat | EmptyId | TooShort nat | TooLong nat | Charset

datatype wallet_address = WalletAddress (as_str: string)

datatype room_id = RoomId (room_str: string)

datatype message_id = MessageId (message_str: string)

section \<open>Wallet addresses\<close>

definition wallet_new :: "string \<Rightarrow> id_error + wallet_address" where
  "wallet_new s0 =
     (let s = trim s0
      in if length s \<noteq> 42 \<or> \<not> starts_with ''0x'' s then Inl WalletFormat
         else if \<not> list_all is_ascii_hexdigit (drop 2 s) then Inl WalletFormat
         else Inr (WalletAddress (to_ascii_lowercase s)))"

definition from_bytes :: "(byte list \<Rightarrow> string) \<Rightarrow> byte list \<Rightarrow> wallet_address" where
  "from_bytes enc bytes = WalletAddress (''0x'' @ enc bytes)"

text \<open>\<open>None\<close> is the panic of \<^verbatim>\<open>expect\<close>: the digits do not fill the 20 bytes.\<close>

definition to_bytes :: "(string \<Rightarrow> byte list option) \<Rightarrow> wallet_address \<Rightarrow> byte list option" where
  "to_bytes dec a =
     (case dec (drop 2 (as_str a)) of
        Some out \<Rightarrow> if length out = 20 then Some out else None
      | None \<Rightarrow> None)"

definition ascii_upper_char :: "char \<Rightarrow> char" where
  "ascii_upper_char c = (if is_ascii_lower c then char_of (of_char c - 32 :: nat) else c)"

text \<open>EIP-55: nibble \<open>i\<close> of the hash decides the case of character \<open>i\<close>.\<close>

definition nibble :: "byte list \<Rightarrow> nat \<Rightarrow> nat" where
  "nibble hash i =
     (if even i then unat (hash ! (i div 2)) div 16 else unat (hash ! (i div 2)) mod 16)"

definition to_checksummed :: "(byte list \<Rightarrow> byte list) \<Rightarrow> wallet_address \<Rightarrow> string" where
  "to_checksummed keccak a =
     (let lower = drop 2 (as_str a); hash = keccak (bytes_of lower)
      in ''0x'' @ map (\<lambda>(i, c). if nibble hash i \<ge> 8 then ascii_upper_char c else c)
                    (enumerate 0 lower))"

definition ellipsis :: string where
  "ellipsis = [CHR 0xE2, CHR 0x80, CHR 0xA6]"

definition abbreviated :: "wallet_address \<Rightarrow> string" where
  "abbreviated a = take 6 (as_str a) @ ellipsis @ drop 38 (as_str a)"

definition abbreviated_checksummed :: "(byte list \<Rightarrow> byte list) \<Rightarrow> wallet_address \<Rightarrow> string" where
  "abbreviated_checksummed keccak a =
     (let full = to_checksummed keccak a in take 6 full @ ellipsis @ drop 38 full)"

definition webhook_sender_prefix :: string where
  "webhook_sender_prefix = ''0x00000000''"

definition agent_sender_prefix :: string where
  "agent_sender_prefix = ''0x000000a1''"

definition webhook_sender ::
    "(byte list \<Rightarrow> byte list) \<Rightarrow> (byte list \<Rightarrow> string) \<Rightarrow> string \<Rightarrow> wallet_address" where
  "webhook_sender sha256 enc hook_id =
     WalletAddress (webhook_sender_prefix @ take 32 (enc (sha256 (bytes_of hook_id))))"

definition agent_of ::
    "(byte list \<Rightarrow> byte list) \<Rightarrow> (byte list \<Rightarrow> string) \<Rightarrow> wallet_address \<Rightarrow> wallet_address" where
  "agent_of sha256 enc owner =
     WalletAddress (agent_sender_prefix @
       take 32 (enc (sha256 (bytes_of (''jarvis:'' @ as_str owner)))))"

definition is_webhook_sender :: "wallet_address \<Rightarrow> bool" where
  "is_webhook_sender a \<longleftrightarrow> starts_with webhook_sender_prefix (as_str a)"

definition is_agent_sender :: "wallet_address \<Rightarrow> bool" where
  "is_agent_sender a \<longleftrightarrow> starts_with agent_sender_prefix (as_str a)"

definition is_reserved :: "wallet_address \<Rightarrow> bool" where
  "is_reserved a \<longleftrightarrow> is_webhook_sender a \<or> is_agent_sender a"

section \<open>Opaque identifiers\<close>

text \<open>The body of the \<^verbatim>\<open>opaque_id!\<close> macro, and its two instances.\<close>

definition opaque_new :: "nat \<Rightarrow> nat \<Rightarrow> (char \<Rightarrow> bool) \<Rightarrow> string \<Rightarrow> id_error + string" where
  "opaque_new lo hi allowed s0 =
     (let s = trim s0
      in if s = [] then Inl EmptyId
         else if length s < lo then Inl (TooShort lo)
         else if length s > hi then Inl (TooLong hi)
         else if \<not> list_all allowed s then Inl Charset
         else Inr s)"

definition room_id_char :: "char \<Rightarrow> bool" where
  "room_id_char b \<longleftrightarrow> is_ascii_alphanumeric b \<or> b = CHR ''_'' \<or> b = CHR ''-'' \<or> b = CHR ''.''"

definition message_id_char :: "char \<Rightarrow> bool" where
  "message_id_char b \<longleftrightarrow> is_ascii_alphanumeric b \<or> b = CHR ''_'' \<or> b = CHR ''-''"

definition room_id_new :: "string \<Rightarrow> id_error + room_id" where
  "room_id_new s = map_sum id RoomId (opaque_new 10 100 room_id_char s)"

definition message_id_new :: "string \<Rightarrow> id_error + message_id" where
  "message_id_new s = map_sum id MessageId (opaque_new 10 100 message_id_char s)"

section \<open>The invariant of an address\<close>

definition wallet_ok :: "wallet_address \<Rightarrow> bool" where
  "wallet_ok a \<longleftrightarrow> length (as_str a) = 42 \<and> starts_with ''0x'' (as_str a)
     \<and> list_all is_lower_hexdigit (drop 2 (as_str a))"

lemma wallet_ok_iff:
  "wallet_ok a \<longleftrightarrow>
     (\<exists>h. a = WalletAddress (''0x'' @ h) \<and> length h = 40 \<and> (\<forall>c \<in> set h. is_lower_hexdigit c))"
  by (cases a) (auto simp: wallet_ok_def starts_with_iff list_all_iff)

lemma wallet_okE:
  assumes "wallet_ok a"
  obtains h where "a = WalletAddress (''0x'' @ h)" "length h = 40"
    "\<forall>c \<in> set h. is_lower_hexdigit c"
  using assms by (auto simp: wallet_ok_iff)

lemma x_not_hex: "ascii_lower_char (CHR ''0'') = CHR ''0''" "ascii_lower_char (CHR ''x'') = CHR ''x''"
  by (simp_all add: ascii_lower_char_def char_class_codes)

lemma wallet_new_Inr:
  "wallet_new s = Inr a \<longleftrightarrow>
     (\<exists>h. trim s = ''0x'' @ h \<and> length h = 40 \<and> (\<forall>c \<in> set h. is_ascii_hexdigit c)
        \<and> a = WalletAddress (''0x'' @ to_ascii_lowercase h))"
  by (auto simp: wallet_new_def Let_def starts_with_iff list_all_iff to_ascii_lowercase_def
      x_not_hex split: if_splits)

lemma wallet_new_ok: "wallet_new s = Inr a \<Longrightarrow> wallet_ok a"
  by (auto simp: wallet_new_Inr wallet_ok_iff to_ascii_lowercase_def lowercase_hexdigit)

lemma x_graphic: "is_graphic (CHR ''0'')" "is_graphic (CHR ''x'')"
  by (simp_all add: is_graphic_def)

lemma wallet_ok_trim: "wallet_ok a \<Longrightarrow> trim (as_str a) = as_str a"
  by (rule trim_graphic)
     (auto elim!: wallet_okE simp: x_graphic hexdigit_graphic lower_hexdigit_hexdigit)

lemma wallet_new_fixed: "wallet_ok a \<Longrightarrow> wallet_new (as_str a) = Inr a"
  by (frule wallet_ok_trim)
     (auto elim!: wallet_okE simp: wallet_new_Inr lowercase_fixes_lower_hex_string
       lower_hexdigit_hexdigit)


section \<open>Addresses and their bytes\<close>

context hex_codec begin

lemma from_bytes_ok: "length bs = 20 \<Longrightarrow> wallet_ok (from_bytes enc bs)"
  using enc_length [of bs] enc_lower by (auto simp: wallet_ok_iff from_bytes_def)

lemma to_bytes_from_bytes: "length bs = 20 \<Longrightarrow> to_bytes dec (from_bytes enc bs) = Some bs"
  by (simp add: to_bytes_def from_bytes_def dec_enc)

lemma to_bytes_defined:
  assumes "wallet_ok a"
  shows "\<exists>bs. to_bytes dec a = Some bs \<and> length bs = 20 \<and> from_bytes enc bs = a"
proof -
  obtain h where h: "a = WalletAddress (''0x'' @ h)" "length h = 40"
      "\<forall>c \<in> set h. is_lower_hexdigit c"
    using assms by (rule wallet_okE)
  then obtain bs where "dec h = Some bs" "length bs = 20"
    using dec_length_defined [of h 20] lower_hexdigit_hexdigit by auto
  with h dec_lower [of h bs] show ?thesis
    by (auto simp: to_bytes_def from_bytes_def)
qed

lemma to_bytes_length: "to_bytes dec a = Some bs \<Longrightarrow> length bs = 20"
  by (auto simp: to_bytes_def split: option.splits if_splits)

lemma to_bytes_inject:
  assumes "wallet_ok a" "wallet_ok b" "to_bytes dec a = to_bytes dec b"
  shows "a = b"
  using to_bytes_defined [OF assms(1)] to_bytes_defined [OF assms(2)] assms(3) by auto

lemma prefixed_sender_ok:
  assumes "length d = 32" "starts_with ''0x'' p" "length p = 10"
    "\<forall>c \<in> set (drop 2 p). is_lower_hexdigit c"
  shows "wallet_ok (WalletAddress (p @ take 32 (enc d)))"
proof -
  have "\<forall>c \<in> set (take 32 (enc d)). is_lower_hexdigit c"
    using enc_lower in_set_takeD by metis
  then show ?thesis
    using assms enc_length [of d] by (auto simp: wallet_ok_iff starts_with_iff)
qed

end

lemma sender_prefixes:
  "starts_with ''0x'' webhook_sender_prefix" "length webhook_sender_prefix = 10"
  "\<forall>c \<in> set (drop 2 webhook_sender_prefix). is_lower_hexdigit c"
  "starts_with ''0x'' agent_sender_prefix" "length agent_sender_prefix = 10"
  "\<forall>c \<in> set (drop 2 agent_sender_prefix). is_lower_hexdigit c"
  by (simp_all add: webhook_sender_prefix_def agent_sender_prefix_def starts_with_def
      char_class_codes)

lemma sender_prefixes_differ:
  "starts_with webhook_sender_prefix s \<Longrightarrow> \<not> starts_with agent_sender_prefix s"
  by (auto simp: starts_with_iff webhook_sender_prefix_def agent_sender_prefix_def)

lemma lower_upper_hex: "is_lower_hexdigit c \<Longrightarrow> ascii_lower_char (ascii_upper_char c) = c"
proof -
  assume c: "is_lower_hexdigit c"
  then have "(of_char (ascii_lower_char (ascii_upper_char c)) :: nat) = of_char c"
    by (auto simp: ascii_lower_char_code ascii_upper_char_def char_class_codes)
  then show ?thesis by simp
qed

lemma upper_hex: "is_lower_hexdigit c \<Longrightarrow> is_ascii_hexdigit (ascii_upper_char c)"
  by (auto simp: ascii_upper_char_def char_class_codes)

section \<open>Properties\<close>

text \<open>C40. \<^verbatim>\<open>WalletAddress::new\<close>: whatever it accepts is the lowercase of the trimmed
  input, is a well-formed address, and is accepted again unchanged, so that no address has two
  stored spellings.\<close>

theorem wallet_new_normalises:
  assumes "wallet_new s = Inr a"
  shows "wallet_ok a \<and> as_str a = to_ascii_lowercase (trim s) \<and> wallet_new (as_str a) = Inr a"
  using assms wallet_new_ok [OF assms] wallet_new_fixed
  by (auto simp: wallet_new_Inr to_ascii_lowercase_def x_not_hex)

definition sample_address :: string where
  "sample_address = '' 0xAbCdEf0123456789aBcDeF0123456789ABCDEF01 ''"

lemma sample_address_ok:
  "wallet_new sample_address = Inr (WalletAddress ''0xabcdef0123456789abcdef0123456789abcdef01'')"
  by code_simp

theorem wallet_new_normalises_witness:
  "wallet_ok (WalletAddress ''0xabcdef0123456789abcdef0123456789abcdef01'')"
  using wallet_new_normalises [OF sample_address_ok] by blast

text \<open>\<^verbatim>\<open>to_bytes\<close> never panics on a constructed address, and the 20 bytes and the
  address determine each other (\<^verbatim>\<open>from_bytes\<close> and \<^verbatim>\<open>to_bytes\<close> are inverse).\<close>

theorem address_bytes_roundtrip:
  assumes "hex_codec enc dec"
  shows "(length bs = 20 \<longrightarrow> to_bytes dec (from_bytes enc bs) = Some bs)
    \<and> (wallet_new s = Inr a \<longrightarrow>
      (\<exists>bs. to_bytes dec a = Some bs \<and> length bs = 20 \<and> from_bytes enc bs = a))"
  using hex_codec.to_bytes_from_bytes [OF assms] hex_codec.to_bytes_defined [OF assms]
    wallet_new_ok by blast+

theorem address_bytes_roundtrip_witness:
  "to_bytes hex_decode (from_bytes hex_encode (replicate 20 7)) = Some (replicate 20 7)
   \<and> (\<exists>bs. to_bytes hex_decode (WalletAddress ''0xabcdef0123456789abcdef0123456789abcdef01'')
        = Some bs)"
  using address_bytes_roundtrip [OF hexc.hex_codec_axioms, of "replicate 20 7" sample_address]
    sample_address_ok
  by auto

text \<open>The EIP-55 checksummed form is the same address: whatever the hash, parsing it
  gives back the stored lowercase address, and the short form shows its first and last
  characters.\<close>

theorem checksummed_reparses:
  assumes "wallet_ok a"
  shows "wallet_new (to_checksummed keccak a) = Inr a"
proof -
  obtain h where h: "a = WalletAddress (''0x'' @ h)" "length h = 40"
      "\<forall>c \<in> set h. is_lower_hexdigit c"
    using assms by (rule wallet_okE)
  let ?up = "\<lambda>(i, c). if nibble (keccak (bytes_of h)) i \<ge> 8 then ascii_upper_char c else c"
  let ?t = "map ?up (enumerate 0 h)"
  have c: "to_checksummed keccak a = ''0x'' @ ?t"
    by (simp add: to_checksummed_def h(1) Let_def)
  have hex: "\<forall>c \<in> set ?t. is_ascii_hexdigit c"
    using h(3) by (auto simp: upper_hex lower_hexdigit_hexdigit in_set_enumerate_eq)
  have low: "to_ascii_lowercase ?t = h"
    unfolding to_ascii_lowercase_def
    using h(3) by (intro nth_equalityI)
      (auto simp: nth_enumerate_eq lower_upper_hex lowercase_fixes_lower_hex)
  have "trim (''0x'' @ ?t) = ''0x'' @ ?t"
    using hex by (intro trim_graphic) (auto simp: x_graphic hexdigit_graphic)
  with hex low h(2) show ?thesis
    unfolding c by (auto simp: wallet_new_Inr h(1))
qed

theorem checksummed_reparses_witness:
  "wallet_new (to_checksummed (\<lambda>_. replicate 32 0x8F)
      (WalletAddress ''0xabcdef0123456789abcdef0123456789abcdef01''))
   = Inr (WalletAddress ''0xabcdef0123456789abcdef0123456789abcdef01'')"
  by (rule checksummed_reparses [OF wallet_new_ok [OF sample_address_ok]])

text \<open>The addresses of webhooks and of personal agents are well-formed addresses, each
  recognised by its own predicate and by \<^verbatim>\<open>is_reserved\<close>, and no webhook shares an
  address with an agent.\<close>

theorem reserved_senders:
  assumes "hex_codec enc dec" and "\<And>x. length (sha256 x) = 32"
  shows "wallet_ok (webhook_sender sha256 enc hook) \<and> wallet_ok (agent_of sha256 enc owner)
    \<and> is_webhook_sender (webhook_sender sha256 enc hook)
    \<and> \<not> is_agent_sender (webhook_sender sha256 enc hook)
    \<and> is_agent_sender (agent_of sha256 enc owner)
    \<and> \<not> is_webhook_sender (agent_of sha256 enc owner)
    \<and> is_reserved (webhook_sender sha256 enc hook) \<and> is_reserved (agent_of sha256 enc owner)
    \<and> webhook_sender sha256 enc hook \<noteq> agent_of sha256 enc owner"
proof -
  let ?w = "webhook_sender sha256 enc hook" and ?a = "agent_of sha256 enc owner"
  have ok: "wallet_ok ?w" "wallet_ok ?a"
    unfolding webhook_sender_def agent_of_def
    by (rule hex_codec.prefixed_sender_ok [OF assms(1)]; simp add: assms(2) sender_prefixes)+
  have "is_webhook_sender ?w" "is_agent_sender ?a"
    by (simp_all add: is_webhook_sender_def is_agent_sender_def webhook_sender_def agent_of_def)
  then show ?thesis
    using ok sender_prefixes_differ
    unfolding is_reserved_def is_webhook_sender_def is_agent_sender_def by metis
qed

theorem reserved_senders_witness:
  "webhook_sender (\<lambda>_. replicate 32 5) hex_encode ''hook''
   \<noteq> agent_of (\<lambda>_. replicate 32 5) hex_encode (WalletAddress ''0x'')"
  using reserved_senders [OF hexc.hex_codec_axioms, of "\<lambda>_. replicate 32 5"] by simp

lemma opaque_new_Inr:
  "opaque_new lo hi allowed s = Inr t \<longleftrightarrow>
     t = trim s \<and> t \<noteq> [] \<and> lo \<le> length t \<and> length t \<le> hi \<and> (\<forall>c \<in> set t. allowed c)"
  by (auto simp: opaque_new_def Let_def list_all_iff)

lemma map_sum_Inr [simp]: "map_sum f g x = Inr y \<longleftrightarrow> (\<exists>z. x = Inr z \<and> y = g z)"
  by (cases x) auto

text \<open>Opaque identifiers: an accepted room or message id is the trimmed input, has 10 to
  100 characters of its type's alphabet, and is accepted again unchanged; every message id
  would be a room id, but a dotted room id is not a message id.\<close>

theorem opaque_ids:
  "(room_id_new s = Inr r \<longrightarrow>
      room_str r = trim s \<and> length (room_str r) \<in> {10..100}
      \<and> list_all room_id_char (room_str r) \<and> room_id_new (room_str r) = Inr r)
   \<and> (message_id_new s = Inr m \<longrightarrow>
      message_str m = trim s \<and> list_all message_id_char (message_str m)
      \<and> message_id_new (message_str m) = Inr m \<and> room_id_new s = Inr (RoomId (message_str m)))
   \<and> message_id_new ''room.with.dots'' = Inl Charset"
proof -
  have "message_id_new ''room.with.dots'' = Inl Charset" by code_simp
  then show ?thesis
    by (auto simp: room_id_new_def message_id_new_def opaque_new_Inr list_all_iff
        room_id_char_def message_id_char_def)
qed

lemma sample_room: "room_id_new ''room_12.4-x'' = Inr (RoomId ''room_12.4-x'')"
  by code_simp

lemma sample_message: "message_id_new ''msg_1234567'' = Inr (MessageId ''msg_1234567'')"
  by code_simp

theorem opaque_ids_witness:
  "room_id_new ''room_12.4-x'' = Inr (RoomId ''room_12.4-x'')
   \<and> room_id_new ''msg_1234567'' = Inr (RoomId ''msg_1234567'')"
  using opaque_ids [of "''room_12.4-x''"] opaque_ids [of "''msg_1234567''"]
    sample_room sample_message by simp

end
