(* ===== verification/Chain.thy ===== *)
theory Chain imports Ids begin

text \<open>
  \<^verbatim>\<open>app/core/src/chain.rs\<close>: the network registry, amounts, JSON-RPC quantities,
  ERC-20 calldata, the intrinsic-gas rule, RLP and the legacy transaction. Amounts are the
  natural numbers below \<open>u128_limit\<close> that the code keeps in a \<^verbatim>\<open>u128\<close>; the
  fields of a transaction are words of their width. Arithmetic that the release build wraps
  wraps here, and a panic is the value \<open>Panic\<close>.

  The lemmas show that amounts are parsed exactly and survive formatting, that RLP items can be
  read back off the front of any byte string, and so that the payload which is hashed and signed
  determines every field of the transaction, its chain id included.
\<close>

section \<open>The network registry\<close>

datatype chain_kind = Evm | Solana | Cardano

record token =
  tk_symbol :: string
  tk_name :: string
  tk_contract :: string
  tk_decimals :: nat

record network =
  net_id :: string
  net_kind :: chain_kind
  net_name :: string
  net_chain_id :: "nat option"
  net_rpc_url :: string
  net_explorer_url :: string
  net_symbol :: string
  net_decimals :: nat
  net_testnet :: bool
  net_tokens :: "token list"

definition supports_send :: "network \<Rightarrow> bool" where
  "supports_send n \<longleftrightarrow> (case net_kind n of Evm \<Rightarrow> True | _ \<Rightarrow> False)"

definition tx_url :: "network \<Rightarrow> string \<Rightarrow> string" where
  "tx_url n tx_hash = net_explorer_url n @ ''/tx/'' @ tx_hash"

definition address_url :: "network \<Rightarrow> string \<Rightarrow> string" where
  "address_url n address = net_explorer_url n @ ''/address/'' @ address"

definition usdc_cronos_mainnet :: string where
  "usdc_cronos_mainnet = ''0xc21223249ca28397b4b6541dffaecc539bff0c59''"

definition builtin_networks :: "network list" where
  "builtin_networks =
     [\<lparr>net_id = ''cronos-mainnet'', net_kind = Evm, net_name = ''Cronos Mainnet'',
       net_chain_id = Some 25, net_rpc_url = ''https://evm.cronos.org'',
       net_explorer_url = ''https://explorer.cronos.org'', net_symbol = ''CRO'',
       net_decimals = 18, net_testnet = False,
       net_tokens = [\<lparr>tk_symbol = ''USDC'', tk_name = ''USD Coin'',
         tk_contract = usdc_cronos_mainnet, tk_decimals = 6\<rparr>]\<rparr>,
      \<lparr>net_id = ''cronos-testnet'', net_kind = Evm, net_name = ''Cronos Testnet'',
       net_chain_id = Some 338, net_rpc_url = ''https://evm-t3.cronos.org'',
       net_explorer_url = ''https://explorer.cronos.org/testnet'', net_symbol = ''TCRO'',
       net_decimals = 18, net_testnet = True, net_tokens = []\<rparr>,
      \<lparr>net_id = ''solana-mainnet'', net_kind = Solana, net_name = ''Solana Mainnet'',
       net_chain_id = None, net_rpc_url = ''https://api.mainnet-beta.solana.com'',
       net_explorer_url = ''https://explorer.solana.com'', net_symbol = ''SOL'',
       net_decimals = 9, net_testnet = False, net_tokens = []\<rparr>,
      \<lparr>net_id = ''cardano-mainnet'', net_kind = Cardano, net_name = ''Cardano Mainnet'',
       net_chain_id = None, net_rpc_url = [],
       net_explorer_url = ''https://cardanoscan.io'', net_symbol = ''ADA'',
       net_decimals = 6, net_testnet = False, net_tokens = []\<rparr>]"

section \<open>Amounts\<close>

datatype chain_error =
  InvalidAmount | TooManyDecimals | Overflow | InvalidQuantity | SigningFailed | NoSigningKey

definition parse_u128 :: "string \<Rightarrow> nat option" where
  "parse_u128 s = from_str_radix u128_limit 10 s"

text \<open>The last product cannot leave the 128 bits: the fraction has at most \<open>decimals\<close>
  digits and \<open>10 ^ decimals\<close> was checked.\<close>

definition parse_amount :: "string \<Rightarrow> nat \<Rightarrow> chain_error + nat" where
  "parse_amount input decimals =
     (let trimmed = trim input in
      if trimmed = [] then Inl InvalidAmount
      else let (whole, frac) = (case split_once (CHR ''.'') trimmed of
                                  Some (w, f) \<Rightarrow> (w, f) | None \<Rightarrow> (trimmed, []))
      in if (whole = [] \<and> frac = []) \<or> CHR ''.'' \<in> set frac then Inl InvalidAmount
      else if \<not> list_all is_ascii_digit whole \<or> \<not> list_all is_ascii_digit frac
        then Inl InvalidAmount
      else if length frac > decimals then Inl TooManyDecimals
      else try_bind (ok_or Overflow (checked_u128 (10 ^ decimals))) (\<lambda>scale.
        try_bind (if whole = [] then Inr 0 else ok_or Overflow (parse_u128 whole)) (\<lambda>w.
        try_bind (if frac = [] then Inr 0 else ok_or Overflow (parse_u128 frac)) (\<lambda>f.
        let frac_units = f * 10 ^ (decimals - length frac) mod u128_limit
        in ok_or Overflow
             (Option.bind (checked_u128 (w * scale)) (\<lambda>p. checked_u128 (p + frac_units)))))))"

definition pad_left :: "char \<Rightarrow> nat \<Rightarrow> string \<Rightarrow> string" where
  "pad_left c width s = replicate (width - length s) c @ s"

text \<open>\<^verbatim>\<open>10u128.pow\<close> wraps in the release build, and a scale of zero is a division
  by zero.\<close>

definition format_amount :: "nat \<Rightarrow> nat \<Rightarrow> string run" where
  "format_amount v decimals =
     (let scale = 10 ^ decimals mod u128_limit in
      if scale = 0 then Panic
      else let whole = v div scale; frac = v mod scale
      in if frac = 0 then Done (decimal whole)
      else Done (decimal whole @ ''.'' @
             trim_end_matches (CHR ''0'') (pad_left (CHR ''0'') decimals (decimal frac))))"

section \<open>JSON-RPC quantities and ABI words\<close>

definition strip_0x :: "string \<Rightarrow> string option" where
  "strip_0x s = (case strip_prefix ''0x'' s of Some t \<Rightarrow> Some t | None \<Rightarrow> strip_prefix ''0X'' s)"

definition parse_hex_quantity :: "string \<Rightarrow> chain_error + nat" where
  "parse_hex_quantity input =
     try_bind (ok_or InvalidQuantity (strip_0x input)) (\<lambda>stripped.
       if stripped = [] then Inl InvalidQuantity
       else ok_or InvalidQuantity (from_str_radix u128_limit 16 stripped))"

definition to_hex_quantity :: "nat \<Rightarrow> string" where
  "to_hex_quantity v = ''0x'' @ radix_string 16 v"

definition decode_abi_uint :: "(string \<Rightarrow> byte list option) \<Rightarrow> string \<Rightarrow> chain_error + nat" where
  "decode_abi_uint dec output =
     try_bind (ok_or InvalidQuantity (strip_0x output)) (\<lambda>stripped.
       if stripped = [] then Inr 0
       else try_bind (ok_or InvalidQuantity (dec stripped)) (\<lambda>bytes.
         if length bytes \<noteq> 32 then Inl InvalidQuantity
         else if \<exists>b \<in> set (take 16 bytes). b \<noteq> 0 then Inl Overflow
         else Inr (be_nat (drop 16 bytes))))"

definition addr_bytes :: "(string \<Rightarrow> byte list option) \<Rightarrow> wallet_address \<Rightarrow> byte list run" where
  "addr_bytes dec a = (case to_bytes dec a of Some bs \<Rightarrow> Done bs | None \<Rightarrow> Panic)"

definition erc20_transfer_data ::
    "(string \<Rightarrow> byte list option) \<Rightarrow> wallet_address \<Rightarrow> 128 word \<Rightarrow> byte list run" where
  "erc20_transfer_data dec to amount =
     run_bind (addr_bytes dec to) (\<lambda>bs.
       Done ([0xa9, 0x05, 0x9c, 0xbb] @ replicate 12 0 @ bs @ replicate 16 0
         @ be_bytes 16 (unat amount)))"

definition erc20_balance_of_data ::
    "(string \<Rightarrow> byte list option) \<Rightarrow> wallet_address \<Rightarrow> byte list run" where
  "erc20_balance_of_data dec owner =
     run_bind (addr_bytes dec owner) (\<lambda>bs.
       Done ([0x70, 0xa0, 0x82, 0x31] @ replicate 12 0 @ bs))"

definition intrinsic_gas :: "byte list \<Rightarrow> nat" where
  "intrinsic_gas data =
     (let data_gas = sum_list (map (\<lambda>b. if b = 0 then 10 else 40) data) mod u64_limit;
          g = data_gas * 6 mod u64_limit
      in (21000 + (g + 4) div 5) mod u64_limit)"

section \<open>RLP\<close>

definition strip_leading_zeros :: "byte list \<Rightarrow> byte list" where
  "strip_leading_zeros bytes = dropWhile (\<lambda>b. b = 0) bytes"

definition usize_be :: "nat \<Rightarrow> byte list" where
  "usize_be v = strip_leading_zeros (be_bytes 8 v)"

definition rlp_bytes :: "byte list \<Rightarrow> byte list" where
  "rlp_bytes bytes =
     (if length bytes = 1 \<and> hd bytes < 0x80 then bytes
      else if length bytes \<le> 55 then (0x80 + word_of_nat (length bytes)) # bytes
      else let len_bytes = usize_be (length bytes)
        in (0xb7 + word_of_nat (length len_bytes)) # len_bytes @ bytes)"

definition rlp_uint :: "128 word \<Rightarrow> byte list" where
  "rlp_uint v = rlp_bytes (strip_leading_zeros (be_bytes 16 (unat v)))"

definition rlp_list :: "byte list list \<Rightarrow> byte list" where
  "rlp_list items =
     (let payload_len = sum_list (map length items);
          out = (if payload_len \<le> 55 then [0xc0 + word_of_nat payload_len]
                 else let len_bytes = usize_be payload_len
                   in (0xf7 + word_of_nat (length len_bytes)) # len_bytes)
      in out @ concat items)"

section \<open>Legacy transactions\<close>

record legacy_transaction =
  tx_nonce :: "128 word"
  tx_gas_price :: "128 word"
  tx_gas_limit :: "128 word"
  tx_to :: "wallet_address option"
  tx_value :: "128 word"
  tx_data :: "byte list"
  tx_chain_id :: "64 word"

record signed_transaction =
  stx_raw :: "byte list"
  stx_hash :: "byte list"

definition rlp_encode ::
    "(string \<Rightarrow> byte list option) \<Rightarrow> legacy_transaction
     \<Rightarrow> (128 word \<times> byte list \<times> byte list) option \<Rightarrow> byte list run" where
  "rlp_encode dec tx tail =
     run_bind (case tx_to tx of None \<Rightarrow> Done [] | Some a \<Rightarrow> addr_bytes dec a) (\<lambda>to_bs.
       Done (rlp_list
         ([rlp_uint (tx_nonce tx), rlp_uint (tx_gas_price tx), rlp_uint (tx_gas_limit tx),
           rlp_bytes to_bs, rlp_uint (tx_value tx), rlp_bytes (tx_data tx)]
          @ (case tail of None \<Rightarrow> []
             | Some (v, r, s) \<Rightarrow> [rlp_uint v, rlp_bytes r, rlp_bytes s]))))"

definition sighash ::
    "(string \<Rightarrow> byte list option) \<Rightarrow> (byte list \<Rightarrow> byte list) \<Rightarrow> legacy_transaction
     \<Rightarrow> byte list run" where
  "sighash dec keccak tx =
     run_bind (rlp_encode dec tx (Some (ucast (tx_chain_id tx), [], []))) (\<lambda>payload.
       Done (keccak payload))"

definition sign_with_signature ::
    "(string \<Rightarrow> byte list option) \<Rightarrow> (byte list \<Rightarrow> byte list) \<Rightarrow> legacy_transaction
     \<Rightarrow> byte list \<Rightarrow> byte \<Rightarrow> signed_transaction run" where
  "sign_with_signature dec keccak tx rs recovery_id =
     (let v = tx_chain_id tx * 2 + 35 + ucast recovery_id;
          r = strip_leading_zeros (take 32 rs);
          s = strip_leading_zeros (drop 32 rs)
      in run_bind (rlp_encode dec tx (Some (ucast v, r, s))) (\<lambda>raw.
           Done \<lparr>stx_raw = raw, stx_hash = keccak raw\<rparr>))"

text \<open>\<^verbatim>\<open>sign\<close>: the ECDSA signer of the \<^verbatim>\<open>k256\<close> crate is the argument
  \<open>sign_prehash\<close>, from a digest to \<open>r\<close> and \<open>s\<close> in 64 bytes and the recovery id.\<close>

definition sign ::
    "(string \<Rightarrow> byte list option) \<Rightarrow> (byte list \<Rightarrow> byte list)
     \<Rightarrow> (byte list \<Rightarrow> (byte list \<times> byte) option) \<Rightarrow> legacy_transaction
     \<Rightarrow> (chain_error + signed_transaction) run" where
  "sign dec keccak sign_prehash tx =
     run_bind (sighash dec keccak tx) (\<lambda>digest.
       case sign_prehash digest of
         None \<Rightarrow> Done (Inl SigningFailed)
       | Some (rs, recovery_id) \<Rightarrow>
           run_bind (sign_with_signature dec keccak tx rs recovery_id) (\<lambda>t. Done (Inr t)))"

definition raw_hex :: "(byte list \<Rightarrow> string) \<Rightarrow> signed_transaction \<Rightarrow> string" where
  "raw_hex enc t = ''0x'' @ enc (stx_raw t)"

definition hash_hex :: "(byte list \<Rightarrow> string) \<Rightarrow> signed_transaction \<Rightarrow> string" where
  "hash_hex enc t = ''0x'' @ enc (stx_hash t)"


section \<open>Lemmas about amounts\<close>

lemma digit_chars:
  "is_ascii_digit c \<Longrightarrow> is_graphic c" "is_ascii_digit c \<Longrightarrow> c \<noteq> CHR ''.''"
  "is_graphic (CHR ''.'')" "is_ascii_digit (CHR ''0'')"
  by (auto simp: char_class_codes is_graphic_def)

lemma parse_u128_digits:
  assumes "s \<noteq> []" "\<forall>c \<in> set s. is_ascii_digit c" "digits_value 10 0 s = Some v"
  shows "parse_u128 s = (if v < u128_limit then Some v else None)"
  using assms plus_not_digit
  by (cases s) (auto simp: parse_u128_def from_str_radix_def)

lemma pow10_bound: "d \<le> 38 \<Longrightarrow> (10::nat) ^ d < u128_limit"
proof -
  assume "d \<le> 38"
  then have "(10::nat) ^ d \<le> 10 ^ 38" by (rule power_increasing) simp
  also have "\<dots> < u128_limit" by (simp add: u128_limit_def)
  finally show ?thesis .
qed

lemma point_split:
  assumes "trim s = w @ (if pt then CHR ''.'' # f else [])" "\<not> pt \<longrightarrow> f = []" "w \<noteq> [] \<or> f \<noteq> []"
    and "\<forall>c \<in> set w \<union> set f. is_ascii_digit c"
  shows "(case split_once (CHR ''.'') (trim s) of
            Some (a, b) \<Rightarrow> (a, b) | None \<Rightarrow> (trim s, [])) = (w, f)"
    and "trim s \<noteq> []" and "CHR ''.'' \<notin> set f"
proof -
  have "CHR ''.'' \<notin> set w" "CHR ''.'' \<notin> set f"
    using assms(4) digit_chars(2) by blast+
  with assms show "(case split_once (CHR ''.'') (trim s) of
            Some (a, b) \<Rightarrow> (a, b) | None \<Rightarrow> (trim s, [])) = (w, f)"
    and "trim s \<noteq> []" and "CHR ''.'' \<notin> set f"
    by (auto simp: split_once_append split_once_absent)
qed

text \<open>What a parsed amount is: the digits before the point, scaled, plus the digits after it,
  scaled by what is left of the decimals; an error on every other input.\<close>

lemma parse_amount_parts:
  assumes "trim s = w @ (if pt then CHR ''.'' # f else [])" "\<not> pt \<longrightarrow> f = []" "w \<noteq> [] \<or> f \<noteq> []"
    and "\<forall>c \<in> set w \<union> set f. is_ascii_digit c" "length f \<le> d" "d \<le> 38"
    and "digits_value 10 0 w = Some m" "digits_value 10 0 f = Some n"
  shows "parse_amount s d = ok_or Overflow (checked_u128 (m * 10 ^ d + n * 10 ^ (d - length f)))"
proof -
  note parts = point_split [OF assms(1-4)]
  have n: "n < 10 ^ length f"
    using digits_value_defined [of f 0] assms(4,8) by auto
  have nd: "n * 10 ^ (d - length f) < u128_limit"
  proof -
    have "n * 10 ^ (d - length f) < 10 ^ length f * 10 ^ (d - length f)" using n by simp
    also have "\<dots> = 10 ^ d" using assms(5) by (simp add: power_add [symmetric])
    finally show ?thesis using pow10_bound [OF assms(6)] by simp
  qed
  have f: "(if f = [] then Inr 0 else ok_or Overflow (parse_u128 f)) = Inr n"
  proof (cases "f = []")
    case False
    have "n \<le> n * 10 ^ (d - length f)" by simp
    with nd have "n < u128_limit" by linarith
    with False show ?thesis using assms(4,8) by (simp add: parse_u128_digits)
  qed (use assms(8) in simp)
  have wle: "m \<le> m * 10 ^ d + n * 10 ^ (d - length f)"
    by (simp add: trans_le_add1)
  have w: "(if w = [] then Inr 0 else ok_or Overflow (parse_u128 w)) =
      (if m < u128_limit then Inr m else Inl Overflow)"
    using assms(4,7) by (cases "w = []") (auto simp: parse_u128_digits)
  show ?thesis
    using parts assms(3,4,5) w f nd wle pow10_bound [OF assms(6)]
    by (auto simp: parse_amount_def Let_def list_all_iff checked_u128_def)
qed

lemma format_amount_cases:
  assumes "d \<le> 38"
  shows "format_amount v d =
    Done (if v mod 10 ^ d = 0 then decimal (v div 10 ^ d)
          else decimal (v div 10 ^ d) @ ''.'' @
             trim_end_matches (CHR ''0'') (pad_left (CHR ''0'') d (decimal (v mod 10 ^ d))))"
  using pow10_bound [OF assms] by (simp add: format_amount_def Let_def)

lemma decimal_value: "digits_value 10 0 (decimal n) = Some n"
  by (simp add: decimal_def digits_value_radix_string)

lemma decimal_not_Nil [simp]: "decimal n \<noteq> []"
  by (simp add: decimal_def)

lemma fraction_digits:
  assumes "0 < n" "n < 10 ^ d"
  defines "t \<equiv> trim_end_matches (CHR ''0'') (pad_left (CHR ''0'') d (decimal n))"
  shows "\<exists>k m. t \<noteq> [] \<and> (\<forall>c \<in> set t. is_ascii_digit c) \<and> length t + k = d
     \<and> digits_value 10 0 t = Some m \<and> m * 10 ^ k = n"
proof -
  let ?pad = "pad_left (CHR ''0'') d (decimal n)"
  obtain k where k: "?pad = t @ replicate k (CHR ''0'')"
    unfolding t_def using trim_end_matches_split by blast
  have "d \<noteq> 0" using assms by (cases d) auto
  then have "length (decimal n) \<le> d"
    using length_radix_string [of 10 n "d - 1"] assms by (simp add: decimal_def)
  then have len: "length t + k = d"
    using arg_cong [OF k, of length] by (simp add: pad_left_def)
  have val: "digits_value 10 0 ?pad = Some n"
    by (simp add: pad_left_def digits_value_append digits_value_zeros decimal_value)
  then obtain m where m: "digits_value 10 0 t = Some m"
    unfolding k by (auto simp: digits_value_append split: option.splits)
  with val have mk: "m * 10 ^ k = n"
    unfolding k by (simp add: digits_value_append digits_value_zeros)
  have "t \<noteq> []" using m mk assms(1) by auto
  moreover have "\<forall>c \<in> set t. is_ascii_digit c"
  proof
    fix c assume "c \<in> set t"
    then have "c \<in> set ?pad" unfolding k by simp
    then show "is_ascii_digit c"
      using decimal_digits [of n] digit_chars(4) by (auto simp: pad_left_def split: if_splits)
  qed
  ultimately show ?thesis using len m mk by blast
qed

lemma decimal_all: "c \<in> set (decimal n) \<Longrightarrow> is_ascii_digit c"
  using decimal_digits by blast

section \<open>Properties of amounts\<close>

text \<open>Formatting an amount and parsing it back gives the amount: for every value of a
  \<^verbatim>\<open>u128\<close> and every token of at most 38 decimals, \<^verbatim>\<open>format_amount\<close> does not
  panic and \<^verbatim>\<open>parse_amount\<close> of its result is the value, to the last unit.\<close>

theorem amount_roundtrip:
  assumes "v < u128_limit" and "d \<le> 38"
  shows "\<exists>s. format_amount v d = Done s \<and> parse_amount s d = Inr v"
proof (cases "v mod 10 ^ d = 0")
  case True
  let ?w = "decimal (v div 10 ^ d)"
  have "trim ?w = ?w"
    by (intro trim_graphic) (auto dest: decimal_all simp: digit_chars)
  then have "parse_amount ?w d = ok_or Overflow (checked_u128 (v div 10 ^ d * 10 ^ d))"
    using parse_amount_parts [of ?w ?w False "[]" d "v div 10 ^ d" 0] assms(2)
    by (simp add: decimal_value decimal_all decimal_not_Nil)
  with True assms show ?thesis by (auto simp: format_amount_cases)
next
  case False
  let ?t = "trim_end_matches (CHR ''0'') (pad_left (CHR ''0'') d (decimal (v mod 10 ^ d)))"
  obtain k m where t: "?t \<noteq> []" "\<forall>c \<in> set ?t. is_ascii_digit c" "length ?t + k = d"
      "digits_value 10 0 ?t = Some m" "m * 10 ^ k = v mod 10 ^ d"
    using fraction_digits [of "v mod 10 ^ d" d] False by auto
  let ?s = "decimal (v div 10 ^ d) @ CHR ''.'' # ?t"
  have "trim ?s = ?s"
    using t(2) by (intro trim_graphic) (auto dest: decimal_all simp: digit_chars)
  moreover have "d - length ?t = k" using t(3) by linarith
  ultimately have "parse_amount ?s d =
      ok_or Overflow (checked_u128 (v div 10 ^ d * 10 ^ d + v mod 10 ^ d))"
    (is "_ = ok_or Overflow (checked_u128 ?sum)")
    using parse_amount_parts [of ?s "decimal (v div 10 ^ d)" True ?t d "v div 10 ^ d" m] t assms(2)
    by (simp add: decimal_value decimal_all ball_Un)
  moreover have "?sum = v" by (rule div_mult_mod_eq)
  ultimately have "parse_amount ?s d = Inr v" using assms(1) by simp
  with False assms show ?thesis by (simp add: format_amount_cases)
qed

theorem amount_roundtrip_witness:
  "\<exists>s. format_amount 1500000000000000000 18 = Done s \<and> parse_amount s 18 = Inr 1500000000000000000"
  by (rule amount_roundtrip) (simp_all add: u128_limit_def)


text \<open>\<^verbatim>\<open>parse_amount\<close> is exact and never rounds: from digits with an optional point
  it returns the digits as an integer at the token's scale, refuses more fractional digits than
  the token has, and reports an overflow exactly when the units do not fit 128 bits.\<close>

theorem parse_amount_exact:
  assumes "trim s = w @ (if pt then CHR ''.'' # f else [])" and "\<not> pt \<longrightarrow> f = []"
    and "w \<noteq> [] \<or> f \<noteq> []" and "\<forall>c \<in> set w \<union> set f. is_ascii_digit c"
    and "d \<le> 38" and "digits_value 10 0 w = Some m" and "digits_value 10 0 f = Some n"
  shows "parse_amount s d =
    (if d < length f then Inl TooManyDecimals
     else if m * 10 ^ d + n * 10 ^ (d - length f) < u128_limit
       then Inr (m * 10 ^ d + n * 10 ^ (d - length f))
     else Inl Overflow)"
proof (cases "length f \<le> d")
  case True
  with parse_amount_parts [OF assms(1-4) True assms(5-7)] show ?thesis
    by (auto simp: checked_u128_def)
next
  case False
  note parts = point_split [OF assms(1-4)]
  with False assms(3,4) show ?thesis
    by (auto simp: parse_amount_def Let_def list_all_iff)
qed

theorem parse_amount_exact_witness:
  "parse_amount '' 12.345 '' 3 = Inr 12345 \<and> parse_amount ''12.345'' 2 = Inl TooManyDecimals"
proof -
  have "trim '' 12.345 '' = ''12'' @ (if True then CHR ''.'' # ''345'' else [])"
       "trim ''12.345'' = ''12'' @ (if True then CHR ''.'' # ''345'' else [])"
       "digits_value 10 0 ''12'' = Some 12" "digits_value 10 0 ''345'' = Some 345"
       "\<forall>c \<in> set ''12'' \<union> set ''345''. is_ascii_digit c"
    by code_simp+
  then show ?thesis
    using parse_amount_exact [of "'' 12.345 ''" "''12''" True "''345''" 3 12 345]
      parse_amount_exact [of "''12.345''" "''12''" True "''345''" 2 12 345]
    by (simp add: u128_limit_def)
qed

lemma hex_string_value: "digits_value 16 0 (radix_string 16 v) = Some v"
  by (simp add: digits_value_radix_string)

lemma hex_string_no_sign: "hd (radix_string 16 v) \<noteq> CHR ''+''"
proof -
  have "hd (radix_string 16 v) \<in> set (radix_string 16 v)" by simp
  then obtain d where "d < 16" "hd (radix_string 16 v) = digit_char d"
    using radix_string_digits [of 16 v] by fastforce
  then show ?thesis using digit_char_class(2) plus_not_digit(2) by metis
qed

text \<open>Quantities: \<^verbatim>\<open>to_hex_quantity\<close> writes a \<^verbatim>\<open>0x\<close> string without
  leading zeros that \<^verbatim>\<open>parse_hex_quantity\<close> reads back; the parser returns values of
  128 bits only, and refuses a string without the prefix.\<close>

theorem hex_quantity_roundtrip:
  "(v < u128_limit \<longrightarrow> parse_hex_quantity (to_hex_quantity v) = Inr v)
   \<and> (parse_hex_quantity s = Inr n \<longrightarrow>
        n < u128_limit \<and> (starts_with ''0x'' s \<or> starts_with ''0X'' s))"
proof -
  have "parse_hex_quantity (to_hex_quantity v) = Inr v" if "v < u128_limit"
    using that from_str_radix_digits [OF _ hex_string_no_sign hex_string_value that]
    by (simp add: parse_hex_quantity_def to_hex_quantity_def strip_0x_def del: append_Cons append_Nil)
  moreover have "n < u128_limit \<and> (starts_with ''0x'' s \<or> starts_with ''0X'' s)"
    if "parse_hex_quantity s = Inr n"
    using that from_str_radix_bound
    by (auto simp: parse_hex_quantity_def try_bind_Inr_iff strip_0x_def strip_prefix_def
        split: option.splits if_splits)
  ultimately show ?thesis by blast
qed

theorem hex_quantity_roundtrip_witness:
  "parse_hex_quantity (to_hex_quantity 436) = Inr 436"
  using hex_quantity_roundtrip [of 436] by (simp add: u128_limit_def)


section \<open>Reading RLP back\<close>

text \<open>A decoder of one RLP string item off the front of a byte list, used to state that the
  encoder loses nothing; it is not part of the program. A list item is read by its header.\<close>

definition rlp_take :: "nat \<Rightarrow> byte list \<Rightarrow> (byte list \<times> byte list) option" where
  "rlp_take n bs = (if n \<le> length bs then Some (take n bs, drop n bs) else None)"

fun rlp_read :: "byte list \<Rightarrow> (byte list \<times> byte list) option" where
  "rlp_read [] = None"
| "rlp_read (b # bs) =
     (if unat b < 128 then Some ([b], bs)
      else if unat b \<le> 183 then rlp_take (unat b - 128) bs
      else if unat b \<le> 191 then
        (case rlp_take (unat b - 183) bs of None \<Rightarrow> None
         | Some (len, rest) \<Rightarrow> rlp_take (be_nat len) rest)
      else None)"

fun rlp_read_list :: "byte list \<Rightarrow> byte list option" where
  "rlp_read_list [] = None"
| "rlp_read_list (b # bs) =
     (if unat b < 192 then None
      else if unat b \<le> 247 then Some bs
      else map_option snd (rlp_take (unat b - 247) bs))"

lemma be_nat_strip: "be_nat (strip_leading_zeros bs) = be_nat bs"
proof -
  have "be_nat (b # bs) = be_nat bs" if "b = 0" for b and bs :: "byte list"
    using that by (simp add: be_nat_def)
  then show ?thesis by (induction bs) (auto simp: strip_leading_zeros_def)
qed

lemma length_strip: "length (strip_leading_zeros bs) \<le> length bs"
  unfolding strip_leading_zeros_def by (rule length_dropWhile_le)

lemma usize_be_nat: "n < 2 ^ 64 \<Longrightarrow> be_nat (usize_be n) = n"
  by (simp add: usize_be_def be_nat_strip be_nat_be_bytes)

lemma usize_be_length: "length (usize_be n) \<le> 8"
  unfolding usize_be_def using length_strip [of "be_bytes 8 n"] by simp

lemma usize_be_nonempty: "0 < n \<Longrightarrow> n < 2 ^ 64 \<Longrightarrow> 0 < length (usize_be n)"
  using usize_be_nat [of n] by (cases "usize_be n") auto

lemma header_byte: "m + n < 256 \<Longrightarrow> unat (word_of_nat m + word_of_nat n :: byte) = m + n"
  using unat_byte_of_nat [of "m + n"] by simp

lemma header_80: "n < 128 \<Longrightarrow> unat (0x80 + word_of_nat n :: byte) = 128 + n"
  and header_b7: "n < 73 \<Longrightarrow> unat (0xb7 + word_of_nat n :: byte) = 183 + n"
  and header_c0: "n < 64 \<Longrightarrow> unat (0xc0 + word_of_nat n :: byte) = 192 + n"
  and header_f7: "n < 9 \<Longrightarrow> unat (0xf7 + word_of_nat n :: byte) = 247 + n"
  using header_byte [of 128 n] header_byte [of 183 n] header_byte [of 192 n] header_byte [of 247 n]
  by simp_all

lemma rlp_take_append [simp]: "n = length a \<Longrightarrow> rlp_take n (a @ b) = Some (a, b)"
  by (simp add: rlp_take_def)

lemma rlp_read_bytes:
  assumes "length bs < 2 ^ 64"
  shows "rlp_read (rlp_bytes bs @ rest) = Some (bs, rest)"
proof (cases "length bs = 1 \<and> hd bs < 0x80")
  case True
  then obtain b where "bs = [b]" "b < 0x80" by (cases bs) auto
  then show ?thesis by (simp add: rlp_bytes_def word_less_nat_alt)
next
  case False
  show ?thesis
  proof (cases "length bs \<le> 55")
    case True
    then show ?thesis using False by (auto simp: rlp_bytes_def header_80)
  next
    case long: False
    then have "0 < length bs" by linarith
    then have "0 < length (usize_be (length bs))" using assms by (rule usize_be_nonempty)
    with long assms show ?thesis
      using usize_be_length [of "length bs"]
      by (simp add: rlp_bytes_def header_b7 usize_be_nat Let_def)
  qed
qed

lemma rlp_read_list_items:
  assumes "sum_list (map length items) < 2 ^ 64"
  shows "rlp_read_list (rlp_list items) = Some (concat items)"
proof (cases "sum_list (map length items) \<le> 55")
  case True
  then show ?thesis by (simp add: rlp_list_def header_c0)
next
  case False
  then have "0 < length (usize_be (sum_list (map length items)))"
    using usize_be_nonempty assms by simp
  with False show ?thesis
    using usize_be_length [of "sum_list (map length items)"]
    by (simp add: rlp_list_def header_f7 Let_def)
qed

text \<open>The items of a list of byte strings, read in order.\<close>

fun rlp_read_all :: "nat \<Rightarrow> byte list \<Rightarrow> byte list list option" where
  "rlp_read_all 0 bs = (if bs = [] then Some [] else None)"
| "rlp_read_all (Suc n) bs =
     (case rlp_read bs of None \<Rightarrow> None
      | Some (x, rest) \<Rightarrow> map_option ((#) x) (rlp_read_all n rest))"

lemma rlp_read_all_concat:
  "\<forall>x \<in> set xs. length x < 2 ^ 64 \<Longrightarrow>
     rlp_read_all (length xs) (concat (map rlp_bytes xs)) = Some xs"
  by (induction xs) (auto simp: rlp_read_bytes)

lemma rlp_list_read_back:
  assumes "\<forall>x \<in> set xs. length x < 2 ^ 64"
    and "sum_list (map length (map rlp_bytes xs)) < 2 ^ 64"
  shows "Option.bind (rlp_read_list (rlp_list (map rlp_bytes xs))) (rlp_read_all (length xs)) = Some xs"
  using assms by (simp only: rlp_read_list_items rlp_read_all_concat Option.bind.bind_lunit)

lemma uint_field_inject:
  "strip_leading_zeros (be_bytes 16 (unat v)) = strip_leading_zeros (be_bytes 16 (unat w))
     \<longleftrightarrow> v = (w :: 128 word)"
proof
  assume "strip_leading_zeros (be_bytes 16 (unat v)) = strip_leading_zeros (be_bytes 16 (unat w))"
  then have "be_nat (be_bytes 16 (unat v)) = be_nat (be_bytes 16 (unat w))"
    by (metis be_nat_strip)
  moreover have "unat v < 256 ^ 16" "unat w < 256 ^ 16"
    using unsigned_less [of v] unsigned_less [of w] by simp_all
  ultimately show "v = w" by (simp add: be_nat_be_bytes word_unat_eq_iff)
qed simp


section \<open>What a signature covers\<close>

definition tx_fields ::
    "byte list \<Rightarrow> legacy_transaction \<Rightarrow> 128 word \<Rightarrow> byte list \<Rightarrow> byte list \<Rightarrow> byte list list" where
  "tx_fields to_bs tx v r s =
     [strip_leading_zeros (be_bytes 16 (unat (tx_nonce tx))),
      strip_leading_zeros (be_bytes 16 (unat (tx_gas_price tx))),
      strip_leading_zeros (be_bytes 16 (unat (tx_gas_limit tx))),
      to_bs,
      strip_leading_zeros (be_bytes 16 (unat (tx_value tx))),
      tx_data tx,
      strip_leading_zeros (be_bytes 16 (unat v)), r, s]"

definition recipient_bytes ::
    "(string \<Rightarrow> byte list option) \<Rightarrow> legacy_transaction \<Rightarrow> byte list run" where
  "recipient_bytes dec tx = (case tx_to tx of None \<Rightarrow> Done [] | Some a \<Rightarrow> addr_bytes dec a)"

lemma rlp_encode_fields:
  "rlp_encode dec tx (Some (v, r, s)) =
     run_bind (recipient_bytes dec tx) (\<lambda>to_bs. Done (rlp_list (map rlp_bytes (tx_fields to_bs tx v r s))))"
  by (simp add: rlp_encode_def tx_fields_def rlp_uint_def recipient_bytes_def)

lemma length_rlp_bytes: "length (rlp_bytes bs) \<le> length bs + 9"
  using usize_be_length [of "length bs"] by (auto simp: rlp_bytes_def Let_def)

lemma length_uint_field: "length (strip_leading_zeros (be_bytes 16 n)) \<le> 16"
  using length_strip [of "be_bytes 16 n"] by simp

lemma sum_length_rlp:
  "sum_list (map length (map rlp_bytes xs)) \<le> sum_list (map length xs) + 9 * length xs"
proof (induction xs)
  case (Cons x xs)
  then show ?case using length_rlp_bytes [of x] by simp
qed simp

text \<open>A transaction the wallet can hold: its recipient is a constructed address and its data
  fits in memory.\<close>

definition tx_ok :: "legacy_transaction \<Rightarrow> bool" where
  "tx_ok tx \<longleftrightarrow> (\<forall>a. tx_to tx = Some a \<longrightarrow> wallet_ok a) \<and> length (tx_data tx) < 2 ^ 63"

context hex_codec begin

lemma addr_bytes_defined:
  "wallet_ok a \<Longrightarrow> \<exists>bs. addr_bytes dec a = Done bs \<and> length bs = 20 \<and> from_bytes enc bs = a"
  using to_bytes_defined [of a] by (auto simp: addr_bytes_def)

lemma recipient_bytes_defined:
  "tx_ok tx \<Longrightarrow> \<exists>bs. recipient_bytes dec tx = Done bs \<and> length bs \<le> 20"
  using addr_bytes_defined by (cases "tx_to tx") (fastforce simp: recipient_bytes_def tx_ok_def)+

lemma recipient_bytes_inject:
  assumes "tx_ok t" "tx_ok u" "recipient_bytes dec t = recipient_bytes dec u"
  shows "tx_to t = tx_to u"
proof -
  have some: "\<exists>bs. recipient_bytes dec x = Done bs \<and> length bs = 20 \<and> from_bytes enc bs = a"
    if "tx_ok x" "tx_to x = Some a" for x a
    using that addr_bytes_defined [of a] by (simp add: recipient_bytes_def tx_ok_def)
  have none: "recipient_bytes dec x = Done []" if "tx_to x = None" for x
    using that by (simp add: recipient_bytes_def)
  show ?thesis
  proof (cases "tx_to t")
    case None
    then show ?thesis
      using none [OF None] some [OF assms(2)] assms(3) by (cases "tx_to u") auto
  next
    case (Some a)
    show ?thesis
    proof (cases "tx_to u")
      case None
      then show ?thesis using none [OF None] some [OF assms(1) Some] assms(3) by auto
    next
      case (Some b)
      then show ?thesis
        using some [OF assms(1) \<open>tx_to t = Some a\<close>] some [OF assms(2) Some]
          \<open>tx_to t = Some a\<close> assms(3) by auto
    qed
  qed
qed

lemma fields_read_back:
  assumes "tx_ok tx" "recipient_bytes dec tx = Done to_bs" "length r \<le> 32" "length s \<le> 32"
  shows "Option.bind (rlp_read_list (rlp_list (map rlp_bytes (tx_fields to_bs tx v r s))))
           (rlp_read_all 9) = Some (tx_fields to_bs tx v r s)"
proof -
  let ?xs = "tx_fields to_bs tx v r s"
  have to_bs: "length to_bs \<le> 20"
    using recipient_bytes_defined [OF assms(1)] assms(2) by auto
  have sum: "sum_list (map length ?xs) \<le> length (tx_data tx) + 164"
    using to_bs assms(3,4) length_uint_field [of "unat (tx_nonce tx)"]
      length_uint_field [of "unat (tx_gas_price tx)"] length_uint_field [of "unat (tx_gas_limit tx)"]
      length_uint_field [of "unat (tx_value tx)"] length_uint_field [of "unat v"]
    by (simp add: tx_fields_def)
  have each: "\<forall>x \<in> set ?xs. length x < 2 ^ 64"
  proof
    fix x assume "x \<in> set ?xs"
    then have "length x \<le> sum_list (map length ?xs)" by (intro member_le_sum_list) auto
    with sum assms(1) show "length x < 2 ^ 64" by (simp add: tx_ok_def)
  qed
  have "length ?xs = 9" by (simp add: tx_fields_def)
  then have "sum_list (map length (map rlp_bytes ?xs)) < 2 ^ 64"
    using sum_length_rlp [of ?xs] sum assms(1) by (simp add: tx_ok_def)
  with each rlp_list_read_back [of ?xs] \<open>length ?xs = 9\<close> show ?thesis by simp
qed

lemma payload_inject:
  assumes "tx_ok t" "tx_ok u" "length r \<le> 32" "length s \<le> 32" "length r' \<le> 32" "length s' \<le> 32"
    and "rlp_encode dec t (Some (v, r, s)) = rlp_encode dec u (Some (v', r', s'))"
  shows "t\<lparr>tx_chain_id := c\<rparr> = u\<lparr>tx_chain_id := c\<rparr> \<and> v = v' \<and> r = r' \<and> s = s'"
proof -
  obtain a b where ab: "recipient_bytes dec t = Done a" "recipient_bytes dec u = Done b"
    using recipient_bytes_defined assms(1,2) by blast
  have "rlp_list (map rlp_bytes (tx_fields a t v r s)) =
      rlp_list (map rlp_bytes (tx_fields b u v' r' s'))"
    using assms(7) by (simp add: rlp_encode_fields ab)
  then have "tx_fields a t v r s = tx_fields b u v' r' s'"
    using fields_read_back [OF assms(1) ab(1) assms(3,4), of v]
      fields_read_back [OF assms(2) ab(2) assms(5,6), of v'] by (metis option.inject)
  then have eqs: "a = b" "tx_nonce t = tx_nonce u" "tx_gas_price t = tx_gas_price u"
      "tx_gas_limit t = tx_gas_limit u" "tx_value t = tx_value u" "tx_data t = tx_data u"
      "v = v'" "r = r'" "s = s'"
    by (simp_all add: tx_fields_def uint_field_inject)
  moreover have "tx_to t = tx_to u"
    using recipient_bytes_inject [OF assms(1,2)] ab eqs(1) by simp
  ultimately show ?thesis by simp
qed

end


section \<open>Properties of transactions\<close>

text \<open>RLP: a decoder that only knows the format reads back, from the encoding of a list of
  byte strings and nothing else, exactly those strings in order; so the encoding of a list
  determines it.\<close>

theorem rlp_roundtrip:
  assumes "\<forall>x \<in> set xs. length x < 2 ^ 64"
    and "sum_list (map length (map rlp_bytes xs)) < 2 ^ 64"
  shows "Option.bind (rlp_read_list (rlp_list (map rlp_bytes xs))) (rlp_read_all (length xs)) = Some xs"
  using assms by (rule rlp_list_read_back)

definition sample_items :: "byte list list" where
  "sample_items = [[], [5], [200], replicate 60 1]"

theorem rlp_roundtrip_witness:
  "Option.bind (rlp_read_list (rlp_list (map rlp_bytes sample_items)))
     (rlp_read_all (length sample_items)) = Some sample_items"
proof (rule rlp_roundtrip)
  show "\<forall>x \<in> set sample_items. length x < 2 ^ 64" by (simp add: sample_items_def)
  show "sum_list (map length (map rlp_bytes sample_items)) < 2 ^ 64"
    using sum_length_rlp [of sample_items] by (simp add: sample_items_def)
qed

lemma ucast_chain_inject: "(ucast c :: 128 word) = ucast d \<longleftrightarrow> c = (d :: 64 word)"
proof
  assume eq: "(ucast c :: 128 word) = ucast d"
  have "unat (ucast x :: 128 word) = unat x" for x :: "64 word"
  proof -
    have "unat x < 2 ^ 64" using unsigned_less [of x] by simp
    then have "unat x < 2 ^ 128" by simp
    then show ?thesis by (simp add: unsigned_ucast_eq take_bit_nat_eq_self)
  qed
  with eq show "c = d" by (metis word_unat_eq_iff)
qed simp

text \<open>C39. Replay protection: the EIP-155 payload determines the transaction. Two transactions
  of the wallet with the same payload are the same transaction on the same chain, and so equal
  signing digests of different transactions, or of one transaction for two chains, are a
  collision of the hash.\<close>

theorem sighash_covers_transaction:
  assumes "hex_codec enc dec" and "tx_ok t" and "tx_ok u"
    and "sighash dec keccak t = sighash dec keccak u" and "t \<noteq> u"
  shows "\<exists>p q. p \<noteq> q \<and> keccak p = keccak q
    \<and> rlp_encode dec t (Some (ucast (tx_chain_id t), [], [])) = Done p
    \<and> rlp_encode dec u (Some (ucast (tx_chain_id u), [], [])) = Done q"
proof -
  have inj: "rlp_encode dec t (Some (ucast (tx_chain_id t), [], [])) \<noteq>
      rlp_encode dec u (Some (ucast (tx_chain_id u), [], []))"
  proof
    assume "rlp_encode dec t (Some (ucast (tx_chain_id t), [], [])) =
      rlp_encode dec u (Some (ucast (tx_chain_id u), [], []))"
    then have "t\<lparr>tx_chain_id := 0\<rparr> = u\<lparr>tx_chain_id := 0\<rparr>" "tx_chain_id t = tx_chain_id u"
      using hex_codec.payload_inject [OF assms(1-3), of "[]" "[]" "[]" "[]"
          "ucast (tx_chain_id t)" "ucast (tx_chain_id u)"]
      by (simp_all add: ucast_chain_inject)
    then have "t = u" by (cases t; cases u) simp
    with assms(5) show False by simp
  qed
  obtain a b where "recipient_bytes dec t = Done a" "recipient_bytes dec u = Done b"
    using hex_codec.recipient_bytes_defined [OF assms(1)] assms(2,3) by blast
  then have "\<exists>p. rlp_encode dec t (Some (ucast (tx_chain_id t), [], [])) = Done p"
      "\<exists>q. rlp_encode dec u (Some (ucast (tx_chain_id u), [], [])) = Done q"
    by (simp_all add: rlp_encode_fields)
  with inj assms(4) show ?thesis by (auto simp: sighash_def)
qed


definition sample_tx :: legacy_transaction where
  "sample_tx = \<lparr>tx_nonce = 9, tx_gas_price = 20000000000, tx_gas_limit = 21000,
     tx_to = Some (WalletAddress ''0x3535353535353535353535353535353535353535''),
     tx_value = 1000000000000000000, tx_data = [], tx_chain_id = 25\<rparr>"

lemma sample_tx_ok: "tx_ok sample_tx" "tx_ok (sample_tx\<lparr>tx_chain_id := 338\<rparr>)"
  by (simp_all add: tx_ok_def sample_tx_def wallet_ok_def starts_with_def char_class_codes)

theorem sighash_covers_transaction_witness:
  "\<exists>p q. p \<noteq> q \<and> rlp_encode hex_decode sample_tx (Some (ucast (tx_chain_id sample_tx), [], [])) = Done p
    \<and> rlp_encode hex_decode (sample_tx\<lparr>tx_chain_id := 338\<rparr>)
        (Some (ucast (tx_chain_id (sample_tx\<lparr>tx_chain_id := 338\<rparr>)), [], [])) = Done q"
proof -
  have ne: "sample_tx \<noteq> sample_tx\<lparr>tx_chain_id := 338\<rparr>"
    by (simp add: sample_tx_def)
  have "sighash hex_decode (\<lambda>_. []) sample_tx =
      sighash hex_decode (\<lambda>_. []) (sample_tx\<lparr>tx_chain_id := 338\<rparr>)"
    using hexc.recipient_bytes_defined [OF sample_tx_ok(1)]
      hexc.recipient_bytes_defined [OF sample_tx_ok(2)]
    by (auto simp: sighash_def rlp_encode_fields)
  from sighash_covers_transaction [OF hexc.hex_codec_axioms sample_tx_ok this ne]
  show ?thesis by blast
qed

lemma v_value:
  assumes "unat c < 2 ^ 62" "unat (p :: byte) \<le> 1"
  shows "unat (c * 2 + 35 + ucast p :: 64 word) = 2 * unat c + 35 + unat p"
proof -
  have "unat (ucast p :: 64 word) = unat p"
    using assms(2) by (simp add: unsigned_ucast_eq take_bit_nat_eq_self)
  with assms show ?thesis by (simp add: unat_word_ariths)
qed

text \<open>A signed transaction carries its chain and its parity in \<open>v\<close>: for the chain ids
  of the registry and any other below \<open>2 ^ 62\<close>, \<open>v = 2 * chain_id + 35 + parity\<close> without
  wrapping, so both are recovered from \<open>v\<close>, and the raw bytes determine \<open>v\<close>, \<open>r\<close>,
  \<open>s\<close> and every other field.\<close>

theorem signed_raw_determines:
  assumes "hex_codec enc dec" and "tx_ok t" and "tx_ok u"
    and "length rs = 64" and "length rs' = 64" and "unat p \<le> 1" and "unat p' \<le> 1"
    and "unat (tx_chain_id t) < 2 ^ 62" and "unat (tx_chain_id u) < 2 ^ 62"
    and "sign_with_signature dec keccak t rs p = Done a"
    and "sign_with_signature dec keccak u rs' p' = Done b"
    and "stx_raw a = stx_raw b"
  shows "t = u \<and> rs = rs' \<and> p = p' \<and> a = b"
proof -
  let ?v = "\<lambda>x q. tx_chain_id x * 2 + 35 + ucast (q :: byte)"
  let ?r = "\<lambda>x. strip_leading_zeros (take 32 x)" and ?s = "\<lambda>x. strip_leading_zeros (drop 32 x)"
  have len: "length (?r x) \<le> 32 \<and> length (?s x) \<le> 32" if "length x = 64" for x
    using that length_strip [of "take 32 x"] length_strip [of "drop 32 x"] by simp
  have enc: "rlp_encode dec t (Some (ucast (?v t p), ?r rs, ?s rs)) =
      rlp_encode dec u (Some (ucast (?v u p'), ?r rs', ?s rs'))"
    using assms(10-12) by (auto simp: sign_with_signature_def Let_def run_bind_Done_iff)
  have eqs: "t\<lparr>tx_chain_id := 0\<rparr> = u\<lparr>tx_chain_id := 0\<rparr>" "?v t p = ?v u p'"
      "?r rs = ?r rs'" "?s rs = ?s rs'"
    using hex_codec.payload_inject [OF assms(1-3) _ _ _ _ enc] len assms(4,5)
    by (auto simp: ucast_chain_inject)
  have "2 * unat (tx_chain_id t) + 35 + unat p = 2 * unat (tx_chain_id u) + 35 + unat p'"
    using v_value [of "tx_chain_id t" p] v_value [of "tx_chain_id u" p'] eqs(2) assms(6-9) by simp
  with assms(6,7) have "unat (tx_chain_id t) = unat (tx_chain_id u)" "unat p = unat p'"
    by presburger+
  then have ids: "tx_chain_id t = tx_chain_id u" "p = p'"
    by (simp_all add: word_unat_eq_iff)
  with eqs(1) have "t = u" by (cases t; cases u) simp
  have strip_eq: "x = y" if "length x = length y" "strip_leading_zeros x = strip_leading_zeros y"
    for x y :: "byte list"
    using that be_bytes_be_nat [of x] be_bytes_be_nat [of y] be_nat_strip by metis
  have "take 32 rs = take 32 rs'" "drop 32 rs = drop 32 rs'"
    using eqs(3,4) assms(4,5) by (auto intro: strip_eq)
  then have "rs = rs'" by (metis append_take_drop_id)
  with \<open>t = u\<close> ids assms(10,11) show ?thesis by simp
qed


theorem signed_raw_determines_witness:
  "\<exists>a b. sign_with_signature hex_decode (\<lambda>_. []) sample_tx (replicate 64 1) 1 = Done a
    \<and> sign_with_signature hex_decode (\<lambda>_. []) (sample_tx\<lparr>tx_chain_id := 338\<rparr>) (replicate 64 1) 1 = Done b
    \<and> stx_raw a \<noteq> stx_raw b"
proof -
  let ?u = "sample_tx\<lparr>tx_chain_id := 338\<rparr>"
  obtain a b where ab:
      "sign_with_signature hex_decode (\<lambda>_. []) sample_tx (replicate 64 1) 1 = Done a"
      "sign_with_signature hex_decode (\<lambda>_. []) ?u (replicate 64 1) 1 = Done b"
    using hexc.recipient_bytes_defined [OF sample_tx_ok(1)]
      hexc.recipient_bytes_defined [OF sample_tx_ok(2)]
    by (auto simp: sign_with_signature_def rlp_encode_fields Let_def)
  have ids: "unat (tx_chain_id sample_tx) < 2 ^ 62" "unat (tx_chain_id ?u) < 2 ^ 62"
    by (simp_all add: sample_tx_def)
  have rs: "length (replicate 64 (1::byte)) = 64" "unat (1::byte) \<le> 1" by simp_all
  have "stx_raw a \<noteq> stx_raw b"
  proof
    assume raw: "stx_raw a = stx_raw b"
    have "sample_tx = ?u"
      using signed_raw_determines
        [OF hexc.hex_codec_axioms sample_tx_ok rs(1) rs(1) rs(2) rs(2) ids ab raw] by blast
    then show False by (simp add: sample_tx_def)
  qed
  with ab show ?thesis by blast
qed

definition data_gas :: "byte list \<Rightarrow> nat" where
  "data_gas data = 40 * length (filter (\<lambda>b. b \<noteq> 0) data) + 10 * length (filter (\<lambda>b. b = 0) data)"

lemma data_gas_sum: "sum_list (map (\<lambda>b. if b = 0 then 10 else 40) data) = data_gas data"
  by (induction data) (simp_all add: data_gas_def)

lemma data_gas_le: "data_gas data \<le> 40 * length data"
proof -
  have "length (filter (\<lambda>b. b \<noteq> 0) data) + length (filter (\<lambda>b. b = 0) data) = length data"
    using sum_length_filter_compl [of "\<lambda>b. b \<noteq> 0" data] by simp
  then show ?thesis by (simp add: data_gas_def)
qed

text \<open>The gas rule in integers: for calldata that fits in memory the sum does not wrap, and
  the result is 21000 plus the data gas (40 per nonzero byte, 10 per zero byte) times 1.2,
  rounded up; more data never costs less.\<close>

theorem intrinsic_gas_exact:
  assumes "length (data @ rest) < 2 ^ 55"
  shows "intrinsic_gas data = 21000 + (6 * data_gas data + 4) div 5
    \<and> intrinsic_gas data \<le> intrinsic_gas (data @ rest) \<and> intrinsic_gas [] = 21000"
proof -
  have exact: "intrinsic_gas d = 21000 + (6 * data_gas d + 4) div 5" if "length d < 2 ^ 55" for d
  proof -
    have "6 * data_gas d + 4 < 2 ^ 63" using that data_gas_le [of d] by simp
    then show ?thesis
      by (simp add: intrinsic_gas_def data_gas_sum u64_limit_def Let_def mult.commute)
  qed
  have "data_gas data \<le> data_gas (data @ rest)" by (simp add: data_gas_def)
  then have "(6 * data_gas data + 4) div 5 \<le> (6 * data_gas (data @ rest) + 4) div 5"
    by (intro div_le_mono) simp
  moreover have "intrinsic_gas [] = 21000" by (simp add: intrinsic_gas_def u64_limit_def)
  moreover have "length data < 2 ^ 55" using assms by simp
  ultimately show ?thesis using exact [of data] exact [OF assms] by linarith
qed

theorem intrinsic_gas_exact_witness:
  "intrinsic_gas [0, 1, 2] = 21000 + (6 * data_gas [0, 1, 2] + 4) div 5
   \<and> intrinsic_gas [0, 1, 2] = 21108"
  using intrinsic_gas_exact [of "[0, 1, 2]" "[]"] by (simp add: data_gas_def)

lemma format_amount_panics: "format_amount v d = Panic \<longleftrightarrow> 128 \<le> d"
proof -
  have split: "(10::nat) ^ d = 2 ^ d * 5 ^ d" by (simp add: power_mult_distrib [symmetric])
  have "(10::nat) ^ d mod u128_limit = 0 \<longleftrightarrow> 128 \<le> d"
  proof
    assume "128 \<le> d"
    then have "(2::nat) ^ 128 dvd 2 ^ d" by (rule le_imp_power_dvd)
    then show "(10::nat) ^ d mod u128_limit = 0"
      unfolding u128_limit_def split by (metis dvd_imp_mod_0 dvd_mult2)
  next
    assume "(10::nat) ^ d mod u128_limit = 0"
    then have "(2::nat) ^ 128 dvd 2 ^ d * 5 ^ d"
      unfolding u128_limit_def split by (rule mod_0_imp_dvd)
    moreover have "coprime (2::nat) 5" by (simp add: coprime_iff_gcd_eq_1 gcd_nat.simps)
    then have "coprime ((2::nat) ^ 128) (5 ^ d)" by (intro coprime_power_left_iff [THEN iffD2]
          coprime_power_right_iff [THEN iffD2] disjI1)
    ultimately have "(2::nat) ^ 128 dvd 2 ^ d" by (simp add: coprime_dvd_mult_left_iff)
    then show "128 \<le> d" by (rule power_dvd_imp_le) simp
  qed
  then show ?thesis by (simp add: format_amount_def Let_def)
qed

end
