(* ===== verification/Abi.thy ===== *)
theory Abi imports Chain begin

text \<open>
  \<^verbatim>\<open>app/core/src/abi.rs\<close>: Solidity ABI encoding of calls and decoding of returns.
  The width of \<^verbatim>\<open>usize\<close> (64 on the server, 32 in the browser) is the argument
  \<open>usz\<close>: offsets and lengths read from a return are truncated to it, sums wrap at it, and
  a slice whose end precedes its start panics.

  The encoder is shown to have the head and tail layout of the ABI: every argument can be read
  back at its position. The decoders are shown to read back what a contract that encodes
  correctly returns, and to panic on a hostile return whose offset wraps.
\<close>

section \<open>Encoding\<close>

datatype arg = Uint "128 word" | Address wallet_address | Str string | Addresses "wallet_address list"

definition selector :: "(byte list \<Rightarrow> byte list) \<Rightarrow> string \<Rightarrow> byte list" where
  "selector keccak signature =
     (let hash = keccak (bytes_of signature) in [hash ! 0, hash ! 1, hash ! 2, hash ! 3])"

definition uint_word :: "nat \<Rightarrow> byte list" where
  "uint_word v = replicate 16 0 @ be_bytes 16 v"

definition address_word :: "(string \<Rightarrow> byte list option) \<Rightarrow> wallet_address \<Rightarrow> byte list run" where
  "address_word dec a = run_bind (addr_bytes dec a) (\<lambda>bs. Done (replicate 12 0 @ bs))"

definition padded :: "byte list \<Rightarrow> byte list" where
  "padded bytes =
     (let rem = length bytes mod 32
      in if rem \<noteq> 0 then bytes @ replicate (32 - rem) 0 else bytes)"

fun address_words ::
    "(string \<Rightarrow> byte list option) \<Rightarrow> wallet_address list \<Rightarrow> byte list run" where
  "address_words dec [] = Done []"
| "address_words dec (a # as) =
     run_bind (address_word dec a) (\<lambda>w. run_bind (address_words dec as) (\<lambda>ws. Done (w @ ws)))"

text \<open>One turn of the loop of \<^verbatim>\<open>encode_args\<close>, on the pair of the head and the tail.\<close>

fun encode_step ::
    "(string \<Rightarrow> byte list option) \<Rightarrow> nat \<Rightarrow> arg \<Rightarrow> byte list \<times> byte list
     \<Rightarrow> (byte list \<times> byte list) run" where
  "encode_step dec head_len (Uint v) (head, tail) = Done (head @ uint_word (unat v), tail)"
| "encode_step dec head_len (Address a) (head, tail) =
     run_bind (address_word dec a) (\<lambda>w. Done (head @ w, tail))"
| "encode_step dec head_len (Str s) (head, tail) =
     Done (head @ uint_word (head_len + length tail),
           tail @ uint_word (length s) @ padded (bytes_of s))"
| "encode_step dec head_len (Addresses list) (head, tail) =
     run_bind (address_words dec list) (\<lambda>ws.
       Done (head @ uint_word (head_len + length tail), tail @ uint_word (length list) @ ws))"

fun encode_loop ::
    "(string \<Rightarrow> byte list option) \<Rightarrow> nat \<Rightarrow> arg list \<Rightarrow> byte list \<times> byte list
     \<Rightarrow> (byte list \<times> byte list) run" where
  "encode_loop dec head_len [] ht = Done ht"
| "encode_loop dec head_len (x # xs) ht =
     run_bind (encode_step dec head_len x ht) (encode_loop dec head_len xs)"

definition encode_args :: "(string \<Rightarrow> byte list option) \<Rightarrow> arg list \<Rightarrow> byte list run" where
  "encode_args dec args =
     run_bind (encode_loop dec (length args * 32) args ([], [])) (\<lambda>(head, tail). Done (head @ tail))"

definition encode_call ::
    "(string \<Rightarrow> byte list option) \<Rightarrow> (byte list \<Rightarrow> byte list) \<Rightarrow> string \<Rightarrow> arg list
     \<Rightarrow> byte list run" where
  "encode_call dec keccak signature args =
     run_bind (encode_args dec args) (\<lambda>body. Done (selector keccak signature @ body))"

section \<open>Decoding\<close>

definition output_bytes :: "(string \<Rightarrow> byte list option) \<Rightarrow> string \<Rightarrow> chain_error + byte list" where
  "output_bytes dec output = ok_or InvalidQuantity (dec (strip_all [''0x''] (trim output)))"

text \<open>The slice \<open>bytes[start..end]\<close>.\<close>

definition slice :: "byte list \<Rightarrow> nat \<Rightarrow> nat \<Rightarrow> byte list run" where
  "slice bytes start end' =
     (if start \<le> end' \<and> end' \<le> length bytes then Done (take (end' - start) (drop start bytes))
      else Panic)"

definition word_uint :: "nat \<Rightarrow> byte list \<Rightarrow> nat \<Rightarrow> (chain_error + nat) run" where
  "word_uint usz bytes word =
     (let start = word * 32 mod 2 ^ usz; end' = (start + 32) mod 2 ^ usz
      in if length bytes < end' then Done (Inl InvalidQuantity)
         else run_bind (slice bytes start end') (\<lambda>w.
           if \<exists>b \<in> set (take 16 w). b \<noteq> 0 then Done (Inl Overflow)
           else Done (Inr (be_nat (drop 16 w)))))"

definition decode_words :: "(string \<Rightarrow> byte list option) \<Rightarrow> string \<Rightarrow> chain_error + byte list" where
  "decode_words dec output =
     try_bind (output_bytes dec output) (\<lambda>bytes.
       if bytes = [] \<or> length bytes mod 32 \<noteq> 0 then Inl InvalidQuantity else Inr bytes)"

text \<open>The \<^verbatim>\<open>?\<close> operator on a result inside a computation that may panic.\<close>

definition and_then ::
    "(chain_error + 'a) run \<Rightarrow> ('a \<Rightarrow> (chain_error + 'b) run) \<Rightarrow> (chain_error + 'b) run" where
  "and_then r f = run_bind r (\<lambda>x. case x of Inl e \<Rightarrow> Done (Inl e) | Inr v \<Rightarrow> f v)"

definition decode_uint ::
    "nat \<Rightarrow> (string \<Rightarrow> byte list option) \<Rightarrow> string \<Rightarrow> nat \<Rightarrow> (chain_error + nat) run" where
  "decode_uint usz dec output word =
     and_then (Done (decode_words dec output)) (\<lambda>b. word_uint usz b word)"

definition decode_address ::
    "(byte list \<Rightarrow> string) \<Rightarrow> (string \<Rightarrow> byte list option) \<Rightarrow> string \<Rightarrow> chain_error + string" where
  "decode_address enc dec output =
     try_bind (decode_words dec output) (\<lambda>bytes.
       if length bytes < 32 then Inl InvalidQuantity
       else Inr (''0x'' @ enc (take 20 (drop 12 bytes))))"

text \<open>The text of the slice is what \<^verbatim>\<open>String::from_utf8_lossy\<close>, the argument
  \<open>lossy\<close>, makes of it.\<close>

definition decode_string ::
    "nat \<Rightarrow> (string \<Rightarrow> byte list option) \<Rightarrow> (byte list \<Rightarrow> string) \<Rightarrow> string
     \<Rightarrow> (chain_error + string) run" where
  "decode_string usz dec lossy output =
     and_then (Done (decode_words dec output)) (\<lambda>bytes.
       and_then (word_uint usz bytes 0) (\<lambda>w0.
         let offset = w0 mod 2 ^ usz in
         if (offset + 32) mod 2 ^ usz > length bytes then Done (Inl InvalidQuantity)
         else and_then (word_uint usz bytes (offset div 32)) (\<lambda>w1.
           let len = w1 mod 2 ^ usz; start = (offset + 32) mod 2 ^ usz;
               end' = (start + len) mod 2 ^ usz
           in if end' > length bytes then Done (Inl InvalidQuantity)
              else run_bind (slice bytes start end') (\<lambda>s. Done (Inr (lossy s))))))"

fun read_words :: "nat \<Rightarrow> byte list \<Rightarrow> nat \<Rightarrow> nat \<Rightarrow> (chain_error + nat list) run" where
  "read_words usz bytes from 0 = Done (Inr [])"
| "read_words usz bytes from (Suc n) =
     and_then (word_uint usz bytes (from mod 2 ^ usz)) (\<lambda>v.
       and_then (read_words usz bytes (Suc from) n) (\<lambda>vs. Done (Inr (v # vs))))"

text \<open>\<^verbatim>\<open>Vec::with_capacity\<close> panics when the 16-byte items exceed half the address
  space.\<close>

definition decode_uint_array ::
    "nat \<Rightarrow> (string \<Rightarrow> byte list option) \<Rightarrow> string \<Rightarrow> (chain_error + nat list) run" where
  "decode_uint_array usz dec output =
     and_then (Done (decode_words dec output)) (\<lambda>bytes.
       and_then (word_uint usz bytes 0) (\<lambda>w0.
         let offset = w0 mod 2 ^ usz in
         if offset mod 32 \<noteq> 0 \<or> (offset + 32) mod 2 ^ usz > length bytes
         then Done (Inl InvalidQuantity)
         else and_then (word_uint usz bytes (offset div 32)) (\<lambda>w1.
           let len = w1 mod 2 ^ usz
           in if len * 16 \<ge> 2 ^ (usz - 1) then Panic
              else read_words usz bytes (offset div 32 + 1) len)))"

section \<open>The layout of an encoding\<close>

lemma and_then_simps [simp]:
  "and_then (Done (Inl e)) f = Done (Inl e)"
  "and_then (Done (Inr v)) f = f v"
  "and_then Panic f = Panic"
  by (simp_all add: and_then_def)

lemma length_uint_word [simp]: "length (uint_word v) = 32"
  by (simp add: uint_word_def)

lemma padded_split: "\<exists>k. padded bs = bs @ replicate k 0 \<and> 32 dvd length (padded bs)"
proof (cases "length bs mod 32 = 0")
  case True
  then show ?thesis by (intro exI [of _ 0]) (simp add: padded_def dvd_eq_mod_eq_0)
next
  case False
  have "length bs mod 32 < 32" by simp
  then have "32 dvd length bs + (32 - length bs mod 32)" by presburger
  with False show ?thesis by (auto simp: padded_def Let_def)
qed

text \<open>The parts of one argument: its head, given where its tail starts, and its tail.\<close>

fun arg_tail :: "(string \<Rightarrow> byte list option) \<Rightarrow> arg \<Rightarrow> byte list run" where
  "arg_tail dec (Uint v) = Done []"
| "arg_tail dec (Address a) = Done []"
| "arg_tail dec (Str s) = Done (uint_word (length s) @ padded (bytes_of s))"
| "arg_tail dec (Addresses xs) =
     run_bind (address_words dec xs) (\<lambda>ws. Done (uint_word (length xs) @ ws))"

fun arg_head :: "(string \<Rightarrow> byte list option) \<Rightarrow> nat \<Rightarrow> arg \<Rightarrow> byte list run" where
  "arg_head dec off (Uint v) = Done (uint_word (unat v))"
| "arg_head dec off (Address a) = address_word dec a"
| "arg_head dec off (Str s) = Done (uint_word off)"
| "arg_head dec off (Addresses xs) = Done (uint_word off)"

lemma encode_step_parts:
  "encode_step dec n x (head, tail) = Done (head', tail') \<longleftrightarrow>
     (\<exists>h t. arg_head dec (n + length tail) x = Done h \<and> arg_tail dec x = Done t
        \<and> head' = head @ h \<and> tail' = tail @ t)"
  by (cases x) (auto simp: run_bind_Done_iff)


lemma addr_bytes_length: "addr_bytes dec a = Done bs \<Longrightarrow> length bs = 20"
  by (auto simp: addr_bytes_def to_bytes_def split: option.splits if_splits)

lemma address_word_Done:
  "address_word dec a = Done w \<longleftrightarrow> (\<exists>bs. addr_bytes dec a = Done bs \<and> w = replicate 12 0 @ bs)"
  by (auto simp: address_word_def run_bind_Done_iff)

lemma length_address_word: "address_word dec a = Done w \<Longrightarrow> length w = 32"
  by (auto simp: address_word_Done dest: addr_bytes_length)

lemma length_arg_head: "arg_head dec off x = Done h \<Longrightarrow> length h = 32"
  by (cases x) (auto dest: length_address_word)

text \<open>What the loop leaves behind for the argument at position \<open>i\<close>.\<close>

lemma encode_loop_at:
  assumes "encode_loop dec n xs (h0, t0) = Done (h, t)"
  shows "\<exists>hs ts. h = h0 @ hs \<and> length hs = 32 * length xs \<and> t = t0 @ ts
    \<and> (\<forall>i < length xs. \<exists>pre hx tx post. ts = pre @ tx @ post
         \<and> arg_head dec (n + length t0 + length pre) (xs ! i) = Done hx
         \<and> arg_tail dec (xs ! i) = Done tx \<and> take 32 (drop (32 * i) hs) = hx)"
  using assms
proof (induction xs arbitrary: h0 t0)
  case Nil
  then show ?case by simp
next
  case (Cons x xs)
  then obtain h1 t1 where
    step: "encode_step dec n x (h0, t0) = Done (h1, t1)"
    and rest: "encode_loop dec n xs (h1, t1) = Done (h, t)"
    by (auto simp: run_bind_Done_iff)
  from step obtain hx tx where x: "arg_head dec (n + length t0) x = Done hx"
      "arg_tail dec x = Done tx" "h1 = h0 @ hx" "t1 = t0 @ tx"
    by (auto simp: encode_step_parts)
  have len: "length hx = 32" using x(1) by (rule length_arg_head)
  from Cons.IH [OF rest] obtain hs ts where IH:
    "h = h1 @ hs" "length hs = 32 * length xs" "t = t1 @ ts"
    "\<forall>i < length xs. \<exists>pre hx tx post. ts = pre @ tx @ post
       \<and> arg_head dec (n + length t1 + length pre) (xs ! i) = Done hx
       \<and> arg_tail dec (xs ! i) = Done tx \<and> take 32 (drop (32 * i) hs) = hx"
    by blast
  have "\<exists>pre hx' tx' post. tx @ ts = pre @ tx' @ post
       \<and> arg_head dec (n + length t0 + length pre) ((x # xs) ! i) = Done hx'
       \<and> arg_tail dec ((x # xs) ! i) = Done tx' \<and> take 32 (drop (32 * i) (hx @ hs)) = hx'"
    if "i < length (x # xs)" for i
  proof (cases i)
    case 0
    with x len show ?thesis by (intro exI [of _ "[]"] exI [of _ hx] exI [of _ tx] exI [of _ ts]) simp
  next
    case (Suc j)
    with that IH(4) obtain pre hx' tx' post where
      "ts = pre @ tx' @ post" "arg_head dec (n + length t1 + length pre) (xs ! j) = Done hx'"
      "arg_tail dec (xs ! j) = Done tx'" "take 32 (drop (32 * j) hs) = hx'"
      by auto
    with Suc len x(4) show ?thesis
      by (intro exI [of _ "tx @ pre"] exI [of _ hx'] exI [of _ tx'] exI [of _ post])
         (simp add: add.assoc)
  qed
  with IH x len show ?case
    by (intro exI [of _ "hx @ hs"] exI [of _ "tx @ ts"]) auto
qed

text \<open>Reading an argument back, as the ABI specifies it for a callee.\<close>

definition word_at :: "byte list \<Rightarrow> nat \<Rightarrow> byte list" where
  "word_at out off = take 32 (drop off out)"

fun arg_at :: "(string \<Rightarrow> byte list option) \<Rightarrow> byte list \<Rightarrow> nat \<Rightarrow> arg \<Rightarrow> bool" where
  "arg_at dec out i (Uint v) \<longleftrightarrow> be_nat (word_at out (32 * i)) = unat v"
| "arg_at dec out i (Address a) \<longleftrightarrow> addr_bytes dec a = Done (drop 12 (word_at out (32 * i)))"
| "arg_at dec out i (Str s) \<longleftrightarrow>
     (let off = be_nat (word_at out (32 * i))
      in be_nat (word_at out off) = length s
         \<and> take (length s) (drop (off + 32) out) = bytes_of s)"
| "arg_at dec out i (Addresses xs) \<longleftrightarrow>
     (let off = be_nat (word_at out (32 * i))
      in be_nat (word_at out off) = length xs
         \<and> (\<forall>j < length xs.
              addr_bytes dec (xs ! j) = Done (drop 12 (word_at out (off + 32 + 32 * j)))))"

lemma be_nat_zeros: "be_nat (replicate k 0 @ bs) = be_nat bs"
proof (induction k)
  case (Suc k)
  have "be_nat (0 # cs) = be_nat cs" for cs by (simp add: be_nat_def)
  with Suc show ?case by simp
qed simp

lemma be_nat_uint_word: "v < 2 ^ 128 \<Longrightarrow> be_nat (uint_word v) = v"
  by (simp add: uint_word_def be_nat_zeros be_nat_be_bytes)

lemma address_words_at:
  "address_words dec xs = Done ws \<Longrightarrow> j < length xs \<Longrightarrow>
     addr_bytes dec (xs ! j) = Done (drop 12 (take 32 (drop (32 * j) ws)))"
proof (induction xs arbitrary: ws j)
  case Nil
  then show ?case by simp
next
  case (Cons a xs)
  then obtain w vs where w: "address_word dec a = Done w" "address_words dec xs = Done vs" "ws = w @ vs"
    by (auto simp: run_bind_Done_iff)
  note len = length_address_word [OF w(1)]
  show ?case
  proof (cases j)
    case 0
    with w len show ?thesis by (auto simp: address_word_Done)
  next
    case (Suc k)
    with Cons.IH [OF w(2), of k] Cons.prems(2) w(3) len show ?thesis by simp
  qed
qed

lemma length_address_words: "address_words dec xs = Done ws \<Longrightarrow> length ws = 32 * length xs"
  by (induction xs arbitrary: ws) (auto simp: run_bind_Done_iff dest: length_address_word)

lemma unat_128_bound: "unat (v :: 128 word) < 2 ^ 128"
  using unsigned_less [of v] by simp

lemma drop_after: "drop (a + b) xs = drop b (drop a xs)"
  by (simp add: add.commute)

lemma out_at: "ts = pre @ tx @ post \<Longrightarrow> drop (length hs + length pre) (hs @ ts) = tx @ post"
  by simp

lemma head_at:
  assumes "take 32 (drop (32 * i) hs) = hx" "length hs = 32 * n" "i < n"
  shows "word_at (hs @ ts) (32 * i) = hx"
proof -
  have "32 \<le> length hs - 32 * i" using assms(2,3) by simp
  with assms(1) show ?thesis by (simp add: word_at_def)
qed

lemma arg_at_parts:
  assumes head: "word_at out (32 * i) = hx" "arg_head dec off x = Done hx"
    and tail: "drop off out = tx @ post" "arg_tail dec x = Done tx"
    and small: "off < 2 ^ 128" "length tx < 2 ^ 128"
  shows "arg_at dec out i x"
proof (cases x)
  case (Uint v)
  then have "hx = uint_word (unat v)" using head(2) by simp
  with Uint head(1) show ?thesis by (simp add: be_nat_uint_word [OF unat_128_bound])
next
  case (Address a)
  with head show ?thesis by (auto simp: address_word_Done)
next
  case (Str s)
  then have tx: "tx = uint_word (length s) @ padded (bytes_of s)" using tail by simp
  obtain k where k: "padded (bytes_of s) = bytes_of s @ replicate k 0" using padded_split by blast
  from tx k small have "length s < 2 ^ 128" by simp
  moreover have "drop (off + 32) out = padded (bytes_of s) @ post"
    using tail(1) tx by (simp add: drop_after del: drop_drop)
  moreover have "be_nat (word_at out (32 * i)) = off"
    using Str head be_nat_uint_word [OF small(1)] by auto
  moreover have "word_at out off = uint_word (length s)"
    using tail(1) tx by (simp add: word_at_def)
  ultimately show ?thesis
    using Str k be_nat_uint_word [of "length s"] by simp
next
  case (Addresses xs)
  then obtain ws where ws: "address_words dec xs = Done ws" "tx = uint_word (length xs) @ ws"
    using tail by (auto simp: run_bind_Done_iff)
  note len = length_address_words [OF ws(1)]
  from ws len small have n: "length xs < 2 ^ 128" by simp
  have "addr_bytes dec (xs ! j) = Done (drop 12 (word_at out (off + 32 + 32 * j)))"
    if j: "j < length xs" for j
  proof -
    have "drop (off + 32 + 32 * j) out = drop (32 * j) (ws @ post)"
      using tail(1) ws(2) by (simp add: drop_after del: drop_drop)
    moreover have "32 \<le> length ws - 32 * j" using len j by simp
    ultimately have "word_at out (off + 32 + 32 * j) = take 32 (drop (32 * j) ws)"
      by (simp add: word_at_def)
    with address_words_at [OF ws(1) j] show ?thesis by simp
  qed
  moreover have "be_nat (word_at out (32 * i)) = off"
    using Addresses head be_nat_uint_word [OF small(1)] by auto
  moreover have "word_at out off = uint_word (length xs)"
    using tail(1) ws(2) by (simp add: word_at_def)
  ultimately show ?thesis
    using Addresses be_nat_uint_word [OF n] by simp
qed

section \<open>Properties\<close>

text \<open>The head and tail layout of \<^verbatim>\<open>encode_args\<close>: in any encoding it returns,
  a callee that follows the ABI reads every argument back at its position, static words in the
  head, strings and address arrays through the offset the head holds.\<close>

theorem encode_args_layout:
  assumes "encode_args dec args = Done out" "length out < 2 ^ 128" "i < length args"
  shows "arg_at dec out i (args ! i)"
proof -
  from assms(1) obtain h t where loop:
      "encode_loop dec (length args * 32) args ([], []) = Done (h, t)" and out: "out = h @ t"
    by (auto simp: encode_args_def run_bind_Done_iff)
  from encode_loop_at [OF loop] obtain hs ts where hs:
      "h = hs" "t = ts" "length hs = 32 * length args"
    and parts: "\<forall>i < length args. \<exists>pre hx tx post. ts = pre @ tx @ post
      \<and> arg_head dec (32 * length args + length pre) (args ! i) = Done hx
      \<and> arg_tail dec (args ! i) = Done tx \<and> take 32 (drop (32 * i) hs) = hx"
    by (auto simp: mult.commute)
  from parts assms(3) obtain pre hx tx post where "ts = pre @ tx @ post"
      "arg_head dec (32 * length args + length pre) (args ! i) = Done hx"
      "arg_tail dec (args ! i) = Done tx" "take 32 (drop (32 * i) hs) = hx"
    by blast
  note * = hs this
  have "drop (32 * length args + length pre) out = tx @ post"
    using out * out_at [of ts pre tx post hs] by simp
  moreover have "32 * length args + length pre < 2 ^ 128" "length tx < 2 ^ 128"
    using assms(2) out * by simp_all
  ultimately show ?thesis
    using arg_at_parts [OF head_at [OF *(7,3) assms(3), of ts]] * out by metis
qed

definition sample_args :: "arg list" where
  "sample_args =
     [Uint 5, Str ''hi'', Addresses [WalletAddress ''0xabcdef0123456789abcdef0123456789abcdef01'']]"

theorem encode_args_layout_witness:
  "\<exists>out. encode_args hex_decode sample_args = Done out \<and> arg_at hex_decode out 1 (Str ''hi'')"
proof -
  have "case encode_args hex_decode sample_args of Panic \<Rightarrow> False | Done out \<Rightarrow> length out = 224"
    by code_simp
  then obtain out where out: "encode_args hex_decode sample_args = Done out" "length out = 224"
    by (auto split: run.splits)
  with encode_args_layout [OF out(1), of 1] show ?thesis by (simp add: sample_args_def)
qed

text \<open>Reading a word of a well-formed return.\<close>

lemma uint_word_parts:
  "take 16 (uint_word v) = replicate 16 0" "drop 16 (uint_word v) = be_bytes 16 v"
  by (simp_all add: uint_word_def)

lemma word_uint_at:
  assumes "drop (w * 32) bytes = uint_word v @ rest" "v < 2 ^ 128" "length bytes < 2 ^ usz"
  shows "word_uint usz bytes w = Done (Inr v)"
proof -
  have len: "w * 32 + 32 \<le> length bytes"
    using assms(1) by (metis length_drop length_append length_uint_word le_add1 le_diff_conv2
        add.commute drop_all nat_le_linear list.size(3) append_is_Nil_conv zero_neq_numeral)
  with assms(1,3) have "slice bytes (w * 32) (w * 32 + 32) = Done (uint_word v)"
    by (simp add: slice_def)
  with len assms(2,3) show ?thesis
    by (simp add: word_uint_def Let_def uint_word_parts be_nat_be_bytes)
qed

context hex_codec begin

lemma decode_words_enc:
  assumes "bytes \<noteq> []" "32 dvd length bytes"
  shows "decode_words dec (''0x'' @ enc bytes) = Inr bytes"
proof -
  have "\<forall>c \<in> set (''0x'' @ enc bytes). is_graphic c"
    using enc_lower by (auto simp: x_graphic intro: hexdigit_graphic lower_hexdigit_hexdigit)
  then have t: "trim (''0x'' @ enc bytes) = ''0x'' @ enc bytes" by (rule trim_graphic)
  have "\<not> is_lower_hexdigit (CHR ''x'')" by (simp add: char_class_codes)
  then have "\<not> starts_with ''0x'' (enc bytes)"
    using enc_lower by (auto simp: starts_with_iff) (metis list.set_intros)
  then have "strip_all [''0x''] (''0x'' @ enc bytes) = enc bytes"
    by (simp add: strip_all.simps starts_with_def)
  with t assms show ?thesis
    by (simp add: decode_words_def output_bytes_def dec_enc dvd_eq_mod_eq_0)
qed

end

lemma encode_one_string:
  "encode_args dec [Str s] = Done (uint_word 32 @ uint_word (length s) @ padded (bytes_of s))"
  by (simp add: encode_args_def)

lemma take_padded: "take (length bs) (padded bs) = bs"
  using padded_split [of bs] by (metis append_eq_conv_conj)

lemma dvd_padded: "32 dvd length (padded bs)"
  using padded_split by blast

text \<open>\<^verbatim>\<open>decode_string\<close> reads back the string that \<^verbatim>\<open>encode_args\<close>
  wrote: a contract that returns one correctly encoded string is shown with that string, up to
  the lossy UTF-8 conversion, on 32-bit and 64-bit targets alike.\<close>

theorem string_return_roundtrip:
  assumes "hex_codec enc dec" "encode_args dec [Str s] = Done out" "length out < 2 ^ usz" "usz \<le> 128"
  shows "decode_string usz dec lossy (''0x'' @ enc out) = Done (Inr (lossy (bytes_of s)))"
proof -
  have out: "out = uint_word 32 @ uint_word (length s) @ padded (bytes_of s)"
    using assms(2) by (simp add: encode_one_string)
  have pad: "length s \<le> length (padded (bytes_of s))"
    using arg_cong [OF take_padded [of "bytes_of s"], of length] by simp
  have size: "64 + length (padded (bytes_of s)) < 2 ^ usz" "length s + 64 < 2 ^ usz"
    using assms(3) out pad by simp_all
  moreover have "(2::nat) ^ usz \<le> 2 ^ 128" using assms(4) by (intro power_increasing) simp_all
  ultimately have s128: "length s < 2 ^ 128" by linarith
  have words: "decode_words dec (''0x'' @ enc out) = Inr out"
    by (rule hex_codec.decode_words_enc [OF assms(1)]) (simp_all add: out dvd_padded uint_word_def)
  have w0: "word_uint usz out 0 = Done (Inr 32)"
    by (rule word_uint_at [where rest = "drop 32 out"]) (use size in \<open>simp_all add: out\<close>)
  have w1: "word_uint usz out 1 = Done (Inr (length s))"
    by (rule word_uint_at [where rest = "padded (bytes_of s)"])
      (use s128 assms(3) in \<open>simp_all add: out\<close>)
  have "slice out 64 (64 + length s) = Done (bytes_of s)"
    using pad take_padded [of "bytes_of s"] by (simp add: slice_def out)
  then show ?thesis
    using words w0 w1 size pad by (simp add: decode_string_def Let_def out add.commute)
qed

theorem string_return_roundtrip_witness:
  "decode_string 32 hex_decode (map (\<lambda>b. char_of (unat b)))
     (''0x'' @ hex_encode (uint_word 32 @ uint_word 4 @ padded (bytes_of ''USDC'')))
   = Done (Inr ''USDC'')"
proof -
  have len: "length ''USDC'' = 4" by simp
  have "length (padded (bytes_of ''USDC'')) = 32" by (simp add: padded_def)
  then have "decode_string 32 hex_decode (map (\<lambda>b. char_of (unat b)))
      (''0x'' @ hex_encode (uint_word 32 @ uint_word (length ''USDC'') @ padded (bytes_of ''USDC'')))
    = Done (Inr (map (\<lambda>b. char_of (unat b)) (bytes_of ''USDC'')))"
    by (intro string_return_roundtrip [OF hexc.hex_codec_axioms encode_one_string]) simp_all
  then show ?thesis unfolding len by (simp add: bytes_of_def char_of_def bit_iff_odd)
qed

fun uint_words :: "nat list \<Rightarrow> byte list" where
  "uint_words [] = []"
| "uint_words (v # vs) = uint_word v @ uint_words vs"

lemma length_uint_words [simp]: "length (uint_words vs) = 32 * length vs"
  by (induction vs) simp_all

lemma read_words_at:
  assumes "\<forall>v \<in> set vs. v < 2 ^ 128" "drop (from * 32) bytes = uint_words vs"
    "length bytes < 2 ^ usz" "from * 32 + 32 * length vs \<le> length bytes"
  shows "read_words usz bytes from (length vs) = Done (Inr vs)"
  using assms
proof (induction vs arbitrary: "from")
  case Nil
  then show ?case by simp
next
  case (Cons v vs)
  have "from < 2 ^ usz" using Cons.prems(3,4) by simp
  moreover have "word_uint usz bytes from = Done (Inr v)"
    by (rule word_uint_at [where rest = "uint_words vs"]) (use Cons.prems in simp_all)
  moreover have "drop (from * 32 + 32) bytes = uint_words vs"
    using Cons.prems(2) by (simp add: drop_after del: drop_drop)
  then have "drop (Suc from * 32) bytes = uint_words vs" by (simp add: add.commute)
  then have "read_words usz bytes (Suc from) (length vs) = Done (Inr vs)"
    using Cons.IH [of "Suc from"] Cons.prems by simp
  ultimately show ?case by simp
qed

text \<open>\<^verbatim>\<open>decode_uint_array\<close> reads back every \<^verbatim>\<open>uint256[]\<close> return
  whose items fit 128 bits, in order and whole.\<close>

theorem uint_array_return_roundtrip:
  assumes "hex_codec enc dec" "\<forall>v \<in> set vs. v < 2 ^ 128"
    "out = uint_word 32 @ uint_word (length vs) @ uint_words vs"
    "length out < 2 ^ usz" "usz \<le> 128"
  shows "decode_uint_array usz dec (''0x'' @ enc out) = Done (Inr vs)"
proof -
  have size: "64 + 32 * length vs < 2 ^ usz" using assms(4) unfolding assms(3) by simp
  moreover have "(2::nat) ^ usz \<le> 2 ^ 128" using assms(5) by (intro power_increasing) simp_all
  ultimately have n128: "length vs < 2 ^ 128" by linarith
  have half: "(2::nat) ^ usz = 2 * 2 ^ (usz - 1)" using size by (cases usz) simp_all
  have words: "decode_words dec (''0x'' @ enc out) = Inr out"
    by (rule hex_codec.decode_words_enc [OF assms(1)]) (simp_all add: assms(3) uint_word_def)
  have w0: "word_uint usz out 0 = Done (Inr 32)"
    by (rule word_uint_at [where rest = "drop 32 out"]) (use size in \<open>simp_all add: assms(3)\<close>)
  have w1: "word_uint usz out 1 = Done (Inr (length vs))"
    by (rule word_uint_at [where rest = "uint_words vs"])
      (use n128 assms(4) in \<open>simp_all add: assms(3)\<close>)
  have "read_words usz out 2 (length vs) = Done (Inr vs)"
    by (rule read_words_at) (use assms(2,4) in \<open>simp_all add: assms(3)\<close>)
  then show ?thesis
    using words w0 w1 size half
    by (simp add: decode_uint_array_def Let_def assms(3) numeral_2_eq_2)
qed

theorem uint_array_return_roundtrip_witness:
  "decode_uint_array 32 hex_decode
     (''0x'' @ hex_encode (uint_word 32 @ uint_word 2 @ uint_words [7, 9])) = Done (Inr [7, 9])"
proof -
  have len: "length [7, 9 :: nat] = 2" by simp
  have "decode_uint_array 32 hex_decode
     (''0x'' @ hex_encode (uint_word 32 @ uint_word (length [7, 9 :: nat]) @ uint_words [7, 9]))
    = Done (Inr [7, 9])"
    by (rule uint_array_return_roundtrip [OF hexc.hex_codec_axioms _ refl]) simp_all
  then show ?thesis unfolding len .
qed

text \<open>A hostile contract can panic both dynamic decoders: \<^verbatim>\<open>decode_string\<close>
  when the offset it returns is 32 short of the address space, since \<^verbatim>\<open>offset + 32\<close>
  wraps past the length check, and \<^verbatim>\<open>decode_uint_array\<close> when the length it
  returns is more than the capacity of a vector.\<close>

theorem hostile_return_panics:
  assumes "hex_codec enc dec" "7 \<le> usz" "usz \<le> 128"
  shows "decode_string usz dec lossy (''0x'' @ enc (uint_word (2 ^ usz - 32))) = Panic
    \<and> decode_uint_array usz dec (''0x'' @ enc (uint_word 32 @ uint_word (2 ^ usz - 1))) = Panic"
proof -
  obtain k where k: "usz = k + 7" using assms(2) le_Suc_ex by (metis add.commute)
  have le: "(2::nat) ^ usz \<le> 2 ^ 128" using assms(3) by (intro power_increasing) simp_all
  have big: "(128::nat) \<le> 2 ^ usz" unfolding k by (simp add: power_add)
  define b where "b = uint_word (2 ^ usz - 32)"
  define a where "a = uint_word 32 @ uint_word (2 ^ usz - 1)"
  have wb: "decode_words dec (''0x'' @ enc b) = Inr b" "decode_words dec (''0x'' @ enc a) = Inr a"
    by (rule hex_codec.decode_words_enc [OF assms(1)]; simp add: b_def a_def uint_word_def)+
  have b0: "word_uint usz b 0 = Done (Inr (2 ^ usz - 32))"
    by (rule word_uint_at [where rest = "[]"]) (use le big in \<open>simp_all add: b_def\<close>)
  have a0: "word_uint usz a 0 = Done (Inr 32)" "word_uint usz a 1 = Done (Inr (2 ^ usz - 1))"
    by (rule word_uint_at [where rest = "drop 32 a"] word_uint_at [where rest = "[]"];
        use le big in \<open>simp add: a_def\<close>)+
  have off: "(2 ^ usz - 32) div 32 * 32 = (2::nat) ^ usz - 32"
    unfolding k by (simp add: power_add)
  have b1: "word_uint usz b ((2 ^ usz - 32) div 32) = Panic"
    using big by (simp add: word_uint_def Let_def off slice_def)
  have "decode_string usz dec lossy (''0x'' @ enc b) = Panic"
    using wb(1) b0 b1 big by (simp add: decode_string_def Let_def)
  moreover have "(2 ^ usz - 1) * 16 \<ge> (2::nat) ^ (usz - 1)"
    unfolding k by (simp add: power_add)
  with wb(2) a0 big have "decode_uint_array usz dec (''0x'' @ enc a) = Panic"
    by (simp add: decode_uint_array_def Let_def) (simp add: a_def)
  ultimately show ?thesis by (simp add: a_def b_def)
qed

theorem hostile_return_panics_witness:
  "decode_string 32 hex_decode (map (\<lambda>b. char_of (unat b)))
     (''0x'' @ hex_encode (uint_word 4294967264)) = Panic"
  using hostile_return_panics [OF hexc.hex_codec_axioms, of 32] by simp

text \<open>The transfer call data written out by hand in \<^verbatim>\<open>chain.rs\<close> is what the
  general encoder produces for \<^verbatim>\<open>transfer(address,uint256)\<close>, whenever the
  hardcoded selector is the hash of that signature, panics included.\<close>

theorem transfer_data_is_encode_call:
  assumes "take 4 (keccak (bytes_of ''transfer(address,uint256)'')) = [0xa9, 0x05, 0x9c, 0xbb]"
  shows "encode_call dec keccak ''transfer(address,uint256)'' [Address to, Uint amount]
    = erc20_transfer_data dec to amount"
proof -
  let ?h = "keccak (bytes_of ''transfer(address,uint256)'')"
  obtain t where "?h = [0xa9, 0x05, 0x9c, 0xbb] @ t"
    using assms by (metis append_take_drop_id)
  then show ?thesis
    by (cases "addr_bytes dec to")
      (simp_all add: encode_call_def encode_args_def erc20_transfer_data_def selector_def
        address_word_def uint_word_def)
qed

theorem transfer_data_is_encode_call_witness:
  "encode_call hex_decode (\<lambda>_. [0xa9, 0x05, 0x9c, 0xbb]) ''transfer(address,uint256)''
     [Address (WalletAddress ''0xabcdef0123456789abcdef0123456789abcdef01''), Uint 5]
   = erc20_transfer_data hex_decode (WalletAddress ''0xabcdef0123456789abcdef0123456789abcdef01'') 5"
  by (rule transfer_data_is_encode_call) simp

end
