(* ===== verification/Events.thy ===== *)
theory Events imports Ids "HOL-Library.Monad_Syntax" begin

text \<open>
  \<^verbatim>\<open>app/core/src/events.rs\<close>: the realtime events, the messages a client may send, the
  targets of an event, and their one wire form, which is the WebSocket frame, the SSE payload
  and the \<^verbatim>\<open>event\<close> field of a log record. The derived \<^verbatim>\<open>Serialize\<close> and
  \<^verbatim>\<open>Deserialize\<close> implementations are written out from the serde attributes over the
  type \<open>json\<close> of JSON values; the text of a value is \<^verbatim>\<open>serde_json\<close>'s business.
\<close>

section \<open>JSON values\<close>

datatype json = JNull | JBool bool | JNum int | JStr string | JArr "json list"
  | JObj "(string \<times> json) list"

fun field :: "string \<Rightarrow> json \<Rightarrow> json option" where
  "field k (JObj kvs) = map_of kvs k"
| "field k _ = None"

fun de_string :: "json \<Rightarrow> string option" where
  "de_string (JStr s) = Some s"
| "de_string _ = None"

fun de_int :: "int \<Rightarrow> int \<Rightarrow> json \<Rightarrow> int option" where
  "de_int lo hi (JNum n) = (if lo \<le> n \<and> n < hi then Some n else None)"
| "de_int lo hi _ = None"

definition de_i64 :: "json \<Rightarrow> int option" where "de_i64 = de_int (- (2 ^ 63)) (2 ^ 63)"

definition de_u64 :: "json \<Rightarrow> nat option" where
  "de_u64 j = map_option nat (de_int 0 (2 ^ 64) j)"

fun de_seq :: "(json \<Rightarrow> 'a option) \<Rightarrow> json list \<Rightarrow> 'a list option" where
  "de_seq f [] = Some []"
| "de_seq f (j # js) = do { x \<leftarrow> f j; xs \<leftarrow> de_seq f js; Some (x # xs) }"

fun de_list :: "(json \<Rightarrow> 'a option) \<Rightarrow> json \<Rightarrow> 'a list option" where
  "de_list f (JArr js) = de_seq f js"
| "de_list f _ = None"

text \<open>Identifiers deserialise through their validating constructors.\<close>

definition ok_value :: "'e + 'a \<Rightarrow> 'a option" where
  "ok_value r = (case r of Inl e \<Rightarrow> None | Inr x \<Rightarrow> Some x)"

definition de_room :: "json \<Rightarrow> room_id option" where
  "de_room j = do { s \<leftarrow> de_string j; ok_value (room_id_new s) }"

definition de_wallet :: "json \<Rightarrow> wallet_address option" where
  "de_wallet j = do { s \<leftarrow> de_string j; ok_value (wallet_new s) }"

definition room_json :: "room_id \<Rightarrow> json" where "room_json r = JStr (room_str r)"
definition wallet_json :: "wallet_address \<Rightarrow> json" where "wallet_json w = JStr (as_str w)"

section \<open>Events\<close>

datatype presence_status = Offline | Away | Online

fun presence_rank :: "presence_status \<Rightarrow> nat" where
  "presence_rank Offline = 0"
| "presence_rank Away = 1"
| "presence_rank Online = 2"

text \<open>The derived \<^verbatim>\<open>Ord\<close>: the order of declaration.\<close>

instantiation presence_status :: linorder
begin

definition less_eq_presence_status :: "presence_status \<Rightarrow> presence_status \<Rightarrow> bool" where
  "less_eq_presence_status a b \<longleftrightarrow> presence_rank a \<le> presence_rank b"

definition less_presence_status :: "presence_status \<Rightarrow> presence_status \<Rightarrow> bool" where
  "less_presence_status a b \<longleftrightarrow> presence_rank a < presence_rank b"

instance
proof
  fix a b :: presence_status
  show "a \<le> b \<Longrightarrow> b \<le> a \<Longrightarrow> a = b"
    by (cases a; cases b) (simp_all add: less_eq_presence_status_def)
qed (auto simp: less_eq_presence_status_def less_presence_status_def)

end

lemma presence_order [simp]:
  "Offline \<le> s" "s \<le> Online" "\<not> Online \<le> Away" "\<not> Away \<le> Offline" "\<not> Online \<le> Offline"
  by (cases s; simp add: less_eq_presence_status_def)+

definition status_str :: "presence_status \<Rightarrow> string" where
  "status_str s = (case s of Offline \<Rightarrow> ''offline'' | Away \<Rightarrow> ''away'' | Online \<Rightarrow> ''online'')"

definition is_declarable :: "presence_status \<Rightarrow> bool" where
  "is_declarable s \<longleftrightarrow> s = Online \<or> s = Away"

datatype resync_reason = CursorTooOld | Lagged | MembershipChanged

datatype server_event =
    NewMessage room_id int
  | RoomsUpdated
  | MemberRemoved room_id
  | InvitationReceived room_id
  | Typing room_id wallet_address
  | Presence wallet_address presence_status
  | ResyncRequired resync_reason nat nat
  | SessionExpired string
  | Shout string
  | Pong

fun event_name :: "server_event \<Rightarrow> string" where
  "event_name (NewMessage r n) = ''new_message''"
| "event_name RoomsUpdated = ''rooms_updated''"
| "event_name (MemberRemoved r) = ''member_removed''"
| "event_name (InvitationReceived r) = ''invitation_received''"
| "event_name (Typing r w) = ''typing''"
| "event_name (Presence w s) = ''presence''"
| "event_name (ResyncRequired x a b) = ''resync_required''"
| "event_name (SessionExpired s) = ''session_expired''"
| "event_name (Shout s) = ''shout''"
| "event_name Pong = ''pong''"

fun is_replayable :: "server_event \<Rightarrow> bool" where
  "is_replayable (Typing r w) = False"
| "is_replayable (Presence w s) = False"
| "is_replayable (Shout s) = False"
| "is_replayable Pong = False"
| "is_replayable _ = True"

fun event_room :: "server_event \<Rightarrow> room_id option" where
  "event_room (NewMessage r n) = Some r"
| "event_room (MemberRemoved r) = Some r"
| "event_room (InvitationReceived r) = Some r"
| "event_room (Typing r w) = Some r"
| "event_room _ = None"

datatype client_message = Ping | ClientTyping room_id | ClientPresence presence_status

datatype target = Room room_id | User wallet_address | RoomExcept room_id wallet_address
  | Rooms "room_id list" | All

fun target_room :: "target \<Rightarrow> room_id option" where
  "target_room (Room r) = Some r"
| "target_room (RoomExcept r w) = Some r"
| "target_room _ = None"

section \<open>The wire form\<close>

definition reason_str :: "resync_reason \<Rightarrow> string" where
  "reason_str x = (case x of CursorTooOld \<Rightarrow> ''cursor_too_old'' | Lagged \<Rightarrow> ''lagged''
     | MembershipChanged \<Rightarrow> ''membership_changed'')"

definition de_status :: "json \<Rightarrow> presence_status option" where
  "de_status j = do { s \<leftarrow> de_string j;
     if s = ''offline'' then Some Offline else if s = ''away'' then Some Away
     else if s = ''online'' then Some Online else None }"

definition de_reason :: "json \<Rightarrow> resync_reason option" where
  "de_reason j = do { s \<leftarrow> de_string j;
     if s = ''cursor_too_old'' then Some CursorTooOld else if s = ''lagged'' then Some Lagged
     else if s = ''membership_changed'' then Some MembershipChanged else None }"

fun event_fields :: "server_event \<Rightarrow> (string \<times> json) list" where
  "event_fields (NewMessage r n) = [(''roomId'', room_json r), (''msgSerial'', JNum n)]"
| "event_fields RoomsUpdated = []"
| "event_fields (MemberRemoved r) = [(''roomId'', room_json r)]"
| "event_fields (InvitationReceived r) = [(''roomId'', room_json r)]"
| "event_fields (Typing r w) = [(''roomId'', room_json r), (''from'', wallet_json w)]"
| "event_fields (Presence w s) = [(''wallet'', wallet_json w), (''status'', JStr (status_str s))]"
| "event_fields (ResyncRequired x a b) =
     [(''reason'', JStr (reason_str x)), (''fromSeq'', JNum (int a)), (''toSeq'', JNum (int b))]"
| "event_fields (SessionExpired s) = [(''reason'', JStr s)]"
| "event_fields (Shout s) = [(''shoutId'', JStr s)]"
| "event_fields Pong = []"

definition event_json :: "server_event \<Rightarrow> json" where
  "event_json e = JObj ((''type'', JStr (event_name e)) # event_fields e)"

definition event_of_json :: "json \<Rightarrow> server_event option" where
  "event_of_json j = do {
     t \<leftarrow> field ''type'' j; tag \<leftarrow> de_string t;
     if tag = ''new_message'' then
       do { r \<leftarrow> field ''roomId'' j \<bind> de_room; n \<leftarrow> field ''msgSerial'' j \<bind> de_i64;
            Some (NewMessage r n) }
     else if tag = ''rooms_updated'' then Some RoomsUpdated
     else if tag = ''member_removed'' then
       do { r \<leftarrow> field ''roomId'' j \<bind> de_room; Some (MemberRemoved r) }
     else if tag = ''invitation_received'' then
       do { r \<leftarrow> field ''roomId'' j \<bind> de_room; Some (InvitationReceived r) }
     else if tag = ''typing'' then
       do { r \<leftarrow> field ''roomId'' j \<bind> de_room; w \<leftarrow> field ''from'' j \<bind> de_wallet;
            Some (Typing r w) }
     else if tag = ''presence'' then
       do { w \<leftarrow> field ''wallet'' j \<bind> de_wallet; s \<leftarrow> field ''status'' j \<bind> de_status;
            Some (Presence w s) }
     else if tag = ''resync_required'' then
       do { x \<leftarrow> field ''reason'' j \<bind> de_reason; a \<leftarrow> field ''fromSeq'' j \<bind> de_u64;
            b \<leftarrow> field ''toSeq'' j \<bind> de_u64; Some (ResyncRequired x a b) }
     else if tag = ''session_expired'' then
       do { s \<leftarrow> field ''reason'' j \<bind> de_string; Some (SessionExpired s) }
     else if tag = ''shout'' then
       do { s \<leftarrow> field ''shoutId'' j \<bind> de_string; Some (Shout s) }
     else if tag = ''pong'' then Some Pong
     else None }"

fun client_json :: "client_message \<Rightarrow> json" where
  "client_json Ping = JObj [(''type'', JStr ''ping'')]"
| "client_json (ClientTyping r) = JObj [(''type'', JStr ''typing''), (''roomId'', room_json r)]"
| "client_json (ClientPresence s) =
     JObj [(''type'', JStr ''presence''), (''status'', JStr (status_str s))]"

definition client_of_json :: "json \<Rightarrow> client_message option" where
  "client_of_json j = do {
     t \<leftarrow> field ''type'' j; tag \<leftarrow> de_string t;
     if tag = ''ping'' then Some Ping
     else if tag = ''typing'' then
       do { r \<leftarrow> field ''roomId'' j \<bind> de_room; Some (ClientTyping r) }
     else if tag = ''presence'' then
       do { s \<leftarrow> field ''status'' j \<bind> de_status; Some (ClientPresence s) }
     else None }"

fun target_json :: "target \<Rightarrow> json" where
  "target_json (Room r) = JObj [(''t'', JStr ''room''), (''roomId'', room_json r)]"
| "target_json (User w) = JObj [(''t'', JStr ''user''), (''wallet'', wallet_json w)]"
| "target_json (RoomExcept r w) =
     JObj [(''t'', JStr ''room_except''), (''roomId'', room_json r), (''except'', wallet_json w)]"
| "target_json (Rooms rs) = JObj [(''t'', JStr ''rooms''), (''roomIds'', JArr (map room_json rs))]"
| "target_json All = JObj [(''t'', JStr ''all'')]"

definition target_of_json :: "json \<Rightarrow> target option" where
  "target_of_json j = do {
     t \<leftarrow> field ''t'' j; tag \<leftarrow> de_string t;
     if tag = ''room'' then do { r \<leftarrow> field ''roomId'' j \<bind> de_room; Some (Room r) }
     else if tag = ''user'' then do { w \<leftarrow> field ''wallet'' j \<bind> de_wallet; Some (User w) }
     else if tag = ''room_except'' then
       do { r \<leftarrow> field ''roomId'' j \<bind> de_room; w \<leftarrow> field ''except'' j \<bind> de_wallet;
            Some (RoomExcept r w) }
     else if tag = ''rooms'' then
       do { rs \<leftarrow> field ''roomIds'' j \<bind> de_list de_room; Some (Rooms rs) }
     else if tag = ''all'' then Some All
     else None }"

section \<open>What the constructors of the program produce\<close>

definition room_ok :: "room_id \<Rightarrow> bool" where
  "room_ok r \<longleftrightarrow> room_id_new (room_str r) = Inr r"

definition i64_ok :: "int \<Rightarrow> bool" where "i64_ok n \<longleftrightarrow> - (2 ^ 63) \<le> n \<and> n < 2 ^ 63"

fun event_ok :: "server_event \<Rightarrow> bool" where
  "event_ok (NewMessage r n) = (room_ok r \<and> i64_ok n)"
| "event_ok (MemberRemoved r) = room_ok r"
| "event_ok (InvitationReceived r) = room_ok r"
| "event_ok (Typing r w) = (room_ok r \<and> wallet_ok w)"
| "event_ok (Presence w s) = wallet_ok w"
| "event_ok (ResyncRequired x a b) = (a < u64_limit \<and> b < u64_limit)"
| "event_ok _ = True"

fun target_ok :: "target \<Rightarrow> bool" where
  "target_ok (Room r) = room_ok r"
| "target_ok (User w) = wallet_ok w"
| "target_ok (RoomExcept r w) = (room_ok r \<and> wallet_ok w)"
| "target_ok (Rooms rs) = list_all room_ok rs"
| "target_ok All = True"

fun client_ok :: "client_message \<Rightarrow> bool" where
  "client_ok (ClientTyping r) = room_ok r"
| "client_ok _ = True"

lemma ok_value_simps [simp]: "ok_value (Inr x) = Some x" "ok_value (Inl e) = None"
  by (simp_all add: ok_value_def)

lemma ok_value_Some: "ok_value r = Some x \<longleftrightarrow> r = Inr x"
  by (cases r) auto

lemma de_room_json: "room_ok r \<Longrightarrow> de_room (room_json r) = Some r"
  by (simp add: de_room_def room_json_def room_ok_def)

lemma de_wallet_json: "wallet_ok w \<Longrightarrow> de_wallet (wallet_json w) = Some w"
  by (simp add: de_wallet_def wallet_json_def wallet_new_fixed)

lemma de_status_str [simp]: "de_status (JStr (status_str s)) = Some s"
  by (cases s) (simp_all add: de_status_def status_str_def)

lemma de_reason_str [simp]: "de_reason (JStr (reason_str x)) = Some x"
  by (cases x) (simp_all add: de_reason_def reason_str_def)

lemma de_i64_num: "i64_ok n \<Longrightarrow> de_i64 (JNum n) = Some n"
  by (simp add: de_i64_def i64_ok_def)

lemma de_u64_num: "n < u64_limit \<Longrightarrow> de_u64 (JNum (int n)) = Some n"
  by (simp add: de_u64_def u64_limit_def)

lemma de_seq_rooms: "list_all room_ok rs \<Longrightarrow> de_seq de_room (map room_json rs) = Some rs"
  by (induction rs) (simp_all add: de_room_json)

lemmas de_simps = de_room_json de_wallet_json de_i64_num de_u64_num de_seq_rooms

lemma room_id_new_ok: "room_id_new s = Inr r \<Longrightarrow> room_ok r"
  by (auto simp: room_ok_def room_id_new_def opaque_new_Inr)

lemma de_room_ok: "de_room j = Some r \<Longrightarrow> room_ok r"
  by (auto simp: de_room_def ok_value_Some room_id_new_ok split: bind_splits)

lemma de_wallet_ok: "de_wallet j = Some w \<Longrightarrow> wallet_ok w"
  by (auto simp: de_wallet_def ok_value_Some wallet_new_ok split: bind_splits)

lemma de_i64_ok: "de_i64 j = Some n \<Longrightarrow> i64_ok n"
  by (cases j) (auto simp: de_i64_def i64_ok_def split: if_splits)

lemma de_u64_ok: "de_u64 j = Some n \<Longrightarrow> n < u64_limit"
  by (cases j) (auto simp: de_u64_def u64_limit_def nat_less_iff split: if_splits)

lemma event_json_roundtrip: "event_ok e \<Longrightarrow> event_of_json (event_json e) = Some e"
  by (cases e) (simp_all add: event_of_json_def event_json_def de_simps)

lemma target_json_roundtrip: "target_ok t \<Longrightarrow> target_of_json (target_json t) = Some t"
  by (cases t) (simp_all add: target_of_json_def de_simps)

lemma client_json_roundtrip: "client_ok m \<Longrightarrow> client_of_json (client_json m) = Some m"
  by (cases m) (simp_all add: client_of_json_def de_simps)

lemma event_of_json_ok: "event_of_json j = Some e \<Longrightarrow> event_ok e"
  unfolding event_of_json_def
  by (auto simp: bind_eq_Some_conv split: if_splits dest: de_room_ok de_wallet_ok de_i64_ok de_u64_ok)

lemma de_seq_rooms_ok: "de_seq de_room js = Some rs \<Longrightarrow> list_all room_ok rs"
  by (induction js arbitrary: rs) (auto simp: bind_eq_Some_conv dest: de_room_ok)

lemma de_list_rooms_ok: "de_list de_room j = Some rs \<Longrightarrow> list_all room_ok rs"
  by (cases j) (auto dest: de_seq_rooms_ok)

lemma target_of_json_ok: "target_of_json j = Some t \<Longrightarrow> target_ok t"
  unfolding target_of_json_def
  by (auto simp: bind_eq_Some_conv split: if_splits dest: de_room_ok de_wallet_ok de_list_rooms_ok)

lemma client_of_json_ok: "client_of_json j = Some m \<Longrightarrow> client_ok m"
  unfolding client_of_json_def
  by (auto simp: bind_eq_Some_conv split: if_splits dest: de_room_ok)

section \<open>Properties\<close>

text \<open>C23. The wire form of events, targets and client messages: whatever the program can
  build is read back exactly, and whatever is accepted from the wire has canonical room ids
  and addresses and integers of their width, so that it is the reading of its own wire form.\<close>

theorem wire_roundtrip:
  "(event_of_json j = Some e \<longrightarrow> event_of_json (event_json e) = Some e \<and> event_ok e)
   \<and> (target_of_json j = Some t \<longrightarrow> target_of_json (target_json t) = Some t \<and> target_ok t)
   \<and> (client_of_json j = Some m \<longrightarrow> client_of_json (client_json m) = Some m \<and> client_ok m)
   \<and> (event_ok e \<longrightarrow> event_of_json (event_json e) = Some e)
   \<and> (target_ok t \<longrightarrow> target_of_json (target_json t) = Some t)
   \<and> (client_ok m \<longrightarrow> client_of_json (client_json m) = Some m)"
  using event_json_roundtrip target_json_roundtrip client_json_roundtrip
    event_of_json_ok target_of_json_ok client_of_json_ok by blast

definition sample_room_id :: room_id where "sample_room_id = RoomId ''room_12.4-x''"

lemma sample_room_ok: "room_ok sample_room_id"
  by (simp add: room_ok_def sample_room_id_def sample_room)

theorem wire_roundtrip_witness:
  "event_of_json (event_json (NewMessage sample_room_id 42)) = Some (NewMessage sample_room_id 42)
   \<and> target_of_json (target_json (Rooms [sample_room_id])) = Some (Rooms [sample_room_id])"
  using wire_roundtrip [of JNull "NewMessage sample_room_id 42" "Rooms [sample_room_id]" Ping]
    sample_room_ok by (simp add: i64_ok_def)

text \<open>The event names are the wire tags and tell the events apart, an event that may
  not be replayed is exactly one whose content is stale at once, and no client can declare
  itself offline.\<close>

theorem event_tags:
  "field ''type'' (event_json e) = Some (JStr (event_name e))
   \<and> (event_name e \<in> {''typing'', ''presence'', ''shout'', ''pong''} \<longleftrightarrow> \<not> is_replayable e)
   \<and> (is_declarable s \<longleftrightarrow> s \<noteq> Offline) \<and> (is_declarable s \<longleftrightarrow> Away \<le> s)"
  by (cases e; cases s) (simp_all add: event_json_def is_declarable_def)

end
