(* ===== verification/Json_Interface.thy ===== *)
theory Json_Interface imports Events begin

text \<open>
  The interface of \<^verbatim>\<open>serde_json\<close>'s text form, which is not part of the repository:
  the compact text of a value is UTF-8 without control characters, begins and ends with a
  graphic character, and parses back to the value. The event log rests on this contract only.
  \<open>plain_text\<close> and \<open>plain_parse\<close> show that the contract can be met.
\<close>

section \<open>UTF-8\<close>

text \<open>\<^verbatim>\<open>str::from_utf8\<close>: the well-formed byte sequences of the Unicode standard.\<close>

definition between :: "nat \<Rightarrow> nat \<Rightarrow> char \<Rightarrow> bool" where
  "between lo hi c \<longleftrightarrow> lo \<le> of_char c \<and> of_char c \<le> hi"

fun valid_utf8 :: "string \<Rightarrow> bool" where
  "valid_utf8 [] = True"
| "valid_utf8 (a # s) =
     (if between 0 0x7F a then valid_utf8 s
      else case s of [] \<Rightarrow> False | b # s2 \<Rightarrow>
        if between 0xC2 0xDF a then between 0x80 0xBF b \<and> valid_utf8 s2
        else case s2 of [] \<Rightarrow> False | c # s3 \<Rightarrow>
          if between 0xE0 0xEF a then
            (if between 0xE0 0xE0 a then between 0xA0 0xBF b
             else if between 0xED 0xED a then between 0x80 0x9F b else between 0x80 0xBF b)
            \<and> between 0x80 0xBF c \<and> valid_utf8 s3
          else case s3 of [] \<Rightarrow> False | d # s4 \<Rightarrow>
            (if between 0xF0 0xF0 a then between 0x90 0xBF b
             else if between 0xF1 0xF3 a then between 0x80 0xBF b
             else between 0xF4 0xF4 a \<and> between 0x80 0x8F b)
            \<and> between 0x80 0xBF c \<and> between 0x80 0xBF d \<and> valid_utf8 s4)"

lemma ascii_valid_utf8: "\<forall>c \<in> set s. of_char c < (128::nat) \<Longrightarrow> valid_utf8 s"
  by (induction s rule: valid_utf8.induct) (auto simp: between_def)

section \<open>The contract\<close>

locale json_text =
  fixes tt :: "json \<Rightarrow> string" and ft :: "string \<Rightarrow> json option"
  assumes parse_text: "ft (tt j) = Some j"
    and text_utf8: "valid_utf8 (tt j)"
    and text_plain: "c \<in> set (tt j) \<Longrightarrow> 32 \<le> (of_char c :: nat)"
    and text_ends: "tt j \<noteq> [] \<and> is_graphic (hd (tt j)) \<and> is_graphic (last (tt j))"
begin

lemma text_no_newline: "CHR 0x0A \<notin> set (tt j)"
  using text_plain [of "CHR 0x0A" j] by auto

lemma text_no_return: "CHR 0x0D \<notin> set (tt j)"
  using text_plain [of "CHR 0x0D" j] by auto

lemma text_trim: "trim (tt j) = tt j" "trim (tt j) \<noteq> []"
  using text_ends [of j] trim_graphic_ends [of "tt j"] by auto

lemma text_inject: "tt a = tt b \<longleftrightarrow> a = b"
  using parse_text by (metis option.inject)

end

section \<open>A codec that meets it\<close>

text \<open>A plain printer: one letter for each kind of value, strings in hexadecimal, arrays and
  objects in brackets. The parser's fuel is the length of the text.\<close>

definition hex_text :: "string \<Rightarrow> string" where
  "hex_text s = hex_encode (bytes_of s)"

definition unhex_text :: "string \<Rightarrow> string option" where
  "unhex_text h = map_option (map (\<lambda>b. char_of (unat b))) (hex_decode h)"

definition int_text :: "int \<Rightarrow> string" where
  "int_text i = (if i < 0 then ''-'' else ''+'') @ decimal (nat \<bar>i\<bar>) @ '';''"

fun plain_text :: "json \<Rightarrow> string" where
  "plain_text JNull = ''n''"
| "plain_text (JBool b) = (if b then ''t'' else ''f'')"
| "plain_text (JNum i) = int_text i"
| "plain_text (JStr s) = ''$'' @ hex_text s @ ''.''"
| "plain_text (JArr js) = ''['' @ concat (map plain_text js) @ '']''"
| "plain_text (JObj kvs) = ''{'' @ concat (map (\<lambda>(k, v). hex_text k @ '':'' @ plain_text v) kvs) @ ''}''"

definition read_number :: "string \<Rightarrow> (nat \<times> string) option" where
  "read_number s = (case split_once (CHR '';'') s of None \<Rightarrow> None
     | Some (a, b) \<Rightarrow> map_option (\<lambda>n. (n, b)) (digits_value 10 0 a))"

definition read_hex :: "char \<Rightarrow> string \<Rightarrow> (string \<times> string) option" where
  "read_hex stop s = (case split_once stop s of None \<Rightarrow> None
     | Some (a, b) \<Rightarrow> map_option (\<lambda>t. (t, b)) (unhex_text a))"

fun read_value :: "nat \<Rightarrow> string \<Rightarrow> (json \<times> string) option"
and read_items :: "nat \<Rightarrow> string \<Rightarrow> (json list \<times> string) option"
and read_members :: "nat \<Rightarrow> string \<Rightarrow> ((string \<times> json) list \<times> string) option" where
  "read_value 0 s = None"
| "read_value (Suc n) [] = None"
| "read_value (Suc n) (c # s) =
     (if c = CHR ''n'' then Some (JNull, s)
      else if c = CHR ''t'' then Some (JBool True, s)
      else if c = CHR ''f'' then Some (JBool False, s)
      else if c = CHR ''+'' then map_option (\<lambda>(n, r). (JNum (int n), r)) (read_number s)
      else if c = CHR ''-'' then map_option (\<lambda>(n, r). (JNum (- int n), r)) (read_number s)
      else if c = CHR ''$'' then map_option (\<lambda>(t, r). (JStr t, r)) (read_hex (CHR ''.'') s)
      else if c = CHR ''['' then map_option (\<lambda>(js, r). (JArr js, r)) (read_items n s)
      else if c = CHR ''{'' then map_option (\<lambda>(kvs, r). (JObj kvs, r)) (read_members n s)
      else None)"
| "read_items 0 s = None"
| "read_items (Suc n) s =
     (if s \<noteq> [] \<and> hd s = CHR '']'' then Some ([], tl s)
      else case read_value n s of None \<Rightarrow> None
        | Some (j, r) \<Rightarrow> map_option (\<lambda>(js, r). (j # js, r)) (read_items n r))"
| "read_members 0 s = None"
| "read_members (Suc n) s =
     (if s \<noteq> [] \<and> hd s = CHR ''}'' then Some ([], tl s)
      else case read_hex (CHR '':'') s of None \<Rightarrow> None
        | Some (k, r) \<Rightarrow> (case read_value n r of None \<Rightarrow> None
            | Some (v, r) \<Rightarrow> map_option (\<lambda>(kvs, r). ((k, v) # kvs, r)) (read_members n r)))"

definition plain_parse :: "string \<Rightarrow> json option" where
  "plain_parse s = (case read_value (length s) s of Some (j, []) \<Rightarrow> Some j | _ \<Rightarrow> None)"

lemma decimal_codes: "c \<in> set (decimal n) \<Longrightarrow> 48 \<le> (of_char c :: nat) \<and> (of_char c :: nat) \<le> 57"
  using decimal_digits [of n] by (auto simp: char_class_codes)

lemma decimal_reads: "digits_value 10 0 (decimal n) = Some n"
  using digits_value_radix_string [of 10 n] by (simp add: decimal_def)

lemma char_byte: "char_of (unat (of_char c :: byte)) = c"
proof -
  have "unat (word_of_nat (of_char c) :: byte) = of_char c"
    by (rule unat_byte_of_nat) (rule nat_of_char_less_256)
  then have "unat (of_char c :: byte) = of_char c" unfolding of_nat_of_char .
  then show ?thesis by simp
qed

lemma unhex_hex: "unhex_text (hex_text s) = Some s"
  by (simp add: unhex_text_def hex_text_def hex_decode_encode bytes_of_def comp_def char_byte)

lemma hex_text_codes: "c \<in> set (hex_text s) \<Longrightarrow>
    (48 \<le> (of_char c :: nat) \<and> (of_char c :: nat) \<le> 57)
    \<or> (97 \<le> (of_char c :: nat) \<and> (of_char c :: nat) \<le> 102)"
  using hex_encode_lower [of c "bytes_of s"] by (auto simp: hex_text_def char_class_codes)

lemma read_number_text: "read_number (decimal n @ CHR '';'' # r) = Some (n, r)"
proof -
  have "CHR '';'' \<notin> set (decimal n)" using decimal_codes [of "CHR '';''" n] by auto
  then show ?thesis by (simp add: read_number_def split_once_append decimal_reads)
qed

lemma read_hex_text: "stop \<in> {CHR ''.'', CHR '':''} \<Longrightarrow> read_hex stop (hex_text s @ stop # r) = Some (s, r)"
proof -
  assume "stop \<in> {CHR ''.'', CHR '':''}"
  then have "stop \<notin> set (hex_text s)" using hex_text_codes [of stop s] by auto
  then show ?thesis by (simp add: read_hex_def split_once_append unhex_hex)
qed

lemma plain_text_hd: "\<exists>c t. plain_text j = c # t \<and> c \<noteq> CHR '']''"
  by (cases j) (auto simp: int_text_def)

lemma read_items_text:
  assumes "\<And>j r n. j \<in> set js \<Longrightarrow> length (plain_text j) \<le> n \<Longrightarrow>
      read_value n (plain_text j @ r) = Some (j, r)"
    and "length (concat (map plain_text js)) < n"
  shows "read_items n (concat (map plain_text js) @ CHR '']'' # r) = Some (js, r)"
  using assms
proof (induction js arbitrary: n)
  case Nil
  then show ?case by (cases n) simp_all
next
  case (Cons j js)
  then obtain m where m: "n = Suc m" "length (plain_text j) + length (concat (map plain_text js)) \<le> m"
    by (cases n) auto
  obtain c t where c: "plain_text j = c # t" "c \<noteq> CHR '']''" using plain_text_hd by blast
  have "read_value m (plain_text j @ concat (map plain_text js) @ CHR '']'' # r)
      = Some (j, concat (map plain_text js) @ CHR '']'' # r)"
    using Cons.prems(1) m by simp
  moreover have "read_items m (concat (map plain_text js) @ CHR '']'' # r) = Some (js, r)"
    using Cons m c by simp
  ultimately show ?case using m(1) c by simp
qed

definition member_text :: "string \<times> json \<Rightarrow> string" where
  "member_text kv = hex_text (fst kv) @ '':'' @ plain_text (snd kv)"

lemma member_text_hd: "member_text kv = c # t \<Longrightarrow> c \<noteq> CHR ''}''"
  using hex_text_codes [of c "fst kv"] by (cases "hex_text (fst kv)") (auto simp: member_text_def)

lemma member_text_length: "length (plain_text (snd kv)) < length (member_text kv)"
  by (simp add: member_text_def)

lemma read_members_text:
  assumes "\<And>kv r n. kv \<in> set kvs \<Longrightarrow> length (plain_text (snd kv)) \<le> n \<Longrightarrow>
      read_value n (plain_text (snd kv) @ r) = Some (snd kv, r)"
    and "length (concat (map member_text kvs)) < n"
  shows "read_members n (concat (map member_text kvs) @ CHR ''}'' # r) = Some (kvs, r)"
  using assms
proof (induction kvs arbitrary: n)
  case Nil
  then show ?case by (cases n) simp_all
next
  case (Cons kv kvs)
  then obtain m where m: "n = Suc m" "length (member_text kv) + length (concat (map member_text kvs)) \<le> m"
    by (cases n) auto
  let ?rest = "concat (map member_text kvs) @ CHR ''}'' # r"
  have "member_text kv @ ?rest \<noteq> []" "hd (member_text kv @ ?rest) \<noteq> CHR ''}''"
    using member_text_hd [of kv] by (cases "member_text kv"; simp add: member_text_def)+
  moreover have "read_hex (CHR '':'') (member_text kv @ ?rest) = Some (fst kv, plain_text (snd kv) @ ?rest)"
    using read_hex_text [of "CHR '':''" "fst kv" "plain_text (snd kv) @ ?rest"]
    by (simp add: member_text_def)
  moreover have "read_value m (plain_text (snd kv) @ ?rest) = Some (snd kv, ?rest)"
    using Cons.prems(1) m(2) member_text_length [of kv] by simp
  moreover have "read_members m ?rest = Some (kvs, r)"
    using Cons m(2) member_text_length [of kv] by simp
  ultimately show ?case using m(1) by simp
qed

lemma plain_object: "plain_text (JObj kvs) = ''{'' @ concat (map member_text kvs) @ ''}''"
proof -
  have "(\<lambda>(k, v). hex_text k @ '':'' @ plain_text v) = member_text"
    by (auto simp: fun_eq_iff member_text_def)
  then show ?thesis by simp
qed

lemma read_plain: "length (plain_text j) \<le> n \<Longrightarrow> read_value n (plain_text j @ r) = Some (j, r)"
proof (induction j arbitrary: n r rule: plain_text.induct)
  case (3 i)
  then obtain m where "n = Suc m" by (cases n) (auto simp: int_text_def)
  then show ?case by (auto simp: int_text_def read_number_text)
next
  case (4 s)
  then obtain m where "n = Suc m" by (cases n) auto
  then show ?case by (simp add: read_hex_text)
next
  case (5 js)
  then obtain m where m: "n = Suc m" by (cases n) auto
  with 5 have "read_items m (concat (map plain_text js) @ CHR '']'' # r) = Some (js, r)"
    by (intro read_items_text) auto
  with m show ?case by simp
next
  case (6 kvs)
  then obtain m where m: "n = Suc m" by (cases n) auto
  have "length (concat (map member_text kvs)) < m"
    using 6(2) m unfolding plain_object by simp
  then have "read_members m (concat (map member_text kvs) @ CHR ''}'' # r) = Some (kvs, r)"
    using 6(1) by (intro read_members_text) auto
  with m show ?case unfolding plain_object by simp
qed (auto simp: Suc_le_eq gr0_conv_Suc)

lemma plain_codes: "c \<in> set (plain_text j) \<Longrightarrow> 33 \<le> (of_char c :: nat) \<and> (of_char c :: nat) \<le> 126"
  by (induction j rule: plain_text.induct)
     (fastforce simp: int_text_def split: if_splits dest: decimal_codes hex_text_codes)+

interpretation plain: json_text plain_text plain_parse
proof
  fix j
  show "plain_parse (plain_text j) = Some j"
    using read_plain [of j "length (plain_text j)" "[]"] by (simp add: plain_parse_def)
  show "valid_utf8 (plain_text j)"
    by (rule ascii_valid_utf8) (use plain_codes in fastforce)
  show "32 \<le> (of_char c :: nat)" if "c \<in> set (plain_text j)" for c
    using plain_codes [OF that] by simp
  have "plain_text j \<noteq> []" using plain_text_hd [of j] by auto
  then show "plain_text j \<noteq> [] \<and> is_graphic (hd (plain_text j)) \<and> is_graphic (last (plain_text j))"
    using plain_codes [of "hd (plain_text j)" j] plain_codes [of "last (plain_text j)" j]
    by (simp add: is_graphic_def)
qed

end
