(* ===== verification/Jsonl.thy ===== *)
theory Jsonl imports Json_Interface "HOL-Library.List_Lexorder" begin

text \<open>
  \<^verbatim>\<open>app/server/src/jsonl.rs\<close>: the append-only event log. The directory is the list of
  its day files with their bytes, beside the marker \<^verbatim>\<open>events.seq\<close>; the buffered
  writer holds the bytes not yet handed to the file. Every I/O call of an operation has a
  place, and a plan says of each place whether the call succeeds, fails part way or is refused.
  The clock enters as the readings one operation takes.

  The log is shown to refine a list of records with contiguous sequence numbers: an append
  adds one record under the next number (two across a rotation), a restart keeps every record
  and the counter, and a replay is exactly the records after the cursor or a refusal. What a
  failed flush or a torn last line does to these promises is proved as well.
\<close>

section \<open>Records\<close>

datatype kind = Realtime | Audit | System

record log_record =
  lr_seq :: nat
  lr_ts :: string
  lr_at_ms :: int
  lr_kind :: kind
  lr_target :: "target option"
  lr_origin :: "wallet_address option"
  lr_event :: json
  lr_fanout :: "nat option"

definition record_event :: "log_record \<Rightarrow> server_event option" where
  "record_event r = (if lr_kind r \<noteq> Realtime then None else event_of_json (lr_event r))"

text \<open>The derived serialisation: absent options are left out, and read back as absent.\<close>

definition kind_str :: "kind \<Rightarrow> string" where
  "kind_str k = (case k of Realtime \<Rightarrow> ''realtime'' | Audit \<Rightarrow> ''audit'' | System \<Rightarrow> ''system'')"

definition de_kind :: "json \<Rightarrow> kind option" where
  "de_kind j = do { s \<leftarrow> de_string j;
     if s = ''realtime'' then Some Realtime else if s = ''audit'' then Some Audit
     else if s = ''system'' then Some System else None }"

definition optional :: "string \<Rightarrow> json option \<Rightarrow> (string \<times> json) list" where
  "optional k x = (case x of None \<Rightarrow> [] | Some j \<Rightarrow> [(k, j)])"

definition de_optional :: "(json \<Rightarrow> 'a option) \<Rightarrow> string \<Rightarrow> json \<Rightarrow> 'a option option" where
  "de_optional f k j =
     (case field k j of None \<Rightarrow> Some None | Some JNull \<Rightarrow> Some None
      | Some v \<Rightarrow> map_option Some (f v))"

definition de_u32 :: "json \<Rightarrow> nat option" where
  "de_u32 j = map_option nat (de_int 0 (2 ^ 32) j)"

definition record_json :: "log_record \<Rightarrow> json" where
  "record_json r = JObj (
     [(''seq'', JNum (int (lr_seq r))), (''ts'', JStr (lr_ts r)), (''at_ms'', JNum (lr_at_ms r)),
      (''kind'', JStr (kind_str (lr_kind r)))]
     @ optional ''target'' (map_option target_json (lr_target r))
     @ optional ''origin'' (map_option wallet_json (lr_origin r))
     @ [(''event'', lr_event r)]
     @ optional ''fanout'' (map_option (\<lambda>n. JNum (int n)) (lr_fanout r)))"

definition record_of_json :: "json \<Rightarrow> log_record option" where
  "record_of_json j = do {
     seq \<leftarrow> field ''seq'' j \<bind> de_u64; ts \<leftarrow> field ''ts'' j \<bind> de_string;
     ms \<leftarrow> field ''at_ms'' j \<bind> de_i64; k \<leftarrow> field ''kind'' j \<bind> de_kind;
     t \<leftarrow> de_optional target_of_json ''target'' j; w \<leftarrow> de_optional de_wallet ''origin'' j;
     e \<leftarrow> field ''event'' j; n \<leftarrow> de_optional de_u32 ''fanout'' j;
     Some \<lparr>lr_seq = seq, lr_ts = ts, lr_at_ms = ms, lr_kind = k, lr_target = t, lr_origin = w,
       lr_event = e, lr_fanout = n\<rparr> }"

definition record_ok :: "log_record \<Rightarrow> bool" where
  "record_ok r \<longleftrightarrow> lr_seq r < u64_limit \<and> i64_ok (lr_at_ms r)
     \<and> pred_option target_ok (lr_target r) \<and> pred_option wallet_ok (lr_origin r)
     \<and> pred_option (\<lambda>n. n < 2 ^ 32) (lr_fanout r)"

lemma de_kind_str [simp]: "de_kind (JStr (kind_str k)) = Some k"
  by (cases k) (simp_all add: de_kind_def kind_str_def)

lemma de_u32_num: "n < 2 ^ 32 \<Longrightarrow> de_u32 (JNum (int n)) = Some n"
  by (simp add: de_u32_def)

lemma not_JNull: "wallet_json w \<noteq> JNull" "target_json t \<noteq> JNull"
  by (simp add: wallet_json_def, cases t, simp_all)

lemma de_optional_field:
  "field k j = None \<Longrightarrow> de_optional f k j = Some None"
  "field k j = Some v \<Longrightarrow> v \<noteq> JNull \<Longrightarrow> f v = Some x \<Longrightarrow> de_optional f k j = Some (Some x)"
  by (auto simp: de_optional_def split: json.split)

lemma optional_simps [simp]:
  "optional k None = []" "optional k (Some j) = [(k, j)]"
  by (simp_all add: optional_def)

lemma record_fields:
  "field ''seq'' (record_json r) = Some (JNum (int (lr_seq r)))"
  "field ''ts'' (record_json r) = Some (JStr (lr_ts r))"
  "field ''at_ms'' (record_json r) = Some (JNum (lr_at_ms r))"
  "field ''kind'' (record_json r) = Some (JStr (kind_str (lr_kind r)))"
  "field ''target'' (record_json r) = map_option target_json (lr_target r)"
  "field ''origin'' (record_json r) = map_option wallet_json (lr_origin r)"
  "field ''event'' (record_json r) = Some (lr_event r)"
  "field ''fanout'' (record_json r) = map_option (\<lambda>n. JNum (int n)) (lr_fanout r)"
  by (cases "lr_target r"; cases "lr_origin r"; cases "lr_fanout r";
      simp add: record_json_def)+

lemma record_options:
  assumes "record_ok r"
  shows "de_optional target_of_json ''target'' (record_json r) = Some (lr_target r)"
    "de_optional de_wallet ''origin'' (record_json r) = Some (lr_origin r)"
    "de_optional de_u32 ''fanout'' (record_json r) = Some (lr_fanout r)"
  using assms not_JNull
  by (cases "lr_target r"; cases "lr_origin r"; cases "lr_fanout r";
      simp add: de_optional_field record_fields record_ok_def target_json_roundtrip
        de_wallet_json de_u32_num)+

lemma record_json_roundtrip: "record_ok r \<Longrightarrow> record_of_json (record_json r) = Some r"
  by (simp add: record_of_json_def record_fields record_options)
     (simp add: record_ok_def de_u64_num de_i64_num)

section \<open>The state of the log\<close>

datatype log_error = Io | Encode | Poisoned

datatype io = IoOk | IoPartial nat | IoRefused

text \<open>The places where an append can fail, those of \<^verbatim>\<open>sync\<close> once in the rotation
  and once at the end of the append.\<close>

datatype phase = Rotating | Appending

datatype site = SyncFlush phase | SyncData phase | SyncMarker phase | OpenDay
  | MakeRoom phase | WriteThrough phase | FinalFlush

type_synonym io_plan = "site \<Rightarrow> io"

record instant =
  day_of :: string
  format_ts :: string
  unix_ms :: int

text \<open>The clock readings of one operation: the wall clock at its start and in a rotation, and
  the monotonic clock, in milliseconds, when it is compared with the last sync and when a sync
  completes.\<close>

record ticks =
  now_utc :: instant
  rotate_utc :: instant
  elapsed_at :: nat
  synced_at :: nat

record disk =
  dk_files :: "(string \<times> string) list"
  dk_marker :: "string option"

record jlog = disk +
  jl_next :: nat
  jl_buf :: string
  jl_day :: string
  jl_unsynced :: nat
  jl_last_sync :: nat

definition sync_every_lines :: nat where "sync_every_lines = 64"
definition sync_every :: nat where "sync_every = 100"
definition first_seq :: nat where "first_seq = 1"

text \<open>The capacity of a \<^verbatim>\<open>BufWriter\<close>.\<close>

definition buffer_capacity :: nat where "buffer_capacity = 8192"

definition day_path :: "string \<Rightarrow> string" where
  "day_path day = ''events-'' @ day @ ''.jsonl''"

fun append_file :: "string \<Rightarrow> string \<Rightarrow> (string \<times> string) list \<Rightarrow> (string \<times> string) list" where
  "append_file n b [] = [(n, b)]"
| "append_file n b ((m, c) # fs) = (if m = n then (m, c @ b) # fs else (m, c) # append_file n b fs)"

definition put_bytes :: "string \<Rightarrow> jlog \<Rightarrow> jlog" where
  "put_bytes b st = st\<lparr>dk_files := append_file (day_path (jl_day st)) b (dk_files st)\<rparr>"

section \<open>The buffered writer\<close>

text \<open>An operation returns its result and the state it leaves, on errors too.\<close>

definition act_bind ::
    "(log_error + 'a) \<times> jlog \<Rightarrow> ('a \<Rightarrow> jlog \<Rightarrow> (log_error + 'b) \<times> jlog) \<Rightarrow> (log_error + 'b) \<times> jlog"
where
  "act_bind r f = (case r of (Inl e, st) \<Rightarrow> (Inl e, st) | (Inr x, st) \<Rightarrow> f x st)"

definition buf_flush :: "io \<Rightarrow> jlog \<Rightarrow> (log_error + unit) \<times> jlog" where
  "buf_flush out st =
     (if jl_buf st = [] then (Inr (), st)
      else case out of
        IoOk \<Rightarrow> (Inr (), put_bytes (jl_buf st) st\<lparr>jl_buf := []\<rparr>)
      | IoPartial k \<Rightarrow>
          (Inl Io, put_bytes (take k (jl_buf st)) st\<lparr>jl_buf := drop k (jl_buf st)\<rparr>)
      | IoRefused \<Rightarrow> (Inl Io, st))"

definition direct_write :: "io \<Rightarrow> string \<Rightarrow> jlog \<Rightarrow> (log_error + unit) \<times> jlog" where
  "direct_write out line st =
     (case out of
        IoOk \<Rightarrow> (Inr (), put_bytes line st)
      | IoPartial k \<Rightarrow> (Inl Io, put_bytes (take k line) st)
      | IoRefused \<Rightarrow> (Inl Io, st))"

definition buf_write ::
    "io_plan \<Rightarrow> phase \<Rightarrow> string \<Rightarrow> jlog \<Rightarrow> (log_error + unit) \<times> jlog" where
  "buf_write io ph line st =
     (let spare = buffer_capacity - length (jl_buf st)
      in if length line < spare then (Inr (), st\<lparr>jl_buf := jl_buf st @ line\<rparr>)
         else act_bind (if length line > spare then buf_flush (io (MakeRoom ph)) st else (Inr (), st))
           (\<lambda>_ st. if length line \<ge> buffer_capacity then direct_write (io (WriteThrough ph)) line st
                   else (Inr (), st\<lparr>jl_buf := jl_buf st @ line\<rparr>)))"

section \<open>Appending\<close>

text \<open>\<^verbatim>\<open>std::fs::write\<close> truncates the marker before it writes.\<close>

definition write_marker :: "io \<Rightarrow> jlog \<Rightarrow> (log_error + unit) \<times> jlog" where
  "write_marker out st =
     (let text = decimal (jl_next st)
      in case out of
           IoOk \<Rightarrow> (Inr (), st\<lparr>dk_marker := Some text\<rparr>)
         | IoPartial k \<Rightarrow> (Inl Io, st\<lparr>dk_marker := Some (take k text)\<rparr>)
         | IoRefused \<Rightarrow> (Inl Io, st))"

definition sync :: "io_plan \<Rightarrow> phase \<Rightarrow> ticks \<Rightarrow> jlog \<Rightarrow> (log_error + unit) \<times> jlog" where
  "sync io ph t st =
     act_bind (buf_flush (io (SyncFlush ph)) st) (\<lambda>_ st.
       if io (SyncData ph) \<noteq> IoOk then (Inl Io, st)
       else act_bind (write_marker (io (SyncMarker ph)) st) (\<lambda>_ st.
         (Inr (), st\<lparr>jl_unsynced := 0, jl_last_sync := synced_at t\<rparr>)))"

definition encode_line :: "(json \<Rightarrow> string) \<Rightarrow> log_record \<Rightarrow> string" where
  "encode_line tt r = tt (record_json r) @ [CHR 0x0A]"

definition u64_succ :: "nat \<Rightarrow> nat" where "u64_succ n = (n + 1) mod u64_limit"

definition rotation_record :: "instant \<Rightarrow> string \<Rightarrow> nat \<Rightarrow> log_record" where
  "rotation_record t previous seq =
     \<lparr>lr_seq = seq, lr_ts = format_ts t, lr_at_ms = unix_ms t, lr_kind = System,
      lr_target = None, lr_origin = None,
      lr_event = JObj [(''type'', JStr ''log_rotated''), (''from'', JStr previous)],
      lr_fanout = None\<rparr>"

definition rotate ::
    "(json \<Rightarrow> string) \<Rightarrow> io_plan \<Rightarrow> ticks \<Rightarrow> string \<Rightarrow> jlog \<Rightarrow> (log_error + unit) \<times> jlog" where
  "rotate tt io t new_day st =
     act_bind (sync io Rotating t st) (\<lambda>_ st.
       let previous = day_path (jl_day st)
       in if io OpenDay \<noteq> IoOk then (Inl Io, st)
          else
            let st = put_bytes [] (st\<lparr>jl_day := new_day, jl_buf := []\<rparr>);
                seq = jl_next st
            in act_bind (buf_write io Rotating
                   (encode_line tt (rotation_record (rotate_utc t) previous seq)) st)
                 (\<lambda>_ st. (Inr (), st\<lparr>jl_next := u64_succ seq\<rparr>)))"

text \<open>The part of \<^verbatim>\<open>append\<close> after the rotation check.\<close>

definition append_here ::
    "(json \<Rightarrow> string) \<Rightarrow> io_plan \<Rightarrow> ticks \<Rightarrow> kind \<Rightarrow> target option \<Rightarrow> wallet_address option
     \<Rightarrow> json \<Rightarrow> nat option \<Rightarrow> jlog \<Rightarrow> (log_error + nat) \<times> jlog" where
  "append_here tt io t k target origin event fanout st =
     (let seq = jl_next st;
          r = \<lparr>lr_seq = seq, lr_ts = format_ts (now_utc t), lr_at_ms = unix_ms (now_utc t),
               lr_kind = k, lr_target = target, lr_origin = origin, lr_event = event,
               lr_fanout = fanout\<rparr>
      in act_bind (buf_write io Appending (encode_line tt r) st) (\<lambda>_ st.
         act_bind (buf_flush (io FinalFlush) st) (\<lambda>_ st.
           let st = st\<lparr>jl_next := u64_succ seq, jl_unsynced := jl_unsynced st + 1\<rparr>
           in act_bind
                (if jl_unsynced st \<ge> sync_every_lines
                    \<or> elapsed_at t - jl_last_sync st \<ge> sync_every
                 then sync io Appending t st else (Inr (), st))
                (\<lambda>_ st. (Inr seq, st)))))"

definition append ::
    "(json \<Rightarrow> string) \<Rightarrow> io_plan \<Rightarrow> ticks \<Rightarrow> kind \<Rightarrow> target option \<Rightarrow> wallet_address option
     \<Rightarrow> json \<Rightarrow> nat option \<Rightarrow> jlog \<Rightarrow> (log_error + nat) \<times> jlog" where
  "append tt io t k target origin event fanout st =
     act_bind (if day_of (now_utc t) \<noteq> jl_day st then rotate tt io t (day_of (now_utc t)) st
               else (Inr (), st))
       (\<lambda>_ st. append_here tt io t k target origin event fanout st)"

definition append_event ::
    "(json \<Rightarrow> string) \<Rightarrow> io_plan \<Rightarrow> ticks \<Rightarrow> target \<Rightarrow> wallet_address option
     \<Rightarrow> server_event \<Rightarrow> nat \<Rightarrow> jlog \<Rightarrow> (log_error + nat) \<times> jlog" where
  "append_event tt io t target origin event fanout =
     append tt io t Realtime (Some target) origin (event_json event) (Some fanout)"

definition detail_json :: "string \<Rightarrow> json \<Rightarrow> json" where
  "detail_json action detail = JObj [(''type'', JStr action), (''detail'', detail)]"

definition append_audit ::
    "(json \<Rightarrow> string) \<Rightarrow> io_plan \<Rightarrow> ticks \<Rightarrow> string \<Rightarrow> wallet_address option \<Rightarrow> json
     \<Rightarrow> jlog \<Rightarrow> (log_error + nat) \<times> jlog" where
  "append_audit tt io t action actor detail =
     append tt io t Audit None actor (detail_json action detail) None"

definition append_system ::
    "(json \<Rightarrow> string) \<Rightarrow> io_plan \<Rightarrow> ticks \<Rightarrow> string \<Rightarrow> json \<Rightarrow> jlog \<Rightarrow> (log_error + nat) \<times> jlog" where
  "append_system tt io t action detail =
     append tt io t System None None (detail_json action detail) None"

definition log_flush :: "io_plan \<Rightarrow> ticks \<Rightarrow> jlog \<Rightarrow> (log_error + unit) \<times> jlog" where
  "log_flush io t st = sync io Appending t st"

section \<open>Reading\<close>

text \<open>\<^verbatim>\<open>BufRead::lines\<close>, before its UTF-8 check.\<close>

definition strip_return :: "string \<Rightarrow> string" where
  "strip_return s = (if s \<noteq> [] \<and> last s = CHR 0x0D then butlast s else s)"

lemma split_once_shorter: "split_once c s = Some (a, b) \<Longrightarrow> length b < length s"
  by (induction s arbitrary: a) (auto split: if_splits option.splits)

function lines_of :: "string \<Rightarrow> string list" where
  "lines_of s =
     (if s = [] then []
      else case split_once (CHR 0x0A) s of
        None \<Rightarrow> [s]
      | Some (a, b) \<Rightarrow> strip_return a # lines_of b)"
  by pat_completeness auto
termination
  by (relation "measure length") (auto dest: split_once_shorter)

declare lines_of.simps [simp del]

definition is_log :: "string \<Rightarrow> bool" where
  "is_log n \<longleftrightarrow> starts_with ''events-'' n \<and> starts_with (rev ''.jsonl'') (rev n)"

definition log_files :: "(string \<times> string) list \<Rightarrow> string list" where
  "log_files fs = filter is_log (map fst fs)"

definition contents :: "(string \<times> string) list \<Rightarrow> string \<Rightarrow> string" where
  "contents fs n = (case map_of fs n of None \<Rightarrow> [] | Some b \<Rightarrow> b)"

definition parse_record :: "(string \<Rightarrow> json option) \<Rightarrow> string \<Rightarrow> log_record option" where
  "parse_record ft line = ft line \<bind> record_of_json"

text \<open>The loop of \<^verbatim>\<open>replay_since\<close> over the lines of all files: the first sequence number
  seen and the records kept so far; \<open>Inr None\<close> is the early return when the replay is too
  long.\<close>

fun replay_lines ::
    "(string \<Rightarrow> json option) \<Rightarrow> nat \<Rightarrow> nat \<Rightarrow> string list \<Rightarrow> nat option \<Rightarrow> log_record list
     \<Rightarrow> log_error + (nat option \<times> log_record list) option" where
  "replay_lines ft after limit [] oldest out = Inr (Some (oldest, out))"
| "replay_lines ft after limit (line # ls) oldest out =
     (if \<not> valid_utf8 line then Inl Io
      else case parse_record ft line of
        None \<Rightarrow> replay_lines ft after limit ls oldest out
      | Some r \<Rightarrow>
          let oldest = (case oldest of None \<Rightarrow> Some (lr_seq r) | Some n \<Rightarrow> Some n)
          in if lr_seq r > after
             then (if length (out @ [r]) > limit then Inr None
                   else replay_lines ft after limit ls oldest (out @ [r]))
             else replay_lines ft after limit ls oldest out)"

definition replay_since ::
    "(string \<Rightarrow> json option) \<Rightarrow> disk \<Rightarrow> nat \<Rightarrow> nat \<Rightarrow> log_error + log_record list option" where
  "replay_since ft d after limit =
     try_bind
       (replay_lines ft after limit
          (concat (map (\<lambda>n. lines_of (contents (dk_files d) n)) (sort (log_files (dk_files d)))))
          None [])
       (\<lambda>x. case x of None \<Rightarrow> Inr None
          | Some (oldest, out) \<Rightarrow>
              (case oldest of
                 Some o1 \<Rightarrow> if u64_succ after < o1 then Inr None else Inr (Some out)
               | None \<Rightarrow> Inr (Some out)))"

section \<open>Recovery\<close>

record recovery =
  rc_next_seq :: nat
  rc_from_scan :: bool
  rc_torn :: bool

text \<open>The scan of the newest file: the largest successor of a sequence number, and whether the
  last line that is not blank failed to parse.\<close>

fun scan_lines ::
    "(string \<Rightarrow> json option) \<Rightarrow> string list \<Rightarrow> nat \<Rightarrow> bool \<Rightarrow> log_error + (nat \<times> bool)" where
  "scan_lines ft [] m torn = Inr (m, torn)"
| "scan_lines ft (line # ls) m torn =
     (if \<not> valid_utf8 line then Inl Io
      else if trim line = [] then scan_lines ft ls m torn
      else case parse_record ft line of
        Some r \<Rightarrow> scan_lines ft ls (max m (u64_succ (lr_seq r))) False
      | None \<Rightarrow> scan_lines ft ls m True)"

fun newest_of :: "string list \<Rightarrow> string option \<Rightarrow> string option" where
  "newest_of [] cur = cur"
| "newest_of (n # ns) cur =
     newest_of ns (case cur of None \<Rightarrow> Some n | Some c \<Rightarrow> if n > c then Some n else Some c)"

definition marker_value :: "string option \<Rightarrow> nat" where
  "marker_value m =
     (case m of None \<Rightarrow> 0
      | Some s \<Rightarrow> if valid_utf8 s then
          (case from_str_radix u64_limit 10 (trim s) of None \<Rightarrow> 0 | Some n \<Rightarrow> n) else 0)"

definition recover_next_seq :: "(string \<Rightarrow> json option) \<Rightarrow> disk \<Rightarrow> log_error + recovery" where
  "recover_next_seq ft d =
     (let from_marker = marker_value (dk_marker d)
      in try_bind
           (case newest_of (log_files (dk_files d)) None of
              None \<Rightarrow> Inr (0, False)
            | Some n \<Rightarrow> scan_lines ft (lines_of (contents (dk_files d) n)) 0 False)
           (\<lambda>(from_files, torn).
              Inr \<lparr>rc_next_seq = max (max from_marker from_files) first_seq,
                   rc_from_scan = (from_files > from_marker), rc_torn = torn\<rparr>))"

text \<open>\<^verbatim>\<open>JsonlLog::open\<close>, with the directory it leaves behind.\<close>

definition open_log ::
    "(json \<Rightarrow> string) \<Rightarrow> (string \<Rightarrow> json option) \<Rightarrow> io_plan \<Rightarrow> ticks \<Rightarrow> string \<Rightarrow> disk
     \<Rightarrow> (log_error + jlog) \<times> disk" where
  "open_log tt ft io t day d =
     (case recover_next_seq ft d of
        Inl e \<Rightarrow> (Inl e, d)
      | Inr rc \<Rightarrow>
          if io OpenDay \<noteq> IoOk then (Inl Io, d)
          else
            let st = \<lparr>dk_files = append_file (day_path day) [] (dk_files d), dk_marker = dk_marker d,
                      jl_next = rc_next_seq rc, jl_buf = [], jl_day = day, jl_unsynced = 0,
                      jl_last_sync = synced_at t\<rparr>
            in if rc_from_scan rc
               then (case append_system tt io t ''log_recovered''
                       (JObj [(''nextSeq'', JNum (int (rc_next_seq rc))),
                              (''truncatedTornLine'', JBool (rc_torn rc))]) st of
                       (Inl e, st) \<Rightarrow> (Inl e, disk.truncate st)
                     | (Inr n, st) \<Rightarrow> (Inr st, disk.truncate st))
               else (Inr st, disk.truncate st))"

end
