(* ===== verification/Jsonl_Spec.thy ===== *)
theory Jsonl_Spec imports Jsonl begin

text \<open>
  What the event log of \<open>Jsonl\<close> promises. A directory \<open>holds\<close> a list of day
  files, each a list of records, when its bytes are the encoded lines; \<open>log_inv\<close> adds that
  the sequence numbers of all records are contiguous and end just before the counter, and that
  a restart can find the counter again. Appends, syncs and restarts after a process crash keep
  the invariant as long as I/O succeeds and the days do not run backwards; the properties at
  the end are read off it, and those about failing I/O are computed on the model directly.
\<close>

section \<open>The buffered writer when I/O succeeds\<close>

definition drain :: "jlog \<Rightarrow> jlog" where
  "drain st = put_bytes (jl_buf st) st\<lparr>jl_buf := []\<rparr>"

definition has_day :: "jlog \<Rightarrow> bool" where
  "has_day st \<longleftrightarrow> day_path (jl_day st) \<in> fst ` set (dk_files st)"

definition all_ok :: io_plan where "all_ok = (\<lambda>_. IoOk)"

lemma all_ok_simps [simp]: "all_ok s = IoOk"
  by (simp add: all_ok_def)

lemma act_bind_simps [simp]:
  "act_bind (Inl e, st) f = (Inl e, st)"
  "act_bind (Inr x, st) f = f x st"
  by (simp_all add: act_bind_def)

lemma append_file_append: "append_file n b (append_file n a fs) = append_file n (a @ b) fs"
  by (induction n a fs rule: append_file.induct) auto

lemma append_file_Nil: "n \<in> fst ` set fs \<Longrightarrow> append_file n [] fs = fs"
  by (induction n "[] :: string" fs rule: append_file.induct) auto

lemma append_file_names: "fst ` set (append_file n b fs) = insert n (fst ` set fs)"
  by (induction n b fs rule: append_file.induct) auto

lemma put_bytes_simps [simp]:
  "jl_next (put_bytes b st) = jl_next st" "jl_buf (put_bytes b st) = jl_buf st"
  "jl_day (put_bytes b st) = jl_day st" "jl_unsynced (put_bytes b st) = jl_unsynced st"
  "jl_last_sync (put_bytes b st) = jl_last_sync st" "dk_marker (put_bytes b st) = dk_marker st"
  "dk_files (put_bytes b st) = append_file (day_path (jl_day st)) b (dk_files st)"
  by (simp_all add: put_bytes_def)

lemma put_bytes_append: "put_bytes b (put_bytes a st) = put_bytes (a @ b) st"
  by (simp add: put_bytes_def append_file_append)

lemma put_bytes_buf: "put_bytes b (st\<lparr>jl_buf := c\<rparr>) = (put_bytes b st)\<lparr>jl_buf := c\<rparr>"
  by (simp add: put_bytes_def)

lemma put_bytes_Nil: "has_day st \<Longrightarrow> put_bytes [] st = st"
  by (simp add: put_bytes_def has_day_def append_file_Nil)

lemma has_day_put [simp]: "has_day (put_bytes b st)"
  by (simp add: has_day_def append_file_names)

lemma has_day_buf [simp]: "has_day (st\<lparr>jl_buf := c\<rparr>) = has_day st"
  by (simp add: has_day_def)

lemma drain_more: "drain (st\<lparr>jl_buf := jl_buf st @ line\<rparr>) = put_bytes line (drain st)"
  by (simp add: drain_def put_bytes_append put_bytes_buf)

lemma drain_empty: "has_day st \<Longrightarrow> jl_buf st = [] \<Longrightarrow> drain st = st"
  by (simp add: drain_def put_bytes_Nil)

lemma buf_flush_ok: "has_day st \<Longrightarrow> buf_flush IoOk st = (Inr (), drain st)"
  by (auto simp: buf_flush_def drain_empty) (simp add: drain_def)

lemma has_day_drain [simp]: "has_day (drain st)"
  by (simp add: drain_def)

lemma drain_buf [simp]: "jl_buf (drain st) = []"
  by (simp add: drain_def)

lemma drain_day [simp]: "jl_day (drain st) = jl_day st" "jl_next (drain st) = jl_next st"
  "jl_unsynced (drain st) = jl_unsynced st" "jl_last_sync (drain st) = jl_last_sync st"
  "dk_marker (drain st) = dk_marker st"
  by (simp_all add: drain_def)

lemma buf_write_ok:
  assumes "has_day st"
  shows "\<exists>st'. buf_write all_ok ph line st = (Inr (), st') \<and> has_day st'
    \<and> drain st' = put_bytes line (drain st) \<and> jl_next st' = jl_next st
    \<and> jl_unsynced st' = jl_unsynced st \<and> jl_last_sync st' = jl_last_sync st"
proof -
  let ?spare = "buffer_capacity - length (jl_buf st)"
  consider (fits) "length line < ?spare" | (flush) "length line > ?spare"
    | (full) "length line = ?spare" by linarith
  then show ?thesis
  proof cases
    case fits
    then show ?thesis using assms by (simp add: buf_write_def Let_def drain_more)
  next
    case flush
    then show ?thesis
      using assms by (auto simp: buf_write_def Let_def buf_flush_ok direct_write_def drain_empty
          put_bytes_Nil drain_def put_bytes_buf put_bytes_append)
  next
    case full
    show ?thesis
    proof (cases "length line \<ge> buffer_capacity")
      case True
      with full have "length (jl_buf st) = 0" unfolding buffer_capacity_def by linarith
      then have "jl_buf st = []" by simp
      with True full assms show ?thesis
        by (simp add: buf_write_def Let_def direct_write_def drain_empty)
    next
      case False
      with full assms show ?thesis by (simp add: buf_write_def Let_def drain_more)
    qed
  qed
qed

definition settled :: "ticks \<Rightarrow> jlog \<Rightarrow> jlog" where
  "settled t st = st\<lparr>dk_marker := Some (decimal (jl_next st)), jl_unsynced := 0,
     jl_last_sync := synced_at t\<rparr>"

lemma sync_ok: "has_day st \<Longrightarrow> sync all_ok ph t st = (Inr (), settled t (drain st))"
  by (simp add: sync_def buf_flush_ok write_marker_def settled_def)

definition sync_due :: "ticks \<Rightarrow> jlog \<Rightarrow> bool" where
  "sync_due t st \<longleftrightarrow> jl_unsynced st \<ge> sync_every_lines \<or> elapsed_at t - jl_last_sync st \<ge> sync_every"

definition the_record ::
    "ticks \<Rightarrow> kind \<Rightarrow> target option \<Rightarrow> wallet_address option \<Rightarrow> json \<Rightarrow> nat option \<Rightarrow> nat \<Rightarrow> log_record"
where
  "the_record t k target origin event fanout seq =
     \<lparr>lr_seq = seq, lr_ts = format_ts (now_utc t), lr_at_ms = unix_ms (now_utc t),
      lr_kind = k, lr_target = target, lr_origin = origin, lr_event = event, lr_fanout = fanout\<rparr>"

definition counted :: "ticks \<Rightarrow> jlog \<Rightarrow> jlog" where
  "counted t st =
     (let st = st\<lparr>jl_next := u64_succ (jl_next st), jl_unsynced := jl_unsynced st + 1\<rparr>
      in if sync_due t st then settled t st else st)"

lemma has_day_counted: "has_day st \<Longrightarrow> has_day (st\<lparr>jl_next := n, jl_unsynced := m\<rparr>)"
  by (simp add: has_day_def)

lemma append_here_ok:
  assumes "has_day st"
  shows "append_here tt all_ok t k target origin event fanout st =
    (Inr (jl_next st), counted t (put_bytes
       (encode_line tt (the_record t k target origin event fanout (jl_next st))) (drain st)))"
proof -
  let ?line = "encode_line tt (the_record t k target origin event fanout (jl_next st))"
  obtain st' where st': "buf_write all_ok Appending ?line st = (Inr (), st')" "has_day st'"
      "drain st' = put_bytes ?line (drain st)"
    using buf_write_ok [OF assms] by blast
  then show ?thesis
    by (simp add: append_here_def Let_def flip: the_record_def)
       (simp add: buf_flush_ok counted_def sync_due_def Let_def sync_ok has_day_counted drain_empty)
qed

definition rotated :: "(json \<Rightarrow> string) \<Rightarrow> ticks \<Rightarrow> string \<Rightarrow> jlog \<Rightarrow> jlog" where
  "rotated tt t day st =
     (put_bytes
        (encode_line tt (rotation_record (rotate_utc t) (day_path (jl_day st)) (jl_next st)))
        ((settled t (drain st))\<lparr>jl_day := day\<rparr>))\<lparr>jl_next := u64_succ (jl_next st)\<rparr>"

lemma drain_next: "drain (st\<lparr>jl_next := n\<rparr>) = (drain st)\<lparr>jl_next := n\<rparr>"
  by (simp add: drain_def put_bytes_def)

lemma settled_fields [simp]:
  "jl_day (settled t st) = jl_day st" "jl_next (settled t st) = jl_next st"
  "jl_buf (settled t st) = jl_buf st" "dk_files (settled t st) = dk_files st"
  "dk_marker (settled t st) = Some (decimal (jl_next st))"
  by (simp_all add: settled_def)

lemma rotate_ok:
  assumes "has_day st"
  shows "\<exists>st'. rotate tt all_ok t day st = (Inr (), st') \<and> has_day st'
    \<and> drain st' = rotated tt t day st"
proof -
  let ?s1 = "settled t (drain st)"
  let ?s2 = "put_bytes [] (?s1\<lparr>jl_day := day, jl_buf := []\<rparr>)"
  let ?line = "encode_line tt (rotation_record (rotate_utc t) (day_path (jl_day st)) (jl_next st))"
  obtain st3 where st3: "buf_write all_ok Rotating ?line ?s2 = (Inr (), st3)" "has_day st3"
      "drain st3 = put_bytes ?line (drain ?s2)" "jl_next st3 = jl_next st"
    using buf_write_ok [of ?s2] by (metis has_day_put put_bytes_simps(1) settled_fields(2)
        drain_day(2) jlog.simps(3) jlog.select_convs(1) jlog.surjective jlog.update_convs(2,3))
  have "drain ?s2 = ?s2" by (simp add: drain_empty)
  then have "drain (st3\<lparr>jl_next := u64_succ (jl_next st)\<rparr>) = rotated tt t day st"
    by (simp add: drain_next st3(3) put_bytes_append rotated_def)
  moreover have "has_day (st3\<lparr>jl_next := u64_succ (jl_next st)\<rparr>)"
    using st3(2) by (simp add: has_day_def)
  ultimately show ?thesis
    using st3(1) assms by (simp add: rotate_def sync_ok Let_def)
qed

section \<open>Reading a directory of whole lines\<close>

definition file_bytes :: "(json \<Rightarrow> string) \<Rightarrow> log_record list \<Rightarrow> string" where
  "file_bytes tt rs = concat (map (encode_line tt) rs)"

type_synonym day_records = "(string \<times> log_record list) list"

definition records :: "day_records \<Rightarrow> log_record list" where
  "records css = concat (map snd css)"

definition holds :: "(json \<Rightarrow> string) \<Rightarrow> (string \<times> string) list \<Rightarrow> day_records \<Rightarrow> bool" where
  "holds tt fs css \<longleftrightarrow> fs = map (\<lambda>(n, rs). (n, file_bytes tt rs)) css
     \<and> sorted_wrt (<) (map fst css) \<and> (\<forall>n \<in> set (map fst css). is_log n)"

lemma holds_names: "holds tt fs css \<Longrightarrow> map fst fs = map fst css"
  by (auto simp: holds_def)

lemma holds_log_files: "holds tt fs css \<Longrightarrow> log_files fs = map fst css"
  by (simp add: log_files_def holds_names) (simp add: holds_def)

lemma holds_sorted: "holds tt fs css \<Longrightarrow> sort (log_files fs) = map fst css"
  by (simp add: holds_log_files)
     (metis holds_def sorted_sort_id strict_sorted_imp_sorted)

lemma holds_distinct: "holds tt fs css \<Longrightarrow> distinct (map fst css)"
  unfolding holds_def by (metis strict_sorted_iff)

lemma holds_contents:
  assumes "holds tt fs css" "(n, rs) \<in> set css"
  shows "contents fs n = file_bytes tt rs"
proof -
  have "map_of fs n = Some (file_bytes tt rs)"
    using assms holds_distinct [OF assms(1)]
    by (intro map_of_is_SomeI) (auto simp: holds_names [OF assms(1)], auto simp: holds_def)
  then show ?thesis by (simp add: contents_def)
qed

definition seq_top :: "log_record list \<Rightarrow> nat \<Rightarrow> nat" where
  "seq_top rs m = foldl (\<lambda>m r. max m (u64_succ (lr_seq r))) m rs"

context json_text begin

lemma lines_of_record:
  "lines_of (encode_line tt r @ rest) = tt (record_json r) # lines_of rest"
proof -
  have "strip_return (tt (record_json r)) = tt (record_json r)"
    using text_no_return [of "record_json r"] text_ends [of "record_json r"]
    by (auto simp: strip_return_def) (metis last_in_set)
  then show ?thesis
    by (subst lines_of.simps) (simp add: encode_line_def split_once_append text_no_newline)
qed

lemma lines_of_file:
  "lines_of (file_bytes tt rs @ rest) = map (\<lambda>r. tt (record_json r)) rs @ lines_of rest"
  by (induction rs) (simp_all add: file_bytes_def lines_of_record)

lemma lines_of_Nil [simp]: "lines_of [] = []"
  by (simp add: lines_of.simps)

lemma parse_record_text: "record_ok r \<Longrightarrow> parse_record ft (tt (record_json r)) = Some r"
  by (simp add: parse_record_def parse_text record_json_roundtrip)

lemma replay_lines_prefix:
  assumes "\<forall>r \<in> set rs. record_ok r" "length out \<le> limit"
  shows "replay_lines ft after limit (map (\<lambda>r. tt (record_json r)) rs @ ls) oldest out =
    (let kept = filter (\<lambda>r. after < lr_seq r) rs
     in if limit < length out + length kept then Inr None
        else replay_lines ft after limit ls (case oldest of Some n \<Rightarrow> Some n
             | None \<Rightarrow> (case rs of [] \<Rightarrow> None | r # _ \<Rightarrow> Some (lr_seq r))) (out @ kept))"
  using assms
proof (induction rs arbitrary: oldest out)
  case Nil
  then show ?case by (simp split: option.split)
next
  case (Cons r rs)
  let ?o = "Some (case oldest of None \<Rightarrow> lr_seq r | Some n \<Rightarrow> n)"
  have o: "(case oldest of None \<Rightarrow> Some (lr_seq r) | Some n \<Rightarrow> Some n) = ?o"
    by (simp split: option.split)
  have r: "parse_record ft (tt (record_json r)) = Some r" "valid_utf8 (tt (record_json r))"
    using Cons.prems parse_record_text text_utf8 by simp_all
  show ?case
  proof (cases "after < lr_seq r")
    case True
    with r o Cons.prems Cons.IH [of "out @ [r]" ?o] show ?thesis
      by (cases "Suc (length out) \<le> limit") (auto simp: Let_def split: option.split)
  next
    case False
    with r o Cons.prems Cons.IH [of out ?o] show ?thesis
      by (auto simp: Let_def split: option.split)
  qed
qed

lemma replay_lines_text:
  assumes "\<forall>r \<in> set rs. record_ok r" "length out \<le> limit"
  shows "replay_lines ft after limit (map (\<lambda>r. tt (record_json r)) rs) oldest out =
    (let kept = filter (\<lambda>r. after < lr_seq r) rs
     in if limit < length out + length kept then Inr None
        else Inr (Some (case oldest of Some n \<Rightarrow> Some n
             | None \<Rightarrow> (case rs of [] \<Rightarrow> None | r # _ \<Rightarrow> Some (lr_seq r)), out @ kept)))"
  using replay_lines_prefix [OF assms, of after "[]" oldest] by (simp add: Let_def)

lemma scan_lines_prefix:
  assumes "\<forall>r \<in> set rs. record_ok r"
  shows "scan_lines ft (map (\<lambda>r. tt (record_json r)) rs @ ls) m torn =
    scan_lines ft ls (seq_top rs m) (torn \<and> rs = [])"
  using assms
proof (induction rs arbitrary: m torn)
  case Nil
  then show ?case by (simp add: seq_top_def)
next
  case (Cons r rs)
  then show ?case
    using parse_record_text [of r] text_utf8 [of "record_json r"] text_trim [of "record_json r"]
    by (simp add: seq_top_def)
qed

lemma scan_lines_text:
  assumes "\<forall>r \<in> set rs. record_ok r"
  shows "scan_lines ft (map (\<lambda>r. tt (record_json r)) rs) m torn =
    Inr (seq_top rs m, torn \<and> rs = [])"
  using scan_lines_prefix [OF assms, of "[]" m torn] by simp

lemma holds_all_lines:
  assumes "holds tt fs css"
  shows "concat (map (\<lambda>n. lines_of (contents fs n)) (sort (log_files fs)))
    = map (\<lambda>r. tt (record_json r)) (records css)"
proof -
  have "concat (map (\<lambda>x. lines_of (contents fs (fst x))) xs)
      = map (\<lambda>r. tt (record_json r)) (records xs)" if "set xs \<subseteq> set css" for xs
    using that
  proof (induction xs)
    case Nil
    then show ?case by (simp add: records_def)
  next
    case (Cons x xs)
    then have "lines_of (contents fs (fst x)) = map (\<lambda>r. tt (record_json r)) (snd x)"
      using holds_contents [OF assms, of "fst x" "snd x"] lines_of_file [of "snd x" "[]"] by simp
    with Cons show ?case by (simp add: records_def)
  qed
  from this [of css] show ?thesis by (simp add: holds_sorted [OF assms] comp_def)
qed

lemma replay_holds:
  assumes "holds tt (dk_files d) css" "\<forall>r \<in> set (records css). record_ok r"
  shows "replay_since ft d after limit =
    (let kept = filter (\<lambda>r. after < lr_seq r) (records css)
     in if limit < length kept then Inr None
        else case records css of [] \<Rightarrow> Inr (Some kept)
          | r # _ \<Rightarrow> if u64_succ after < lr_seq r then Inr None else Inr (Some kept))"
  using assms by (simp add: replay_since_def holds_all_lines replay_lines_text Let_def
      split: list.split)

end

lemma newest_of_sorted:
  "sorted_wrt (<) ns \<Longrightarrow> (\<forall>n \<in> set ns. \<forall>c. cur = Some c \<longrightarrow> c < n) \<Longrightarrow>
     newest_of ns cur = (if ns = [] then cur else Some (last ns))"
  by (induction ns arbitrary: cur) (auto split: option.split)

section \<open>The invariant\<close>

definition log_core :: "(json \<Rightarrow> string) \<Rightarrow> jlog \<Rightarrow> day_records \<Rightarrow> bool" where
  "log_core tt st css \<longleftrightarrow> holds tt (dk_files st) css \<and> jl_buf st = []
     \<and> css \<noteq> [] \<and> fst (last css) = day_path (jl_day st) \<and> length (jl_day st) = 10
     \<and> (\<forall>r \<in> set (records css). record_ok r)
     \<and> (\<exists>f \<ge> 1. f \<le> jl_next st \<and> map lr_seq (records css) = [f ..< jl_next st])
     \<and> marker_value (dk_marker st) \<le> jl_next st
     \<and> (records css = [] \<longrightarrow> jl_next st = 1) \<and> jl_next st < u64_limit"

definition recoverable :: "jlog \<Rightarrow> day_records \<Rightarrow> bool" where
  "recoverable st css \<longleftrightarrow>
     (snd (last css) = [] \<longrightarrow> max (marker_value (dk_marker st)) 1 = jl_next st)"

definition log_inv :: "(json \<Rightarrow> string) \<Rightarrow> jlog \<Rightarrow> day_records \<Rightarrow> bool" where
  "log_inv tt st css \<longleftrightarrow> log_core tt st css \<and> recoverable st css"

definition tick_ok :: "string \<Rightarrow> ticks \<Rightarrow> bool" where
  "tick_ok day t \<longleftrightarrow> length (day_of (now_utc t)) = 10 \<and> day \<le> day_of (now_utc t)
     \<and> i64_ok (unix_ms (now_utc t)) \<and> i64_ok (unix_ms (rotate_utc t))"

definition fields_ok :: "target option \<Rightarrow> wallet_address option \<Rightarrow> nat option \<Rightarrow> bool" where
  "fields_ok target origin fanout \<longleftrightarrow> pred_option target_ok target
     \<and> pred_option wallet_ok origin \<and> pred_option (\<lambda>n. n < 2 ^ 32) fanout"

lemma append_file_last: "n \<notin> fst ` set fs \<Longrightarrow> append_file n b (fs @ [(n, c)]) = fs @ [(n, c @ b)]"
  by (induction fs) auto

lemma append_file_new: "n \<notin> fst ` set fs \<Longrightarrow> append_file n b fs = fs @ [(n, b)]"
  by (induction fs) auto

lemma holds_extend:
  assumes "holds tt fs (pre @ [(n, rs)])"
  shows "holds tt (append_file n (encode_line tt r) fs) (pre @ [(n, rs @ [r])])"
proof -
  have n: "n \<notin> fst ` set pre" using holds_distinct [OF assms] by auto
  have "fst ` set (map (\<lambda>(n, rs). (n, file_bytes tt rs)) pre) = fst ` set pre"
    by (force simp: image_iff)
  with n assms show ?thesis
    by (auto simp: holds_def append_file_last) (simp add: file_bytes_def)
qed

lemma holds_new:
  assumes "holds tt fs css" "\<forall>m \<in> set (map fst css). m < n" "is_log n"
  shows "holds tt (append_file n b fs) (css @ [(n, [])]) \<longleftrightarrow> b = []"
    and "holds tt (append_file n (encode_line tt r) fs) (css @ [(n, [r])])"
proof -
  have "n \<notin> fst ` set fs"
    using assms(2) holds_names [OF assms(1)] by (metis less_irrefl list.set_map)
  with assms show "holds tt (append_file n b fs) (css @ [(n, [])]) \<longleftrightarrow> b = []"
    "holds tt (append_file n (encode_line tt r) fs) (css @ [(n, [r])])"
    by (auto simp: holds_def append_file_new file_bytes_def sorted_wrt_append)
qed

lemma day_path_log [simp]: "is_log (day_path d)"
  by (simp add: is_log_def day_path_def starts_with_def)

lemma append_less_iff:
  "length a = length b \<Longrightarrow> (a @ (x :: string) < b @ x) = (a < b)"
  by (induction a b rule: list_induct2) auto

lemma day_path_less: "length a = length b \<Longrightarrow> (day_path a < day_path b) = (a < b)"
  using append_less_iff [of a b "''.jsonl''"] by (simp add: day_path_def)

lemma decimal_trim: "trim (decimal n) = decimal n" "valid_utf8 (decimal n)"
  by (rule trim_graphic, use decimal_codes in \<open>fastforce simp: is_graphic_def\<close>)
     (rule ascii_valid_utf8, use decimal_codes in fastforce)

lemma marker_decimal: "n < u64_limit \<Longrightarrow> marker_value (Some (decimal n)) = n"
proof -
  assume n: "n < u64_limit"
  have "hd (decimal n) \<noteq> CHR ''+''"
    using decimal_codes [of "hd (decimal n)" n] by (force simp: decimal_def)
  then have "from_str_radix u64_limit 10 (decimal n) = Some n"
    using n by (intro from_str_radix_digits decimal_reads) (simp_all add: decimal_def)
  then show ?thesis by (simp add: marker_value_def decimal_trim)
qed

lemma log_core_has_day: "log_core tt st css \<Longrightarrow> has_day st"
  unfolding log_core_def has_day_def
  by (metis holds_names last_in_set list.set_map image_eqI)

lemma records_append [simp]: "records (a @ b) = records a @ records b"
  by (simp add: records_def)

lemma records_one [simp]: "records [(n, rs)] = rs"
  by (simp add: records_def)

lemma counted_fields [simp]:
  "jl_next (counted t st) = u64_succ (jl_next st)" "jl_buf (counted t st) = jl_buf st"
  "jl_day (counted t st) = jl_day st" "dk_files (counted t st) = dk_files st"
  by (simp_all add: counted_def Let_def)

lemma counted_marker: "dk_marker (counted t st) = dk_marker st
    \<or> dk_marker (counted t st) = Some (decimal (u64_succ (jl_next st)))"
  by (simp add: counted_def Let_def)

lemma u64_succ_eq: "n + 1 < u64_limit \<Longrightarrow> u64_succ n = n + 1"
  by (simp add: u64_succ_def)

lemma log_core_add:
  assumes core: "log_core tt st (pre @ [(n, rs)])" and r: "lr_seq r = jl_next st" "record_ok r"
    and room: "jl_next st + 1 < u64_limit"
  shows "log_inv tt (counted t (put_bytes (encode_line tt r) st)) (pre @ [(n, rs @ [r])])"
proof -
  let ?st = "counted t (put_bytes (encode_line tt r) st)"
  have h: "holds tt (dk_files ?st) (pre @ [(n, rs @ [r])])"
    using core holds_extend [of tt "dk_files st" pre n rs r] by (auto simp: log_core_def)
  have "marker_value (dk_marker ?st) \<le> u64_succ (jl_next st)"
    using counted_marker [of t "put_bytes (encode_line tt r) st"] core room
    by (auto simp: u64_succ_eq marker_decimal log_core_def)
  with h core r room show ?thesis
    by (auto simp: log_inv_def log_core_def recoverable_def u64_succ_eq)
qed

lemma le_last: "sorted_wrt (<) xs \<Longrightarrow> \<forall>m \<in> set xs. m \<le> last (xs :: string list)"
  by (induction xs) (auto intro: less_imp_le)

lemma log_core_rotate:
  assumes core: "log_core tt st css" and day: "length day = 10" "jl_day st < day"
    and ms: "i64_ok (unix_ms (rotate_utc t))" and room: "jl_next st + 1 < u64_limit"
  shows "log_core tt (rotated tt t day st)
    (css @ [(day_path day, [rotation_record (rotate_utc t) (day_path (jl_day st)) (jl_next st)])])"
proof -
  let ?r = "rotation_record (rotate_utc t) (day_path (jl_day st)) (jl_next st)"
  note inv = core [unfolded log_core_def]
  have "sorted_wrt (<) (map fst css)" using inv by (simp add: holds_def)
  then have "\<forall>m \<in> set (map fst css). m \<le> day_path (jl_day st)"
    using le_last [of "map fst css"] inv by (simp add: last_map)
  moreover have "day_path (jl_day st) < day_path day"
    using day inv by (simp add: day_path_less)
  ultimately have "\<forall>m \<in> set (map fst css). m < day_path day" by force
  then have h: "holds tt (append_file (day_path day) (encode_line tt ?r) (dk_files st))
      (css @ [(day_path day, [?r])])"
    using inv by (intro holds_new) simp_all
  have "record_ok ?r"
    using ms room by (simp add: record_ok_def rotation_record_def)
  with h inv room day show ?thesis
    by (auto simp: log_core_def rotated_def drain_empty [OF log_core_has_day [OF core]]
        u64_succ_eq marker_decimal) (auto simp: rotation_record_def)
qed

section \<open>Operations keep the invariant\<close>

lemma log_core_split:
  assumes "log_core tt st css"
  obtains pre rs where "css = pre @ [(day_path (jl_day st), rs)]"
  using assms unfolding log_core_def by (metis append_butlast_last_id surjective_pairing)

lemma record_ok_the_record:
  "i64_ok (unix_ms (now_utc t)) \<Longrightarrow> fields_ok target origin fanout \<Longrightarrow> n < u64_limit \<Longrightarrow>
     record_ok (the_record t k target origin event fanout n)"
  by (simp add: record_ok_def the_record_def fields_ok_def)

lemma the_record_seq [simp]: "lr_seq (the_record t k target origin event fanout n) = n"
  by (simp add: the_record_def)

lemma append_same_day:
  assumes core: "log_core tt st css" and tick: "i64_ok (unix_ms (now_utc t))"
    and fields: "fields_ok target origin fanout" and room: "jl_next st + 1 < u64_limit"
  shows "\<exists>st' css'. append_here tt all_ok t k target origin event fanout st = (Inr (jl_next st), st')
    \<and> log_inv tt st' css' \<and> jl_day st' = jl_day st \<and> jl_next st' = jl_next st + 1
    \<and> records css' = records css @ [the_record t k target origin event fanout (jl_next st)]"
proof -
  let ?r = "the_record t k target origin event fanout (jl_next st)"
  obtain pre rs where css: "css = pre @ [(day_path (jl_day st), rs)]"
    using core by (rule log_core_split)
  have day: "has_day st" using core by (rule log_core_has_day)
  have d: "drain st = st" using core day by (simp add: drain_empty log_core_def)
  have "record_ok ?r" using record_ok_the_record [OF tick fields] room by simp
  then have "log_inv tt (counted t (put_bytes (encode_line tt ?r) st))
      (pre @ [(day_path (jl_day st), rs @ [?r])])"
    using log_core_add [OF core [unfolded css]] room by simp
  with append_here_ok [OF day, of tt t k target origin event fanout] css d room show ?thesis
    by (auto simp: u64_succ_eq)
qed

lemma append_here_drained:
  assumes "has_day st" "has_day st'" "drain st' = drain st"
  shows "append_here tt all_ok t k target origin event fanout st'
    = append_here tt all_ok t k target origin event fanout st"
proof -
  have "jl_next st' = jl_next st" using assms(3) by (metis drain_day(2))
  then show ?thesis using assms by (simp add: append_here_ok)
qed

lemma rotated_fields [simp]:
  "jl_day (rotated tt t day st) = day" "jl_next (rotated tt t day st) = u64_succ (jl_next st)"
  by (simp_all add: rotated_def)

lemma append_ok:
  assumes core: "log_core tt st css" and tick: "tick_ok (jl_day st) t"
    and fields: "fields_ok target origin fanout" and room: "jl_next st + 2 < u64_limit"
  shows "\<exists>st' css' n extra. append tt all_ok t k target origin event fanout st = (Inr n, st')
    \<and> log_inv tt st' css' \<and> jl_day st' = day_of (now_utc t) \<and> jl_next st' = n + 1 \<and> jl_next st \<le> n
    \<and> records css' = records css @ extra @ [the_record t k target origin event fanout n]
    \<and> (\<forall>r \<in> set extra. lr_kind r = System) \<and> map lr_seq extra = [jl_next st ..< n]"
proof (cases "day_of (now_utc t) = jl_day st")
  case True
  with append_same_day [OF core _ fields, of t k event] tick room show ?thesis
    by (fastforce simp: append_def tick_ok_def)
next
  case False
  let ?day = "day_of (now_utc t)"
  let ?r = "rotation_record (rotate_utc t) (day_path (jl_day st)) (jl_next st)"
  let ?css = "css @ [(day_path ?day, [?r])]"
  have core': "log_core tt (rotated tt t ?day st) ?css"
    using core tick False room by (intro log_core_rotate) (auto simp: tick_ok_def)
  obtain st1 where st1: "rotate tt all_ok t ?day st = (Inr (), st1)" "has_day st1"
      "drain st1 = rotated tt t ?day st"
    using rotate_ok [OF log_core_has_day [OF core]] by blast
  have "jl_buf (rotated tt t ?day st) = []" using core' by (simp add: log_core_def)
  then have "drain (rotated tt t ?day st) = rotated tt t ?day st"
    by (rule drain_empty [OF log_core_has_day [OF core']])
  then have "append_here tt all_ok t k target origin event fanout st1
      = append_here tt all_ok t k target origin event fanout (rotated tt t ?day st)"
    using st1 log_core_has_day [OF core'] by (intro append_here_drained) simp_all
  moreover have "jl_next (rotated tt t ?day st) = jl_next st + 1" using room by (simp add: u64_succ_eq)
  ultimately show ?thesis
    using append_same_day [OF core' _ fields, of t k event] st1(1) tick room False
    by (fastforce simp: append_def tick_ok_def rotation_record_def)
qed

lemma sync_log_inv:
  assumes "log_inv tt st css"
  shows "log_inv tt (settled t (drain st)) css"
proof -
  have "drain st = st"
    using assms log_core_has_day [of tt st css] by (simp add: drain_empty log_inv_def log_core_def)
  with assms show ?thesis
    by (auto simp: log_inv_def log_core_def recoverable_def marker_decimal)
qed

text \<open>A restart finds the counter.\<close>

lemma seqs_suffix: "map f (xs @ ys) = [a ..< n] \<Longrightarrow> \<exists>g. a \<le> g \<and> map f ys = [g ..< n]"
proof -
  assume "map f (xs @ ys) = [a ..< n]"
  then have "map f ys = drop (length xs) [a ..< n]"
    by (metis append_eq_conv_conj drop_map length_map map_append)
  then show ?thesis by (intro exI [of _ "a + length xs"]) (simp add: drop_upt)
qed

context json_text begin

lemma top_contiguous:
  "map lr_seq rs = [g ..< n] \<Longrightarrow> n < u64_limit \<Longrightarrow> seq_top rs m = (if rs = [] then m else max m n)"
proof (induction rs arbitrary: n rule: rev_induct)
  case Nil
  then show ?case by (simp add: seq_top_def)
next
  case (snoc r rs)
  then have "g < n" by (cases "g < n") auto
  then have "[g ..< n] = [g ..< n - 1] @ [n - 1]"
    by (metis Suc_pred' bot_nat_0.not_eq_extremum less_Suc_eq_le less_zeroE upt_Suc_append)
  with snoc.prems have rs: "map lr_seq rs = [g ..< n - 1]" "lr_seq r = n - 1" by auto
  with snoc.IH [of "n - 1"] snoc.prems(2) \<open>g < n\<close> show ?case
    by (auto simp: seq_top_def u64_succ_eq)
qed

lemma recover_finds_next:
  assumes "log_inv tt st css"
  shows "\<exists>rc. recover_next_seq ft (disk.truncate st) = Inr rc \<and> rc_next_seq rc = jl_next st
    \<and> \<not> rc_torn rc \<and> (\<not> rc_from_scan rc \<longrightarrow> max (marker_value (dk_marker st)) 1 = jl_next st)"
proof -
  have core: "log_core tt st css" using assms by (simp add: log_inv_def)
  note inv = core [unfolded log_core_def]
  obtain pre rs where css: "css = pre @ [(day_path (jl_day st), rs)]"
    using core by (rule log_core_split)
  have files: "dk_files (disk.truncate st) = dk_files st" "dk_marker (disk.truncate st) = dk_marker st"
    by (simp_all add: disk.truncate_def)
  have h: "holds tt (dk_files st) css" using inv by simp
  have newest: "newest_of (log_files (dk_files st)) None = Some (day_path (jl_day st))"
    unfolding holds_log_files [OF h]
    using newest_of_sorted [of "map fst css" None] h css by (simp add: holds_def)
  have bytes: "contents (dk_files st) (day_path (jl_day st)) = file_bytes tt rs"
    using holds_contents [OF h] css by simp
  obtain f where f: "1 \<le> f" "f \<le> jl_next st" "map lr_seq (records pre @ rs) = [f ..< jl_next st]"
    using inv css by auto
  obtain g where g: "f \<le> g" "map lr_seq rs = [g ..< jl_next st]"
    using seqs_suffix [OF f(3)] by blast
  have ok: "\<forall>r \<in> set rs. record_ok r" using inv css by auto
  have "scan_lines ft (lines_of (file_bytes tt rs)) 0 False = Inr (seq_top rs 0, False)"
    using scan_lines_text [OF ok, of 0 False] lines_of_file [of rs "[]"] by simp
  moreover have "seq_top rs 0 = (if rs = [] then 0 else jl_next st)"
    using top_contiguous [OF g(2)] inv by simp
  moreover have "marker_value (dk_marker st) \<le> jl_next st" "1 \<le> jl_next st" using inv f by auto
  moreover have "rs = [] \<Longrightarrow> max (marker_value (dk_marker st)) 1 = jl_next st"
    using assms css by (simp add: log_inv_def recoverable_def)
  ultimately show ?thesis
    by (auto simp: recover_next_seq_def files newest bytes Let_def first_seq_def)
qed

lemma open_after_crash:
  assumes inv: "log_inv tt st css" and day: "length day = 10" "jl_day st \<le> day"
    and tick: "tick_ok day t" and room: "jl_next st + 2 < u64_limit"
  shows "\<exists>st' css' extra. open_log tt ft all_ok t day (disk.truncate st) = (Inr st', disk.truncate st')
    \<and> log_inv tt st' css' \<and> records css' = records css @ extra
    \<and> (\<forall>r \<in> set extra. lr_kind r = System) \<and> map lr_seq extra = [jl_next st ..< jl_next st']
    \<and> jl_next st \<le> jl_next st'"
proof -
  note core = inv [unfolded log_inv_def log_core_def]
  obtain rc where rc: "recover_next_seq ft (disk.truncate st) = Inr rc" "rc_next_seq rc = jl_next st"
      "\<not> rc_from_scan rc \<longrightarrow> max (marker_value (dk_marker st)) 1 = jl_next st"
    using recover_finds_next [OF inv] by blast
  have files: "dk_files (disk.truncate st) = dk_files st" "dk_marker (disk.truncate st) = dk_marker st"
    by (simp_all add: disk.truncate_def)
  define st0 where "st0 = \<lparr>dk_files = append_file (day_path day) [] (dk_files st),
      dk_marker = dk_marker st, jl_next = jl_next st, jl_buf = [], jl_day = day, jl_unsynced = 0,
      jl_last_sync = synced_at t\<rparr>"
  have "\<exists>css0. log_core tt st0 css0 \<and> records css0 = records css
      \<and> (\<not> rc_from_scan rc \<longrightarrow> recoverable st0 css0)"
  proof (cases "day = jl_day st")
    case True
    have "day_path day \<in> fst ` set (dk_files st)"
      using log_core_has_day [of tt st css] inv True by (simp add: log_inv_def has_day_def)
    then have "log_core tt st0 css"
      using core True by (simp add: log_core_def st0_def append_file_Nil)
    with rc(3) show ?thesis by (intro exI [of _ css]) (simp add: recoverable_def st0_def)
  next
    case False
    have "sorted_wrt (<) (map fst css)" using core by (simp add: holds_def)
    then have "\<forall>m \<in> set (map fst css). m \<le> day_path (jl_day st)"
      using le_last [of "map fst css"] core by (simp add: last_map)
    moreover have "day_path (jl_day st) < day_path day"
      using day core False by (simp add: day_path_less)
    ultimately have "\<forall>m \<in> set (map fst css). m < day_path day" by force
    then have "holds tt (dk_files st0) (css @ [(day_path day, [])])"
      using core holds_new(1) [of tt "dk_files st" css "day_path day" "[]"] by (simp add: st0_def)
    then have "log_core tt st0 (css @ [(day_path day, [])])"
      using core day by (auto simp: log_core_def st0_def)
    with rc(3) show ?thesis
      by (intro exI [of _ "css @ [(day_path day, [])]"]) (simp add: recoverable_def st0_def)
  qed
  then obtain css0 where css0: "log_core tt st0 css0" "records css0 = records css"
      "\<not> rc_from_scan rc \<longrightarrow> recoverable st0 css0" by blast
  have opened: "open_log tt ft all_ok t day (disk.truncate st) =
     (if rc_from_scan rc then
        (case append_system tt all_ok t ''log_recovered''
           (JObj [(''nextSeq'', JNum (int (jl_next st))), (''truncatedTornLine'', JBool (rc_torn rc))]) st0 of
           (Inl e, st) \<Rightarrow> (Inl e, disk.truncate st) | (Inr n, st) \<Rightarrow> (Inr st, disk.truncate st))
      else (Inr st0, disk.truncate st0))"
    by (simp add: open_log_def rc Let_def files flip: st0_def)
  show ?thesis
  proof (cases "rc_from_scan rc")
    case False
    with css0 opened show ?thesis by (auto simp: log_inv_def st0_def)
  next
    case True
    have "tick_ok (jl_day st0) t" "jl_next st0 + 2 < u64_limit" "fields_ok None None None"
      using tick room by (simp_all add: st0_def fields_ok_def)
    from append_ok [OF css0(1) this(1,3,2), of System] obtain st' css' n extra where
      "append_system tt all_ok t ''log_recovered''
         (JObj [(''nextSeq'', JNum (int (jl_next st))), (''truncatedTornLine'', JBool (rc_torn rc))]) st0
       = (Inr n, st')" "log_inv tt st' css'" "jl_next st' = n + 1" "jl_next st0 \<le> n"
      "records css' = records css0 @ extra @
        [the_record t System None None (detail_json ''log_recovered''
           (JObj [(''nextSeq'', JNum (int (jl_next st))), (''truncatedTornLine'', JBool (rc_torn rc))])) None n]"
      "\<forall>r \<in> set extra. lr_kind r = System" "map lr_seq extra = [jl_next st0 ..< n]"
      unfolding append_system_def by metis
    with True opened css0(2) show ?thesis
      by (intro exI [of _ st'] exI [of _ css'] exI) (auto simp: the_record_def st0_def)
  qed
qed

end

section \<open>The contract the hub relies on\<close>

text \<open>A log represents a list of records with contiguous sequence numbers; adding an entry
  puts its record at the end under the number it returns, after at most housekeeping
  records.\<close>

locale event_log =
  fixes rep :: "'l \<Rightarrow> 'r list \<Rightarrow> bool" and seq_of :: "'r \<Rightarrow> nat" and next_of :: "'l \<Rightarrow> nat"
    and add :: "'x \<Rightarrow> 'l \<Rightarrow> ('e + nat) \<times> 'l" and fits :: "'x \<Rightarrow> 'l \<Rightarrow> bool"
    and made :: "'x \<Rightarrow> nat \<Rightarrow> 'r" and housekeeping :: "'r \<Rightarrow> bool"
  assumes gapless: "rep l rs \<Longrightarrow> \<exists>f \<ge> 1. f \<le> next_of l \<and> map seq_of rs = [f ..< next_of l]"
    and add_law: "rep l rs \<Longrightarrow> fits x l \<Longrightarrow>
      \<exists>l' n extra. add x l = (Inr n, l') \<and> rep l' (rs @ extra @ [made x n])
        \<and> (\<forall>r \<in> set extra. housekeeping r)"
    and made_seq: "seq_of (made x n) = n"
begin

lemma seqs_distinct: "rep l rs \<Longrightarrow> distinct (map seq_of rs) \<and> sorted (map seq_of rs)"
  using gapless by fastforce

lemma seqs_below_next: "rep l rs \<Longrightarrow> r \<in> set rs \<Longrightarrow> seq_of r < next_of l"
  using gapless [of l rs] by (metis atLeastLessThan_iff imageI list.set_map set_upt)

lemma add_seq:
  assumes "rep l rs" "fits x l" "add x l = (Inr n, l')"
  shows "next_of l' = n + 1" "r \<in> set rs \<Longrightarrow> seq_of r < n" "rs = [] \<or> next_of l \<le> n"
proof -
  obtain extra where rep: "rep l' (rs @ extra @ [made x n])"
    using add_law [OF assms(1,2)] assms(3) by auto
  then obtain f where f: "map seq_of (rs @ extra @ [made x n]) = [f ..< next_of l']" "f \<le> next_of l'"
    using gapless by blast
  then have "f < next_of l'" by (cases "f = next_of l'") auto
  then have "last [f ..< next_of l'] = next_of l' - 1" by (simp add: last_conv_nth)
  with f(1) made_seq \<open>f < next_of l'\<close> show n: "next_of l' = n + 1"
    by (metis Suc_eq_plus1 Suc_pred' append.assoc last_map last_snoc less_nat_zero_code
        snoc_eq_iff_butlast bot_nat_0.not_eq_extremum)
  show below: "seq_of r < n" if "r \<in> set rs" for r
  proof -
    have "sorted_wrt (<) (map seq_of (rs @ extra @ [made x n]))" using f(1) by simp
    with that show ?thesis by (auto simp: sorted_wrt_append made_seq)
  qed
  show "rs = [] \<or> next_of l \<le> n"
  proof (cases "rs = []")
    case False
    obtain g where g: "map seq_of rs = [g ..< next_of l]" "g \<le> next_of l"
      using gapless [OF assms(1)] by blast
    with False have "g < next_of l" by (cases "g = next_of l") auto
    then have "next_of l - 1 \<in> set (map seq_of rs)" unfolding g(1) by auto
    then show ?thesis using below by fastforce
  qed simp
qed

end

text \<open>The arguments of \<^verbatim>\<open>append_event\<close> as one entry.\<close>

record entry =
  en_ticks :: ticks
  en_target :: target
  en_origin :: "wallet_address option"
  en_event :: server_event
  en_fanout :: nat

definition add_entry :: "(json \<Rightarrow> string) \<Rightarrow> entry \<Rightarrow> jlog \<Rightarrow> (log_error + nat) \<times> jlog" where
  "add_entry tt x = append_event tt all_ok (en_ticks x) (en_target x) (en_origin x) (en_event x)
     (en_fanout x)"

definition entry_fits :: "entry \<Rightarrow> jlog \<Rightarrow> bool" where
  "entry_fits x st \<longleftrightarrow> tick_ok (jl_day st) (en_ticks x) \<and> target_ok (en_target x)
     \<and> pred_option wallet_ok (en_origin x) \<and> en_fanout x < 2 ^ 32 \<and> jl_next st + 2 < u64_limit"

definition entry_record :: "entry \<Rightarrow> nat \<Rightarrow> log_record" where
  "entry_record x n = the_record (en_ticks x) Realtime (Some (en_target x)) (en_origin x)
     (event_json (en_event x)) (Some (en_fanout x)) n"

definition log_rep :: "(json \<Rightarrow> string) \<Rightarrow> jlog \<Rightarrow> log_record list \<Rightarrow> bool" where
  "log_rep tt st rs \<longleftrightarrow> (\<exists>css. log_inv tt st css \<and> records css = rs)"

interpretation jl: event_log "log_rep tt" lr_seq jl_next "add_entry tt" entry_fits entry_record
    "\<lambda>r. lr_kind r = System"
proof
  fix l rs and x :: entry
  assume rep: "log_rep tt l rs"
  then show "\<exists>f \<ge> 1. f \<le> jl_next l \<and> map lr_seq rs = [f ..< jl_next l]"
    by (auto simp: log_rep_def log_inv_def log_core_def)
  assume fits: "entry_fits x l"
  from rep obtain css where css: "log_core tt l css" "records css = rs"
    by (auto simp: log_rep_def log_inv_def)
  have "fields_ok (Some (en_target x)) (en_origin x) (Some (en_fanout x))"
    using fits by (simp add: fields_ok_def entry_fits_def)
  from append_ok [OF css(1) _ this, of "en_ticks x" Realtime "event_json (en_event x)"] fits css(2)
  show "\<exists>l' n extra. add_entry tt x l = (Inr n, l') \<and> log_rep tt l' (rs @ extra @ [entry_record x n])
      \<and> (\<forall>r \<in> set extra. lr_kind r = System)"
    unfolding entry_fits_def add_entry_def append_event_def entry_record_def log_rep_def by metis
qed (simp add: entry_record_def)

section \<open>Reachable logs\<close>

text \<open>What a process can do to its log while I/O succeeds, a crash and restart of the process
  included: the file keeps what was flushed and the buffer is lost.\<close>

inductive log_step ::
    "(json \<Rightarrow> string) \<Rightarrow> (string \<Rightarrow> json option) \<Rightarrow> jlog \<Rightarrow> jlog \<Rightarrow> bool" for tt ft where
  append_step: "append tt all_ok t k target origin event fanout st = (Inr n, st') \<Longrightarrow>
     tick_ok (jl_day st) t \<Longrightarrow> fields_ok target origin fanout \<Longrightarrow> jl_next st + 2 < u64_limit \<Longrightarrow>
     log_step tt ft st st'"
| flush_step: "log_flush all_ok t st = (Inr (), st') \<Longrightarrow> log_step tt ft st st'"
| restart_step: "open_log tt ft all_ok t day (disk.truncate st) = (Inr st', d) \<Longrightarrow>
     length day = 10 \<Longrightarrow> jl_day st \<le> day \<Longrightarrow> tick_ok day t \<Longrightarrow> jl_next st + 2 < u64_limit \<Longrightarrow>
     log_step tt ft st st'"

inductive log_reach :: "(json \<Rightarrow> string) \<Rightarrow> (string \<Rightarrow> json option) \<Rightarrow> jlog \<Rightarrow> bool" for tt ft where
  first_boot: "open_log tt ft all_ok t day \<lparr>dk_files = [], dk_marker = None\<rparr> = (Inr st, d) \<Longrightarrow>
     length day = 10 \<Longrightarrow> log_reach tt ft st"
| later: "log_reach tt ft st \<Longrightarrow> log_step tt ft st st' \<Longrightarrow> log_reach tt ft st'"

inductive_cases log_stepE: "log_step tt ft st st'"

lemma first_boot_inv:
  assumes "open_log tt ft io t day \<lparr>dk_files = [], dk_marker = None\<rparr> = (Inr st, d)" "length day = 10"
  shows "log_inv tt st [(day_path day, [])]"
proof -
  have "marker_value None = 0" by (simp add: marker_value_def)
  with assms show ?thesis
    by (auto simp: open_log_def recover_next_seq_def log_files_def first_seq_def Let_def
        log_inv_def log_core_def recoverable_def holds_def file_bytes_def records_def u64_limit_def
        split: if_splits)
qed

context json_text begin

lemma step_inv: "log_step tt ft st st' \<Longrightarrow> log_inv tt st css \<Longrightarrow> \<exists>css'. log_inv tt st' css'"
proof (induction rule: log_step.induct)
  case (append_step t k target origin event fanout st n st')
  then show ?case
    using append_ok [of tt st css t target origin fanout k event] by (auto simp: log_inv_def)
next
  case (flush_step t st st')
  then have "has_day st" using log_core_has_day by (auto simp: log_inv_def)
  with flush_step sync_log_inv [of tt st css t] show ?case
    by (auto simp: log_flush_def sync_ok)
next
  case (restart_step t day st st' d)
  then show ?case using open_after_crash [of st css day t] by auto
qed

lemma reach_inv: "log_reach tt ft st \<Longrightarrow> \<exists>css. log_inv tt st css"
  by (induction rule: log_reach.induct) (auto dest: first_boot_inv step_inv)

lemma replay_rep:
  assumes "log_rep tt st rs"
  shows "replay_since ft (disk.truncate st) after limit =
    (let kept = filter (\<lambda>r. after < lr_seq r) rs
     in if limit < length kept then Inr None
        else case rs of [] \<Rightarrow> Inr (Some kept)
          | r # _ \<Rightarrow> if u64_succ after < lr_seq r then Inr None else Inr (Some kept))"
proof -
  obtain css where core: "log_core tt st css" and rs: "rs = records css"
    using assms by (auto simp: log_rep_def log_inv_def)
  have "holds tt (dk_files (disk.truncate st)) css" "\<forall>r \<in> set (records css). record_ok r"
    using core by (simp_all add: log_core_def disk.truncate_def)
  then show ?thesis unfolding rs by (rule replay_holds)
qed

lemma replay_kept:
  assumes "log_rep tt st rs" "map lr_seq rs = [f ..< n]" "f \<le> u64_succ after"
    and "filter (\<lambda>r. after < lr_seq r) rs = kept" "length kept \<le> limit"
  shows "replay_since ft (disk.truncate st) after limit = Inr (Some kept)"
proof (cases rs)
  case Nil
  with assms replay_rep [OF assms(1), of after limit] show ?thesis by simp
next
  case (Cons r rs')
  then have "lr_seq r = f" using assms(2) by (metis list.simps(9) upt_eq_Cons_conv)
  moreover have "(case rs of [] \<Rightarrow> Inr (Some kept)
      | r # _ \<Rightarrow> if u64_succ after < lr_seq r then Inr None else Inr (Some kept))
    = (if u64_succ after < lr_seq r then Inr None else Inr (Some kept))"
    by (simp add: Cons)
  ultimately show ?thesis
    using replay_rep [OF assms(1), of after limit] assms(3,5) unfolding assms(4) by (simp add: Let_def)
qed

end

lemma kept_seqs: "map f rs = [a ..< n] \<Longrightarrow> map f (filter (\<lambda>r. b < f r) rs) = [max a (b + 1) ..< n]"
proof -
  assume m: "map f rs = [a ..< n]"
  have "map f (filter (\<lambda>r. b < f r) rs) = filter (\<lambda>x. b < x) (map f rs)"
    by (simp add: filter_map comp_def)
  also have "\<dots> = [max a (b + 1) ..< n]"
    unfolding m by (induction n) auto
  finally show ?thesis .
qed

lemma reach_rep:
  "json_text tt ft \<Longrightarrow> log_reach tt ft st \<Longrightarrow> \<exists>rs. log_rep tt st rs"
  using json_text.reach_inv by (fastforce simp: log_rep_def)

section \<open>Properties\<close>


definition sample_instant :: instant where
  "sample_instant = \<lparr>day_of = ''2026-07-27'', format_ts = ''2026-07-27T09:14:22.881Z'',
     unix_ms = 1785316462881\<rparr>"

definition sample_ticks :: ticks where
  "sample_ticks = \<lparr>now_utc = sample_instant, rotate_utc = sample_instant, elapsed_at = 0,
     synced_at = 0\<rparr>"

definition sample_log :: jlog where
  "sample_log = \<lparr>dk_files = [(''events-2026-07-27.jsonl'', [])], dk_marker = None, jl_next = 1,
     jl_buf = [], jl_day = ''2026-07-27'', jl_unsynced = 0, jl_last_sync = 0\<rparr>"

lemma sample_log_boot:
  "open_log tt ft all_ok sample_ticks ''2026-07-27'' \<lparr>dk_files = [], dk_marker = None\<rparr>
   = (Inr sample_log, disk.truncate sample_log)"
  by (simp add: open_log_def recover_next_seq_def log_files_def marker_value_def first_seq_def
      sample_ticks_def sample_log_def day_path_def disk.truncate_def)

lemma sample_log_reach: "log_reach tt ft sample_log"
  using sample_log_boot by (rule log_reach.first_boot) simp


text \<open>The log is written before the fan-out: once \<^verbatim>\<open>append_event\<close> returns a
  sequence number, a replay from just before it gives exactly the record of that event with its
  target and origin, and the number is larger than every one in the log before.\<close>

theorem append_then_replay:
  assumes "json_text tt ft" "log_reach tt ft st"
    and "append_event tt all_ok t target origin event fanout st = (Inr n, st')"
    and "tick_ok (jl_day st) t" "target_ok target" "pred_option wallet_ok origin"
      "event_ok event" "fanout < 2 ^ 32" "jl_next st + 2 < u64_limit" "1 \<le> limit"
  shows "jl_next st \<le> n \<and> jl_next st' = n + 1
    \<and> (\<exists>r. replay_since ft (disk.truncate st') (n - 1) limit = Inr (Some [r])
         \<and> lr_seq r = n \<and> record_event r = Some event \<and> lr_target r = Some target
         \<and> lr_origin r = origin)"
proof -
  define x where "x = \<lparr>en_ticks = t, en_target = target, en_origin = origin, en_event = event,
    en_fanout = fanout\<rparr>"
  obtain css where css: "log_inv tt st css" using json_text.reach_inv [OF assms(1,2)] by blast
  have fields: "fields_ok (Some target) origin (Some fanout)" using assms by (simp add: fields_ok_def)
  from append_ok [of tt st css, OF _ assms(4) fields assms(9), of Realtime "event_json event"] css
  obtain css' extra where c: "log_inv tt st' css'" "jl_next st' = n + 1" "jl_next st \<le> n"
      "records css' = records css @ extra @
        [the_record t Realtime (Some target) origin (event_json event) (Some fanout) n]"
    using assms(3) unfolding append_event_def log_inv_def by auto
  let ?r = "the_record t Realtime (Some target) origin (event_json event) (Some fanout) n"
  have rep: "log_rep tt st' (records css')" using c(1) by (auto simp: log_rep_def)
  obtain f where f: "1 \<le> f" "map lr_seq (records css') = [f ..< n + 1]"
    using jl.gapless [OF rep] c(2) by auto
  have "n \<in> set (map lr_seq (records css'))" using c(4) by simp
  then have fn: "f \<le> n" using f(2) by auto
  have "map lr_seq (filter (\<lambda>r. n - 1 < lr_seq r) (records css')) = [n]"
    using kept_seqs [OF f(2), of "n - 1"] f(1) fn by (simp add: max_def)
  moreover have "filter (\<lambda>r. n - 1 < lr_seq r) (records css') =
      filter (\<lambda>r. n - 1 < lr_seq r) (records css @ extra) @ [?r]"
    using c(4) f(1) fn by simp
  ultimately have kept: "filter (\<lambda>r. n - 1 < lr_seq r) (records css') = [?r]"
    by (simp del: filter_append)
  have "n - 1 + 1 < u64_limit" using c(1) f(1) fn c(2) by (simp add: log_inv_def log_core_def)
  then have succ: "u64_succ (n - 1) = n" using f(1) fn by (simp add: u64_succ_eq)
  have "replay_since ft (disk.truncate st') (n - 1) limit = Inr (Some [?r])"
    by (rule json_text.replay_kept [OF assms(1) rep f(2)]) (use succ fn kept assms(10) in simp_all)
  moreover have "record_event ?r = Some event"
    using assms(7) by (simp add: record_event_def the_record_def event_json_roundtrip)
  ultimately show ?thesis
    using c(2,3) by (intro conjI exI [of _ ?r]) (simp_all add: the_record_def)
qed

theorem append_then_replay_witness:
  "\<exists>st' n. append_event plain_text all_ok sample_ticks All None RoomsUpdated 0 sample_log = (Inr n, st')
     \<and> (\<exists>r. replay_since plain_parse (disk.truncate st') (n - 1) 1000 = Inr (Some [r])
          \<and> record_event r = Some RoomsUpdated)"
proof -
  let ?x = "\<lparr>en_ticks = sample_ticks, en_target = All, en_origin = None, en_event = RoomsUpdated,
    en_fanout = 0\<rparr>"
  have tick: "tick_ok (jl_day sample_log) sample_ticks"
    by (simp add: tick_ok_def sample_ticks_def sample_instant_def sample_log_def i64_ok_def)
  have room: "jl_next sample_log + 2 < u64_limit" by (simp add: sample_log_def u64_limit_def)
  obtain rs where "log_rep plain_text sample_log rs"
    using reach_rep [OF plain.json_text_axioms sample_log_reach] by blast
  moreover have "entry_fits ?x sample_log" using tick room by (simp add: entry_fits_def)
  ultimately obtain n st' where
    "append_event plain_text all_ok sample_ticks All None RoomsUpdated 0 sample_log = (Inr n, st')"
    using jl.add_law [of plain_text sample_log rs ?x] by (auto simp: add_entry_def)
  with append_then_replay [OF plain.json_text_axioms sample_log_reach this tick, of 1000] room
  show ?thesis by auto
qed


lemma sample_log_replay: "replay_since plain_parse (disk.truncate sample_log) 0 10 = Inr (Some [])"
  by (simp add: replay_since_def sample_log_def disk.truncate_def log_files_def is_log_def
      starts_with_def contents_def plain.lines_of_Nil)


text \<open>A failed flush is not undone: the line stays in the buffered writer while the counter
  stays where it was, so that the next append hands out the same sequence number again and both
  records reach the log, the first of them an event whose publication was reported as failed.\<close>

theorem failed_flush_duplicates_seq:
  assumes "json_text tt ft" "log_reach tt ft st" "jl_next st + 2 < u64_limit"
    and "tick_ok (jl_day st) t" "day_of (now_utc t) = jl_day st"
    and "r1 = the_record t Realtime (Some target1) None (event_json e1) (Some 0) (jl_next st)"
    and "r2 = the_record t Realtime (Some target2) None (event_json e2) (Some 0) (jl_next st)"
    and "target_ok target1" "target_ok target2" "length (encode_line tt r1) < buffer_capacity"
    and "append_event tt (all_ok(FinalFlush := IoRefused)) t target1 None e1 0 st = (x, st1)"
    and "append_event tt all_ok t target2 None e2 0 st1 = (y, st2)"
  shows "x = Inl Io \<and> y = Inr (jl_next st)
    \<and> replay_since ft (disk.truncate st2) (jl_next st - 1) 1000 = Inr (Some [r1, r2])"
proof -
  obtain css where inv: "log_inv tt st css" using json_text.reach_inv [OF assms(1,2)] by blast
  then have core: "log_core tt st css" by (simp add: log_inv_def)
  obtain pre rs where css: "css = pre @ [(day_path (jl_day st), rs)]"
    using core by (rule log_core_split)
  have day: "has_day st" using core by (rule log_core_has_day)
  have buf: "jl_buf st = []" using core by (simp add: log_core_def)
  have st1: "x = Inl Io" "st1 = st\<lparr>jl_buf := encode_line tt r1\<rparr>"
    using assms(10,11) buf
    by (auto simp: append_event_def append_def assms(5,6) append_here_def Let_def buf_write_def
        buf_flush_def encode_line_def the_record_def)
  have st2: "y = Inr (jl_next st)" "dk_files st2 = append_file (day_path (jl_day st))
      (encode_line tt r2) (append_file (day_path (jl_day st)) (encode_line tt r1) (dk_files st))"
    using assms(12) append_here_ok [of st1 tt t Realtime "Some target2" None "event_json e2" "Some 0"] day
    by (auto simp: append_event_def append_def assms(5,7) st1(2) drain_def)
  have seqs: "lr_seq r1 = jl_next st" "lr_seq r2 = jl_next st" by (simp_all add: assms(6,7))
  have ok: "record_ok r1" "record_ok r2"
    using assms(3,4,8,9) unfolding assms(6,7)
    by (intro record_ok_the_record; simp add: tick_ok_def fields_ok_def)+
  let ?css = "pre @ [(day_path (jl_day st), rs @ [r1] @ [r2])]"
  have "holds tt (dk_files (disk.truncate st2)) ?css"
    using core css holds_extend [OF holds_extend, of tt "dk_files st" pre "day_path (jl_day st)" rs r2 r1]
    by (simp add: log_core_def st2(2) disk.truncate_def)
  moreover have "\<forall>r \<in> set (records ?css). record_ok r"
    using core css ok by (auto simp: log_core_def)
  moreover have all: "records ?css = records css @ [r1, r2]" using css by simp
  moreover obtain f where f: "1 \<le> f" "f \<le> jl_next st" "map lr_seq (records css) = [f ..< jl_next st]"
    using core by (auto simp: log_core_def)
  then have "\<forall>r \<in> set (records css). lr_seq r < jl_next st"
    by (metis atLeastLessThan_iff imageI list.set_map set_upt)
  then have "filter (\<lambda>r. jl_next st - 1 < lr_seq r) (records ?css) = [r1, r2]"
    unfolding all using f(1,2) seqs by (auto simp: filter_empty_conv)
  moreover have "case records ?css of [] \<Rightarrow> True | r # _ \<Rightarrow> \<not> u64_succ (jl_next st - 1) < lr_seq r"
  proof (cases "records css")
    case Nil
    then show ?thesis using all seqs f(1,2) assms(3) by (simp add: u64_succ_eq)
  next
    case (Cons r0 rs0)
    then have "lr_seq r0 = f" using f(3) by (metis list.simps(9) upt_eq_Cons_conv)
    then show ?thesis unfolding all Cons using f(1,2) assms(3) by (simp add: u64_succ_eq)
  qed
  ultimately have "replay_since ft (disk.truncate st2) (jl_next st - 1) 1000 = Inr (Some [r1, r2])"
    using json_text.replay_holds [OF assms(1), of "disk.truncate st2" ?css "jl_next st - 1" 1000]
    by (auto simp: Let_def split: list.splits)
  with st1(1) st2(1) show ?thesis by simp
qed

lemma sample_tick: "tick_ok (jl_day sample_log) sample_ticks"
    "day_of (now_utc sample_ticks) = jl_day sample_log" "jl_next sample_log + 2 < u64_limit"
  by (simp_all add: tick_ok_def sample_ticks_def sample_instant_def sample_log_def i64_ok_def
      u64_limit_def)

lemma length_hex_text [simp]: "length (hex_text s) = 2 * length s"
  by (simp add: hex_text_def hexc.enc_length)

lemma sample_record_short:
  "length (encode_line plain_text
     (the_record sample_ticks Realtime (Some All) None (event_json RoomsUpdated) (Some 0) 1))
   < buffer_capacity"
proof -
  have "length (decimal 1785316462881) \<le> 13" "length (decimal 1) \<le> 1" "length (decimal 0) \<le> 1"
    using length_radix_string [of 10 1785316462881 12] length_radix_string [of 10 1 0]
      length_radix_string [of 10 0 0] by (simp_all add: decimal_def)
  then show ?thesis
    by (simp add: encode_line_def record_json_def the_record_def event_json_def sample_ticks_def
        sample_instant_def int_text_def kind_str_def buffer_capacity_def)
qed

theorem failed_flush_duplicates_seq_witness:
  "\<exists>r1 r2. lr_seq r1 = 1 \<and> lr_seq r2 = 1
     \<and> (\<exists>st2 :: jlog. replay_since plain_parse (disk.truncate st2) 0 1000 = Inr (Some [r1, r2]))"
proof -
  let ?r1 = "the_record sample_ticks Realtime (Some All) None (event_json RoomsUpdated) (Some 0) (jl_next sample_log)"
  let ?r2 = "the_record sample_ticks Realtime (Some All) None (event_json Pong) (Some 0) (jl_next sample_log)"
  have short: "length (encode_line plain_text ?r1) < buffer_capacity"
    using sample_record_short by (simp add: sample_log_def)
  obtain x st1 where 1: "append_event plain_text (all_ok(FinalFlush := IoRefused)) sample_ticks All None
      RoomsUpdated 0 sample_log = (x, st1)" by (metis surj_pair)
  obtain y st2 where 2: "append_event plain_text all_ok sample_ticks All None Pong 0 st1 = (y, st2)"
    by (metis surj_pair)
  have "replay_since plain_parse (disk.truncate st2) (jl_next sample_log - 1) 1000 = Inr (Some [?r1, ?r2])"
    using failed_flush_duplicates_seq [OF plain.json_text_axioms sample_log_reach sample_tick(3,1,2)
        refl refl _ _ short 1 2] by simp
  then have "replay_since plain_parse (disk.truncate st2) 0 1000 = Inr (Some [?r1, ?r2])"
    by (simp add: sample_log_def)
  then show ?thesis
    by (rule_tac x = ?r1 in exI, rule_tac x = ?r2 in exI) (auto simp: sample_log_def)
qed

section \<open>A torn last line\<close>

lemma contents_append_file:
  "contents (append_file n x fs) m = (if m = n then contents fs n @ x else contents fs m)"
  by (induction n x fs rule: append_file.induct) (auto simp: contents_def)

lemma append_file_map_fst: "n \<in> fst ` set fs \<Longrightarrow> map fst (append_file n x fs) = map fst fs"
  by (induction n x fs rule: append_file.induct) auto

lemma lines_of_one: "s \<noteq> [] \<Longrightarrow> CHR 0x0A \<notin> set s \<Longrightarrow> lines_of s = [s]"
  by (simp add: lines_of.simps split_once_absent)

context json_text begin

lemma torn_file_lines:
  assumes "holds tt fs (pre @ [(n, rs)])"
  shows "contents (append_file n x fs) n = file_bytes tt rs @ x"
    and "log_files (append_file n x fs) = map fst pre @ [n]"
    and "concat (map (\<lambda>m. lines_of (contents (append_file n x fs) m)) (sort (log_files (append_file n x fs))))
      = map (\<lambda>r. tt (record_json r)) (records (pre @ [(n, rs)])) @ lines_of x"
proof -
  have n: "n \<in> fst ` set fs" using assms by (force simp: holds_def)
  show c: "contents (append_file n x fs) n = file_bytes tt rs @ x"
    using holds_contents [OF assms, of n rs] by (simp add: contents_append_file)
  have names: "log_files (append_file n x fs) = log_files fs"
    by (simp add: log_files_def append_file_map_fst [OF n])
  then show "log_files (append_file n x fs) = map fst pre @ [n]"
    using holds_log_files [OF assms] by simp
  have "n \<notin> fst ` set pre" using holds_distinct [OF assms] by auto
  then have pre: "map (\<lambda>m. lines_of (contents (append_file n x fs) m)) (map fst pre)
      = map (\<lambda>m. lines_of (contents fs m)) (map fst pre)"
    by (auto simp: contents_append_file)
  have "concat (map (\<lambda>m. lines_of (contents fs m)) (map fst (pre @ [(n, rs)])))
      = map (\<lambda>r. tt (record_json r)) (records (pre @ [(n, rs)]))"
    using holds_all_lines [OF assms] holds_sorted [OF assms] by metis
  moreover have "lines_of (contents fs n) = map (\<lambda>r. tt (record_json r)) rs"
    using holds_contents [OF assms, of n rs] lines_of_file [of rs "[]"] by simp
  ultimately have old: "concat (map (\<lambda>m. lines_of (contents fs m)) (map fst pre))
      = map (\<lambda>r. tt (record_json r)) (records pre)" by simp
  show "concat (map (\<lambda>m. lines_of (contents (append_file n x fs) m))
      (sort (log_files (append_file n x fs))))
      = map (\<lambda>r. tt (record_json r)) (records (pre @ [(n, rs)])) @ lines_of x"
    unfolding names holds_sorted [OF assms] map_append concat_append pre old
    by (simp add: c lines_of_file)
qed

end

text \<open>A torn last line is not discarded. When the log was synced before a write was cut
  short, a restart leaves the torn bytes in place and logs nothing; the first event appended
  afterwards is glued to them, so that if the glued line does not parse, no replay ever returns
  that event although its append succeeded. When the cut falls inside a character, the log does
  not open at all.\<close>

theorem torn_line_swallows_next:
  assumes "json_text tt ft" "log_reach tt ft st" "dk_marker st = Some (decimal (jl_next st))"
    and "torn \<noteq> []" "CHR 0x0A \<notin> set torn" "trim torn \<noteq> []" "parse_record ft torn = None"
    and "d = \<lparr>dk_files = append_file (day_path (jl_day st)) torn (dk_files st), dk_marker = dk_marker st\<rparr>"
    and "day_of (now_utc t) = jl_day st" "jl_next st + 2 < u64_limit"
    and "r = the_record t Realtime (Some target) None (event_json e) (Some 0) (jl_next st)"
    and "valid_utf8 (torn @ tt (record_json r))" "parse_record ft (torn @ tt (record_json r)) = None"
    and "1 \<le> limit"
  shows "if valid_utf8 torn
    then \<exists>st1 st2. open_log tt ft all_ok t (jl_day st) d = (Inr st1, d)
      \<and> append_event tt all_ok t target None e 0 st1 = (Inr (jl_next st), st2)
      \<and> replay_since ft (disk.truncate st2) (jl_next st - 1) limit = Inr (Some [])
    else open_log tt ft all_ok t (jl_day st) d = (Inl Io, d)"
proof -
  obtain css where inv: "log_inv tt st css" using json_text.reach_inv [OF assms(1,2)] by blast
  then have core: "log_core tt st css" by (simp add: log_inv_def)
  let ?n = "day_path (jl_day st)"
  obtain pre rs where css: "css = pre @ [(?n, rs)]" using core by (rule log_core_split)
  have h: "holds tt (dk_files st) (pre @ [(?n, rs)])" using core css by (simp add: log_core_def)
  have ok: "\<forall>r \<in> set (records css). record_ok r" using core by (simp add: log_core_def)
  obtain f where f: "1 \<le> f" "f \<le> jl_next st" "map lr_seq (records css) = [f ..< jl_next st]"
    using core by (auto simp: log_core_def)
  obtain g where "map lr_seq rs = [g ..< jl_next st]" using f(3) css seqs_suffix by (metis records_append records_one)
  then have top: "seq_top rs 0 \<le> jl_next st"
    using json_text.top_contiguous [OF assms(1)] core by (simp add: log_core_def)
  have mark: "marker_value (dk_marker st) = jl_next st"
    using assms(3,10) by (simp add: marker_decimal)
  have newest: "newest_of (log_files (dk_files d)) None = Some ?n"
  proof -
    have "log_files (dk_files d) = map fst pre @ [?n]"
      using json_text.torn_file_lines(2) [OF assms(1) h] by (simp add: assms(8))
    moreover have "sorted_wrt (<) (map fst pre @ [?n])" using h by (simp add: holds_def)
    ultimately show ?thesis using newest_of_sorted [of "map fst pre @ [?n]" None] by simp
  qed
  have lines: "lines_of (contents (dk_files d) ?n) = map (\<lambda>r. tt (record_json r)) rs @ [torn]"
    by (simp add: assms(8) json_text.torn_file_lines(1) [OF assms(1) h]
        json_text.lines_of_file [OF assms(1)] lines_of_one [OF assms(4,5)])
  have scan: "scan_lines ft (map (\<lambda>r. tt (record_json r)) rs @ [torn]) 0 False =
      (if valid_utf8 torn then Inr (seq_top rs 0, True) else Inl Io)"
    using ok css assms(6,7) by (simp add: json_text.scan_lines_prefix [OF assms(1)])
  show ?thesis
  proof (cases "valid_utf8 torn")
    case False
    then show ?thesis
      by (simp add: open_log_def recover_next_seq_def newest lines scan Let_def)
  next
    case True
    define st1 where "st1 = \<lparr>dk_files = dk_files d, dk_marker = dk_marker st, jl_next = jl_next st,
        jl_buf = [], jl_day = jl_day st, jl_unsynced = 0, jl_last_sync = synced_at t\<rparr>"
    have n: "?n \<in> fst ` set (dk_files d)" by (simp add: assms(8) append_file_names)
    have "rc = \<lparr>rc_next_seq = jl_next st, rc_from_scan = False, rc_torn = True\<rparr>
        \<Longrightarrow> open_log tt ft all_ok t (jl_day st) d = (Inr st1, d)"
      if "recover_next_seq ft d = Inr rc" for rc
      using that by (simp add: open_log_def append_file_append st1_def disk.truncate_def assms(8))
    moreover have "recover_next_seq ft d = Inr \<lparr>rc_next_seq = jl_next st, rc_from_scan = False, rc_torn = True\<rparr>"
    proof -
      have "dk_marker d = dk_marker st" by (simp add: assms(8))
      with True mark top f show ?thesis
        by (simp add: recover_next_seq_def newest lines scan Let_def first_seq_def)
    qed
    ultimately have opened: "open_log tt ft all_ok t (jl_day st) d = (Inr st1, d)" by blast
    have day: "has_day st1" using n by (simp add: has_day_def st1_def)
    let ?st2 = "counted t (put_bytes (encode_line tt r) st1)"
    have appended: "append_event tt all_ok t target None e 0 st1 = (Inr (jl_next st), ?st2)"
      using append_here_ok [OF day, of tt t Realtime "Some target" None "event_json e" "Some 0"]
        drain_empty [OF day]
      by (simp add: append_event_def append_def assms(9,11)) (simp add: st1_def assms(11) assms(9))
    have files: "dk_files ?st2 = append_file ?n (torn @ encode_line tt r) (dk_files st)"
      by (simp add: st1_def assms(8) append_file_append)
    let ?glued = "torn @ tt (record_json r)"
    have "strip_return ?glued = ?glued"
      using json_text.text_no_return [OF assms(1), of "record_json r"]
        json_text.text_ends [OF assms(1), of "record_json r"]
      by (auto simp: strip_return_def) (metis last_in_set)
    then have glued: "lines_of (torn @ encode_line tt r) = [?glued]"
      using assms(5) json_text.text_no_newline [OF assms(1), of "record_json r"]
      by (subst lines_of.simps)
         (simp add: encode_line_def split_once_append json_text.lines_of_Nil [OF assms(1)]
           flip: append_assoc)
    have none: "filter (\<lambda>r. jl_next st - 1 < lr_seq r) (records css) = []"
    proof -
      have "\<forall>r \<in> set (records css). lr_seq r < jl_next st"
        using f(3) by (metis atLeastLessThan_iff imageI list.set_map set_upt)
      then show ?thesis using f(1,2) by (auto simp: filter_empty_conv)
    qed
    have kept: "\<not> u64_succ (jl_next st - 1) < lr_seq r0" if "records css = r0 # x" for r0 x
    proof -
      have "lr_seq r0 = f" using f(3) that by (metis list.simps(9) upt_eq_Cons_conv)
      then show ?thesis using f(1,2) assms(10) by (simp add: u64_succ_eq)
    qed
    have d2: "dk_files (disk.truncate ?st2) = dk_files ?st2" by (simp add: disk.truncate_def)
    let ?lines = "map (\<lambda>r. tt (record_json r)) (records css) @ [?glued]"
    have all: "concat (map (\<lambda>n. lines_of (contents (dk_files ?st2) n)) (sort (log_files (dk_files ?st2))))
        = ?lines"
      unfolding files css json_text.torn_file_lines(3) [OF assms(1) h] glued ..
    have "replay_lines ft (jl_next st - 1) limit ?lines None [] =
        Inr (Some (case records css of [] \<Rightarrow> None | r # _ \<Rightarrow> Some (lr_seq r), []))"
      using json_text.replay_lines_prefix [OF assms(1) ok, of "[]" limit "jl_next st - 1" "[?glued]" None]
        none assms(12,13) by (simp add: Let_def)
    then have "replay_since ft (disk.truncate ?st2) (jl_next st - 1) limit = Inr (Some [])"
      unfolding replay_since_def d2 all using kept by (auto split: list.splits)
    with opened appended True show ?thesis by auto
  qed
qed

lemma sample_log_flushed: "log_reach tt ft (settled sample_ticks sample_log)"
proof -
  have day: "has_day sample_log" by (simp add: has_day_def sample_log_def day_path_def)
  then have "log_flush all_ok sample_ticks sample_log = (Inr (), settled sample_ticks sample_log)"
    using drain_empty [OF day] by (simp add: log_flush_def sync_ok) (simp add: sample_log_def)
  then show ?thesis by (blast intro: log_reach.later log_step.flush_step sample_log_reach)
qed


lemma dollar_no_hex: "stop \<noteq> CHR ''$'' \<Longrightarrow> read_hex stop (CHR ''$'' # s) = None"
proof -
  have "digit_value 16 (CHR ''$'') = None" by (simp add: digit_value_def char_class_codes)
  then have "unhex_text (CHR ''$'' # a) = None" for a
    by (cases a) (simp_all add: unhex_text_def)
  then show "stop \<noteq> CHR ''$'' \<Longrightarrow> ?thesis"
    by (auto simp: read_hex_def split: option.split)
qed

lemma torn_unparsed: "parse_record plain_parse (''{$'' @ s) = None"
proof -
  have "read_members n (CHR ''$'' # s) = None" for n
    by (cases n) (simp_all add: dollar_no_hex)
  then show ?thesis by (simp add: parse_record_def plain_parse_def)
qed

lemma plain_utf8: "valid_utf8 (''{$'' @ plain_text j)"
  by (rule ascii_valid_utf8) (use plain_codes in fastforce)

theorem torn_line_swallows_next_witness:
  "\<exists>d st1 st2. open_log plain_text plain_parse all_ok sample_ticks ''2026-07-27'' d = (Inr st1, d)
     \<and> append_event plain_text all_ok sample_ticks All None RoomsUpdated 0 st1 = (Inr 1, st2)
     \<and> replay_since plain_parse (disk.truncate st2) 0 1000 = Inr (Some [])"
proof -
  let ?st = "settled sample_ticks sample_log"
  have st: "jl_next ?st = 1" "jl_day ?st = ''2026-07-27''" by (simp_all add: sample_log_def)
  have ends: "''{$'' \<noteq> []" "CHR 0x0A \<notin> set ''{$''" by simp_all
  have "trim ''{$'' = ''{$''" by (rule trim_graphic) (simp add: is_graphic_def)
  then have trim: "trim ''{$'' \<noteq> []" by simp
  have marker: "dk_marker ?st = Some (decimal (jl_next ?st))" by simp
  have utf8: "valid_utf8 ''{$''" by (simp add: between_def)
  have day: "day_of (now_utc sample_ticks) = jl_day ?st" "jl_next ?st + 2 < u64_limit"
    by (simp_all add: sample_ticks_def sample_instant_def sample_log_def u64_limit_def)
  have limit: "(1 :: nat) \<le> 1000" by simp
  show ?thesis
    using torn_line_swallows_next [OF plain.json_text_axioms sample_log_flushed marker ends trim
        torn_unparsed [of "[]", simplified] refl day refl plain_utf8 torn_unparsed limit, of All RoomsUpdated]
    unfolding if_P [OF utf8] st diff_self_eq_0 by blast
qed

end
