(* ===== verification/Hub.thy ===== *)
theory Hub imports Jsonl_Spec "HOL-Library.AList" begin

text \<open>
  \<^verbatim>\<open>app/server/src/hub.rs\<close>: the realtime fan-out hub. Its concurrent maps are association
  lists keyed as in the code, its hash sets are lists without duplicates, and the broadcast
  channel is the list of the envelopes sent so far. Each operation is one atomic step; the two
  halves of \<^verbatim>\<open>register\<close>, which the code does not run under a lock, are also given
  separately. The database enters as the room ids it returns for an address, the clocks as the
  readings an operation takes.

  The log of \<open>Jsonl\<close> is used through its functions; the lemmas about the operations are
  in \<open>Hub_Spec\<close>.
\<close>

section \<open>Limits\<close>

definition max_connections :: nat where "max_connections = 5000"
definition max_per_wallet :: nat where "max_per_wallet = 8"
definition max_replay :: nat where "max_replay = 1000"
definition away_after_ms :: int where "away_after_ms = 5 * 60 * 1000"
definition beacon_ttl_ms :: int where "beacon_ttl_ms = 150 * 1000"

datatype hub_error = AtCapacity | TooManyConnections | HubLog log_error | HubView

datatype replay_error = ReplayTooOld | ReplayLog log_error

section \<open>Envelopes and views\<close>

record envelope =
  ev_seq :: nat
  ev_at_ms :: int
  ev_target :: target
  ev_origin :: "wallet_address option"
  ev_event :: server_event

record conn_view =
  cv_rooms :: "room_id list"
  cv_blocks :: "wallet_address list"

definition accepts :: "conn_view \<Rightarrow> envelope \<Rightarrow> wallet_address \<Rightarrow> bool" where
  "accepts v env me =
     (if (case ev_origin env of Some w \<Rightarrow> w \<in> set (cv_blocks v) | None \<Rightarrow> False) then False
      else case ev_target env of
        Room r \<Rightarrow> r \<in> set (cv_rooms v)
      | User w \<Rightarrow> w = me
      | RoomExcept r w \<Rightarrow> r \<in> set (cv_rooms v) \<and> w \<noteq> me
      | Rooms rs \<Rightarrow> list_ex (\<lambda>r. r \<in> set (cv_rooms v)) rs
      | All \<Rightarrow> True)"

section \<open>Connections\<close>

datatype conn_kind = Ws | Sse

record conn_handle =
  ch_id :: nat
  ch_wallet :: wallet_address
  ch_kind :: conn_kind
  ch_view :: conn_view
  ch_token_exp :: "int option"
  ch_last_typing :: int
  ch_last_active :: int
  ch_declared_away :: bool

definition conn_new ::
    "nat \<Rightarrow> wallet_address \<Rightarrow> conn_kind \<Rightarrow> conn_view \<Rightarrow> int option \<Rightarrow> int \<Rightarrow> conn_handle" where
  "conn_new cid w k v exp now =
     \<lparr>ch_id = cid, ch_wallet = w, ch_kind = k, ch_view = v, ch_token_exp = exp, ch_last_typing = 0,
      ch_last_active = now, ch_declared_away = False\<rparr>"

definition mark_active :: "int \<Rightarrow> conn_handle \<Rightarrow> conn_handle" where
  "mark_active now h = h\<lparr>ch_last_active := now, ch_declared_away := False\<rparr>"

definition conn_declare :: "presence_status \<Rightarrow> int \<Rightarrow> conn_handle \<Rightarrow> conn_handle" where
  "conn_declare s now h =
     (case s of Away \<Rightarrow> h\<lparr>ch_declared_away := True\<rparr>
      | Online \<Rightarrow> mark_active now h | Offline \<Rightarrow> mark_active now h)"

definition conn_presence :: "int \<Rightarrow> conn_handle \<Rightarrow> presence_status" where
  "conn_presence now h =
     (if ch_declared_away h then Away
      else if now - ch_last_active h \<ge> away_after_ms then Away
      else Online)"

definition allow_typing :: "int \<Rightarrow> int \<Rightarrow> conn_handle \<Rightarrow> bool \<times> conn_handle" where
  "allow_typing now min_interval_ms h =
     (if now - ch_last_typing h < min_interval_ms then (False, h)
      else (True, h\<lparr>ch_last_typing := now\<rparr>))"

definition token_expired :: "int \<Rightarrow> conn_handle \<Rightarrow> bool" where
  "token_expired now_secs h =
     (case ch_token_exp h of None \<Rightarrow> False | Some e \<Rightarrow> now_secs > e)"

section \<open>The hub\<close>

record hub =
  hb_conns :: "(nat \<times> conn_handle) list"
  hb_by_user :: "(wallet_address \<times> nat list) list"
  hb_by_room :: "(room_id \<times> nat list) list"
  hb_presence :: "(wallet_address \<times> presence_status) list"
  hb_beacons :: "(wallet_address \<times> (presence_status \<times> int)) list"
  hb_total :: nat
  hb_next_id :: nat
  hb_log :: jlog
  hb_sent :: "envelope list"
  hb_cancelled :: "nat list"

definition hub_new :: "jlog \<Rightarrow> hub" where
  "hub_new log =
     \<lparr>hb_conns = [], hb_by_user = [], hb_by_room = [], hb_presence = [], hb_beacons = [],
      hb_total = 0, hb_next_id = 1, hb_log = log, hb_sent = [], hb_cancelled = []\<rparr>"

text \<open>The entry of a list-valued map, empty when absent.\<close>

definition listed :: "('k \<times> 'v list) list \<Rightarrow> 'k \<Rightarrow> 'v list" where
  "listed m k = (case map_of m k of None \<Rightarrow> [] | Some xs \<Rightarrow> xs)"

definition has_capacity :: "hub \<Rightarrow> bool" where
  "has_capacity hub \<longleftrightarrow> hb_total hub < max_connections"

definition next_conn_id :: "hub \<Rightarrow> nat \<times> hub" where
  "next_conn_id hub = (hb_next_id hub, hub\<lparr>hb_next_id := u64_succ (hb_next_id hub)\<rparr>)"

fun filter_map :: "('a \<Rightarrow> 'b option) \<Rightarrow> 'a list \<Rightarrow> 'b list" where
  "filter_map f [] = []"
| "filter_map f (x # xs) =
     (case f x of None \<Rightarrow> filter_map f xs | Some y \<Rightarrow> y # filter_map f xs)"

definition parse_rooms :: "string list \<Rightarrow> room_id list" where
  "parse_rooms = filter_map (\<lambda>s. ok_value (room_id_new s))"

definition load_view ::
    "(string \<Rightarrow> (string list \<times> string list) option) \<Rightarrow> wallet_address \<Rightarrow> hub_error + conn_view" where
  "load_view db w =
     (case db (as_str w) of
        None \<Rightarrow> Inl HubView
      | Some (rooms, blocks) \<Rightarrow>
          Inr \<lparr>cv_rooms = remdups (parse_rooms rooms),
               cv_blocks = remdups (filter_map (\<lambda>s. ok_value (wallet_new s)) blocks)\<rparr>)"

text \<open>Adding an id to the set of a room and to the list of a user.\<close>

definition index_room :: "nat \<Rightarrow> room_id \<Rightarrow> (room_id \<times> nat list) list \<Rightarrow> (room_id \<times> nat list) list" where
  "index_room cid r m = AList.update r (List.insert cid (listed m r)) m"

definition unindex_room :: "nat \<Rightarrow> room_id \<Rightarrow> (room_id \<times> nat list) list \<Rightarrow> (room_id \<times> nat list) list" where
  "unindex_room cid r m =
     (case map_of m r of None \<Rightarrow> m
      | Some ids \<Rightarrow>
          let ids = removeAll cid ids
          in if ids = [] then AList.delete r m else AList.update r ids m)"

definition register_check :: "conn_handle \<Rightarrow> hub \<Rightarrow> hub_error + unit" where
  "register_check h hub =
     (if \<not> has_capacity hub then Inl AtCapacity
      else if length (listed (hb_by_user hub) (ch_wallet h)) \<ge> max_per_wallet
           then Inl TooManyConnections
      else Inr ())"

definition register_insert :: "conn_handle \<Rightarrow> hub \<Rightarrow> hub" where
  "register_insert h hub =
     (let cid = ch_id h; w = ch_wallet h
      in hub\<lparr>hb_beacons := AList.delete w (hb_beacons hub),
             hb_by_room := fold (index_room cid) (cv_rooms (ch_view h)) (hb_by_room hub),
             hb_by_user := AList.update w (listed (hb_by_user hub) w @ [cid]) (hb_by_user hub),
             hb_conns := AList.update cid h (hb_conns hub),
             hb_total := hb_total hub + 1\<rparr>)"

definition register :: "conn_handle \<Rightarrow> hub \<Rightarrow> (hub_error + conn_handle) \<times> hub" where
  "register h hub =
     (case register_check h hub of
        Inl e \<Rightarrow> (Inl e, hub)
      | Inr _ \<Rightarrow> (Inr h, register_insert h hub))"

definition unregister :: "nat \<Rightarrow> hub \<Rightarrow> hub" where
  "unregister cid hub =
     (case map_of (hb_conns hub) cid of
        None \<Rightarrow> hub
      | Some h \<Rightarrow>
          let w = ch_wallet h;
              ids = removeAll cid (listed (hb_by_user hub) w)
          in hub\<lparr>hb_conns := AList.delete cid (hb_conns hub),
                 hb_total := hb_total hub - 1,
                 hb_by_room := fold (unindex_room cid) (cv_rooms (ch_view h)) (hb_by_room hub),
                 hb_by_user :=
                   (case map_of (hb_by_user hub) w of None \<Rightarrow> hb_by_user hub
                    | Some _ \<Rightarrow> if ids = [] then AList.delete w (hb_by_user hub)
                               else AList.update w ids (hb_by_user hub)),
                 hb_cancelled := cid # hb_cancelled hub\<rparr>)"

section \<open>Publishing\<close>

definition candidate_ids :: "target \<Rightarrow> hub \<Rightarrow> nat list" where
  "candidate_ids target hub =
     (case target of
        Room r \<Rightarrow> listed (hb_by_room hub) r
      | RoomExcept r w \<Rightarrow> listed (hb_by_room hub) r
      | Rooms rs \<Rightarrow> remdups (concat (map (listed (hb_by_room hub)) rs))
      | User w \<Rightarrow> listed (hb_by_user hub) w
      | All \<Rightarrow> map fst (hb_conns hub))"

definition probe :: "target \<Rightarrow> wallet_address option \<Rightarrow> envelope" where
  "probe target origin =
     \<lparr>ev_seq = 0, ev_at_ms = 0, ev_target = target, ev_origin = origin, ev_event = Pong\<rparr>"

definition would_accept :: "target \<Rightarrow> wallet_address option \<Rightarrow> hub \<Rightarrow> nat \<Rightarrow> bool" where
  "would_accept target origin hub cid =
     (case map_of (hb_conns hub) cid of None \<Rightarrow> False
      | Some h \<Rightarrow> accepts (ch_view h) (probe target origin) (ch_wallet h))"

definition recipients :: "target \<Rightarrow> wallet_address option \<Rightarrow> hub \<Rightarrow> nat" where
  "recipients target origin hub =
     length (filter (would_accept target origin hub) (candidate_ids target hub))"

text \<open>What one publication takes from its surroundings.\<close>

record pub_env =
  pe_io :: io_plan
  pe_ticks :: ticks
  pe_at_ms :: int

definition publish ::
    "(json \<Rightarrow> string) \<Rightarrow> pub_env \<Rightarrow> target \<Rightarrow> wallet_address option \<Rightarrow> server_event \<Rightarrow> hub
     \<Rightarrow> (hub_error + nat) \<times> hub" where
  "publish tt pe target origin event hub =
     (let n = recipients target origin hub
      in case append_event tt (pe_io pe) (pe_ticks pe) target origin event (n mod 2 ^ 32) (hb_log hub) of
           (Inl e, log) \<Rightarrow> (Inl (HubLog e), hub\<lparr>hb_log := log\<rparr>)
         | (Inr seq, log) \<Rightarrow>
             (Inr seq, hub\<lparr>hb_log := log,
                hb_sent := hb_sent hub @
                  [\<lparr>ev_seq = seq, ev_at_ms = pe_at_ms pe, ev_target = target, ev_origin = origin,
                    ev_event = event\<rparr>]\<rparr>))"

definition publish_best_effort ::
    "(json \<Rightarrow> string) \<Rightarrow> pub_env \<Rightarrow> target \<Rightarrow> wallet_address option \<Rightarrow> server_event \<Rightarrow> hub \<Rightarrow> hub" where
  "publish_best_effort tt pe target origin event hub = snd (publish tt pe target origin event hub)"

section \<open>Presence\<close>

definition derive_presence :: "wallet_address \<Rightarrow> int \<Rightarrow> hub \<Rightarrow> presence_status" where
  "derive_presence w now hub =
     (let ids = listed (hb_by_user hub) w;
          statuses = map (conn_presence now) (filter_map (map_of (hb_conns hub)) ids);
          from_connections = fold max statuses Offline;
          from_beacon = (case map_of (hb_beacons hub) w of
                           Some (s, at) \<Rightarrow> if now - at < beacon_ttl_ms then s else Offline
                         | None \<Rightarrow> Offline)
      in max from_connections from_beacon)"

record ann_env =
  ae_now :: int
  ae_rooms :: "string \<Rightarrow> string list option"
  ae_pub :: pub_env

definition announce_presence ::
    "(json \<Rightarrow> string) \<Rightarrow> ann_env \<Rightarrow> wallet_address \<Rightarrow> hub \<Rightarrow> hub" where
  "announce_presence tt ae w hub =
     (let derived = derive_presence w (ae_now ae) hub;
          before = map_of (hb_presence hub) w;
          changed = (if derived = Offline then before \<noteq> None else before \<noteq> Some derived);
          hub = hub\<lparr>hb_presence := (if derived = Offline then AList.delete w (hb_presence hub)
                                   else AList.update w derived (hb_presence hub))\<rparr>
      in if \<not> changed then hub
         else case ae_rooms ae (as_str w) of
           None \<Rightarrow> hub
         | Some ids \<Rightarrow>
             let rooms = parse_rooms ids
             in if rooms = [] then hub
                else publish_best_effort tt (ae_pub ae) (Rooms rooms) (Some w) (Presence w derived) hub)"

definition update_conn :: "nat \<Rightarrow> (conn_handle \<Rightarrow> conn_handle) \<Rightarrow> hub \<Rightarrow> hub" where
  "update_conn cid f hub =
     (case map_of (hb_conns hub) cid of None \<Rightarrow> hub
      | Some h \<Rightarrow> hub\<lparr>hb_conns := AList.update cid (f h) (hb_conns hub)\<rparr>)"

definition beacon ::
    "(json \<Rightarrow> string) \<Rightarrow> int \<Rightarrow> ann_env \<Rightarrow> wallet_address \<Rightarrow> presence_status \<Rightarrow> hub \<Rightarrow> hub" where
  "beacon tt now ae w s hub =
     (let ids = listed (hb_by_user hub) w
      in announce_presence tt ae w
           (if ids = [] then hub\<lparr>hb_beacons := AList.update w (s, now) (hb_beacons hub)\<rparr>
            else (let hub = fold (\<lambda>cid. update_conn cid (conn_declare s now)) ids hub
                  in hub\<lparr>hb_beacons := AList.delete w (hb_beacons hub)\<rparr>)))"

definition announced_presence :: "wallet_address \<Rightarrow> hub \<Rightarrow> presence_status" where
  "announced_presence w hub =
     (case map_of (hb_presence hub) w of None \<Rightarrow> Offline | Some s \<Rightarrow> s)"

definition present_wallets :: "hub \<Rightarrow> (wallet_address \<times> presence_status) list" where
  "present_wallets hub = hb_presence hub"

fun announce_all ::
    "(json \<Rightarrow> string) \<Rightarrow> (nat \<Rightarrow> ann_env) \<Rightarrow> nat \<Rightarrow> wallet_address list \<Rightarrow> hub \<Rightarrow> hub" where
  "announce_all tt aes i [] hub = hub"
| "announce_all tt aes i (w # ws) hub =
     announce_all tt aes (Suc i) ws (announce_presence tt (aes i) w hub)"

definition sweep_presence :: "(json \<Rightarrow> string) \<Rightarrow> int \<Rightarrow> (nat \<Rightarrow> ann_env) \<Rightarrow> hub \<Rightarrow> hub" where
  "sweep_presence tt now aes hub =
     (let hub = hub\<lparr>hb_beacons := filter (\<lambda>(w, s, at). now - at < beacon_ttl_ms) (hb_beacons hub)\<rparr>;
          stale = map fst (filter (\<lambda>(w, s). derive_presence w now hub \<noteq> s) (hb_presence hub))
      in announce_all tt aes 0 stale hub)"

text \<open>The connection task holds the handle of its connection; the hub holds the same object as
  long as the connection is registered.\<close>

definition note_activity ::
    "(json \<Rightarrow> string) \<Rightarrow> int \<Rightarrow> ann_env \<Rightarrow> conn_handle \<Rightarrow> hub \<Rightarrow> hub" where
  "note_activity tt now ae h hub =
     (let hub = update_conn (ch_id h) (mark_active now) hub
      in if announced_presence (ch_wallet h) hub \<noteq> Online
         then announce_presence tt ae (ch_wallet h) hub else hub)"

definition declare_presence ::
    "(json \<Rightarrow> string) \<Rightarrow> int \<Rightarrow> ann_env \<Rightarrow> conn_handle \<Rightarrow> presence_status \<Rightarrow> hub \<Rightarrow> hub" where
  "declare_presence tt now ae h s hub =
     announce_presence tt ae (ch_wallet h) (update_conn (ch_id h) (conn_declare s now) hub)"

definition disconnect :: "(json \<Rightarrow> string) \<Rightarrow> ann_env \<Rightarrow> nat \<Rightarrow> hub \<Rightarrow> hub" where
  "disconnect tt ae cid hub =
     (let w = map_option ch_wallet (map_of (hb_conns hub) cid);
          hub = unregister cid hub
      in case w of None \<Rightarrow> hub | Some w \<Rightarrow> announce_presence tt ae w hub)"

section \<open>Views\<close>

definition swap_view :: "conn_view \<Rightarrow> nat \<Rightarrow> hub \<Rightarrow> hub" where
  "swap_view v cid hub =
     (case map_of (hb_conns hub) cid of
        None \<Rightarrow> hub
      | Some h \<Rightarrow>
          let previous = cv_rooms (ch_view h);
              gone = filter (\<lambda>r. r \<notin> set (cv_rooms v)) previous;
              fresh = filter (\<lambda>r. r \<notin> set previous) (cv_rooms v)
          in hub\<lparr>hb_conns := AList.update cid (h\<lparr>ch_view := v\<rparr>) (hb_conns hub),
                 hb_by_room := fold (index_room cid) fresh
                   (fold (unindex_room cid) gone (hb_by_room hub))\<rparr>)"

definition set_user_view :: "wallet_address \<Rightarrow> conn_view \<Rightarrow> hub \<Rightarrow> hub" where
  "set_user_view w v hub = fold (swap_view v) (listed (hb_by_user hub) w) hub"

definition refresh_user ::
    "(string \<Rightarrow> (string list \<times> string list) option) \<Rightarrow> wallet_address \<Rightarrow> hub
     \<Rightarrow> (hub_error + unit) \<times> hub" where
  "refresh_user db w hub =
     (case load_view db w of
        Inl e \<Rightarrow> (Inl e, hub)
      | Inr v \<Rightarrow> (Inr (), set_user_view w v hub))"

section \<open>Replay\<close>

definition record_envelope :: "log_record \<Rightarrow> envelope option" where
  "record_envelope r =
     (if lr_kind r \<noteq> Realtime then None
      else case (record_event r, lr_target r) of
        (Some event, Some target) \<Rightarrow>
          if \<not> is_replayable event then None
          else Some \<lparr>ev_seq = lr_seq r, ev_at_ms = lr_at_ms r, ev_target = target,
                     ev_origin = lr_origin r, ev_event = event\<rparr>
      | _ \<Rightarrow> None)"

definition hub_replay ::
    "(string \<Rightarrow> json option) \<Rightarrow> nat \<Rightarrow> conn_view \<Rightarrow> wallet_address \<Rightarrow> nat \<Rightarrow> hub
     \<Rightarrow> replay_error + envelope list" where
  "hub_replay ft cursor v w limit hub =
     (case replay_since ft (disk.truncate (hb_log hub)) cursor limit of
        Inl e \<Rightarrow> Inl (ReplayLog e)
      | Inr None \<Rightarrow> Inl ReplayTooOld
      | Inr (Some rs) \<Rightarrow> Inr (filter (\<lambda>env. accepts v env w) (filter_map record_envelope rs)))"

definition lagged_seq :: "hub \<Rightarrow> nat" where
  "lagged_seq hub = jl_next (hb_log hub) - 1"

definition lagged_event :: "nat \<Rightarrow> hub \<Rightarrow> server_event" where
  "lagged_event from_seq hub = ResyncRequired Lagged from_seq (lagged_seq hub)"

end
