(* ===== verification/Hub_Spec.thy ===== *)
theory Hub_Spec imports Hub begin

text \<open>
  What the hub of \<open>Hub\<close> promises: in every reachable state the indices agree with the
  connections, the caps hold and a beacon exists only for a wallet without a connection; the
  fan-out counted over an index is the number of all connections that accept the event; a resume
  replays exactly what was sent after the cursor to such a view; and the announced presence
  follows the derived one. \<open>hub_step\<close> is one operation of the server on its hub while
  log I/O succeeds.
\<close>

section \<open>Maps of lists\<close>

declare map_of_eq_Some_iff [simp del]

lemma listed_update: "listed (AList.update k xs m) k' = (if k' = k then xs else listed m k')"
  by (simp add: listed_def update_conv')

lemma listed_delete: "listed (AList.delete k m) k' = (if k' = k then [] else listed m k')"
  by (simp add: listed_def delete_conv')

lemma listed_Nil [simp]: "listed [] k = []"
  by (simp add: listed_def)

definition lists_ok :: "('k \<times> 'v list) list \<Rightarrow> bool" where
  "lists_ok m \<longleftrightarrow> distinct (map fst m)
     \<and> (\<forall>k xs. map_of m k = Some xs \<longrightarrow> xs \<noteq> [] \<and> distinct xs)"

lemma lists_ok_update: "lists_ok m \<Longrightarrow> xs \<noteq> [] \<Longrightarrow> distinct xs \<Longrightarrow> lists_ok (AList.update k xs m)"
  by (auto simp: lists_ok_def update_conv' distinct_update)

lemma lists_ok_delete: "lists_ok m \<Longrightarrow> lists_ok (AList.delete k m)"
  by (auto simp: lists_ok_def delete_conv' distinct_delete)

lemma lists_ok_distinct: "lists_ok m \<Longrightarrow> distinct (listed m k)"
  by (auto simp: lists_ok_def listed_def split: option.split)

lemma listed_empty_iff: "lists_ok m \<Longrightarrow> listed m k = [] \<longleftrightarrow> map_of m k = None"
  by (auto simp: lists_ok_def listed_def split: option.split)

lemma listed_index_room:
  "listed (index_room c r m) r' = (if r' = r then List.insert c (listed m r) else listed m r')"
  by (simp add: index_room_def listed_update)

lemma lists_ok_index_room: "lists_ok m \<Longrightarrow> lists_ok (index_room c r m)"
  unfolding index_room_def
  by (rule lists_ok_update) (auto simp: lists_ok_distinct List.insert_def)

lemma set_index_rooms:
  "set (listed (fold (index_room c) rs m) r) = set (listed m r) \<union> (if r \<in> set rs then {c} else {})"
  by (induction rs arbitrary: m) (auto simp: listed_index_room)

lemma lists_ok_index_rooms: "lists_ok m \<Longrightarrow> lists_ok (fold (index_room c) rs m)"
  by (induction rs arbitrary: m) (simp_all add: lists_ok_index_room)

lemma listed_unindex_room:
  "listed (unindex_room c r m) r' = (if r' = r then removeAll c (listed m r) else listed m r')"
  by (auto simp: unindex_room_def Let_def listed_update listed_delete split: option.split)
     (auto simp: listed_def)

lemma lists_ok_unindex_room: "lists_ok m \<Longrightarrow> lists_ok (unindex_room c r m)"
  by (auto simp: unindex_room_def Let_def lists_ok_delete split: option.split
      intro!: lists_ok_update distinct_removeAll) (auto simp: lists_ok_def)

lemma set_unindex_rooms:
  "set (listed (fold (unindex_room c) rs m) r) = set (listed m r) - (if r \<in> set rs then {c} else {})"
  by (induction rs arbitrary: m) (auto simp: listed_unindex_room)

lemma lists_ok_unindex_rooms: "lists_ok m \<Longrightarrow> lists_ok (fold (unindex_room c) rs m)"
  by (induction rs arbitrary: m) (simp_all add: lists_ok_unindex_room)

section \<open>The index invariant\<close>

definition index_ok :: "hub \<Rightarrow> bool" where
  "index_ok hub \<longleftrightarrow> distinct (map fst (hb_conns hub))
     \<and> (\<forall>c h. map_of (hb_conns hub) c = Some h \<longrightarrow> ch_id h = c \<and> wallet_ok (ch_wallet h))
     \<and> lists_ok (hb_by_user hub) \<and> lists_ok (hb_by_room hub)
     \<and> (\<forall>c w. c \<in> set (listed (hb_by_user hub) w) \<longleftrightarrow>
          (\<exists>h. map_of (hb_conns hub) c = Some h \<and> ch_wallet h = w))
     \<and> (\<forall>c r. c \<in> set (listed (hb_by_room hub) r) \<longleftrightarrow>
          (\<exists>h. map_of (hb_conns hub) c = Some h \<and> r \<in> set (cv_rooms (ch_view h))))
     \<and> hb_total hub = length (hb_conns hub) \<and> hb_total hub \<le> max_connections
     \<and> (\<forall>w. length (listed (hb_by_user hub) w) \<le> max_per_wallet)
     \<and> (\<forall>w. map_of (hb_beacons hub) w \<noteq> None \<longrightarrow> listed (hb_by_user hub) w = [])"

lemma index_by_user: "index_ok hub \<Longrightarrow> c \<in> set (listed (hb_by_user hub) w) \<longleftrightarrow>
    (\<exists>h. map_of (hb_conns hub) c = Some h \<and> ch_wallet h = w)"
  unfolding index_ok_def by blast

lemma index_by_room: "index_ok hub \<Longrightarrow> c \<in> set (listed (hb_by_room hub) r) \<longleftrightarrow>
    (\<exists>h. map_of (hb_conns hub) c = Some h \<and> r \<in> set (cv_rooms (ch_view h)))"
  unfolding index_ok_def by blast

lemma index_beacon: "index_ok hub \<Longrightarrow> map_of (hb_beacons hub) w \<noteq> None \<Longrightarrow> listed (hb_by_user hub) w = []"
  unfolding index_ok_def by blast

lemma index_ok_new: "index_ok (hub_new log)"
  by (simp add: index_ok_def hub_new_def lists_ok_def listed_def max_connections_def)

lemma length_update_fresh: "map_of m k = None \<Longrightarrow> length (AList.update k v m) = length m + 1"
  by (induction m) auto

lemma length_delete: "distinct (map fst m) \<Longrightarrow> map_of m k = Some v \<Longrightarrow>
    length (AList.delete k m) = length m - 1 \<and> 0 < length m"
proof (induction m)
  case (Cons x m)
  have "AList.delete k m = m" if "k \<notin> fst ` set m"
    using that by (induction m) auto
  with Cons show ?case
    by (cases "fst x = k") (auto dest: map_of_SomeD split: if_splits)
qed simp

lemma index_ok_insert:
  assumes ok: "index_ok hub" and fresh: "map_of (hb_conns hub) (ch_id h) = None"
    and wallet: "wallet_ok (ch_wallet h)" and check: "register_check h hub = Inr ()"
  shows "index_ok (register_insert h hub)"
proof -
  note inv = ok [unfolded index_ok_def]
  have "ch_id h \<notin> set (listed (hb_by_user hub) (ch_wallet h))" using inv fresh by auto
  then have user: "lists_ok (hb_by_user (register_insert h hub))"
    using inv by (auto simp: register_insert_def Let_def lists_ok_distinct intro!: lists_ok_update)
  have room: "lists_ok (hb_by_room (register_insert h hub))"
    using inv by (simp add: register_insert_def Let_def lists_ok_index_rooms)
  have caps: "hb_total hub < max_connections"
      "length (listed (hb_by_user hub) (ch_wallet h)) < max_per_wallet"
    using check by (auto simp: register_check_def has_capacity_def split: if_splits)
  have conns: "map_of (hb_conns (register_insert h hub)) = (map_of (hb_conns hub))(ch_id h \<mapsto> h)"
    by (simp add: register_insert_def Let_def update_conv')
  show ?thesis
    unfolding index_ok_def
  proof (intro conjI allI)
    fix c r
    show "c \<in> set (listed (hb_by_room (register_insert h hub)) r) \<longleftrightarrow>
      (\<exists>h'. map_of (hb_conns (register_insert h hub)) c = Some h' \<and> r \<in> set (cv_rooms (ch_view h')))"
      using inv fresh unfolding conns
      by (auto simp: register_insert_def Let_def set_index_rooms)
  next
    fix c w
    show "c \<in> set (listed (hb_by_user (register_insert h hub)) w) \<longleftrightarrow>
      (\<exists>h'. map_of (hb_conns (register_insert h hub)) c = Some h' \<and> ch_wallet h' = w)"
      using inv fresh unfolding conns
      by (auto simp: register_insert_def Let_def listed_update)
  qed (use inv user room caps fresh wallet conns in
       \<open>auto simp: register_insert_def Let_def distinct_update length_update_fresh listed_update
          delete_conv'\<close>)
qed

lemma index_ok_unregister:
  assumes ok: "index_ok hub"
  shows "index_ok (unregister c hub)"
proof (cases "map_of (hb_conns hub) c")
  case None
  then show ?thesis using ok by (simp add: unregister_def)
next
  case (Some h)
  note inv = ok [unfolded index_ok_def]
  let ?hub = "unregister c hub"
  have mem: "c \<in> set (listed (hb_by_user hub) (ch_wallet h))" using inv Some by auto
  then obtain ids where ids: "map_of (hb_by_user hub) (ch_wallet h) = Some ids"
    by (cases "map_of (hb_by_user hub) (ch_wallet h)") (auto simp: listed_def)
  then have listed: "listed (hb_by_user ?hub) w =
      (if w = ch_wallet h then removeAll c (listed (hb_by_user hub) w) else listed (hb_by_user hub) w)" for w
    by (auto simp: unregister_def Some Let_def listed_update listed_delete)
  have user: "lists_ok (hb_by_user ?hub)"
    using inv ids by (auto simp: unregister_def Some Let_def lists_ok_delete
        intro!: lists_ok_update distinct_removeAll lists_ok_distinct)
  have room: "lists_ok (hb_by_room ?hub)"
    using inv by (simp add: unregister_def Some Let_def lists_ok_unindex_rooms)
  note by_room = index_by_room [OF ok]
  have conns: "map_of (hb_conns ?hub) = (map_of (hb_conns hub))(c := None)"
    by (simp add: unregister_def Some Let_def delete_conv')
  show ?thesis
    unfolding index_ok_def
  proof (intro conjI allI)
    fix c' r
    show "c' \<in> set (listed (hb_by_room ?hub) r) \<longleftrightarrow>
      (\<exists>h'. map_of (hb_conns ?hub) c' = Some h' \<and> r \<in> set (cv_rooms (ch_view h')))"
      using Some unfolding conns
      by (auto simp: unregister_def Let_def set_unindex_rooms by_room)
  next
    fix c' w
    show "c' \<in> set (listed (hb_by_user ?hub) w) \<longleftrightarrow>
      (\<exists>h'. map_of (hb_conns ?hub) c' = Some h' \<and> ch_wallet h' = w)"
      using Some unfolding conns listed by (auto simp: index_by_user [OF ok])
  next
    fix w
    have le: "length (removeAll c xs) \<le> length xs" for xs :: "nat list"
      by (induction xs) (auto intro: le_SucI)
    have cap: "length (listed (hb_by_user hub) w) \<le> max_per_wallet" using inv by blast
    show "length (listed (hb_by_user ?hub) w) \<le> max_per_wallet"
    proof (cases "w = ch_wallet h")
      case True
      then show ?thesis unfolding listed using le_trans [OF le cap] by simp
    next
      case False
      then show ?thesis unfolding listed using cap by simp
    qed
  next
    fix w
    show "map_of (hb_beacons ?hub) w \<noteq> None \<longrightarrow> listed (hb_by_user ?hub) w = []"
      using inv unfolding listed by (auto simp: unregister_def Some Let_def)
  qed (use inv user room conns length_delete [of "hb_conns hub" c h] Some in
       \<open>auto simp: unregister_def Let_def distinct_delete split: if_splits\<close>)
qed

text \<open>Changes of a handle that keep its identity, its wallet and its view.\<close>

definition keeps :: "(conn_handle \<Rightarrow> conn_handle) \<Rightarrow> bool" where
  "keeps f \<longleftrightarrow> (\<forall>h. ch_id (f h) = ch_id h \<and> ch_wallet (f h) = ch_wallet h \<and> ch_view (f h) = ch_view h)"

lemma keeps_simps [simp]: "keeps (mark_active now)" "keeps (conn_declare s now)"
  by (simp_all add: keeps_def mark_active_def conn_declare_def split: presence_status.split)

lemma update_conn_fields [simp]:
  "hb_by_user (update_conn c f hub) = hb_by_user hub"
  "hb_by_room (update_conn c f hub) = hb_by_room hub"
  "hb_beacons (update_conn c f hub) = hb_beacons hub"
  "hb_presence (update_conn c f hub) = hb_presence hub"
  "hb_total (update_conn c f hub) = hb_total hub"
  "hb_log (update_conn c f hub) = hb_log hub"
  "hb_sent (update_conn c f hub) = hb_sent hub"
  by (simp_all add: update_conn_def split: option.split)

lemma map_of_update_conn:
  "map_of (hb_conns (update_conn c f hub)) c' =
     (if c' = c then map_option f (map_of (hb_conns hub) c) else map_of (hb_conns hub) c')"
  by (auto simp: update_conn_def update_conv' split: option.split)

lemma length_update_present: "map_of m k \<noteq> None \<Longrightarrow> length (AList.update k v m) = length m"
  by (induction m) auto

lemma index_ok_update:
  assumes "index_ok hub" "keeps f"
  shows "index_ok (update_conn c f hub)"
proof (cases "map_of (hb_conns hub) c")
  case None
  then show ?thesis using assms(1) by (simp add: update_conn_def)
next
  case (Some h)
  note inv = assms(1) [unfolded index_ok_def]
  have d: "distinct (map fst (hb_conns (update_conn c f hub)))"
      "length (hb_conns (update_conn c f hub)) = length (hb_conns hub)"
    using inv Some by (simp_all add: update_conn_def distinct_update length_update_present)
  have m: "(\<exists>h'. map_of (hb_conns (update_conn c f hub)) c' = Some h' \<and> P (ch_id h') (ch_wallet h') (ch_view h'))
      \<longleftrightarrow> (\<exists>h'. map_of (hb_conns hub) c' = Some h' \<and> P (ch_id h') (ch_wallet h') (ch_view h'))" for c' P
    using assms(2) by (auto simp: map_of_update_conn keeps_def)
  have ids: "\<forall>c' h'. map_of (hb_conns (update_conn c f hub)) c' = Some h' \<longrightarrow>
      ch_id h' = c' \<and> wallet_ok (ch_wallet h')"
    using inv assms(2) by (auto simp: map_of_update_conn keeps_def split: if_splits)
  show ?thesis
    unfolding index_ok_def
    using inv d ids m [of _ "\<lambda>i w v. w = x" for x] m [of _ "\<lambda>i w v. r \<in> set (cv_rooms v)" for r] by simp
qed

lemma index_ok_updates: "index_ok hub \<Longrightarrow> keeps f \<Longrightarrow> index_ok (fold (\<lambda>c. update_conn c f) cs hub)"
  by (induction cs arbitrary: hub) (simp_all add: index_ok_update)

lemma updates_fields:
  "hb_by_user (fold (\<lambda>c. update_conn c f) cs hub) = hb_by_user hub"
  "hb_beacons (fold (\<lambda>c. update_conn c f) cs hub) = hb_beacons hub"
  "hb_log (fold (\<lambda>c. update_conn c f) cs hub) = hb_log hub"
  "hb_sent (fold (\<lambda>c. update_conn c f) cs hub) = hb_sent hub"
  "hb_presence (fold (\<lambda>c. update_conn c f) cs hub) = hb_presence hub"
  by (induction cs arbitrary: hub) simp_all

lemma index_ok_swap:
  assumes ok: "index_ok hub"
  shows "index_ok (swap_view v c hub)"
proof (cases "map_of (hb_conns hub) c")
  case None
  then show ?thesis using ok by (simp add: swap_view_def)
next
  case (Some h)
  note inv = ok [unfolded index_ok_def]
  let ?hub = "swap_view v c hub"
  have conns: "map_of (hb_conns ?hub) = (map_of (hb_conns hub))(c \<mapsto> h\<lparr>ch_view := v\<rparr>)"
    by (simp add: swap_view_def Some Let_def update_conv')
  note by_room = index_by_room [OF ok]
  note by_user = index_by_user [OF ok]
  show ?thesis
    unfolding index_ok_def
  proof (intro conjI allI)
    fix c' r
    show "c' \<in> set (listed (hb_by_room ?hub) r) \<longleftrightarrow>
      (\<exists>h'. map_of (hb_conns ?hub) c' = Some h' \<and> r \<in> set (cv_rooms (ch_view h')))"
      using Some unfolding conns
      by (auto simp: swap_view_def Let_def set_index_rooms set_unindex_rooms by_room)
  next
    fix c' w
    show "c' \<in> set (listed (hb_by_user ?hub) w) \<longleftrightarrow>
      (\<exists>h'. map_of (hb_conns ?hub) c' = Some h' \<and> ch_wallet h' = w)"
      using Some unfolding conns by (auto simp: swap_view_def Let_def by_user)
  qed (use inv Some conns in \<open>auto simp: swap_view_def Let_def distinct_update
        length_update_present lists_ok_index_rooms lists_ok_unindex_rooms\<close>)
qed

lemma index_ok_set_view: "index_ok hub \<Longrightarrow> index_ok (set_user_view w v hub)"
proof -
  have "index_ok hub \<Longrightarrow> index_ok (fold (swap_view v) cs hub)" for cs
    by (induction cs arbitrary: hub) (simp_all add: index_ok_swap)
  then show "index_ok hub \<Longrightarrow> ?thesis" by (simp add: set_user_view_def)
qed

lemma index_ok_cong:
  "hb_conns hub' = hb_conns hub \<Longrightarrow> hb_by_user hub' = hb_by_user hub \<Longrightarrow>
   hb_by_room hub' = hb_by_room hub \<Longrightarrow> hb_total hub' = hb_total hub \<Longrightarrow>
   (\<And>w. map_of (hb_beacons hub') w \<noteq> None \<Longrightarrow> listed (hb_by_user hub) w = []) \<Longrightarrow>
   index_ok hub \<Longrightarrow> index_ok hub'"
  unfolding index_ok_def by auto

lemma publish_fields:
  "hb_conns (snd (publish tt pe t w e hub)) = hb_conns hub"
  "hb_by_user (snd (publish tt pe t w e hub)) = hb_by_user hub"
  "hb_by_room (snd (publish tt pe t w e hub)) = hb_by_room hub"
  "hb_total (snd (publish tt pe t w e hub)) = hb_total hub"
  "hb_beacons (snd (publish tt pe t w e hub)) = hb_beacons hub"
  "hb_presence (snd (publish tt pe t w e hub)) = hb_presence hub"
  by (simp_all add: publish_def Let_def split: prod.split sum.split)

lemma announce_fields:
  "hb_conns (announce_presence tt ae w hub) = hb_conns hub"
  "hb_by_user (announce_presence tt ae w hub) = hb_by_user hub"
  "hb_by_room (announce_presence tt ae w hub) = hb_by_room hub"
  "hb_total (announce_presence tt ae w hub) = hb_total hub"
  "hb_beacons (announce_presence tt ae w hub) = hb_beacons hub"
  by (simp_all add: announce_presence_def Let_def publish_best_effort_def publish_fields
      split: option.split)

lemma announce_presence_entry:
  "hb_presence (announce_presence tt ae w hub) =
     (if derive_presence w (ae_now ae) hub = Offline then AList.delete w (hb_presence hub)
      else AList.update w (derive_presence w (ae_now ae) hub) (hb_presence hub))"
  by (simp add: announce_presence_def Let_def publish_best_effort_def publish_fields
      split: option.split)

lemma index_ok_announce: "index_ok hub \<Longrightarrow> index_ok (announce_presence tt ae w hub)"
  by (rule index_ok_cong [of _ hub]) (auto simp: announce_fields index_ok_def)

lemma index_ok_announce_all: "index_ok hub \<Longrightarrow> index_ok (announce_all tt aes i ws hub)"
  by (induction ws arbitrary: i hub) (simp_all add: index_ok_announce)

lemma index_ok_publish: "index_ok hub \<Longrightarrow> index_ok (snd (publish tt pe t w e hub))"
  by (rule index_ok_cong [of _ hub]) (auto simp: publish_fields index_ok_def)

lemma map_of_filter_Some: "map_of (filter P m) k \<noteq> None \<Longrightarrow> map_of m k \<noteq> None"
  by (induction m) (auto split: if_splits)

lemma index_ok_beacons:
  "index_ok hub \<Longrightarrow> (\<And>w. map_of bs w \<noteq> None \<Longrightarrow> listed (hb_by_user hub) w = []) \<Longrightarrow>
     index_ok (hub\<lparr>hb_beacons := bs\<rparr>)"
  by (rule index_ok_cong [of _ hub]) simp_all

lemma index_ok_sweep:
  assumes "index_ok hub"
  shows "index_ok (sweep_presence tt now aes hub)"
proof -
  have "index_ok (hub\<lparr>hb_beacons := filter (\<lambda>(w, s, at). now - at < beacon_ttl_ms) (hb_beacons hub)\<rparr>)"
    by (rule index_ok_beacons [OF assms], rule index_beacon [OF assms], rule map_of_filter_Some)
  then show ?thesis by (simp add: sweep_presence_def Let_def index_ok_announce_all)
qed

lemma index_ok_beacon:
  assumes "index_ok hub"
  shows "index_ok (beacon tt now ae w s hub)"
proof (cases "listed (hb_by_user hub) w = []")
  case True
  have "index_ok (hub\<lparr>hb_beacons := AList.update w (s, now) (hb_beacons hub)\<rparr>)"
    by (rule index_ok_beacons [OF assms])
       (use True index_beacon [OF assms] in \<open>auto simp: update_conv' split: if_splits\<close>)
  with True show ?thesis by (simp add: beacon_def index_ok_announce)
next
  case False
  let ?hub = "fold (\<lambda>cid. update_conn cid (conn_declare s now)) (listed (hb_by_user hub) w) hub"
  have ok: "index_ok ?hub" by (rule index_ok_updates) (simp_all add: assms)
  have "index_ok (?hub\<lparr>hb_beacons := AList.delete w (hb_beacons ?hub)\<rparr>)"
    by (rule index_ok_beacons [OF ok])
       (use index_beacon [OF ok] in \<open>auto simp: delete_conv' split: if_splits\<close>)
  with False show ?thesis by (simp add: beacon_def Let_def index_ok_announce)
qed

section \<open>Fan-out\<close>

text \<open>An index may leave out only connections that would not accept.\<close>

lemma accepting_indexed:
  assumes "index_ok hub" "would_accept target origin hub c"
  shows "c \<in> set (candidate_ids target hub)"
proof -
  obtain h where h: "map_of (hb_conns hub) c = Some h"
      "accepts (ch_view h) (probe target origin) (ch_wallet h)"
    using assms(2) by (auto simp: would_accept_def split: option.splits)
  then show ?thesis
  proof (cases target)
    case All
    with h(1) show ?thesis by (force simp: candidate_ids_def dest: map_of_SomeD)
  qed (auto simp: accepts_def probe_def candidate_ids_def index_by_user [OF assms(1)]
      index_by_room [OF assms(1)] list_ex_iff split: if_splits)
qed

lemma candidates_distinct: "index_ok hub \<Longrightarrow> distinct (candidate_ids target hub)"
  by (cases target) (simp_all add: candidate_ids_def index_ok_def lists_ok_distinct)

lemma recipients_card:
  assumes "index_ok hub"
  shows "recipients target origin hub = card {c. would_accept target origin hub c}"
proof -
  have "recipients target origin hub =
      card (set (filter (would_accept target origin hub) (candidate_ids target hub)))"
    unfolding recipients_def
    by (rule distinct_card [symmetric]) (simp add: candidates_distinct [OF assms])
  also have "set (filter (would_accept target origin hub) (candidate_ids target hub))
      = {c. would_accept target origin hub c}"
    using accepting_indexed [OF assms] by auto
  finally show ?thesis .
qed

section \<open>Presence\<close>

lemma fold_max_statuses:
  "fold max ss b = (s :: presence_status) \<longleftrightarrow> (\<forall>x \<in> set ss. x \<le> s) \<and> b \<le> s \<and> (s = b \<or> s \<in> set ss)"
proof (induction ss arbitrary: b)
  case Nil
  then show ?case by auto
next
  case (Cons a ss)
  show ?case unfolding fold_Cons comp_def Cons by (auto simp: max_def)
qed

lemma filter_map_set: "set (filter_map f xs) = {y. \<exists>x \<in> set xs. f x = Some y}"
  by (induction xs) (auto split: option.split)

text \<open>The statuses that a wallet's devices contribute.\<close>

definition device_statuses :: "wallet_address \<Rightarrow> int \<Rightarrow> hub \<Rightarrow> presence_status set" where
  "device_statuses w now hub =
     {s. \<exists>c h. map_of (hb_conns hub) c = Some h \<and> ch_wallet h = w \<and> s = conn_presence now h}
     \<union> {s. \<exists>at. map_of (hb_beacons hub) w = Some (s, at) \<and> now - at < beacon_ttl_ms}"

lemma derive_presence_max:
  assumes "index_ok hub"
  shows "derive_presence w now hub = s \<longleftrightarrow>
    (\<forall>x \<in> device_statuses w now hub. x \<le> s) \<and> (s = Offline \<or> s \<in> device_statuses w now hub)"
proof -
  let ?ss = "map (conn_presence now) (filter_map (map_of (hb_conns hub)) (listed (hb_by_user hub) w))"
  have ss: "set ?ss = {s. \<exists>c h. map_of (hb_conns hub) c = Some h \<and> ch_wallet h = w \<and> s = conn_presence now h}"
  proof -
    have "set (filter_map (map_of (hb_conns hub)) (listed (hb_by_user hub) w))
        = {h. \<exists>c. map_of (hb_conns hub) c = Some h \<and> ch_wallet h = w}"
      unfolding filter_map_set Bex_def index_by_user [OF assms] by auto
    then show ?thesis by auto
  qed
  define b where "b = (case map_of (hb_beacons hub) w of
      Some (s, at) \<Rightarrow> if now - at < beacon_ttl_ms then s else Offline | None \<Rightarrow> Offline)"
  have b: "b = Offline \<and> {s. \<exists>at. map_of (hb_beacons hub) w = Some (s, at) \<and> now - at < beacon_ttl_ms} = {}
      \<or> {s. \<exists>at. map_of (hb_beacons hub) w = Some (s, at) \<and> now - at < beacon_ttl_ms} = {b}"
    by (auto simp: b_def split: option.splits)
  define m where "m = fold max ?ss Offline"
  have m: "(\<forall>x \<in> set ?ss. x \<le> m) \<and> (m = Offline \<or> m \<in> set ?ss)"
    using fold_max_statuses [of ?ss Offline m] by (simp add: m_def)
  let ?d = "derive_presence w now hub" and ?D = "device_statuses w now hub"
  have d: "?d = max m b"
    by (simp add: derive_presence_def Let_def b_def m_def)
  have D: "device_statuses w now hub = set ?ss \<union>
      {s. \<exists>at. map_of (hb_beacons hub) w = Some (s, at) \<and> now - at < beacon_ttl_ms}"
    unfolding device_statuses_def ss ..
  have upper: "\<forall>x \<in> ?D. x \<le> ?d"
    unfolding D d using m b by (auto simp: le_max_iff_disj)
  have attained: "?d = Offline \<or> ?d \<in> ?D"
    unfolding D d using m b by (auto simp: max_def)
  show ?thesis
    using upper attained presence_order(1) by (metis antisym)
qed

lemma conn_presence_here: "conn_presence now h \<noteq> Offline"
  by (simp add: conn_presence_def)

lemma offline_iff:
  assumes "index_ok hub"
    and "\<And>s at. map_of (hb_beacons hub) w = Some (s, at) \<Longrightarrow> s \<noteq> Offline"
  shows "derive_presence w now hub = Offline \<longleftrightarrow>
    (\<forall>c h. map_of (hb_conns hub) c = Some h \<longrightarrow> ch_wallet h \<noteq> w)
    \<and> (\<forall>s at. map_of (hb_beacons hub) w = Some (s, at) \<longrightarrow> now - at \<ge> beacon_ttl_ms)"
proof -
  have "x \<le> Offline \<longleftrightarrow> x = Offline" for x by (cases x) auto
  then have "derive_presence w now hub = Offline \<longleftrightarrow> device_statuses w now hub \<subseteq> {Offline}"
    using derive_presence_max [OF assms(1), of w now Offline] by auto
  then show ?thesis
    using conn_presence_here assms(2) by (fastforce simp: device_statuses_def)
qed

definition presence_ok :: "hub \<Rightarrow> bool" where
  "presence_ok hub \<longleftrightarrow> distinct (map fst (hb_presence hub)) \<and> distinct (map fst (hb_beacons hub))
     \<and> (\<forall>w s. map_of (hb_presence hub) w = Some s \<longrightarrow> s \<noteq> Offline \<and> wallet_ok w)
     \<and> (\<forall>w s at. map_of (hb_beacons hub) w = Some (s, at) \<longrightarrow> s \<noteq> Offline)"

lemma presence_ok_announce:
  assumes "presence_ok hub" "wallet_ok w"
  shows "presence_ok (announce_presence tt ae w hub)"
  using assms unfolding presence_ok_def announce_presence_entry announce_fields
  by (auto simp: update_conv' delete_conv' distinct_update distinct_delete
       split: if_splits)

lemma announced_after:
  "presence_ok hub \<Longrightarrow> announced_presence w (announce_presence tt ae w hub) = derive_presence w (ae_now ae) hub"
  by (simp add: announced_presence_def announce_presence_entry update_conv' delete_conv')

lemma presence_ok_announce_all:
  "presence_ok hub \<Longrightarrow> \<forall>w \<in> set ws. wallet_ok w \<Longrightarrow> presence_ok (announce_all tt aes i ws hub)"
  by (induction ws arbitrary: i hub) (simp_all add: presence_ok_announce)

lemma presence_ok_cong:
  "hb_presence hub' = hb_presence hub \<Longrightarrow>
   distinct (map fst (hb_beacons hub')) \<Longrightarrow>
   (\<And>w s at. map_of (hb_beacons hub') w = Some (s, at) \<Longrightarrow> s \<noteq> Offline) \<Longrightarrow>
   presence_ok hub \<Longrightarrow> presence_ok hub'"
  unfolding presence_ok_def by auto

section \<open>The log and what was sent\<close>

type_synonym delivery = "nat \<times> target \<times> wallet_address option \<times> server_event"

definition record_delivery :: "log_record \<Rightarrow> delivery option" where
  "record_delivery r =
     (if lr_kind r \<noteq> Realtime then None
      else case (record_event r, lr_target r) of
        (Some e, Some t) \<Rightarrow> Some (lr_seq r, t, lr_origin r, e)
      | _ \<Rightarrow> None)"

definition delivery :: "envelope \<Rightarrow> delivery" where
  "delivery env = (ev_seq env, ev_target env, ev_origin env, ev_event env)"

definition sent_inv :: "(json \<Rightarrow> string) \<Rightarrow> delivery list \<Rightarrow> hub \<Rightarrow> bool" where
  "sent_inv tt old hub \<longleftrightarrow> (\<exists>rs. log_rep tt (hb_log hub) rs
     \<and> filter_map record_delivery rs = old @ map delivery (hb_sent hub))"

definition pub_ok :: "jlog \<Rightarrow> pub_env \<Rightarrow> bool" where
  "pub_ok log pe \<longleftrightarrow> pe_io pe = all_ok \<and> tick_ok (jl_day log) (pe_ticks pe) \<and> jl_next log + 2 < u64_limit"

lemma filter_map_append [simp]: "filter_map f (xs @ ys) = filter_map f xs @ filter_map f ys"
  by (induction xs) (auto split: option.split)

lemma filter_map_empty: "\<forall>x \<in> set xs. f x = None \<Longrightarrow> filter_map f xs = []"
  by (induction xs) auto

lemma sent_inv_publish:
  assumes inv: "sent_inv tt old hub" and pe: "pub_ok (hb_log hub) pe"
    and ok: "target_ok t" "pred_option wallet_ok w" "event_ok e"
  shows "sent_inv tt old (snd (publish tt pe t w e hub))
    \<and> (\<exists>n. fst (publish tt pe t w e hub) = Inr n \<and> hb_sent (snd (publish tt pe t w e hub)) =
        hb_sent hub @ [\<lparr>ev_seq = n, ev_at_ms = pe_at_ms pe, ev_target = t, ev_origin = w, ev_event = e\<rparr>])"
proof -
  let ?n = "recipients t w hub mod 2 ^ 32"
  let ?x = "\<lparr>en_ticks = pe_ticks pe, en_target = t, en_origin = w, en_event = e, en_fanout = ?n\<rparr>"
  obtain rs where rs: "log_rep tt (hb_log hub) rs"
      "filter_map record_delivery rs = old @ map delivery (hb_sent hub)"
    using inv by (auto simp: sent_inv_def)
  have "entry_fits ?x (hb_log hub)" using pe ok by (simp add: entry_fits_def pub_ok_def)
  from jl.add_law [OF rs(1) this] obtain log n extra where
    log: "append_event tt (pe_io pe) (pe_ticks pe) t w e ?n (hb_log hub) = (Inr n, log)"
      "log_rep tt log (rs @ extra @ [entry_record ?x n])" "\<forall>r \<in> set extra. lr_kind r = System"
    using pe by (auto simp: add_entry_def pub_ok_def)
  have "filter_map record_delivery extra = []"
    using log(3) by (intro filter_map_empty) (simp add: record_delivery_def)
  moreover have "record_delivery (entry_record ?x n) = Some (n, t, w, e)"
    using ok(3) by (simp add: record_delivery_def entry_record_def the_record_def record_event_def
        event_json_roundtrip)
  ultimately show ?thesis
    using log(1,2) rs(2) by (auto simp: publish_def Let_def sent_inv_def delivery_def)
qed

lemma parse_rooms_ok: "list_all room_ok (parse_rooms ss)"
  by (auto simp: parse_rooms_def list_all_iff filter_map_set ok_value_Some room_id_new_ok)

lemma sent_inv_cong: "hb_log hub' = hb_log hub \<Longrightarrow> hb_sent hub' = hb_sent hub \<Longrightarrow>
    sent_inv tt old hub' = sent_inv tt old hub"
  by (simp add: sent_inv_def)

lemma sent_inv_announce:
  assumes "sent_inv tt old hub" "pub_ok (hb_log hub) (ae_pub ae)" "wallet_ok w"
  shows "sent_inv tt old (announce_presence tt ae w hub)"
proof -
  have set_presence: "sent_inv tt old (hub\<lparr>hb_presence := p\<rparr>)"
    "pub_ok (hb_log (hub\<lparr>hb_presence := p\<rparr>)) (ae_pub ae)" for p
    using assms by (simp_all add: sent_inv_def)
  show ?thesis
    using sent_inv_publish [OF set_presence] set_presence(1) assms(3) parse_rooms_ok
    by (simp add: announce_presence_def Let_def publish_best_effort_def split: option.split)
qed

fun announces_ok ::
    "(json \<Rightarrow> string) \<Rightarrow> (nat \<Rightarrow> ann_env) \<Rightarrow> nat \<Rightarrow> wallet_address list \<Rightarrow> hub \<Rightarrow> bool" where
  "announces_ok tt aes i [] hub = True"
| "announces_ok tt aes i (w # ws) hub =
     (pub_ok (hb_log hub) (ae_pub (aes i))
      \<and> announces_ok tt aes (Suc i) ws (announce_presence tt (aes i) w hub))"

lemma sent_inv_announce_all:
  "sent_inv tt old hub \<Longrightarrow> announces_ok tt aes i ws hub \<Longrightarrow> \<forall>w \<in> set ws. wallet_ok w \<Longrightarrow>
     sent_inv tt old (announce_all tt aes i ws hub)"
  by (induction ws arbitrary: i hub) (simp_all add: sent_inv_announce)

section \<open>Reachable hubs\<close>

definition fresh_beacons :: "int \<Rightarrow> hub \<Rightarrow> hub" where
  "fresh_beacons now hub =
     hub\<lparr>hb_beacons := filter (\<lambda>(w, s, at). now - at < beacon_ttl_ms) (hb_beacons hub)\<rparr>"

definition stale_wallets :: "int \<Rightarrow> hub \<Rightarrow> wallet_address list" where
  "stale_wallets now hub =
     map fst (filter (\<lambda>(w, s). derive_presence w now hub \<noteq> s) (hb_presence hub))"

lemma sweep_presence_eq:
  "sweep_presence tt now aes hub =
     announce_all tt aes 0 (stale_wallets now (fresh_beacons now hub)) (fresh_beacons now hub)"
  by (simp add: sweep_presence_def Let_def stale_wallets_def fresh_beacons_def)

inductive hub_step :: "(json \<Rightarrow> string) \<Rightarrow> hub \<Rightarrow> hub \<Rightarrow> bool" for tt where
  new_id: "next_conn_id hub = (c, hub') \<Longrightarrow> hub_step tt hub hub'"
| connect: "register h hub = (Inr h', hub') \<Longrightarrow> map_of (hb_conns hub) (ch_id h) = None \<Longrightarrow>
     wallet_ok (ch_wallet h) \<Longrightarrow> hub_step tt hub hub'"
| drop_conn: "pub_ok (hb_log hub) (ae_pub ae) \<Longrightarrow> hub_step tt hub (disconnect tt ae c hub)"
| send: "pub_ok (hb_log hub) pe \<Longrightarrow> target_ok t \<Longrightarrow> pred_option wallet_ok w \<Longrightarrow> event_ok e \<Longrightarrow>
     hub_step tt hub (snd (publish tt pe t w e hub))"
| rest_beacon: "pub_ok (hb_log hub) (ae_pub ae) \<Longrightarrow> wallet_ok w \<Longrightarrow> is_declarable s \<Longrightarrow>
     hub_step tt hub (beacon tt now ae w s hub)"
| announce: "pub_ok (hb_log hub) (ae_pub ae) \<Longrightarrow> wallet_ok w \<Longrightarrow>
     hub_step tt hub (announce_presence tt ae w hub)"
| sweep: "announces_ok tt aes 0 (stale_wallets now (fresh_beacons now hub)) (fresh_beacons now hub) \<Longrightarrow>
     hub_step tt hub (sweep_presence tt now aes hub)"
| activity: "pub_ok (hb_log hub) (ae_pub ae) \<Longrightarrow> wallet_ok (ch_wallet h) \<Longrightarrow>
     hub_step tt hub (note_activity tt now ae h hub)"
| tab_declared: "pub_ok (hb_log hub) (ae_pub ae) \<Longrightarrow> wallet_ok (ch_wallet h) \<Longrightarrow>
     hub_step tt hub (declare_presence tt now ae h s hub)"
| refresh: "refresh_user db w hub = (r, hub') \<Longrightarrow> hub_step tt hub hub'"
| audit: "append_audit tt all_ok t action actor detail (hb_log hub) = (Inr n, log) \<Longrightarrow>
     tick_ok (jl_day (hb_log hub)) t \<Longrightarrow> pred_option wallet_ok actor \<Longrightarrow>
     jl_next (hb_log hub) + 2 < u64_limit \<Longrightarrow> hub_step tt hub (hub\<lparr>hb_log := log\<rparr>)"

inductive hub_reach :: "(json \<Rightarrow> string) \<Rightarrow> jlog \<Rightarrow> hub \<Rightarrow> bool" for tt log where
  hub_start: "hub_reach tt log (hub_new log)"
| hub_later: "hub_reach tt log hub \<Longrightarrow> hub_step tt hub hub' \<Longrightarrow> hub_reach tt log hub'"

definition hub_inv :: "(json \<Rightarrow> string) \<Rightarrow> delivery list \<Rightarrow> hub \<Rightarrow> bool" where
  "hub_inv tt old hub \<longleftrightarrow> index_ok hub \<and> presence_ok hub \<and> sent_inv tt old hub"

lemma unregister_fields [simp]:
  "hb_log (unregister c hub) = hb_log hub" "hb_sent (unregister c hub) = hb_sent hub"
  "hb_presence (unregister c hub) = hb_presence hub" "hb_beacons (unregister c hub) = hb_beacons hub"
  by (simp_all add: unregister_def Let_def split: option.split)

lemma set_view_fields [simp]:
  "hb_log (set_user_view w v hub) = hb_log hub" "hb_sent (set_user_view w v hub) = hb_sent hub"
  "hb_presence (set_user_view w v hub) = hb_presence hub" "hb_beacons (set_user_view w v hub) = hb_beacons hub"
proof -
  have "hb_log (fold (swap_view v) cs hub) = hb_log hub \<and> hb_sent (fold (swap_view v) cs hub) = hb_sent hub
    \<and> hb_presence (fold (swap_view v) cs hub) = hb_presence hub
    \<and> hb_beacons (fold (swap_view v) cs hub) = hb_beacons hub" for cs
    by (induction cs arbitrary: hub) (simp_all add: swap_view_def Let_def split: option.split)
  then show "hb_log (set_user_view w v hub) = hb_log hub" "hb_sent (set_user_view w v hub) = hb_sent hub"
    "hb_presence (set_user_view w v hub) = hb_presence hub"
    "hb_beacons (set_user_view w v hub) = hb_beacons hub"
    by (simp_all add: set_user_view_def)
qed

lemma hub_inv_quiet:
  "index_ok hub' \<Longrightarrow> hb_log hub' = hb_log hub \<Longrightarrow> hb_sent hub' = hb_sent hub \<Longrightarrow>
   hb_presence hub' = hb_presence hub \<Longrightarrow> distinct (map fst (hb_beacons hub')) \<Longrightarrow>
   (\<And>w s at. map_of (hb_beacons hub') w = Some (s, at) \<Longrightarrow> s \<noteq> Offline) \<Longrightarrow>
   hub_inv tt old hub \<Longrightarrow> hub_inv tt old hub'"
  unfolding hub_inv_def using sent_inv_cong presence_ok_cong by blast

lemma hub_inv_announce:
  "hub_inv tt old hub \<Longrightarrow> pub_ok (hb_log hub) (ae_pub ae) \<Longrightarrow> wallet_ok w \<Longrightarrow>
     hub_inv tt old (announce_presence tt ae w hub)"
  by (simp add: hub_inv_def index_ok_announce presence_ok_announce sent_inv_announce)

lemma no_offline_beacon: "presence_ok hub \<Longrightarrow> map_of (hb_beacons hub) w = Some (s, at) \<Longrightarrow> s \<noteq> Offline"
  unfolding presence_ok_def by blast

lemma beacons_distinct: "presence_ok hub \<Longrightarrow> distinct (map fst (hb_beacons hub))"
  unfolding presence_ok_def by blast

lemma hub_inv_update: "hub_inv tt old hub \<Longrightarrow> keeps f \<Longrightarrow> hub_inv tt old (update_conn c f hub)"
  by (rule hub_inv_quiet [of _ hub])
     (auto simp: hub_inv_def index_ok_update beacons_distinct dest: no_offline_beacon)

lemma conn_wallet_ok: "index_ok hub \<Longrightarrow> map_of (hb_conns hub) c = Some h \<Longrightarrow> wallet_ok (ch_wallet h)"
  unfolding index_ok_def by blast

lemma hub_inv_new: "log_rep tt log rs \<Longrightarrow> hub_inv tt (filter_map record_delivery rs) (hub_new log)"
  using index_ok_new [of log] by (auto simp: hub_inv_def presence_ok_def sent_inv_def)
     (auto simp: hub_new_def)

lemma map_of_filter_distinct:
  "distinct (map fst m) \<Longrightarrow> map_of (filter P m) k = Some v \<Longrightarrow> map_of m k = Some v"
  by (rule map_of_is_SomeI) (auto dest: map_of_SomeD)

lemma hub_invD: "hub_inv tt old hub \<Longrightarrow> index_ok hub" "hub_inv tt old hub \<Longrightarrow> presence_ok hub"
  by (simp_all add: hub_inv_def)

lemma hub_inv_fresh: "hub_inv tt old hub \<Longrightarrow> hub_inv tt old (fresh_beacons now hub)"
proof (rule hub_inv_quiet [of _ hub])
  assume inv: "hub_inv tt old hub"
  note ok = hub_invD [OF inv]
  show "index_ok (fresh_beacons now hub)"
    unfolding fresh_beacons_def
    by (rule index_ok_beacons [OF ok(1)], rule index_beacon [OF ok(1)], rule map_of_filter_Some)
  show "distinct (map fst (hb_beacons (fresh_beacons now hub)))"
    using beacons_distinct [OF ok(2)] by (simp add: fresh_beacons_def distinct_map_filter)
  show "s \<noteq> Offline" if b: "map_of (hb_beacons (fresh_beacons now hub)) w = Some (s, at)" for w s at
  proof (rule no_offline_beacon [OF ok(2)])
    show "map_of (hb_beacons hub) w = Some (s, at)"
      by (rule map_of_filter_distinct [OF beacons_distinct [OF ok(2)]])
         (use b in \<open>simp add: fresh_beacons_def\<close>)
  qed
qed (simp_all add: fresh_beacons_def)

lemma stale_wallets_ok: "presence_ok hub \<Longrightarrow> \<forall>w \<in> set (stale_wallets now hub). wallet_ok w"
  unfolding presence_ok_def stale_wallets_def by (fastforce intro: map_of_is_SomeI)

lemma inv_log_update [simp]:
  "index_ok (hub\<lparr>hb_log := log\<rparr>) = index_ok hub" "presence_ok (hub\<lparr>hb_log := log\<rparr>) = presence_ok hub"
  "hub_inv tt old (hub\<lparr>hb_next_id := n\<rparr>) = hub_inv tt old hub"
  by (simp_all add: index_ok_def presence_ok_def hub_inv_def sent_inv_def)

lemma hub_inv_announce_all:
  "hub_inv tt old hub \<Longrightarrow> announces_ok tt aes i ws hub \<Longrightarrow> \<forall>w \<in> set ws. wallet_ok w \<Longrightarrow>
     hub_inv tt old (announce_all tt aes i ws hub)"
  by (simp add: hub_inv_def index_ok_announce_all presence_ok_announce_all sent_inv_announce_all)

lemma hub_inv_beacon:
  assumes inv: "hub_inv tt old hub" and pe: "pub_ok (hb_log hub) (ae_pub ae)" and w: "wallet_ok w"
    and s: "is_declarable s"
  shows "hub_inv tt old (beacon tt now ae w s hub)"
proof (cases "listed (hb_by_user hub) w = []")
  case True
  let ?hub = "hub\<lparr>hb_beacons := AList.update w (s, now) (hb_beacons hub)\<rparr>"
  note ok = hub_invD [OF inv]
  have "hub_inv tt old ?hub"
  proof (rule hub_inv_quiet [of _ hub, OF _ _ _ _ _ _ inv])
    show "index_ok ?hub"
      by (rule index_ok_beacons [OF ok(1)])
         (use True index_beacon [OF ok(1)] in \<open>auto simp: update_conv' split: if_splits\<close>)
    show "s' \<noteq> Offline" if "map_of (hb_beacons ?hub) w' = Some (s', at)" for w' s' at
      using that s no_offline_beacon [OF ok(2)]
      by (auto simp: update_conv' is_declarable_def split: if_splits)
  qed (use beacons_distinct [OF ok(2)] in \<open>simp_all add: distinct_update\<close>)
  with True pe w show ?thesis by (simp add: beacon_def hub_inv_announce)
next
  case False
  let ?hub = "fold (\<lambda>cid. update_conn cid (conn_declare s now)) (listed (hb_by_user hub) w) hub"
  let ?hub' = "?hub\<lparr>hb_beacons := AList.delete w (hb_beacons ?hub)\<rparr>"
  note ok = hub_invD [OF inv]
  have up: "index_ok ?hub" by (rule index_ok_updates) (simp_all add: ok)
  have "hub_inv tt old ?hub'"
  proof (rule hub_inv_quiet [of _ hub, OF _ _ _ _ _ _ inv])
    show "index_ok ?hub'"
      by (rule index_ok_beacons [OF up])
         (use index_beacon [OF up] in \<open>auto simp: delete_conv' split: if_splits\<close>)
    show "s' \<noteq> Offline" if "map_of (hb_beacons ?hub') w' = Some (s', at)" for w' s' at
      using that no_offline_beacon [OF ok(2)]
      by (auto simp: updates_fields delete_conv' split: if_splits)
  qed (use beacons_distinct [OF ok(2)] in \<open>simp_all add: updates_fields distinct_delete\<close>)
  with False pe w show ?thesis by (simp add: beacon_def Let_def hub_inv_announce updates_fields)
qed

lemma hub_inv_connect:
  assumes inv: "hub_inv tt old hub" and reg: "register h hub = (Inr h', hub')"
    and fresh: "map_of (hb_conns hub) (ch_id h) = None" and w: "wallet_ok (ch_wallet h)"
  shows "hub_inv tt old hub'"
proof -
  note ok = hub_invD [OF inv]
  have check: "register_check h hub = Inr ()" and hub': "hub' = register_insert h hub"
    using reg by (auto simp: register_def split: sum.splits)
  show ?thesis
    unfolding hub'
  proof (rule hub_inv_quiet [of _ hub, OF _ _ _ _ _ _ inv])
    show "index_ok (register_insert h hub)" by (rule index_ok_insert [OF ok(1) fresh w check])
    show "s \<noteq> Offline" if "map_of (hb_beacons (register_insert h hub)) w = Some (s, at)" for w s at
      using that no_offline_beacon [OF ok(2)]
      by (auto simp: register_insert_def Let_def delete_conv' split: if_splits)
  qed (use beacons_distinct [OF ok(2)] in \<open>simp_all add: register_insert_def Let_def distinct_delete\<close>)
qed

lemma hub_inv_drop:
  assumes inv: "hub_inv tt old hub" and pe: "pub_ok (hb_log hub) (ae_pub ae)"
  shows "hub_inv tt old (disconnect tt ae c hub)"
proof -
  note ok = hub_invD [OF inv]
  have "hub_inv tt old (unregister c hub)"
    by (rule hub_inv_quiet [OF _ _ _ _ _ _ inv])
       (use ok no_offline_beacon in \<open>auto simp: index_ok_unregister beacons_distinct\<close>)
  then show ?thesis
    using pe conn_wallet_ok [OF ok(1), of c]
    by (auto simp: disconnect_def Let_def hub_inv_announce split: option.split)
qed

lemma hub_inv_audit:
  assumes inv: "hub_inv tt old hub" and "append_audit tt all_ok t action actor detail (hb_log hub) = (Inr n, log)"
    and "tick_ok (jl_day (hb_log hub)) t" "pred_option wallet_ok actor" "jl_next (hb_log hub) + 2 < u64_limit"
  shows "hub_inv tt old (hub\<lparr>hb_log := log\<rparr>)"
proof -
  obtain rs where rs: "log_rep tt (hb_log hub) rs"
      "filter_map record_delivery rs = old @ map delivery (hb_sent hub)"
    using inv by (auto simp: hub_inv_def sent_inv_def)
  then obtain css where css: "log_core tt (hb_log hub) css" "records css = rs"
    by (auto simp: log_rep_def log_inv_def)
  have "fields_ok None actor None" using assms(4) by (simp add: fields_ok_def)
  from append_ok [OF css(1) assms(3) this assms(5), of Audit "detail_json action detail"] assms(2)
  obtain css' extra where c: "log_inv tt log css'" "\<forall>r \<in> set extra. lr_kind r = System"
      "records css' = rs @ extra @ [the_record t Audit None actor (detail_json action detail) None n]"
    unfolding append_audit_def css(2) by auto
  have "filter_map record_delivery (records css') = old @ map delivery (hb_sent hub)"
    using c(2) rs(2) unfolding c(3)
    by (simp add: filter_map_empty record_delivery_def the_record_def)
  then have "sent_inv tt old (hub\<lparr>hb_log := log\<rparr>)"
    using c(1) by (auto simp: sent_inv_def log_rep_def)
  with hub_invD [OF inv] show ?thesis by (simp add: hub_inv_def)
qed

lemma hub_inv_step: "hub_step tt hub hub' \<Longrightarrow> hub_inv tt old hub \<Longrightarrow> hub_inv tt old hub'"
proof (induction rule: hub_step.induct)
  case (new_id hub c hub')
  then show ?case
    by (auto simp: next_conn_id_def)
next
  case (send hub pe t w e)
  then show ?case
    using sent_inv_publish [of tt old hub pe t w e]
    by (auto simp: hub_inv_def index_ok_publish publish_fields
        intro!: presence_ok_cong [of _ hub] dest: no_offline_beacon beacons_distinct)
next
  case (sweep aes now hub)
  then show ?case
    unfolding sweep_presence_eq
    by (intro hub_inv_announce_all hub_inv_fresh stale_wallets_ok hub_invD(2))
next
  case (activity hub ae h now)
  then show ?case by (simp add: note_activity_def Let_def hub_inv_announce hub_inv_update)
next
  case (tab_declared hub ae h now s)
  then show ?case by (simp add: declare_presence_def hub_inv_announce hub_inv_update)
next
  case (refresh db w hub r hub')
  then have "hub' = hub \<or> (\<exists>v. hub' = set_user_view w v hub)"
    by (auto simp: refresh_user_def split: sum.splits)
  with refresh.prems show ?case
    by (auto intro!: hub_inv_quiet [OF _ _ _ _ _ _ refresh.prems] index_ok_set_view
        simp: beacons_distinct hub_invD dest: no_offline_beacon [OF hub_invD(2)])
qed (blast intro: hub_inv_connect hub_inv_drop hub_inv_beacon hub_inv_announce hub_inv_audit)+

lemma reach_hub_inv:
  "hub_reach tt log hub \<Longrightarrow> log_rep tt log rs \<Longrightarrow> hub_inv tt (filter_map record_delivery rs) hub"
  by (induction rule: hub_reach.induct) (auto intro: hub_inv_new hub_inv_step)

section \<open>Properties\<close>


definition sample_wallet :: wallet_address where
  "sample_wallet = WalletAddress ''0xabcdef0123456789abcdef0123456789abcdef01''"

lemma sample_wallet_ok: "wallet_ok sample_wallet"
  using wallet_new_ok [OF sample_address_ok] by (simp add: sample_wallet_def)

definition sample_conn :: "nat \<Rightarrow> conn_handle" where
  "sample_conn c = conn_new c sample_wallet Ws \<lparr>cv_rooms = [sample_room_id], cv_blocks = []\<rparr> None 0"

lemma sample_conn_fields [simp]:
  "ch_id (sample_conn c) = c" "ch_wallet (sample_conn c) = sample_wallet"
  "ch_view (sample_conn c) = \<lparr>cv_rooms = [sample_room_id], cv_blocks = []\<rparr>"
  by (simp_all add: sample_conn_def conn_new_def)

definition sample_hub :: hub where
  "sample_hub = register_insert (sample_conn 1) (hub_new sample_log)"

lemma sample_log_rep: "\<exists>rs. log_rep plain_text sample_log rs"
  using reach_rep [OF plain.json_text_axioms sample_log_reach] .

lemma sample_hub_reach: "hub_reach tt sample_log sample_hub"
proof (rule hub_reach.hub_later [OF hub_reach.hub_start], rule hub_step.connect)
  show "register (sample_conn 1) (hub_new sample_log) = (Inr (sample_conn 1), sample_hub)"
    by (simp add: register_def register_check_def has_capacity_def hub_new_def max_connections_def
        max_per_wallet_def sample_hub_def)
qed (simp_all add: hub_new_def sample_wallet_ok)


text \<open>C18. The fan-out that \<^verbatim>\<open>publish\<close> counts through an index is the number of all
  connections that would accept the event, whatever the target: the room and user indices miss
  nobody and count nobody twice, and nobody who blocked the origin is counted.\<close>

theorem fanout_exact:
  assumes "log_rep tt log rs" "hub_reach tt log hub"
  shows "recipients target origin hub = card {c. would_accept target origin hub c}
    \<and> (would_accept target origin hub c \<longrightarrow> origin = Some w \<longrightarrow>
        (\<exists>h. map_of (hb_conns hub) c = Some h \<and> w \<notin> set (cv_blocks (ch_view h))))"
  using recipients_card [OF hub_invD(1) [OF reach_hub_inv [OF assms(2,1)]]]
  by (auto simp: would_accept_def accepts_def probe_def split: option.splits)

theorem fanout_exact_witness:
  "recipients (Room sample_room_id) None sample_hub
   = card {c. would_accept (Room sample_room_id) None sample_hub c}"
  using sample_log_rep fanout_exact [OF _ sample_hub_reach] by blast

lemma filter_map_filter: "filter_map f (filter P xs) = filter_map (\<lambda>x. if P x then f x else None) xs"
  by (induction xs) (auto split: option.split)

lemma filter_filter_map:
  "filter Q (filter_map f xs) = filter_map (\<lambda>x. case f x of Some y \<Rightarrow> if Q y then Some y else None | None \<Rightarrow> None) xs"
  by (induction xs) (auto split: option.split)

lemma map_filter_map: "map g (filter_map f xs) = filter_map (\<lambda>x. map_option g (f x)) xs"
  by (induction xs) (auto split: option.split)

definition replays :: "nat \<Rightarrow> conn_view \<Rightarrow> wallet_address \<Rightarrow> delivery \<Rightarrow> bool" where
  "replays cursor v w d =
     (case d of (n, t, origin, e) \<Rightarrow> cursor < n \<and> is_replayable e \<and> accepts v (probe t origin) w)"

lemma accepts_probe: "accepts v env w = accepts v (probe (ev_target env) (ev_origin env)) w"
  by (simp add: accepts_def probe_def)

lemma filter_map_cong: "(\<And>x. x \<in> set xs \<Longrightarrow> f x = g x) \<Longrightarrow> filter_map f xs = filter_map g xs"
  by (induction xs) (simp_all split: option.split)

lemma replayed_record:
  "map_option delivery (case if cursor < lr_seq r then record_envelope r else None of None \<Rightarrow> None
      | Some env \<Rightarrow> if accepts v env w then Some env else None)
   = (case record_delivery r of None \<Rightarrow> None | Some d \<Rightarrow> if replays cursor v w d then Some d else None)"
proof (cases "lr_kind r = Realtime")
  case True
  then show ?thesis
    by (cases "record_event r"; cases "lr_target r")
       (simp_all add: record_envelope_def record_delivery_def replays_def delivery_def
         accepts_def probe_def)
qed (simp add: record_envelope_def record_delivery_def)

lemma replayed_deliveries:
  "map delivery (filter (\<lambda>env. accepts v env w) (filter_map record_envelope (filter (\<lambda>r. cursor < lr_seq r) rs)))
   = filter (replays cursor v w) (filter_map record_delivery rs)"
  unfolding filter_map_filter filter_filter_map map_filter_map replayed_record ..

lemma record_delivery_seq: "record_delivery r = Some d \<Longrightarrow> fst d = lr_seq r"
  by (auto simp: record_delivery_def split: if_splits option.splits)

lemma delivery_below:
  assumes "log_rep tt log rs" "d \<in> set (filter_map record_delivery rs)"
  shows "fst d < jl_next log"
proof -
  obtain r where "r \<in> set rs" "record_delivery r = Some d"
    using assms(2) unfolding filter_map_set by blast
  then show ?thesis using jl.seqs_below_next [OF assms(1)] record_delivery_seq by metis
qed

text \<open>C3. Resuming is lossless and adds nothing: for a cursor that lies in the life of the
  process, a replay that is not refused gives exactly the events sent after the cursor that may
  be replayed and that the caller's current view accepts, in the order they were sent.\<close>

theorem hub_replay_is_live:
  assumes "json_text tt ft" "log_rep tt log rs" "hub_reach tt log hub"
    and "jl_next log \<le> cursor + 1" "hub_replay ft cursor v w limit hub = Inr envs"
  shows "map delivery envs = map delivery (filter (\<lambda>env. cursor < ev_seq env
      \<and> is_replayable (ev_event env) \<and> accepts v env w) (hb_sent hub))"
proof -
  obtain rs' where rs': "log_rep tt (hb_log hub) rs'"
      "filter_map record_delivery rs' = filter_map record_delivery rs @ map delivery (hb_sent hub)"
    using reach_hub_inv [OF assms(3,2)] by (auto simp: hub_inv_def sent_inv_def)
  have "replay_since ft (disk.truncate (hb_log hub)) cursor limit
      = Inr (Some (filter (\<lambda>r. cursor < lr_seq r) rs'))"
    using assms(5) json_text.replay_rep [OF assms(1) rs'(1), of cursor limit]
    by (auto simp: hub_replay_def Let_def split: if_splits list.splits)
  then have "map delivery envs = filter (replays cursor v w) (filter_map record_delivery rs')"
    using assms(5) replayed_deliveries [of v w cursor rs'] by (auto simp: hub_replay_def)
  moreover have "filter (replays cursor v w) (filter_map record_delivery rs) = []"
    using delivery_below [OF assms(2)] assms(4) by (fastforce simp: filter_empty_conv replays_def)
  moreover have "replays cursor v w (delivery env) \<longleftrightarrow>
      cursor < ev_seq env \<and> is_replayable (ev_event env) \<and> accepts v env w" for env
    by (simp add: replays_def delivery_def accepts_probe [of v env w])
  ultimately show ?thesis
    unfolding rs'(2) by (simp add: filter_map comp_def)
qed

theorem hub_replay_is_live_witness:
  "\<exists>hub n limit envs. hub_replay plain_parse (n - 1) \<lparr>cv_rooms = [], cv_blocks = []\<rparr> sample_wallet limit hub
       = Inr envs \<and> map delivery envs = [(n, All, None, RoomsUpdated)]"
proof -
  let ?v = "\<lparr>cv_rooms = [], cv_blocks = []\<rparr>"
  let ?pe = "\<lparr>pe_io = all_ok, pe_ticks = sample_ticks, pe_at_ms = 0\<rparr>"
  let ?hub = "snd (publish plain_text ?pe All None RoomsUpdated sample_hub)"
  obtain rs where rs: "log_rep plain_text sample_log rs" using sample_log_rep by blast
  have log: "hb_log sample_hub = sample_log" "hb_sent sample_hub = []"
    by (simp_all add: sample_hub_def register_insert_def Let_def hub_new_def)
  have pe: "pub_ok (hb_log sample_hub) ?pe"
    using sample_tick by (simp add: pub_ok_def log)
  have reach: "hub_reach plain_text sample_log ?hub"
    by (rule hub_reach.hub_later [OF sample_hub_reach], rule hub_step.send) (use pe in simp_all)
  have "sent_inv plain_text (filter_map record_delivery rs) sample_hub"
    using reach_hub_inv [OF sample_hub_reach rs] by (simp add: hub_inv_def)
  from sent_inv_publish [OF this pe, of All None RoomsUpdated] obtain n where
    sent: "hb_sent ?hub = [\<lparr>ev_seq = n, ev_at_ms = 0, ev_target = All, ev_origin = None, ev_event = RoomsUpdated\<rparr>]"
    and inv: "sent_inv plain_text (filter_map record_delivery rs) ?hub"
    by (auto simp: log)
  obtain rs' where rs': "log_rep plain_text (hb_log ?hub) rs'"
      "filter_map record_delivery rs' = filter_map record_delivery rs @ map delivery (hb_sent ?hub)"
    using inv unfolding sent_inv_def by blast
  have "(n, All, None, RoomsUpdated) \<in> set (filter_map record_delivery rs')"
    unfolding rs'(2) sent by (simp add: delivery_def)
  then obtain r where r: "r \<in> set rs'" "record_delivery r = Some (n, All, None, RoomsUpdated)"
    unfolding filter_map_set by blast
  then have n: "lr_seq r = n" using record_delivery_seq by fastforce
  obtain f where f: "1 \<le> f" "map lr_seq rs' = [f ..< jl_next (hb_log ?hub)]"
    using jl.gapless [OF rs'(1)] by blast
  have "n \<in> set (map lr_seq rs')" using r(1) n by auto
  then have fn: "f \<le> n" unfolding f(2) by simp
  moreover have "jl_next (hb_log ?hub) < u64_limit"
    using rs'(1) by (auto simp: log_rep_def log_inv_def log_core_def)
  ultimately have succ: "u64_succ (n - 1) = n"
    using f(1) jl.seqs_below_next [OF rs'(1) r(1)] n by (simp add: u64_succ_eq)
  let ?kept = "filter (\<lambda>r. n - 1 < lr_seq r) rs'"
  have "replay_since plain_parse (disk.truncate (hb_log ?hub)) (n - 1) (length ?kept) = Inr (Some ?kept)"
    by (rule plain.replay_kept [OF rs'(1) f(2) _ refl]) (simp_all only: succ fn le_refl)
  then obtain envs where envs: "hub_replay plain_parse (n - 1) ?v sample_wallet (length ?kept) ?hub = Inr envs"
    by (simp add: hub_replay_def)
  have "jl_next sample_log \<le> n - 1 + 1" using f(1) fn by (simp add: sample_log_def)
  from hub_replay_is_live [OF plain.json_text_axioms rs reach this envs]
  have "map delivery envs = [(n, All, None, RoomsUpdated)]"
    unfolding sent using f(1) fn by (simp add: delivery_def accepts_def)
  with envs show ?thesis by (intro exI conjI)
qed

text \<open>The status derived for a wallet is the most present of its devices, the registered
  connections and a fresh beacon, and offline exactly when it has neither; a connection counts as
  away from five minutes of silence or by its own declaration.\<close>

theorem presence_is_most_present:
  assumes "log_rep tt log rs" "hub_reach tt log hub"
  shows "(\<forall>x \<in> device_statuses w now hub. x \<le> derive_presence w now hub)
    \<and> (derive_presence w now hub \<noteq> Offline \<longrightarrow> derive_presence w now hub \<in> device_statuses w now hub)
    \<and> (derive_presence w now hub = Offline \<longleftrightarrow>
        (\<forall>c h. map_of (hb_conns hub) c = Some h \<longrightarrow> ch_wallet h \<noteq> w)
        \<and> (\<forall>s at. map_of (hb_beacons hub) w = Some (s, at) \<longrightarrow> now - at \<ge> beacon_ttl_ms))"
proof -
  have ok: "index_ok hub" "presence_ok hub"
    using reach_hub_inv [OF assms(2,1)] by (simp_all add: hub_inv_def)
  have "derive_presence w now hub = Offline \<longleftrightarrow>
        (\<forall>c h. map_of (hb_conns hub) c = Some h \<longrightarrow> ch_wallet h \<noteq> w)
        \<and> (\<forall>s at. map_of (hb_beacons hub) w = Some (s, at) \<longrightarrow> now - at \<ge> beacon_ttl_ms)"
    by (rule offline_iff [OF ok(1)]) (rule no_offline_beacon [OF ok(2)])
  then show ?thesis
    using derive_presence_max [OF ok(1), of w now "derive_presence w now hub"] by blast
qed

theorem presence_is_most_present_witness:
  "derive_presence sample_wallet 0 sample_hub \<noteq> Offline"
proof -
  obtain rs where "log_rep plain_text sample_log rs" using sample_log_rep by blast
  moreover have "map_of (hb_conns sample_hub) 1 = Some (sample_conn 1)"
    by (simp add: sample_hub_def register_insert_def Let_def hub_new_def)
  ultimately show ?thesis
    using presence_is_most_present [OF _ sample_hub_reach, where rs = rs and w = sample_wallet and now = 0]
    by fastforce
qed

text \<open>Announcing: after \<^verbatim>\<open>announce_presence\<close> the announced status is the derived
  one, nobody else's changes, and an event goes out exactly when the status moved and the wallet
  is in a room, addressed to all its rooms, with itself as the origin that blocks apply to.\<close>

theorem announce_only_changes:
  assumes "log_rep tt log rs" "hub_reach tt log hub" "pub_ok (hb_log hub) (ae_pub ae)" "wallet_ok w"
    and "derived = derive_presence w (ae_now ae) hub" "hub' = announce_presence tt ae w hub"
  shows "announced_presence w hub' = derived
    \<and> (u \<noteq> w \<longrightarrow> announced_presence u hub' = announced_presence u hub)
    \<and> (\<exists>n at. hb_sent hub' = hb_sent hub @
        (case ae_rooms ae (as_str w) of
           Some ids \<Rightarrow> if announced_presence w hub \<noteq> derived \<and> parse_rooms ids \<noteq> []
             then [\<lparr>ev_seq = n, ev_at_ms = at, ev_target = Rooms (parse_rooms ids), ev_origin = Some w,
                    ev_event = Presence w derived\<rparr>] else []
         | None \<Rightarrow> []))"
proof -
  have inv: "presence_ok hub" "sent_inv tt (filter_map record_delivery rs) hub"
    using reach_hub_inv [OF assms(2,1)] by (simp_all add: hub_inv_def)
  have changed: "announced_presence w hub \<noteq> derived \<longleftrightarrow>
      (if derived = Offline then map_of (hb_presence hub) w \<noteq> None
       else map_of (hb_presence hub) w \<noteq> Some derived)"
    using inv(1) by (auto simp: announced_presence_def presence_ok_def split: option.split)
  have "announced_presence w hub' = derived"
    using announced_after [OF inv(1)] assms(5,6) by simp
  moreover have "u \<noteq> w \<longrightarrow> announced_presence u hub' = announced_presence u hub"
    by (simp add: announced_presence_def assms(6) announce_presence_entry update_conv' delete_conv')
  moreover have pub: "sent_inv tt (filter_map record_delivery rs) (hub\<lparr>hb_presence := p\<rparr>)"
      "pub_ok (hb_log (hub\<lparr>hb_presence := p\<rparr>)) (ae_pub ae)" for p
    using inv(2) assms(3) by (simp_all add: sent_inv_def)
  have "\<exists>n at. hb_sent hub' = hb_sent hub @
        (case ae_rooms ae (as_str w) of
           Some ids \<Rightarrow> if announced_presence w hub \<noteq> derived \<and> parse_rooms ids \<noteq> []
             then [\<lparr>ev_seq = n, ev_at_ms = at, ev_target = Rooms (parse_rooms ids), ev_origin = Some w,
                    ev_event = Presence w derived\<rparr>] else []
         | None \<Rightarrow> [])"
    unfolding changed assms(6) announce_presence_def Let_def publish_best_effort_def
      assms(5) [symmetric]
    using sent_inv_publish [OF pub, of "Rooms (parse_rooms ids)" "Some w" "Presence w derived" for ids]
      parse_rooms_ok assms(4)
    by (auto split: option.split) metis+
  ultimately show ?thesis by blast
qed

theorem announce_only_changes_witness:
  "announced_presence sample_wallet (announce_presence plain_text
     \<lparr>ae_now = 0, ae_rooms = (\<lambda>_. None), ae_pub = \<lparr>pe_io = all_ok, pe_ticks = sample_ticks, pe_at_ms = 0\<rparr>\<rparr>
     sample_wallet sample_hub) = derive_presence sample_wallet 0 sample_hub"
proof -
  let ?ae = "\<lparr>ae_now = 0, ae_rooms = (\<lambda>_. None), ae_pub = \<lparr>pe_io = all_ok, pe_ticks = sample_ticks, pe_at_ms = 0\<rparr>\<rparr>"
  obtain rs where rs: "log_rep plain_text sample_log rs" using sample_log_rep by blast
  have "hb_log sample_hub = sample_log"
    by (simp add: sample_hub_def register_insert_def Let_def hub_new_def)
  then have "pub_ok (hb_log sample_hub) (ae_pub ?ae)"
    using sample_tick by (simp add: pub_ok_def)
  from announce_only_changes [OF rs sample_hub_reach this sample_wallet_ok refl refl]
  show ?thesis by simp
qed

text \<open>Closing a connection removes it everywhere: no index mentions it afterwards, it is
  counted once, every other connection stays as it was, and closing it again changes nothing.\<close>

theorem unregister_clears:
  assumes "log_rep tt log rs" "hub_reach tt log hub"
  shows "map_of (hb_conns (unregister c hub)) c = None
    \<and> (\<forall>w. c \<notin> set (listed (hb_by_user (unregister c hub)) w))
    \<and> (\<forall>r. c \<notin> set (listed (hb_by_room (unregister c hub)) r))
    \<and> (\<forall>c'. c' \<noteq> c \<longrightarrow> map_of (hb_conns (unregister c hub)) c' = map_of (hb_conns hub) c')
    \<and> hb_total (unregister c hub) = (if map_of (hb_conns hub) c = None then hb_total hub else hb_total hub - 1)
    \<and> unregister c (unregister c hub) = unregister c hub"
proof -
  have ok: "index_ok hub" using reach_hub_inv [OF assms(2,1)] by (simp add: hub_inv_def)
  have gone: "map_of (hb_conns (unregister c hub)) c = None"
    by (simp add: unregister_def Let_def delete_conv' split: option.split)
  have "map_of (hb_conns (unregister c hub)) c' = map_of (hb_conns hub) c'" if "c' \<noteq> c" for c'
    using that by (simp add: unregister_def Let_def delete_conv' split: option.split)
  moreover have "hb_total (unregister c hub) =
      (if map_of (hb_conns hub) c = None then hb_total hub else hb_total hub - 1)"
    by (simp add: unregister_def Let_def split: option.split)
  moreover have "unregister c (unregister c hub) = unregister c hub"
    using gone unfolding unregister_def [of c "unregister c hub"] by simp
  ultimately show ?thesis
    using gone index_by_user [OF index_ok_unregister [OF ok, of c], of c]
      index_by_room [OF index_ok_unregister [OF ok, of c], of c] by auto
qed

theorem unregister_clears_witness:
  "map_of (hb_conns (unregister 1 sample_hub)) 1 = None"
  using sample_log_rep unregister_clears [OF _ sample_hub_reach] by blast

text \<open>\<^verbatim>\<open>register\<close> checks the per-wallet cap and inserts without holding a lock
  between the two: when two connections of one wallet that holds one less than the cap are both
  checked before either is inserted, both are admitted and the cap is exceeded.\<close>

theorem register_race_exceeds_cap:
  assumes "length (listed (hb_by_user hub) w) = max_per_wallet - 1" "hb_total hub + 1 < max_connections"
    and "ch_wallet h1 = w" "ch_wallet h2 = w"
  shows "register_check h1 hub = Inr () \<and> register_check h2 hub = Inr ()
    \<and> length (listed (hb_by_user (register_insert h2 (register_insert h1 hub))) w) = max_per_wallet + 1"
  using assms by (simp add: register_check_def has_capacity_def register_insert_def Let_def
      listed_update max_per_wallet_def)

definition crowded_hub :: hub where
  "crowded_hub = fold (\<lambda>c. register_insert (sample_conn c)) [1, 2, 3, 4, 5, 6, 7] (hub_new sample_log)"

theorem register_race_exceeds_cap_witness:
  "length (listed (hb_by_user (register_insert (sample_conn 9) (register_insert (sample_conn 8) crowded_hub)))
     sample_wallet) = 9"
proof -
  have "length (listed (hb_by_user crowded_hub) sample_wallet) = max_per_wallet - 1"
      "hb_total crowded_hub + 1 < max_connections"
    by (simp_all add: crowded_hub_def register_insert_def Let_def hub_new_def listed_update
        max_per_wallet_def max_connections_def listed_def)
  from register_race_exceeds_cap [OF this, of "sample_conn 8" "sample_conn 9"]
  show ?thesis by (simp add: max_per_wallet_def)
qed

end
