(* ===== verification/Time_Format.thy ===== *)
theory Time_Format imports Skynet_Prelude begin

text \<open>The client's display formatting, src/app/web/src/format.rs: civil dates computed from epoch
milliseconds without a date library, the labels built from them, and the parser of the timestamps the
API sends.  Strings are their UTF-8 bytes.  Timestamps are i64 in the code; the years that they reach
fit the casts to i32 and u32, so dates are integers here.  The two functions that read the browser
(now_ms, page_origin) are arguments of their callers.\<close>

section \<open>Civil dates\<close>

definition DAY_MS :: int where "DAY_MS = 86400000"

record civil =
  cv_year :: int
  cv_month :: int
  cv_day :: int
  cv_hour :: int
  cv_minute :: int
  cv_epoch_day :: int
  cv_weekday :: int

definition civil_from_ms :: "int \<Rightarrow> int \<Rightarrow> civil" where
  "civil_from_ms ms tz_offset_minutes =
     (let local = ms + tz_offset_minutes * 60000;
          epoch_day = local div DAY_MS;
          time_of_day = local mod DAY_MS;
          z = epoch_day + 719468;
          era = z div 146097;
          doe = z mod 146097;
          yoe = (doe - doe div 1460 + doe div 36524 - doe div 146096) div 365;
          y = yoe + era * 400;
          doy = doe - (365 * yoe + yoe div 4 - yoe div 100);
          mp = (5 * doy + 2) div 153;
          d = doy - (153 * mp + 2) div 5 + 1;
          m = (if mp < 10 then mp + 3 else mp - 9);
          year = (if m \<le> 2 then y + 1 else y)
      in \<lparr>cv_year = year, cv_month = m, cv_day = d,
          cv_hour = time_of_day div 3600000,
          cv_minute = time_of_day mod 3600000 div 60000,
          cv_epoch_day = epoch_day, cv_weekday = (epoch_day + 3) mod 7\<rparr>)"

definition WEEKDAYS :: "string list" where
  "WEEKDAYS = [''Mon'', ''Tue'', ''Wed'', ''Thu'', ''Fri'', ''Sat'', ''Sun'']"

definition MONTHS :: "string list" where
  "MONTHS = [''January'', ''February'', ''March'', ''April'', ''May'', ''June'', ''July'', ''August'',
             ''September'', ''October'', ''November'', ''December'']"

section \<open>Labels\<close>

text \<open>A decimal number, and one zero_padded with zeros to a width (\<^verbatim>\<open>{}\<close> and \<^verbatim>\<open>{:02}\<close> of format!).\<close>

definition show_int :: "int \<Rightarrow> string" where
  "show_int n = (if n < 0 then ''-'' @ decimal (nat (- n)) else decimal (nat n))"

definition zero_padded :: "nat \<Rightarrow> int \<Rightarrow> string" where
  "zero_padded w n = (let s = show_int n in replicate (w - length s) (CHR ''0'') @ s)"

definition hhmm :: "int \<Rightarrow> int \<Rightarrow> string" where
  "hhmm ms tz = (let c = civil_from_ms ms tz in zero_padded 2 (cv_hour c) @ '':'' @ zero_padded 2 (cv_minute c))"

definition room_list_time :: "int \<Rightarrow> int \<Rightarrow> int \<Rightarrow> string" where
  "room_list_time ms now tz =
     (let th = civil_from_ms ms tz; today = civil_from_ms now tz;
          age_days = cv_epoch_day today - cv_epoch_day th
      in if age_days \<le> 0 then zero_padded 2 (cv_hour th) @ '':'' @ zero_padded 2 (cv_minute th)
         else if age_days < 7 then WEEKDAYS ! nat (cv_weekday th)
         else show_int (cv_day th) @ ''/'' @ show_int (cv_month th))"

definition day_marker :: "int \<Rightarrow> int \<Rightarrow> int \<Rightarrow> string" where
  "day_marker ms now tz =
     (let th = civil_from_ms ms tz; today = civil_from_ms now tz;
          d = cv_epoch_day today - cv_epoch_day th
      in if d \<le> 0 then ''Today'' else if d = 1 then ''Yesterday''
         else show_int (cv_day th) @ '' '' @ MONTHS ! nat (cv_month th - 1) @ '' ''
                @ show_int (cv_year th))"

definition sat_sub_i64 :: "int \<Rightarrow> int \<Rightarrow> int" where
  "sat_sub_i64 a b = min (2 ^ 63 - 1) (max (- (2 ^ 63)) (a - b))"

definition relative_time :: "int \<Rightarrow> int \<Rightarrow> string" where
  "relative_time ms now =
     (let delta = sat_sub_i64 now ms in
      if delta < 0 then ''just now''
      else let mins = delta div 60000; hours = delta div 3600000; days = delta div DAY_MS in
        if mins < 1 then ''just now''
        else if mins = 1 then ''1 minute ago''
        else if hours = 0 then show_int mins @ '' minutes ago''
        else if hours = 1 then ''1 hour ago''
        else if days = 0 then show_int hours @ '' hours ago''
        else if days = 1 then ''yesterday''
        else if days < 30 then show_int days @ '' days ago''
        else show_int (days div 30) @ '' months ago'')"

definition elapsed_clock :: "nat \<Rightarrow> string" where
  "elapsed_clock seconds =
     (if seconds < 60 then decimal seconds @ ''s''
      else decimal (seconds div 60) @ '':'' @ zero_padded 2 (int (seconds mod 60)))"

definition short_date :: "int \<Rightarrow> int \<Rightarrow> string" where
  "short_date ms tz =
     (let c = civil_from_ms ms tz
      in show_int (cv_day c) @ '' '' @ take 3 (MONTHS ! nat (cv_month c - 1)))"

definition unread_badge :: "nat \<Rightarrow> string" where
  "unread_badge n = (if 99 < n then ''99+'' else decimal n)"

definition unread_label :: "nat \<Rightarrow> string" where
  "unread_label n = (if n = 1 then ''1 unread message'' else decimal n @ '' unread messages'')"

definition join_url :: "string \<Rightarrow> string \<Rightarrow> string" where
  "join_url base path =
     (if starts_with ''http://'' path \<or> starts_with ''https://'' path then path
      else let base = trim_end_matches (CHR ''/'') base
           in if starts_with ''/'' path then base @ path else base @ ''/'' @ path)"

section \<open>Parsing a timestamp\<close>

text \<open>str::parse::<i64> on the short slices used here, and a slice: a slice that ends inside a
multi-byte character, which str::get refuses, has a byte that is no digit and is refused by the
parser instead.\<close>

definition parse_i64 :: "string \<Rightarrow> int option" where
  "parse_i64 s =
     (case s of
        [] \<Rightarrow> None
      | c # r \<Rightarrow> if c = CHR ''-'' then
                   (if r = [] then None else
                    case digits_value 10 0 r of
                      Some v \<Rightarrow> if v \<le> 2 ^ 63 then Some (- int v) else None
                    | None \<Rightarrow> None)
                 else map_option int (from_str_radix (2 ^ 63) 10 s))"

definition num_at :: "string \<Rightarrow> nat \<Rightarrow> nat \<Rightarrow> int option" where
  "num_at s from_i to_i =
     (if to_i \<le> length s then parse_i64 (take (to_i - from_i) (drop from_i s)) else None)"

definition days_from_civil :: "int \<Rightarrow> int \<Rightarrow> int \<Rightarrow> int" where
  "days_from_civil year month day =
     (let y = (if month \<le> 2 then year - 1 else year);
          era = y div 400;
          yoe = y - era * 400;
          mp = (if 2 < month then month - 3 else month + 9);
          doy = (153 * mp + 2) div 5 + day - 1;
          doe = yoe * 365 + yoe div 4 - yoe div 100 + doy
      in era * 146097 + doe - 719468)"

definition parse_iso8601_ms :: "string \<Rightarrow> int option" where
  "parse_iso8601_ms s =
     (if length s < 20 \<or> s ! 4 \<noteq> CHR ''-'' \<or> s ! 7 \<noteq> CHR ''-'' \<or> s ! 10 \<noteq> CHR ''T'' then None
      else Option.bind (num_at s 0 4) (\<lambda>year.
           Option.bind (num_at s 5 7) (\<lambda>month.
           Option.bind (num_at s 8 10) (\<lambda>day.
           Option.bind (num_at s 11 13) (\<lambda>hour.
           Option.bind (num_at s 14 16) (\<lambda>minute.
           Option.bind (num_at s 17 19) (\<lambda>second.
             if \<not> (1 \<le> month \<and> month \<le> 12) \<or> \<not> (1 \<le> day \<and> day \<le> 31) then None
             else let millis = (if 19 < length s \<and> s ! 19 = CHR ''.''
                                then (case num_at s 20 23 of Some m \<Rightarrow> m | None \<Rightarrow> 0) else 0)
                  in Some (days_from_civil year month day * DAY_MS + hour * 3600000 + minute * 60000
                           + second * 1000 + millis))))))))"

section \<open>The year of an era\<close>

text \<open>\<^verbatim>\<open>year_starts y\<close> is the first day, within a 400-year era, of its year y (years start in March).\<close>

definition year_starts :: "int \<Rightarrow> int" where
  "year_starts y = 365 * y + y div 4 - y div 100"

definition scaled_day :: "int \<Rightarrow> int" where
  "scaled_day doe = doe - doe div 1460 + doe div 36524 - doe div 146096"

lemma div_step:
  assumes "0 < (k::int)"
  shows "(n + 1) div k \<le> n div k + 1" "n div k \<le> (n + 1) div k"
proof -
  have "(n + 1) div k \<le> (n + k) div k" using assms by (intro zdiv_mono1) auto
  also have "(n + k) div k = n div k + 1" using assms by (simp add: div_add_self2)
  finally show "(n + 1) div k \<le> n div k + 1" .
  show "n div k \<le> (n + 1) div k" using assms by (intro zdiv_mono1) auto
qed

lemma scaled_day_step:
  assumes "0 \<le> n" "n < 146096" shows "scaled_day n \<le> scaled_day (n + 1)"
proof (cases "n = 146095")
  case True then show ?thesis by (simp add: scaled_day_def)
next
  case False
  then have "n div 146096 = 0" "(n + 1) div 146096 = 0"
    using assms by (auto intro!: div_pos_pos_trivial)
  then show ?thesis
    unfolding scaled_day_def using div_step(1) [of 1460 n] div_step(2) [of 36524 n] by linarith
qed

lemma scaled_day_mono: "a \<le> b \<Longrightarrow> 0 \<le> a \<Longrightarrow> b \<le> 146096 \<Longrightarrow> scaled_day a \<le> scaled_day b"
proof (induction b rule: int_ge_induct)
  case (step i) then show ?case using scaled_day_step [of i] by simp
qed simp_all

lemma year_table:
  "\<forall>y \<in> set [1..399]. 365 * y \<le> scaled_day (year_starts y) \<and> scaled_day (year_starts y - 1) < 365 * y"
  by code_simp

lemma year_starts_bounds:
  assumes "1 \<le> y" "y \<le> 399" shows "1 \<le> year_starts y" "year_starts y \<le> 146096"
proof -
  have "0 \<le> y div 4" "y div 4 \<le> 99" "0 \<le> y div 100" "y div 100 \<le> 3" using assms by auto
  then show "1 \<le> year_starts y" "year_starts y \<le> 146096"
    unfolding year_starts_def using assms by auto
qed

lemma year_starts_step: "year_starts (y + 1) \<le> year_starts y + 366"
  unfolding year_starts_def using div_step(1) [of 4 y] div_step(2) [of 100 y] by simp

lemma year_of_day:
  assumes "0 \<le> doe" "doe < 146097" and y: "y = scaled_day doe div 365"
  shows "0 \<le> y" "y \<le> 399" "year_starts y \<le> doe" "doe \<le> year_starts y + 365"
proof -
  have lo: "0 \<le> scaled_day doe" using scaled_day_mono [of 0 doe] assms by (simp add: scaled_day_def)
  have hi: "scaled_day doe \<le> 145999"
    using scaled_day_mono [of doe 146096] assms by (simp add: scaled_day_def)
  show y0: "0 \<le> y" using lo by (simp add: y)
  show y9: "y \<le> 399" using hi by (simp add: y)
  have divmod: "365 * (scaled_day doe div 365) + scaled_day doe mod 365 = scaled_day doe"
    "0 \<le> scaled_day doe mod 365" "scaled_day doe mod 365 < 365" by simp_all
  have quotient: "365 * q \<le> x \<and> x < 365 * (q + 1)" if "365 * q + r = x" "0 \<le> r" "r < 365" for q r x :: int
    using that by auto
  have near: "365 * y \<le> scaled_day doe" and near': "scaled_day doe < 365 * (y + 1)"
    using quotient [OF divmod] by (simp_all only: y)
  have tab: "365 * k \<le> scaled_day (year_starts k)" "scaled_day (year_starts k - 1) < 365 * k"
    if "1 \<le> k" "k \<le> 399" for k
    using year_table that by auto
  show "year_starts y \<le> doe"
  proof (rule ccontr)
    assume less: "\<not> year_starts y \<le> doe"
    then have k: "1 \<le> y" using y0 assms by (cases "y = 0") (auto simp: year_starts_def)
    have "scaled_day doe \<le> scaled_day (year_starts y - 1)"
      using less assms year_starts_bounds [OF k y9] by (intro scaled_day_mono) auto
    then show False using tab(2) [OF k y9] near by simp
  qed
  show "doe \<le> year_starts y + 365"
  proof (cases "y = 399")
    case True then show ?thesis using assms by (simp add: year_starts_def)
  next
    case False
    show ?thesis
    proof (rule ccontr)
      assume "\<not> doe \<le> year_starts y + 365"
      then have "year_starts (y + 1) \<le> doe" using year_starts_step [of y] by simp
      moreover have "1 \<le> y + 1" "y + 1 \<le> 399" using y0 y9 False by auto
      ultimately have "365 * (y + 1) \<le> scaled_day doe"
        using tab(1) [of "y + 1"] year_starts_bounds [of "y + 1"] assms
          scaled_day_mono [of "year_starts (y + 1)" doe] by auto
      then show False using near' by simp
    qed
  qed
qed

section \<open>Civil dates are a bijection\<close>

lemma day_table:
  "\<forall>doy \<in> set [0..365].
     (let mp = (5 * doy + 2) div 153; d = doy - (153 * mp + 2) div 5 + 1
      in 0 \<le> mp \<and> mp \<le> 11 \<and> 1 \<le> d \<and> d \<le> 31)"
  by code_simp

lemma month_of_day:
  assumes "0 \<le> doy" "doy \<le> (365::int)" and "mp = (5 * doy + 2) div 153"
    and "d = doy - (153 * mp + 2) div 5 + 1"
  shows "0 \<le> mp" "mp \<le> 11" "1 \<le> d" "d \<le> 31"
  using bspec [OF day_table, of doy] assms by (simp_all add: Let_def)

text \<open>The fields of a civil date are in range, and determine the day.\<close>

lemma civil_day:
  fixes ms tz :: int
  defines "c \<equiv> civil_from_ms ms tz"
  shows "1 \<le> cv_month c" "cv_month c \<le> 12" "1 \<le> cv_day c" "cv_day c \<le> 31"
    "days_from_civil (cv_year c) (cv_month c) (cv_day c) = cv_epoch_day c"
proof -
  define z where "z = (ms + tz * 60000) div DAY_MS + 719468"
  define doe where "doe = z mod 146097"
  define yoe where "yoe = scaled_day doe div 365"
  define doy where "doy = doe - year_starts yoe"
  define mp where "mp = (5 * doy + 2) div 153"
  define d where "d = doy - (153 * mp + 2) div 5 + 1"
  define m where "m = (if mp < 10 then mp + 3 else mp - 9)"
  define y where "y = yoe + z div 146097 * 400"
  have c: "cv_month c = m" "cv_day c = d" "cv_year c = (if m \<le> 2 then y + 1 else y)"
    "cv_epoch_day c = z - 719468"
    by (simp_all only: c_def civil_from_ms_def Let_def civil.select_convs z_def doe_def yoe_def
        doy_def mp_def d_def m_def y_def scaled_day_def year_starts_def add_diff_cancel_right')
  have doe: "0 \<le> doe" "doe < 146097" unfolding doe_def by simp_all
  note yr = year_of_day [OF doe yoe_def]
  have doy: "0 \<le> doy" "doy \<le> 365" using yr by (simp_all add: doy_def)
  note mo = month_of_day [OF doy mp_def d_def]
  show "1 \<le> cv_month c" "cv_month c \<le> 12" "1 \<le> cv_day c" "cv_day c \<le> 31"
    using mo by (simp_all add: c m_def)
  have yback: "(if m \<le> 2 then (if m \<le> 2 then y + 1 else y) - 1 else (if m \<le> 2 then y + 1 else y)) = y"
    "(if 2 < m then m - 3 else m + 9) = mp"
    using mo by (simp_all add: m_def)
  have era: "y div 400 = z div 146097" using yr by (simp add: y_def)
  have "days_from_civil (cv_year c) (cv_month c) (cv_day c)
      = z div 146097 * 146097
          + ((y - z div 146097 * 400) * 365 + (y - z div 146097 * 400) div 4
               - (y - z div 146097 * 400) div 100 + ((153 * mp + 2) div 5 + d - 1)) - 719468"
    unfolding days_from_civil_def Let_def c yback era by simp
  also have "y - z div 146097 * 400 = yoe" by (simp add: y_def)
  also have "(153 * mp + 2) div 5 + d - 1 = doy" by (simp add: d_def)
  also have "yoe * 365 + yoe div 4 - yoe div 100 + doy = doe"
    by (simp add: doy_def year_starts_def)
  also have "z div 146097 * 146097 + doe = z" unfolding doe_def by simp
  finally show "days_from_civil (cv_year c) (cv_month c) (cv_day c) = cv_epoch_day c"
    by (simp add: c)
qed

lemma civil_time:
  fixes ms :: int
  defines "c \<equiv> civil_from_ms ms 0"
  shows "0 \<le> cv_hour c" "cv_hour c \<le> 23" "0 \<le> cv_minute c" "cv_minute c \<le> 59"
    "cv_epoch_day c * DAY_MS + cv_hour c * 3600000 + cv_minute c * 60000
       + ms mod 60000 div 1000 * 1000 + ms mod 1000 = ms"
proof -
  define t where "t = ms mod DAY_MS"
  have t: "0 \<le> t" "t < 86400000" by (simp_all add: t_def DAY_MS_def)
  have c: "cv_hour c = t div 3600000" "cv_minute c = t mod 3600000 div 60000"
    "cv_epoch_day c = ms div DAY_MS"
    by (simp_all only: c_def civil_from_ms_def Let_def civil.select_convs t_def mult_zero_left add_0_right)
  show "0 \<le> cv_hour c" "cv_hour c \<le> 23" "0 \<le> cv_minute c"
    using t by (simp_all add: c)
  have "t mod 3600000 < 3600000" "0 \<le> t mod 3600000" by simp_all
  then show "cv_minute c \<le> 59" unfolding c by linarith
  have m1: "t mod 3600000 mod 60000 = ms mod 60000"
    by (simp add: t_def DAY_MS_def mod_mod_cancel)
  have m2: "ms mod 60000 mod 1000 = ms mod 1000" by (simp add: mod_mod_cancel)
  show "cv_epoch_day c * DAY_MS + cv_hour c * 3600000 + cv_minute c * 60000
       + ms mod 60000 div 1000 * 1000 + ms mod 1000 = ms"
  proof -
    have sum: "q * D + h * 3600000 + i * 60000 + s * 1000 + r3 = m"
      if "D * q + r = m" "3600000 * h + r1 = r" "60000 * i + r2 = r1" "1000 * s + r3 = r2"
      for D q r m h r1 i r2 s r3 :: int
      using that by (simp add: algebra_simps)
    show ?thesis
      unfolding c
    proof (rule sum)
      show "DAY_MS * (ms div DAY_MS) + t = ms" by (simp add: t_def)
      show "3600000 * (t div 3600000) + t mod 3600000 = t" by (rule mult_div_mod_eq)
      show "60000 * (t mod 3600000 div 60000) + ms mod 60000 = t mod 3600000"
        using mult_div_mod_eq [of 60000 "t mod 3600000"] by (simp only: m1)
      show "1000 * (ms mod 60000 div 1000) + ms mod 1000 = ms mod 60000"
        using mult_div_mod_eq [of 1000 "ms mod 60000"] by (simp only: m2)
    qed
  qed
qed

section \<open>Digits of a timestamp\<close>

lemma padded_spec:
  assumes "0 \<le> n" "n < 10 ^ Suc k"
  shows "length (zero_padded (Suc k) n) = Suc k" "\<forall>c \<in> set (zero_padded (Suc k) n). is_ascii_digit c"
    "digits_value 10 0 (zero_padded (Suc k) n) = Some (nat n)"
proof -
  have s: "zero_padded (Suc k) n
             = replicate (Suc k - length (decimal (nat n))) (CHR ''0'') @ decimal (nat n)"
    using assms by (simp add: zero_padded_def show_int_def Let_def)
  have "nat n < 10 ^ Suc k" using assms by (simp add: nat_less_iff)
  then have "length (decimal (nat n)) \<le> Suc k"
    unfolding decimal_def by (intro length_radix_string) auto
  then show "length (zero_padded (Suc k) n) = Suc k" by (simp add: s)
  show "\<forall>c \<in> set (zero_padded (Suc k) n). is_ascii_digit c"
    using decimal_digits [of "nat n"] by (auto simp: s char_class_codes)
  show "digits_value 10 0 (zero_padded (Suc k) n) = Some (nat n)"
    by (simp add: s digits_value_append digits_value_zeros decimal_def digits_value_radix_string)
qed

lemma parse_padded:
  assumes "0 \<le> n" "n < 10 ^ Suc k" "k < 8"
  shows "parse_i64 (zero_padded (Suc k) n) = Some n"
proof -
  let ?s = "zero_padded (Suc k) n"
  note sp = padded_spec [OF assms(1,2)]
  have ne: "?s \<noteq> []" using sp(1) by auto
  then have dig: "is_ascii_digit (hd ?s)" using sp(2) by simp
  then have hd: "hd ?s \<noteq> CHR ''+''" "hd ?s \<noteq> CHR ''-''" by (auto simp: char_class_codes)
  have "n < 10 ^ 8" using assms power_increasing [of "Suc k" 8 "10::int"] by linarith
  then have "nat n < 2 ^ 63" using assms(1) by (simp add: nat_less_iff)
  then have "from_str_radix (2 ^ 63) 10 ?s = Some (nat n)"
    using from_str_radix_digits ne hd(1) sp(3) by blast
  then show ?thesis using hd(2) ne assms(1) by (cases ?s) (simp_all add: parse_i64_def)
qed

section \<open>The timestamps of the API\<close>

text \<open>The shape the API emits, \<^verbatim>\<open>2025-06-11T14:39:06.000Z\<close>, built from the civil date.\<close>

definition iso_text :: "int \<Rightarrow> string" where
  "iso_text ms =
     (let c = civil_from_ms ms 0
      in zero_padded 4 (cv_year c) @ ''-'' @ zero_padded 2 (cv_month c) @ ''-'' @ zero_padded 2 (cv_day c) @ ''T''
           @ zero_padded 2 (cv_hour c) @ '':'' @ zero_padded 2 (cv_minute c) @ '':''
           @ zero_padded 2 (ms mod 60000 div 1000) @ ''.'' @ zero_padded 3 (ms mod 1000) @ ''Z'')"

lemma length_two: "length xs = Suc (Suc 0) \<Longrightarrow> \<exists>a b. xs = [a, b]"
  by (auto simp: length_Suc_conv)

lemma padded_two:
  assumes "0 \<le> n" "n < (100::int)"
  obtains a b where "zero_padded 2 n = [a, b]" "parse_i64 [a, b] = Some n"
proof -
  have "n < 10 ^ Suc 1" using assms by simp
  then have "length (zero_padded (Suc 1) n) = Suc (Suc 0)" "parse_i64 (zero_padded (Suc 1) n) = Some n"
    using padded_spec(1) [of n 1] parse_padded [of n 1] assms by simp_all
  moreover have "Suc 1 = 2" by simp
  ultimately show ?thesis using length_two that by metis
qed

lemma padded_three:
  assumes "0 \<le> n" "n < (1000::int)"
  obtains a b c where "zero_padded 3 n = [a, b, c]" "parse_i64 [a, b, c] = Some n"
proof -
  have "n < 10 ^ Suc 2" using assms by simp
  then have "length (zero_padded (Suc 2) n) = Suc (Suc (Suc 0))" "parse_i64 (zero_padded (Suc 2) n) = Some n"
    using padded_spec(1) [of n 2] parse_padded [of n 2] assms by simp_all
  moreover have "Suc 2 = 3" by simp
  ultimately have "\<exists>a b c. zero_padded 3 n = [a, b, c]" "parse_i64 (zero_padded 3 n) = Some n"
    by (auto simp: length_Suc_conv)
  then show ?thesis using that by metis
qed

lemma padded_four:
  assumes "0 \<le> n" "n < (10000::int)"
  obtains a b c d where "zero_padded 4 n = [a, b, c, d]" "parse_i64 [a, b, c, d] = Some n"
proof -
  have "n < 10 ^ Suc 3" using assms by simp
  then have "length (zero_padded (Suc 3) n) = Suc (Suc (Suc (Suc 0)))" "parse_i64 (zero_padded (Suc 3) n) = Some n"
    using padded_spec(1) [of n 3] parse_padded [of n 3] assms by simp_all
  moreover have "Suc 3 = 4" by simp
  ultimately have "\<exists>a b c d. zero_padded 4 n = [a, b, c, d]" "parse_i64 (zero_padded 4 n) = Some n"
    by (auto simp: length_Suc_conv)
  then show ?thesis using that by metis
qed

text \<open>The hand-written calendar arithmetic is right in both directions: the civil date computed
from any millisecond of the years 0 to 9999 has a month of 1 to 12, a day of 1 to 31, an hour below 24
and a minute below 60, and parsing the timestamp text written from it gives that millisecond back.
\<close>

theorem timestamp_roundtrip:
  assumes "0 \<le> cv_year (civil_from_ms ms 0)" "cv_year (civil_from_ms ms 0) \<le> 9999"
  shows "parse_iso8601_ms (iso_text ms) = Some ms
    \<and> cv_month (civil_from_ms ms 0) \<in> {1..12} \<and> cv_day (civil_from_ms ms 0) \<in> {1..31}
    \<and> cv_hour (civil_from_ms ms 0) \<in> {0..23} \<and> cv_minute (civil_from_ms ms 0) \<in> {0..59}"
proof -
  let ?c = "civil_from_ms ms 0"
  note day = civil_day [of ms 0] and time = civil_time [of ms]
  have yb: "cv_year ?c < 10000" using assms(2) by linarith
  have mb: "0 \<le> cv_month ?c" "cv_month ?c < 100" using day(1,2) by linarith+
  have db: "0 \<le> cv_day ?c" "cv_day ?c < 100" using day(3,4) by linarith+
  have hb: "cv_hour ?c < 100" using time(2) by linarith
  have ib: "cv_minute ?c < 100" using time(4) by linarith
  have tb: "0 \<le> ms mod 1000" "ms mod 1000 < 1000" by simp_all
  obtain y1 y2 y3 y4 where Y: "zero_padded 4 (cv_year ?c) = [y1, y2, y3, y4]"
    "parse_i64 [y1, y2, y3, y4] = Some (cv_year ?c)" by (rule padded_four [OF assms(1) yb])
  obtain m1 m2 where M: "zero_padded 2 (cv_month ?c) = [m1, m2]" "parse_i64 [m1, m2] = Some (cv_month ?c)"
    by (rule padded_two [OF mb])
  obtain d1 d2 where D: "zero_padded 2 (cv_day ?c) = [d1, d2]" "parse_i64 [d1, d2] = Some (cv_day ?c)"
    by (rule padded_two [OF db])
  obtain h1 h2 where H: "zero_padded 2 (cv_hour ?c) = [h1, h2]" "parse_i64 [h1, h2] = Some (cv_hour ?c)"
    by (rule padded_two [OF time(1) hb])
  obtain i1 i2 where I: "zero_padded 2 (cv_minute ?c) = [i1, i2]" "parse_i64 [i1, i2] = Some (cv_minute ?c)"
    by (rule padded_two [OF time(3) ib])
  have "0 \<le> ms mod 60000" "ms mod 60000 < 60000" by simp_all
  then have sb: "0 \<le> ms mod 60000 div 1000" "ms mod 60000 div 1000 < 100" by linarith+
  obtain s1 s2 where S: "zero_padded 2 (ms mod 60000 div 1000) = [s1, s2]"
    "parse_i64 [s1, s2] = Some (ms mod 60000 div 1000)" by (rule padded_two [OF sb])
  obtain t1 t2 t3 where T: "zero_padded 3 (ms mod 1000) = [t1, t2, t3]"
    "parse_i64 [t1, t2, t3] = Some (ms mod 1000)" by (rule padded_three [OF tb])
  have shape: "iso_text ms = [y1, y2, y3, y4, CHR ''-'', m1, m2, CHR ''-'', d1, d2, CHR ''T'', h1, h2,
      CHR '':'', i1, i2, CHR '':'', s1, s2, CHR ''.'', t1, t2, t3, CHR ''Z'']"
    by (simp only: iso_text_def Let_def Y M D H I S T append.simps)
  have "parse_iso8601_ms (iso_text ms)
      = Some (cv_epoch_day ?c * DAY_MS + cv_hour ?c * 3600000 + cv_minute ?c * 60000
                + ms mod 60000 div 1000 * 1000 + ms mod 1000)"
    unfolding shape
    by (simp add: parse_iso8601_ms_def num_at_def Y(2) M(2) D(2) H(2) I(2) S(2) T(2) day
        del: civil.simps)
  then have "parse_iso8601_ms (iso_text ms) = Some ms" by (simp only: time(5))
  then show ?thesis using day time by simp
qed

theorem timestamp_roundtrip_witness:
  "cv_year (civil_from_ms 1749652746620 0) = 2025 \<and>
   parse_iso8601_ms (iso_text 1749652746620) = Some 1749652746620"
proof -
  have year: "cv_year (civil_from_ms 1749652746620 0) = 2025" by code_simp
  then show ?thesis using timestamp_roundtrip [of 1749652746620] by simp
qed

end
