(* ===== verification/Message_Db.thy ===== *)
theory Message_Db imports Skynet_Prelude "HOL-Library.Product_Lexorder"
  "HOL-Library.List_Lexorder" "HOL-Library.Char_ord" begin

text \<open>The message store of the server, src/app/server/src/db/messages.rs, with the tables it writes:
  \<^item> messages, message_mentions, message_media, search_docs: lists of rows in insertion order;
  \<^item> room_serials, room_reads, users: maps from their primary key;
  \<^item> rooms: the ids that the foreign keys refer to, blocked_users: (blocker, blocked) pairs.
A statement of SQLite is the list or map operation it performs.  A primary key or foreign key
violation is the error \<^verbatim>\<open>Sql_constraint\<close>; an operation that returns an error has rolled its
transaction back, so the caller keeps the state it had, and \<^verbatim>\<open>Inr\<close> carries the state after the
commit.  Each operation reads the clock several times: it takes the successive readings as a function
from the number of the reading.  \<^verbatim>\<open>iso_ms\<close> is the timestamp formatter of the time crate, a parameter.
The columns tags and embedding of search_docs, and the tables hashtags and search_fts, are functions
of the column text and are left out.\<close>

section \<open>Rows and tables\<close>

text \<open>The column list of the table messages.\<close>

record message_row =
  mr_id :: string
  mr_room :: string
  mr_sender :: string
  mr_content :: string
  mr_hash :: string
  mr_timestamp :: int
  mr_type :: string
  mr_serial :: int
  mr_deleted :: bool
  mr_edited_at :: "int option"
  mr_created_at :: int
  mr_encrypted :: bool
  mr_iv :: "string option"
  mr_hmac :: "string option"
  mr_enc_ver :: int
  mr_key_version :: int
  mr_tx_hash :: "string option"
  mr_target :: "string option"
  mr_code :: "string option"
  mr_parent :: "string option"

record user_row =
  ur_username :: string
  ur_public_key :: "string option"
  ur_public_key_sig :: "string option"
  ur_profile_image :: "string option"
  ur_created_at :: int
  ur_updated_at :: int

record mention_row =
  mm_message :: string
  mm_room :: string
  mm_address :: string
  mm_serial :: int
  mm_created_at :: int

record media_row =
  md_message :: string
  md_room :: string
  md_name :: string
  md_created_at :: int

record search_doc =
  sd_kind :: string
  sd_ref :: string
  sd_room :: "string option"
  sd_sender :: "string option"
  sd_ts :: int
  sd_text :: string

record read_row =
  rr_last_read :: int
  rr_updated_at :: int

record db =
  db_rooms :: "string list"
  db_users :: "string \<Rightarrow> user_row option"
  db_messages :: "message_row list"
  db_serials :: "string \<Rightarrow> int option"
  db_mentions :: "mention_row list"
  db_media :: "media_row list"
  db_docs :: "search_doc list"
  db_blocked :: "(string \<times> string) list"
  db_reads :: "string \<times> string \<Rightarrow> read_row option"

datatype db_error = Sql_constraint | Internal string

type_synonym clock = "nat \<Rightarrow> int"

section \<open>Message types\<close>

definition MSG_TYPE_ADD :: string where "MSG_TYPE_ADD = ''add''"
definition MSG_TYPE_EDIT :: string where "MSG_TYPE_EDIT = ''edit''"
definition MSG_TYPE_DELETE :: string where "MSG_TYPE_DELETE = ''delete''"
definition MSG_TYPE_DELETE_ALL :: string where "MSG_TYPE_DELETE_ALL = ''delete_all''"
definition MSG_TYPE_EMOTICON_ADD :: string where "MSG_TYPE_EMOTICON_ADD = ''emoticon_add''"
definition MSG_TYPE_EMOTICON_REMOVE :: string where "MSG_TYPE_EMOTICON_REMOVE = ''emoticon_remove''"

lemmas msg_type_defs = MSG_TYPE_ADD_def MSG_TYPE_EDIT_def MSG_TYPE_DELETE_def
  MSG_TYPE_DELETE_ALL_def MSG_TYPE_EMOTICON_ADD_def MSG_TYPE_EMOTICON_REMOVE_def

text \<open>EVENT_TYPES: the event records that the display queries leave out.\<close>

definition event_types :: "string list" where
  "event_types = [MSG_TYPE_EMOTICON_ADD, MSG_TYPE_EMOTICON_REMOVE, MSG_TYPE_DELETE_ALL]"

definition SYNC_LIMIT :: nat where "SYNC_LIMIT = 500"
definition MAX_SAFE_INT :: int where "MAX_SAFE_INT = 9007199254740991"
definition MAX_MENTIONS :: nat where "MAX_MENTIONS = 32"
definition MAX_MEDIA :: nat where "MAX_MEDIA = 32"
definition KIND_MESSAGE :: string where "KIND_MESSAGE = ''message''"

section \<open>The wire shape of a message\<close>

record user =
  us_address :: string
  us_username :: string
  us_public_key :: "string option"
  us_public_key_sig :: "string option"
  us_profile_image :: "string option"
  us_created_at :: string
  us_updated_at :: string

record message =
  sm_id :: string
  sm_room :: string
  sm_sender_address :: string
  sm_content :: string
  sm_hash :: string
  sm_timestamp :: int
  sm_type :: string
  sm_serial :: int
  sm_deleted :: bool
  sm_edited_at :: "string option"
  sm_created_at :: string
  sm_encrypted :: bool
  sm_iv :: "string option"
  sm_hmac :: "string option"
  sm_enc_ver :: int
  sm_key_version :: int
  sm_tx_hash :: "string option"
  sm_target :: "string option"
  sm_code :: "string option"
  sm_parent :: "string option"
  sm_reply_count :: "int option"
  sm_last_reply_at :: "int option"
  sm_sender :: "user option"

definition placeholder :: "(int \<Rightarrow> string) \<Rightarrow> string \<Rightarrow> int \<Rightarrow> user" where
  "placeholder iso_ms address now =
     \<lparr>us_address = address,
      us_username = (if 10 \<le> length address
                     then ''User '' @ take 6 address @ ''...'' @ drop (length address - 4) address
                     else ''User '' @ address),
      us_public_key = None, us_public_key_sig = None, us_profile_image = None,
      us_created_at = iso_ms now, us_updated_at = iso_ms now\<rparr>"

definition from_row :: "(int \<Rightarrow> string) \<Rightarrow> message_row \<Rightarrow> message" where
  "from_row iso_ms m =
     \<lparr>sm_id = mr_id m, sm_room = mr_room m, sm_sender_address = mr_sender m,
      sm_content = mr_content m, sm_hash = mr_hash m, sm_timestamp = mr_timestamp m,
      sm_type = (if mr_type m = ''message'' then MSG_TYPE_ADD else mr_type m),
      sm_serial = mr_serial m, sm_deleted = mr_deleted m,
      sm_edited_at = map_option iso_ms (mr_edited_at m), sm_created_at = iso_ms (mr_created_at m),
      sm_encrypted = mr_encrypted m, sm_iv = mr_iv m, sm_hmac = mr_hmac m,
      sm_enc_ver = mr_enc_ver m, sm_key_version = mr_key_version m, sm_tx_hash = mr_tx_hash m,
      sm_target = mr_target m, sm_code = mr_code m, sm_parent = mr_parent m,
      sm_reply_count = None, sm_last_reply_at = None, sm_sender = None\<rparr>"

definition from_joined_row :: "(int \<Rightarrow> string) \<Rightarrow> int \<Rightarrow> db \<Rightarrow> message_row \<Rightarrow> message" where
  "from_joined_row iso_ms now d m =
     (from_row iso_ms m)\<lparr>sm_sender := Some (case db_users d (mr_sender m) of
        Some u \<Rightarrow> \<lparr>us_address = mr_sender m, us_username = ur_username u,
                   us_public_key = ur_public_key u, us_public_key_sig = ur_public_key_sig u,
                   us_profile_image = ur_profile_image u,
                   us_created_at = iso_ms (ur_created_at u), us_updated_at = iso_ms (ur_updated_at u)\<rparr>
      | None \<Rightarrow> placeholder iso_ms (mr_sender m) now)\<rparr>"

text \<open>The replies that MESSAGE_THREAD_COLUMNS counts for a row.\<close>

definition counted_replies :: "db \<Rightarrow> string \<Rightarrow> message_row list" where
  "counted_replies d mid =
     [r \<leftarrow> db_messages d. mr_parent r = Some mid \<and> \<not> mr_deleted r
                         \<and> mr_type r \<in> set [MSG_TYPE_ADD, MSG_TYPE_EDIT]]"

definition from_threaded_row :: "(int \<Rightarrow> string) \<Rightarrow> int \<Rightarrow> db \<Rightarrow> message_row \<Rightarrow> message" where
  "from_threaded_row iso_ms now d m =
     (let rs = counted_replies d (mr_id m); msg = from_joined_row iso_ms now d m
      in if 0 < length rs
         then msg\<lparr>sm_reply_count := Some (int (length rs)),
                  sm_last_reply_at := Some (Max (set (map mr_timestamp rs)))\<rparr>
         else msg)"

section \<open>Serials\<close>

definition next_serial :: "string \<Rightarrow> int \<Rightarrow> db \<Rightarrow> db_error + (int \<times> db)" where
  "next_serial room now d =
     (if room \<notin> set (db_rooms d) then Inl Sql_constraint
      else let nxt = (case db_serials d room of None \<Rightarrow> now + 1 | Some n \<Rightarrow> max n now + 1);
               serial = nxt - 1
           in if MAX_SAFE_INT < serial
              then Inl (Internal ''message serial exceeded the JavaScript safe integer range'')
              else Inr (serial, d\<lparr>db_serials := (db_serials d)(room \<mapsto> nxt)\<rparr>))"

section \<open>The side tables of a message\<close>

definition upsert_mention ::
  "string \<Rightarrow> string \<Rightarrow> int \<Rightarrow> int \<Rightarrow> string \<Rightarrow> mention_row list \<Rightarrow> mention_row list" where
  "upsert_mention mid room serial now address ms =
     (if \<exists>x \<in> set ms. mm_message x = mid \<and> mm_address x = address
      then map (\<lambda>x. if mm_message x = mid \<and> mm_address x = address
                    then x\<lparr>mm_serial := serial\<rparr> else x) ms
      else ms @ [\<lparr>mm_message = mid, mm_room = room, mm_address = address, mm_serial = serial,
                  mm_created_at = now\<rparr>])"

definition mentions_record :: "string \<Rightarrow> string \<Rightarrow> int \<Rightarrow> int \<Rightarrow> string list \<Rightarrow> db \<Rightarrow> db" where
  "mentions_record mid room serial now addresses d =
     d\<lparr>db_mentions := fold (upsert_mention mid room serial now) (take MAX_MENTIONS addresses)
                        (db_mentions d)\<rparr>"

definition mentions_forget :: "string \<Rightarrow> db \<Rightarrow> db" where
  "mentions_forget mid d = d\<lparr>db_mentions := [x \<leftarrow> db_mentions d. mm_message x \<noteq> mid]\<rparr>"

definition mentions_replace :: "string \<Rightarrow> string \<Rightarrow> int \<Rightarrow> int \<Rightarrow> string list \<Rightarrow> db \<Rightarrow> db" where
  "mentions_replace mid room serial now addresses d =
     mentions_record mid room serial now addresses (mentions_forget mid d)"

definition insert_media :: "string \<Rightarrow> string \<Rightarrow> int \<Rightarrow> string \<Rightarrow> media_row list \<Rightarrow> media_row list" where
  "insert_media mid room now name ms =
     (if \<exists>x \<in> set ms. md_message x = mid \<and> md_name x = name then ms
      else ms @ [\<lparr>md_message = mid, md_room = room, md_name = name, md_created_at = now\<rparr>])"

definition media_record :: "string \<Rightarrow> string \<Rightarrow> int \<Rightarrow> string list \<Rightarrow> db \<Rightarrow> db" where
  "media_record mid room now names d =
     d\<lparr>db_media := fold (insert_media mid room now) (take MAX_MEDIA names) (db_media d)\<rparr>"

definition media_forget :: "string \<Rightarrow> db \<Rightarrow> db" where
  "media_forget mid d = d\<lparr>db_media := [x \<leftarrow> db_media d. md_message x \<noteq> mid]\<rparr>"

definition media_replace :: "string \<Rightarrow> string \<Rightarrow> int \<Rightarrow> string list \<Rightarrow> db \<Rightarrow> db" where
  "media_replace mid room now names d = media_record mid room now names (media_forget mid d)"

section \<open>The search index\<close>

definition upsert_doc ::
  "string \<Rightarrow> string \<Rightarrow> string option \<Rightarrow> string option \<Rightarrow> int \<Rightarrow> string \<Rightarrow> db \<Rightarrow> db" where
  "upsert_doc kind ref room sender ts body d =
     (let doc = \<lparr>sd_kind = kind, sd_ref = ref, sd_room = room, sd_sender = sender, sd_ts = ts,
                 sd_text = body\<rparr>
      in d\<lparr>db_docs := (if \<exists>x \<in> set (db_docs d). sd_kind x = kind \<and> sd_ref x = ref
                       then map (\<lambda>x. if sd_kind x = kind \<and> sd_ref x = ref then doc else x) (db_docs d)
                       else db_docs d @ [doc])\<rparr>)"

definition unindex :: "string \<Rightarrow> string \<Rightarrow> db \<Rightarrow> db" where
  "unindex kind ref d = d\<lparr>db_docs := [x \<leftarrow> db_docs d. \<not> (sd_kind x = kind \<and> sd_ref x = ref)]\<rparr>"

definition unindex_room_messages :: "string \<Rightarrow> db \<Rightarrow> db" where
  "unindex_room_messages room d =
     d\<lparr>db_docs := [x \<leftarrow> db_docs d. \<not> (sd_kind x = KIND_MESSAGE \<and> sd_room x = Some room)]\<rparr>"

definition index_message :: "message \<Rightarrow> db \<Rightarrow> db" where
  "index_message m d =
     (if sm_encrypted m \<or> trim (sm_content m) = [] \<or> sm_type m \<noteq> MSG_TYPE_ADD then d
      else upsert_doc KIND_MESSAGE (sm_id m) (Some (sm_room m)) (Some (sm_sender_address m))
             (sm_timestamp m) (sm_content m) d)"

definition reindex_message ::
  "string \<Rightarrow> string \<Rightarrow> string \<Rightarrow> int \<Rightarrow> string \<Rightarrow> bool \<Rightarrow> db \<Rightarrow> db" where
  "reindex_message mid room sender ts content encrypted d =
     (if encrypted \<or> trim content = [] then unindex KIND_MESSAGE mid d
      else upsert_doc KIND_MESSAGE mid (Some room) (Some sender) ts content d)"

section \<open>Reading one row\<close>

definition read_message :: "(int \<Rightarrow> string) \<Rightarrow> int \<Rightarrow> string \<Rightarrow> bool \<Rightarrow> db \<Rightarrow> message option" where
  "read_message iso_ms now mid include_deleted d =
     map_option (from_joined_row iso_ms now d)
       (find (\<lambda>m. mr_id m = mid \<and> (include_deleted \<or> \<not> mr_deleted m)) (db_messages d))"

definition get_message :: "(int \<Rightarrow> string) \<Rightarrow> int \<Rightarrow> string \<Rightarrow> db \<Rightarrow> message option" where
  "get_message iso_ms now mid d = read_message iso_ms now mid False d"

definition get_message_any :: "(int \<Rightarrow> string) \<Rightarrow> int \<Rightarrow> string \<Rightarrow> db \<Rightarrow> message option" where
  "get_message_any iso_ms now mid d = read_message iso_ms now mid True d"

definition insert_message :: "message_row \<Rightarrow> db \<Rightarrow> db_error + db" where
  "insert_message m d =
     (if mr_id m \<in> mr_id ` set (db_messages d) \<or> mr_room m \<notin> set (db_rooms d)
      then Inl Sql_constraint
      else Inr (d\<lparr>db_messages := db_messages d @ [m]\<rparr>))"

section \<open>Creating\<close>

record new_message =
  nm_id :: string
  nm_room :: string
  nm_sender :: string
  nm_content :: string
  nm_hash :: string
  nm_encrypted :: bool
  nm_iv :: "string option"
  nm_hmac :: "string option"
  nm_enc_ver :: int
  nm_key_version :: int
  nm_parent :: "string option"
  nm_mentions :: "string list"
  nm_media :: "string list"

definition created_row :: "int \<Rightarrow> int \<Rightarrow> new_message \<Rightarrow> message_row" where
  "created_row now serial new =
     \<lparr>mr_id = nm_id new, mr_room = nm_room new, mr_sender = nm_sender new,
      mr_content = nm_content new, mr_hash = nm_hash new, mr_timestamp = now,
      mr_type = MSG_TYPE_ADD, mr_serial = serial, mr_deleted = False, mr_edited_at = None,
      mr_created_at = now, mr_encrypted = nm_encrypted new, mr_iv = nm_iv new,
      mr_hmac = nm_hmac new, mr_enc_ver = nm_enc_ver new, mr_key_version = nm_key_version new,
      mr_tx_hash = None, mr_target = None, mr_code = None, mr_parent = nm_parent new\<rparr>"

definition create_message ::
  "(int \<Rightarrow> string) \<Rightarrow> clock \<Rightarrow> new_message \<Rightarrow> db \<Rightarrow> db_error + (message \<times> db)" where
  "create_message iso_ms clk new d =
     try_bind (next_serial (nm_room new) (clk 1) d) (\<lambda>(serial, d1).
     try_bind (insert_message (created_row (clk 0) serial new) d1) (\<lambda>d2.
       let d3 = mentions_record (nm_id new) (nm_room new) serial (clk 2) (nm_mentions new) d2;
           d4 = media_record (nm_id new) (nm_room new) (clk 3) (nm_media new) d3
       in case read_message iso_ms (clk 4) (nm_id new) True d4 of
            None \<Rightarrow> Inl (Internal ''message vanished after insert'')
          | Some m \<Rightarrow> Inr (m, index_message m d4)))"

text \<open>The SHA-256 of the preimage is a parameter \<^verbatim>\<open>sha\<close>; the preimage is the code's.\<close>

definition emoticon_preimage :: "string \<Rightarrow> string \<Rightarrow> bool \<Rightarrow> string \<Rightarrow> int \<Rightarrow> string" where
  "emoticon_preimage target code add sender now =
     target @ '':'' @ code @ '':'' @ (if add then ''add'' else ''remove'') @ '':'' @ sender @ '':''
       @ (if now < 0 then ''-'' @ decimal (nat (- now)) else decimal (nat now))"

definition emoticon_row ::
  "(string \<Rightarrow> string) \<Rightarrow> int \<Rightarrow> int \<Rightarrow> string \<Rightarrow> string \<Rightarrow> string \<Rightarrow> string \<Rightarrow> string \<Rightarrow> bool
     \<Rightarrow> message_row" where
  "emoticon_row sha now serial mid room sender target code add =
     \<lparr>mr_id = mid, mr_room = room, mr_sender = sender, mr_content = [],
      mr_hash = sha (emoticon_preimage target code add sender now), mr_timestamp = now,
      mr_type = (if add then MSG_TYPE_EMOTICON_ADD else MSG_TYPE_EMOTICON_REMOVE),
      mr_serial = serial, mr_deleted = False, mr_edited_at = None, mr_created_at = now,
      mr_encrypted = False, mr_iv = None, mr_hmac = None, mr_enc_ver = 1, mr_key_version = 1,
      mr_tx_hash = None, mr_target = Some target, mr_code = Some code, mr_parent = None\<rparr>"

definition create_emoticon_event ::
  "(int \<Rightarrow> string) \<Rightarrow> (string \<Rightarrow> string) \<Rightarrow> clock \<Rightarrow> string \<Rightarrow> string \<Rightarrow> string \<Rightarrow> string \<Rightarrow> string \<Rightarrow> bool
     \<Rightarrow> db \<Rightarrow> db_error + (message \<times> db)" where
  "create_emoticon_event iso_ms sha clk mid room sender target code add d =
     try_bind (next_serial room (clk 1) d) (\<lambda>(serial, d1).
     try_bind (insert_message (emoticon_row sha (clk 0) serial mid room sender target code add) d1) (\<lambda>d2.
       case read_message iso_ms (clk 2) mid True d2 of
         None \<Rightarrow> Inl (Internal ''emoticon event vanished'')
       | Some m \<Rightarrow> Inr (m, d2)))"

section \<open>Changing\<close>

record message_edit =
  me_content :: string
  me_hash :: string
  me_iv :: "string option"
  me_hmac :: "string option"
  me_enc_ver :: int
  me_key_version :: int

text \<open>The UPDATE of \<^verbatim>\<open>update_message\<close> on one row: the row is encrypted exactly when the edit
carries both iv and hmac.\<close>

definition edited_row :: "int \<Rightarrow> int \<Rightarrow> message_edit \<Rightarrow> message_row \<Rightarrow> message_row" where
  "edited_row now serial e m =
     (let encrypted = me_iv e \<noteq> None \<and> me_hmac e \<noteq> None
      in m\<lparr>mr_content := me_content e, mr_hash := me_hash e, mr_edited_at := Some now,
           mr_type := MSG_TYPE_EDIT, mr_serial := serial,
           mr_iv := (if encrypted then me_iv e else None),
           mr_hmac := (if encrypted then me_hmac e else None),
           mr_encrypted := encrypted,
           mr_enc_ver := (if encrypted then me_enc_ver e else 1),
           mr_key_version := (if encrypted then me_key_version e else 1)\<rparr>)"

text \<open>An UPDATE statement: the rows that match are rewritten in place, and the statement reports how
many matched.\<close>

definition update_rows ::
  "(message_row \<Rightarrow> bool) \<Rightarrow> (message_row \<Rightarrow> message_row) \<Rightarrow> db \<Rightarrow> nat \<times> db" where
  "update_rows P f d =
     (length (filter P (db_messages d)),
      d\<lparr>db_messages := map (\<lambda>m. if P m then f m else m) (db_messages d)\<rparr>)"

definition update_message ::
  "(int \<Rightarrow> string) \<Rightarrow> clock \<Rightarrow> string \<Rightarrow> string \<Rightarrow> message_edit \<Rightarrow> string list \<Rightarrow> string list
     \<Rightarrow> db \<Rightarrow> db_error + (message option \<times> db)" where
  "update_message iso_ms clk mid room e mentions media d =
     try_bind (next_serial room (clk 1) d) (\<lambda>(serial, d1).
       let (changed, d2) = update_rows (\<lambda>m. mr_id m = mid \<and> \<not> mr_deleted m)
                             (edited_row (clk 0) serial e) d1
       in if changed = 0 then Inr (None, d)
          else case read_message iso_ms (clk 2) mid True d2 of
                 None \<Rightarrow> Inr (None, d2)
               | Some m \<Rightarrow>
                   let d3 = mentions_replace mid room (sm_serial m) (clk 3) mentions d2;
                       d4 = media_replace mid room (clk 4) media d3
                   in Inr (Some m, reindex_message mid room (sm_sender_address m) (sm_timestamp m)
                                     (sm_content m) (sm_encrypted m) d4))"

definition tombstone :: "int \<Rightarrow> message_row \<Rightarrow> message_row" where
  "tombstone serial m =
     m\<lparr>mr_deleted := True, mr_content := [], mr_hash := [], mr_type := MSG_TYPE_DELETE,
       mr_serial := serial, mr_iv := None, mr_hmac := None\<rparr>"

definition soft_delete_message ::
  "clock \<Rightarrow> string \<Rightarrow> string \<Rightarrow> db \<Rightarrow> db_error + (bool \<times> db)" where
  "soft_delete_message clk mid room d =
     try_bind (next_serial room (clk 0) d) (\<lambda>(serial, d1).
       let (changed, d2) = update_rows (\<lambda>m. mr_id m = mid \<and> mr_room m = room \<and> \<not> mr_deleted m)
                             (tombstone serial) d1
       in Inr (0 < changed,
               if 0 < changed then media_forget mid (mentions_forget mid (unindex KIND_MESSAGE mid d2))
               else d2))"

text \<open>Deleting the rows of a room cascades to their mentions and media.\<close>

definition delete_room_messages :: "string \<Rightarrow> db \<Rightarrow> db" where
  "delete_room_messages room d =
     (let gone = map mr_id [m \<leftarrow> db_messages d. mr_room m = room]
      in d\<lparr>db_messages := [m \<leftarrow> db_messages d. mr_room m \<noteq> room],
           db_mentions := [x \<leftarrow> db_mentions d. mm_message x \<notin> set gone],
           db_media := [x \<leftarrow> db_media d. md_message x \<notin> set gone]\<rparr>)"

definition marker_row :: "int \<Rightarrow> int \<Rightarrow> string \<Rightarrow> string \<Rightarrow> string \<Rightarrow> message_row" where
  "marker_row now serial mid room caller =
     \<lparr>mr_id = mid, mr_room = room, mr_sender = caller, mr_content = [], mr_hash = [],
      mr_timestamp = now, mr_type = MSG_TYPE_DELETE_ALL, mr_serial = serial, mr_deleted = False,
      mr_edited_at = None, mr_created_at = now, mr_encrypted = False, mr_iv = None, mr_hmac = None,
      mr_enc_ver = 1, mr_key_version = 1, mr_tx_hash = None, mr_target = None, mr_code = None,
      mr_parent = None\<rparr>"

definition delete_all_messages ::
  "(int \<Rightarrow> string) \<Rightarrow> clock \<Rightarrow> string \<Rightarrow> string \<Rightarrow> string \<Rightarrow> db \<Rightarrow> db_error + (int \<times> message \<times> db)" where
  "delete_all_messages iso_ms clk room caller marker_id d =
     (let deleted = int (length [m \<leftarrow> db_messages d. mr_room m = room]);
          d1 = unindex_room_messages room (delete_room_messages room d)
      in try_bind (next_serial room (clk 1) d1) (\<lambda>(serial, d2).
         try_bind (insert_message (marker_row (clk 0) serial marker_id room caller) d2) (\<lambda>d3.
           case read_message iso_ms (clk 2) marker_id True d3 of
             None \<Rightarrow> Inl (Internal ''purge marker vanished'')
           | Some marker \<Rightarrow> Inr (deleted, marker, d3))))"

definition publish_tx_hash ::
  "(int \<Rightarrow> string) \<Rightarrow> clock \<Rightarrow> string \<Rightarrow> string \<Rightarrow> string \<Rightarrow> db \<Rightarrow> db_error + (message option \<times> db)" where
  "publish_tx_hash iso_ms clk mid room tx_hash d =
     try_bind (next_serial room (clk 0) d) (\<lambda>(serial, d1).
       let (changed, d2) = update_rows (\<lambda>m. mr_id m = mid)
                             (\<lambda>m. m\<lparr>mr_tx_hash := Some tx_hash, mr_serial := serial\<rparr>) d1
       in if changed = 0 then Inr (None, d)
          else Inr (read_message iso_ms (clk 1) mid True d2, d2))"

section \<open>Reading\<close>

definition not_blocked :: "db \<Rightarrow> string \<Rightarrow> message_row \<Rightarrow> bool" where
  "not_blocked d viewer m \<longleftrightarrow> (viewer, mr_sender m) \<notin> set (db_blocked d)"

definition displayable :: "message_row \<Rightarrow> bool" where
  "displayable m \<longleftrightarrow> \<not> mr_deleted m \<and> mr_type m \<notin> set event_types"

text \<open>ORDER BY message_timestamp ASC, msg_serial ASC.\<close>

definition display_order :: "message_row list \<Rightarrow> message_row list" where
  "display_order = sort_key (\<lambda>m. (mr_timestamp m, mr_serial m))"

definition get_messages ::
  "(int \<Rightarrow> string) \<Rightarrow> int \<Rightarrow> string \<Rightarrow> string \<Rightarrow> int \<Rightarrow> int \<Rightarrow> nat \<Rightarrow> bool \<Rightarrow> db \<Rightarrow> message list" where
  "get_messages iso_ms now room viewer since before limit include_replies d =
     rev (map (from_threaded_row iso_ms now d)
       (take limit (rev (display_order
          [m \<leftarrow> db_messages d. mr_room m = room \<and> displayable m
             \<and> (include_replies \<or> mr_parent m = None)
             \<and> (since = 0 \<or> since \<le> mr_timestamp m)
             \<and> (before = 0 \<or> mr_timestamp m < before)
             \<and> not_blocked d viewer m]))))"

text \<open>The rows that /sync may deliver to a viewer, in serial order.\<close>

definition sync_rows :: "db \<Rightarrow> string \<Rightarrow> string \<Rightarrow> int \<Rightarrow> message_row list" where
  "sync_rows d room viewer since =
     sort_key mr_serial
       [m \<leftarrow> db_messages d. mr_room m = room \<and> since < mr_serial m \<and> not_blocked d viewer m]"

definition sync_messages ::
  "(int \<Rightarrow> string) \<Rightarrow> int \<Rightarrow> string \<Rightarrow> string \<Rightarrow> int \<Rightarrow> db \<Rightarrow> message list \<times> bool" where
  "sync_messages iso_ms now room viewer since d =
     (let out = map (from_joined_row iso_ms now d) (take (SYNC_LIMIT + 1) (sync_rows d room viewer since))
      in (take SYNC_LIMIT out, SYNC_LIMIT < length out))"

definition latest_serial :: "string \<Rightarrow> db \<Rightarrow> int" where
  "latest_serial room d =
     (case map mr_serial [m \<leftarrow> db_messages d. mr_room m = room] of
        [] \<Rightarrow> 0 | x # xs \<Rightarrow> fold max xs x)"

definition latest_timestamp :: "string \<Rightarrow> db \<Rightarrow> int" where
  "latest_timestamp room d =
     (case map mr_timestamp [m \<leftarrow> db_messages d. mr_room m = room] of
        [] \<Rightarrow> 0 | x # xs \<Rightarrow> fold max xs x)"

definition unread_count :: "string \<Rightarrow> string \<Rightarrow> int \<Rightarrow> db \<Rightarrow> nat" where
  "unread_count room viewer last_read d =
     length [m \<leftarrow> db_messages d. mr_room m = room \<and> last_read < mr_serial m
               \<and> mr_type m = MSG_TYPE_ADD \<and> \<not> mr_deleted m \<and> mr_sender m \<noteq> viewer
               \<and> not_blocked d viewer m]"

definition last_message :: "(int \<Rightarrow> string) \<Rightarrow> int \<Rightarrow> string \<Rightarrow> string \<Rightarrow> db \<Rightarrow> message option" where
  "last_message iso_ms now room viewer d =
     (case rev (display_order [m \<leftarrow> db_messages d. mr_room m = room \<and> displayable m
                                 \<and> not_blocked d viewer m]) of
        [] \<Rightarrow> None | m # _ \<Rightarrow> Some (from_joined_row iso_ms now d m))"

definition get_thread :: "(int \<Rightarrow> string) \<Rightarrow> int \<Rightarrow> string \<Rightarrow> string \<Rightarrow> db \<Rightarrow> message list option" where
  "get_thread iso_ms now root viewer d =
     (case find (\<lambda>m. mr_id m = root \<and> not_blocked d viewer m) (db_messages d) of
        None \<Rightarrow> None
      | Some r \<Rightarrow> Some (map (from_joined_row iso_ms now d)
          (r # display_order [m \<leftarrow> db_messages d. mr_parent m = Some root \<and> displayable m
                                \<and> not_blocked d viewer m])))"

definition thread_root :: "string \<Rightarrow> bool \<Rightarrow> db \<Rightarrow> (string \<times> string) option" where
  "thread_root mid include_deleted d =
     map_option (\<lambda>m. (case mr_parent m of Some p \<Rightarrow> p | None \<Rightarrow> mr_id m, mr_room m))
       (find (\<lambda>m. mr_id m = mid \<and> (include_deleted \<or> \<not> mr_deleted m)) (db_messages d))"

text \<open>The routes resolve_parent, over thread_root.\<close>

datatype parent_error = Parent_missing | Parent_elsewhere

definition resolve_parent :: "string \<Rightarrow> string \<Rightarrow> db \<Rightarrow> parent_error + string" where
  "resolve_parent parent room d =
     try_bind (ok_or Parent_missing (thread_root parent False d)) (\<lambda>(root, parent_room).
       if parent_room \<noteq> room then Inl Parent_elsewhere else Inr root)"

section \<open>Reactions\<close>

text \<open>The loop of aggregate_emoticons: the codes in order of first appearance, and the set of reactors
of each code (a HashSet, here a list without duplicates).\<close>

type_synonym reactor_sets = "string list \<times> (string \<Rightarrow> string list option)"

definition aggregate_step :: "message_row \<Rightarrow> reactor_sets \<Rightarrow> reactor_sets" where
  "aggregate_step m = (\<lambda>(order, sets).
     case mr_code m of
       None \<Rightarrow> (order, sets)
     | Some code \<Rightarrow>
         if mr_type m = MSG_TYPE_EMOTICON_ADD then
           (if sets code = None then order @ [code] else order,
            sets(code \<mapsto> List.insert (mr_sender m) (case sets code of Some s \<Rightarrow> s | None \<Rightarrow> [])))
         else if mr_type m = MSG_TYPE_EMOTICON_REMOVE then
           (order, case sets code of
                     Some s \<Rightarrow> sets(code \<mapsto> remove1 (mr_sender m) s) | None \<Rightarrow> sets)
         else (order, sets))"

definition reaction_rows :: "db \<Rightarrow> string \<Rightarrow> string \<Rightarrow> message_row list" where
  "reaction_rows d mid viewer =
     sort_key mr_serial [m \<leftarrow> db_messages d. mr_target m = Some mid \<and> not_blocked d viewer m]"

text \<open>The surviving reactors of each code that still has one.\<close>

definition surviving_reactors :: "string \<Rightarrow> string \<Rightarrow> db \<Rightarrow> (string \<times> string list) list" where
  "surviving_reactors mid viewer d =
     (let (order, sets) = fold aggregate_step (reaction_rows d mid viewer) ([], \<lambda>_. None)
      in [(code, s). code \<leftarrow> order, s \<leftarrow> (case sets code of None \<Rightarrow> [] | Some s \<Rightarrow> [s]), s \<noteq> []])"

record emoticon_aggregation =
  ea_code :: string
  ea_count :: nat
  ea_users :: "string list"

text \<open>The response: the count is the number of reactors, the users those with a profile row (named by
their address), in address order.\<close>

definition aggregate_emoticons :: "string \<Rightarrow> string \<Rightarrow> db \<Rightarrow> emoticon_aggregation list" where
  "aggregate_emoticons mid viewer d =
     map (\<lambda>(code, s). \<lparr>ea_code = code, ea_count = length s,
                      ea_users = [a \<leftarrow> sort s. db_users d a \<noteq> None]\<rparr>)
       (surviving_reactors mid viewer d)"

section \<open>Read pointers\<close>

definition mark_read :: "string \<Rightarrow> string \<Rightarrow> int \<Rightarrow> int \<Rightarrow> db \<Rightarrow> db_error + (int \<times> db)" where
  "mark_read room address serial now d =
     (if room \<notin> set (db_rooms d) then Inl Sql_constraint
      else let row = (case db_reads d (room, address) of
             None \<Rightarrow> \<lparr>rr_last_read = serial, rr_updated_at = now\<rparr>
           | Some r \<Rightarrow> \<lparr>rr_last_read = max (rr_last_read r) serial,
                       rr_updated_at = (if rr_last_read r < serial then now else rr_updated_at r)\<rparr>)
      in Inr (rr_last_read row, d\<lparr>db_reads := (db_reads d)((room, address) \<mapsto> row)\<rparr>))"

end
