(* ===== verification/Message_Spec.thy ===== *)
theory Message_Spec imports Message_Db begin

text \<open>What the operations on the message store do, stated once for all readers of the store: an
operation that succeeds appends one row, rewrites one row in place under a new serial, or replaces a
room's rows by a purge marker, and always under a serial above every serial the room has handed out.
The invariant of the store and its preservation follow, and then the properties of the store: the
serials, the search index and what can go wrong around a purge marker.\<close>

section \<open>Serials\<close>

definition next_of :: "db \<Rightarrow> string \<Rightarrow> int" where
  "next_of d room = (case db_serials d room of None \<Rightarrow> 0 | Some n \<Rightarrow> n)"

lemma next_serial_Inr:
  assumes "next_serial room now d = Inr (s, d')"
  shows "room \<in> set (db_rooms d)" "s \<le> MAX_SAFE_INT" "now \<le> s"
    "\<forall>n. db_serials d room = Some n \<longrightarrow> n \<le> s"
    "d' = d\<lparr>db_serials := (db_serials d)(room \<mapsto> s + 1)\<rparr>"
  using assms by (auto simp: next_serial_def Let_def split: if_splits option.splits)

lemma insert_message_Inr:
  assumes "insert_message m d = Inr d'"
  shows "mr_id m \<notin> mr_id ` set (db_messages d)" "mr_room m \<in> set (db_rooms d)"
    "d' = d\<lparr>db_messages := db_messages d @ [m]\<rparr>"
  using assms by (auto simp: insert_message_def split: if_splits)

section \<open>The three shapes of a change\<close>

text \<open>The part of the state that a reader of messages sees.\<close>

definition same_frame :: "db \<Rightarrow> db \<Rightarrow> bool" where
  "same_frame d d' \<longleftrightarrow> db_rooms d' = db_rooms d \<and> db_blocked d' = db_blocked d"

definition fresh_serial :: "db \<Rightarrow> string \<Rightarrow> int \<Rightarrow> db \<Rightarrow> bool" where
  "fresh_serial d room s d' \<longleftrightarrow>
     (\<forall>n. db_serials d room = Some n \<longrightarrow> n \<le> s) \<and> db_serials d' = (db_serials d)(room \<mapsto> s + 1)"

definition row_added :: "message_row \<Rightarrow> db \<Rightarrow> db \<Rightarrow> bool" where
  "row_added m d d' \<longleftrightarrow>
     same_frame d d' \<and> fresh_serial d (mr_room m) (mr_serial m) d'
     \<and> mr_id m \<notin> mr_id ` set (db_messages d) \<and> mr_room m \<in> set (db_rooms d)
     \<and> db_messages d' = db_messages d @ [m]"

definition row_changed :: "(message_row \<Rightarrow> message_row) \<Rightarrow> message_row \<Rightarrow> db \<Rightarrow> db \<Rightarrow> bool" where
  "row_changed f m d d' \<longleftrightarrow>
     same_frame d d' \<and> fresh_serial d (mr_room m) (mr_serial (f m)) d' \<and> m \<in> set (db_messages d)
     \<and> db_messages d' = map (\<lambda>x. if mr_id x = mr_id m then f x else x) (db_messages d)"

definition room_purged :: "message_row \<Rightarrow> db \<Rightarrow> db \<Rightarrow> bool" where
  "room_purged marker d d' \<longleftrightarrow>
     same_frame d d' \<and> fresh_serial d (mr_room marker) (mr_serial marker) d'
     \<and> mr_id marker \<notin> mr_id ` {x \<in> set (db_messages d). mr_room x \<noteq> mr_room marker}
     \<and> mr_room marker \<in> set (db_rooms d)
     \<and> db_messages d' = [x \<leftarrow> db_messages d. mr_room x \<noteq> mr_room marker] @ [marker]"

lemmas change_defs = same_frame_def fresh_serial_def

text \<open>The side tables do not touch the part that readers of messages see.\<close>

lemma side_tables [simp]:
  "db_messages (mentions_record i r s n as d) = db_messages d"
  "db_messages (mentions_forget i d) = db_messages d"
  "db_messages (mentions_replace i r s n as d) = db_messages d"
  "db_messages (media_record i r n as d) = db_messages d"
  "db_messages (media_forget i d) = db_messages d"
  "db_messages (media_replace i r n as d) = db_messages d"
  "db_messages (upsert_doc k i ro se t b d) = db_messages d"
  "db_messages (unindex k i d) = db_messages d"
  "db_messages (unindex_room_messages r d) = db_messages d"
  "db_messages (index_message m d) = db_messages d"
  "db_messages (reindex_message i r w t b e d) = db_messages d"
  "db_serials (mentions_record i r s n as d) = db_serials d"
  "db_serials (mentions_forget i d) = db_serials d"
  "db_serials (mentions_replace i r s n as d) = db_serials d"
  "db_serials (media_record i r n as d) = db_serials d"
  "db_serials (media_forget i d) = db_serials d"
  "db_serials (media_replace i r n as d) = db_serials d"
  "db_serials (upsert_doc k i ro se t b d) = db_serials d"
  "db_serials (unindex k i d) = db_serials d"
  "db_serials (unindex_room_messages r d) = db_serials d"
  "db_serials (index_message m d) = db_serials d"
  "db_serials (reindex_message i r w t b e d) = db_serials d"
  by (simp_all add: mentions_record_def mentions_forget_def mentions_replace_def media_record_def
      media_forget_def media_replace_def upsert_doc_def unindex_def unindex_room_messages_def
      index_message_def reindex_message_def Let_def)

lemma side_frames [simp]:
  "db_docs (mentions_record i r s n as d) = db_docs d"
  "db_docs (mentions_forget i d) = db_docs d"
  "db_docs (mentions_replace i r s n as d) = db_docs d"
  "db_docs (media_record i r n as d) = db_docs d"
  "db_docs (media_forget i d) = db_docs d"
  "db_docs (media_replace i r n as d) = db_docs d"
  "db_rooms (mentions_record i r s n as d) = db_rooms d"
  "db_rooms (mentions_forget i d) = db_rooms d"
  "db_rooms (mentions_replace i r s n as d) = db_rooms d"
  "db_rooms (media_record i r n as d) = db_rooms d"
  "db_rooms (media_forget i d) = db_rooms d"
  "db_rooms (media_replace i r n as d) = db_rooms d"
  "db_rooms (upsert_doc k i ro se t b d) = db_rooms d"
  "db_rooms (unindex k i d) = db_rooms d"
  "db_rooms (unindex_room_messages r d) = db_rooms d"
  "db_rooms (index_message m d) = db_rooms d"
  "db_rooms (reindex_message i r w t b e d) = db_rooms d"
  "db_blocked (mentions_record i r s n as d) = db_blocked d"
  "db_blocked (mentions_forget i d) = db_blocked d"
  "db_blocked (mentions_replace i r s n as d) = db_blocked d"
  "db_blocked (media_record i r n as d) = db_blocked d"
  "db_blocked (media_forget i d) = db_blocked d"
  "db_blocked (media_replace i r n as d) = db_blocked d"
  "db_blocked (upsert_doc k i ro se t b d) = db_blocked d"
  "db_blocked (unindex k i d) = db_blocked d"
  "db_blocked (unindex_room_messages r d) = db_blocked d"
  "db_blocked (index_message m d) = db_blocked d"
  "db_blocked (reindex_message i r w t b e d) = db_blocked d"
  by (simp_all add: mentions_record_def mentions_forget_def mentions_replace_def media_record_def
      media_forget_def media_replace_def upsert_doc_def unindex_def unindex_room_messages_def
      index_message_def reindex_message_def Let_def)

lemma row_of_id:
  "distinct (map mr_id ms) \<Longrightarrow> x \<in> set ms \<Longrightarrow> y \<in> set ms \<Longrightarrow> mr_id x = mr_id y \<Longrightarrow> x = y"
  by (metis distinct_map inj_onD)

text \<open>A row read back by its id.\<close>

lemma read_row:
  assumes "distinct (map mr_id (db_messages d))" "m \<in> set (db_messages d)"
  shows "read_message iso_ms now (mr_id m) True d = Some (from_joined_row iso_ms now d m)"
proof -
  have "find (\<lambda>x. mr_id x = mr_id m) (db_messages d) = Some m"
  proof (cases "find (\<lambda>x. mr_id x = mr_id m) (db_messages d)")
    case None then show ?thesis using assms(2) by (auto simp: find_None_iff)
  next
    case (Some x)
    then have "x \<in> set (db_messages d)" "mr_id x = mr_id m" by (auto simp: find_Some_iff)
    then show ?thesis using row_of_id [OF assms(1)] assms(2) Some by simp
  qed
  then show ?thesis by (simp add: read_message_def)
qed

lemma from_joined_fields [simp]:
  "sm_id (from_joined_row iso_ms now d m) = mr_id m"
  "sm_serial (from_joined_row iso_ms now d m) = mr_serial m"
  "sm_room (from_joined_row iso_ms now d m) = mr_room m"
  "sm_sender_address (from_joined_row iso_ms now d m) = mr_sender m"
  "sm_content (from_joined_row iso_ms now d m) = mr_content m"
  "sm_timestamp (from_joined_row iso_ms now d m) = mr_timestamp m"
  "sm_encrypted (from_joined_row iso_ms now d m) = mr_encrypted m"
  "sm_type (from_joined_row iso_ms now d m) = (if mr_type m = ''message'' then MSG_TYPE_ADD else mr_type m)"
  by (simp_all add: from_joined_row_def from_row_def)

section \<open>Each operation has one of the shapes\<close>

lemma create_message_added:
  assumes "create_message iso_ms clk new d = Inr (m, d')"
  obtains s where "clk 1 \<le> s" "row_added (created_row (clk 0) s new) d d'"
proof -
  from assms obtain s d1 d2 where
    s: "next_serial (nm_room new) (clk 1) d = Inr (s, d1)"
    and ins: "insert_message (created_row (clk 0) s new) d1 = Inr d2"
    and d': "db_messages d' = db_messages d2" "db_serials d' = db_serials d2"
      "db_rooms d' = db_rooms d2" "db_blocked d' = db_blocked d2"
    by (auto simp: create_message_def try_bind_Inr_iff Let_def split: option.splits)
  have "row_added (created_row (clk 0) s new) d d'"
    using next_serial_Inr [OF s] insert_message_Inr [OF ins] d'
    by (simp add: row_added_def change_defs created_row_def)
  then show ?thesis using next_serial_Inr(3) [OF s] that by blast
qed

lemma create_emoticon_added:
  assumes "create_emoticon_event iso_ms sha clk mid room sender target code add d = Inr (m, d')"
  obtains s where "clk 1 \<le> s"
    "row_added (emoticon_row sha (clk 0) s mid room sender target code add) d d'"
proof -
  from assms obtain s d1 where
    s: "next_serial room (clk 1) d = Inr (s, d1)"
    and ins: "insert_message (emoticon_row sha (clk 0) s mid room sender target code add) d1 = Inr d'"
    by (auto simp: create_emoticon_event_def try_bind_Inr_iff split: option.splits)
  have "row_added (emoticon_row sha (clk 0) s mid room sender target code add) d d'"
    using next_serial_Inr [OF s] insert_message_Inr [OF ins]
    by (simp add: row_added_def change_defs emoticon_row_def)
  then show ?thesis using next_serial_Inr(3) [OF s] that by blast
qed

text \<open>An UPDATE by id with further conditions rewrites the row of that id, if it meets them.\<close>

lemma update_rows_row:
  assumes "distinct (map mr_id (db_messages d))"
    and "update_rows (\<lambda>m. mr_id m = mid \<and> Q m) f d = (changed, d')" "changed \<noteq> 0"
  obtains m where "m \<in> set (db_messages d)" "mr_id m = mid" "Q m"
    "d' = d\<lparr>db_messages := map (\<lambda>x. if mr_id x = mid then f x else x) (db_messages d)\<rparr>"
proof -
  from assms(2,3) have "filter (\<lambda>m. mr_id m = mid \<and> Q m) (db_messages d) \<noteq> []"
    by (auto simp: update_rows_def)
  then obtain m where m: "m \<in> set (db_messages d)" "mr_id m = mid" "Q m"
    by (auto simp: filter_empty_conv)
  have "mr_id x = mid \<and> Q x \<longleftrightarrow> mr_id x = mid" if "x \<in> set (db_messages d)" for x
    using m row_of_id [OF assms(1) that m(1)] by auto
  then have "d' = d\<lparr>db_messages := map (\<lambda>x. if mr_id x = mid then f x else x) (db_messages d)\<rparr>"
    using assms(2) by (auto simp: update_rows_def intro!: arg_cong2 [where f = db_messages_update])
  then show ?thesis using m that by blast
qed

lemma update_rows_none:
  assumes "update_rows P f d = (changed, d')" "changed = 0" shows "d' = d"
proof -
  have "\<forall>m \<in> set (db_messages d). \<not> P m" using assms by (auto simp: update_rows_def filter_empty_conv)
  then have "map (\<lambda>m. if P m then f m else m) (db_messages d) = db_messages d" by (intro map_idI) auto
  then show ?thesis using assms(1) by (auto simp: update_rows_def)
qed

lemma update_message_changed:
  assumes "update_message iso_ms clk mid room e mentions media d = Inr (res, d')"
    and "distinct (map mr_id (db_messages d))"
  obtains "d' = d" "res = None"
  | s m d4 where "clk 1 \<le> s" "m \<in> set (db_messages d)" "mr_id m = mid" "\<not> mr_deleted m"
      "mr_room m = room \<Longrightarrow> row_changed (edited_row (clk 0) s e) m d d'" "db_docs d4 = db_docs d"
      "d' = (let m' = edited_row (clk 0) s e m
             in reindex_message mid room (mr_sender m') (mr_timestamp m') (mr_content m')
                  (mr_encrypted m') d4)"
proof -
  from assms(1) obtain s d1 where s: "next_serial room (clk 1) d = Inr (s, d1)"
    by (auto simp: update_message_def try_bind_Inr_iff)
  obtain changed d2 where
    up: "update_rows (\<lambda>m. mr_id m = mid \<and> \<not> mr_deleted m) (edited_row (clk 0) s e) d1 = (changed, d2)"
    by fastforce
  have alt: "changed = 0 \<and> d' = d \<and> res = None \<or> changed \<noteq> 0 \<and> db_messages d' = db_messages d2
       \<and> db_serials d' = db_serials d2 \<and> db_rooms d' = db_rooms d2 \<and> db_blocked d' = db_blocked d2"
    using assms(1) s up
    by (auto simp: update_message_def Let_def split: option.splits if_splits)
  note ns = next_serial_Inr [OF s]
  show ?thesis
  proof (cases "changed = 0")
    case True then show ?thesis using alt that(1) by blast
  next
    case False
    have dist: "distinct (map mr_id (db_messages d1))" using assms(2) ns(5) by simp
    obtain m where m: "m \<in> set (db_messages d1)"
      "mr_id m = mid" "\<not> mr_deleted m"
      "d2 = d1\<lparr>db_messages := map (\<lambda>x. if mr_id x = mid then edited_row (clk 0) s e x else x)
                               (db_messages d1)\<rparr>" by (rule update_rows_row [OF dist up False])
    let ?m = "edited_row (clk 0) s e m"
    have fm: "mr_serial ?m = s" "mr_id ?m = mid" using m by (simp_all add: edited_row_def Let_def)
    have in2: "?m \<in> set (db_messages d2)" using m by (auto simp: image_iff)
    have "map mr_id (db_messages d2) = map mr_id (db_messages d1)"
      using m(4) fm(2) row_of_id [OF dist _ m(1)] m(2) by (auto simp: edited_row_def Let_def)
    then have "distinct (map mr_id (db_messages d2))" using dist by simp
    then have rd: "read_message iso_ms (clk 2) mid True d2 = Some (from_joined_row iso_ms (clk 2) d2 ?m)"
      using read_row [of d2 ?m] in2 fm(2) by simp
    define d4 where "d4 = media_replace mid room (clk 4) media (mentions_replace mid room s (clk 3) mentions d2)"
    have d': "d' = (let m' = ?m in reindex_message mid room (mr_sender m') (mr_timestamp m') (mr_content m')
                  (mr_encrypted m') d4)"
      using assms(1) s up rd False fm by (simp add: update_message_def Let_def d4_def)
    have docs: "db_docs d4 = db_docs d"
      using m(4) ns(5) by (simp add: d4_def)
    have "row_changed (edited_row (clk 0) s e) m d d'" if "mr_room m = room"
      using that ns alt False m fm by (simp add: row_changed_def change_defs)
    moreover have "m \<in> set (db_messages d)" using m(1) ns(5) by simp
    ultimately show ?thesis using that(2) [of s m d4] ns(3) m(2,3) d' docs by blast
  qed
qed

lemma soft_delete_changed:
  assumes "soft_delete_message clk mid room d = Inr (res, d')"
    and "distinct (map mr_id (db_messages d))"
  obtains s where "\<not> res" "d' = d\<lparr>db_serials := (db_serials d)(room \<mapsto> s + 1)\<rparr>"
      "\<forall>n. db_serials d room = Some n \<longrightarrow> n \<le> s" "clk 0 \<le> s"
  | s m where "res" "clk 0 \<le> s" "mr_id m = mid" "mr_room m = room" "\<not> mr_deleted m"
      "row_changed (tombstone s) m d d'" "db_docs d' = db_docs (unindex KIND_MESSAGE mid d)"
proof -
  from assms(1) obtain s d1 where s: "next_serial room (clk 0) d = Inr (s, d1)"
    by (auto simp: soft_delete_message_def try_bind_Inr_iff)
  obtain changed d2 where
    up: "update_rows (\<lambda>m. mr_id m = mid \<and> (mr_room m = room \<and> \<not> mr_deleted m)) (tombstone s) d1
           = (changed, d2)"
    by fastforce
  have res: "res = (0 < changed)"
    and d': "d' = (if 0 < changed then media_forget mid (mentions_forget mid (unindex KIND_MESSAGE mid d2))
                   else d2)"
    using assms(1) s up by (auto simp: soft_delete_message_def Let_def)
  note ns = next_serial_Inr [OF s]
  show ?thesis
  proof (cases "changed = 0")
    case True
    then have "d2 = d1" using update_rows_none [OF up] by blast
    then show ?thesis using that(1) [of s] True ns res d' by auto
  next
    case False
    have dist: "distinct (map mr_id (db_messages d1))" using assms(2) ns(5) by simp
    obtain m where m: "m \<in> set (db_messages d1)"
      "mr_id m = mid" "mr_room m = room \<and> \<not> mr_deleted m"
      "d2 = d1\<lparr>db_messages := map (\<lambda>x. if mr_id x = mid then tombstone s x else x)
                               (db_messages d1)\<rparr>" by (rule update_rows_row [OF dist up False])
    have "row_changed (tombstone s) m d d'"
      using ns False m d' by (simp add: row_changed_def change_defs tombstone_def)
    moreover have "db_docs d' = db_docs (unindex KIND_MESSAGE mid d)"
      using ns False m d' by (simp add: unindex_def)
    ultimately show ?thesis using that(2) [of s m] ns(3) m res False by simp
  qed
qed

lemma publish_changed:
  assumes "publish_tx_hash iso_ms clk mid room tx d = Inr (res, d')"
    and "distinct (map mr_id (db_messages d))"
  obtains "d' = d" "res = None"
  | s m where "clk 0 \<le> s" "m \<in> set (db_messages d)" "mr_id m = mid"
      "mr_room m = room \<Longrightarrow>
         row_changed (\<lambda>m. m\<lparr>mr_tx_hash := Some tx, mr_serial := s\<rparr>) m d d'"
      "db_docs d' = db_docs d"
proof -
  from assms(1) obtain s d1 where s: "next_serial room (clk 0) d = Inr (s, d1)"
    by (auto simp: publish_tx_hash_def try_bind_Inr_iff)
  obtain changed d2 where
    up: "update_rows (\<lambda>m. mr_id m = mid \<and> True) (\<lambda>m. m\<lparr>mr_tx_hash := Some tx, mr_serial := s\<rparr>) d1
           = (changed, d2)"
    by fastforce
  have alt: "changed = 0 \<and> d' = d \<and> res = None \<or> changed \<noteq> 0 \<and> d' = d2"
    using assms(1) s up by (auto simp: publish_tx_hash_def Let_def split: if_splits)
  note ns = next_serial_Inr [OF s]
  show ?thesis
  proof (cases "changed = 0")
    case True then show ?thesis using alt that(1) by blast
  next
    case False
    have dist: "distinct (map mr_id (db_messages d1))" using assms(2) ns(5) by simp
    obtain m where m: "m \<in> set (db_messages d1)"
      "mr_id m = mid"
      "d2 = d1\<lparr>db_messages := map (\<lambda>x. if mr_id x = mid then x\<lparr>mr_tx_hash := Some tx, mr_serial := s\<rparr>
                                       else x) (db_messages d1)\<rparr>" by (rule update_rows_row [OF dist up False])
    have "row_changed (\<lambda>m. m\<lparr>mr_tx_hash := Some tx, mr_serial := s\<rparr>) m d d'" if "mr_room m = room"
      using that ns alt False m by (simp add: row_changed_def change_defs)
    moreover have "m \<in> set (db_messages d)" "db_docs d' = db_docs d"
      using m ns(5) alt False by simp_all
    ultimately show ?thesis using that(2) ns(3) m(2) by blast
  qed
qed

lemma delete_all_purged:
  assumes "delete_all_messages iso_ms clk room caller mid d = Inr (n, m, d')"
  obtains s where "clk 1 \<le> s" "room_purged (marker_row (clk 0) s mid room caller) d d'"
    "n = int (length [m \<leftarrow> db_messages d. mr_room m = room])"
    "db_docs d' = db_docs (unindex_room_messages room d)"
proof -
  let ?d0 = "unindex_room_messages room (delete_room_messages room d)"
  from assms obtain s d1 where
    s: "next_serial room (clk 1) ?d0 = Inr (s, d1)"
    and ins: "insert_message (marker_row (clk 0) s mid room caller) d1 = Inr d'"
    and n: "n = int (length [m \<leftarrow> db_messages d. mr_room m = room])"
    by (auto simp: delete_all_messages_def try_bind_Inr_iff Let_def split: option.splits)
  have "db_serials ?d0 = db_serials d" "db_rooms ?d0 = db_rooms d" "db_blocked ?d0 = db_blocked d"
    "db_messages ?d0 = [x \<leftarrow> db_messages d. mr_room x \<noteq> room]"
    by (simp_all add: delete_room_messages_def Let_def)
  then have "room_purged (marker_row (clk 0) s mid room caller) d d'"
    using next_serial_Inr [OF s] insert_message_Inr [OF ins]
    by (simp add: room_purged_def change_defs marker_row_def image_def)
  moreover have "db_docs d' = db_docs (unindex_room_messages room d)"
    using next_serial_Inr(5) [OF s] insert_message_Inr(3) [OF ins]
    by (simp add: unindex_room_messages_def delete_room_messages_def Let_def)
  ultimately show ?thesis using next_serial_Inr(3) [OF s] n that by blast
qed

section \<open>The invariant of the store\<close>

definition plain_types :: "string list" where
  "plain_types = [MSG_TYPE_ADD, MSG_TYPE_EDIT, MSG_TYPE_DELETE]"

definition is_marker :: "message_row \<Rightarrow> bool" where
  "is_marker m \<longleftrightarrow> mr_type m = MSG_TYPE_DELETE_ALL"

definition is_reaction :: "message_row \<Rightarrow> bool" where
  "is_reaction m \<longleftrightarrow> mr_type m \<in> set [MSG_TYPE_EMOTICON_ADD, MSG_TYPE_EMOTICON_REMOVE]"

definition is_plain :: "message_row \<Rightarrow> bool" where
  "is_plain m \<longleftrightarrow> mr_type m \<in> set plain_types"

lemmas row_class_defs = plain_types_def is_marker_def is_reaction_def is_plain_def msg_type_defs
  event_types_def displayable_def

lemma row_classes:
  "is_plain m \<Longrightarrow> \<not> is_marker m" "is_plain m \<Longrightarrow> \<not> is_reaction m" "is_marker m \<Longrightarrow> \<not> is_reaction m"
  "is_plain m \<Longrightarrow> displayable m = (\<not> mr_deleted m)"
  "is_marker m \<Longrightarrow> \<not> displayable m" "is_reaction m \<Longrightarrow> \<not> displayable m"
  by (auto simp: row_class_defs)

text \<open>One row: its room exists, its serial is positive and below the room's next one, its type is one
the code writes, and it is a tombstone exactly when it is typed as one.\<close>

definition row_ok :: "db \<Rightarrow> message_row \<Rightarrow> bool" where
  "row_ok d m \<longleftrightarrow>
     mr_room m \<in> set (db_rooms d) \<and> 0 < mr_serial m \<and> mr_serial m < next_of d (mr_room m)
     \<and> (is_plain m \<or> is_marker m \<or> is_reaction m)
     \<and> (mr_deleted m \<longleftrightarrow> mr_type m = MSG_TYPE_DELETE)"

text \<open>Two rows of a room: different rows have different serials, and a purge marker is below all
others.\<close>

definition pair_ok :: "message_row \<Rightarrow> message_row \<Rightarrow> bool" where
  "pair_ok x y \<longleftrightarrow>
     (mr_room x = mr_room y \<longrightarrow> mr_id x \<noteq> mr_id y \<longrightarrow>
        mr_serial x \<noteq> mr_serial y \<and> (is_marker x \<longrightarrow> mr_serial x < mr_serial y))"

text \<open>A reaction's target is a message of the reaction's own room.\<close>

definition reaction_target_ok :: "db \<Rightarrow> message_row \<Rightarrow> bool" where
  "reaction_target_ok d m \<longleftrightarrow>
     (is_reaction m \<longrightarrow> (\<exists>x \<in> set (db_messages d). mr_target m = Some (mr_id x) \<and> mr_room x = mr_room m))"

definition store_ok :: "db \<Rightarrow> bool" where
  "store_ok d \<longleftrightarrow>
     distinct (map mr_id (db_messages d))
     \<and> (\<forall>m \<in> set (db_messages d). row_ok d m \<and> reaction_target_ok d m)
     \<and> (\<forall>x \<in> set (db_messages d). \<forall>y \<in> set (db_messages d). pair_ok x y)
     \<and> (\<forall>r n. db_serials d r = Some n \<longrightarrow> 0 < n)"

lemma store_okD:
  assumes "store_ok d"
  shows "distinct (map mr_id (db_messages d))"
    "m \<in> set (db_messages d) \<Longrightarrow> row_ok d m" "m \<in> set (db_messages d) \<Longrightarrow> reaction_target_ok d m"
    "x \<in> set (db_messages d) \<Longrightarrow> y \<in> set (db_messages d) \<Longrightarrow> pair_ok x y"
    "db_serials d r = Some n \<Longrightarrow> 0 < n"
  using assms by (auto simp: store_ok_def)

text \<open>Serials given out later are above those of the rows that are there.\<close>

lemma fresh_above:
  assumes "fresh_serial d room s d'" "row_ok d m" "mr_room m = room"
  shows "mr_serial m < s"
  using assms by (auto simp: fresh_serial_def row_ok_def next_of_def split: option.splits)

lemma next_of_fresh:
  assumes "fresh_serial d room s d'"
  shows "next_of d' room = s + 1" "next_of d r \<le> next_of d' r \<or> r = room \<and> db_serials d r = None"
    "r \<noteq> room \<Longrightarrow> next_of d' r = next_of d r" "db_serials d room = Some n \<Longrightarrow> n \<le> s"
  using assms by (auto simp: fresh_serial_def next_of_def split: option.splits)

lemma row_ok_later:
  assumes "row_ok d m" "same_frame d d'" "fresh_serial d room s d'"
  shows "row_ok d' m"
proof (cases "mr_room m = room")
  case True
  have "mr_serial m < s" using fresh_above [OF assms(3,1) True] .
  then show ?thesis using assms next_of_fresh(1) [OF assms(3)] True
    by (auto simp: row_ok_def same_frame_def)
next
  case False
  then show ?thesis using assms next_of_fresh(3) [OF assms(3) False]
    by (auto simp: row_ok_def same_frame_def)
qed

lemma serials_positive_later:
  assumes "store_ok d" "fresh_serial d room s d'" "0 < s" "db_serials d' r = Some n"
  shows "0 < n"
  using assms store_okD(5) [OF assms(1)]
  by (auto simp: fresh_serial_def split: if_splits)

lemma store_ok_added:
  assumes ok: "store_ok d" and add: "row_added m d d'" and pos: "0 < mr_serial m"
    and cls: "is_plain m \<or> is_reaction m" "mr_deleted m \<longleftrightarrow> mr_type m = MSG_TYPE_DELETE"
    and tgt: "is_reaction m \<Longrightarrow>
      \<exists>x \<in> set (db_messages d). mr_target m = Some (mr_id x) \<and> mr_room x = mr_room m"
  shows "store_ok d'"
proof -
  have fr: "same_frame d d'" "fresh_serial d (mr_room m) (mr_serial m) d'"
    and new: "mr_id m \<notin> mr_id ` set (db_messages d)" "mr_room m \<in> set (db_rooms d)"
    and ms: "db_messages d' = db_messages d @ [m]"
    using add by (auto simp: row_added_def)
  have "row_ok d' m"
    using fr new pos cls next_of_fresh(1) [OF fr(2)] by (auto simp: row_ok_def same_frame_def)
  moreover have "row_ok d' x" if "x \<in> set (db_messages d)" for x
    using row_ok_later [OF store_okD(2) [OF ok that] fr] .
  moreover have "reaction_target_ok d' x" if "x \<in> set (db_messages d)" for x
    using store_okD(3) [OF ok that] by (auto simp: reaction_target_ok_def ms)
  moreover have "reaction_target_ok d' m" using tgt by (auto simp: reaction_target_ok_def ms)
  moreover have "pair_ok x m \<and> pair_ok m x" if x: "x \<in> set (db_messages d)" for x
  proof -
    have "mr_serial x < mr_serial m" if "mr_room x = mr_room m"
      using fresh_above [OF fr(2) store_okD(2) [OF ok x]] that by simp
    moreover have "\<not> is_marker m" using cls(1) row_classes by blast
    ultimately show ?thesis by (auto simp: pair_ok_def)
  qed
  moreover have "pair_ok m m" by (simp add: pair_ok_def)
  ultimately show ?thesis
    using ok new serials_positive_later [OF ok fr(2) pos]
    by (auto simp: store_ok_def ms)
qed

text \<open>A rewrite keeps what identifies the row and does not make or unmake an event record.\<close>

definition plain_rewrite :: "(message_row \<Rightarrow> message_row) \<Rightarrow> message_row \<Rightarrow> bool" where
  "plain_rewrite f m \<longleftrightarrow>
     mr_id (f m) = mr_id m \<and> mr_room (f m) = mr_room m \<and> mr_sender (f m) = mr_sender m
     \<and> is_plain m \<and> is_plain (f m) \<and> (mr_deleted (f m) \<longleftrightarrow> mr_type (f m) = MSG_TYPE_DELETE)
     \<and> (mr_deleted m \<longrightarrow> mr_deleted (f m)) \<and> 0 < mr_serial (f m)"

lemma row_changed_rows:
  assumes ok: "store_ok d" and ch: "row_changed f m d d'"
  shows "x \<in> set (db_messages d') \<longleftrightarrow> x = f m \<or> x \<in> set (db_messages d) \<and> mr_id x \<noteq> mr_id m"
proof -
  have m: "m \<in> set (db_messages d)"
    and ms: "db_messages d' = map (\<lambda>x. if mr_id x = mr_id m then f x else x) (db_messages d)"
    using ch by (auto simp: row_changed_def)
  have same: "y = m" if "y \<in> set (db_messages d)" "mr_id y = mr_id m" for y
    using row_of_id [OF store_okD(1) [OF ok] that(1) m that(2)] .
  show ?thesis
  proof
    assume "x \<in> set (db_messages d')"
    then obtain y where "y \<in> set (db_messages d)" "x = (if mr_id y = mr_id m then f y else y)"
      by (auto simp: ms)
    then show "x = f m \<or> x \<in> set (db_messages d) \<and> mr_id x \<noteq> mr_id m"
      using same by (cases "mr_id y = mr_id m") auto
  next
    assume "x = f m \<or> x \<in> set (db_messages d) \<and> mr_id x \<noteq> mr_id m"
    then show "x \<in> set (db_messages d')"
      using m by (auto simp: ms image_iff)
  qed
qed

lemma store_ok_changed:
  assumes ok: "store_ok d" and ch: "row_changed f m d d'" and pl: "plain_rewrite f m"
  shows "store_ok d'"
proof -
  have fr: "same_frame d d'" "fresh_serial d (mr_room m) (mr_serial (f m)) d'"
    and m: "m \<in> set (db_messages d)"
    and ms: "db_messages d' = map (\<lambda>x. if mr_id x = mr_id m then f x else x) (db_messages d)"
    using ch by (auto simp: row_changed_def)
  note rows = row_changed_rows [OF ok ch]
  have same: "y = m" if "y \<in> set (db_messages d)" "mr_id y = mr_id m" for y
    using row_of_id [OF store_okD(1) [OF ok] that(1) m that(2)] .
  have "map mr_id (db_messages d') = map mr_id (db_messages d)"
    unfolding ms using pl same by (auto simp: plain_rewrite_def)
  then have "distinct (map mr_id (db_messages d'))" using store_okD(1) [OF ok] by simp
  moreover have "row_ok d' (f m)"
    using pl store_okD(2) [OF ok m] next_of_fresh(1) [OF fr(2)] fr(1)
    by (auto simp: plain_rewrite_def row_ok_def same_frame_def)
  moreover have "row_ok d' x" if "x \<in> set (db_messages d)" for x
    using row_ok_later [OF store_okD(2) [OF ok that] fr] .
  moreover have "reaction_target_ok d' (f m)"
    using pl row_classes by (auto simp: plain_rewrite_def reaction_target_ok_def)
  moreover have "reaction_target_ok d' x" if x: "x \<in> set (db_messages d)" for x
  proof (cases "is_reaction x")
    case True
    then obtain t where t: "t \<in> set (db_messages d)" "mr_target x = Some (mr_id t)"
      "mr_room t = mr_room x" using store_okD(3) [OF ok x] by (auto simp: reaction_target_ok_def)
    show ?thesis
    proof (cases "mr_id t = mr_id m")
      case True
      then have "t = m" using same t(1) by simp
      moreover have "f m \<in> set (db_messages d')" using rows by blast
      ultimately show ?thesis
        using t pl by (auto simp: reaction_target_ok_def plain_rewrite_def intro!: bexI [of _ "f m"])
    next
      case False then show ?thesis using t rows by (auto simp: reaction_target_ok_def)
    qed
  qed (simp add: reaction_target_ok_def)
  moreover have "pair_ok x (f m) \<and> pair_ok (f m) x" if x: "x \<in> set (db_messages d)" for x
  proof -
    have "mr_serial x < mr_serial (f m)" if "mr_room x = mr_room m"
      using fresh_above [OF fr(2) store_okD(2) [OF ok x]] that by simp
    moreover have "\<not> is_marker (f m)" "mr_room (f m) = mr_room m"
      using pl row_classes by (auto simp: plain_rewrite_def)
    ultimately show ?thesis by (auto simp: pair_ok_def)
  qed
  moreover have "pair_ok (f m) (f m)" by (simp add: pair_ok_def)
  moreover have "0 < n" if "db_serials d' r = Some n" for r n
    using serials_positive_later [OF ok fr(2) _ that] pl by (simp add: plain_rewrite_def)
  ultimately show ?thesis using store_okD(4) [OF ok] rows by (auto simp: store_ok_def)
qed

lemma store_ok_purged:
  assumes ok: "store_ok d" and pu: "room_purged k d d'" and k: "is_marker k" "\<not> mr_deleted k"
    "0 < mr_serial k"
  shows "store_ok d'"
proof -
  have fr: "same_frame d d'" "fresh_serial d (mr_room k) (mr_serial k) d'"
    and new: "mr_id k \<notin> mr_id ` {x \<in> set (db_messages d). mr_room x \<noteq> mr_room k}"
      "mr_room k \<in> set (db_rooms d)"
    and ms: "db_messages d' = [x \<leftarrow> db_messages d. mr_room x \<noteq> mr_room k] @ [k]"
    using pu by (auto simp: room_purged_def)
  have "row_ok d' k"
    using fr new k next_of_fresh(1) [OF fr(2)]
    by (auto simp: row_ok_def same_frame_def row_class_defs)
  moreover have "row_ok d' x" if "x \<in> set (db_messages d)" for x
    using row_ok_later [OF store_okD(2) [OF ok that] fr] .
  moreover have "reaction_target_ok d' k" using k row_classes by (auto simp: reaction_target_ok_def)
  moreover have "reaction_target_ok d' x" if "x \<in> set (db_messages d)" "mr_room x \<noteq> mr_room k" for x
    using store_okD(3) [OF ok that(1)] that(2) by (auto simp: reaction_target_ok_def ms)
  moreover have "pair_ok x k \<and> pair_ok k x" if "mr_room x \<noteq> mr_room k" for x
    using that by (auto simp: pair_ok_def)
  moreover have "pair_ok k k" by (simp add: pair_ok_def)
  moreover have "distinct (map mr_id (db_messages d'))"
    using store_okD(1) [OF ok] new by (auto simp: ms distinct_map_filter)
  ultimately show ?thesis
    using store_okD(4) [OF ok] serials_positive_later [OF ok fr(2) k(3)]
    by (auto simp: store_ok_def ms)
qed

text \<open>A serial drawn for nothing, by deleting a message that is already gone.\<close>

definition serial_burnt :: "string \<Rightarrow> int \<Rightarrow> db \<Rightarrow> db \<Rightarrow> bool" where
  "serial_burnt room s d d' \<longleftrightarrow>
     same_frame d d' \<and> fresh_serial d room s d' \<and> db_messages d' = db_messages d"

lemma store_ok_burnt:
  assumes ok: "store_ok d" and b: "serial_burnt room s d d'" "0 < s" shows "store_ok d'"
proof -
  have fr: "same_frame d d'" "fresh_serial d room s d'" and ms: "db_messages d' = db_messages d"
    using b by (auto simp: serial_burnt_def)
  then show ?thesis
    using ok row_ok_later [OF _ fr] store_okD [OF ok] serials_positive_later [OF ok fr(2) b(2)]
    by (auto simp: store_ok_def reaction_target_ok_def)
qed

section \<open>Steps of the store\<close>

text \<open>One successful operation.  The routes check the room and the caller first; what the steps keep
of those checks is what the tables depend on: a reaction names a message of its room, and an edit, a
deletion or a publication is aimed at a message, not at a reaction event or a purge marker.  The
routes do not check the latter: see the theorems at the end.  The clock shows a time after 1970.\<close>

inductive store_step :: "string \<Rightarrow> db \<Rightarrow> db \<Rightarrow> bool" for v where
  st_create: "create_message iso_ms clk new d = Inr (m, d') \<Longrightarrow> 0 < clk 1 \<Longrightarrow> store_step v d d'"
| st_react: "create_emoticon_event iso_ms sha clk mid room sender target code add d = Inr (m, d') \<Longrightarrow>
    0 < clk 1 \<Longrightarrow> \<exists>x \<in> set (db_messages d). mr_id x = target \<and> mr_room x = room \<Longrightarrow> store_step v d d'"
| st_edit: "update_message iso_ms clk mid room e mentions media d = Inr (res, d') \<Longrightarrow> 0 < clk 1 \<Longrightarrow>
    \<forall>x \<in> set (db_messages d). mr_id x = mid \<longrightarrow> mr_room x = room \<and> is_plain x \<Longrightarrow> store_step v d d'"
| st_delete: "soft_delete_message clk mid room d = Inr (del, d') \<Longrightarrow> 0 < clk 0 \<Longrightarrow>
    \<forall>x \<in> set (db_messages d). mr_id x = mid \<longrightarrow> is_plain x \<Longrightarrow> store_step v d d'"
| st_publish: "publish_tx_hash iso_ms clk mid room tx d = Inr (res, d') \<Longrightarrow> 0 < clk 0 \<Longrightarrow>
    \<forall>x \<in> set (db_messages d). mr_id x = mid \<longrightarrow> mr_room x = room \<and> is_plain x \<Longrightarrow> store_step v d d'"
| st_purge: "delete_all_messages iso_ms clk room caller mid d = Inr (n, m, d') \<Longrightarrow> 0 < clk 1 \<Longrightarrow>
    (v, caller) \<notin> set (db_blocked d) \<Longrightarrow> store_step v d d'"
| st_profile: "store_step v d (d\<lparr>db_users := users\<rparr>)"
| st_read: "mark_read room address serial now d = Inr (n, d') \<Longrightarrow> store_step v d d'"

text \<open>Every step is one of five changes to what readers see.\<close>

datatype change =
  Added message_row | Changed "message_row \<Rightarrow> message_row" message_row | Purged message_row
  | Burnt string int | Unseen

fun changes :: "string \<Rightarrow> change \<Rightarrow> db \<Rightarrow> db \<Rightarrow> bool" where
  "changes v (Added m) d d' \<longleftrightarrow>
     row_added m d d' \<and> 0 < mr_serial m \<and> (is_plain m \<or> is_reaction m)
     \<and> (mr_deleted m \<longleftrightarrow> mr_type m = MSG_TYPE_DELETE)
     \<and> (is_reaction m \<longrightarrow>
          (\<exists>x \<in> set (db_messages d). mr_target m = Some (mr_id x) \<and> mr_room x = mr_room m))"
| "changes v (Changed f m) d d' \<longleftrightarrow> row_changed f m d d' \<and> plain_rewrite f m"
| "changes v (Purged k) d d' \<longleftrightarrow>
     room_purged k d d' \<and> is_marker k \<and> \<not> mr_deleted k \<and> 0 < mr_serial k
     \<and> (v, mr_sender k) \<notin> set (db_blocked d)"
| "changes v (Burnt room s) d d' \<longleftrightarrow> serial_burnt room s d d' \<and> 0 < s"
| "changes v Unseen d d' \<longleftrightarrow>
     same_frame d d' \<and> db_messages d' = db_messages d \<and> db_serials d' = db_serials d"

lemma changes_store_ok:
  assumes "store_ok d" "changes v c d d'" shows "store_ok d'"
proof (cases c)
  case (Added m)
  then show ?thesis using assms by (auto intro!: store_ok_added [OF assms(1), of m])
next
  case (Changed f m) then show ?thesis using assms store_ok_changed by auto
next
  case (Purged k) then show ?thesis using assms store_ok_purged by auto
next
  case (Burnt room s) then show ?thesis using assms store_ok_burnt by auto
next
  case Unseen
  then show ?thesis using assms(2) store_okD [OF assms(1)]
    by (auto simp: store_ok_def row_ok_def reaction_target_ok_def same_frame_def next_of_def)
qed

lemma step_changes:
  assumes "store_step v d d'" "store_ok d" obtains c where "changes v c d d'"
  using assms
proof (induction rule: store_step.induct)
  case (st_create iso_ms clk new d m d')
  then obtain s where s: "clk 1 \<le> s" "row_added (created_row (clk 0) s new) d d'"
    using create_message_added by metis
  have "changes v (Added (created_row (clk 0) s new)) d d'"
    using s st_create(2) by (simp add: created_row_def row_class_defs)
  then show ?case using st_create(3) by blast
next
  case (st_react iso_ms sha clk mid room sender target code add d m d')
  then obtain s where s: "clk 1 \<le> s"
    "row_added (emoticon_row sha (clk 0) s mid room sender target code add) d d'"
    using create_emoticon_added by metis
  have "changes v (Added (emoticon_row sha (clk 0) s mid room sender target code add)) d d'"
    using s st_react(2,3) by (auto simp: emoticon_row_def row_class_defs)
  then show ?case using st_react(4) by blast
next
  case (st_edit iso_ms clk mid room e mentions media d res d')
  note dist = store_okD(1) [OF st_edit(5)]
  show ?case
  proof (rule update_message_changed [OF st_edit(1) dist])
    assume "d' = d" then show ?thesis
      using st_edit(4) [of Unseen] by (simp add: same_frame_def)
  next
    fix s m d4 assume m: "clk 1 \<le> s" "m \<in> set (db_messages d)" "mr_id m = mid" "\<not> mr_deleted m"
      "mr_room m = room \<Longrightarrow> row_changed (edited_row (clk 0) s e) m d d'"
    then have "mr_room m = room" "is_plain m" using st_edit(3) by auto
    then have "changes v (Changed (edited_row (clk 0) s e) m) d d'"
      using m st_edit(2) by (simp add: plain_rewrite_def edited_row_def Let_def row_class_defs)
    then show ?thesis using st_edit(4) by blast
  qed
next
  case (st_delete clk mid room d del d')
  note dist = store_okD(1) [OF st_delete(5)]
  show ?case
  proof (rule soft_delete_changed [OF st_delete(1) dist])
    fix s assume "d' = d\<lparr>db_serials := (db_serials d)(room \<mapsto> s + 1)\<rparr>"
      "\<forall>n. db_serials d room = Some n \<longrightarrow> n \<le> s" "clk 0 \<le> s"
    then have "changes v (Burnt room s) d d'"
      using st_delete(2) by (simp add: serial_burnt_def change_defs)
    then show ?thesis using st_delete(4) by blast
  next
    fix s m assume m: "clk 0 \<le> s" "mr_id m = mid" "mr_room m = room" "\<not> mr_deleted m"
      "row_changed (tombstone s) m d d'"
    then have "is_plain m" using st_delete(3) by (auto simp: row_changed_def)
    then have "changes v (Changed (tombstone s) m) d d'"
      using m st_delete(2) by (simp add: plain_rewrite_def tombstone_def row_class_defs)
    then show ?thesis using st_delete(4) by blast
  qed
next
  case (st_publish iso_ms clk mid room tx d res d')
  note dist = store_okD(1) [OF st_publish(5)]
  show ?case
  proof (rule publish_changed [OF st_publish(1) dist])
    assume "d' = d" then show ?thesis
      using st_publish(4) [of Unseen] by (simp add: same_frame_def)
  next
    let ?f = "\<lambda>s m. m\<lparr>mr_tx_hash := Some tx, mr_serial := s\<rparr>"
    fix s m assume m: "clk 0 \<le> s" "m \<in> set (db_messages d)" "mr_id m = mid"
      "mr_room m = room \<Longrightarrow> row_changed (?f s) m d d'"
    then have "mr_room m = room" "is_plain m" using st_publish(3) by auto
    then have "changes v (Changed (?f s) m) d d'"
      using m st_publish(2) store_okD(2) [OF st_publish(5), of m]
      by (simp add: plain_rewrite_def row_ok_def is_plain_def)
    then show ?thesis using st_publish(4) by blast
  qed
next
  case (st_purge iso_ms clk room caller mid d n m d')
  then obtain s where s: "clk 1 \<le> s" "room_purged (marker_row (clk 0) s mid room caller) d d'"
    using delete_all_purged by metis
  have "changes v (Purged (marker_row (clk 0) s mid room caller)) d d'"
    using s st_purge(2,3) by (simp add: marker_row_def row_class_defs)
  then show ?case using st_purge(4) by blast
next
  case (st_profile d users)
  then have "changes v Unseen d (d\<lparr>db_users := users\<rparr>)" by (simp add: same_frame_def)
  then show ?case using st_profile(1) by blast
next
  case (st_read room address serial now d n d')
  then have "changes v Unseen d d'"
    by (auto simp: mark_read_def Let_def same_frame_def split: if_splits)
  then show ?case using st_read(2) by blast
qed

end
