(* ===== verification/Search_Index.thy ===== *)
theory Search_Index imports Message_Spec begin

text \<open>The search index against the messages it is built from (src/app/server/src/search/store.rs,
called from db/messages.rs).\<close>

section \<open>The documents of messages\<close>

definition message_docs :: "db \<Rightarrow> search_doc set" where
  "message_docs d = {x \<in> set (db_docs d). sd_kind x = KIND_MESSAGE}"

text \<open>The reference: the documents that the readable messages should have.\<close>

definition doc_of :: "message_row \<Rightarrow> search_doc" where
  "doc_of m = \<lparr>sd_kind = KIND_MESSAGE, sd_ref = mr_id m, sd_room = Some (mr_room m),
               sd_sender = Some (mr_sender m), sd_ts = mr_timestamp m, sd_text = mr_content m\<rparr>"

definition readable :: "message_row \<Rightarrow> bool" where
  "readable m \<longleftrightarrow> \<not> mr_encrypted m \<and> trim (mr_content m) \<noteq> []"

definition readable_docs :: "db \<Rightarrow> search_doc set" where
  "readable_docs d = doc_of ` {m \<in> set (db_messages d). readable m}"

lemma docs_upsert:
  "message_docs (upsert_doc KIND_MESSAGE i ro se t b d)
     = insert \<lparr>sd_kind = KIND_MESSAGE, sd_ref = i, sd_room = ro, sd_sender = se, sd_ts = t, sd_text = b\<rparr>
         {x \<in> message_docs d. sd_ref x \<noteq> i}"
  by (auto simp: message_docs_def upsert_doc_def Let_def image_iff)

lemma docs_unindex: "message_docs (unindex KIND_MESSAGE i d) = {x \<in> message_docs d. sd_ref x \<noteq> i}"
  by (auto simp: message_docs_def unindex_def)

lemma docs_unindex_room:
  "message_docs (unindex_room_messages r d) = {x \<in> message_docs d. sd_room x \<noteq> Some r}"
  by (auto simp: message_docs_def unindex_room_messages_def)

lemma docs_frame [simp]:
  "message_docs (mentions_record i r s n as d) = message_docs d"
  "message_docs (mentions_forget i d) = message_docs d"
  "message_docs (mentions_replace i r s n as d) = message_docs d"
  "message_docs (media_record i r n as d) = message_docs d"
  "message_docs (media_forget i d) = message_docs d"
  "message_docs (media_replace i r n as d) = message_docs d"
  "message_docs (delete_room_messages r d) = message_docs d"
  "message_docs (d\<lparr>db_messages := ms\<rparr>) = message_docs d"
  "message_docs (d\<lparr>db_serials := ss\<rparr>) = message_docs d"
  "message_docs (d\<lparr>db_reads := rd\<rparr>) = message_docs d"
  "message_docs (d\<lparr>db_users := us\<rparr>) = message_docs d"
  by (simp_all add: message_docs_def mentions_record_def mentions_forget_def mentions_replace_def
      media_record_def media_forget_def media_replace_def delete_room_messages_def Let_def)

lemma docs_next_serial: "next_serial r n d = Inr (s, d') \<Longrightarrow> message_docs d' = message_docs d"
  using next_serial_Inr(5) [of r n d s d'] by simp

lemma trim_blank [simp]: "readable (m\<lparr>mr_content := []\<rparr>) = False"
  by (simp add: readable_def)

section \<open>The index follows the messages\<close>

definition index_exact :: "db \<Rightarrow> bool" where
  "index_exact d \<longleftrightarrow> message_docs d = readable_docs d"

lemma docs_index_row:
  assumes "mr_type m = MSG_TYPE_ADD"
  shows "message_docs (index_message (from_joined_row iso_ms now d0 m) d)
    = (if readable m then insert (doc_of m) {x \<in> message_docs d. sd_ref x \<noteq> mr_id m} else message_docs d)"
  using assms by (auto simp: index_message_def readable_def docs_upsert doc_of_def)

lemma docs_reindex_row:
  "message_docs (reindex_message (mr_id m) (mr_room m) (mr_sender m) (mr_timestamp m) (mr_content m)
      (mr_encrypted m) d)
    = (if readable m then {doc_of m} else {}) \<union> {x \<in> message_docs d. sd_ref x \<noteq> mr_id m}"
  by (auto simp: reindex_message_def readable_def docs_upsert docs_unindex doc_of_def)

lemma doc_of_ref [simp]: "sd_ref (doc_of m) = mr_id m" "sd_room (doc_of m) = Some (mr_room m)"
  by (simp_all add: doc_of_def)

lemma docs_of_map:
  assumes "\<And>x. doc_of (f x) = doc_of x" "\<And>x. readable (f x) = readable x"
  shows "doc_of ` {y \<in> (\<lambda>x. if P x then f x else x) ` S. readable y} = doc_of ` {x \<in> S. readable x}"
proof -
  let ?g = "\<lambda>x. if P x then f x else x"
  have "{y \<in> ?g ` S. readable y} = ?g ` {x \<in> S. readable x}" using assms(2) by auto
  then have "doc_of ` {y \<in> ?g ` S. readable y} = (\<lambda>x. doc_of (?g x)) ` {x \<in> S. readable x}"
    by (simp only: image_image)
  also have "\<dots> = doc_of ` {x \<in> S. readable x}" using assms(1) by (intro image_cong) auto
  finally show ?thesis .
qed

text \<open>Rewriting one row changes the reference documents of that id only.\<close>

lemma readable_docs_changed:
  assumes "store_ok d" "row_changed f m d d'" "mr_id (f m) = mr_id m"
  shows "readable_docs d' = (if readable (f m) then {doc_of (f m)} else {})
    \<union> {x \<in> readable_docs d. sd_ref x \<noteq> mr_id m}"
  using row_changed_rows [OF assms(1,2)] assms(3) by (auto simp: readable_docs_def)

lemma index_create:
  assumes ok: "store_ok d" and ix: "index_exact d"
    and op: "create_message iso_ms clk new d = Inr (m, d')"
  shows "index_exact d'"
proof -
  obtain s d1 d2 where
    s: "next_serial (nm_room new) (clk 1) d = Inr (s, d1)"
    and ins: "insert_message (created_row (clk 0) s new) d1 = Inr d2"
    using op by (auto simp: create_message_def try_bind_Inr_iff)
  let ?row = "created_row (clk 0) s new"
  let ?d4 = "media_record (nm_id new) (nm_room new) (clk 3) (nm_media new)
               (mentions_record (nm_id new) (nm_room new) s (clk 2) (nm_mentions new) d2)"
  note ns = next_serial_Inr [OF s] and im = insert_message_Inr [OF ins]
  have ms: "db_messages d2 = db_messages d @ [?row]" using ns(5) im(3) by simp
  have new: "mr_id ?row \<notin> mr_id ` set (db_messages d)" using im(1) ns(5) by simp
  have "distinct (map mr_id (db_messages ?d4))"
    using store_okD(1) [OF ok] new by (simp add: ms)
  from read_row [OF this, of ?row] have
    rd: "read_message iso_ms (clk 4) (nm_id new) True ?d4 = Some (from_joined_row iso_ms (clk 4) ?d4 ?row)"
    by (simp add: ms) (simp add: created_row_def)
  have d': "d' = index_message (from_joined_row iso_ms (clk 4) ?d4 ?row) ?d4"
    using op s ins rd by (auto simp: create_message_def Let_def)
  have docs4: "message_docs d2 = message_docs d" using docs_next_serial [OF s] im(3) by simp
  have none: "sd_ref x \<noteq> mr_id ?row" if x: "x \<in> message_docs d" for x
  proof -
    obtain y where "y \<in> set (db_messages d)" "x = doc_of y"
      using x ix by (auto simp: index_exact_def readable_docs_def)
    then show ?thesis using new by (metis doc_of_ref(1) imageI)
  qed
  have "mr_type ?row = MSG_TYPE_ADD" by (simp add: created_row_def)
  then have "message_docs d' = (if readable ?row then insert (doc_of ?row) (message_docs d) else message_docs d)"
    using none by (auto simp: d' docs_index_row docs4)
  moreover have "readable_docs d' = (if readable ?row then insert (doc_of ?row) (readable_docs d)
      else readable_docs d)"
    by (auto simp: readable_docs_def d' ms)
  ultimately show ?thesis using ix by (simp add: index_exact_def)
qed

lemma index_react:
  assumes ix: "index_exact d"
    and op: "create_emoticon_event iso_ms sha clk mid room sender target code add d = Inr (m, d')"
  shows "index_exact d'"
proof -
  obtain s d1 where
    s: "next_serial room (clk 1) d = Inr (s, d1)"
    and ins: "insert_message (emoticon_row sha (clk 0) s mid room sender target code add) d1 = Inr d'"
    using op by (auto simp: create_emoticon_event_def try_bind_Inr_iff split: option.splits)
  have "\<not> readable (emoticon_row sha (clk 0) s mid room sender target code add)"
    by (simp add: readable_def emoticon_row_def)
  then show ?thesis
    using ix next_serial_Inr(5) [OF s] insert_message_Inr(3) [OF ins]
    by (auto simp: index_exact_def readable_docs_def)
qed

lemma index_edit:
  assumes ok: "store_ok d" and ix: "index_exact d"
    and op: "update_message iso_ms clk mid room e mentions media d = Inr (res, d')"
    and plain: "\<forall>x \<in> set (db_messages d). mr_id x = mid \<longrightarrow> mr_room x = room \<and> is_plain x"
  shows "index_exact d'"
proof (rule update_message_changed [OF op store_okD(1) [OF ok]])
  assume "d' = d" then show ?thesis using ix by simp
next
  fix s m d4
  let ?m = "edited_row (clk 0) s e m"
  assume m: "m \<in> set (db_messages d)" "mr_id m = mid"
    and ch0: "mr_room m = room \<Longrightarrow> row_changed (edited_row (clk 0) s e) m d d'"
    and docs: "db_docs d4 = db_docs d"
    and d': "d' = (let m' = ?m in reindex_message mid room (mr_sender m') (mr_timestamp m')
                  (mr_content m') (mr_encrypted m') d4)"
  have room: "mr_room m = room" using plain m by auto
  have fm: "mr_id ?m = mid" "mr_room ?m = room" using m room by (simp_all add: edited_row_def Let_def)
  have "message_docs d4 = message_docs d" using docs by (simp add: message_docs_def)
  moreover have "message_docs d' = (if readable ?m then {doc_of ?m} else {})
      \<union> {x \<in> message_docs d4. sd_ref x \<noteq> mid}"
    using docs_reindex_row [of ?m d4] by (simp add: d' fm Let_def)
  moreover have "readable_docs d' = (if readable ?m then {doc_of ?m} else {})
      \<union> {x \<in> readable_docs d. sd_ref x \<noteq> mid}"
    using readable_docs_changed [OF ok ch0 [OF room]] fm m by simp
  ultimately show ?thesis using ix by (simp add: index_exact_def)
qed

lemma index_delete:
  assumes ok: "store_ok d" and ix: "index_exact d" and op: "soft_delete_message clk mid room d = Inr (res, d')"
  shows "index_exact d'"
proof (rule soft_delete_changed [OF op store_okD(1) [OF ok]])
  fix s assume "d' = d\<lparr>db_serials := (db_serials d)(room \<mapsto> s + 1)\<rparr>"
  then show ?thesis using ix by (simp add: index_exact_def readable_docs_def)
next
  fix s m assume m: "mr_id m = mid" and ch: "row_changed (tombstone s) m d d'"
    and docs: "db_docs d' = db_docs (unindex KIND_MESSAGE mid d)"
  have "message_docs d' = {x \<in> message_docs d. sd_ref x \<noteq> mid}"
    using docs docs_unindex [of mid d] by (simp add: message_docs_def)
  moreover have "readable_docs d' = {x \<in> readable_docs d. sd_ref x \<noteq> mid}"
    using readable_docs_changed [OF ok ch] m by (simp add: tombstone_def readable_def)
  ultimately show ?thesis using ix by (simp add: index_exact_def)
qed

lemma index_publish:
  assumes ok: "store_ok d" and ix: "index_exact d"
    and op: "publish_tx_hash iso_ms clk mid room tx d = Inr (res, d')"
    and plain: "\<forall>x \<in> set (db_messages d). mr_id x = mid \<longrightarrow> mr_room x = room \<and> is_plain x"
  shows "index_exact d'"
proof (rule publish_changed [OF op store_okD(1) [OF ok]])
  assume "d' = d" then show ?thesis using ix by simp
next
  let ?f = "\<lambda>s m. m\<lparr>mr_tx_hash := Some tx, mr_serial := s\<rparr>"
  fix s m assume m: "m \<in> set (db_messages d)" "mr_id m = mid" and docs: "db_docs d' = db_docs d"
    and ch: "mr_room m = room \<Longrightarrow> row_changed (?f s) m d d'"
  then have ch: "row_changed (?f s) m d d'" using plain by auto
  have same: "doc_of (?f s x) = doc_of x" "readable (?f s x) = readable x" for x
    by (simp_all add: doc_of_def readable_def)
  have "db_messages d' = map (\<lambda>x. if mr_id x = mr_id m then ?f s x else x) (db_messages d)"
    using ch by (simp add: row_changed_def)
  then have "readable_docs d' = readable_docs d"
    unfolding readable_docs_def using same by (simp only: docs_of_map set_map)
  then show ?thesis using ix docs by (simp add: index_exact_def message_docs_def)
qed

lemma index_purge:
  assumes ix: "index_exact d"
    and op: "delete_all_messages iso_ms clk room caller mid d = Inr (n, m, d')"
  shows "index_exact d'"
proof (rule delete_all_purged [OF op])
  fix s assume pu: "room_purged (marker_row (clk 0) s mid room caller) d d'"
    and docs: "db_docs d' = db_docs (unindex_room_messages room d)"
  have "message_docs d' = {x \<in> message_docs d. sd_room x \<noteq> Some room}"
    using docs docs_unindex_room [of room d] by (simp add: message_docs_def)
  moreover have "readable_docs d' = {x \<in> readable_docs d. sd_room x \<noteq> Some room}"
    using pu by (auto simp: room_purged_def readable_docs_def marker_row_def readable_def)
  ultimately show ?thesis using ix by (simp add: index_exact_def)
qed

inductive store_reach :: "string \<Rightarrow> db \<Rightarrow> bool" for v where
  sr_start: "db_messages d = [] \<Longrightarrow> db_serials d = Map.empty \<Longrightarrow> db_docs d = [] \<Longrightarrow> store_reach v d"
| sr_step: "store_reach v d \<Longrightarrow> store_step v d d' \<Longrightarrow> store_reach v d'"

lemma store_reach_ok: "store_reach v d \<Longrightarrow> store_ok d"
proof (induction rule: store_reach.induct)
  case (sr_start d) then show ?case by (simp add: store_ok_def)
next
  case (sr_step d d') then show ?case using step_changes changes_store_ok by metis
qed

lemma index_step:
  assumes "store_step v d d'" "store_ok d" "index_exact d" shows "index_exact d'"
  using assms
proof (induction rule: store_step.induct)
  case (st_create iso_ms clk new d m d') then show ?case using index_create by blast
next
  case (st_react iso_ms sha clk mid room sender target code add d m d')
  then show ?case using index_react by blast
next
  case (st_edit iso_ms clk mid room e mentions media d res d') then show ?case using index_edit by blast
next
  case (st_delete clk mid room d del d') then show ?case using index_delete by blast
next
  case (st_publish iso_ms clk mid room tx d res d') then show ?case using index_publish by blast
next
  case (st_purge iso_ms clk room caller mid d n m d') then show ?case using index_purge by blast
next
  case (st_profile d users) then show ?case by (simp add: index_exact_def readable_docs_def)
next
  case (st_read room address serial now d n d')
  then show ?case by (auto simp: mark_read_def Let_def index_exact_def readable_docs_def split: if_splits)
qed

text \<open>C15. The search index never remembers what the messages no longer say, and never learns what they
never said.  After any sequence of posts, reactions, edits, deletions, publications and purges, the
message documents of the index are exactly one document for each message that is stored as plaintext
with a text that is not blank, with that message's room, sender, timestamp and text: none for an
encrypted message, even one that an edit encrypted, and none for a deleted or purged one.\<close>

theorem search_index_exact:
  assumes "store_reach v d"
  shows "message_docs d = doc_of ` {m \<in> set (db_messages d). \<not> mr_encrypted m \<and> trim (mr_content m) \<noteq> []}"
proof -
  have "index_exact d"
    using assms
  proof (induction rule: store_reach.induct)
    case (sr_start d) then show ?case by (simp add: index_exact_def message_docs_def readable_docs_def)
  next
    case (sr_step d d') then show ?case using index_step store_reach_ok by blast
  qed
  then show ?thesis by (simp add: index_exact_def readable_docs_def readable_def)
qed

text \<open>An instance: a plaintext message, then an edit that encrypts it.\<close>

definition sample_new :: new_message where
  "sample_new = \<lparr>nm_id = ''m'', nm_room = ''r'', nm_sender = ''a'', nm_content = ''hi'', nm_hash = [],
     nm_encrypted = False, nm_iv = None, nm_hmac = None, nm_enc_ver = 1, nm_key_version = 1,
     nm_parent = None, nm_mentions = [], nm_media = []\<rparr>"

definition sample_db :: db where
  "sample_db = \<lparr>db_rooms = [''r''], db_users = Map.empty, db_messages = [], db_serials = Map.empty,
     db_mentions = [], db_media = [], db_docs = [], db_blocked = [], db_reads = (\<lambda>_. None)\<rparr>"

theorem search_index_exact_witness:
  "let d = snd (projr (create_message (\<lambda>_. []) (\<lambda>_. 5) sample_new sample_db))
   in message_docs d = doc_of ` {m \<in> set (db_messages d). \<not> mr_encrypted m \<and> trim (mr_content m) \<noteq> []}
      \<and> map sd_text (db_docs d) = [''hi'']"
proof -
  let ?x = "create_message (\<lambda>_. []) (\<lambda>_. 5) sample_new sample_db"
  have "case ?x of Inl _ \<Rightarrow> False | Inr _ \<Rightarrow> True" by code_simp
  then obtain m d where x: "?x = Inr (m, d)" by (auto split: sum.splits)
  have "store_reach ''v'' sample_db" by (rule sr_start) (simp_all add: sample_db_def)
  moreover have "store_step ''v'' sample_db d" using st_create [OF x] by simp
  ultimately have reach: "store_reach ''v'' (snd (projr ?x))" using sr_step by (simp add: x)
  have "map sd_text (db_docs (snd (projr ?x))) = [''hi'']" by code_simp
  then show ?thesis using search_index_exact [OF reach] by (simp only: Let_def simp_thms)
qed

end
