(* ===== verification/Room_Stream.thy ===== *)
theory Room_Stream imports Time_Format Message_Db "HOL-Library.AList" begin

text \<open>The client's message state for one room, src/app/web/src/store.rs, with the wire type it folds
(src/app/web/src/api/types.rs), the snapshot it is cached as (src/app/web/src/cache.rs) and the drain
loop that feeds it (src/app/web/src/actions.rs).  A HashMap is an association list with distinct keys;
no result of this theory depends on its order.  A BTreeMap is an association list sorted by key and a
BTreeSet a sorted list.\<close>

section \<open>The wire type\<close>

datatype msg_kind = Add | Edit | Delete | Delete_All | Emoticon_Add | Emoticon_Remove | Unknown

definition parse_kind :: "string \<Rightarrow> msg_kind" where
  "parse_kind s =
     (if s = ''add'' \<or> s = ''message'' then Add
      else if s = ''edit'' then Edit
      else if s = ''delete'' then Delete
      else if s = ''delete_all'' then Delete_All
      else if s = ''emoticon_add'' then Emoticon_Add
      else if s = ''emoticon_remove'' then Emoticon_Remove
      else Unknown)"

definition is_renderable :: "msg_kind \<Rightarrow> bool" where
  "is_renderable k \<longleftrightarrow> k = Add \<or> k = Edit"

record chat_message =
  cm_id :: string
  cm_room :: string
  cm_sender_address :: string
  cm_content :: string
  cm_hash :: string
  cm_timestamp :: int
  cm_type :: string
  cm_serial :: int
  cm_deleted :: bool
  cm_edited_at :: "string option"
  cm_created_at :: "string option"
  cm_encrypted :: bool
  cm_iv :: "string option"
  cm_hmac :: "string option"
  cm_enc_ver :: "int option"
  cm_key_version :: "int option"
  cm_tx_hash :: "string option"
  cm_target :: "string option"
  cm_code :: "string option"
  cm_parent :: "string option"
  cm_reply_count :: "int option"
  cm_last_reply_at :: "int option"
  cm_sender :: "user option"

text \<open>What the client holds after the server's Message has crossed the wire: the two structs name their
fields alike, and a field the server always sends is a Some on the client.\<close>

definition received :: "message \<Rightarrow> chat_message" where
  "received m =
     \<lparr>cm_id = sm_id m, cm_room = sm_room m, cm_sender_address = sm_sender_address m,
      cm_content = sm_content m, cm_hash = sm_hash m, cm_timestamp = sm_timestamp m,
      cm_type = sm_type m, cm_serial = sm_serial m, cm_deleted = sm_deleted m,
      cm_edited_at = sm_edited_at m, cm_created_at = Some (sm_created_at m),
      cm_encrypted = sm_encrypted m, cm_iv = sm_iv m, cm_hmac = sm_hmac m,
      cm_enc_ver = Some (sm_enc_ver m), cm_key_version = Some (sm_key_version m),
      cm_tx_hash = sm_tx_hash m, cm_target = sm_target m, cm_code = sm_code m,
      cm_parent = sm_parent m, cm_reply_count = sm_reply_count m,
      cm_last_reply_at = sm_last_reply_at m, cm_sender = sm_sender m\<rparr>"

definition message_kind :: "chat_message \<Rightarrow> msg_kind" where
  "message_kind m = parse_kind (cm_type m)"

definition enc_ver :: "chat_message \<Rightarrow> int" where
  "enc_ver m = (case cm_enc_ver m of Some v \<Rightarrow> v | None \<Rightarrow> 1)"

definition key_version :: "chat_message \<Rightarrow> int" where
  "key_version m = (case cm_key_version m of Some v \<Rightarrow> v | None \<Rightarrow> 1)"

text \<open>A slice of the first eight bytes, refused when byte eight continues a character.\<close>

definition hash_slug :: "chat_message \<Rightarrow> string" where
  "hash_slug m =
     (let h = cm_hash m
      in if 8 \<le> length h \<and> (length h = 8 \<or> of_char (h ! 8) div 64 \<noteq> (2::nat)) then take 8 h else h)"

definition is_edited :: "chat_message \<Rightarrow> bool" where
  "is_edited m \<longleftrightarrow> cm_edited_at m \<noteq> None"

definition has_crypto_metadata :: "chat_message \<Rightarrow> bool" where
  "has_crypto_metadata m \<longleftrightarrow>
     (case cm_iv m of None \<Rightarrow> False | Some v \<Rightarrow> v \<noteq> [])
     \<and> (case cm_hmac m of None \<Rightarrow> False | Some v \<Rightarrow> v \<noteq> [])"

section \<open>The state of a room\<close>

type_synonym reaction_map = "(string \<times> string list) list"

record room_state =
  rs_messages :: "(string \<times> chat_message) list"
  rs_reactions :: "(string \<times> reaction_map) list"
  rs_cursor :: int
  rs_loaded :: bool
  rs_has_more :: bool
  rs_last_read :: int

definition default_room :: room_state where
  "default_room = \<lparr>rs_messages = [], rs_reactions = [], rs_cursor = 0, rs_loaded = False,
                   rs_has_more = False, rs_last_read = 0\<rparr>"

record fold_outcome =
  fo_upserted :: "string list"
  fo_removed :: "string list"
  fo_purged :: bool
  fo_max_serial :: int

definition default_outcome :: fold_outcome where
  "default_outcome = \<lparr>fo_upserted = [], fo_removed = [], fo_purged = False, fo_max_serial = 0\<rparr>"

definition held :: "room_state \<Rightarrow> chat_message list" where
  "held st = map snd (rs_messages st)"

text \<open>BTreeMap: insert keeps the keys sorted.\<close>

definition bt_insert :: "'k::linorder \<Rightarrow> 'v \<Rightarrow> ('k \<times> 'v) list \<Rightarrow> ('k \<times> 'v) list" where
  "bt_insert k v m = insort_key fst (k, v) (AList.delete k m)"

definition lookup_or :: "'v \<Rightarrow> ('k \<times> 'v) list \<Rightarrow> 'k \<Rightarrow> 'v" where
  "lookup_or v m k = (case map_of m k of Some w \<Rightarrow> w | None \<Rightarrow> v)"

definition add_reaction ::
  "string \<Rightarrow> string \<Rightarrow> string \<Rightarrow> (string \<times> reaction_map) list \<Rightarrow> (string \<times> reaction_map) list" where
  "add_reaction target code sender rs =
     (let codes = lookup_or [] rs target; reactors = lookup_or [] codes code
      in AList.update target (bt_insert code (insort_insert sender reactors) codes) rs)"

definition remove_reaction ::
  "string \<Rightarrow> string \<Rightarrow> string \<Rightarrow> (string \<times> reaction_map) list \<Rightarrow> (string \<times> reaction_map) list" where
  "remove_reaction target code sender rs =
     (case map_of rs target of
        None \<Rightarrow> rs
      | Some codes \<Rightarrow>
          let codes = (case map_of codes code of
                         None \<Rightarrow> codes
                       | Some reactors \<Rightarrow>
                           let reactors = remove1 sender reactors
                           in if reactors = [] then AList.delete code codes
                              else bt_insert code reactors codes)
          in if codes = [] then AList.delete target rs else AList.update target codes rs)"

section \<open>The fold\<close>

definition fold_one :: "chat_message \<Rightarrow> room_state \<times> fold_outcome \<Rightarrow> room_state \<times> fold_outcome" where
  "fold_one event = (\<lambda>(st0, out0).
     let st = st0\<lparr>rs_cursor := max (rs_cursor st0) (cm_serial event)\<rparr>;
         out = out0\<lparr>fo_max_serial := max (fo_max_serial out0) (cm_serial event)\<rparr>
     in if message_kind event = Add \<or> message_kind event = Edit then
          (st\<lparr>rs_messages := AList.update (cm_id event) event (rs_messages st)\<rparr>,
           out\<lparr>fo_upserted := fo_upserted out @ [cm_id event]\<rparr>)
        else if message_kind event = Delete then
          (st\<lparr>rs_messages := AList.delete (cm_id event) (rs_messages st),
              rs_reactions := AList.delete (cm_id event) (rs_reactions st)\<rparr>,
           if map_of (rs_messages st) (cm_id event) \<noteq> None
           then out\<lparr>fo_removed := fo_removed out @ [cm_id event]\<rparr> else out)
        else if message_kind event = Delete_All then
          (st\<lparr>rs_messages := [], rs_reactions := [], rs_has_more := False\<rparr>,
           out\<lparr>fo_purged := True, fo_upserted := [], fo_removed := []\<rparr>)
        else if message_kind event = Emoticon_Add then
          (case (cm_target event, cm_code event) of
             (Some target, Some code) \<Rightarrow>
               (st\<lparr>rs_reactions := add_reaction target code (cm_sender_address event) (rs_reactions st)\<rparr>,
                out)
           | _ \<Rightarrow> (st, out))
        else if message_kind event = Emoticon_Remove then
          (case (cm_target event, cm_code event) of
             (Some target, Some code) \<Rightarrow>
               (st\<lparr>rs_reactions := remove_reaction target code (cm_sender_address event) (rs_reactions st)\<rparr>,
                out)
           | _ \<Rightarrow> (st, out))
        else (st, out))"

definition fold_page :: "chat_message list \<Rightarrow> room_state \<Rightarrow> room_state \<times> fold_outcome" where
  "fold_page events st = fold fold_one events (st, default_outcome)"

definition merge_one :: "chat_message \<Rightarrow> room_state \<Rightarrow> room_state" where
  "merge_one m st =
     (if is_renderable (message_kind m) \<and> \<not> cm_deleted m \<and> map_of (rs_messages st) (cm_id m) = None
      then st\<lparr>rs_messages := AList.update (cm_id m) m (rs_messages st)\<rparr> else st)"

definition merge_history :: "chat_message list \<Rightarrow> room_state \<Rightarrow> room_state" where
  "merge_history page st = fold merge_one page st"

section \<open>The cached snapshot\<close>

record cached_room =
  cr_rows :: "chat_message list"
  cr_reactions :: "(string \<times> (string \<times> string list) list) list"
  cr_has_more :: bool

definition MAX_ROWS :: nat where "MAX_ROWS = 200"

text \<open>order_key, and cap_rows: newest first for the cut, then back to stream order.\<close>

definition order_key :: "chat_message \<Rightarrow> int \<times> int" where
  "order_key m = (cm_timestamp m, cm_serial m)"

definition cap_rows :: "chat_message list \<Rightarrow> chat_message list" where
  "cap_rows rows = rev (take MAX_ROWS (sort_key (\<lambda>m. (- cm_timestamp m, - cm_serial m)) rows))"

definition to_cached :: "room_state \<Rightarrow> cached_room" where
  "to_cached st =
     (let rows = cap_rows (held st)
      in \<lparr>cr_rows = rows,
          cr_reactions = [(i, codes). (i, codes) \<leftarrow> rs_reactions st, i \<in> cm_id ` set rows],
          cr_has_more = rs_has_more st\<rparr>)"

definition hydrate_row :: "chat_message \<Rightarrow> room_state \<Rightarrow> room_state" where
  "hydrate_row m st =
     (let st = st\<lparr>rs_cursor := max (rs_cursor st) (cm_serial m)\<rparr>
      in if is_renderable (message_kind m) \<and> \<not> cm_deleted m
         then st\<lparr>rs_messages := AList.update (cm_id m) m (rs_messages st)\<rparr> else st)"

text \<open>The reactions of one cached message are added to what is held: extend inserts each reactor.\<close>

definition hydrate_code :: "string \<times> string list \<Rightarrow> reaction_map \<Rightarrow> reaction_map" where
  "hydrate_code = (\<lambda>(code, who) codes.
     bt_insert code (fold insort_insert who (lookup_or [] codes code)) codes)"

definition hydrate_reactions ::
  "string \<times> (string \<times> string list) list \<Rightarrow> (string \<times> reaction_map) list \<Rightarrow> (string \<times> reaction_map) list"
where
  "hydrate_reactions = (\<lambda>(i, codes) rs.
     AList.update i (fold hydrate_code codes (lookup_or [] rs i)) rs)"

definition from_cached :: "cached_room \<Rightarrow> int \<Rightarrow> room_state" where
  "from_cached cached persisted_cursor =
     (let st = fold hydrate_row (cr_rows cached)
                 (default_room\<lparr>rs_has_more := cr_has_more cached, rs_loaded := True\<rparr>);
          st = st\<lparr>rs_cursor := max (rs_cursor st) persisted_cursor\<rparr>
      in st\<lparr>rs_reactions := fold hydrate_reactions (cr_reactions cached) (rs_reactions st)\<rparr>)"

section \<open>Views\<close>

text \<open>BlockSet: everyone I blocked and everyone who blocked me.\<close>

type_synonym block_set = "string list"

definition from_pairs :: "string list \<Rightarrow> string list \<Rightarrow> block_set" where
  "from_pairs blocked blocked_by = remdups (blocked @ blocked_by)"

definition hides :: "block_set \<Rightarrow> string \<Rightarrow> bool" where
  "hides blocks who \<longleftrightarrow> who \<in> set blocks"

definition ordered :: "block_set \<Rightarrow> room_state \<Rightarrow> chat_message list" where
  "ordered blocks st =
     sort_key order_key [m \<leftarrow> held st. \<not> hides blocks (cm_sender_address m)]"

definition ordered_top_level :: "block_set \<Rightarrow> room_state \<Rightarrow> chat_message list" where
  "ordered_top_level blocks st =
     [m \<leftarrow> ordered blocks st. case cm_parent m of None \<Rightarrow> True
                               | Some parent \<Rightarrow> map_of (rs_messages st) parent = None]"

definition replies_to :: "string \<Rightarrow> block_set \<Rightarrow> room_state \<Rightarrow> chat_message list" where
  "replies_to root blocks st =
     sort_key order_key
       [m \<leftarrow> held st. cm_parent m = Some root \<and> (\<not> cm_deleted m \<and> is_renderable (message_kind m))
                        \<and> \<not> hides blocks (cm_sender_address m)]"

definition reply_count :: "chat_message \<Rightarrow> block_set \<Rightarrow> room_state \<Rightarrow> int" where
  "reply_count m blocks st =
     max (int (length (replies_to (cm_id m) blocks st)))
         (case cm_reply_count m of Some n \<Rightarrow> n | None \<Rightarrow> 0)"

definition oldest_timestamp :: "room_state \<Rightarrow> int option" where
  "oldest_timestamp st =
     (case map cm_timestamp (held st) of [] \<Rightarrow> None | t # ts \<Rightarrow> Some (fold min ts t))"

definition reactions_for :: "string \<Rightarrow> block_set \<Rightarrow> room_state \<Rightarrow> (string \<times> string list) list" where
  "reactions_for i blocks st =
     (case map_of (rs_reactions st) i of
        None \<Rightarrow> []
      | Some codes \<Rightarrow>
          [(code, visible). (code, senders) \<leftarrow> codes,
                            visible \<leftarrow> [[s \<leftarrow> senders. \<not> hides blocks s]], visible \<noteq> []])"

text \<open>The count is truncated to u32.\<close>

definition local_unread :: "string \<Rightarrow> block_set \<Rightarrow> room_state \<Rightarrow> nat" where
  "local_unread me blocks st =
     length [m \<leftarrow> held st. rs_last_read st < cm_serial m \<and> message_kind m = Add \<and> \<not> cm_deleted m
               \<and> cm_sender_address m \<noteq> me \<and> \<not> hides blocks (cm_sender_address m)] mod 2 ^ 32"

definition starts_new_group :: "chat_message option \<Rightarrow> chat_message \<Rightarrow> int \<Rightarrow> bool" where
  "starts_new_group prev cur tz =
     (case prev of
        None \<Rightarrow> True
      | Some p \<Rightarrow>
          if cm_sender_address p \<noteq> cm_sender_address cur then True
          else if 5 * 60000 < cm_timestamp cur - cm_timestamp p then True
          else cv_epoch_day (civil_from_ms (cm_timestamp p) tz)
                 \<noteq> cv_epoch_day (civil_from_ms (cm_timestamp cur) tz))"

definition starts_new_day :: "chat_message option \<Rightarrow> chat_message \<Rightarrow> int \<Rightarrow> bool" where
  "starts_new_day prev cur tz =
     (case prev of
        None \<Rightarrow> True
      | Some p \<Rightarrow> cv_epoch_day (civil_from_ms (cm_timestamp p) tz)
                    \<noteq> cv_epoch_day (civil_from_ms (cm_timestamp cur) tz))"

section \<open>The drain loop\<close>

definition next_sync_cursor :: "int \<Rightarrow> int \<Rightarrow> bool \<Rightarrow> nat \<Rightarrow> int option" where
  "next_sync_cursor current batch_max has_more batch_len =
     (if \<not> has_more \<or> batch_len = 0 then None else Some (max current batch_max))"

text \<open>The reducers of Action::Sync and Action::History on the stream of the room.\<close>

definition apply_sync :: "chat_message list \<Rightarrow> room_state \<Rightarrow> room_state" where
  "apply_sync events st = (fst (fold_page events st))\<lparr>rs_loaded := True\<rparr>"

definition apply_history :: "chat_message list \<Rightarrow> bool \<Rightarrow> room_state \<Rightarrow> room_state" where
  "apply_history page left st = (merge_history page st)\<lparr>rs_has_more := left, rs_loaded := True\<rparr>"

text \<open>The server's answers to the requests of one drain, by number of the request: a page and its
has-more flag, or None for a request that failed.\<close>

type_synonym answers = "nat \<Rightarrow> int \<Rightarrow> (chat_message list \<times> bool) option"

definition batch_max :: "chat_message list \<Rightarrow> int" where
  "batch_max events = (case map cm_serial events of [] \<Rightarrow> 0 | x # xs \<Rightarrow> fold max xs x)"

fun drain_loop :: "nat \<Rightarrow> nat \<Rightarrow> answers \<Rightarrow> int \<Rightarrow> room_state \<Rightarrow> room_state" where
  "drain_loop 0 i ask since st = st"
| "drain_loop (Suc n) i ask since st =
     (case ask i since of
        None \<Rightarrow> st
      | Some (events, left) \<Rightarrow>
          let st = apply_sync events st
          in case next_sync_cursor since (batch_max events) left (length events) of
               Some nxt \<Rightarrow> drain_loop n (Suc i) ask nxt st
             | None \<Rightarrow> st)"

definition drain_sync :: "answers \<Rightarrow> int \<Rightarrow> room_state \<Rightarrow> room_state" where
  "drain_sync ask from_cursor st = drain_loop 64 0 ask (max (rs_cursor st) from_cursor) st"

section \<open>Sorted maps of the client\<close>

lemma map_of_insort: "k \<notin> fst ` set m \<Longrightarrow> map_of (insort_key fst (k, v) m) = (map_of m)(k \<mapsto> v)"
  by (induction m) (auto simp: fun_eq_iff)

lemma map_of_bt_insert [simp]: "map_of (bt_insert k v m) = (map_of m)(k \<mapsto> v)"
proof -
  have "k \<notin> fst ` set (AList.delete k m)" by (auto simp: AList.delete_eq)
  then show ?thesis
    by (auto simp: bt_insert_def map_of_insort AList.delete_conv' fun_eq_iff)
qed

lemma lookup_or_upd:
  "lookup_or v (AList.update k w m) j = (if j = k then w else lookup_or v m j)"
  "lookup_or v (bt_insert i w m') i' = (if i' = i then w else lookup_or v m' i')"
  "lookup_or v (AList.delete k m) j = (if j = k then v else lookup_or v m j)"
  by (auto simp: lookup_or_def AList.update_conv' AList.delete_conv')

end
