(* ===== verification/Sync_Spec.thy ===== *)
theory Sync_Spec imports Message_Spec Room_Stream begin

text \<open>Client and server together: the store of the server (Message_Db) and the stream a client folds
from it (Room_Stream).  The result is that a client that drains /sync holds exactly the live messages
of the room that its viewer may see, and for each of them exactly the reactors the server would
report.\<close>

section \<open>Reactors\<close>

text \<open>The reactors the client holds for a message and a code.\<close>

definition reactors :: "(string \<times> reaction_map) list \<Rightarrow> string \<Rightarrow> string \<Rightarrow> string list" where
  "reactors rs target code = lookup_or [] (lookup_or [] rs target) code"

lemma reactors_add:
  "reactors (add_reaction target code sender rs) t c =
     (if t = target \<and> c = code then insort_insert sender (reactors rs t c) else reactors rs t c)"
  by (simp add: reactors_def add_reaction_def Let_def lookup_or_upd)

lemma reactors_remove:
  "reactors (remove_reaction target code sender rs) t c =
     (if t = target \<and> c = code then remove1 sender (reactors rs t c) else reactors rs t c)"
proof (cases "map_of rs target")
  case None
  then show ?thesis by (simp add: reactors_def remove_reaction_def lookup_or_def)
next
  case (Some codes)
  define codes' where "codes' = (case map_of codes code of None \<Rightarrow> codes
     | Some rc \<Rightarrow> if remove1 sender rc = [] then AList.delete code codes
                 else bt_insert code (remove1 sender rc) codes)"
  have look: "lookup_or [] codes' c = (if c = code then remove1 sender (lookup_or [] codes c)
                                      else lookup_or [] codes c)"
    by (auto simp: codes'_def lookup_or_upd split: option.split) (simp_all add: lookup_or_def)
  have rm: "remove_reaction target code sender rs
      = (if codes' = [] then AList.delete target rs else AList.update target codes' rs)"
    unfolding remove_reaction_def Some codes'_def option.case by (cases "map_of codes code") (simp_all add: Let_def)
  have base: "lookup_or [] rs target = codes" by (simp add: lookup_or_def Some)
  show ?thesis
  proof (cases "codes' = []")
    case True
    then have "lookup_or [] codes' c = []" by (simp add: lookup_or_def)
    then show ?thesis using look True by (auto simp: reactors_def rm lookup_or_upd base)
  next
    case False
    then show ?thesis using look by (auto simp: reactors_def rm lookup_or_upd base)
  qed
qed

lemma reactors_delete:
  "reactors (AList.delete i rs) t c = (if t = i then [] else reactors rs t c)"
  by (simp add: reactors_def lookup_or_upd) (simp add: lookup_or_def)

lemma reactors_Nil: "reactors [] t c = []"
  by (simp add: reactors_def lookup_or_def)

lemma distinct_insort_insert: "distinct xs \<Longrightarrow> distinct (insort_insert x xs)"
  by (simp add: insort_insert_key_def distinct_insort)

section \<open>Votes\<close>

text \<open>The reference for both folds: the set of reactors after a list of reaction rows.\<close>

definition vote :: "string \<Rightarrow> string \<Rightarrow> message_row \<Rightarrow> string set \<Rightarrow> string set" where
  "vote target code m S =
     (if mr_target m = Some target \<and> mr_code m = Some code then
        if mr_type m = MSG_TYPE_EMOTICON_ADD then insert (mr_sender m) S
        else if mr_type m = MSG_TYPE_EMOTICON_REMOVE then S - {mr_sender m} else S
      else S)"

lemma vote_reaction: "\<not> is_reaction m \<Longrightarrow> vote target code m S = S"
  by (auto simp: vote_def is_reaction_def)

lemma fold_vote_filter:
  "(\<And>m S. m \<in> set ms \<Longrightarrow> \<not> P m \<Longrightarrow> vote t c m S = S) \<Longrightarrow> fold (vote t c) (filter P ms) S = fold (vote t c) ms S"
  by (induction ms arbitrary: S) auto

text \<open>The server's aggregation computes the votes.\<close>

definition set_of :: "(string \<Rightarrow> string list option) \<Rightarrow> string \<Rightarrow> string list" where
  "set_of sets code = (case sets code of Some s \<Rightarrow> s | None \<Rightarrow> [])"

lemma aggregate_step_votes:
  assumes "mr_target m = Some t" "\<forall>c. distinct (set_of (snd acc) c)"
  shows "set (set_of (snd (aggregate_step m acc)) c) = vote t c m (set (set_of (snd acc) c))"
    "\<forall>c. distinct (set_of (snd (aggregate_step m acc)) c)"
proof -
  obtain order sets where acc: "acc = (order, sets)" by fastforce
  have ne: "MSG_TYPE_EMOTICON_ADD \<noteq> MSG_TYPE_EMOTICON_REMOVE" by (simp add: msg_type_defs)
  show "set (set_of (snd (aggregate_step m acc)) c) = vote t c m (set (set_of (snd acc) c))"
    using assms ne unfolding acc
    by (auto simp: aggregate_step_def set_of_def vote_def split: option.splits)
  show "\<forall>c. distinct (set_of (snd (aggregate_step m acc)) c)"
    using assms unfolding acc
    by (auto simp: aggregate_step_def set_of_def split: option.splits)
qed

lemma aggregate_votes:
  assumes "\<forall>m \<in> set ms. mr_target m = Some t" "\<forall>c. distinct (set_of (snd acc) c)"
  shows "set (set_of (snd (fold aggregate_step ms acc)) c) = fold (vote t c) ms (set (set_of (snd acc) c))"
  using assms
proof (induction ms arbitrary: acc)
  case (Cons m ms)
  then show ?case using aggregate_step_votes [of m t acc] by simp
qed simp

text \<open>The codes in the answer are those of the map, once each.\<close>

lemma aggregate_order:
  assumes "\<forall>c. c \<in> set (fst acc) \<longleftrightarrow> snd acc c \<noteq> None" "distinct (fst acc)"
  shows "(\<forall>c. c \<in> set (fst (fold aggregate_step ms acc)) \<longleftrightarrow> snd (fold aggregate_step ms acc) c \<noteq> None)
    \<and> distinct (fst (fold aggregate_step ms acc))"
  using assms
proof (induction ms arbitrary: acc)
  case (Cons m ms)
  obtain order sets where acc: "acc = (order, sets)" by fastforce
  have "(\<forall>c. c \<in> set (fst (aggregate_step m acc)) \<longleftrightarrow> snd (aggregate_step m acc) c \<noteq> None)
    \<and> distinct (fst (aggregate_step m acc))"
    using Cons.prems unfolding acc by (auto simp: aggregate_step_def split: option.splits)
  then show ?case using Cons.IH by simp
qed simp

lemma surviving_reactors_votes:
  defines "votes \<equiv> \<lambda>d t v c. fold (vote t c) (reaction_rows d t v) {}"
  shows "(\<exists>s. (c, s) \<in> set (surviving_reactors t v d) \<and> a \<in> set s) \<longleftrightarrow> a \<in> votes d t v c"
proof -
  let ?rows = "reaction_rows d t v"
  obtain order sets where f: "fold aggregate_step ?rows ([], \<lambda>_. None) = (order, sets)" by fastforce
  have rows: "\<forall>m \<in> set ?rows. mr_target m = Some t" by (simp add: reaction_rows_def)
  have v: "set (set_of sets c) = fold (vote t c) ?rows {}"
    using aggregate_votes [OF rows, of "([], \<lambda>_. None)" c] by (simp add: f set_of_def)
  have o: "c \<in> set order \<longleftrightarrow> sets c \<noteq> None"
    using aggregate_order [of "([], \<lambda>_. None)" ?rows] by (simp add: f)
  show ?thesis
    using o by (auto simp: surviving_reactors_def f votes_def v [symmetric] set_of_def
        split: option.splits)
qed

section \<open>Rows on the wire\<close>

definition wire :: "(int \<Rightarrow> string) \<Rightarrow> message_row \<Rightarrow> chat_message" where
  "wire iso_ms m = received (from_row iso_ms m)"

text \<open>A message without the parts that are not columns of its row: the sender's profile as it was when
the row was read, and the thread summary that only the history query adds.\<close>

definition bare :: "chat_message \<Rightarrow> chat_message" where
  "bare m = m\<lparr>cm_sender := None, cm_reply_count := None, cm_last_reply_at := None\<rparr>"

lemma bare_received [simp]:
  "bare (received (from_joined_row iso_ms now d m)) = wire iso_ms m"
  "bare (received (from_threaded_row iso_ms now d m)) = wire iso_ms m"
  by (simp_all add: bare_def wire_def received_def from_joined_row_def from_threaded_row_def
      from_row_def Let_def)

lemma received_fields [simp]:
  "cm_id (received (from_joined_row iso_ms now d m)) = mr_id m"
  "cm_serial (received (from_joined_row iso_ms now d m)) = mr_serial m"
  "cm_sender_address (received (from_joined_row iso_ms now d m)) = mr_sender m"
  "cm_target (received (from_joined_row iso_ms now d m)) = mr_target m"
  "cm_code (received (from_joined_row iso_ms now d m)) = mr_code m"
  "cm_id (received (from_threaded_row iso_ms now d m)) = mr_id m"
  "cm_deleted (received (from_threaded_row iso_ms now d m)) = mr_deleted m"
  by (simp_all add: received_def from_joined_row_def from_threaded_row_def from_row_def Let_def)

lemma kind_received:
  "message_kind (received (from_joined_row iso_ms now d m)) = parse_kind (mr_type m)"
  "message_kind (received (from_threaded_row iso_ms now d m)) = parse_kind (mr_type m)"
  by (simp_all add: message_kind_def received_def from_joined_row_def from_threaded_row_def from_row_def
      parse_kind_def msg_type_defs Let_def)

lemma kind_of_row:
  "is_marker m \<Longrightarrow> parse_kind (mr_type m) = Delete_All"
  "mr_type m = MSG_TYPE_DELETE \<Longrightarrow> parse_kind (mr_type m) = Delete"
  "is_plain m \<Longrightarrow> mr_type m \<noteq> MSG_TYPE_DELETE \<Longrightarrow> parse_kind (mr_type m) \<in> {Add, Edit}"
  "mr_type m = MSG_TYPE_EMOTICON_ADD \<Longrightarrow> parse_kind (mr_type m) = Emoticon_Add"
  "mr_type m = MSG_TYPE_EMOTICON_REMOVE \<Longrightarrow> parse_kind (mr_type m) = Emoticon_Remove"
  by (auto simp: parse_kind_def row_class_defs)

section \<open>The fold, event by event\<close>

text \<open>The stream after one event, whatever the outcome record says.\<close>

definition stream_step :: "chat_message \<Rightarrow> room_state \<Rightarrow> room_state" where
  "stream_step e st = fst (fold_one e (st, default_outcome))"

lemma fst_fold_one: "fst (fold_one e (st, out)) = stream_step e st"
  by (simp add: stream_step_def fold_one_def Let_def split: option.split)

lemma fst_fold_page: "fst (fold fold_one es p) = fold stream_step es (fst p)"
proof (induction es arbitrary: p)
  case (Cons e es)
  then show ?case by (cases p) (simp add: fst_fold_one)
qed simp

lemma stream_step_cursor [simp]: "rs_cursor (stream_step e st) = max (rs_cursor st) (cm_serial e)"
  by (simp add: stream_step_def fold_one_def Let_def split: option.split)

lemma stream_step_messages:
  "map_of (rs_messages (stream_step e st)) i =
     (if message_kind e \<in> {Add, Edit} then ((map_of (rs_messages st))(cm_id e \<mapsto> e)) i
      else if message_kind e = Delete then ((map_of (rs_messages st))(cm_id e := None)) i
      else if message_kind e = Delete_All then None
      else map_of (rs_messages st) i)"
  by (auto simp: stream_step_def fold_one_def Let_def AList.update_conv' AList.delete_conv'
      split: option.split)

lemma stream_step_reactors:
  "reactors (rs_reactions (stream_step e st)) t c =
     (let old = reactors (rs_reactions st) t c
      in if message_kind e = Delete then (if t = cm_id e then [] else old)
         else if message_kind e = Delete_All then []
         else if message_kind e = Emoticon_Add \<and> cm_target e = Some t \<and> cm_code e = Some c
              then insort_insert (cm_sender_address e) old
         else if message_kind e = Emoticon_Remove \<and> cm_target e = Some t \<and> cm_code e = Some c
              then remove1 (cm_sender_address e) old
         else old)"
  by (auto simp: stream_step_def fold_one_def Let_def reactors_delete reactors_add reactors_remove
      reactors_Nil split: option.split)

section \<open>Visible rows in serial order\<close>

definition visible :: "string \<Rightarrow> string \<Rightarrow> db \<Rightarrow> message_row \<Rightarrow> bool" where
  "visible v r d m \<longleftrightarrow> m \<in> set (db_messages d) \<and> mr_room m = r \<and> not_blocked d v m"

lemma visible_inj:
  assumes "store_ok d" "visible v r d x" "visible v r d y" "mr_serial x = mr_serial y" shows "x = y"
proof (rule ccontr)
  assume "x \<noteq> y"
  then have "mr_id x \<noteq> mr_id y"
    using row_of_id [OF store_okD(1) [OF assms(1)]] assms(2,3) by (auto simp: visible_def)
  then show False
    using store_okD(4) [OF assms(1), of x y] assms(2-4) by (auto simp: visible_def pair_ok_def)
qed

definition rows_in_order :: "string \<Rightarrow> string \<Rightarrow> db \<Rightarrow> (message_row \<Rightarrow> bool) \<Rightarrow> message_row list" where
  "rows_in_order v r d P = sort_key mr_serial [m \<leftarrow> db_messages d. visible v r d m \<and> P m]"

lemma rows_in_order_props:
  assumes "store_ok d"
  shows "set (rows_in_order v r d P) = {m. visible v r d m \<and> P m}"
    "sorted (map mr_serial (rows_in_order v r d P))"
    "distinct (map mr_serial (rows_in_order v r d P))"
proof -
  let ?xs = "rows_in_order v r d P"
  show xs: "set ?xs = {m. visible v r d m \<and> P m}"
    by (auto simp: rows_in_order_def visible_def)
  show "sorted (map mr_serial ?xs)" by (simp add: rows_in_order_def)
  have "distinct ?xs" using store_okD(1) [OF assms] by (auto simp: rows_in_order_def distinct_map)
  moreover have "inj_on mr_serial (set ?xs)"
    using visible_inj [OF assms] by (auto simp: xs inj_on_def)
  ultimately show "distinct (map mr_serial ?xs)" by (simp add: distinct_map)
qed

lemma rows_in_order_unique:
  assumes "store_ok d" "set ys = {m. visible v r d m \<and> P m}" "sorted (map mr_serial ys)"
    "distinct (map mr_serial ys)"
  shows "rows_in_order v r d P = ys"
proof (rule map_sorted_distinct_set_unique)
  show "inj_on mr_serial (set (rows_in_order v r d P) \<union> set ys)"
    using visible_inj [OF assms(1)] rows_in_order_props(1) [OF assms(1)] assms(2)
    by (auto simp: inj_on_def)
qed (use rows_in_order_props [OF assms(1)] assms in auto)

lemma sync_rows_in_order: "sync_rows d r v since = rows_in_order v r d (\<lambda>m. since < mr_serial m)"
proof -
  have "[m \<leftarrow> db_messages d. mr_room m = r \<and> since < mr_serial m \<and> not_blocked d v m]
      = [m \<leftarrow> db_messages d. visible v r d m \<and> since < mr_serial m]"
    by (rule filter_cong) (auto simp: visible_def)
  then show ?thesis by (simp add: sync_rows_def rows_in_order_def)
qed

text \<open>The next event of the stream: the least visible serial above the cursor.\<close>

definition next_row :: "string \<Rightarrow> string \<Rightarrow> db \<Rightarrow> int \<Rightarrow> message_row \<Rightarrow> bool" where
  "next_row v r d c e \<longleftrightarrow>
     visible v r d e \<and> c < mr_serial e
     \<and> (\<forall>m. visible v r d m \<longrightarrow> c < mr_serial m \<longrightarrow> mr_serial e \<le> mr_serial m)"

lemma sync_rows_Cons:
  assumes "store_ok d" "sync_rows d r v c = e # rest"
  shows "next_row v r d c e" "sync_rows d r v (mr_serial e) = rest"
proof -
  note props = rows_in_order_props [OF assms(1), of v r "\<lambda>m. c < mr_serial m",
      folded sync_rows_in_order, unfolded assms(2)]
  have members: "visible v r d m \<and> c < mr_serial m \<longleftrightarrow> m = e \<or> m \<in> set rest" for m
    using props(1) by auto
  have above: "\<forall>m \<in> set rest. mr_serial e < mr_serial m" using props(2,3) by force
  then have low: "visible v r d m \<Longrightarrow> c < mr_serial m \<Longrightarrow> mr_serial e \<le> mr_serial m" for m
    using members by (metis order_le_less order_refl)
  then show "next_row v r d c e" using members by (auto simp: next_row_def)
  have "set rest = {m. visible v r d m \<and> mr_serial e < mr_serial m}"
  proof (intro set_eqI iffI CollectI)
    fix m assume "m \<in> set rest"
    then show "visible v r d m \<and> mr_serial e < mr_serial m" using members above by blast
  next
    fix m assume "m \<in> {m. visible v r d m \<and> mr_serial e < mr_serial m}"
    then have "visible v r d m \<and> c < mr_serial m" "m \<noteq> e" using members [of e] by auto
    then show "m \<in> set rest" using members by blast
  qed
  then show "sync_rows d r v (mr_serial e) = rest"
    unfolding sync_rows_in_order using props by (intro rows_in_order_unique [OF assms(1)]) auto
qed

lemma sync_rows_Nil: "store_ok d \<Longrightarrow> sync_rows d r v c = [] \<longleftrightarrow> (\<forall>m. visible v r d m \<longrightarrow> mr_serial m \<le> c)"
  using rows_in_order_props(1) [of d v r "\<lambda>m. c < mr_serial m", folded sync_rows_in_order]
  by (metis (mono_tags, lifting) empty_Collect_eq linorder_not_less set_empty)

text \<open>The votes of the rows up to a cursor.\<close>

definition votes_upto :: "string \<Rightarrow> string \<Rightarrow> db \<Rightarrow> int \<Rightarrow> string \<Rightarrow> string \<Rightarrow> string set" where
  "votes_upto v r d c t code =
     fold (vote t code) (rows_in_order v r d (\<lambda>m. mr_serial m \<le> c)) {}"

lemma upto_next:
  assumes "store_ok d" "next_row v r d c e"
  shows "visible v r d m \<and> mr_serial m \<le> mr_serial e \<longleftrightarrow> m = e \<or> visible v r d m \<and> mr_serial m \<le> c"
  using assms visible_inj [OF assms(1)] unfolding next_row_def
  by (metis linorder_not_le order.strict_trans1 order_antisym_conv order_less_imp_le)

lemma votes_upto_next:
  assumes "store_ok d" "next_row v r d c e"
  shows "votes_upto v r d (mr_serial e) t code = vote t code e (votes_upto v r d c t code)"
proof -
  let ?low = "rows_in_order v r d (\<lambda>m. mr_serial m \<le> c)"
  note low = rows_in_order_props [OF assms(1), of v r "\<lambda>m. mr_serial m \<le> c"]
  have "c < mr_serial e" using assms(2) by (simp add: next_row_def)
  then have less: "\<forall>m \<in> set ?low. mr_serial m < mr_serial e" using low(1) by auto
  have "rows_in_order v r d (\<lambda>m. mr_serial m \<le> mr_serial e) = ?low @ [e]"
  proof (rule rows_in_order_unique [OF assms(1)])
    show "set (?low @ [e]) = {m. visible v r d m \<and> mr_serial m \<le> mr_serial e}"
      using upto_next [OF assms] low(1) by auto
    show "sorted (map mr_serial (?low @ [e]))"
      using low(2) less by (auto simp: sorted_append)
    show "distinct (map mr_serial (?low @ [e]))" using low(3) less by auto
  qed
  then show ?thesis by (simp add: votes_upto_def)
qed

section \<open>What the client holds\<close>

text \<open>A purge that the client has not seen: then nothing it holds matters, for the marker comes first.\<close>

definition purge_pending :: "string \<Rightarrow> string \<Rightarrow> db \<Rightarrow> int \<Rightarrow> bool" where
  "purge_pending v r d c \<longleftrightarrow> (\<exists>k. visible v r d k \<and> is_marker k \<and> c < mr_serial k)"

text \<open>Otherwise the client is up to date for every row up to its cursor, holds nothing but messages of
the room, and has the votes up to its cursor for every target that is not a tombstone.\<close>

definition settled_stream :: "(int \<Rightarrow> string) \<Rightarrow> string \<Rightarrow> string \<Rightarrow> db \<Rightarrow> room_state \<Rightarrow> bool" where
  "settled_stream iso_ms v r d st \<longleftrightarrow>
     (\<forall>m. visible v r d m \<longrightarrow> mr_serial m \<le> rs_cursor st \<longrightarrow>
        map_option bare (map_of (rs_messages st) (mr_id m))
          = (if displayable m then Some (wire iso_ms m) else None))
     \<and> (\<forall>i cm. map_of (rs_messages st) i = Some cm \<longrightarrow>
          (\<exists>m. visible v r d m \<and> mr_id m = i \<and> is_plain m))
     \<and> (\<forall>t. (\<nexists>m. visible v r d m \<and> mr_id m = t \<and> mr_deleted m) \<longrightarrow>
          (\<forall>code. set (reactors (rs_reactions st) t code) = votes_upto v r d (rs_cursor st) t code))"

definition stream_inv :: "(int \<Rightarrow> string) \<Rightarrow> string \<Rightarrow> string \<Rightarrow> db \<Rightarrow> room_state \<Rightarrow> bool" where
  "stream_inv iso_ms v r d st \<longleftrightarrow>
     (rs_cursor st \<le> 0 \<or> rs_cursor st < next_of d r)
     \<and> (\<forall>t c. distinct (reactors (rs_reactions st) t c))
     \<and> (purge_pending v r d (rs_cursor st) \<or> settled_stream iso_ms v r d st)"

lemma fold_vote_none: "\<forall>m \<in> set ms. \<not> is_reaction m \<Longrightarrow> fold (vote t c) ms S = S"
  by (induction ms) (simp_all add: vote_reaction)

text \<open>Folding the next visible row keeps the invariant.\<close>

lemma distinct_step:
  "\<forall>t c. distinct (reactors (rs_reactions st) t c) \<Longrightarrow>
     \<forall>t c. distinct (reactors (rs_reactions (stream_step e st)) t c)"
  by (auto simp: stream_step_reactors Let_def distinct_insort_insert)

lemma settled_marker:
  assumes ok: "store_ok d" and nx: "next_row v r d c e" and k: "is_marker e"
    and ev: "ev = received (from_joined_row iso_ms now d e)" and c: "rs_cursor st = c"
  shows "settled_stream iso_ms v r d (stream_step ev st)"
proof -
  have message_kind: "message_kind ev = Delete_All" using k by (simp add: ev kind_received kind_of_row)
  have vis: "visible v r d e" "c < mr_serial e" using nx by (auto simp: next_row_def)
  then have cur: "rs_cursor (stream_step ev st) = mr_serial e" using c by (simp add: ev)
  have only: "m = e" if "visible v r d m" "mr_serial m \<le> mr_serial e" for m
  proof (rule ccontr)
    assume "m \<noteq> e"
    then have "mr_id e \<noteq> mr_id m"
      using row_of_id [OF store_okD(1) [OF ok]] vis that(1) by (auto simp: visible_def)
    then show False
      using store_okD(4) [OF ok, of e m] vis that k by (auto simp: visible_def pair_ok_def)
  qed
  have "votes_upto v r d (mr_serial e) t code = {}" for t code
    unfolding votes_upto_def
    by (rule fold_vote_none)
      (use only k row_classes rows_in_order_props(1) [OF ok] in auto)
  then show ?thesis
    unfolding settled_stream_def cur
    using only row_classes(5) [OF k] by (auto simp: stream_step_messages stream_step_reactors message_kind)
qed

lemma settled_next:
  assumes ok: "store_ok d" and st: "settled_stream iso_ms v r d st" and nx: "next_row v r d (rs_cursor st) e"
    and not_k: "\<not> is_marker e" and ev: "ev = received (from_joined_row iso_ms now d e)"
    and di: "\<forall>t c. distinct (reactors (rs_reactions st) t c)"
  shows "settled_stream iso_ms v r d (stream_step ev st)"
proof -
  let ?c = "rs_cursor st" and ?st = "stream_step ev st"
  have vis: "visible v r d e" "?c < mr_serial e" using nx by (auto simp: next_row_def)
  then have cur: "rs_cursor ?st = mr_serial e" by (simp add: ev)
  have row: "row_ok d e" using vis store_okD(2) [OF ok] by (simp add: visible_def)
  have same_id: "m = e" if "visible v r d m" "mr_id m = mr_id e" for m
    using row_of_id [OF store_okD(1) [OF ok]] vis that by (auto simp: visible_def)
  have old: "map_option bare (map_of (rs_messages st) (mr_id m))
      = (if displayable m then Some (wire iso_ms m) else None)"
    if "visible v r d m" "mr_serial m \<le> mr_serial e" "m \<noteq> e" for m
  proof -
    have "mr_serial m \<le> ?c" using upto_next [OF ok nx, of m] that by blast
    then show ?thesis using st that(1) unfolding settled_stream_def by blast
  qed
  have held: "\<exists>m. visible v r d m \<and> mr_id m = i \<and> is_plain m"
    if "map_of (rs_messages st) i = Some cm" for i cm
    using st that by (auto simp: settled_stream_def)
  have votes: "set (reactors (rs_reactions st) t code) = votes_upto v r d ?c t code"
    if "\<nexists>m. visible v r d m \<and> mr_id m = t \<and> mr_deleted m" for t code
    using st that by (auto simp: settled_stream_def)
  note steps = stream_step_messages stream_step_reactors Let_def
  note next_votes = votes_upto_next [OF ok nx]
  consider (plain) "is_plain e" "\<not> mr_deleted e" | (gone) "is_plain e" "mr_deleted e"
    | (react) "is_reaction e"
    using row not_k by (auto simp: row_ok_def)
  then show ?thesis
  proof cases
    case plain
    then have message_kind: "message_kind ev \<in> {Add, Edit}"
      using kind_of_row(3) row by (auto simp: ev kind_received row_ok_def)
    show ?thesis
      unfolding settled_stream_def cur
    proof (intro conjI allI impI)
      fix m assume "visible v r d m" "mr_serial m \<le> mr_serial e"
      then show "map_option bare (map_of (rs_messages ?st) (mr_id m))
          = (if displayable m then Some (wire iso_ms m) else None)"
        using old [of m] same_id [of m] plain row_classes(4) [OF plain(1)] message_kind
        by (cases "m = e") (auto simp: steps ev)
    next
      fix i cm assume "map_of (rs_messages ?st) i = Some cm"
      then show "\<exists>m. visible v r d m \<and> mr_id m = i \<and> is_plain m"
        using message_kind held [of i] vis plain by (auto simp: steps ev split: if_splits)
    next
      fix t code assume "\<nexists>m. visible v r d m \<and> mr_id m = t \<and> mr_deleted m"
      then show "set (reactors (rs_reactions ?st) t code) = votes_upto v r d (mr_serial e) t code"
        using votes [of t code] message_kind next_votes vote_reaction [OF row_classes(2) [OF plain(1)]]
        by (auto simp: steps)
    qed
  next
    case gone
    then have message_kind: "message_kind ev = Delete"
      using row kind_of_row(2) [of e] by (simp add: ev kind_received row_ok_def)
    show ?thesis
      unfolding settled_stream_def cur
    proof (intro conjI allI impI)
      fix m assume "visible v r d m" "mr_serial m \<le> mr_serial e"
      then show "map_option bare (map_of (rs_messages ?st) (mr_id m))
          = (if displayable m then Some (wire iso_ms m) else None)"
        using old [of m] same_id [of m] gone row_classes(4) [OF gone(1)] message_kind
        by (cases "m = e") (auto simp: steps ev)
    next
      fix i cm assume "map_of (rs_messages ?st) i = Some cm"
      then show "\<exists>m. visible v r d m \<and> mr_id m = i \<and> is_plain m"
        using message_kind held [of i] by (auto simp: steps split: if_splits)
    next
      fix t code assume t: "\<nexists>m. visible v r d m \<and> mr_id m = t \<and> mr_deleted m"
      then have "t \<noteq> mr_id e" using vis gone by blast
      then show "set (reactors (rs_reactions ?st) t code) = votes_upto v r d (mr_serial e) t code"
        using votes [OF t, of code] message_kind next_votes vote_reaction [OF row_classes(2) [OF gone(1)]]
        by (auto simp: steps ev)
    qed
  next
    case react
    then have ty: "mr_type e = MSG_TYPE_EMOTICON_ADD \<or> mr_type e = MSG_TYPE_EMOTICON_REMOVE"
      by (auto simp: is_reaction_def)
    then have message_kind: "message_kind ev = (if mr_type e = MSG_TYPE_EMOTICON_ADD then Emoticon_Add else Emoticon_Remove)"
      by (elim disjE) (simp_all add: ev kind_received parse_kind_def msg_type_defs)
    have ne: "MSG_TYPE_EMOTICON_ADD \<noteq> MSG_TYPE_EMOTICON_REMOVE" by (simp add: msg_type_defs)
    have none: "map_of (rs_messages st) (mr_id e) = None"
      using held [of "mr_id e"] same_id react row_classes(2) by fastforce
    show ?thesis
      unfolding settled_stream_def cur
    proof (intro conjI allI impI)
      fix m assume "visible v r d m" "mr_serial m \<le> mr_serial e"
      then show "map_option bare (map_of (rs_messages ?st) (mr_id m))
          = (if displayable m then Some (wire iso_ms m) else None)"
        using old [of m] none row_classes(6) [OF react] message_kind
        by (cases "m = e") (auto simp: steps)
    next
      fix i cm assume "map_of (rs_messages ?st) i = Some cm"
      then show "\<exists>m. visible v r d m \<and> mr_id m = i \<and> is_plain m"
        using message_kind held [of i] by (auto simp: steps split: if_splits)
    next
      fix t code assume t: "\<nexists>m. visible v r d m \<and> mr_id m = t \<and> mr_deleted m"
      show "set (reactors (rs_reactions ?st) t code) = votes_upto v r d (mr_serial e) t code"
        using votes [OF t, of code] message_kind ty ne di next_votes [of t code]
        by (auto simp: steps vote_def ev set_insort_insert split: if_splits)
    qed
  qed
qed

lemma stream_inv_next:
  assumes ok: "store_ok d" and inv: "stream_inv iso_ms v r d st"
    and nx: "next_row v r d (rs_cursor st) e" and ev: "ev = received (from_joined_row iso_ms now d e)"
  shows "stream_inv iso_ms v r d (stream_step ev st)"
proof -
  have e: "visible v r d e" "rs_cursor st < mr_serial e" using nx by (auto simp: next_row_def)
  have bound: "mr_serial e < next_of d r"
    using store_okD(2) [OF ok, of e] e by (auto simp: visible_def row_ok_def)
  have di: "\<forall>t c. distinct (reactors (rs_reactions st) t c)" using inv by (simp add: stream_inv_def)
  have "settled_stream iso_ms v r d (stream_step ev st)"
  proof (cases "is_marker e")
    case True then show ?thesis using settled_marker [OF ok nx _ ev] by simp
  next
    case False
    have "\<not> purge_pending v r d (rs_cursor st)"
    proof
      assume "purge_pending v r d (rs_cursor st)"
      then obtain k where k: "visible v r d k" "is_marker k" "rs_cursor st < mr_serial k"
        by (auto simp: purge_pending_def)
      then have "mr_serial e \<le> mr_serial k" "k \<noteq> e" using nx False by (auto simp: next_row_def)
      moreover have "mr_id k \<noteq> mr_id e"
        using row_of_id [OF store_okD(1) [OF ok]] k e calculation(2) by (auto simp: visible_def)
      ultimately show False
        using store_okD(4) [OF ok, of k e] k e by (auto simp: visible_def pair_ok_def)
    qed
    then have "settled_stream iso_ms v r d st" using inv by (simp add: stream_inv_def)
    then show ?thesis using settled_next [OF ok _ nx False ev di] by blast
  qed
  then show ?thesis
    using distinct_step [OF di] bound e by (simp add: stream_inv_def ev)
qed

section \<open>The store moves on\<close>

text \<open>Changes of the store keep the invariant: what is new lies above the cursor.\<close>

lemma votes_upto_cong:
  assumes "store_ok d" "store_ok d'"
    and "\<And>m. is_reaction m \<Longrightarrow> visible v r d m \<and> mr_serial m \<le> c \<longleftrightarrow> visible v r d' m \<and> mr_serial m \<le> c"
  shows "votes_upto v r d c t code = votes_upto v r d' c t code"
proof -
  let ?P = "\<lambda>d m. mr_serial m \<le> c" and ?R = "\<lambda>m. is_reaction m"
  have filt: "fold (vote t code) (rows_in_order v r d0 (?P d0)) {}
      = fold (vote t code) (filter ?R (rows_in_order v r d0 (?P d0))) {}" for d0
    by (rule fold_vote_filter [symmetric]) (rule vote_reaction)
  have "filter ?R (rows_in_order v r d (?P d)) = filter ?R (rows_in_order v r d' (?P d'))"
  proof (rule map_sorted_distinct_set_unique)
    let ?xs = "filter ?R (rows_in_order v r d (?P d))" and ?ys = "filter ?R (rows_in_order v r d' (?P d'))"
    note px = rows_in_order_props [OF assms(1)] and py = rows_in_order_props [OF assms(2)]
    show eq: "set ?xs = set ?ys" using assms(3) by (auto simp: px(1) py(1))
    have "inj_on mr_serial (set ?ys)"
      using visible_inj [OF assms(2)] by (auto simp: py(1) inj_on_def)
    then show "inj_on mr_serial (set ?xs \<union> set ?ys)" using eq by simp
    show "sorted (map mr_serial ?xs)" "sorted (map mr_serial ?ys)"
      using px(2) py(2) by (auto intro: sorted_filter)
    show "distinct (map mr_serial ?xs)" "distinct (map mr_serial ?ys)"
      using px(3) py(3) by (auto intro: distinct_map_filter)
  qed
  then show ?thesis using filt by (simp add: votes_upto_def)
qed

lemma visible_change:
  assumes ok: "store_ok d" and ch: "changes v c d d'"
  shows "visible v r d' x \<longleftrightarrow>
    (case c of
       Added m \<Rightarrow> visible v r d x \<or> x = m \<and> mr_room m = r \<and> (v, mr_sender m) \<notin> set (db_blocked d)
     | Changed f m \<Rightarrow> visible v r d x \<and> mr_id x \<noteq> mr_id m \<or> x = f m \<and> visible v r d m
     | Purged k \<Rightarrow> visible v r d x \<and> mr_room k \<noteq> r \<or> x = k \<and> mr_room k = r
     | _ \<Rightarrow> visible v r d x)"
proof (cases c)
  case (Changed f m)
  then have "row_changed f m d d'" "plain_rewrite f m" using ch by auto
  then show ?thesis
    using row_changed_rows [OF ok, of f m d' x] Changed
    by (auto simp: visible_def not_blocked_def row_changed_def same_frame_def plain_rewrite_def)
qed (use ch in \<open>auto simp: visible_def not_blocked_def row_added_def room_purged_def serial_burnt_def
        same_frame_def\<close>)

text \<open>Serials that a change draws lie above the cursor.\<close>

lemma fresh_above_cursor:
  assumes "stream_inv iso_ms v r d st" "fresh_serial d r s d'" "0 < s"
  shows "rs_cursor st < s" "rs_cursor st < next_of d' r"
proof -
  show "rs_cursor st < s"
    using assms by (auto simp: stream_inv_def fresh_serial_def next_of_def split: option.splits)
  then show "rs_cursor st < next_of d' r" using next_of_fresh(1) [OF assms(2)] by simp
qed

lemma settled_cong:
  assumes st: "settled_stream iso_ms v r d st" and ok: "store_ok d" "store_ok d'"
    and low: "\<And>m. mr_serial m \<le> rs_cursor st \<Longrightarrow> visible v r d' m \<Longrightarrow> visible v r d m"
    and low_react: "\<And>m. is_reaction m \<Longrightarrow> mr_serial m \<le> rs_cursor st \<Longrightarrow>
      visible v r d m \<longleftrightarrow> visible v r d' m"
    and plain: "\<And>m. visible v r d m \<Longrightarrow> is_plain m \<Longrightarrow>
      \<exists>m'. visible v r d' m' \<and> mr_id m' = mr_id m \<and> is_plain m' \<and> (mr_deleted m \<longrightarrow> mr_deleted m')"
  shows "settled_stream iso_ms v r d' st"
proof -
  have votes: "votes_upto v r d (rs_cursor st) t code = votes_upto v r d' (rs_cursor st) t code" for t code
    using low_react by (intro votes_upto_cong [OF ok]) blast
  have gone: "\<exists>m'. visible v r d' m' \<and> mr_id m' = t \<and> mr_deleted m'"
    if "visible v r d m" "mr_id m = t" "mr_deleted m" for t m
  proof -
    have "row_ok d m" using that store_okD(2) [OF ok(1)] by (simp add: visible_def)
    then have "is_plain m" using that(3) by (auto simp: row_ok_def row_class_defs)
    then show ?thesis using plain that by blast
  qed
  show ?thesis
    unfolding settled_stream_def
  proof (intro conjI allI impI)
    fix m assume "visible v r d' m" "mr_serial m \<le> rs_cursor st"
    then show "map_option bare (map_of (rs_messages st) (mr_id m))
        = (if displayable m then Some (wire iso_ms m) else None)"
      using st low unfolding settled_stream_def by blast
  next
    fix i cm assume "map_of (rs_messages st) i = Some cm"
    then obtain m where "visible v r d m" "mr_id m = i" "is_plain m"
      using st unfolding settled_stream_def by blast
    then show "\<exists>m. visible v r d' m \<and> mr_id m = i \<and> is_plain m" using plain by blast
  next
    fix t code assume "\<nexists>m. visible v r d' m \<and> mr_id m = t \<and> mr_deleted m"
    then have "\<nexists>m. visible v r d m \<and> mr_id m = t \<and> mr_deleted m" using gone by blast
    then show "set (reactors (rs_reactions st) t code) = votes_upto v r d' (rs_cursor st) t code"
      using st votes unfolding settled_stream_def by metis
  qed
qed

lemma change_room_fresh:
  assumes "changes v c d d'"
  obtains room s where "fresh_serial d room s d'" "0 < s" | "db_serials d' = db_serials d"
  using assms
  by (cases c) (auto simp: row_added_def row_changed_def room_purged_def serial_burnt_def plain_rewrite_def)

lemma cursor_below_next:
  assumes "stream_inv iso_ms v r d st" "changes v c d d'"
  shows "rs_cursor st \<le> 0 \<or> rs_cursor st < next_of d' r"
  using assms(2)
proof (rule change_room_fresh)
  fix room s assume f: "fresh_serial d room s d'" "0 < s"
  show ?thesis
  proof (cases "room = r")
    case True then show ?thesis using fresh_above_cursor(2) [OF assms(1)] f by blast
  next
    case False
    then show ?thesis using next_of_fresh(3) [OF f(1), of r] assms(1) by (auto simp: stream_inv_def)
  qed
next
  assume "db_serials d' = db_serials d"
  then show ?thesis using assms(1) by (simp add: stream_inv_def next_of_def)
qed

lemma stream_inv_change:
  assumes ok: "store_ok d" and inv: "stream_inv iso_ms v r d st" and ch: "changes v c d d'"
  shows "stream_inv iso_ms v r d' st"
proof -
  let ?c = "rs_cursor st"
  have ok': "store_ok d'" using changes_store_ok [OF ok ch] .
  note vis = visible_change [OF ok ch, of r]
  have "purge_pending v r d' ?c \<or> settled_stream iso_ms v r d' st"
  proof (cases "\<exists>k. c = Purged k \<and> mr_room k = r")
    case True
    then obtain k where k: "c = Purged k" "mr_room k = r" by blast
    then have "fresh_serial d r (mr_serial k) d'" "0 < mr_serial k" "is_marker k"
      using ch by (auto simp: room_purged_def)
    then have "purge_pending v r d' ?c"
      using fresh_above_cursor(1) [OF inv] vis k by (auto simp: purge_pending_def)
    then show ?thesis ..
  next
    case other: False
    have keep: "\<exists>m'. visible v r d' m' \<and> mr_id m' = mr_id m \<and> (is_plain m \<longrightarrow> is_plain m')
        \<and> (mr_deleted m \<longrightarrow> mr_deleted m')" if "visible v r d m" for m
    proof (cases c)
      case (Changed f x)
      then have pl: "plain_rewrite f x" and x: "x \<in> set (db_messages d)"
        using ch by (auto simp: row_changed_def)
      have "m = x" if "mr_id m = mr_id x"
        using row_of_id [OF store_okD(1) [OF ok] _ x that] \<open>visible v r d m\<close> by (simp add: visible_def)
      then show ?thesis
        using that vis Changed pl
        by (cases "mr_id m = mr_id x") (auto simp: plain_rewrite_def)
    qed (use that vis other in auto)
    have above: "?c < mr_serial m" if "visible v r d' m" "\<not> visible v r d m" for m
    proof (cases c)
      case (Added x)
      then have "fresh_serial d r (mr_serial m) d'" "0 < mr_serial m"
        using that vis ch by (auto simp: row_added_def)
      then show ?thesis using fresh_above_cursor(1) [OF inv] by blast
    next
      case (Changed f x)
      then have "fresh_serial d r (mr_serial m) d'" "0 < mr_serial m"
        using that vis ch by (auto simp: row_changed_def plain_rewrite_def visible_def)
      then show ?thesis using fresh_above_cursor(1) [OF inv] by blast
    qed (use that vis other in auto)
    have react: "visible v r d' m" if "visible v r d m" "\<not> is_plain m" for m
    proof (cases c)
      case (Changed f x)
      then have "is_plain x" "x \<in> set (db_messages d)"
        using ch by (auto simp: row_changed_def plain_rewrite_def)
      then have "mr_id m \<noteq> mr_id x"
        using row_of_id [OF store_okD(1) [OF ok], of m x] that by (auto simp: visible_def)
      then show ?thesis using vis that Changed by auto
    qed (use that vis other in auto)
    show ?thesis
    proof (cases "purge_pending v r d ?c")
      case True
      then show ?thesis using react row_classes unfolding purge_pending_def by blast
    next
      case False
      then have "settled_stream iso_ms v r d st" using inv by (simp add: stream_inv_def)
      then have "settled_stream iso_ms v r d' st"
      proof (rule settled_cong [OF _ ok ok'])
        fix m assume "mr_serial m \<le> ?c" "visible v r d' m"
        then show "visible v r d m" using above [of m] by (meson not_less)
      next
        fix m assume "is_reaction m" "mr_serial m \<le> ?c"
        then show "visible v r d m \<longleftrightarrow> visible v r d' m"
          using react [of m] above [of m] row_classes(2) [of m] by (meson not_less)
      qed (use keep in blast)
      then show ?thesis ..
    qed
  qed
  then show ?thesis
    using inv cursor_below_next [OF inv ch] by (simp add: stream_inv_def)
qed

lemma stream_inv_step:
  assumes "store_ok d" "stream_inv iso_ms v r d st" "store_step v d d'"
  shows "store_ok d' \<and> stream_inv iso_ms v r d' st"
  using assms step_changes changes_store_ok stream_inv_change by metis

section \<open>Pages\<close>

lemma step_cursor_row:
  assumes "next_row v r d (rs_cursor st) e"
  shows "rs_cursor (stream_step (received (from_joined_row iso_ms now d e)) st) = mr_serial e"
  using assms by (simp add: next_row_def)

lemma fold_prefix:
  assumes ok: "store_ok d"
  shows "stream_inv iso_ms v r d st \<Longrightarrow>
    (let st' = fold stream_step
        (map (received \<circ> from_joined_row iso_ms now d) (take n (sync_rows d r v (rs_cursor st)))) st
     in stream_inv iso_ms v r d st'
        \<and> sync_rows d r v (rs_cursor st') = drop n (sync_rows d r v (rs_cursor st)))"
proof (induction n arbitrary: st)
  case 0 then show ?case by (simp add: Let_def)
next
  case (Suc n)
  show ?case
  proof (cases "sync_rows d r v (rs_cursor st)")
    case Nil then show ?thesis using Suc.prems by (simp add: Let_def)
  next
    case (Cons e rest)
    let ?ev = "received (from_joined_row iso_ms now d e)"
    note nx = sync_rows_Cons [OF ok Cons]
    have "stream_inv iso_ms v r d (stream_step ?ev st)"
      using stream_inv_next [OF ok Suc.prems nx(1) refl] .
    then show ?thesis using Suc.IH [of "stream_step ?ev st"] nx step_cursor_row [OF nx(1)] Cons
      by (simp add: Let_def)
  qed
qed

text \<open>The page the server answers with, as the client receives it.\<close>

definition sync_answer ::
  "(int \<Rightarrow> string) \<Rightarrow> int \<Rightarrow> string \<Rightarrow> string \<Rightarrow> db \<Rightarrow> int \<Rightarrow> chat_message list \<times> bool" where
  "sync_answer iso_ms now r v d since =
     (let (page, left) = sync_messages iso_ms now r v since d in (map received page, left))"

lemma sync_answer_rows:
  "sync_answer iso_ms now r v d since =
     (map (received \<circ> from_joined_row iso_ms now d) (take SYNC_LIMIT (sync_rows d r v since)),
      SYNC_LIMIT < length (sync_rows d r v since))"
  by (auto simp: sync_answer_def sync_messages_def Let_def take_map min_def)

lemma stream_inv_loaded [simp]: "stream_inv iso_ms v r d (st\<lparr>rs_loaded := b\<rparr>) = stream_inv iso_ms v r d st"
  "stream_inv iso_ms v r d (st\<lparr>rs_has_more := b\<rparr>) = stream_inv iso_ms v r d st"
  by (simp_all add: stream_inv_def settled_stream_def)

lemma apply_sync_page:
  assumes "store_ok d" "stream_inv iso_ms v r d st"
    and "sync_answer iso_ms now r v d (rs_cursor st) = (events, left)"
  shows "stream_inv iso_ms v r d (apply_sync events st)"
    "sync_rows d r v (rs_cursor (apply_sync events st)) = drop SYNC_LIMIT (sync_rows d r v (rs_cursor st))"
    "rs_cursor (apply_sync events st) = fold max (map cm_serial events) (rs_cursor st)"
proof -
  have ev: "events = map (received \<circ> from_joined_row iso_ms now d) (take SYNC_LIMIT (sync_rows d r v (rs_cursor st)))"
    using assms(3) by (simp add: sync_answer_rows)
  have ap: "apply_sync events st = (fold stream_step events st)\<lparr>rs_loaded := True\<rparr>"
    by (simp add: apply_sync_def fold_page_def fst_fold_page)
  show "stream_inv iso_ms v r d (apply_sync events st)"
    "sync_rows d r v (rs_cursor (apply_sync events st)) = drop SYNC_LIMIT (sync_rows d r v (rs_cursor st))"
    unfolding ap using fold_prefix [OF assms(1,2), of now SYNC_LIMIT] by (simp_all add: ev Let_def)
  have "rs_cursor (fold stream_step es st) = fold max (map cm_serial es) (rs_cursor st)" for es
    by (induction es arbitrary: st) (simp_all add: max.commute)
  then show "rs_cursor (apply_sync events st) = fold max (map cm_serial events) (rs_cursor st)"
    by (simp add: ap)
qed

text \<open>The history query adds rows the client does not hold and moves nothing else.\<close>

lemma stream_inv_merge_one:
  assumes ok: "store_ok d" and inv: "stream_inv iso_ms v r d st" and m: "visible v r d m" "displayable m"
  shows "stream_inv iso_ms v r d (merge_one (received (from_threaded_row iso_ms now d m)) st)"
proof -
  let ?m = "received (from_threaded_row iso_ms now d m)"
  have row: "row_ok d m" using m store_okD(2) [OF ok] by (simp add: visible_def)
  then have plain: "is_plain m" using m(2) row_classes by (auto simp: row_ok_def)
  show ?thesis
  proof (cases "is_renderable (message_kind ?m) \<and> \<not> cm_deleted ?m \<and> map_of (rs_messages st) (cm_id ?m) = None")
    case True
    then have new: "map_of (rs_messages st) (mr_id m) = None" by simp
    have st': "merge_one ?m st = st\<lparr>rs_messages := AList.update (mr_id m) ?m (rs_messages st)\<rparr>"
      using True by (simp add: merge_one_def)
    have maps: "map_of (rs_messages (merge_one ?m st)) = (map_of (rs_messages st))(mr_id m \<mapsto> ?m)"
      by (simp add: st' AList.update_conv')
    have rest: "rs_cursor (merge_one ?m st) = rs_cursor st" "rs_reactions (merge_one ?m st) = rs_reactions st"
      by (simp_all add: st')
    have "settled_stream iso_ms v r d (merge_one ?m st)" if set: "settled_stream iso_ms v r d st"
      unfolding settled_stream_def maps rest
    proof (intro conjI allI impI)
      fix x assume x: "visible v r d x" "mr_serial x \<le> rs_cursor st"
      then have old: "map_option bare (map_of (rs_messages st) (mr_id x))
          = (if displayable x then Some (wire iso_ms x) else None)"
        using set by (simp add: settled_stream_def)
      have "x \<noteq> m" using old new m(2) by auto
      then have "mr_id x \<noteq> mr_id m"
        using row_of_id [OF store_okD(1) [OF ok]] x m by (auto simp: visible_def)
      with old show "map_option bare (((map_of (rs_messages st))(mr_id m \<mapsto> ?m)) (mr_id x))
          = (if displayable x then Some (wire iso_ms x) else None)" by simp
    next
      fix i cm assume "((map_of (rs_messages st))(mr_id m \<mapsto> ?m)) i = Some cm"
      then show "\<exists>x. visible v r d x \<and> mr_id x = i \<and> is_plain x"
        using set m plain unfolding settled_stream_def by (cases "i = mr_id m") auto
    next
      fix t code assume "\<nexists>x. visible v r d x \<and> mr_id x = t \<and> mr_deleted x"
      then show "set (reactors (rs_reactions st) t code) = votes_upto v r d (rs_cursor st) t code"
        using set unfolding settled_stream_def by blast
    qed
    then show ?thesis using inv by (auto simp: stream_inv_def st')
  next
    case False
    then have "merge_one ?m st = st" by (auto simp: merge_one_def)
    then show ?thesis using inv by simp
  qed
qed

lemma stream_inv_history:
  assumes ok: "store_ok d" and inv: "stream_inv iso_ms v r d st"
  shows "stream_inv iso_ms v r d
    (apply_history (map received (get_messages iso_ms now r v since before limit incl d)) left st)"
proof -
  let ?rows = "rev (take limit (rev (display_order
      [m \<leftarrow> db_messages d. mr_room m = r \<and> displayable m \<and> (incl \<or> mr_parent m = None)
         \<and> (since = 0 \<or> since \<le> mr_timestamp m) \<and> (before = 0 \<or> mr_timestamp m < before)
         \<and> not_blocked d v m])))"
  have page: "map received (get_messages iso_ms now r v since before limit incl d)
      = map (\<lambda>m. received (from_threaded_row iso_ms now d m)) ?rows"
    by (simp add: get_messages_def rev_map comp_def)
  have rows: "visible v r d m \<and> displayable m" if "m \<in> set ?rows" for m
    using that by (auto simp: display_order_def visible_def dest!: in_set_takeD)
  have "stream_inv iso_ms v r d (fold merge_one (map (\<lambda>m. received (from_threaded_row iso_ms now d m)) ms) st)"
    if "\<forall>m \<in> set ms. visible v r d m \<and> displayable m" for ms
    using that inv
  proof (induction ms arbitrary: st)
    case (Cons m ms) then show ?case using stream_inv_merge_one [OF ok] by simp
  qed simp
  then have "stream_inv iso_ms v r d (merge_history
      (map received (get_messages iso_ms now r v since before limit incl d)) st)"
    unfolding page merge_history_def using rows by blast
  then show ?thesis by (simp add: apply_history_def)
qed

section \<open>Draining\<close>

lemma fold_max_step: "fold max ys (max a b :: int) = max a (fold max ys b)"
  by (induction ys arbitrary: a b) (simp_all add: max.left_commute max.assoc)

lemma fold_max_batch:
  "events \<noteq> [] \<Longrightarrow> fold max (map cm_serial events) c = max c (batch_max events)"
  by (cases events) (simp_all add: batch_max_def fold_max_step max.commute)

definition server_answers ::
  "(int \<Rightarrow> string) \<Rightarrow> clock \<Rightarrow> string \<Rightarrow> string \<Rightarrow> db \<Rightarrow> answers" where
  "server_answers iso_ms clk r v d = (\<lambda>i since. Some (sync_answer iso_ms (clk i) r v d since))"

lemma drain_loop_pages:
  assumes ok: "store_ok d"
  shows "stream_inv iso_ms v r d st \<Longrightarrow>
    (let st' = drain_loop n i (server_answers iso_ms clk r v d) (rs_cursor st) st
     in stream_inv iso_ms v r d st'
        \<and> sync_rows d r v (rs_cursor st') = drop (n * SYNC_LIMIT) (sync_rows d r v (rs_cursor st)))"
proof (induction n arbitrary: i st)
  case 0 then show ?case by (simp add: Let_def)
next
  case (Suc n)
  let ?rows = "sync_rows d r v (rs_cursor st)"
  obtain events left where ans: "sync_answer iso_ms (clk i) r v d (rs_cursor st) = (events, left)"
    by fastforce
  let ?st = "apply_sync events st"
  note page = apply_sync_page [OF ok Suc.prems ans]
  have left: "left \<longleftrightarrow> SYNC_LIMIT < length ?rows" and len: "length events = min SYNC_LIMIT (length ?rows)"
    using ans by (auto simp: sync_answer_rows min.commute)
  show ?case
  proof (cases "left")
    case True
    then have "events \<noteq> []" using left len by (auto simp: SYNC_LIMIT_def)
    then have nxt: "next_sync_cursor (rs_cursor st) (batch_max events) left (length events)
        = Some (rs_cursor ?st)"
      using True page(3) by (simp add: next_sync_cursor_def fold_max_batch)
    have "drain_loop (Suc n) i (server_answers iso_ms clk r v d) (rs_cursor st) st
        = drain_loop n (Suc i) (server_answers iso_ms clk r v d) (rs_cursor ?st) ?st"
      using ans nxt by (simp add: server_answers_def Let_def)
    then show ?thesis using Suc.IH [OF page(1), of "Suc i"] page(2)
      by (simp add: Let_def add.commute)
  next
    case False
    then have "drain_loop (Suc n) i (server_answers iso_ms clk r v d) (rs_cursor st) st = ?st"
      using ans by (simp add: server_answers_def next_sync_cursor_def Let_def)
    moreover have "length ?rows \<le> SYNC_LIMIT" using False left by simp
    ultimately show ?thesis using page by (simp add: Let_def)
  qed
qed

definition drained :: "(int \<Rightarrow> string) \<Rightarrow> clock \<Rightarrow> string \<Rightarrow> string \<Rightarrow> db \<Rightarrow> room_state \<Rightarrow> room_state" where
  "drained iso_ms clk r v d st = drain_sync (server_answers iso_ms clk r v d) (rs_cursor st) st"

lemma drain_pages:
  assumes ok: "store_ok d" and inv: "stream_inv iso_ms v r d st"
  shows "stream_inv iso_ms v r d ((drained iso_ms clk r v d ^^ k) st)
    \<and> sync_rows d r v (rs_cursor ((drained iso_ms clk r v d ^^ k) st))
        = drop (k * 32000) (sync_rows d r v (rs_cursor st))"
proof (induction k)
  case (Suc k)
  let ?st = "(drained iso_ms clk r v d ^^ k) st"
  have inv': "stream_inv iso_ms v r d ?st" using Suc by blast
  have "stream_inv iso_ms v r d (drained iso_ms clk r v d ?st)
      \<and> sync_rows d r v (rs_cursor (drained iso_ms clk r v d ?st))
          = drop 32000 (sync_rows d r v (rs_cursor ?st))"
    using drain_loop_pages [OF ok inv', where n = 64 and i = 0 and clk = clk]
    by (simp add: drained_def drain_sync_def Let_def SYNC_LIMIT_def)
  then show ?case using Suc by (simp add: add.commute)
qed (use inv in simp)

section \<open>Convergence\<close>

text \<open>A client and the server: the store steps, the client folds a page of /sync or merges a page of
history as the server answers it, or forgets the room and starts over.\<close>

inductive synced :: "(int \<Rightarrow> string) \<Rightarrow> string \<Rightarrow> string \<Rightarrow> db \<Rightarrow> room_state \<Rightarrow> bool" for iso_ms v r where
  sy_start: "db_messages d = [] \<Longrightarrow> db_serials d = Map.empty \<Longrightarrow> synced iso_ms v r d default_room"
| sy_store: "synced iso_ms v r d st \<Longrightarrow> store_step v d d' \<Longrightarrow> synced iso_ms v r d' st"
| sy_page: "synced iso_ms v r d st \<Longrightarrow>
    sync_answer iso_ms now r v d (rs_cursor st) = (events, left) \<Longrightarrow>
    synced iso_ms v r d (apply_sync events st)"
| sy_history: "synced iso_ms v r d st \<Longrightarrow>
    synced iso_ms v r d
      (apply_history (map received (get_messages iso_ms now r v since before limit incl d)) left st)"
| sy_forget: "synced iso_ms v r d st \<Longrightarrow> synced iso_ms v r d default_room"

lemma stream_inv_default:
  assumes "store_ok d" shows "stream_inv iso_ms v r d default_room"
proof -
  have pos: "0 < mr_serial m" if "visible v r d m" for m
    using store_okD(2) [OF assms, of m] that by (simp add: visible_def row_ok_def)
  have "rows_in_order v r d (\<lambda>m. mr_serial m \<le> 0) = []"
    using rows_in_order_props(1) [OF assms, of v r "\<lambda>m. mr_serial m \<le> 0"] pos
    by (metis (mono_tags, lifting) empty_Collect_eq not_less set_empty)
  then show ?thesis
    using pos by (auto simp: stream_inv_def settled_stream_def default_room_def reactors_Nil votes_upto_def
        dest: pos)
qed

lemma synced_inv:
  "synced iso_ms v r d st \<Longrightarrow> store_ok d \<and> stream_inv iso_ms v r d st"
proof (induction rule: synced.induct)
  case (sy_start d)
  then have "store_ok d" by (simp add: store_ok_def)
  then show ?case using stream_inv_default by blast
next
  case (sy_store d st d') then show ?case using stream_inv_step by blast
next
  case (sy_page d st now events left) then show ?case using apply_sync_page(1) by blast
next
  case (sy_history d st) then show ?case using stream_inv_history by blast
next
  case (sy_forget d st) then show ?case using stream_inv_default by blast
qed

text \<open>Over all rows of the room, the votes are what the server's aggregation reports.\<close>

lemma votes_all:
  assumes ok: "store_ok d" and m: "visible v r d m"
    and all: "\<forall>x. visible v r d x \<longrightarrow> mr_serial x \<le> c"
  shows "votes_upto v r d c (mr_id m) code = fold (vote (mr_id m) code) (reaction_rows d (mr_id m) v) {}"
proof -
  let ?t = "mr_id m"
  let ?P = "\<lambda>x. is_reaction x \<and> mr_target x = Some ?t"
  have skip: "vote ?t code x S = S" if "\<not> ?P x" for x S
    using that vote_reaction [of x] by (cases "is_reaction x") (auto simp: vote_def)
  have "filter ?P [x \<leftarrow> db_messages d. visible v r d x \<and> mr_serial x \<le> c]
      = filter ?P [x \<leftarrow> db_messages d. mr_target x = Some ?t \<and> not_blocked d v x]"
    unfolding filter_filter
  proof (rule filter_cong [OF refl])
    fix x assume x: "x \<in> set (db_messages d)"
    have "mr_room x = r" if P: "?P x"
    proof -
      obtain y where "y \<in> set (db_messages d)" "mr_id y = ?t" "mr_room y = mr_room x"
        using store_okD(3) [OF ok x] P by (auto simp: reaction_target_ok_def)
      then show ?thesis
        using row_of_id [OF store_okD(1) [OF ok], of y m] m by (auto simp: visible_def)
    qed
    then show "((visible v r d x \<and> mr_serial x \<le> c) \<and> ?P x)
        = ((mr_target x = Some ?t \<and> not_blocked d v x) \<and> ?P x)"
      using x all by (auto simp: visible_def)
  qed
  then have same: "filter ?P (rows_in_order v r d (\<lambda>x. mr_serial x \<le> c)) = filter ?P (reaction_rows d ?t v)"
    by (simp only: rows_in_order_def reaction_rows_def filter_sort)
  have filt: "fold (vote ?t code) (filter ?P ms) {} = fold (vote ?t code) ms {}" for ms
    by (rule fold_vote_filter) (rule skip)
  show ?thesis
    unfolding votes_upto_def
    by (subst (1 2) filt [symmetric]) (simp only: same)
qed


end
