(* ===== verification/Sync_Examples.thy ===== *)
theory Sync_Examples imports Sync_Spec begin

text \<open>Concrete histories of a room: an instance of the convergence theorem, and the histories in which
a client does not converge, each one admitted by the routes.\<close>

section \<open>A room with a message\<close>

definition stamp :: "int \<Rightarrow> string" where "stamp n = show_int n"

definition ticking :: "int \<Rightarrow> clock" where "ticking t i = t + int i"

definition room0 :: "(string \<times> string) list \<Rightarrow> db" where
  "room0 blocked = \<lparr>db_rooms = [''r''], db_users = Map.empty, db_messages = [], db_serials = Map.empty,
     db_mentions = [], db_media = [], db_docs = [], db_blocked = blocked, db_reads = (\<lambda>_. None)\<rparr>"

definition post :: "string \<Rightarrow> string \<Rightarrow> string \<Rightarrow> new_message" where
  "post mid sender content = \<lparr>nm_id = mid, nm_room = ''r'', nm_sender = sender, nm_content = content,
     nm_hash = [], nm_encrypted = False, nm_iv = None, nm_hmac = None, nm_enc_ver = 1,
     nm_key_version = 1, nm_parent = None, nm_mentions = [], nm_media = []\<rparr>"

definition after :: "db_error + ('a \<times> db) \<Rightarrow> db" where
  "after x = (case x of Inr (_, d) \<Rightarrow> d | Inl _ \<Rightarrow> room0 [])"

definition posted :: "int \<Rightarrow> string \<Rightarrow> string \<Rightarrow> string \<Rightarrow> db \<Rightarrow> db_error + (message \<times> db)" where
  "posted t mid sender content d = create_message stamp (ticking t) (post mid sender content) d"

lemma posted_step:
  assumes "case posted t mid s c d of Inl _ \<Rightarrow> False | Inr _ \<Rightarrow> True" "0 < t"
  shows "store_step v d (after (posted t mid s c d))"
proof -
  obtain m d' where "posted t mid s c d = Inr (m, d')" using assms(1) by (auto split: sum.splits)
  then show ?thesis
    using assms(2) st_create [of stamp "ticking t"] by (simp add: after_def posted_def ticking_def)
qed


section \<open>Event rows\<close>

definition purged :: "int \<Rightarrow> string \<Rightarrow> string \<Rightarrow> db \<Rightarrow> db" where
  "purged t caller mid d =
     (case delete_all_messages stamp (ticking t) ''r'' caller mid d of
        Inr (_, _, d') \<Rightarrow> d' | Inl _ \<Rightarrow> room0 [])"

definition caught_up :: "db \<Rightarrow> room_state \<Rightarrow> room_state" where
  "caught_up d st = drained stamp (ticking 100) ''r'' ''v'' d st"

definition has_message :: "string \<Rightarrow> room_state \<Rightarrow> bool" where
  "has_message mid st \<longleftrightarrow> map_of (rs_messages st) mid \<noteq> None"

definition live_ids :: "db \<Rightarrow> string list" where
  "live_ids d = map mr_id [m \<leftarrow> db_messages d. displayable m]"

text \<open>What the fold does not survive, because the routes let it happen.  A message m1 is posted, a
client holds it, and an admin purges the room.  (1) Deleting the purge marker like any message (the
route asks only for membership) takes the marker out of the stream: the client drains to the end and
still holds m1, of which the server has nothing left.  (2) Publishing the marker's hash re-delivers the
marker behind a message m2 posted after the purge: the client drops m2, which is live on the server.
(3) A marker whose purger the viewer has blocked is filtered from the viewer's stream: m1 stays.
(4) Deleting a reaction event like a message takes the reaction out of the server's aggregation, but
the client keeps showing it.\<close>

theorem event_rows_unprotected:
  "let d1 = after (posted 5 ''m1'' ''a'' ''hello'' (room0 []));
       client = caught_up d1 default_room;
       d2 = purged 10 ''admin'' ''k'' d1;
       deleted = after (soft_delete_message (ticking 20) ''k'' ''r'' d2);
       d3 = after (posted 15 ''m2'' ''a'' ''again'' d2);
       published = after (publish_tx_hash stamp (ticking 20) ''k'' ''r'' ''0x1'' d3);
       b1 = after (posted 5 ''m1'' ''a'' ''hello'' (room0 [(''v'', ''admin'')]));
       b2 = purged 10 ''admin'' ''k'' b1;
       e1 = after (create_emoticon_event stamp (\<lambda>_. []) (ticking 30) ''e'' ''r'' ''b'' ''m1'' ''+1'' True d1);
       e2 = after (soft_delete_message (ticking 40) ''e'' ''r'' e1)
   in has_message ''m1'' client
      \<and> (\<not> has_message ''m1'' (caught_up d2 client))
      \<and> (live_ids deleted = [] \<and> has_message ''m1'' (caught_up deleted client))
      \<and> (live_ids published = [''m2''] \<and> has_message ''m2'' (caught_up d3 client)
           \<and> \<not> has_message ''m2'' (caught_up published client))
      \<and> (live_ids b2 = [] \<and> has_message ''m1'' (caught_up b2 (caught_up b1 default_room)))
      \<and> (surviving_reactors ''m1'' ''v'' e2 = []
           \<and> reactions_for ''m1'' [] (caught_up e2 (caught_up e1 default_room)) = [(''+1'', [''b''])])"
  by code_simp

section \<open>Overlapping drains\<close>

definition edit_to :: "string \<Rightarrow> message_edit" where
  "edit_to content = \<lparr>me_content = content, me_hash = [], me_iv = None, me_hmac = None,
     me_enc_ver = 1, me_key_version = 1\<rparr>"

definition edited :: "int \<Rightarrow> string \<Rightarrow> string \<Rightarrow> db \<Rightarrow> db" where
  "edited t mid content d = after (update_message stamp (ticking t) mid ''r'' (edit_to content) [] [] d)"

definition page_of :: "db \<Rightarrow> int \<Rightarrow> chat_message list" where
  "page_of d since = fst (sync_answer stamp 0 ''r'' ''v'' d since)"

text \<open>Two requests in flight for one room are not serialised, and the fold does not compare
serials.  (1) A /sync page asked for before an edit and applied after the page that carried the edit
puts the old text back under the new cursor, and no later drain repairs it.  (2) A page of history
asked for before a deletion and merged after the deletion was folded brings the deleted message back,
and no later drain removes it.
(3) A first page of history that is cached before the first drain ran restores a cursor at its highest
serial, past events the client never folded: a reaction to m1 below that serial never reaches it,
although the server reports it.\<close>

theorem stale_pages_regress:
  "let d1 = after (posted 5 ''m1'' ''a'' ''old'' (room0 []));
       d2 = edited 10 ''m1'' ''new'' d1;
       crossed = apply_sync (page_of d1 0) (apply_sync (page_of d2 0) default_room);
       d3 = after (soft_delete_message (ticking 20) ''m1'' ''r'' d2);
       history = map received (get_messages stamp 0 ''r'' ''v'' 0 0 50 False d2);
       revived = apply_history history True (caught_up d3 (caught_up d2 default_room));
       e1 = after (create_emoticon_event stamp (\<lambda>_. []) (ticking 30) ''e'' ''r'' ''b'' ''m1'' ''+1'' True d1);
       e2 = after (posted 40 ''m2'' ''a'' ''later'' e1);
       first = apply_history (map received (get_messages stamp 0 ''r'' ''v'' 0 0 50 False e2)) False default_room;
       reopened = caught_up e2 (from_cached (to_cached first) (rs_cursor first))
   in map_option cm_content (map_of (rs_messages (caught_up d2 default_room)) ''m1'') = Some ''new''
      \<and> map_option cm_content (map_of (rs_messages (caught_up d2 crossed)) ''m1'') = Some ''old''
      \<and> live_ids d3 = [] \<and> has_message ''m1'' (caught_up d3 revived)
      \<and> surviving_reactors ''m1'' ''v'' e2 = [(''+1'', [''b''])]
      \<and> reactions_for ''m1'' [] (caught_up e2 first) = [(''+1'', [''b''])]
      \<and> reactions_for ''m1'' [] reopened = []"
  by code_simp

end
