(* ===== verification/Room_Cache.thy ===== *)
theory Room_Cache imports Sync_Examples begin

text \<open>The snapshot of a stream (to_cached, from_cached, cap_rows): what survives a reload.\<close>

section \<open>The shape of a folded stream\<close>

definition stream_wf :: "room_state \<Rightarrow> bool" where
  "stream_wf st \<longleftrightarrow>
     distinct (map fst (rs_messages st))
     \<and> (\<forall>(i, m) \<in> set (rs_messages st). cm_id m = i \<and> is_renderable (message_kind m) \<and> \<not> cm_deleted m)
     \<and> distinct (map fst (rs_reactions st))
     \<and> (\<forall>(t, codes) \<in> set (rs_reactions st). distinct (map fst codes))"

lemma bt_insert_set:
  "set (bt_insert k v m) = insert (k, v) {x \<in> set m. fst x \<noteq> k}"
  by (auto simp: bt_insert_def set_insort_key AList.delete_eq)

lemma bt_insert_distinct:
  assumes "distinct (map fst m)" shows "distinct (map fst (bt_insert k v m))"
proof -
  have ins: "distinct (map fst (insort_key fst (k, v) xs))"
    if "distinct (map fst xs)" "k \<notin> fst ` set xs" for xs
    using that by (induction xs) (auto simp: set_insort_key)
  show ?thesis
    unfolding bt_insert_def using assms by (intro ins) (auto simp: AList.delete_eq distinct_map_filter)
qed

lemma update_set: "set (AList.update k v m) \<subseteq> insert (k, v) (set m)"
  by (induction m) auto

lemma update_pairs:
  assumes "distinct (map fst m)" "\<forall>(i, x) \<in> set m. P i x" "P k v"
  shows "distinct (map fst (AList.update k v m))" "\<forall>(i, x) \<in> set (AList.update k v m). P i x"
  using assms update_set [of k v m] by (auto intro: AList.distinct_update)

lemma delete_pairs:
  assumes "distinct (map fst m)" "\<forall>(i, x) \<in> set m. P i x"
  shows "distinct (map fst (AList.delete k m))" "\<forall>(i, x) \<in> set (AList.delete k m). P i x"
  using assms by (auto simp: AList.delete_eq distinct_map_filter)

lemma lookup_pairs:
  "\<forall>(t, codes) \<in> set rs. distinct (map fst codes) \<Longrightarrow> distinct (map fst (lookup_or [] rs t))"
  by (auto simp: lookup_or_def split: option.split dest!: map_of_SomeD)

lemma wf_reactions:
  assumes "distinct (map fst rs)" "\<forall>(t, codes) \<in> set rs. distinct (map fst codes)"
  shows "distinct (map fst (add_reaction t c s rs))
      \<and> (\<forall>(t, codes) \<in> set (add_reaction t c s rs). distinct (map fst codes))"
    "distinct (map fst (remove_reaction t c s rs))
      \<and> (\<forall>(t, codes) \<in> set (remove_reaction t c s rs). distinct (map fst codes))"
proof -
  note look = lookup_pairs [OF assms(2)]
  show "distinct (map fst (add_reaction t c s rs))
      \<and> (\<forall>(t, codes) \<in> set (add_reaction t c s rs). distinct (map fst codes))"
    unfolding add_reaction_def Let_def
    using update_pairs [OF assms, where k = t] bt_insert_distinct [OF look] by blast
  show "distinct (map fst (remove_reaction t c s rs))
      \<and> (\<forall>(t, codes) \<in> set (remove_reaction t c s rs). distinct (map fst codes))"
  proof (cases "map_of rs t")
    case None then show ?thesis using assms by (simp add: remove_reaction_def)
  next
    case (Some codes)
    then have d: "distinct (map fst codes)" using look [of t] by (simp add: lookup_or_def)
    define codes' where "codes' = (case map_of codes c of None \<Rightarrow> codes
       | Some rc \<Rightarrow> if remove1 s rc = [] then AList.delete c codes else bt_insert c (remove1 s rc) codes)"
    have d': "distinct (map fst codes')"
      using d by (auto simp: codes'_def bt_insert_distinct AList.distinct_delete split: option.split)
    have "remove_reaction t c s rs = (if codes' = [] then AList.delete t rs else AList.update t codes' rs)"
      unfolding remove_reaction_def Some codes'_def option.case
      by (cases "map_of codes c") (simp_all add: Let_def)
    then show ?thesis
      using update_pairs [OF assms d', where k = t] delete_pairs [OF assms, where k = t] by auto
  qed
qed

lemma stream_wf_step:
  assumes "stream_wf st" "is_renderable (message_kind e) \<Longrightarrow> \<not> cm_deleted e"
  shows "stream_wf (stream_step e st)"
proof -
  let ?P = "\<lambda>i m. cm_id m = i \<and> is_renderable (message_kind m) \<and> \<not> cm_deleted m"
  have m: "distinct (map fst (rs_messages st))" "\<forall>(i, m) \<in> set (rs_messages st). ?P i m"
    and r: "distinct (map fst (rs_reactions st))"
      "\<forall>(t, codes) \<in> set (rs_reactions st). distinct (map fst codes)"
    using assms(1) by (auto simp: stream_wf_def)
  note mu = update_pairs [OF m, where k = "cm_id e" and v = e] and md = delete_pairs [OF m, where k = "cm_id e"]
    and rd = delete_pairs [OF r, where k = "cm_id e"] and rr = wf_reactions [OF r]
  consider "message_kind e \<in> {Add, Edit}" | "message_kind e = Delete" | "message_kind e = Delete_All"
    | t c where "message_kind e = Emoticon_Add" "cm_target e = Some t" "cm_code e = Some c"
    | t c where "message_kind e = Emoticon_Remove" "cm_target e = Some t" "cm_code e = Some c"
    | "stream_step e st = st\<lparr>rs_cursor := max (rs_cursor st) (cm_serial e)\<rparr>"
    by (cases "message_kind e"; cases "cm_target e"; cases "cm_code e")
      (auto simp: stream_step_def fold_one_def Let_def)
  then show ?thesis
  proof cases
    case 1
    then have "stream_step e st = st\<lparr>rs_cursor := max (rs_cursor st) (cm_serial e),
        rs_messages := AList.update (cm_id e) e (rs_messages st)\<rparr>"
      by (auto simp: stream_step_def fold_one_def Let_def)
    moreover have "?P (cm_id e) e" using 1 assms(2) by (auto simp: is_renderable_def)
    ultimately show ?thesis using mu r by (simp add: stream_wf_def)
  next
    case 2
    then show ?thesis using md rd
      by (simp add: stream_step_def fold_one_def Let_def stream_wf_def)
  next
    case 3 then show ?thesis by (simp add: stream_step_def fold_one_def Let_def stream_wf_def)
  next
    case (4 t c)
    then show ?thesis using rr(1) [of t c] m
      by (simp add: stream_step_def fold_one_def Let_def stream_wf_def)
  next
    case (5 t c)
    then show ?thesis using rr(2) [of t c] m
      by (simp add: stream_step_def fold_one_def Let_def stream_wf_def)
  next
    case 6 then show ?thesis using m r by (simp add: stream_wf_def)
  qed
qed

lemma stream_wf_fold:
  assumes "\<forall>e \<in> set es. is_renderable (message_kind e) \<longrightarrow> \<not> cm_deleted e" "stream_wf st"
  shows "stream_wf (fold stream_step es st)"
  using assms by (induction es arbitrary: st) (auto intro: stream_wf_step)

lemma stream_wf_merge_one: "stream_wf st \<Longrightarrow> stream_wf (merge_one m st)"
  using update_pairs [of "rs_messages st" "\<lambda>i m. cm_id m = i \<and> is_renderable (message_kind m) \<and> \<not> cm_deleted m"
      "cm_id m" m]
  by (auto simp: merge_one_def stream_wf_def)

lemma stream_wf_history: "stream_wf st \<Longrightarrow> stream_wf (apply_history page left st)"
proof -
  assume "stream_wf st"
  then have "stream_wf (fold merge_one page st)"
    by (induction page arbitrary: st) (auto intro: stream_wf_merge_one)
  then show ?thesis by (simp add: apply_history_def merge_history_def stream_wf_def)
qed

lemma synced_wf: "synced iso_ms v r d st \<Longrightarrow> stream_wf st"
proof (induction rule: synced.induct)
  case (sy_page d st now events left)
  have ok: "store_ok d" using synced_inv [OF sy_page(1)] by blast
  have "\<not> cm_deleted e" if e: "e \<in> set events" "is_renderable (message_kind e)" for e
  proof -
    have ev: "events = map (received \<circ> from_joined_row iso_ms now d)
        (take SYNC_LIMIT (sync_rows d r v (rs_cursor st)))"
      using sy_page(2) by (simp add: sync_answer_rows)
    obtain m where m: "m \<in> set (db_messages d)" "e = received (from_joined_row iso_ms now d m)"
      using e(1) unfolding ev by (auto simp: sync_rows_def dest!: in_set_takeD)
    have "mr_type m \<noteq> MSG_TYPE_DELETE"
      using e(2) kind_of_row(2) [of m] by (auto simp: m kind_received is_renderable_def)
    then have "\<not> mr_deleted m" using store_okD(2) [OF ok m(1)] by (simp add: row_ok_def)
    then show ?thesis by (simp add: m received_def from_joined_row_def from_row_def)
  qed
  then have "stream_wf (fold stream_step events st)" using sy_page(3) by (intro stream_wf_fold) auto
  then show ?case by (simp add: apply_sync_def fold_page_def fst_fold_page stream_wf_def)
next
  case (sy_history d st) then show ?case using stream_wf_history by blast
qed (simp_all add: default_room_def stream_wf_def)

section \<open>The cap\<close>

definition newest_first :: "chat_message list \<Rightarrow> chat_message list" where
  "newest_first rows = sort_key (\<lambda>m. (- cm_timestamp m, - cm_serial m)) rows"

lemma cap_rows_set: "set (cap_rows rows) = set (take MAX_ROWS (newest_first rows))"
  by (simp add: cap_rows_def newest_first_def)

lemma cap_rows_length: "length (cap_rows rows) = min MAX_ROWS (length rows)"
  by (simp add: cap_rows_def min.commute)

lemma cap_rows_newest:
  assumes "x \<in> set rows" "x \<notin> set (cap_rows rows)" "y \<in> set (cap_rows rows)"
  shows "order_key x \<le> order_key y"
proof -
  let ?k = "\<lambda>m. (- cm_timestamp m, - cm_serial m)" and ?s = "newest_first rows"
  have sorted: "sorted (map ?k (take MAX_ROWS ?s @ drop MAX_ROWS ?s))" by (simp add: newest_first_def)
  have "x \<in> set ?s" using assms(1) by (simp add: newest_first_def)
  then have "x \<in> set (take MAX_ROWS ?s) \<union> set (drop MAX_ROWS ?s)"
    by (metis append_take_drop_id set_append)
  then have "x \<in> set (drop MAX_ROWS ?s)" using assms(2) by (auto simp: cap_rows_set)
  moreover have "y \<in> set (take MAX_ROWS ?s)" using assms(3) by (simp add: cap_rows_set)
  ultimately have "?k y \<le> ?k x" using sorted by (auto simp only: map_append sorted_append set_map)
  then show ?thesis by (auto simp: order_key_def less_eq_prod_def)
qed

lemma cap_rows_subset: "set (cap_rows rows) \<subseteq> set rows"
  by (auto simp: cap_rows_set newest_first_def dest!: in_set_takeD)

lemma cap_rows_distinct:
  assumes "distinct (map cm_id rows)" shows "distinct (map cm_id (cap_rows rows))"
proof -
  have "distinct rows" "inj_on cm_id (set rows)" using assms by (simp_all add: distinct_map)
  moreover have "distinct (newest_first rows)" using calculation by (simp add: newest_first_def)
  ultimately have "distinct (cap_rows rows)"
    by (simp add: cap_rows_def newest_first_def [symmetric] distinct_take)
  then show ?thesis
    using \<open>inj_on cm_id (set rows)\<close> cap_rows_subset [of rows] by (auto simp: distinct_map intro: inj_on_subset)
qed

section \<open>Hydration\<close>

lemma hydrate_messages:
  assumes "\<forall>m \<in> set rows. is_renderable (message_kind m) \<and> \<not> cm_deleted m" "distinct (map cm_id rows)"
  shows "map_of (rs_messages (fold hydrate_row rows st)) i =
    (case find (\<lambda>m. cm_id m = i) rows of Some m \<Rightarrow> Some m | None \<Rightarrow> map_of (rs_messages st) i)"
  using assms
proof (induction rows arbitrary: st)
  case (Cons m rows)
  have none: "find (\<lambda>x. cm_id x = i) rows = None" if "cm_id m = i"
    using Cons.prems(2) that unfolding find_None_iff by (metis distinct.simps(2) image_eqI list.set_map list.simps(9))
  have "map_of (rs_messages (hydrate_row m st)) i
      = (if cm_id m = i then Some m else map_of (rs_messages st) i)"
    using Cons.prems(1) by (simp add: hydrate_row_def Let_def AList.update_conv')
  then show ?case using Cons none by (auto split: option.split)
qed simp

lemma hydrate_cursor:
  "rs_cursor (fold hydrate_row rows st) = fold max (map cm_serial rows) (rs_cursor st)"
  by (induction rows arbitrary: st) (simp_all add: hydrate_row_def Let_def max.commute)

lemma hydrate_rest:
  "rs_reactions (fold hydrate_row rows st) = rs_reactions st"
  "rs_has_more (fold hydrate_row rows st) = rs_has_more st"
  "rs_loaded (fold hydrate_row rows st) = rs_loaded st"
  by (induction rows arbitrary: st) (simp_all add: hydrate_row_def Let_def)

lemma set_fold_insort: "set (fold insort_insert who xs) = set who \<union> set xs"
  by (induction who arbitrary: xs) (auto simp: set_insort_insert)

lemma hydrate_codes:
  assumes "distinct (map fst codes)"
  shows "set (lookup_or [] (fold hydrate_code codes C) c) =
    set (lookup_or [] codes c) \<union> set (lookup_or [] C c)"
  using assms
proof (induction codes arbitrary: C)
  case (Cons x codes)
  obtain k who where x: "x = (k, who)" by fastforce
  have "k \<notin> fst ` set codes" using Cons.prems x by simp
  then have "map_of codes k = None" by (simp add: map_of_eq_None_iff)
  then have none: "lookup_or [] codes k = []" by (simp add: lookup_or_def)
  have "set (lookup_or [] (hydrate_code x C) c)
      = (if c = k then set who \<union> set (lookup_or [] C k) else set (lookup_or [] C c))"
    by (simp add: x hydrate_code_def lookup_or_upd set_fold_insort)
  moreover have "lookup_or [] (x # codes) c = (if c = k then who else lookup_or [] codes c)"
    by (simp add: x lookup_or_def)
  ultimately show ?case using Cons none by auto
qed (simp add: lookup_or_def)

lemma hydrate_targets:
  assumes "distinct (map fst L)" "\<forall>(t, codes) \<in> set L. distinct (map fst codes)"
  shows "set (reactors (fold hydrate_reactions L R) t c) = set (reactors L t c) \<union> set (reactors R t c)"
  using assms
proof (induction L arbitrary: R)
  case (Cons x L)
  obtain i codes where x: "x = (i, codes)" by fastforce
  have "i \<notin> fst ` set L" using Cons.prems x by simp
  then have "map_of L i = None" by (simp add: map_of_eq_None_iff)
  then have none: "reactors L i c = []" by (simp add: reactors_def lookup_or_def)
  have "distinct (map fst codes)" using Cons.prems x by simp
  then have "set (reactors (hydrate_reactions x R) t c)
      = (if t = i then set (lookup_or [] codes c) else {}) \<union> set (reactors R t c)"
    by (simp add: x hydrate_reactions_def reactors_def lookup_or_upd hydrate_codes)
  moreover have "reactors (x # L) t c = (if t = i then lookup_or [] codes c else reactors L t c)"
    by (simp add: x reactors_def lookup_or_def)
  ultimately show ?case using Cons none by auto
qed (simp add: reactors_Nil)

lemma fold_max_bounded: "\<forall>x \<in> set xs. x \<le> c \<Longrightarrow> fold max xs (a::int) \<le> max a c"
  by (induction xs arbitrary: a) (auto, smt (verit) max_def)

lemma concat_filter: "[(i, x). (i, x) \<leftarrow> xs, P i] = filter (\<lambda>(i, x). P i) xs"
  by (induction xs) auto

lemma map_of_filter_key: "map_of (filter (\<lambda>(i, x). P i) xs) k = (if P k then map_of xs k else None)"
  by (induction xs) auto



end
