(* ===== verification/Rate_Limit.thy ===== *)
theory Rate_Limit imports Skynet_Prelude "HOL-Library.AList" begin

text \<open>The rate limiter of the server, src/app/server/src/ratelimit.rs: the per-address fixed windows with
their sweep, the address a request is billed to, and the middleware over both.  An Instant and a
Duration are a number of nanoseconds, and \<^verbatim>\<open>duration_since\<close> is the truncated subtraction of naturals,
as in the standard library.  The DashMap is an association list without duplicate keys; one check
holds its entry from the lookup to the increment, so a check is one step.\<close>

section \<open>Addresses\<close>

text \<open>std::net::IpAddr: four octets, or eight 16-bit groups.\<close>

datatype ip_addr = V4 "nat list" | V6 "nat list"

text \<open>The parser of the standard library.  A reader takes the input and returns what it read and the
rest; read_number reads digits greedily and fails on more than max_digits of them, and on a leading
zero of a longer number unless zero prefixes are allowed.\<close>

definition digits_of :: "nat \<Rightarrow> string \<Rightarrow> string" where
  "digits_of radix s = takeWhile (\<lambda>c. digit_value radix c \<noteq> None) s"

definition read_number :: "nat \<Rightarrow> nat \<Rightarrow> nat \<Rightarrow> bool \<Rightarrow> string \<Rightarrow> (nat \<times> string) option" where
  "read_number radix max_digits limit zero_prefix s =
     (let ds = digits_of radix s
      in if ds = [] \<or> max_digits < length ds
            \<or> (\<not> zero_prefix \<and> hd ds = CHR ''0'' \<and> 1 < length ds) then None
         else case digits_value radix 0 ds of
                None \<Rightarrow> None
              | Some v \<Rightarrow> if v < limit then Some (v, drop (length ds) s) else None)"

definition read_char :: "char \<Rightarrow> string \<Rightarrow> string option" where
  "read_char c s = (case s of [] \<Rightarrow> None | x # r \<Rightarrow> if x = c then Some r else None)"

text \<open>read_separator: the separator is expected before every element but the first.\<close>

definition read_separator :: "char \<Rightarrow> bool \<Rightarrow> (string \<Rightarrow> ('a \<times> string) option) \<Rightarrow> string \<Rightarrow> ('a \<times> string) option"
where
  "read_separator sep first inner s =
     (if first then inner s else Option.bind (read_char sep s) inner)"

definition read_octet :: "string \<Rightarrow> (nat \<times> string) option" where
  "read_octet = read_number 10 3 256 False"

fun read_octets :: "nat \<Rightarrow> bool \<Rightarrow> string \<Rightarrow> (nat list \<times> string) option" where
  "read_octets 0 first s = Some ([], s)"
| "read_octets (Suc n) first s =
     (case read_separator (CHR ''.'') first read_octet s of
        None \<Rightarrow> None
      | Some (v, r) \<Rightarrow> map_option (\<lambda>(vs, r). (v # vs, r)) (read_octets n False r))"

definition read_ipv4 :: "string \<Rightarrow> (nat list \<times> string) option" where
  "read_ipv4 = read_octets 4 True"

text \<open>read_groups: up to n groups, the last two of which may be written as an IPv4 address; it returns
the groups, whether it ended with an IPv4 address, and the rest.\<close>

fun read_groups :: "nat \<Rightarrow> bool \<Rightarrow> string \<Rightarrow> nat list \<times> bool \<times> string" where
  "read_groups 0 first s = ([], False, s)"
| "read_groups (Suc n) first s =
     (case (if 0 < n then read_separator (CHR '':'') first read_ipv4 s else None) of
        Some ([a, b, c, d], r) \<Rightarrow> ([a * 256 + b, c * 256 + d], True, r)
      | _ \<Rightarrow>
          (case read_separator (CHR '':'') first (read_number 16 4 65536 True) s of
             None \<Rightarrow> ([], False, s)
           | Some (g, r) \<Rightarrow> (case read_groups n False r of (gs, v4, r) \<Rightarrow> (g # gs, v4, r))))"

definition read_ipv6 :: "string \<Rightarrow> (nat list \<times> string) option" where
  "read_ipv6 s =
     (case read_groups 8 True s of (front, v4, r) \<Rightarrow>
        if length front = 8 then Some (front, r)
        else if v4 then None
        else Option.bind (read_char (CHR '':'') r) (\<lambda>r. Option.bind (read_char (CHR '':'') r) (\<lambda>r.
          case read_groups (7 - length front) True r of (tail, _, r) \<Rightarrow>
            Some (front @ replicate (8 - length front - length tail) 0 @ tail, r))))"

text \<open>str::parse::<IpAddr>: an IPv4 address or else an IPv6 address, and nothing after it.\<close>

definition parse_ip :: "string \<Rightarrow> ip_addr option" where
  "parse_ip s =
     (case (case read_ipv4 s of
              Some (os, r) \<Rightarrow> Some (V4 os, r)
            | None \<Rightarrow> map_option (\<lambda>(gs, r). (V6 gs, r)) (read_ipv6 s)) of
        Some (ip, []) \<Rightarrow> Some ip
      | _ \<Rightarrow> None)"

definition show_v4 :: "nat list \<Rightarrow> string" where
  "show_v4 os = concat (map (\<lambda>i. (if i = 0 then [] else ''.'') @ decimal (os ! i)) [0..<length os])"

section \<open>The address a request is billed to\<close>

text \<open>peer_ip takes the connection's address, when the router has one; client_ip takes the value of
X-Forwarded-For, when the request has one of visible ASCII.\<close>

definition peer_ip :: "ip_addr option \<Rightarrow> ip_addr" where
  "peer_ip conn = (case conn of Some ip \<Rightarrow> ip | None \<Rightarrow> V4 [127, 0, 0, 1])"

definition client_ip :: "ip_addr option \<Rightarrow> string option \<Rightarrow> nat \<Rightarrow> ip_addr" where
  "client_ip conn forwarded trust_proxy =
     (let peer = peer_ip conn in
      if trust_proxy = 0 then peer
      else case forwarded of
        None \<Rightarrow> peer
      | Some f \<Rightarrow>
          (let hops = [s \<leftarrow> map trim (split_char (CHR '','') f). s \<noteq> []]
           in if length hops < trust_proxy then peer
              else case parse_ip (hops ! (length hops - trust_proxy)) of Some ip \<Rightarrow> ip | None \<Rightarrow> peer))"

section \<open>The limiter\<close>

datatype scope = General | Media | Upload | Challenge | Login | Webhook

definition WINDOW :: nat where "WINDOW = 60 * 10 ^ 9"
definition SWEEP_THRESHOLD :: nat where "SWEEP_THRESHOLD = 10000"

definition max_per_minute :: "scope \<Rightarrow> nat" where
  "max_per_minute sc =
     (case sc of General \<Rightarrow> 100 | Media \<Rightarrow> 3000 | Upload \<Rightarrow> 1200 | Challenge \<Rightarrow> 10 | Login \<Rightarrow> 5
      | Webhook \<Rightarrow> 60)"

definition scope_message :: "scope \<Rightarrow> string" where
  "scope_message sc =
     (case sc of
        General \<Rightarrow> ''Too many requests, please try again later''
      | Media \<Rightarrow> ''Too many media requests, please slow down''
      | Upload \<Rightarrow> ''Too many upload requests, please slow down and resume''
      | Challenge \<Rightarrow> ''Too many challenge requests, please try again later''
      | Login \<Rightarrow> ''Too many login attempts, please try again later''
      | Webhook \<Rightarrow> ''Too many webhook posts, please slow down'')"

record window =
  wn_start :: nat
  wn_count :: nat

record verdict =
  vd_limit :: nat
  vd_remaining :: nat
  vd_reset :: nat
  vd_allowed :: bool

record limiter =
  rl_enabled :: bool
  rl_windows :: "((scope \<times> ip_addr) \<times> window) list"
  rl_checks :: nat

definition limiter_new :: "bool \<Rightarrow> limiter" where
  "limiter_new enabled = \<lparr>rl_enabled = enabled, rl_windows = [], rl_checks = 0\<rparr>"

text \<open>check_at: the sweep at every 1024th check of a large table, the entry, its renewal when the window
has passed, the increment of the 32-bit counter (allowed or not), and the verdict.\<close>

definition sweep :: "nat \<Rightarrow> limiter \<Rightarrow> ((scope \<times> ip_addr) \<times> window) list" where
  "sweep now l =
     (if rl_checks l mod 1024 = 0 \<and> SWEEP_THRESHOLD < length (rl_windows l)
      then [(k, w) \<leftarrow> rl_windows l. now - wn_start w < WINDOW] else rl_windows l)"

definition count_request :: "nat \<Rightarrow> window option \<Rightarrow> window" where
  "count_request now found =
     (let entry = (case found of Some w \<Rightarrow> w | None \<Rightarrow> \<lparr>wn_start = now, wn_count = 0\<rparr>);
          entry = (if WINDOW \<le> now - wn_start entry then \<lparr>wn_start = now, wn_count = 0\<rparr> else entry)
      in entry\<lparr>wn_count := (wn_count entry + 1) mod 2 ^ 32\<rparr>)"

definition check_at :: "scope \<Rightarrow> ip_addr \<Rightarrow> nat \<Rightarrow> limiter \<Rightarrow> verdict \<times> limiter" where
  "check_at sc ip now l =
     (let limit = max_per_minute sc in
      if \<not> rl_enabled l then
        (\<lparr>vd_limit = limit, vd_remaining = limit, vd_reset = WINDOW div 10 ^ 9, vd_allowed = True\<rparr>, l)
      else
        let windows = sweep now l;
            entry = count_request now (map_of windows (sc, ip));
            used = wn_count entry;
            elapsed = now - wn_start entry
        in (\<lparr>vd_limit = limit, vd_remaining = limit - used, vd_reset = (WINDOW - elapsed) div 10 ^ 9,
             vd_allowed = used \<le> limit\<rparr>,
            l\<lparr>rl_windows := AList.update (sc, ip) entry windows,
              rl_checks := (rl_checks l + 1) mod u64_limit\<rparr>))"

section \<open>The middleware\<close>

text \<open>enforce: the request is passed on (\<^verbatim>\<open>Ran\<close>) or refused with the message of its scope, and the
verdict goes into the RateLimit headers of either response.\<close>

datatype 'r response = Ran 'r | Too_many_requests string

definition apply_headers :: "'r response \<Rightarrow> verdict \<Rightarrow> 'r response \<times> (string \<times> nat) list" where
  "apply_headers resp v =
     (resp, [(''RateLimit-Limit'', vd_limit v), (''RateLimit-Remaining'', vd_remaining v),
             (''RateLimit-Reset'', vd_reset v)])"

definition enforce ::
  "scope \<Rightarrow> nat \<Rightarrow> ip_addr option \<Rightarrow> string option \<Rightarrow> nat \<Rightarrow> (unit \<Rightarrow> 'r) \<Rightarrow> limiter
     \<Rightarrow> ('r response \<times> (string \<times> nat) list) \<times> limiter" where
  "enforce sc trust_proxy conn forwarded now next_handler l =
     (let ip = client_ip conn forwarded trust_proxy;
          (v, l') = check_at sc ip now l;
          resp = (if vd_allowed v then Ran (next_handler ()) else Too_many_requests (scope_message sc))
      in (apply_headers resp v, l'))"

end
