(* ===== verification/Rate_Spec.thy ===== *)
theory Rate_Spec imports Rate_Limit begin

text \<open>What the rate limiter promises: each (scope, address) pair is metered by its own fixed windows,
whatever the other pairs do and whenever the table is swept; the budget of a window bounds what any
minute admits; and a client cannot choose the address it is billed to.\<close>

section \<open>The declarative limiter\<close>

text \<open>The fixed windows of the request times of one key: a window is opened by a request and holds all
requests of the next minute.  A window admits its first \<^verbatim>\<open>limit\<close> requests.\<close>

function windows_of :: "nat list \<Rightarrow> nat list list" where
  "windows_of [] = []"
| "windows_of (t # ts) =
     (t # takeWhile (\<lambda>x. x - t < WINDOW) ts) # windows_of (dropWhile (\<lambda>x. x - t < WINDOW) ts)"
  by pat_completeness auto
termination
  by (relation "measure length") (simp_all add: length_dropWhile_le le_imp_less_Suc)

definition decisions :: "nat \<Rightarrow> nat \<Rightarrow> bool list" where
  "decisions limit n = replicate (min limit n) True @ replicate (n - limit) False"

definition fixed_windows :: "nat \<Rightarrow> nat list \<Rightarrow> bool list" where
  "fixed_windows limit ts = concat (map (\<lambda>w. decisions limit (length w)) (windows_of ts))"

definition admitted :: "nat \<Rightarrow> nat list \<Rightarrow> nat list" where
  "admitted limit ts = concat (map (take limit) (windows_of ts))"

section \<open>Traces of the limiter\<close>

type_synonym check = "(scope \<times> ip_addr) \<times> nat"

fun run_checks :: "check list \<Rightarrow> limiter \<Rightarrow> bool list" where
  "run_checks [] l = []"
| "run_checks (((sc, ip), now) # cs) l =
     (case check_at sc ip now l of (v, l') \<Rightarrow> vd_allowed v # run_checks cs l')"

definition times_of :: "scope \<times> ip_addr \<Rightarrow> check list \<Rightarrow> nat list" where
  "times_of key cs = map snd (filter (\<lambda>c. fst c = key) cs)"

definition verdicts_of :: "scope \<times> ip_addr \<Rightarrow> check list \<Rightarrow> limiter \<Rightarrow> bool list" where
  "verdicts_of key cs l = map snd (filter (\<lambda>x. fst (fst x) = key) (zip cs (run_checks cs l)))"

text \<open>The remaining decisions of a key whose window opened at s and has counted c requests.\<close>

definition rest_of :: "nat \<Rightarrow> nat \<Rightarrow> nat \<Rightarrow> nat list \<Rightarrow> bool list" where
  "rest_of limit s c ts =
     (let n = length (takeWhile (\<lambda>x. x - s < WINDOW) ts)
      in replicate (min (limit - c) n) True @ replicate (n - (limit - c)) False
           @ fixed_windows limit (dropWhile (\<lambda>x. x - s < WINDOW) ts))"

definition pending_of :: "nat \<Rightarrow> window option \<Rightarrow> nat list \<Rightarrow> bool list" where
  "pending_of limit found ts =
     (case found of None \<Rightarrow> fixed_windows limit ts
      | Some w \<Rightarrow> rest_of limit (wn_start w) (wn_count w) ts)"

lemma WINDOW_pos [simp]: "0 < WINDOW" by (simp add: WINDOW_def)

lemma fixed_windows_Cons: "fixed_windows limit (t # ts) = rest_of limit t 0 (t # ts)"
  by (simp add: fixed_windows_def rest_of_def decisions_def)

lemma rest_of_expired: "\<not> t - s < WINDOW \<Longrightarrow> rest_of limit s c (t # ts) = fixed_windows limit (t # ts)"
  by (simp add: rest_of_def)

lemma rest_of_live:
  assumes "t - s < WINDOW"
  shows "rest_of limit s c (t # ts) = (c < limit) # rest_of limit s (Suc c) ts"
proof (cases "c < limit")
  case True
  then have "limit - c = Suc (limit - Suc c)" by simp
  then show ?thesis using assms True by (simp add: rest_of_def Let_def)
next
  case False
  then show ?thesis using assms by (simp add: rest_of_def Let_def)
qed

text \<open>One request of the key, as the implementation counts it.\<close>

lemma pending_step:
  assumes "\<forall>w. found = Some w \<longrightarrow> wn_count w + 1 < 2 ^ 32" and "0 < limit"
  shows "pending_of limit found (now # ts)
    = (wn_count (count_request now found) \<le> limit) # pending_of limit (Some (count_request now found)) ts"
proof (cases "\<exists>w. found = Some w \<and> now - wn_start w < WINDOW")
  case True
  then show ?thesis using assms
    by (auto simp: pending_of_def count_request_def rest_of_live Suc_le_eq)
next
  case False
  then have "pending_of limit found (now # ts) = rest_of limit now 0 (now # ts)"
    by (auto simp: pending_of_def rest_of_expired fixed_windows_Cons split: option.split)
  moreover have "count_request now found = \<lparr>wn_start = now, wn_count = 1\<rparr>"
    using False by (auto simp: count_request_def not_less split: option.split)
  ultimately show ?thesis using assms(2) by (simp add: pending_of_def rest_of_live)
qed

text \<open>A sweep drops only windows that every later request would renew.\<close>

lemma map_of_sweep:
  assumes "distinct (map fst (rl_windows l))"
  shows "map_of (sweep now l) key = map_of (rl_windows l) key
    \<or> map_of (sweep now l) key = None
      \<and> (\<exists>w. map_of (rl_windows l) key = Some w \<and> \<not> now - wn_start w < WINDOW)"
proof -
  have "map_of (filter (\<lambda>(k, w). P w) xs) key
      = (case map_of xs key of Some w \<Rightarrow> if P w then Some w else None | None \<Rightarrow> None)"
    if "distinct (map fst xs)" for P and xs :: "('a \<times> window) list" and key
    using that
  proof (induction xs)
    case (Cons x xs)
    then have "map_of xs (fst x) = None" by (simp add: map_of_eq_None_iff)
    then show ?case using Cons by (cases x) (auto split: option.splits)
  qed simp
  from this [OF assms] show ?thesis
    by (auto simp: sweep_def split: option.split)
qed

lemma pending_later:
  assumes "\<forall>t \<in> set ts. now \<le> t" "\<not> now - wn_start w < WINDOW"
  shows "pending_of limit (Some w) ts = pending_of limit None ts"
  using assms by (cases ts) (auto simp: pending_of_def rest_of_expired rest_of_def fixed_windows_def)

lemma sweep_distinct: "distinct (map fst (rl_windows l)) \<Longrightarrow> distinct (map fst (sweep now l))"
  by (simp add: sweep_def distinct_map_filter)

lemma pending_sweep:
  assumes "distinct (map fst (rl_windows l))" "\<forall>t \<in> set ts. now \<le> t"
  shows "pending_of limit (map_of (sweep now l) key) ts = pending_of limit (map_of (rl_windows l) key) ts"
  using map_of_sweep [OF assms(1), of now key] pending_later [OF assms(2)] by fastforce

text \<open>A check of any key in an enabled limiter: its verdict, and the windows it leaves.\<close>

lemma check_at_enabled:
  assumes "rl_enabled l"
  shows "vd_allowed (fst (check_at sc ip now l))
      \<longleftrightarrow> wn_count (count_request now (map_of (sweep now l) (sc, ip))) \<le> max_per_minute sc"
    and "rl_windows (snd (check_at sc ip now l))
      = AList.update (sc, ip) (count_request now (map_of (sweep now l) (sc, ip))) (sweep now l)"
    and "rl_enabled (snd (check_at sc ip now l))"
  using assms by (simp_all add: check_at_def Let_def)

lemma count_request_bound: "wn_count (count_request now found) \<le> 1 \<or>
    (\<exists>w. found = Some w \<and> wn_count (count_request now found) \<le> wn_count w + 1)"
  by (auto simp: count_request_def split: option.split)

lemma max_per_minute_pos [simp]: "0 < max_per_minute sc"
  by (simp add: max_per_minute_def split: scope.split)

lemma verdicts_of_Cons:
  "verdicts_of key (((sc, ip), now) # cs) l =
     (if key = (sc, ip) then [vd_allowed (fst (check_at sc ip now l))] else [])
       @ verdicts_of key cs (snd (check_at sc ip now l))"
  by (auto simp: verdicts_of_def split: prod.split)

lemma times_of_Cons:
  "times_of key ((k, now) # cs) = (if key = k then [now] else []) @ times_of key cs"
  by (auto simp: times_of_def)

lemma trace_windows:
  assumes "rl_enabled l" "distinct (map fst (rl_windows l))" "sorted (map snd cs)"
    and "\<forall>w. map_of (rl_windows l) key = Some w \<longrightarrow> wn_count w + length cs < 2 ^ 32"
    and "length cs < 2 ^ 32"
  shows "verdicts_of key cs l
    = pending_of (max_per_minute (fst key)) (map_of (rl_windows l) key) (times_of key cs)"
  using assms
proof (induction cs arbitrary: l)
  case Nil
  then show ?case
    by (simp add: verdicts_of_def times_of_def pending_of_def rest_of_def fixed_windows_def split: option.split)
next
  case (Cons c cs)
  obtain sc ip now where c: "c = ((sc, ip), now)" by (metis prod.exhaust)
  let ?l = "snd (check_at sc ip now l)" and ?lim = "max_per_minute (fst key)"
  let ?found = "map_of (sweep now l) key"
  note en = check_at_enabled [OF Cons.prems(1)]
  have later: "\<forall>t \<in> set (times_of key (c # cs)). now \<le> t"
    using Cons.prems(3) by (auto simp: c times_of_def)
  have old: "pending_of ?lim (map_of (rl_windows l) key) (times_of key (c # cs))
      = pending_of ?lim ?found (times_of key (c # cs))"
    using pending_sweep [OF Cons.prems(2) later] by simp
  have small: "\<forall>w. ?found = Some w \<longrightarrow> wn_count w + Suc (length cs) < 2 ^ 32"
    using map_of_sweep [OF Cons.prems(2), of now key] Cons.prems(4) by (auto simp: c)
  have next_small: "\<forall>w. map_of (rl_windows ?l) key = Some w \<longrightarrow> wn_count w + length cs < 2 ^ 32"
    using small count_request_bound [of now ?found] Cons.prems(5)
    by (auto simp: en(2) update_conv')
  have IH: "verdicts_of key cs ?l = pending_of ?lim (map_of (rl_windows ?l) key) (times_of key cs)"
    using Cons.prems next_small
    by (intro Cons.IH) (simp_all add: en distinct_update sweep_distinct c)
  show ?case
  proof (cases "key = (sc, ip)")
    case True
    have "pending_of ?lim ?found (now # times_of key cs)
        = (wn_count (count_request now ?found) \<le> ?lim)
            # pending_of ?lim (Some (count_request now ?found)) (times_of key cs)"
      using small by (intro pending_step) auto
    then show ?thesis using True IH old
      by (simp add: c verdicts_of_Cons times_of_Cons en update_conv')
  next
    case False
    then show ?thesis using IH old by (simp add: c verdicts_of_Cons times_of_Cons en update_conv')
  qed
qed

lemma limiter_verdicts:
  assumes "sorted (map snd cs)" "length cs < 2 ^ 32"
  shows "verdicts_of key cs (limiter_new True)
    = fixed_windows (max_per_minute (fst key)) (times_of key cs)"
  using trace_windows [of "limiter_new True" cs key] assms by (simp add: limiter_new_def pending_of_def)

section \<open>What a minute admits\<close>

lemma windows_of_later:
  assumes "sorted ts" "w \<in> set (windows_of ts)" "x \<in> set w" "\<forall>t \<in> set ts. a \<le> t"
  shows "a \<le> x"
  using assms
proof (induction ts rule: windows_of.induct)
  case (2 t ts)
  have "sorted (dropWhile (\<lambda>x. x - t < WINDOW) ts)" using "2.prems"(1) by (simp add: sorted_dropWhile)
  then show ?case using 2 by (auto dest!: set_takeWhileD set_dropWhileD)
qed simp

lemma admitted_later:
  assumes "sorted ts" "\<forall>t \<in> set ts. b \<le> t"
  shows "[t \<leftarrow> admitted limit ts. a \<le> t \<and> t < b] = []"
  using windows_of_later [OF assms(1) _ _ assms(2)]
  by (fastforce simp: admitted_def filter_empty_conv dest: in_set_takeD)

lemma after_window:
  assumes "sorted (t # ts)"
  shows "\<forall>x \<in> set (dropWhile (\<lambda>x. x - t < WINDOW) ts). t + WINDOW \<le> x"
proof (cases "dropWhile (\<lambda>x. x - t < WINDOW) ts")
  case (Cons y ys)
  then have "\<not> y - t < WINDOW" by (simp add: dropWhile_eq_Cons_conv)
  then have "t + WINDOW \<le> y" using WINDOW_pos by linarith
  moreover have "sorted (y # ys)" using assms Cons by (metis sorted_dropWhile sorted_simps(2))
  then have "\<forall>x \<in> set (y # ys). y \<le> x" by simp
  ultimately show ?thesis unfolding Cons by (meson order_trans)
next
  case Nil
  then show ?thesis by (simp only: list.set ball_empty)
qed

lemma admitted_Cons:
  "admitted limit (t # ts) = take limit (t # takeWhile (\<lambda>x. x - t < WINDOW) ts)
     @ admitted limit (dropWhile (\<lambda>x. x - t < WINDOW) ts)"
  by (simp add: admitted_def)

lemma admitted_from:
  assumes "sorted ts" "\<forall>t \<in> set ts. a \<le> t"
  shows "length [t \<leftarrow> admitted limit ts. a \<le> t \<and> t < a + WINDOW] \<le> limit"
proof (cases ts)
  case (Cons t us)
  let ?rest = "dropWhile (\<lambda>x. x - t < WINDOW) us"
  have "\<forall>x \<in> set ?rest. a + WINDOW \<le> x" using after_window [of t us] assms Cons by fastforce
  moreover have "sorted ?rest" using assms(1) Cons by (simp add: sorted_dropWhile)
  ultimately have "[x \<leftarrow> admitted limit ?rest. a \<le> x \<and> x < a + WINDOW] = []"
    by (intro admitted_later)
  moreover have "length (filter P (take limit xs)) \<le> limit" for P and xs :: "nat list"
    by (metis length_filter_le length_take min.cobounded2 order_trans)
  ultimately show ?thesis by (simp only: Cons admitted_Cons filter_append length_append) simp
qed (simp add: admitted_def)

lemma admitted_at_most_twice:
  assumes "sorted ts"
  shows "length [t \<leftarrow> admitted limit ts. a \<le> t \<and> t < a + WINDOW] \<le> 2 * limit"
  using assms
proof (induction ts rule: windows_of.induct)
  case (2 t ts)
  let ?P = "\<lambda>x. a \<le> x \<and> x < a + WINDOW"
  let ?first = "take limit (t # takeWhile (\<lambda>x. x - t < WINDOW) ts)"
    and ?rest = "dropWhile (\<lambda>x. x - t < WINDOW) ts"
  have sorted: "sorted ?rest" using "2.prems" by (simp add: sorted_dropWhile)
  have IH: "length (filter ?P (admitted limit ?rest)) \<le> 2 * limit" using 2 sorted by simp
  have first: "length (filter ?P ?first) \<le> limit"
    by (metis length_filter_le length_take min.cobounded2 order_trans)
  consider "a \<le> t + WINDOW" | "t + WINDOW \<le> a" by linarith
  then show ?case
  proof cases
    case 1
    then have "\<forall>x \<in> set ?rest. a \<le> x" using after_window [OF "2.prems"] by fastforce
    from admitted_from [OF sorted this, where limit = limit] first show ?thesis
      by (simp add: admitted_Cons)
  next
    case 2
    have "x < a" if "x \<in> set ?first" for x
    proof -
      have "x = t \<or> x - t < WINDOW" using in_set_takeD [OF that] by (auto dest!: set_takeWhileD)
      then show ?thesis using 2 WINDOW_pos by linarith
    qed
    then have "filter ?P ?first = []" by (fastforce simp: filter_empty_conv)
    then show ?thesis using IH by (simp only: admitted_Cons filter_append append_Nil)
  qed
qed (simp add: admitted_def)

text \<open>The admitted times, read off the verdicts.\<close>

lemma zip_decisions:
  "map fst (filter snd (zip xs (decisions limit (length xs)))) = take limit xs"
proof -
  have "map fst (filter snd (zip ys (replicate (length ys) True))) = ys"
    and "filter snd (zip ys (replicate (length ys) False)) = []" for ys :: "'a list"
    by (induction ys) auto
  note flags = this
  have "decisions limit (length xs) = replicate (length (take limit xs)) True
      @ replicate (length (drop limit xs)) False"
    by (simp add: decisions_def min.commute)
  then have "zip xs (decisions limit (length xs))
      = zip (take limit xs) (replicate (length (take limit xs)) True)
        @ zip (drop limit xs) (replicate (length (drop limit xs)) False)"
    by (metis append_take_drop_id length_replicate zip_append)
  then show ?thesis by (simp only: filter_append map_append flags) simp
qed

lemma zip_fixed_windows:
  "map fst (filter snd (zip ts (fixed_windows limit ts))) = admitted limit ts"
proof (induction ts rule: windows_of.induct)
  case (2 t ts)
  let ?w = "t # takeWhile (\<lambda>x. x - t < WINDOW) ts" and ?rest = "dropWhile (\<lambda>x. x - t < WINDOW) ts"
  have "t # ts = ?w @ ?rest" by simp
  moreover have "fixed_windows limit (t # ts) = decisions limit (length ?w) @ fixed_windows limit ?rest"
    by (simp add: fixed_windows_def)
  moreover have "length ?w = length (decisions limit (length ?w))" by (simp add: decisions_def)
  ultimately have "zip (t # ts) (fixed_windows limit (t # ts))
      = zip ?w (decisions limit (length ?w)) @ zip ?rest (fixed_windows limit ?rest)"
    by (metis zip_append)
  then show ?case using 2 zip_decisions [of ?w limit]
    by (simp only: filter_append map_append admitted_Cons)
qed (simp add: admitted_def fixed_windows_def)

definition admitted_by :: "scope \<times> ip_addr \<Rightarrow> check list \<Rightarrow> limiter \<Rightarrow> nat list" where
  "admitted_by key cs l =
     map (snd \<circ> fst) (filter (\<lambda>x. fst (fst x) = key \<and> snd x) (zip cs (run_checks cs l)))"

lemma admitted_by_eq: "admitted_by key cs l = map fst (filter snd (zip (times_of key cs) (verdicts_of key cs l)))"
proof (induction cs arbitrary: l)
  case (Cons c cs)
  obtain sc ip now where c: "c = ((sc, ip), now)" by (metis prod.exhaust)
  have "admitted_by key (c # cs) l =
      (if key = (sc, ip) \<and> vd_allowed (fst (check_at sc ip now l)) then [now] else [])
        @ admitted_by key cs (snd (check_at sc ip now l))"
    by (auto simp: c admitted_by_def split: prod.split)
  then show ?case by (simp add: c verdicts_of_Cons times_of_Cons Cons)
qed (simp add: admitted_by_def times_of_def)

text \<open>C25. The limiter of a running server meters every (scope, address) pair by its own fixed windows:
for any sequence of checks of any pairs at times that do not go back, the verdicts of one pair are those
of the declarative limiter on its own request times alone.  Other pairs, and the sweeps of the table, do
not change them.  A disabled limiter allows everything.\<close>

theorem limiter_is_fixed_windows:
  assumes "sorted (map snd cs)" "length cs < 2 ^ 32"
  shows "verdicts_of key cs (limiter_new True)
      = fixed_windows (max_per_minute (fst key)) (times_of key cs)
    \<and> run_checks cs (limiter_new False) = replicate (length cs) True"
proof -
  have "run_checks cs (limiter_new False) = replicate (length cs) True"
    by (induction cs) (auto simp: check_at_def limiter_new_def Let_def split: prod.splits)
  then show ?thesis using limiter_verdicts [OF assms] by blast
qed

text \<open>Seven login attempts from one address in a second, with a challenge of another between them.\<close>

definition login_burst :: "check list" where
  "login_burst = map (\<lambda>t. ((Login, V4 [9, 9, 9, 9]), t * 10 ^ 8)) [0, 1, 2] @
     ((Challenge, V4 [8, 8, 8, 8]), 250000000) # map (\<lambda>t. ((Login, V4 [9, 9, 9, 9]), t * 10 ^ 8)) [3, 4, 5, 6]"

lemma login_burst_ok: "sorted (map snd login_burst)" "length login_burst < 2 ^ 32"
  by (simp_all add: login_burst_def)

theorem limiter_is_fixed_windows_witness:
  "verdicts_of (Login, V4 [9, 9, 9, 9]) login_burst (limiter_new True)
     = [True, True, True, True, True, False, False]"
proof -
  let ?ts = "map (\<lambda>t. t * 10 ^ 8) [0, 1, 2, 3, 4, 5, 6] :: nat list"
  have "times_of (Login, V4 [9, 9, 9, 9]) login_burst = ?ts"
    by (simp add: times_of_def login_burst_def)
  moreover have "windows_of ?ts = [?ts]" by (simp add: WINDOW_def)
  moreover have "length ?ts = 7" by simp
  moreover have "decisions 5 7 = [True, True, True, True, True, False, False]"
    by (simp add: decisions_def numeral_eq_Suc)
  ultimately have "fixed_windows (max_per_minute Login) (times_of (Login, V4 [9, 9, 9, 9]) login_burst)
      = [True, True, True, True, True, False, False]"
    by (simp only: fixed_windows_def max_per_minute_def scope.case list.map concat.simps append_Nil2)
  then show ?thesis
    using limiter_is_fixed_windows [OF login_burst_ok, of "(Login, V4 [9, 9, 9, 9])"] by simp
qed

text \<open>In any minute, wherever it starts, the limiter admits at most twice the budget of a scope from
one address, and at most once the budget from the first request on.\<close>

theorem limiter_at_most_twice:
  assumes "sorted (map snd cs)" "length cs < 2 ^ 32"
  shows "length [t \<leftarrow> admitted_by key cs (limiter_new True). a \<le> t \<and> t < a + WINDOW]
      \<le> 2 * max_per_minute (fst key)
    \<and> (\<forall>first later. times_of key cs = first # later \<longrightarrow>
        length [t \<leftarrow> admitted_by key cs (limiter_new True). first \<le> t \<and> t < first + WINDOW]
          \<le> max_per_minute (fst key))"
proof -
  have adm: "admitted_by key cs (limiter_new True) = admitted (max_per_minute (fst key)) (times_of key cs)"
    by (simp only: admitted_by_eq limiter_verdicts [OF assms] zip_fixed_windows)
  have sorted: "sorted (times_of key cs)"
    using assms(1) unfolding times_of_def by (rule sorted_filter)
  have "\<forall>t \<in> set (times_of key cs). first \<le> t" if "times_of key cs = first # us" for first us
    using sorted by (simp add: that)
  then show ?thesis using admitted_at_most_twice [OF sorted] admitted_from [OF sorted] by (metis adm)
qed

theorem limiter_at_most_twice_witness:
  "length [t \<leftarrow> admitted_by (Login, V4 [9, 9, 9, 9]) login_burst (limiter_new True).
      0 \<le> t \<and> t < 0 + WINDOW] \<le> 2 * max_per_minute Login"
  using limiter_at_most_twice [OF login_burst_ok, of 0 "(Login, V4 [9, 9, 9, 9])"] by simp

section \<open>The billed address cannot be chosen\<close>

lemma hd_radix_string: "0 < n \<Longrightarrow> 2 \<le> radix \<Longrightarrow> radix \<le> 16 \<Longrightarrow> hd (radix_string radix n) \<noteq> CHR ''0''"
proof (induction radix n rule: radix_string.induct)
  case (1 radix n)
  have "digit_char d \<noteq> CHR ''0''" if "0 < d" "d < 16" for d
    using that digit_value_char [of d 16] by (auto simp: digit_value_def char_class_codes)
  then show ?case
    using 1 by (cases "n < radix") (auto simp: radix_string.simps [of radix n] div_greater_zero_iff)
qed

lemma read_octet_decimal:
  assumes "n < 256" "r = [] \<or> hd r = CHR ''.''"
  shows "read_octet (decimal n @ r) = Some (n, r)"
proof -
  have "digit_value 10 c \<noteq> None" if "c \<in> set (decimal n)" for c
    using that decimal_digits digit_value_digit by fastforce
  moreover have "digit_value 10 (CHR ''.'') = None" by (simp add: digit_value_def char_class_codes)
  ultimately have ds: "digits_of 10 (decimal n @ r) = decimal n"
    using assms(2) unfolding digits_of_def by (cases r) (auto simp: takeWhile_append2)
  have "length (decimal n) \<le> 3"
    using length_radix_string [of 10 n 2] assms(1) by (simp add: decimal_def)
  moreover have "hd (decimal n) \<noteq> CHR ''0'' \<or> length (decimal n) = 1"
    using hd_radix_string [of n 10] by (cases "n = 0") (auto simp: decimal_def radix_string.simps [of 10 0])
  moreover have "digits_value 10 0 (decimal n) = Some n"
    by (simp add: decimal_def digits_value_radix_string)
  ultimately show ?thesis
    using assms(1) unfolding read_octet_def read_number_def ds Let_def
    by (auto simp: decimal_def)
qed

lemma parse_show_v4:
  assumes "length os = 4" "\<forall>v \<in> set os. v < 256"
  shows "parse_ip (show_v4 os) = Some (V4 os)"
proof -
  obtain a b c d where os: "os = [a, b, c, d]"
    using assms(1) by (auto simp: length_Suc_conv numeral_eq_Suc)
  have "show_v4 os = decimal a @ ''.'' @ decimal b @ ''.'' @ decimal c @ ''.'' @ decimal d"
    by (simp add: os show_v4_def upt_rec)
  then have "read_ipv4 (show_v4 os) = Some (os, [])"
    using assms(2) read_octet_decimal [of d "[]"]
    by (simp add: os read_ipv4_def numeral_eq_Suc read_separator_def read_char_def read_octet_decimal)
  then show ?thesis by (simp add: parse_ip_def)
qed

lemma show_v4_chars:
  assumes "c \<in> set (show_v4 os)"
  shows "is_graphic c" "c \<noteq> CHR '',''"
proof -
  have "c = CHR ''.'' \<or> is_ascii_digit c" using assms decimal_digits by (auto simp: show_v4_def split: if_splits)
  then show "is_graphic c" "c \<noteq> CHR '',''" by (auto simp: is_graphic_def char_class_codes)
qed

lemma trim_space:
  assumes "\<forall>c \<in> set s. is_graphic c"
  shows "trim (CHR '' '' # s) = s"
proof -
  have "strip_one white_space (CHR '' '' # s) = Some s"
    by (simp add: white_space_def starts_with_def)
  then have "strip_all white_space (CHR '' '' # s) = strip_all white_space s"
    by (simp add: strip_all.simps [of _ "CHR '' '' # s"])
  then show ?thesis using trim_graphic [OF assms] by (simp add: trim_def)
qed

lemma split_forwarded:
  assumes "\<forall>os \<in> set octets. os \<noteq> []"
  shows "[s \<leftarrow> map trim (split_char (CHR '','') (sent @ concat (map (\<lambda>os. '', '' @ show_v4 os) octets))). s \<noteq> []]
    = [s \<leftarrow> map trim (split_char (CHR '','') sent). s \<noteq> []] @ map show_v4 octets"
  using assms
proof (induction octets arbitrary: sent)
  case (Cons os octets)
  have graphic: "\<forall>c \<in> set (show_v4 os). is_graphic c" and comma: "CHR '','' \<notin> set (CHR '' '' # show_v4 os)"
    using show_v4_chars [of _ os] by auto
  have "decimal (os ! 0) \<noteq> []" by (simp add: decimal_def)
  then have ne: "show_v4 os \<noteq> []"
    using Cons.prems by (auto simp: show_v4_def intro!: bexI [of _ 0])
  have "[s \<leftarrow> map trim (split_char (CHR '','') (sent @ '', '' @ show_v4 os)). s \<noteq> []]
      = [s \<leftarrow> map trim (split_char (CHR '','') sent). s \<noteq> []] @ [show_v4 os]"
    using split_char_append [of "CHR '',''" sent "CHR '' '' # show_v4 os"] split_char_single [OF comma]
      trim_space [OF graphic] ne by simp
  then show ?case using Cons.IH [of "sent @ '', '' @ show_v4 os"] Cons.prems by simp
qed simp

text \<open>A client cannot choose the address it is billed to.  Behind N proxies, each of which appends the
address it saw to X-Forwarded-For, the request is billed to the address the outermost proxy saw,
whatever header the client sent itself; without a configured proxy it is billed to its connection,
whatever the header says.\<close>

theorem forged_header_ignored:
  assumes "octets \<noteq> []" "\<forall>os \<in> set octets. length os = 4 \<and> (\<forall>v \<in> set os. v < 256)"
  shows "client_ip conn (Some (sent @ concat (map (\<lambda>os. '', '' @ show_v4 os) octets))) (length octets)
      = V4 (hd octets)
    \<and> client_ip conn header 0 = peer_ip conn"
proof -
  have ne: "\<forall>os \<in> set octets. os \<noteq> []" using assms(2) by fastforce
  let ?f = "sent @ concat (map (\<lambda>os. '', '' @ show_v4 os) octets)"
  let ?own = "[s \<leftarrow> map trim (split_char (CHR '','') sent). s \<noteq> []]"
  have "show_v4 (hd octets) = (?own @ map show_v4 octets) ! (length (?own @ map show_v4 octets) - length octets)"
    using assms(1) by (simp add: nth_append hd_conv_nth)
  moreover have "parse_ip (show_v4 (hd octets)) = Some (V4 (hd octets))"
    using assms by (intro parse_show_v4) auto
  ultimately have "client_ip conn (Some ?f) (length octets) = V4 (hd octets)"
    using assms(1) unfolding client_ip_def Let_def option.case split_forwarded [OF ne] by simp
  then show ?thesis by (simp add: client_ip_def)
qed

theorem forged_header_ignored_witness:
  "client_ip None (Some (''127.0.0.1'' @ concat (map (\<lambda>os. '', '' @ show_v4 os) [[9, 9, 9, 9], [10, 0, 0, 1]]))) 2
     = V4 [9, 9, 9, 9]"
proof -
  let ?octets = "[[9, 9, 9, 9], [10, 0, 0, 1]] :: nat list list"
  have "?octets \<noteq> []" "\<forall>os \<in> set ?octets. length os = 4 \<and> (\<forall>v \<in> set os. v < 256)" by simp_all
  note * = forged_header_ignored [OF this, of None "''127.0.0.1''" None, THEN conjunct1]
  have "length ?octets = 2" "hd ?octets = [9, 9, 9, 9]" by simp_all
  with * show ?thesis by (simp only:)
qed

end
