(* ===== verification/Room_Db.thy ===== *)
theory Room_Db imports Message_Db Ids begin

text \<open>The tables of rooms, rosters and keys, with the operations on them: src/app/server/src/db/rooms.rs,
keys.rs and invites.rs, the eviction of db/admin.rs and the lookups of db/users.rs that the room routes
use.  The message store of Message_Db is a part of the state, since a room is the owner of its messages,
serials and read pointers.  Tables are lists in insertion order, which is the order of their
autoincrement ids; the ids themselves are not modelled, and timestamps are given out as numbers.  An
operation whose only failure is an I/O error of SQLite returns its result directly.  Lowercasing is that
of ASCII: the strings are wallet addresses.\<close>

section \<open>Tables\<close>

record room_row =
  rm_id :: string
  rm_name :: string
  rm_description :: "string option"
  rm_key_version :: int
  rm_pending :: bool
  rm_kind :: string
  rm_dm_key :: "string option"
  rm_created_at :: int

record member_row =
  mb_room :: string
  mb_user :: string
  mb_joined_at :: int

record admin_row =
  ad_room :: string
  ad_user :: string
  ad_created_at :: int

record invitation_row =
  vi_room :: string
  vi_invited :: string
  vi_by :: string
  vi_created_at :: int

record hidden_row =
  hd_user :: string
  hd_room :: string
  hd_created_at :: int

record key_wrap =
  kw_user :: string
  kw_key :: string
  kw_ephemeral :: string
  kw_iv :: string
  kw_hmac :: string
  kw_enc_ver :: int

record key_row =
  rk_room :: string
  rk_wrap :: key_wrap
  rk_version :: int
  rk_created_at :: int

record invite_link =
  il_id :: string
  il_room :: string
  il_hash :: string
  il_by :: string
  il_created_at :: int
  il_expires_at :: int
  il_max_uses :: "int option"
  il_use_count :: int
  il_revoked_at :: "int option"

record server_db =
  sv_store :: db
  sv_rooms :: "room_row list"
  sv_members :: "member_row list"
  sv_admins :: "admin_row list"
  sv_invitations :: "invitation_row list"
  sv_hidden :: "hidden_row list"
  sv_keys :: "key_row list"
  sv_links :: "invite_link list"

definition MAX_ADMINS :: nat where "MAX_ADMINS = 9"

definition ROOM_KIND_CHANNEL :: string where "ROOM_KIND_CHANNEL = ''channel''"
definition ROOM_KIND_DM :: string where "ROOM_KIND_DM = ''dm''"
definition ROOM_KIND_GROUP_DM :: string where "ROOM_KIND_GROUP_DM = ''group_dm''"
definition ROOM_KIND_NOTE :: string where "ROOM_KIND_NOTE = ''note''"
definition ROOM_KIND_JARVIS :: string where "ROOM_KIND_JARVIS = ''jarvis''"
definition ROOM_KIND_LOBBY :: string where "ROOM_KIND_LOBBY = ''lobby''"

lemmas room_kind_defs = ROOM_KIND_CHANNEL_def ROOM_KIND_DM_def ROOM_KIND_GROUP_DM_def
  ROOM_KIND_NOTE_def ROOM_KIND_JARVIS_def ROOM_KIND_LOBBY_def

definition STATIC_ROOM_KINDS :: "string list" where
  "STATIC_ROOM_KINDS = [ROOM_KIND_NOTE, ROOM_KIND_JARVIS, ROOM_KIND_LOBBY]"

definition is_direct :: "room_row \<Rightarrow> bool" where
  "is_direct r \<longleftrightarrow> rm_kind r = ROOM_KIND_DM \<or> rm_kind r = ROOM_KIND_GROUP_DM"

definition is_static :: "room_row \<Rightarrow> bool" where
  "is_static r \<longleftrightarrow> rm_kind r \<in> set STATIC_ROOM_KINDS"

definition fixed_roster :: "room_row \<Rightarrow> string option" where
  "fixed_roster r =
     (if is_static r then Some ''a built-in room''
      else if is_direct r then Some ''a direct message'' else None)"

section \<open>Users\<close>

definition user_exists :: "string \<Rightarrow> server_db \<Rightarrow> bool" where
  "user_exists a d \<longleftrightarrow> db_users (sv_store d) a \<noteq> None"

definition is_blocked :: "string \<Rightarrow> string \<Rightarrow> server_db \<Rightarrow> bool" where
  "is_blocked blocker target d \<longleftrightarrow> (blocker, target) \<in> set (db_blocked (sv_store d))"

definition upsert_user ::
  "string \<Rightarrow> string \<Rightarrow> string option \<Rightarrow> string option \<Rightarrow> int \<Rightarrow> server_db \<Rightarrow> user_row \<times> server_db" where
  "upsert_user address username public_key public_key_sig now d =
     (let row = (case db_users (sv_store d) address of
            None \<Rightarrow> \<lparr>ur_username = username, ur_public_key = public_key,
                     ur_public_key_sig = (if public_key = None then None else public_key_sig),
                     ur_profile_image = None, ur_created_at = now, ur_updated_at = now\<rparr>
          | Some u \<Rightarrow>
              (if public_key = None then u\<lparr>ur_username := username, ur_updated_at := now\<rparr>
               else u\<lparr>ur_username := username, ur_public_key := public_key,
                      ur_public_key_sig := public_key_sig, ur_updated_at := now\<rparr>))
      in (row, d\<lparr>sv_store := (sv_store d)\<lparr>db_users := (db_users (sv_store d))(address \<mapsto> row)\<rparr>\<rparr>))"

section \<open>Rooms\<close>

definition get_room :: "string \<Rightarrow> server_db \<Rightarrow> room_row option" where
  "get_room room d = find (\<lambda>r. rm_id r = room) (sv_rooms d)"

definition room_exists :: "string \<Rightarrow> server_db \<Rightarrow> bool" where
  "room_exists room d \<longleftrightarrow> room \<in> rm_id ` set (sv_rooms d)"

text \<open>INSERT INTO rooms, refused on a taken id, and INSERT INTO room_serials, refused on a room that has
a counter.\<close>

definition insert_room :: "room_row \<Rightarrow> server_db \<Rightarrow> db_error + server_db" where
  "insert_room r d =
     (if room_exists (rm_id r) d then Inl Sql_constraint
      else Inr (d\<lparr>sv_rooms := sv_rooms d @ [r],
                 sv_store := (sv_store d)\<lparr>db_rooms := db_rooms (sv_store d) @ [rm_id r]\<rparr>\<rparr>))"

definition insert_serial :: "string \<Rightarrow> int \<Rightarrow> server_db \<Rightarrow> db_error + server_db" where
  "insert_serial room n d =
     (if db_serials (sv_store d) room \<noteq> None \<or> \<not> room_exists room d then Inl Sql_constraint
      else Inr (d\<lparr>sv_store := (sv_store d)\<lparr>db_serials := (db_serials (sv_store d))(room \<mapsto> n)\<rparr>\<rparr>))"

text \<open>INSERT INTO room_members and room_admins: a duplicate or a missing room is refused.\<close>

definition is_member :: "string \<Rightarrow> string \<Rightarrow> server_db \<Rightarrow> bool" where
  "is_member room a d \<longleftrightarrow> (\<exists>m \<in> set (sv_members d). mb_room m = room \<and> mb_user m = a)"

definition is_admin :: "string \<Rightarrow> string \<Rightarrow> server_db \<Rightarrow> bool" where
  "is_admin room a d \<longleftrightarrow> (\<exists>m \<in> set (sv_admins d). ad_room m = room \<and> ad_user m = a)"

definition insert_member :: "string \<Rightarrow> string \<Rightarrow> int \<Rightarrow> server_db \<Rightarrow> db_error + server_db" where
  "insert_member room a now d =
     (if is_member room a d \<or> \<not> room_exists room d then Inl Sql_constraint
      else Inr (d\<lparr>sv_members := sv_members d @ [\<lparr>mb_room = room, mb_user = a, mb_joined_at = now\<rparr>]\<rparr>))"

definition insert_admin :: "string \<Rightarrow> string \<Rightarrow> int \<Rightarrow> server_db \<Rightarrow> db_error + server_db" where
  "insert_admin room a now d =
     (if is_admin room a d \<or> \<not> room_exists room d then Inl Sql_constraint
      else Inr (d\<lparr>sv_admins := sv_admins d @ [\<lparr>ad_room = room, ad_user = a, ad_created_at = now\<rparr>]\<rparr>))"

definition create_room ::
  "string \<Rightarrow> string \<Rightarrow> string option \<Rightarrow> string \<Rightarrow> int \<Rightarrow> server_db \<Rightarrow> db_error + (room_row \<times> server_db)" where
  "create_room room name description creator now d =
     (let row = \<lparr>rm_id = room, rm_name = name, rm_description = description, rm_key_version = 1,
                 rm_pending = False, rm_kind = ROOM_KIND_CHANNEL, rm_dm_key = None, rm_created_at = now\<rparr>
      in try_bind (insert_room row d) (\<lambda>d.
         try_bind (insert_admin room creator now d) (\<lambda>d.
         try_bind (insert_member room creator now d) (\<lambda>d.
         try_bind (insert_serial room now d) (\<lambda>d. Inr (row, d))))))"

definition update_room :: "string \<Rightarrow> (room_row \<Rightarrow> room_row) \<Rightarrow> server_db \<Rightarrow> server_db" where
  "update_room room f d = d\<lparr>sv_rooms := map (\<lambda>r. if rm_id r = room then f r else r) (sv_rooms d)\<rparr>"

definition update_room_name :: "string \<Rightarrow> string \<Rightarrow> server_db \<Rightarrow> room_row option \<times> server_db" where
  "update_room_name room name d =
     (if \<not> room_exists room d then (None, d)
      else let d' = update_room room (\<lambda>r. r\<lparr>rm_name := name\<rparr>) d in (get_room room d', d'))"

definition set_key_rotation_pending :: "string \<Rightarrow> bool \<Rightarrow> server_db \<Rightarrow> server_db" where
  "set_key_rotation_pending room pending d = update_room room (\<lambda>r. r\<lparr>rm_pending := pending\<rparr>) d"

text \<open>Deleting a room cascades to every table with its id, to its messages, and from those to their
mentions and media; the search index is told separately.\<close>

definition delete_room :: "string \<Rightarrow> server_db \<Rightarrow> server_db" where
  "delete_room room d =
     (let st = delete_room_messages room (sv_store d);
          st = st\<lparr>db_rooms := [r \<leftarrow> db_rooms st. r \<noteq> room],
                  db_serials := (db_serials st)(room := None),
                  db_mentions := [x \<leftarrow> db_mentions st. mm_room x \<noteq> room],
                  db_media := [x \<leftarrow> db_media st. md_room x \<noteq> room],
                  db_reads := (\<lambda>k. if fst k = room then None else db_reads st k)\<rparr>
      in d\<lparr>sv_store := unindex_room_messages room st,
           sv_rooms := [r \<leftarrow> sv_rooms d. rm_id r \<noteq> room],
           sv_members := [m \<leftarrow> sv_members d. mb_room m \<noteq> room],
           sv_admins := [m \<leftarrow> sv_admins d. ad_room m \<noteq> room],
           sv_invitations := [m \<leftarrow> sv_invitations d. vi_room m \<noteq> room],
           sv_hidden := [m \<leftarrow> sv_hidden d. hd_room m \<noteq> room],
           sv_keys := [m \<leftarrow> sv_keys d. rk_room m \<noteq> room],
           sv_links := [m \<leftarrow> sv_links d. il_room m \<noteq> room]\<rparr>)"

section \<open>Membership\<close>

definition add_member :: "string \<Rightarrow> string \<Rightarrow> int \<Rightarrow> server_db \<Rightarrow> db_error + server_db" where
  "add_member room a now d = (if is_member room a d then Inr d else insert_member room a now d)"

definition forget_reads :: "(string \<times> string \<Rightarrow> bool) \<Rightarrow> server_db \<Rightarrow> server_db" where
  "forget_reads P d =
     d\<lparr>sv_store := (sv_store d)\<lparr>db_reads := (\<lambda>k. if P k then None else db_reads (sv_store d) k)\<rparr>\<rparr>"

definition remove_member :: "string \<Rightarrow> string \<Rightarrow> server_db \<Rightarrow> server_db" where
  "remove_member room a d =
     (forget_reads (\<lambda>k. k = (room, a)) d)
       \<lparr>sv_members := [m \<leftarrow> sv_members d. \<not> (mb_room m = room \<and> mb_user m = a)],
        sv_hidden := [h \<leftarrow> sv_hidden d. \<not> (hd_room h = room \<and> hd_user h = a)]\<rparr>"

definition list_members :: "string \<Rightarrow> server_db \<Rightarrow> (member_row \<times> user_row) list" where
  "list_members room d =
     [(m, u). m \<leftarrow> sv_members d, mb_room m = room,
              u \<leftarrow> (case db_users (sv_store d) (mb_user m) of None \<Rightarrow> [] | Some u \<Rightarrow> [u])]"

definition user_room_ids :: "string \<Rightarrow> server_db \<Rightarrow> string list" where
  "user_room_ids a d = map mb_room [m \<leftarrow> sv_members d. mb_user m = a]"

definition visible_room_ids :: "string \<Rightarrow> server_db \<Rightarrow> string list" where
  "visible_room_ids a d =
     [r \<leftarrow> user_room_ids a d. \<not> (\<exists>h \<in> set (sv_hidden d). hd_user h = a \<and> hd_room h = r)]"

section \<open>Admins\<close>

definition admin_count :: "string \<Rightarrow> server_db \<Rightarrow> nat" where
  "admin_count room d = length [m \<leftarrow> sv_admins d. ad_room m = room]"

definition add_admin :: "string \<Rightarrow> string \<Rightarrow> int \<Rightarrow> server_db \<Rightarrow> db_error + server_db" where
  "add_admin room a now d = (if is_admin room a d then Inr d else insert_admin room a now d)"

definition remove_admin :: "string \<Rightarrow> string \<Rightarrow> server_db \<Rightarrow> server_db" where
  "remove_admin room a d =
     d\<lparr>sv_admins := [m \<leftarrow> sv_admins d. \<not> (ad_room m = room \<and> ad_user m = a)]\<rparr>"

definition list_admins :: "string \<Rightarrow> server_db \<Rightarrow> (string \<times> user_row) list" where
  "list_admins room d =
     [(ad_user m, u). m \<leftarrow> sv_admins d, ad_room m = room,
              u \<leftarrow> (case db_users (sv_store d) (ad_user m) of None \<Rightarrow> [] | Some u \<Rightarrow> [u])]"

section \<open>Invitations and hidden rooms\<close>

definition has_pending_invitation :: "string \<Rightarrow> string \<Rightarrow> server_db \<Rightarrow> bool" where
  "has_pending_invitation room a d \<longleftrightarrow>
     (\<exists>v \<in> set (sv_invitations d). vi_room v = room \<and> vi_invited v = a)"

definition create_invitation :: "string \<Rightarrow> string \<Rightarrow> string \<Rightarrow> int \<Rightarrow> server_db \<Rightarrow> db_error + server_db" where
  "create_invitation room invitee inviter now d =
     (if has_pending_invitation room invitee d then Inr d
      else if \<not> room_exists room d then Inl Sql_constraint
      else Inr (d\<lparr>sv_invitations := sv_invitations d @
             [\<lparr>vi_room = room, vi_invited = invitee, vi_by = inviter, vi_created_at = now\<rparr>]\<rparr>))"

definition delete_invitation :: "string \<Rightarrow> string \<Rightarrow> server_db \<Rightarrow> server_db" where
  "delete_invitation room a d =
     d\<lparr>sv_invitations := [v \<leftarrow> sv_invitations d. \<not> (vi_room v = room \<and> vi_invited v = a)]\<rparr>"

record invitation_view =
  vv_room :: string
  vv_room_name :: string
  vv_by :: string
  vv_inviter_username :: string
  vv_created_at :: int

text \<open>Newest first, and the later row first among equals: a stable sort of the reversed table.\<close>

definition list_invitations :: "string \<Rightarrow> server_db \<Rightarrow> invitation_view list" where
  "list_invitations a d =
     [\<lparr>vv_room = vi_room v, vv_room_name = rm_name r, vv_by = vi_by v,
       vv_inviter_username = (case db_users (sv_store d) (vi_by v) of
                                Some u \<Rightarrow> ur_username u | None \<Rightarrow> vi_by v),
       vv_created_at = vi_created_at v\<rparr>.
      v \<leftarrow> sort_key (\<lambda>v. - vi_created_at v) (rev [v \<leftarrow> sv_invitations d. vi_invited v = a]),
      r \<leftarrow> (case get_room (vi_room v) d of None \<Rightarrow> [] | Some r \<Rightarrow> [r])]"

definition hide_room :: "string \<Rightarrow> string \<Rightarrow> int \<Rightarrow> server_db \<Rightarrow> db_error + (hidden_row option \<times> server_db)" where
  "hide_room a room now d =
     (let here = (\<lambda>h. hd_user h = a \<and> hd_room h = room) in
      if (\<exists>h \<in> set (sv_hidden d). here h) then Inr (find here (sv_hidden d), d)
      else if \<not> room_exists room d then Inl Sql_constraint
      else let row = \<lparr>hd_user = a, hd_room = room, hd_created_at = now\<rparr>
           in Inr (Some row, d\<lparr>sv_hidden := sv_hidden d @ [row]\<rparr>))"

definition unhide_room :: "string \<Rightarrow> string \<Rightarrow> server_db \<Rightarrow> server_db" where
  "unhide_room a room d =
     d\<lparr>sv_hidden := [h \<leftarrow> sv_hidden d. \<not> (hd_user h = a \<and> hd_room h = room)]\<rparr>"

definition list_hidden :: "string \<Rightarrow> server_db \<Rightarrow> hidden_row list" where
  "list_hidden a d = [h \<leftarrow> sv_hidden d. hd_user h = a \<and> is_member (hd_room h) a d]"

definition last_read_serial :: "string \<Rightarrow> string \<Rightarrow> server_db \<Rightarrow> int" where
  "last_read_serial room a d =
     (case db_reads (sv_store d) (room, a) of None \<Rightarrow> 0 | Some r \<Rightarrow> rr_last_read r)"

section \<open>Room keys\<close>

definition rk_user :: "key_row \<Rightarrow> string" where "rk_user k = kw_user (rk_wrap k)"

definition has_encryption :: "string \<Rightarrow> server_db \<Rightarrow> bool" where
  "has_encryption room d \<longleftrightarrow> (\<exists>k \<in> set (sv_keys d). rk_room k = room)"

definition key_exists :: "string \<Rightarrow> string \<Rightarrow> int \<Rightarrow> server_db \<Rightarrow> bool" where
  "key_exists room a version d \<longleftrightarrow>
     (\<exists>k \<in> set (sv_keys d). rk_room k = room \<and> rk_user k = a \<and> rk_version k = version)"

definition store_key :: "string \<Rightarrow> key_wrap \<Rightarrow> int \<Rightarrow> int \<Rightarrow> server_db \<Rightarrow> db_error + server_db" where
  "store_key room w version now d =
     (let row = \<lparr>rk_room = room, rk_wrap = w, rk_version = version, rk_created_at = now\<rparr>;
          here = (\<lambda>k. rk_room k = room \<and> rk_user k = kw_user w \<and> rk_version k = version)
      in if (\<exists>k \<in> set (sv_keys d). here k)
         then Inr (d\<lparr>sv_keys := map (\<lambda>k. if here k then row else k) (sv_keys d)\<rparr>)
         else if \<not> room_exists room d then Inl Sql_constraint
         else Inr (d\<lparr>sv_keys := sv_keys d @ [row]\<rparr>))"

definition all_keys :: "string \<Rightarrow> string \<Rightarrow> server_db \<Rightarrow> key_row list" where
  "all_keys room a d = sort_key rk_version [k \<leftarrow> sv_keys d. rk_room k = room \<and> rk_user k = a]"

text \<open>The newest epoch, and the later row among equals: the last of the same order.\<close>

definition latest_key :: "string \<Rightarrow> string \<Rightarrow> server_db \<Rightarrow> key_row option" where
  "latest_key room a d = (let ks = all_keys room a d in if ks = [] then None else Some (last ks))"

definition delete_user_keys :: "string \<Rightarrow> string \<Rightarrow> server_db \<Rightarrow> server_db" where
  "delete_user_keys room a d =
     d\<lparr>sv_keys := [k \<leftarrow> sv_keys d. \<not> (rk_room k = room \<and> rk_user k = a)]\<rparr>"

datatype rotate_outcome = Rotated | Room_not_found | Stale_version int

fun store_keys :: "string \<Rightarrow> key_wrap list \<Rightarrow> int \<Rightarrow> int \<Rightarrow> server_db \<Rightarrow> db_error + server_db" where
  "store_keys room [] version now d = Inr d"
| "store_keys room (w # ws) version now d =
     try_bind (store_key room w version now d) (store_keys room ws version now)"

definition rotate ::
  "string \<Rightarrow> int \<Rightarrow> key_wrap list \<Rightarrow> int \<Rightarrow> server_db \<Rightarrow> db_error + (rotate_outcome \<times> server_db)" where
  "rotate room new_version wraps now d =
     (case get_room room d of
        None \<Rightarrow> Inr (Room_not_found, d)
      | Some r \<Rightarrow>
          if new_version \<noteq> rm_key_version r + 1 then Inr (Stale_version (rm_key_version r), d)
          else try_bind (store_keys room wraps new_version now d) (\<lambda>d.
            Inr (Rotated, update_room room
                   (\<lambda>r. r\<lparr>rm_key_version := new_version, rm_pending := False\<rparr>) d)))"

section \<open>Direct messages\<close>

fun join_with :: "string \<Rightarrow> string list \<Rightarrow> string" where
  "join_with sep [] = []"
| "join_with sep [x] = x"
| "join_with sep (x # y # zs) = x @ sep @ join_with sep (y # zs)"

definition dm_key :: "string list \<Rightarrow> string" where
  "dm_key members = join_with ''|'' (remdups_adj (sort (map to_ascii_lowercase members)))"

definition find_dm :: "string \<Rightarrow> server_db \<Rightarrow> room_row option" where
  "find_dm key d = find (\<lambda>r. rm_dm_key r = Some key) (sv_rooms d)"

text \<open>The first of the members that lowercase alike is kept.\<close>

fun dedup_seen :: "string list \<Rightarrow> string list \<Rightarrow> string list" where
  "dedup_seen seen [] = []"
| "dedup_seen seen (m # ms) =
     (if to_ascii_lowercase m \<in> set seen then dedup_seen seen ms
      else m # dedup_seen (to_ascii_lowercase m # seen) ms)"

definition dedup_sorted :: "string list \<Rightarrow> string list" where
  "dedup_sorted members = sort (dedup_seen [] members)"

fun seat_all :: "string \<Rightarrow> string list \<Rightarrow> int \<Rightarrow> server_db \<Rightarrow> db_error + server_db" where
  "seat_all room [] now d = Inr d"
| "seat_all room (m # ms) now d =
     try_bind (insert_member room m now d) (\<lambda>d.
     try_bind (insert_admin room m now d) (seat_all room ms now))"

text \<open>The index on dm_key is unique, so the insert writes nothing when a room has the key; in one
transaction after the lookup that is not the case.\<close>

definition create_dm ::
  "string \<Rightarrow> string list \<Rightarrow> int \<Rightarrow> server_db \<Rightarrow> db_error + (room_row \<times> server_db)" where
  "create_dm room members now d =
     (let key = dm_key members in
      case find_dm key d of
        Some existing \<Rightarrow> Inr (existing, d)
      | None \<Rightarrow>
          (let kind = (if length (split_char (CHR ''|'') key) \<le> 2 then ROOM_KIND_DM else ROOM_KIND_GROUP_DM);
               row = \<lparr>rm_id = room,
                      rm_name = (if kind = ROOM_KIND_DM then ''Direct message'' else ''Group message''),
                      rm_description = None, rm_key_version = 1, rm_pending = False, rm_kind = kind,
                      rm_dm_key = Some key, rm_created_at = now\<rparr>
           in try_bind (insert_room row d) (\<lambda>d.
              try_bind (seat_all room (dedup_sorted members) now d) (\<lambda>d.
              try_bind (insert_serial room now d) (\<lambda>d. Inr (row, d))))))"

section \<open>Built-in rooms\<close>

definition static_room_name :: "string \<Rightarrow> string" where
  "static_room_name kind =
     (if kind = ROOM_KIND_NOTE then ''My Note'' else if kind = ROOM_KIND_JARVIS then ''My Jarvis''
      else if kind = ROOM_KIND_LOBBY then ''My Lobby'' else ''Room'')"

definition static_room_id :: "string \<Rightarrow> string \<Rightarrow> string" where
  "static_room_id kind owner = ''room_'' @ kind @ ''_'' @ to_ascii_lowercase owner"

definition static_roster :: "string \<Rightarrow> string \<Rightarrow> string \<Rightarrow> string list \<Rightarrow> string list" where
  "static_roster kind owner agent admins =
     dedup_sorted (to_ascii_lowercase owner #
       (if kind = ROOM_KIND_JARVIS then [agent] else if kind = ROOM_KIND_LOBBY then admins else []))"

text \<open>One turn of the loop over the kinds: the room, its counter and its admin are made to exist, the
roster is reconciled, and a keyed room whose roster moved is flagged for rotation.\<close>

definition provision_room ::
  "string \<Rightarrow> string \<Rightarrow> string \<Rightarrow> string list \<Rightarrow> int \<Rightarrow> server_db \<Rightarrow> string list \<times> server_db" where
  "provision_room kind owner agent admins now d =
     (let room = static_room_id kind owner;
          roster = static_roster kind owner agent admins;
          d = (if room_exists room d then d else
               d\<lparr>sv_rooms := sv_rooms d @ [\<lparr>rm_id = room, rm_name = static_room_name kind,
                   rm_description = None, rm_key_version = 1, rm_pending = False, rm_kind = kind,
                   rm_dm_key = None, rm_created_at = now\<rparr>],
                 sv_store := (sv_store d)\<lparr>db_rooms := db_rooms (sv_store d) @ [room]\<rparr>\<rparr>);
          d = (if db_serials (sv_store d) room \<noteq> None then d else
               d\<lparr>sv_store := (sv_store d)\<lparr>db_serials := (db_serials (sv_store d))(room \<mapsto> now)\<rparr>\<rparr>);
          d = (if is_admin room (to_ascii_lowercase owner) d then d else
               d\<lparr>sv_admins := sv_admins d @ [\<lparr>ad_room = room, ad_user = to_ascii_lowercase owner,
                   ad_created_at = now\<rparr>]\<rparr>);
          seated = [m \<leftarrow> roster. \<not> is_member room m d];
          d = d\<lparr>sv_members := sv_members d
                  @ map (\<lambda>m. \<lparr>mb_room = room, mb_user = m, mb_joined_at = now\<rparr>) seated\<rparr>;
          removed = [mb_user m. m \<leftarrow> sv_members d, mb_room m = room, mb_user m \<notin> set roster];
          d = (forget_reads (\<lambda>k. fst k = room \<and> snd k \<notin> set roster) d)
                \<lparr>sv_members := [m \<leftarrow> sv_members d. \<not> (mb_room m = room \<and> mb_user m \<notin> set roster)],
                 sv_hidden := [h \<leftarrow> sv_hidden d. \<not> (hd_room h = room \<and> hd_user h \<notin> set roster)]\<rparr>;
          d = (if (seated \<noteq> [] \<or> removed \<noteq> []) \<and> has_encryption room d
               then set_key_rotation_pending room True d else d)
      in (seated @ removed, d))"

text \<open>provision_static_rooms: the three kinds in turn, then the profile of the agent.  The result is the
set of the addresses that moved, in order; clk gives the clock readings.\<close>

definition provision_static_rooms ::
  "(byte list \<Rightarrow> byte list) \<Rightarrow> (byte list \<Rightarrow> string) \<Rightarrow> string \<Rightarrow> string list \<Rightarrow> clock \<Rightarrow> server_db
     \<Rightarrow> db_error + (string list \<times> server_db)" where
  "provision_static_rooms sha256 enc owner admins clk d =
     (case wallet_new owner of
        Inl e \<Rightarrow> Inl (Internal ''invalid wallet address'')
      | Inr w \<Rightarrow>
          (let agent = as_str (agent_of sha256 enc w);
               (c1, d) = provision_room ROOM_KIND_NOTE owner agent admins (clk 0) d;
               (c2, d) = provision_room ROOM_KIND_JARVIS owner agent admins (clk 1) d;
               (c3, d) = provision_room ROOM_KIND_LOBBY owner agent admins (clk 2) d;
               (_, d) = upsert_user agent ''Jarvis'' None None (clk 3) d
           in Inr ([a \<leftarrow> sort (remdups (c1 @ c2 @ c3)). a \<noteq> agent], d)))"

section \<open>Invite links\<close>

datatype refusal = Revoked | Expired | Exhausted

definition refusal_of :: "invite_link \<Rightarrow> int \<Rightarrow> refusal option" where
  "refusal_of l now =
     (if il_revoked_at l \<noteq> None then Some Revoked
      else if il_expires_at l \<le> now then Some Expired
      else case il_max_uses l of
             Some m \<Rightarrow> if m \<le> il_use_count l then Some Exhausted else None
           | None \<Rightarrow> None)"

definition create_link ::
  "string \<Rightarrow> string \<Rightarrow> string \<Rightarrow> string \<Rightarrow> int \<Rightarrow> int option \<Rightarrow> int \<Rightarrow> server_db
     \<Rightarrow> db_error + (invite_link \<times> server_db)" where
  "create_link lid room hash creator expires_at max_uses now d =
     (let row = \<lparr>il_id = lid, il_room = room, il_hash = hash, il_by = creator, il_created_at = now,
                 il_expires_at = expires_at, il_max_uses = max_uses, il_use_count = 0,
                 il_revoked_at = None\<rparr>
      in if (\<exists>l \<in> set (sv_links d). il_id l = lid \<or> il_hash l = hash) \<or> \<not> room_exists room d
         then Inl Sql_constraint
         else Inr (row, d\<lparr>sv_links := sv_links d @ [row]\<rparr>))"

definition list_links :: "string \<Rightarrow> server_db \<Rightarrow> invite_link list" where
  "list_links room d =
     rev (sort_key (\<lambda>l. (il_created_at l, il_id l))
       [l \<leftarrow> sv_links d. il_room l = room \<and> il_revoked_at l = None])"

definition find_by_hash :: "string \<Rightarrow> server_db \<Rightarrow> invite_link option" where
  "find_by_hash hash d = find (\<lambda>l. il_hash l = hash) (sv_links d)"

definition revoke_link :: "string \<Rightarrow> string \<Rightarrow> int \<Rightarrow> server_db \<Rightarrow> bool \<times> server_db" where
  "revoke_link room lid now d =
     (let here = (\<lambda>l. il_id l = lid \<and> il_room l = room \<and> il_revoked_at l = None)
      in ((\<exists>l \<in> set (sv_links d). here l),
          d\<lparr>sv_links := map (\<lambda>l. if here l then l\<lparr>il_revoked_at := Some now\<rparr> else l) (sv_links d)\<rparr>))"

datatype consume_outcome = Consumed invite_link | No_such_link | Refused refusal

definition spendable :: "string \<Rightarrow> int \<Rightarrow> invite_link \<Rightarrow> bool" where
  "spendable hash now l \<longleftrightarrow>
     il_hash l = hash \<and> il_revoked_at l = None \<and> now < il_expires_at l
     \<and> (case il_max_uses l of None \<Rightarrow> True | Some m \<Rightarrow> il_use_count l < m)"

definition consume :: "string \<Rightarrow> int \<Rightarrow> server_db \<Rightarrow> consume_outcome \<times> server_db" where
  "consume hash now d =
     (let changed = (\<exists>l \<in> set (sv_links d). spendable hash now l);
          d' = d\<lparr>sv_links := map (\<lambda>l. if spendable hash now l
                                     then l\<lparr>il_use_count := il_use_count l + 1\<rparr> else l) (sv_links d)\<rparr>
      in (case find_by_hash hash d' of
            None \<Rightarrow> No_such_link
          | Some l \<Rightarrow> if changed then Consumed l
                      else (case refusal_of l now of Some r \<Rightarrow> Refused r | None \<Rightarrow> Refused Expired), d'))"

section \<open>Eviction\<close>

text \<open>admin.rs evict_from_all_rooms: everything that grants access goes, in every room at once.\<close>

definition evict_from_all_rooms :: "string \<Rightarrow> server_db \<Rightarrow> string list \<times> server_db" where
  "evict_from_all_rooms a d =
     (let rooms = map mb_room [m \<leftarrow> sv_members d. mb_user m = a];
          users = db_users (sv_store d);
          d = (forget_reads (\<lambda>k. snd k = a) d)
                \<lparr>sv_keys := [k \<leftarrow> sv_keys d. rk_user k \<noteq> a],
                 sv_members := [m \<leftarrow> sv_members d. mb_user m \<noteq> a],
                 sv_admins := [m \<leftarrow> sv_admins d. ad_user m \<noteq> a],
                 sv_invitations := [v \<leftarrow> sv_invitations d. vi_invited v \<noteq> a],
                 sv_hidden := [h \<leftarrow> sv_hidden d. hd_user h \<noteq> a]\<rparr>;
          d = d\<lparr>sv_store := (sv_store d)\<lparr>db_users :=
                (case users a of None \<Rightarrow> users
                 | Some u \<Rightarrow> users(a \<mapsto> u\<lparr>ur_public_key := None, ur_public_key_sig := None\<rparr>))\<rparr>\<rparr>
      in (rooms, fold (\<lambda>r. set_key_rotation_pending r True) rooms d))"

end
