(* ===== verification/Room_Routes.thy ===== *)
theory Room_Routes imports Room_Db begin

text \<open>The routes that move rosters and keys: src/app/server/src/routes/rooms.rs, keys.rs, invitations.rs
and invites.rs, the gate and the send of routes/messages.rs, and the eviction of routes/admin.rs.  A
handler takes its parsed arguments (addresses and ids that validate.rs has accepted), the clock and the
state, and returns an error or its answer with the new state.  A handler is one step, as its database
calls would run without another request between them; the rotation is also given in its two halves,
because the code reads the roster in one database call and rotates in another.  Realtime nudges, audit
records and the files of a destroyed room are not modelled.  \<^verbatim>\<open>ops\<close> is the list of server
administrators that the configuration names.\<close>

section \<open>Errors and guards\<close>

datatype error_code = Key_rotation_required | Stale_key_version

datatype api_error =
  Bad_request string
| Unauthorized string
| Payload_too_large string
| Internal_error string
| Validation "string list"
| Forbidden string
| Not_found string
| Conflict "error_code option" string "int option"
| Uncovered_members "string list"
| Database db_error

definition access_denied :: api_error where "access_denied = Forbidden ''Access denied''"

definition em_dash :: string where "em_dash = [CHR 0xE2, CHR 0x80, CHR 0x94]"

definition conflict :: "string \<Rightarrow> api_error" where "conflict msg = Conflict None msg None"

definition field_error :: "string \<Rightarrow> string \<Rightarrow> api_error" where
  "field_error f reason = Validation [f @ '': '' @ reason]"

definition ensure :: "bool \<Rightarrow> api_error \<Rightarrow> (api_error + 'a) \<Rightarrow> api_error + 'a" where
  "ensure b e k = (if b then k else Inl e)"

definition on_db :: "(db_error + 'a) \<Rightarrow> ('a \<Rightarrow> api_error + 'b) \<Rightarrow> api_error + 'b" where
  "on_db r k = (case r of Inl e \<Rightarrow> Inl (Database e) | Inr x \<Rightarrow> k x)"

lemma ensure_Inr [simp]: "ensure b e k = Inr x \<longleftrightarrow> b \<and> k = Inr x"
  by (simp add: ensure_def)

lemma on_db_Inr [simp]: "on_db r k = Inr x \<longleftrightarrow> (\<exists>y. r = Inr y \<and> k y = Inr x)"
  by (cases r) (simp_all add: on_db_def)

definition is_server_admin :: "string list \<Rightarrow> string \<Rightarrow> bool" where
  "is_server_admin ops a \<longleftrightarrow> to_ascii_lowercase a \<in> set ops"

definition require_member :: "string \<Rightarrow> string \<Rightarrow> server_db \<Rightarrow> (api_error + 'a) \<Rightarrow> api_error + 'a" where
  "require_member room caller d k = ensure (is_member room caller d) access_denied k"

definition require_admin ::
  "string list \<Rightarrow> string \<Rightarrow> string \<Rightarrow> string \<Rightarrow> server_db \<Rightarrow> (api_error + 'a) \<Rightarrow> api_error + 'a" where
  "require_admin ops room caller msg d k =
     ensure (is_server_admin ops caller \<or> is_admin room caller d) (Forbidden msg) k"

definition fetch_room :: "string \<Rightarrow> server_db \<Rightarrow> (room_row \<Rightarrow> api_error + 'a) \<Rightarrow> api_error + 'a" where
  "fetch_room room d k =
     (case get_room room d of None \<Rightarrow> Inl (Not_found ''Room not found'') | Some r \<Rightarrow> k r)"

definition require_room_exists :: "string \<Rightarrow> server_db \<Rightarrow> (api_error + 'a) \<Rightarrow> api_error + 'a" where
  "require_room_exists room d k = ensure (get_room room d \<noteq> None) (Not_found ''Room not found'') k"

definition require_channel :: "string \<Rightarrow> string \<Rightarrow> server_db \<Rightarrow> (api_error + 'a) \<Rightarrow> api_error + 'a" where
  "require_channel room verb d k =
     fetch_room room d (\<lambda>r. case fixed_roster r of
        Some noun \<Rightarrow> Inl (Bad_request (''Cannot '' @ verb @ '' '' @ noun @ ''.''))
      | None \<Rightarrow> k)"

definition refuse_static_removal :: "string \<Rightarrow> string \<Rightarrow> server_db \<Rightarrow> (api_error + 'a) \<Rightarrow> api_error + 'a" where
  "refuse_static_removal room verb d k =
     fetch_room room d (\<lambda>r. ensure (\<not> is_static r)
       (Bad_request (''Cannot '' @ verb @ '' a built-in room. Hide it instead.'')) k)"

definition require_static_owner :: "string \<Rightarrow> string \<Rightarrow> server_db \<Rightarrow> (api_error + 'a) \<Rightarrow> api_error + 'a" where
  "require_static_owner room caller d k =
     fetch_room room d (\<lambda>r. ensure (\<not> (is_static r \<and> room \<noteq> static_room_id (rm_kind r) caller))
       access_denied k)"

section \<open>Rooms\<close>

definition create_route ::
  "string \<Rightarrow> string \<Rightarrow> string \<Rightarrow> string option \<Rightarrow> int \<Rightarrow> server_db \<Rightarrow> api_error + (room_row \<times> server_db)" where
  "create_route caller room name description now d =
     on_db (create_room room name description caller now d) Inr"

definition open_dm ::
  "string \<Rightarrow> string \<Rightarrow> string list \<Rightarrow> int \<Rightarrow> server_db \<Rightarrow> api_error + (room_row \<times> server_db)" where
  "open_dm caller room others now d =
     (let members = caller # others in
      ensure (others \<noteq> []) (field_error ''walletAddress'' ''a wallet address is required'')
      (ensure (\<forall>a \<in> set others. \<not> is_reserved (WalletAddress a))
         (Bad_request ''You can't start a direct message with that address.'')
      (ensure (length (split_char (CHR ''|'') (dm_key members)) \<le> MAX_ADMINS)
         (Bad_request (''A direct message can include at most '' @ decimal MAX_ADMINS
                         @ '' people. Create a room instead.''))
      (ensure (\<forall>a \<in> set members. user_exists a d)
         (Not_found ''That wallet has not signed in to this server yet.'')
      (on_db (create_dm room members now d) Inr)))))"

definition list_route ::
  "(byte list \<Rightarrow> byte list) \<Rightarrow> (byte list \<Rightarrow> string) \<Rightarrow> string list \<Rightarrow> string \<Rightarrow> clock \<Rightarrow> server_db
     \<Rightarrow> string list \<times> server_db" where
  "list_route sha256 enc ops caller clk d =
     (let d = (case provision_static_rooms sha256 enc caller ops clk d of
                 Inl _ \<Rightarrow> d | Inr (changed, d') \<Rightarrow> d')
      in (visible_room_ids caller d, d))"

definition rename_route ::
  "string list \<Rightarrow> string \<Rightarrow> string \<Rightarrow> string \<Rightarrow> server_db \<Rightarrow> api_error + (room_row \<times> server_db)" where
  "rename_route ops caller room name d =
     require_room_exists room d
     (require_admin ops room caller ''Only room admins can update the room'' d
     (require_channel room ''rename'' d
     (case update_room_name room name d of
        (None, _) \<Rightarrow> Inl (Not_found ''Room not found'')
      | (Some r, d') \<Rightarrow> Inr (r, d'))))"

text \<open>DELETE of a room: the answer here is the roster that is told about it.\<close>

definition delete_route ::
  "string list \<Rightarrow> string \<Rightarrow> string \<Rightarrow> server_db \<Rightarrow> api_error + (string list \<times> server_db)" where
  "delete_route ops caller room d =
     require_room_exists room d
     (require_admin ops room caller ''Only room admins can delete the room'' d
     (refuse_static_removal room ''delete'' d
     (Inr (map (mb_user \<circ> fst) (list_members room d), delete_room room d))))"

definition leave_route :: "string \<Rightarrow> string \<Rightarrow> server_db \<Rightarrow> api_error + (unit \<times> server_db)" where
  "leave_route caller room d =
     require_room_exists room d
     (require_member room caller d
     (fetch_room room d (\<lambda>r.
      ensure (\<not> is_direct r) (Bad_request ''Cannot leave a direct message. Hide it instead.'')
     (refuse_static_removal room ''leave'' d
     (ensure (\<not> (is_admin room caller d \<and> admin_count room d \<le> 1))
        (Bad_request ''Cannot leave room as the last admin. Transfer admin rights first or delete the room.'')
     (let d = (if is_admin room caller d then remove_admin room caller d else d);
          d = remove_member room caller (delete_user_keys room caller d)
      in Inr ((), set_key_rotation_pending room True d)))))))"

definition kick_route ::
  "string list \<Rightarrow> string \<Rightarrow> string \<Rightarrow> string \<Rightarrow> server_db \<Rightarrow> api_error + (unit \<times> server_db)" where
  "kick_route ops caller room target d =
     require_admin ops room caller ''Only room admins can remove members'' d
     (require_channel room ''remove someone from'' d
     (ensure (target \<noteq> caller) (Bad_request ''Cannot kick yourself. Use leave instead.'')
     (ensure (is_member room target d) (Not_found ''User is not a member of this room'')
     (let d = remove_member room target (delete_user_keys room target (remove_admin room target d))
      in Inr ((), set_key_rotation_pending room True d)))))"

definition add_admin_route ::
  "string list \<Rightarrow> string \<Rightarrow> string \<Rightarrow> string \<Rightarrow> int \<Rightarrow> server_db \<Rightarrow> api_error + (unit \<times> server_db)" where
  "add_admin_route ops caller room target now d =
     require_room_exists room d
     (require_admin ops room caller ''Only room admins can add new admins'' d
     (require_channel room ''change the admins of'' d
     (ensure (admin_count room d < MAX_ADMINS) (Bad_request ''Maximum admin count (9) reached'')
     (ensure (user_exists target d) (Not_found ''User not found'')
     (ensure (is_member room target d)
        (Bad_request ''User must be a member of the room to become an admin'')
     (ensure (\<not> is_admin room target d) (Bad_request ''User is already an admin'')
     (on_db (add_admin room target now d) (\<lambda>d. Inr ((), d)))))))))"

definition remove_admin_route ::
  "string list \<Rightarrow> string \<Rightarrow> string \<Rightarrow> string \<Rightarrow> server_db \<Rightarrow> api_error + (unit \<times> server_db)" where
  "remove_admin_route ops caller room target d =
     require_room_exists room d
     (require_admin ops room caller ''Only room admins can remove admins'' d
     (require_channel room ''change the admins of'' d
     (ensure (1 < admin_count room d)
        (Bad_request ''Cannot remove the last admin. Room must have at least one admin.'')
     (ensure (is_admin room target d) (Bad_request ''User is not an admin'')
     (Inr ((), remove_admin room target d))))))"

definition hide_route :: "string \<Rightarrow> string \<Rightarrow> int \<Rightarrow> server_db \<Rightarrow> api_error + (hidden_row option \<times> server_db)" where
  "hide_route caller room now d =
     ensure (is_member room caller d) (Forbidden ''You must be a member of the room to hide it'')
     (on_db (hide_room caller room now d) Inr)"

definition unhide_route :: "string \<Rightarrow> string \<Rightarrow> server_db \<Rightarrow> api_error + (unit \<times> server_db)" where
  "unhide_route caller room d = Inr ((), unhide_room caller room d)"

section \<open>Keys\<close>

definition MAX_ROTATION_KEYS :: nat where "MAX_ROTATION_KEYS = 200"

definition store_route ::
  "string \<Rightarrow> string \<Rightarrow> key_wrap \<Rightarrow> int \<Rightarrow> int \<Rightarrow> server_db \<Rightarrow> api_error + (unit \<times> server_db)" where
  "store_route caller room wrap version now d =
     (let target = kw_user wrap; own = (target = caller) in
      ensure (is_member room caller d \<or> is_admin room caller d \<or> has_pending_invitation room caller d)
        access_denied
     (ensure (get_room room d \<noteq> None) (Not_found ''Room not found'')
     (ensure (is_member room target d \<or> has_pending_invitation room target d)
        (Bad_request ''User must be a room member or invitee'')
     (ensure (own \<or> is_admin room caller d) (Forbidden ''Only admins can store keys for other users'')
     (ensure (own \<or> \<not> key_exists room target version d)
        (conflict ''That member already has a key for this epoch; use /rotate-key to re-key the room.'')
     (on_db (store_key room wrap version now d) (\<lambda>d. Inr ((), d))))))))"

definition latest_route :: "string \<Rightarrow> string \<Rightarrow> server_db \<Rightarrow> api_error + key_row" where
  "latest_route caller room d =
     require_member room caller d
     (case latest_key room caller d of None \<Rightarrow> Inl (Not_found ''Room key not found'') | Some k \<Rightarrow> Inr k)"

definition versions_route :: "string \<Rightarrow> string \<Rightarrow> server_db \<Rightarrow> api_error + key_row list" where
  "versions_route caller room d = require_member room caller d (Inr (all_keys room caller d))"

text \<open>The rotation up to its last database call: the caller, the number of wraps, and their coverage of
the roster read here.  Then the call that rotates, whenever it runs.\<close>

definition rotate_check :: "string \<Rightarrow> string \<Rightarrow> int \<Rightarrow> key_wrap list \<Rightarrow> server_db \<Rightarrow> api_error + unit" where
  "rotate_check caller room new_version wraps d =
     ensure (is_member room caller d) (Forbidden ''Only room members can rotate the room key'')
     (ensure (2 \<le> new_version) (field_error ''newVersion'' ''Key version must be between 2 and 1000000'')
     (ensure (wraps \<noteq> [] \<and> length wraps \<le> MAX_ROTATION_KEYS)
        (field_error ''keys'' ''Keys must contain between 1 and 200 entries'')
     (let covered = map kw_user wraps;
          roster = map (mb_user \<circ> fst) (list_members room d);
          missing = [a \<leftarrow> roster. a \<notin> set covered]
      in ensure (missing = []) (Uncovered_members (sort (remdups missing)))
        (ensure (set covered \<subseteq> set roster) (Bad_request ''Rotation includes a non-member address'')
          (Inr ())))))"

definition rotate_commit ::
  "string \<Rightarrow> int \<Rightarrow> key_wrap list \<Rightarrow> int \<Rightarrow> server_db \<Rightarrow> api_error + (unit \<times> server_db)" where
  "rotate_commit room new_version wraps now d =
     on_db (rotate room new_version wraps now d) (\<lambda>(outcome, d').
       case outcome of
         Rotated \<Rightarrow> Inr ((), d')
       | Room_not_found \<Rightarrow> Inl (conflict ''Room not found'')
       | Stale_version _ \<Rightarrow> Inl (conflict (''Stale key version '' @ em_dash @ '' refetch and retry'')))"

definition rotate_route ::
  "string \<Rightarrow> string \<Rightarrow> int \<Rightarrow> key_wrap list \<Rightarrow> int \<Rightarrow> server_db \<Rightarrow> api_error + (unit \<times> server_db)" where
  "rotate_route caller room new_version wraps now d =
     try_bind (rotate_check caller room new_version wraps d)
       (\<lambda>_. rotate_commit room new_version wraps now d)"

text \<open>check_epoch: the gate in front of everything that writes ciphertext.\<close>

definition check_epoch :: "string \<Rightarrow> int \<Rightarrow> server_db \<Rightarrow> api_error + unit" where
  "check_epoch room key_version d =
     fetch_room room d (\<lambda>r.
       ensure (\<not> rm_pending r) (Conflict (Some Key_rotation_required)
         (''Room key rotation is pending '' @ em_dash
            @ '' an admin must rotate the key before new encrypted messages can be sent.'') (Some (rm_key_version r)))
      (ensure (key_version = rm_key_version r) (Conflict (Some Stale_key_version)
         (''Message key version does not match the room's current epoch '' @ em_dash
            @ '' refetch keys and retry.'')
         (Some (rm_key_version r)))
      (Inr ())))"

text \<open>send: the body is parsed, its mentions and media are already resolved, and its parent is the
message it replies to.\<close>

definition send_route ::
  "(int \<Rightarrow> string) \<Rightarrow> clock \<Rightarrow> new_message \<Rightarrow> server_db \<Rightarrow> api_error + (message \<times> server_db)" where
  "send_route iso_ms clk new d =
     require_member (nm_room new) (nm_sender new) d
     (try_bind (if nm_encrypted new then check_epoch (nm_room new) (nm_key_version new) d else Inr ()) (\<lambda>_.
      try_bind
        (case nm_parent new of
           None \<Rightarrow> Inr None
         | Some p \<Rightarrow>
             (case resolve_parent p (nm_room new) (sv_store d) of
                Inl Parent_missing \<Rightarrow> Inl (Not_found ''The message being replied to no longer exists'')
              | Inl Parent_elsewhere \<Rightarrow> Inl (Bad_request ''Cannot reply to a message in another room'')
              | Inr root \<Rightarrow> Inr (Some root))) (\<lambda>parent.
      on_db (create_message iso_ms clk (new\<lparr>nm_parent := parent\<rparr>) (sv_store d)) (\<lambda>(m, store).
        Inr (m, d\<lparr>sv_store := store\<rparr>)))))"

section \<open>Invitations\<close>

definition invite_route ::
  "string \<Rightarrow> string \<Rightarrow> string \<Rightarrow> int \<Rightarrow> server_db \<Rightarrow> api_error + (unit \<times> server_db)" where
  "invite_route caller room invitee now d =
     ensure (\<not> is_reserved (WalletAddress invitee)) (Bad_request ''That address cannot be invited to a room.'')
     (ensure (is_admin room caller d) (Forbidden ''Only room admins can invite users'')
     (fetch_room room d (\<lambda>r.
      ensure (\<not> is_static r)
        (Bad_request ''Cannot invite anyone to a built-in room. Its members are decided by the server.'')
     (ensure (\<not> is_direct r)
        (Bad_request ''Cannot invite anyone to a direct message. Start a group message instead.'')
     (ensure (user_exists invitee d) (Not_found ''User not found'')
     (ensure (\<not> is_member room invitee d) (Bad_request ''User is already a member of this room'')
     (ensure (\<not> is_blocked invitee caller d) (Forbidden ''You cannot invite users who have blocked you'')
     (ensure (\<not> is_blocked caller invitee d) (Forbidden ''You cannot invite users you have blocked'')
     (on_db (create_invitation room invitee caller now d) (\<lambda>d. Inr ((), d)))))))))))"

text \<open>accept can fail after it has deleted the invitation, so it gives the state in either case.\<close>

definition accept_route :: "string \<Rightarrow> string \<Rightarrow> int \<Rightarrow> server_db \<Rightarrow> (api_error + unit) \<times> server_db" where
  "accept_route caller room now d =
     (if \<not> has_pending_invitation room caller d
      then (Inl (Not_found ''No pending invitation for this room''), d)
      else if get_room room d = None
      then (Inl (Not_found ''Room no longer exists''), delete_invitation room caller d)
      else case add_member room caller now d of
             Inl e \<Rightarrow> (Inl (Database e), d)
           | Inr d' \<Rightarrow> (Inr (), delete_invitation room caller d'))"

definition decline_route :: "string \<Rightarrow> string \<Rightarrow> server_db \<Rightarrow> api_error + (unit \<times> server_db)" where
  "decline_route caller room d =
     ensure (has_pending_invitation room caller d) (Not_found ''No pending invitation for this room'')
     (Inr ((), delete_user_keys room caller (delete_invitation room caller d)))"

section \<open>Invite links\<close>

definition DEFAULT_EXPIRY_HOURS :: int where "DEFAULT_EXPIRY_HOURS = 24 * 7"
definition MAX_EXPIRY_HOURS :: int where "MAX_EXPIRY_HOURS = 24 * 30"
definition MAX_USE_LIMIT :: int where "MAX_USE_LIMIT = 1000"

definition refusal_error :: "refusal \<Rightarrow> api_error" where
  "refusal_error r =
     Not_found (case r of Revoked \<Rightarrow> ''This invite link has been revoked''
                        | Expired \<Rightarrow> ''This invite link has expired''
                        | Exhausted \<Rightarrow> ''This invite link has reached its use limit'')"

text \<open>presented_token; the hash of the token is a parameter.\<close>

definition presented_token :: "(string \<Rightarrow> string) \<Rightarrow> string \<Rightarrow> api_error + string" where
  "presented_token token_hash raw =
     (let hex_part = (case strip_prefix ''inv_'' raw of Some h \<Rightarrow> h | None \<Rightarrow> [])
      in ensure (length hex_part = 64 \<and> list_all is_ascii_hexdigit hex_part)
           (Not_found ''Invite link not found'') (Inr (token_hash raw)))"

definition create_link_route ::
  "string list \<Rightarrow> string \<Rightarrow> string \<Rightarrow> string \<Rightarrow> string \<Rightarrow> int option \<Rightarrow> int option \<Rightarrow> clock \<Rightarrow> server_db
     \<Rightarrow> api_error + (invite_link \<times> server_db)" where
  "create_link_route ops caller room lid hash expires_in max_uses clk d =
     require_admin ops room caller ''Only room admins can create invite links'' d
     (require_channel room ''create an invite link for'' d
     (let hours = (case expires_in of Some h \<Rightarrow> h | None \<Rightarrow> DEFAULT_EXPIRY_HOURS) in
      ensure (1 \<le> hours \<and> hours \<le> MAX_EXPIRY_HOURS)
        (field_error ''expiresInHours'' ''must be between 1 and 720'')
     (ensure (case max_uses of None \<Rightarrow> True | Some m \<Rightarrow> 1 \<le> m \<and> m \<le> MAX_USE_LIMIT)
        (field_error ''maxUses'' ''must be between 1 and 1000'')
     (on_db (create_link lid room hash caller (clk 0 + hours * 60 * 60 * 1000) max_uses (clk 1) d) Inr))))"

definition revoke_link_route ::
  "string list \<Rightarrow> string \<Rightarrow> string \<Rightarrow> string \<Rightarrow> int \<Rightarrow> server_db \<Rightarrow> api_error + (unit \<times> server_db)" where
  "revoke_link_route ops caller room lid now d =
     require_room_exists room d
     (require_admin ops room caller ''Only room admins can revoke invite links'' d
     (let (revoked, d') = revoke_link room lid now d
      in ensure revoked (Not_found ''Invite link not found'') (Inr ((), d'))))"

definition peek_route :: "(string \<Rightarrow> string) \<Rightarrow> string \<Rightarrow> int \<Rightarrow> server_db \<Rightarrow> api_error + (string \<times> nat \<times> int)" where
  "peek_route token_hash token now d =
     try_bind (presented_token token_hash token) (\<lambda>hash.
       case find_by_hash hash d of
         None \<Rightarrow> Inl (Not_found ''Invite link not found'')
       | Some l \<Rightarrow>
          (case refusal_of l now of
             Some r \<Rightarrow> Inl (refusal_error r)
           | None \<Rightarrow>
              (case get_room (il_room l) d of
                 None \<Rightarrow> Inl (Not_found ''Room no longer exists'')
               | Some r \<Rightarrow> Inr (rm_name r, length (list_members (il_room l) d), il_expires_at l))))"

text \<open>redeem: the answer says whether the caller was a member already.  The clock is read for the
refusal, in consume and for the new member.\<close>

definition redeem_route ::
  "(string \<Rightarrow> string) \<Rightarrow> string \<Rightarrow> string \<Rightarrow> clock \<Rightarrow> server_db \<Rightarrow> (api_error + bool) \<times> server_db" where
  "redeem_route token_hash caller token clk d =
     (case presented_token token_hash token of
        Inl e \<Rightarrow> (Inl e, d)
      | Inr hash \<Rightarrow>
         (case find_by_hash hash d of
            None \<Rightarrow> (Inl (Not_found ''Invite link not found''), d)
          | Some l \<Rightarrow>
             if get_room (il_room l) d = None then (Inl (Not_found ''Room no longer exists''), d)
             else if is_member (il_room l) caller d then (Inr True, d)
             else case refusal_of l (clk 0) of
               Some r \<Rightarrow> (Inl (refusal_error r), d)
             | None \<Rightarrow>
                (case consume hash (clk 1) d of
                   (No_such_link, d1) \<Rightarrow> (Inl (Not_found ''Invite link not found''), d1)
                 | (Refused r, d1) \<Rightarrow> (Inl (refusal_error r), d1)
                 | (Consumed _, d1) \<Rightarrow>
                    (case add_member (il_room l) caller (clk 2) d1 of
                       Inl e \<Rightarrow> (Inl (Database e), d1)
                     | Inr d2 \<Rightarrow>
                         (Inr False, if has_encryption (il_room l) d2
                                     then set_key_rotation_pending (il_room l) True d2 else d2)))))"

section \<open>Eviction\<close>

text \<open>evict, without the suspension table.\<close>

definition evict_route :: "string list \<Rightarrow> string \<Rightarrow> string \<Rightarrow> server_db \<Rightarrow> api_error + (string list \<times> server_db)" where
  "evict_route ops caller target d =
     ensure (is_server_admin ops caller) (Forbidden ''This action requires a server administrator.'')
     (ensure (to_ascii_lowercase target \<noteq> to_ascii_lowercase caller) (Bad_request ''You cannot remove yourself.'')
     (ensure (\<not> is_server_admin ops target)
        (Bad_request ''That wallet is a server administrator. Remove it from VITE_FRUITNATION_ADMIN first.'')
     (Inr (evict_from_all_rooms target d))))"

end
