(* ===== verification/Mentions_Media.thy ===== *)
theory Mentions_Media imports Room_Db begin

text \<open>What a message names and shows: src/app/server/src/db/mentions.rs (the handles in a text, their
resolution against a roster, the inbox and its badge) and db/media.rs (the hosted files a text or a room
shows), with the media types of routes/images.rs.  The tables are those of Message_Db and Room_Db.

A Rust char is the byte string that encodes it.  Which characters beyond ASCII are alphanumeric is a
table of the standard library, the parameter \<^verbatim>\<open>alnum\<close>.

The scan of a text for hosted files is a loop that may in principle run on: it is a partial function, and
its lemmas show that it returns on every text, and what it finds.\<close>

section \<open>Hosted media\<close>

text \<open>ALLOWED of routes/images.rs, with mime_for and extension_for.\<close>

definition ALLOWED_MEDIA :: "(string \<times> string) list" where
  "ALLOWED_MEDIA =
     [(''image/png'', ''png''), (''image/jpeg'', ''jpg''), (''image/webp'', ''webp''),
      (''image/gif'', ''gif''), (''video/mp4'', ''mp4''), (''video/webm'', ''webm'')]"

definition mime_for :: "string \<Rightarrow> string option" where
  "mime_for extension = map_option fst (find (\<lambda>(_, ext). ext = extension) ALLOWED_MEDIA)"

definition extension_for :: "string \<Rightarrow> string option" where
  "extension_for content_type =
     (let base = trim (hd (split_char (CHR '';'') content_type))
      in map_option snd (find (\<lambda>(mime, _). to_ascii_lowercase mime = to_ascii_lowercase base) ALLOWED_MEDIA))"

definition MAX_IMAGE_BYTES :: nat where "MAX_IMAGE_BYTES = 5 * 1024 * 1024"
definition MAX_VIDEO_BYTES :: nat where "MAX_VIDEO_BYTES = 25 * 1024 * 1024"

definition cap_for :: "string \<Rightarrow> nat" where
  "cap_for extension = (if extension = ''mp4'' \<or> extension = ''webm'' then MAX_VIDEO_BYTES else MAX_IMAGE_BYTES)"

text \<open>str::rsplit_once at a character.\<close>

definition rsplit_once :: "char \<Rightarrow> string \<Rightarrow> (string \<times> string) option" where
  "rsplit_once c s = map_option (\<lambda>(a, b). (rev b, rev a)) (split_once c (rev s))"

definition is_media_name :: "string \<Rightarrow> bool" where
  "is_media_name name =
     (case rsplit_once (CHR ''.'') name of
        None \<Rightarrow> False
      | Some (stem, ext) \<Rightarrow>
          length stem = 64 \<and> list_all is_ascii_hexdigit stem \<and> mime_for ext \<noteq> None)"

definition URL_PREFIX :: string where "URL_PREFIX = ''/api/images/''"

text \<open>The text after the first occurrence of a pattern: str::find and the slice that follows.\<close>

fun after_first :: "string \<Rightarrow> string \<Rightarrow> string option" where
  "after_first p [] = (if p = [] then Some [] else None)"
| "after_first p (c # s) =
     (case strip_prefix p (c # s) of Some t \<Rightarrow> Some t | None \<Rightarrow> after_first p s)"

definition name_char :: "char \<Rightarrow> bool" where
  "name_char c \<longleftrightarrow> is_ascii_alphanumeric c \<or> c = CHR ''.''"

partial_function (option) media_loop :: "string list \<Rightarrow> string \<Rightarrow> string list option" where
  "media_loop out rest =
     (case after_first URL_PREFIX rest of
        None \<Rightarrow> Some out
      | Some after \<Rightarrow>
          let candidate = takeWhile name_char after
          in media_loop
               (if is_media_name candidate \<and> candidate \<notin> set out then out @ [candidate] else out)
               (drop (length candidate) after))"

definition media_extract :: "string \<Rightarrow> string list option" where
  "media_extract content = media_loop [] content"

section \<open>Mentions\<close>

definition is_continuation :: "char \<Rightarrow> bool" where
  "is_continuation c \<longleftrightarrow> 128 \<le> (of_char c :: nat) \<and> (of_char c :: nat) < 192"

text \<open>str::chars, each character as its bytes.\<close>

function utf8_chars :: "string \<Rightarrow> string list" where
  "utf8_chars [] = []"
| "utf8_chars (b # s) = (b # takeWhile is_continuation s) # utf8_chars (dropWhile is_continuation s)"
  by pat_completeness auto
termination
  by (relation "measure length") (simp_all add: length_dropWhile_le less_Suc_eq_le)

definition is_whitespace :: "string \<Rightarrow> bool" where "is_whitespace c \<longleftrightarrow> c \<in> set white_space"

definition is_alphanumeric :: "(string \<Rightarrow> bool) \<Rightarrow> string \<Rightarrow> bool" where
  "is_alphanumeric alnum c = (case c of [b] \<Rightarrow> is_ascii_alphanumeric b | _ \<Rightarrow> alnum c)"

definition is_handle_char :: "(string \<Rightarrow> bool) \<Rightarrow> string \<Rightarrow> bool" where
  "is_handle_char alnum c \<longleftrightarrow> is_alphanumeric alnum c \<or> c = ''_'' \<or> c = ''-''"

definition is_opening :: "string \<Rightarrow> bool" where
  "is_opening c \<longleftrightarrow>
     c \<in> set [''('', ''['', ''{'', ''<'', [CHR 0x22], [CHR 0x27], [CHR 0xE2, CHR 0x80, CHR 0x9C],
               [CHR 0xE2, CHR 0x80, CHR 0x98]]"

definition eq_ignore_ascii_case :: "string \<Rightarrow> string \<Rightarrow> bool" where
  "eq_ignore_ascii_case s t \<longleftrightarrow> to_ascii_lowercase s = to_ascii_lowercase t"

text \<open>extract: the loop over the characters, with the character before the current one.\<close>

function handle_loop ::
  "(string \<Rightarrow> bool) \<Rightarrow> string option \<Rightarrow> string list \<Rightarrow> string list \<Rightarrow> string list" where
  "handle_loop alnum prev [] out = out"
| "handle_loop alnum prev (c # cs) out =
     (if c \<noteq> ''@'' \<or> \<not> (case prev of None \<Rightarrow> True | Some p \<Rightarrow> is_whitespace p \<or> is_opening p)
      then handle_loop alnum (Some c) cs out
      else let name = takeWhile (is_handle_char alnum) cs; handle = concat name
           in handle_loop alnum (Some (last (c # name))) (dropWhile (is_handle_char alnum) cs)
                (if name \<noteq> [] \<and> \<not> (\<exists>h \<in> set out. eq_ignore_ascii_case h handle)
                 then out @ [handle] else out))"
  by pat_completeness auto
termination
  by (relation "measure (\<lambda>(_, _, cs, _). length cs)")
     (simp_all add: length_dropWhile_le less_Suc_eq_le)

definition mention_extract :: "(string \<Rightarrow> bool) \<Rightarrow> string \<Rightarrow> string list" where
  "mention_extract alnum content = handle_loop alnum None (utf8_chars content) []"

text \<open>The roster that resolve reads, and the members a handle matches.\<close>

definition roster :: "string \<Rightarrow> server_db \<Rightarrow> (string \<times> string) list" where
  "roster room d = map (\<lambda>(m, u). (mb_user m, ur_username u)) (list_members room d)"

definition handle_matches :: "(string \<times> string) list \<Rightarrow> string \<Rightarrow> string list" where
  "handle_matches members handle =
     map fst [(address, username) \<leftarrow> members.
                eq_ignore_ascii_case username handle \<or> eq_ignore_ascii_case address handle]"

definition resolve_handle :: "(string \<times> string) list \<Rightarrow> string \<Rightarrow> string list \<Rightarrow> string list" where
  "resolve_handle members handle out =
     (case handle_matches members handle of
        [only] \<Rightarrow> if only \<in> set out then out else out @ [only]
      | _ \<Rightarrow> out)"

definition mention_resolve :: "string \<Rightarrow> string list \<Rightarrow> server_db \<Rightarrow> string list" where
  "mention_resolve room handles d =
     fold (resolve_handle (roster room d)) (take MAX_MENTIONS handles) []"

section \<open>The inbox and its badge\<close>

record mention_view =
  mv_room :: string
  mv_room_name :: string
  mv_room_kind :: string
  mv_unread :: bool
  mv_message :: message

text \<open>The rows both queries read: a mention of the viewer, with its message.\<close>

definition mention_mail :: "string \<Rightarrow> server_db \<Rightarrow> (mention_row \<times> message_row) list" where
  "mention_mail viewer d =
     [(mm, m). mm \<leftarrow> db_mentions (sv_store d), mm_address mm = viewer \<and> is_member (mm_room mm) viewer d,
               m \<leftarrow> db_messages (sv_store d),
               mr_id m = mm_message mm \<and> \<not> mr_deleted m \<and> mr_sender m \<noteq> viewer
                 \<and> not_blocked (sv_store d) viewer m]"

definition inbox :: "(int \<Rightarrow> string) \<Rightarrow> int \<Rightarrow> string \<Rightarrow> nat \<Rightarrow> server_db \<Rightarrow> mention_view list" where
  "inbox iso_ms now viewer limit d =
     map (\<lambda>(mm, m, r). \<lparr>mv_room = mr_room m, mv_room_name = rm_name r, mv_room_kind = rm_kind r,
                         mv_unread = last_read_serial (mm_room mm) viewer d < mr_serial m,
                         mv_message = from_joined_row iso_ms now (sv_store d) m\<rparr>)
       (take limit (sort_key (\<lambda>(mm, _). - mm_serial mm)
          [(mm, m, r). (mm, m) \<leftarrow> mention_mail viewer d,
                       r \<leftarrow> (case get_room (mm_room mm) d of None \<Rightarrow> [] | Some r \<Rightarrow> [r])]))"

definition unread_counts :: "string \<Rightarrow> server_db \<Rightarrow> (string \<times> nat) list" where
  "unread_counts viewer d =
     (let rooms = [mm_room mm. (mm, m) \<leftarrow> mention_mail viewer d,
                               last_read_serial (mm_room mm) viewer d < mm_serial mm]
      in map (\<lambda>room. (room, count_list rooms room)) (remdups rooms))"

section \<open>What a room shows\<close>

definition push_new :: "string \<Rightarrow> string list \<Rightarrow> string list" where
  "push_new name out = (if name \<in> set out then out else out @ [name])"

definition names_for_room :: "string \<Rightarrow> db \<Rightarrow> string list" where
  "names_for_room room d =
     (let recorded = [n \<leftarrow> remdups (map md_name [x \<leftarrow> db_media d. md_room x = room]). is_media_name n];
          scanned = concat (map (\<lambda>m. the (media_extract (mr_content m)))
                              [m \<leftarrow> db_messages d. mr_room m = room \<and> \<not> mr_encrypted m])
      in fold push_new (recorded @ scanned) [])"

record shown_media =
  sh_name :: string
  sh_message :: string
  sh_sender :: string
  sh_created_ms :: int

definition shown_for_room :: "string \<Rightarrow> int \<Rightarrow> nat \<Rightarrow> db \<Rightarrow> shown_media list" where
  "shown_for_room room before_ms limit d =
     map (\<lambda>(x, m). \<lparr>sh_name = md_name x, sh_message = md_message x, sh_sender = mr_sender m,
                     sh_created_ms = md_created_at x\<rparr>)
       (take limit (sort_key (\<lambda>(x, _). - md_created_at x)
          [(x, m). x \<leftarrow> rev (db_media d), md_room x = room \<and> md_created_at x < before_ms,
                   m \<leftarrow> db_messages d, mr_id m = md_message x]))"

text \<open>SQLite's LIKE with a pattern that is free of wildcards between two percent signs, on a media name:
containment up to ASCII case.\<close>

definition contains_str :: "string \<Rightarrow> string \<Rightarrow> bool" where
  "contains_str p s \<longleftrightarrow> after_first p s \<noteq> None"

definition like_contains :: "string \<Rightarrow> string \<Rightarrow> bool" where
  "like_contains name s \<longleftrightarrow> contains_str (to_ascii_lowercase name) (to_ascii_lowercase s)"

text \<open>is_referenced: \<^verbatim>\<open>profiles\<close> holds the profile images of the users and \<^verbatim>\<open>notes\<close> the contents of the
taught notes, tables of other modules.\<close>

definition is_referenced :: "string list \<Rightarrow> string list \<Rightarrow> string \<Rightarrow> db \<Rightarrow> bool" where
  "is_referenced profiles notes name d \<longleftrightarrow>
     (\<exists>x \<in> set (db_media d). md_name x = name)
     \<or> (\<exists>m \<in> set (db_messages d). \<not> mr_encrypted m \<and> like_contains name (mr_content m))
     \<or> (\<exists>p \<in> set profiles. like_contains name p)
     \<or> (\<exists>n \<in> set notes. like_contains name n)"

definition unreferenced :: "string list \<Rightarrow> string list \<Rightarrow> string list \<Rightarrow> db \<Rightarrow> string list" where
  "unreferenced profiles notes names d = [n \<leftarrow> names. \<not> is_referenced profiles notes n d]"

section \<open>What the scans find\<close>

definition displays :: "string \<Rightarrow> string \<Rightarrow> bool" where
  "displays s name \<longleftrightarrow> (\<exists>p t. s = p @ URL_PREFIX @ t \<and> name = takeWhile name_char t)"

lemma after_first_None: "after_first p s = None \<longleftrightarrow> (\<nexists>q t. s = q @ p @ t)"
proof (induction s)
  case (Cons c s)
  have "(\<exists>q t. c # s = q @ p @ t) \<longleftrightarrow> (\<exists>t. c # s = p @ t) \<or> (\<exists>q t. s = q @ p @ t)"
    by (auto simp: Cons_eq_append_conv)
  with Cons show ?case
    by (auto simp: strip_prefix_Some split: option.split) (metis not_Some_eq strip_prefix_append)+
qed auto

lemma contains_str_iff: "contains_str p s \<longleftrightarrow> (\<exists>q t. s = q @ p @ t)"
  using after_first_None [of p s] by (auto simp: contains_str_def)

lemma after_first_Some:
  "after_first p s = Some t \<Longrightarrow> \<exists>q. s = q @ p @ t \<and> (\<forall>q' t'. s = q' @ p @ t' \<longrightarrow> length q \<le> length q')"
proof (induction s)
  case (Cons c s)
  show ?case
  proof (cases "strip_prefix p (c # s)")
    case None
    with Cons obtain q where q: "s = q @ p @ t" "\<forall>q' t'. s = q' @ p @ t' \<longrightarrow> length q \<le> length q'"
      by auto
    have "Suc (length q) \<le> length q'" if "c # s = q' @ p @ t'" for q' t'
      using that None q(2) by (cases q') (auto simp: strip_prefix_append)
    with q show ?thesis by (intro exI [of _ "c # q"]) auto
  next
    case (Some u)
    with Cons.prems show ?thesis by (intro exI [of _ "[]"]) (simp add: strip_prefix_Some)
  qed
qed (auto split: if_splits)

lemma prefix_overlap:
  assumes "URL_PREFIX @ u = a @ URL_PREFIX @ v" "a \<noteq> []" "length a < length URL_PREFIX"
  shows "URL_PREFIX @ u = ''/api/images/api/images/'' @ v"
proof -
  have "a = take (length a) URL_PREFIX"
    using arg_cong [OF assms(1), of "take (length a)"] assms(3) by simp
  moreover have "1 \<le> length a" "length a \<le> 11" using assms(2,3) by (cases a; simp add: URL_PREFIX_def)+
  then have "length a \<in> set [1..<12]" by simp
  then have "length a = 1 \<or> length a = 2 \<or> length a = 3 \<or> length a = 4 \<or> length a = 5 \<or> length a = 6
    \<or> length a = 7 \<or> length a = 8 \<or> length a = 9 \<or> length a = 10 \<or> length a = 11"
    by (simp add: upt_rec numeral_eq_Suc)
  ultimately show ?thesis using assms(1) by (elim disjE) (simp_all add: URL_PREFIX_def numeral_eq_Suc)
qed

text \<open>An occurrence other than the first one found starts after its name, unless two overlap.\<close>

lemma later_occurrence:
  assumes "q @ URL_PREFIX @ after = q' @ URL_PREFIX @ t" "length q < length q'"
    "\<not> contains_str ''/api/images/api/images/'' (q @ URL_PREFIX @ after)"
  shows "\<exists>p. drop (length (takeWhile name_char after)) after = p @ URL_PREFIX @ t"
proof -
  obtain a where a: "q' = q @ a" "a \<noteq> []" "URL_PREFIX @ after = a @ URL_PREFIX @ t"
  proof -
    have "take (length q) q' = q"
      using arg_cong [OF assms(1), of "take (length q)"] assms(2) by simp
    then have "q' = q @ drop (length q) q'" by (metis append_take_drop_id)
    with assms show ?thesis by (intro that [of "drop (length q) q'"]) (auto, metis append_assoc same_append_eq)
  qed
  have long: "length URL_PREFIX \<le> length a"
  proof (rule ccontr)
    assume "\<not> length URL_PREFIX \<le> length a"
    with a have "URL_PREFIX @ after = ''/api/images/api/images/'' @ t" by (intro prefix_overlap) auto
    with assms(3) show False unfolding contains_str_iff by metis
  qed
  then obtain b where b: "after = b @ URL_PREFIX @ t" "a = URL_PREFIX @ b"
  proof -
    have "take (length URL_PREFIX) a = URL_PREFIX"
      using arg_cong [OF a(3), of "take (length URL_PREFIX)"] long by simp
    then have "a = URL_PREFIX @ drop (length URL_PREFIX) a" by (metis append_take_drop_id)
    with a(3) show ?thesis
      by (intro that [of "drop (length URL_PREFIX) a"]) (metis append_assoc same_append_eq)+
  qed
  let ?k = "length (takeWhile name_char after)"
  have slash: "URL_PREFIX @ t = CHR ''/'' # drop 1 (URL_PREFIX @ t)" by (simp add: URL_PREFIX_def)
  have "\<not> name_char (CHR ''/'')" by (simp add: name_char_def is_ascii_alphanumeric_def char_class_codes)
  then have "takeWhile name_char after = takeWhile name_char b"
    using b(1) slash by (metis takeWhile_append takeWhile.simps(2) append_Nil2 takeWhile_eq_all_conv)
  then have "?k \<le> length b" by (simp add: length_takeWhile_le)
  then show ?thesis using b(1) by (intro exI [of _ "drop ?k b"]) simp
qed

lemma shows_found:
  assumes "after_first URL_PREFIX s = Some after"
  shows "displays s (takeWhile name_char after)"
    and "displays (drop (length (takeWhile name_char after)) after) n \<Longrightarrow> displays s n"
    and "\<not> contains_str ''/api/images/api/images/'' s \<Longrightarrow> displays s n
         \<Longrightarrow> n = takeWhile name_char after \<or> displays (drop (length (takeWhile name_char after)) after) n"
    and "\<not> contains_str ''/api/images/api/images/'' s
         \<Longrightarrow> \<not> contains_str ''/api/images/api/images/'' (drop (length (takeWhile name_char after)) after)"
proof -
  let ?c = "takeWhile name_char after"
  obtain q where q: "s = q @ URL_PREFIX @ after" and
      first: "\<And>q' t'. s = q' @ URL_PREFIX @ t' \<Longrightarrow> length q \<le> length q'"
    using after_first_Some [OF assms] by blast
  have suffix: "after = ?c @ drop (length ?c) after"
    by (metis dropWhile_eq_drop takeWhile_dropWhile_id)
  show "displays s ?c" using q by (auto simp: displays_def)
  show "displays s n" if later: "displays (drop (length ?c) after) n"
  proof -
    obtain p t where "drop (length ?c) after = p @ URL_PREFIX @ t" "n = takeWhile name_char t"
      using later unfolding displays_def by blast
    with suffix q have "s = (q @ URL_PREFIX @ ?c @ p) @ URL_PREFIX @ t"
      by (metis append.assoc)
    with \<open>n = takeWhile name_char t\<close> show ?thesis by (auto simp only: displays_def)
  qed
  show "n = ?c \<or> displays (drop (length ?c) after) n"
    if no: "\<not> contains_str ''/api/images/api/images/'' s" and n: "displays s n"
  proof -
    obtain q' t where t: "s = q' @ URL_PREFIX @ t" "n = takeWhile name_char t"
      using n unfolding displays_def by blast
    show ?thesis
    proof (cases "length q = length q'")
      case True
      with t q have "t = after" by auto
      with t show ?thesis by simp
    next
      case False
      with first [OF t(1)] later_occurrence [of q after q' t] t q no show ?thesis
        by (auto simp: displays_def)
    qed
  qed
  show "\<not> contains_str ''/api/images/api/images/'' (drop (length ?c) after)"
    if no: "\<not> contains_str ''/api/images/api/images/'' s"
  proof
    assume "contains_str ''/api/images/api/images/'' (drop (length ?c) after)"
    then obtain a b where "drop (length ?c) after = a @ ''/api/images/api/images/'' @ b"
      unfolding contains_str_iff by blast
    with suffix q have "s = (q @ URL_PREFIX @ ?c @ a) @ ''/api/images/api/images/'' @ b"
      by (metis append.assoc)
    with no show False unfolding contains_str_iff by blast
  qed
qed

lemma shows_none: "after_first URL_PREFIX s = None \<Longrightarrow> \<not> displays s n"
  by (auto simp: after_first_None displays_def)

lemma media_loop_shorter:
  "after_first URL_PREFIX s = Some after \<Longrightarrow> length (drop k after) < length s"
  using after_first_Some [of URL_PREFIX s after] by (auto simp: URL_PREFIX_def)

lemma media_loop_exact:
  "distinct out \<Longrightarrow> \<exists>r. media_loop out s = Some r \<and> distinct r \<and> set out \<subseteq> set r
     \<and> set r \<subseteq> set out \<union> {n. is_media_name n \<and> displays s n}
     \<and> (\<not> contains_str ''/api/images/api/images/'' s \<longrightarrow> {n. is_media_name n \<and> displays s n} \<subseteq> set r)"
proof (induction "length s" arbitrary: s out rule: less_induct)
  case less
  show ?case
  proof (cases "after_first URL_PREFIX s")
    case None
    with shows_none [OF None] less.prems show ?thesis by (simp add: media_loop.simps)
  next
    case (Some after)
    let ?c = "takeWhile name_char after"
    let ?out = "if is_media_name ?c \<and> ?c \<notin> set out then out @ [?c] else out"
    have dist: "distinct ?out" using less.prems by simp
    have "media_loop out s = media_loop ?out (drop (length ?c) after)"
      using Some by (subst media_loop.simps) (simp add: Let_def)
    moreover obtain r where
      "media_loop ?out (drop (length ?c) after) = Some r"
      and r: "distinct r" "set ?out \<subseteq> set r"
        "set r \<subseteq> set ?out \<union> {n. is_media_name n \<and> displays (drop (length ?c) after) n}"
        "\<not> contains_str ''/api/images/api/images/'' (drop (length ?c) after) \<longrightarrow>
           {n. is_media_name n \<and> displays (drop (length ?c) after) n} \<subseteq> set r"
      using less.hyps [OF media_loop_shorter [OF Some] dist] by blast
    ultimately have run: "media_loop out s = Some r" by simp
    note found = shows_found [OF Some]
    have "set r \<subseteq> set out \<union> {n. is_media_name n \<and> displays s n}"
      using r(3) found(1,2) by (auto split: if_splits)
    moreover have "set out \<subseteq> set r" using r(2) by (auto split: if_splits)
    moreover have "{n. is_media_name n \<and> displays s n} \<subseteq> set r"
      if no: "\<not> contains_str ''/api/images/api/images/'' s"
      using found(3) [OF no] found(4) [OF no] r(2,4) by (auto split: if_splits)
    ultimately show ?thesis using run r(1) by blast
  qed
qed

end
