(* ===== verification/Validate.thy ===== *)
theory Validate imports Room_Routes Mentions_Media Time_Format begin

text \<open>src/app/server/src/validate.rs: the check of every scalar a request carries.  A validator takes
the raw field, absent or a string of UTF-8 bytes, and gives the error the client sees or the value the
handler goes on with.  Field names and messages are the code's.  The extractor of JSON bodies is not
modelled: serde_json and axum parse, and the handlers here start from the parsed fields.\<close>

section \<open>Character classes\<close>

text \<open>The number of characters: str::chars counts the bytes that are not continuation bytes.\<close>

definition char_count :: "string \<Rightarrow> nat" where
  "char_count s = length [c \<leftarrow> s. \<not> is_continuation c]"

definition is_forbidden_markup :: "char \<Rightarrow> bool" where
  "is_forbidden_markup c \<longleftrightarrow>
     c \<in> set [CHR ''<'', CHR ''>'', CHR ''{'', CHR ''}'', CHR '';'', CHR 0x22, CHR 0x27, CHR 0x60, CHR 0x5C]"

definition is_forbidden_username :: "char \<Rightarrow> bool" where
  "is_forbidden_username c \<longleftrightarrow> is_forbidden_markup c \<or> c = CHR '',''"

definition is_control :: "char \<Rightarrow> bool" where
  "is_control c \<longleftrightarrow> (of_char c :: nat) \<le> 31 \<or> c = CHR 0x7F"

definition is_ascii_whitespace :: "char \<Rightarrow> bool" where
  "is_ascii_whitespace c \<longleftrightarrow> c \<in> set [CHR 0x20, CHR 0x09, CHR 0x0A, CHR 0x0C, CHR 0x0D]"

definition VERBS :: "string list" where
  "VERBS = [''DROP'', ''DELETE'', ''UPDATE'', ''INSERT'', ''CREATE'', ''ALTER'', ''EXEC'', ''UNION'', ''SELECT'']"

definition verb_follows :: "string \<Rightarrow> string \<Rightarrow> bool" where
  "verb_follows s verb \<longleftrightarrow>
     length verb < length s \<and> eq_ignore_ascii_case (take (length verb) s) verb
     \<and> is_ascii_whitespace (s ! length verb)"

fun looks_like_sql_injection :: "string \<Rightarrow> bool" where
  "looks_like_sql_injection [] = False"
| "looks_like_sql_injection (b # s) =
     ((b = CHR '';'' \<and> list_ex (verb_follows (dropWhile is_ascii_whitespace s)) VERBS)
      \<or> looks_like_sql_injection s)"

definition is_lower_hex :: "string \<Rightarrow> nat \<Rightarrow> bool" where
  "is_lower_hex s n \<longleftrightarrow> length s = n \<and> list_all is_lower_hexdigit s"

definition is_any_hex :: "string \<Rightarrow> nat \<Rightarrow> bool" where
  "is_any_hex s n \<longleftrightarrow> length s = n \<and> list_all is_ascii_hexdigit s"

definition required :: "string \<Rightarrow> string \<Rightarrow> api_error" where
  "required field what = field_error field (what @ '' is required'')"

section \<open>Names and identifiers\<close>

definition validate_wallet :: "string \<Rightarrow> string option \<Rightarrow> api_error + string" where
  "validate_wallet field raw =
     (case raw of
        None \<Rightarrow> Inl (field_error field ''Invalid wallet address format'')
      | Some s \<Rightarrow> (case wallet_new s of
                    Inl _ \<Rightarrow> Inl (field_error field ''Invalid wallet address format'')
                  | Inr w \<Rightarrow> Inr (as_str w)))"

definition validate_username :: "string option \<Rightarrow> api_error + string" where
  "validate_username raw =
     try_bind (ok_or (required ''username'' ''Username'') raw) (\<lambda>raw.
       let trimmed = trim raw in
       ensure (\<not> list_ex is_forbidden_username trimmed)
         (field_error ''username'' ''Username contains invalid characters'')
      (ensure (\<not> list_ex is_control trimmed)
         (field_error ''username'' ''Username contains control characters'')
      (ensure (\<not> looks_like_sql_injection trimmed)
         (field_error ''username'' ''Username contains invalid characters'')
      (ensure (3 \<le> char_count trimmed \<and> char_count trimmed \<le> 100)
         (field_error ''username'' ''Username must be between 3 and 100 characters'')
      (Inr trimmed)))))"

text \<open>profile_image: absent leaves the image alone, empty clears it, otherwise one of two shapes.\<close>

definition is_profile_name :: "string \<Rightarrow> bool" where
  "is_profile_name name =
     (case rsplit_once (CHR ''.'') name of
        None \<Rightarrow> False
      | Some (stem, ext) \<Rightarrow> length stem = 64 \<and> list_all is_ascii_hexdigit stem
          \<and> ext \<in> set [''png'', ''jpg'', ''webp'', ''gif''])"

definition validate_profile_image :: "string option \<Rightarrow> api_error + string option option" where
  "validate_profile_image raw =
     (case raw of
        None \<Rightarrow> Inr None
      | Some raw \<Rightarrow>
          let trimmed = trim raw; bad = Inl (field_error ''profileImage'' ''Invalid profile image'') in
          if trimmed = [] then Inr (Some None)
          else case strip_prefix ''preset:'' trimmed of
            Some slug \<Rightarrow>
              if slug = [] \<or> 64 < length slug
                 \<or> \<not> list_all (\<lambda>b. is_ascii_lower b \<or> is_ascii_digit b \<or> b = CHR ''-'') slug
              then bad else Inr (Some (Some trimmed))
          | None \<Rightarrow>
              (case strip_prefix ''/api/images/'' trimmed of
                 Some name \<Rightarrow> if is_profile_name name then Inr (Some (Some trimmed)) else bad
               | None \<Rightarrow> bad))"

definition validate_room_id :: "string \<Rightarrow> api_error + string" where
  "validate_room_id raw =
     (let trimmed = trim raw in
      ensure (10 \<le> length trimmed \<and> length trimmed \<le> 100)
        (field_error ''roomId'' ''Room ID must be between 10 and 100 characters'')
        (case room_id_new trimmed of
           Inl _ \<Rightarrow> Inl (field_error ''roomId'' ''Room ID contains invalid characters'')
         | Inr r \<Rightarrow> Inr (room_str r)))"

definition validate_message_id :: "string \<Rightarrow> api_error + string" where
  "validate_message_id raw =
     (let trimmed = trim raw in
      ensure (10 \<le> length trimmed \<and> length trimmed \<le> 100)
        (field_error ''messageId'' ''Message ID must be between 10 and 100 characters'')
        (case message_id_new trimmed of
           Inl _ \<Rightarrow> Inl (field_error ''messageId'' ''Message ID contains invalid characters'')
         | Inr m \<Rightarrow> Inr (message_str m)))"

text \<open>A short text without markup: room_name, webhook_name and search_query.\<close>

definition plain_text :: "string \<Rightarrow> string \<Rightarrow> nat \<Rightarrow> string option \<Rightarrow> api_error + string" where
  "plain_text field what most raw =
     try_bind (ok_or (required field what) raw) (\<lambda>raw.
       let trimmed = trim raw in
       ensure (\<not> list_ex is_forbidden_markup trimmed)
         (field_error field (what @ '' contains invalid characters''))
      (ensure (1 \<le> char_count trimmed \<and> char_count trimmed \<le> most)
         (field_error field (what @ '' must be between 1 and '' @ decimal most @ '' characters''))
      (Inr trimmed)))"

definition validate_room_name :: "string option \<Rightarrow> api_error + string" where
  "validate_room_name = plain_text ''name'' ''Room name'' 100"

definition validate_webhook_name :: "string option \<Rightarrow> api_error + string" where
  "validate_webhook_name = plain_text ''name'' ''Webhook name'' 50"

definition validate_search_query :: "string option \<Rightarrow> api_error + string" where
  "validate_search_query = plain_text ''q'' ''Search query'' 100"

definition validate_room_description :: "string option \<Rightarrow> api_error + string option" where
  "validate_room_description raw =
     (case raw of
        None \<Rightarrow> Inr None
      | Some raw \<Rightarrow>
          let trimmed = trim raw in
          if trimmed = [] then Inr None
          else ensure (\<not> list_ex is_forbidden_markup trimmed)
                 (field_error ''description'' ''Room description contains invalid characters'')
              (ensure (char_count trimmed \<le> 500)
                 (field_error ''description'' ''Room description must be at most 500 characters'')
              (Inr (Some trimmed))))"

definition webhook_token :: "string \<Rightarrow> string option" where
  "webhook_token raw =
     (case strip_prefix ''whk_'' raw of
        Some h \<Rightarrow> if is_lower_hex h 64 then Some raw else None | None \<Rightarrow> None)"

section \<open>Messages\<close>

definition message_content :: "string option \<Rightarrow> api_error + string" where
  "message_content raw =
     try_bind (ok_or (required ''content'' ''Message content'') raw) (\<lambda>raw.
       let trimmed = trim raw in
       ensure (char_count trimmed \<noteq> 0) (required ''content'' ''Message content'')
      (ensure (char_count trimmed \<le> 5000)
         (field_error ''content'' ''Message content must be at most 5000 characters'')
      (Inr trimmed)))"

text \<open>A collect into a Result: the first error wins.\<close>

fun collect_results :: "('a \<Rightarrow> 'e + 'b) \<Rightarrow> 'a list \<Rightarrow> 'e + 'b list" where
  "collect_results f [] = Inr []"
| "collect_results f (x # xs) =
     try_bind (f x) (\<lambda>y. try_bind (collect_results f xs) (\<lambda>ys. Inr (y # ys)))"

definition mention_addresses :: "string list option \<Rightarrow> api_error + string list" where
  "mention_addresses raw =
     (case raw of
        None \<Rightarrow> Inr []
      | Some raw \<Rightarrow>
          ensure (length raw \<le> MAX_MENTIONS)
            (field_error ''mentions'' (''A message can mention at most '' @ decimal MAX_MENTIONS @ '' people''))
            (collect_results (\<lambda>e. validate_wallet ''mentions'' (Some e)) raw))"

fun media_entries :: "string list \<Rightarrow> string list \<Rightarrow> api_error + string list" where
  "media_entries out [] = Inr out"
| "media_entries out (entry # rest) =
     (if \<not> is_media_name entry
      then Inl (field_error ''media''
        ''Each entry must be a hosted media filename, as returned by POST /api/images'')
      else media_entries (push_new entry out) rest)"

definition media_names :: "string list option \<Rightarrow> api_error + string list" where
  "media_names raw =
     (case raw of
        None \<Rightarrow> Inr []
      | Some raw \<Rightarrow>
          ensure (length raw \<le> MAX_MEDIA)
            (field_error ''media'' (''A message can show at most '' @ decimal MAX_MEDIA @ '' files''))
            (media_entries [] raw))"

definition validate_msg_hash :: "string option \<Rightarrow> api_error + string" where
  "validate_msg_hash raw =
     try_bind (ok_or (required ''msgHash'' ''Message hash'') raw) (\<lambda>raw.
       ensure (is_lower_hex raw 64)
         (field_error ''msgHash'' ''Message hash must be 64 lowercase hex characters'') (Inr raw))"

definition message_iv :: "string option \<Rightarrow> api_error + string option" where
  "message_iv raw =
     (case raw of
        None \<Rightarrow> Inr None
      | Some v \<Rightarrow> if is_lower_hex v 32 then Inr (Some v)
                  else Inl (field_error ''iv'' ''IV must be 32 lowercase hex characters''))"

definition message_hmac :: "string option \<Rightarrow> api_error + string option" where
  "message_hmac raw =
     (case raw of
        None \<Rightarrow> Inr None
      | Some v \<Rightarrow> if is_lower_hex v 64 then Inr (Some v)
                  else Inl (field_error ''hmac'' ''HMAC must be 64 lowercase hex characters''))"

definition validate_enc_ver :: "int option \<Rightarrow> int \<Rightarrow> api_error + int" where
  "validate_enc_ver raw deflt =
     (case raw of
        None \<Rightarrow> Inr deflt
      | Some v \<Rightarrow> if 1 \<le> v \<and> v \<le> 2 then Inr v
                  else Inl (field_error ''encVer'' ''Encryption version must be 1 or 2''))"

definition SECRET_ENC_VER :: int where "SECRET_ENC_VER = 1"

definition secret_enc_ver :: "int option \<Rightarrow> api_error + int" where
  "secret_enc_ver raw =
     (let v = (case raw of Some v \<Rightarrow> v | None \<Rightarrow> SECRET_ENC_VER)
      in if v = SECRET_ENC_VER then Inr v
         else Inl (field_error ''encVer'' (''Encryption version must be '' @ show_int SECRET_ENC_VER)))"

definition validate_key_version :: "string \<Rightarrow> int option \<Rightarrow> int \<Rightarrow> api_error + int" where
  "validate_key_version field raw deflt =
     (case raw of
        None \<Rightarrow> Inr deflt
      | Some v \<Rightarrow> if 1 \<le> v \<and> v \<le> 1000000 then Inr v
                  else Inl (field_error field ''Key version must be between 1 and 1000000''))"

definition emoticon_code :: "string option \<Rightarrow> api_error + string" where
  "emoticon_code raw =
     try_bind (ok_or (field_error ''emoticonCode'' ''Emoticon code is required'') raw) (\<lambda>raw.
       let trimmed = trim raw in
       ensure (char_count trimmed \<noteq> 0) (field_error ''emoticonCode'' ''Emoticon code is required'')
      (ensure (char_count trimmed \<le> 64) (field_error ''emoticonCode'' ''Emoticon code too long'')
      (Inr trimmed)))"

section \<open>Files\<close>

definition validate_filename :: "string option \<Rightarrow> api_error + string" where
  "validate_filename raw =
     try_bind (ok_or (required ''filename'' ''Filename'') raw) (\<lambda>raw.
       let trimmed = trim raw in
       ensure (char_count trimmed \<noteq> 0) (required ''filename'' ''Filename'')
      (ensure (char_count trimmed \<le> 200)
         (field_error ''filename'' ''Filename must be at most 200 characters'')
      (ensure (\<not> (CHR ''/'' \<in> set trimmed \<or> CHR 0x5C \<in> set trimmed \<or> contains_str ''..'' trimmed))
         (field_error ''filename'' ''Filename must not contain path separators'')
      (ensure (\<not> list_ex is_control trimmed)
         (field_error ''filename'' ''Filename must not contain control characters'')
      (ensure (\<not> list_ex is_forbidden_markup trimmed)
         (field_error ''filename'' ''Filename contains invalid characters'')
      (Inr trimmed))))))"

definition validate_caption :: "string option \<Rightarrow> api_error + string" where
  "validate_caption raw =
     (case raw of
        None \<Rightarrow> Inr []
      | Some raw \<Rightarrow>
          let trimmed = trim raw in
          ensure (char_count trimmed \<le> 1000)
            (field_error ''caption'' ''Caption must be at most 1000 characters'')
         (ensure (\<not> list_ex is_control trimmed)
            (field_error ''caption'' ''Caption must not contain control characters'')
         (Inr trimmed)))"

section \<open>Keys and signatures\<close>

definition room_key_hex :: "string \<Rightarrow> string option \<Rightarrow> nat \<Rightarrow> api_error + string" where
  "room_key_hex field raw len =
     try_bind (ok_or (field_error field ''is required'') raw) (\<lambda>raw.
       ensure (is_any_hex raw len) (field_error field (''must be '' @ decimal len @ '' hex characters'')) (Inr raw))"

definition ephemeral_public_key :: "string option \<Rightarrow> api_error + string" where
  "ephemeral_public_key raw =
     try_bind (ok_or (required ''ephemeralPublicKey'' ''Ephemeral public key'') raw) (\<lambda>raw.
       ensure (1 \<le> length raw \<and> length raw \<le> 256 \<and> list_all is_ascii_hexdigit raw)
         (field_error ''ephemeralPublicKey'' ''Ephemeral public key must be 1-256 hex characters'') (Inr raw))"

definition wrapped_key :: "string option \<Rightarrow> api_error + string" where
  "wrapped_key raw =
     try_bind (ok_or (required ''encryptedSymmetricKey'' ''Encrypted symmetric key'') raw) (\<lambda>raw.
       ensure (1 \<le> length raw \<and> length raw \<le> 1024)
         (field_error ''encryptedSymmetricKey'' ''Encrypted symmetric key must be 1-1024 characters'') (Inr raw))"

definition MAX_SEALED_CIPHERTEXT :: nat where "MAX_SEALED_CIPHERTEXT = 8192"

definition is_valid_entry_id :: "string \<Rightarrow> bool" where
  "is_valid_entry_id s \<longleftrightarrow> 10 \<le> length s \<and> length s \<le> 100 \<and> list_all message_id_char s"

definition secret_entry_id :: "string \<Rightarrow> api_error + string" where
  "secret_entry_id raw =
     ensure (is_valid_entry_id raw)
       (field_error ''id'' ''Entry id must be 10-100 characters of [A-Za-z0-9_-]'') (Inr raw)"

definition sealed_ciphertext :: "string \<Rightarrow> string option \<Rightarrow> api_error + string" where
  "sealed_ciphertext field raw =
     try_bind (ok_or (field_error field ''Ciphertext is required'') raw) (\<lambda>raw.
       ensure (1 \<le> length raw \<and> length raw \<le> MAX_SEALED_CIPHERTEXT)
         (field_error field (''Ciphertext must be 1-'' @ decimal MAX_SEALED_CIPHERTEXT @ '' characters'')) (Inr raw))"

definition validate_public_key :: "string option \<Rightarrow> api_error + string" where
  "validate_public_key raw =
     try_bind (ok_or (field_error ''publicKey'' ''Public key must be hex'') raw) (\<lambda>raw.
       ensure (raw \<noteq> [] \<and> length raw \<le> 130 \<and> list_all is_ascii_hexdigit raw)
         (field_error ''publicKey'' ''Public key must be hex'') (Inr raw))"

definition validate_signature :: "string \<Rightarrow> string option \<Rightarrow> api_error + string" where
  "validate_signature field raw =
     try_bind (ok_or (field_error field ''Signature must be a hex string'') raw) (\<lambda>raw.
       ensure (2 < length raw \<and> length raw \<le> 200 \<and> starts_with ''0x'' raw
                 \<and> list_all is_ascii_hexdigit (drop 2 raw))
         (field_error field ''Signature must be a hex string'') (Inr raw))"

section \<open>Numbers\<close>

definition validate_serial :: "string \<Rightarrow> int option \<Rightarrow> api_error + int" where
  "validate_serial field raw =
     try_bind (ok_or (field_error field ''Serial is required'') raw) (\<lambda>v.
       ensure (0 \<le> v \<and> v \<le> MAX_SAFE_INT) (field_error field ''Serial out of range'') (Inr v))"

definition parse_query :: "string option \<Rightarrow> int option" where
  "parse_query raw = Option.bind raw (\<lambda>s. parse_i64 (trim s))"

definition optional_cursor :: "string option \<Rightarrow> int" where
  "optional_cursor raw =
     (case parse_query raw of
        Some v \<Rightarrow> if 0 \<le> v \<and> v \<le> MAX_SAFE_INT then v else 0
      | None \<Rightarrow> 0)"

definition page_limit :: "string option \<Rightarrow> nat" where
  "page_limit raw =
     (case parse_query raw of Some n \<Rightarrow> if 1 \<le> n then nat (min n 100) else 50 | None \<Rightarrow> 50)"

end
