(* ===== verification/Message_Routes.thy ===== *)
theory Message_Routes imports Validate begin

text \<open>The routes that write and read messages: src/app/server/src/routes/messages.rs, emoticons.rs, sync.rs
and mentions.rs.  A handler takes the caller, the raw path and query strings and the fields of the body,
and validates them itself, in the order of the code.  The id of a new message, the clock, the timestamp
formatter \<^verbatim>\<open>iso_ms\<close>, the hash of a text \<^verbatim>\<open>sha\<close> and the table of alphanumeric characters \<^verbatim>\<open>alnum\<close>
are parameters.  The nudge that follows a change and the audit record of a purge are not modelled here.\<close>

section \<open>Bodies\<close>

record message_body =
  bd_content :: "string option"
  bd_msg_hash :: "string option"
  bd_is_encrypted :: "bool option"
  bd_iv :: "string option"
  bd_hmac :: "string option"
  bd_enc_ver :: "int option"
  bd_key_version :: "int option"
  bd_parent :: "string option"
  bd_mentions :: "string list option"
  bd_media :: "string list option"

definition resolve_mentions :: "(string \<Rightarrow> bool) \<Rightarrow> string \<Rightarrow> string \<Rightarrow> bool \<Rightarrow> string list \<Rightarrow> server_db \<Rightarrow> string list" where
  "resolve_mentions alnum room content encrypted declared d =
     mention_resolve room (declared @ (if encrypted then [] else mention_extract alnum content)) d"

definition resolve_media :: "string \<Rightarrow> bool \<Rightarrow> string list \<Rightarrow> string list" where
  "resolve_media content encrypted declared =
     (if encrypted then declared else fold push_new (the (media_extract content)) declared)"

text \<open>The validators that every write runs on the sealed fields, in their order.\<close>

definition sealed_fields ::
  "message_body \<Rightarrow> api_error + (string option \<times> string option \<times> int \<times> int)" where
  "sealed_fields body =
     try_bind (message_iv (bd_iv body)) (\<lambda>iv.
     try_bind (message_hmac (bd_hmac body)) (\<lambda>hmac.
     try_bind (validate_enc_ver (bd_enc_ver body) 1) (\<lambda>enc_ver.
     try_bind (validate_key_version ''keyVersion'' (bd_key_version body) 1) (\<lambda>key_version.
       Inr (iv, hmac, enc_ver, key_version)))))"

definition on_store ::
  "server_db \<Rightarrow> (db_error + ('a \<times> db)) \<Rightarrow> ('a \<Rightarrow> server_db \<Rightarrow> api_error + 'b) \<Rightarrow> api_error + 'b" where
  "on_store d r k = on_db r (\<lambda>(x, store). k x (d\<lparr>sv_store := store\<rparr>))"

lemma on_store_Inr [simp]:
  "on_store d r k = Inr y \<longleftrightarrow> (\<exists>x store. r = Inr (x, store) \<and> k x (d\<lparr>sv_store := store\<rparr>) = Inr y)"
  by (auto simp: on_store_def)

definition stored_room :: "string \<Rightarrow> (string \<Rightarrow> api_error + 'a) \<Rightarrow> api_error + 'a" where
  "stored_room room k =
     (case room_id_new room of
        Inl _ \<Rightarrow> Inl (Internal_error ''stored room id is not valid'') | Inr r \<Rightarrow> k (room_str r))"

definition found :: "string \<Rightarrow> 'a option \<Rightarrow> ('a \<Rightarrow> api_error + 'b) \<Rightarrow> api_error + 'b" where
  "found msg x k = (case x of None \<Rightarrow> Inl (Not_found msg) | Some v \<Rightarrow> k v)"

lemma found_Inr [simp]: "found msg x k = Inr y \<longleftrightarrow> (\<exists>v. x = Some v \<and> k v = Inr y)"
  by (cases x) (simp_all add: found_def)

lemma stored_room_Inr [simp]:
  "stored_room room k = Inr y \<longleftrightarrow> (\<exists>r. room_id_new room = Inr r \<and> k (room_str r) = Inr y)"
  by (auto simp: stored_room_def split: sum.splits)

section \<open>Sending\<close>

text \<open>send: the parent, mentions and media are validated after the epoch gate.  The step send_route, which
goes on, repeats the two gates on the same state.\<close>

definition send_handler ::
  "(string \<Rightarrow> bool) \<Rightarrow> (int \<Rightarrow> string) \<Rightarrow> clock \<Rightarrow> string \<Rightarrow> string \<Rightarrow> string \<Rightarrow> message_body \<Rightarrow> server_db
     \<Rightarrow> api_error + (message \<times> server_db)" where
  "send_handler alnum iso_ms clk new_id caller raw_room body d =
     try_bind (validate_room_id raw_room) (\<lambda>room.
     require_member room caller d
     (try_bind (message_content (bd_content body)) (\<lambda>content.
      try_bind (validate_msg_hash (bd_msg_hash body)) (\<lambda>hash.
      try_bind (sealed_fields body) (\<lambda>(iv, hmac, enc_ver, key_version).
      let encrypted = (bd_is_encrypted body = Some True) in
      try_bind (if encrypted then check_epoch room key_version d else Inr ()) (\<lambda>_.
      try_bind (case bd_parent body of None \<Rightarrow> Inr None
                | Some p \<Rightarrow> map_sum id Some (validate_message_id p)) (\<lambda>parent.
      try_bind (mention_addresses (bd_mentions body)) (\<lambda>declared.
      try_bind (media_names (bd_media body)) (\<lambda>media.
        send_route iso_ms clk
          \<lparr>nm_id = new_id, nm_room = room, nm_sender = caller, nm_content = content, nm_hash = hash,
           nm_encrypted = encrypted, nm_iv = iv, nm_hmac = hmac, nm_enc_ver = enc_ver,
           nm_key_version = key_version, nm_parent = parent,
           nm_mentions = resolve_mentions alnum room content encrypted declared d,
           nm_media = resolve_media content encrypted media\<rparr> d)))))))))"

text \<open>agent_reply: provisioning happens first and stays even where a later check fails.\<close>

definition agent_reply ::
  "(string \<Rightarrow> bool) \<Rightarrow> (byte list \<Rightarrow> byte list) \<Rightarrow> (byte list \<Rightarrow> string) \<Rightarrow> (string \<Rightarrow> string)
     \<Rightarrow> (int \<Rightarrow> string) \<Rightarrow> string list \<Rightarrow> clock \<Rightarrow> string \<Rightarrow> string \<Rightarrow> string \<Rightarrow> message_body \<Rightarrow> server_db
     \<Rightarrow> (api_error + message) \<times> server_db" where
  "agent_reply alnum sha256 enc sha iso_ms ops clk new_id caller raw_room body d =
     (case validate_room_id raw_room of
        Inl e \<Rightarrow> (Inl e, d)
      | Inr room \<Rightarrow>
          if room \<noteq> static_room_id ROOM_KIND_JARVIS caller then (Inl access_denied, d)
          else let d = (case provision_static_rooms sha256 enc caller ops clk d of
                          Inl _ \<Rightarrow> d | Inr (_, d') \<Rightarrow> d')
               in case require_member room caller d
                 (try_bind (message_content (bd_content body)) (\<lambda>content.
                  try_bind (sealed_fields body) (\<lambda>(iv, hmac, enc_ver, key_version).
                  let encrypted = (bd_is_encrypted body = Some True) in
                  try_bind (if encrypted
                            then try_bind (check_epoch room key_version d) (\<lambda>_. validate_msg_hash (bd_msg_hash body))
                            else Inr (sha content)) (\<lambda>hash.
                  on_store d
                    (create_message iso_ms (\<lambda>n. clk (n + 4))
                      \<lparr>nm_id = new_id, nm_room = room,
                       nm_sender = as_str (agent_of sha256 enc (WalletAddress caller)),
                       nm_content = content, nm_hash = hash, nm_encrypted = encrypted, nm_iv = iv,
                       nm_hmac = hmac, nm_enc_ver = enc_ver, nm_key_version = key_version,
                       nm_parent = None,
                       nm_mentions = resolve_mentions alnum room content encrypted [] d,
                       nm_media = resolve_media content encrypted []\<rparr> (sv_store d))
                    (\<lambda>m d. Inr (m, d))))))
               of Inl e \<Rightarrow> (Inl e, d) | Inr (m, d') \<Rightarrow> (Inr m, d'))"

section \<open>Changing a message\<close>

definition edit_route ::
  "(string \<Rightarrow> bool) \<Rightarrow> (int \<Rightarrow> string) \<Rightarrow> clock \<Rightarrow> string \<Rightarrow> string \<Rightarrow> message_body \<Rightarrow> server_db
     \<Rightarrow> api_error + (message \<times> server_db)" where
  "edit_route alnum iso_ms clk caller raw_id body d =
     try_bind (validate_message_id raw_id) (\<lambda>mid.
     found ''Message not found'' (get_message iso_ms (clk 0) mid (sv_store d)) (\<lambda>existing.
     stored_room (sm_room existing) (\<lambda>room.
     ensure (is_member (sm_room existing) caller d) (Forbidden ''Not a member of this room'')
    (ensure (sm_sender_address existing = caller) (Forbidden ''Only the message owner can edit this message'')
    (try_bind (message_content (bd_content body)) (\<lambda>content.
     try_bind (validate_msg_hash (bd_msg_hash body)) (\<lambda>hash.
     try_bind (sealed_fields body) (\<lambda>(iv, hmac, enc_ver, key_version).
     let stays_encrypted = (iv \<noteq> None \<and> hmac \<noteq> None) in
     ensure (\<not> (sm_encrypted existing \<and> \<not> stays_encrypted))
       (Bad_request (''An encrypted message must be edited with iv and hmac; ''
          @ ''omitting them would store it as plaintext''))
    (try_bind (if stays_encrypted then check_epoch room key_version d else Inr ()) (\<lambda>_.
     try_bind (mention_addresses (bd_mentions body)) (\<lambda>declared.
     try_bind (media_names (bd_media body)) (\<lambda>media.
     on_store d
       (update_message iso_ms (\<lambda>n. clk (n + 1)) mid (sm_room existing)
          \<lparr>me_content = content, me_hash = hash, me_iv = iv, me_hmac = hmac, me_enc_ver = enc_ver,
           me_key_version = key_version\<rparr>
          (resolve_mentions alnum (sm_room existing) content stays_encrypted declared d)
          (resolve_media content stays_encrypted media) (sv_store d))
       (\<lambda>updated d. found ''Message not found or unauthorized'' updated (\<lambda>m. Inr (m, d)))))))))))))))"

definition remove_route ::
  "(int \<Rightarrow> string) \<Rightarrow> clock \<Rightarrow> string \<Rightarrow> string \<Rightarrow> server_db \<Rightarrow> api_error + (int \<times> server_db)" where
  "remove_route iso_ms clk caller raw_id d =
     try_bind (validate_message_id raw_id) (\<lambda>mid.
     found ''Message not found'' (get_message iso_ms (clk 0) mid (sv_store d)) (\<lambda>existing.
     stored_room (sm_room existing) (\<lambda>room.
     ensure (is_member (sm_room existing) caller d) (Forbidden ''Not a member of this room'')
    (on_store d (soft_delete_message (\<lambda>n. clk (n + 1)) mid (sm_room existing) (sv_store d)) (\<lambda>deleted d.
     ensure deleted (Not_found ''Message not found or unauthorized'')
       (Inr (latest_serial (sm_room existing) (sv_store d), d)))))))"

definition purge_route ::
  "string list \<Rightarrow> (int \<Rightarrow> string) \<Rightarrow> clock \<Rightarrow> string \<Rightarrow> string \<Rightarrow> string \<Rightarrow> server_db
     \<Rightarrow> api_error + (int \<times> server_db)" where
  "purge_route ops iso_ms clk marker_id caller raw_room d =
     try_bind (validate_room_id raw_room) (\<lambda>room.
     require_admin ops room caller ''Only room admins can delete a room's entire history'' d
    (require_static_owner room caller d
    (on_db (delete_all_messages iso_ms clk room caller marker_id (sv_store d)) (\<lambda>(deleted, marker, store).
       Inr (deleted, d\<lparr>sv_store := store\<rparr>)))))"

definition is_tx_hash :: "string \<Rightarrow> bool" where
  "is_tx_hash value \<longleftrightarrow> length value = 66 \<and> starts_with ''0x'' value \<and> list_all is_ascii_hexdigit (drop 2 value)"

definition publish_route ::
  "string \<Rightarrow> (int \<Rightarrow> string) \<Rightarrow> clock \<Rightarrow> string \<Rightarrow> string \<Rightarrow> string option \<Rightarrow> string option \<Rightarrow> server_db
     \<Rightarrow> api_error + (message \<times> server_db)" where
  "publish_route server_wallet iso_ms clk caller raw_id tx_hash to_address d =
     try_bind (validate_message_id raw_id) (\<lambda>mid.
     try_bind (ok_or (Bad_request ''Invalid transaction hash format'')
       (case tx_hash of Some v \<Rightarrow> if is_tx_hash v then Some v else None | None \<Rightarrow> None)) (\<lambda>tx.
     try_bind (ok_or (Bad_request ''Invalid to address format'')
       (case to_address of Some v \<Rightarrow> (case wallet_new v of Inl _ \<Rightarrow> None | Inr w \<Rightarrow> Some (as_str w)) | None \<Rightarrow> None))
       (\<lambda>to_addr.
     ensure (server_wallet \<noteq> [])
       (Bad_request ''Publishing hash failed: this server has no anchor wallet configured'')
    (ensure (eq_ignore_ascii_case server_wallet to_addr)
       (Bad_request ''Publishing hash failed: transaction recipient does not match server wallet'')
    (found ''Message not found'' (get_message iso_ms (clk 0) mid (sv_store d)) (\<lambda>existing.
     ensure (sm_sender_address existing = caller)
       (Forbidden ''Only the message sender can publish a transaction hash'')
    (ensure (sm_tx_hash existing = None) (conflict ''Message already has a transaction hash'')
    (stored_room (sm_room existing) (\<lambda>room.
     on_store d (publish_tx_hash iso_ms (\<lambda>n. clk (n + 1)) mid (sm_room existing) tx (sv_store d)) (\<lambda>updated d.
     found ''Message not found'' updated (\<lambda>m. Inr (m, d)))))))))))) "

section \<open>Reactions\<close>

definition target_room ::
  "(int \<Rightarrow> string) \<Rightarrow> int \<Rightarrow> string \<Rightarrow> string \<Rightarrow> server_db \<Rightarrow> api_error + (string \<times> string)" where
  "target_room iso_ms now mid caller d =
     found ''Message not found'' (get_message iso_ms now mid (sv_store d)) (\<lambda>m.
     ensure (is_member (sm_room m) caller d) access_denied
    (stored_room (sm_room m) (\<lambda>room. Inr (room, sm_id m))))"

definition react_route ::
  "(int \<Rightarrow> string) \<Rightarrow> (string \<Rightarrow> string) \<Rightarrow> clock \<Rightarrow> string \<Rightarrow> string \<Rightarrow> string \<Rightarrow> string option \<Rightarrow> bool \<Rightarrow> server_db
     \<Rightarrow> api_error + (message \<times> server_db)" where
  "react_route iso_ms sha clk event_id caller raw_id raw_code add d =
     try_bind (validate_message_id raw_id) (\<lambda>mid.
     try_bind (emoticon_code raw_code) (\<lambda>code.
     try_bind (target_room iso_ms (clk 0) mid caller d) (\<lambda>(room, target).
     on_store d
       (create_emoticon_event iso_ms sha (\<lambda>n. clk (n + 1)) event_id room caller target code add (sv_store d))
       (\<lambda>event d. Inr (event\<lparr>sm_sender := None\<rparr>, d)))))"

definition aggregate_route ::
  "(int \<Rightarrow> string) \<Rightarrow> int \<Rightarrow> string \<Rightarrow> string \<Rightarrow> server_db \<Rightarrow> api_error + emoticon_aggregation list" where
  "aggregate_route iso_ms now caller raw_id d =
     try_bind (validate_message_id raw_id) (\<lambda>mid.
     try_bind (target_room iso_ms now mid caller d) (\<lambda>(_, target).
       Inr (aggregate_emoticons target caller (sv_store d))))"

section \<open>Reading\<close>

definition member_room ::
  "string \<Rightarrow> string \<Rightarrow> server_db \<Rightarrow> (string \<Rightarrow> api_error + 'a) \<Rightarrow> api_error + 'a" where
  "member_room raw_room caller d k =
     try_bind (validate_room_id raw_room) (\<lambda>room. require_member room caller d (k room))"

definition messages_route ::
  "(int \<Rightarrow> string) \<Rightarrow> int \<Rightarrow> string \<Rightarrow> string \<Rightarrow> string option \<Rightarrow> string option \<Rightarrow> string option \<Rightarrow> string option
     \<Rightarrow> server_db \<Rightarrow> api_error + message list" where
  "messages_route iso_ms now caller raw_room since before limit include_replies d =
     member_room raw_room caller d (\<lambda>room.
       Inr (get_messages iso_ms now room caller (optional_cursor since) (optional_cursor before)
              (page_limit limit)
              (include_replies \<in> {Some ''true'', Some ''1'', Some ''yes''}) (sv_store d)))"

definition thread_route ::
  "(int \<Rightarrow> string) \<Rightarrow> int \<Rightarrow> string \<Rightarrow> string \<Rightarrow> server_db \<Rightarrow> api_error + message list" where
  "thread_route iso_ms now caller raw_id d =
     try_bind (validate_message_id raw_id) (\<lambda>mid.
     found ''Message not found'' (thread_root mid True (sv_store d)) (\<lambda>(root, room_id).
     stored_room room_id (\<lambda>room.
     require_member room caller d
    (found ''Message not found'' (get_thread iso_ms now root caller (sv_store d)) Inr))))"

definition sync_route ::
  "(int \<Rightarrow> string) \<Rightarrow> int \<Rightarrow> string \<Rightarrow> string \<Rightarrow> string option \<Rightarrow> server_db \<Rightarrow> api_error + (message list \<times> bool)" where
  "sync_route iso_ms now caller raw_room since d =
     member_room raw_room caller d (\<lambda>room.
       Inr (sync_messages iso_ms now room caller (optional_cursor since) (sv_store d)))"

definition latest_serial_route :: "string \<Rightarrow> string \<Rightarrow> server_db \<Rightarrow> api_error + int" where
  "latest_serial_route caller raw_room d =
     member_room raw_room caller d (\<lambda>room. Inr (latest_serial room (sv_store d)))"

definition latest_timestamp_route :: "string \<Rightarrow> string \<Rightarrow> server_db \<Rightarrow> api_error + int" where
  "latest_timestamp_route caller raw_room d =
     member_room raw_room caller d (\<lambda>room. Inr (latest_timestamp room (sv_store d)))"

definition mark_read_route ::
  "int \<Rightarrow> string \<Rightarrow> string \<Rightarrow> int option \<Rightarrow> server_db \<Rightarrow> api_error + (int \<times> server_db)" where
  "mark_read_route now caller raw_room serial d =
     member_room raw_room caller d (\<lambda>room.
       try_bind (validate_serial ''lastReadSerial'' serial) (\<lambda>serial.
         on_store d (mark_read room caller serial now (sv_store d)) (\<lambda>stored d. Inr (stored, d))))"

definition MENTIONS_DEFAULT_LIMIT :: int where "MENTIONS_DEFAULT_LIMIT = 50"
definition MENTIONS_MAX_LIMIT :: int where "MENTIONS_MAX_LIMIT = 200"

definition mentions_route ::
  "(int \<Rightarrow> string) \<Rightarrow> int \<Rightarrow> string \<Rightarrow> string option \<Rightarrow> server_db \<Rightarrow> mention_view list" where
  "mentions_route iso_ms now caller limit d =
     inbox iso_ms now caller
       (nat (max 1 (min MENTIONS_MAX_LIMIT
          (case parse_query limit of Some n \<Rightarrow> n | None \<Rightarrow> MENTIONS_DEFAULT_LIMIT)))) d"

end
