(* ===== verification/Room_Spec.thy ===== *)
theory Room_Spec imports Room_Routes Message_Spec begin

text \<open>What the room routes keep: the roster of a room, who may hold its keys, and the epochs its
messages are sealed under.  A state is looked at through the lookups of Room_Db (get_room, is_member,
is_admin, has_pending_invitation, key_exists), and each operation is described once by what it does to
them.\<close>

section \<open>What the operations change\<close>

named_theorems views

lemmas view_defs = get_room_def room_exists_def is_member_def is_admin_def has_pending_invitation_def
  key_exists_def has_encryption_def admin_count_def

lemma view_frame [simp]:
  "get_room x (d\<lparr>sv_store := y0\<rparr>) = get_room x d"
  "get_room x (d\<lparr>sv_members := y2\<rparr>) = get_room x d"
  "get_room x (d\<lparr>sv_admins := y3\<rparr>) = get_room x d"
  "get_room x (d\<lparr>sv_invitations := y4\<rparr>) = get_room x d"
  "get_room x (d\<lparr>sv_hidden := y5\<rparr>) = get_room x d"
  "get_room x (d\<lparr>sv_keys := y6\<rparr>) = get_room x d"
  "get_room x (d\<lparr>sv_links := y7\<rparr>) = get_room x d"
  "room_exists x (d\<lparr>sv_store := y0\<rparr>) = room_exists x d"
  "room_exists x (d\<lparr>sv_members := y2\<rparr>) = room_exists x d"
  "room_exists x (d\<lparr>sv_admins := y3\<rparr>) = room_exists x d"
  "room_exists x (d\<lparr>sv_invitations := y4\<rparr>) = room_exists x d"
  "room_exists x (d\<lparr>sv_hidden := y5\<rparr>) = room_exists x d"
  "room_exists x (d\<lparr>sv_keys := y6\<rparr>) = room_exists x d"
  "room_exists x (d\<lparr>sv_links := y7\<rparr>) = room_exists x d"
  "is_member x a (d\<lparr>sv_store := y0\<rparr>) = is_member x a d"
  "is_member x a (d\<lparr>sv_rooms := y1\<rparr>) = is_member x a d"
  "is_member x a (d\<lparr>sv_admins := y3\<rparr>) = is_member x a d"
  "is_member x a (d\<lparr>sv_invitations := y4\<rparr>) = is_member x a d"
  "is_member x a (d\<lparr>sv_hidden := y5\<rparr>) = is_member x a d"
  "is_member x a (d\<lparr>sv_keys := y6\<rparr>) = is_member x a d"
  "is_member x a (d\<lparr>sv_links := y7\<rparr>) = is_member x a d"
  "is_admin x a (d\<lparr>sv_store := y0\<rparr>) = is_admin x a d"
  "is_admin x a (d\<lparr>sv_rooms := y1\<rparr>) = is_admin x a d"
  "is_admin x a (d\<lparr>sv_members := y2\<rparr>) = is_admin x a d"
  "is_admin x a (d\<lparr>sv_invitations := y4\<rparr>) = is_admin x a d"
  "is_admin x a (d\<lparr>sv_hidden := y5\<rparr>) = is_admin x a d"
  "is_admin x a (d\<lparr>sv_keys := y6\<rparr>) = is_admin x a d"
  "is_admin x a (d\<lparr>sv_links := y7\<rparr>) = is_admin x a d"
  "has_pending_invitation x a (d\<lparr>sv_store := y0\<rparr>) = has_pending_invitation x a d"
  "has_pending_invitation x a (d\<lparr>sv_rooms := y1\<rparr>) = has_pending_invitation x a d"
  "has_pending_invitation x a (d\<lparr>sv_members := y2\<rparr>) = has_pending_invitation x a d"
  "has_pending_invitation x a (d\<lparr>sv_admins := y3\<rparr>) = has_pending_invitation x a d"
  "has_pending_invitation x a (d\<lparr>sv_hidden := y5\<rparr>) = has_pending_invitation x a d"
  "has_pending_invitation x a (d\<lparr>sv_keys := y6\<rparr>) = has_pending_invitation x a d"
  "has_pending_invitation x a (d\<lparr>sv_links := y7\<rparr>) = has_pending_invitation x a d"
  "key_exists x a v (d\<lparr>sv_store := y0\<rparr>) = key_exists x a v d"
  "key_exists x a v (d\<lparr>sv_rooms := y1\<rparr>) = key_exists x a v d"
  "key_exists x a v (d\<lparr>sv_members := y2\<rparr>) = key_exists x a v d"
  "key_exists x a v (d\<lparr>sv_admins := y3\<rparr>) = key_exists x a v d"
  "key_exists x a v (d\<lparr>sv_invitations := y4\<rparr>) = key_exists x a v d"
  "key_exists x a v (d\<lparr>sv_hidden := y5\<rparr>) = key_exists x a v d"
  "key_exists x a v (d\<lparr>sv_links := y7\<rparr>) = key_exists x a v d"
  "has_encryption x (d\<lparr>sv_store := y0\<rparr>) = has_encryption x d"
  "has_encryption x (d\<lparr>sv_rooms := y1\<rparr>) = has_encryption x d"
  "has_encryption x (d\<lparr>sv_members := y2\<rparr>) = has_encryption x d"
  "has_encryption x (d\<lparr>sv_admins := y3\<rparr>) = has_encryption x d"
  "has_encryption x (d\<lparr>sv_invitations := y4\<rparr>) = has_encryption x d"
  "has_encryption x (d\<lparr>sv_hidden := y5\<rparr>) = has_encryption x d"
  "has_encryption x (d\<lparr>sv_links := y7\<rparr>) = has_encryption x d"
  "admin_count x (d\<lparr>sv_store := y0\<rparr>) = admin_count x d"
  "admin_count x (d\<lparr>sv_rooms := y1\<rparr>) = admin_count x d"
  "admin_count x (d\<lparr>sv_members := y2\<rparr>) = admin_count x d"
  "admin_count x (d\<lparr>sv_invitations := y4\<rparr>) = admin_count x d"
  "admin_count x (d\<lparr>sv_hidden := y5\<rparr>) = admin_count x d"
  "admin_count x (d\<lparr>sv_keys := y6\<rparr>) = admin_count x d"
  "admin_count x (d\<lparr>sv_links := y7\<rparr>) = admin_count x d"
  by (simp_all add: view_defs)

lemma get_room_Some: "get_room x d = Some r \<Longrightarrow> r \<in> set (sv_rooms d) \<and> rm_id r = x"
  by (auto simp: get_room_def find_Some_iff)

lemma get_room_None: "get_room x d = None \<longleftrightarrow> \<not> room_exists x d"
  by (auto simp: get_room_def room_exists_def find_None_iff)

lemma room_exists_get: "room_exists x d \<longleftrightarrow> (\<exists>r. get_room x d = Some r)"
  using get_room_None [of x d] by auto

lemma get_room_update [views]:
  assumes "\<And>r. rm_id (f r) = rm_id r"
  shows "get_room x (update_room room f d) = (if x = room then map_option f (get_room x d) else get_room x d)"
proof -
  have "find (\<lambda>r. rm_id r = x) (map (\<lambda>r. if rm_id r = room then f r else r) rs)
      = (if x = room then map_option f (find (\<lambda>r. rm_id r = x) rs) else find (\<lambda>r. rm_id r = x) rs)" for rs
    using assms by (induction rs) auto
  then show ?thesis by (simp add: get_room_def update_room_def)
qed

lemma update_room_rest [views]:
  "is_member x a (update_room room f d) = is_member x a d"
  "is_admin x a (update_room room f d) = is_admin x a d"
  "has_pending_invitation x a (update_room room f d) = has_pending_invitation x a d"
  "key_exists x a v (update_room room f d) = key_exists x a v d"
  "has_encryption x (update_room room f d) = has_encryption x d"
  "admin_count x (update_room room f d) = admin_count x d"
  by (simp_all add: update_room_def)

lemma pending_views [views]:
  "get_room x (set_key_rotation_pending room b d) =
     (if x = room then map_option (\<lambda>r. r\<lparr>rm_pending := b\<rparr>) (get_room x d) else get_room x d)"
  "is_member x a (set_key_rotation_pending room b d) = is_member x a d"
  "is_admin x a (set_key_rotation_pending room b d) = is_admin x a d"
  "has_pending_invitation x a (set_key_rotation_pending room b d) = has_pending_invitation x a d"
  "key_exists x a v (set_key_rotation_pending room b d) = key_exists x a v d"
  "has_encryption x (set_key_rotation_pending room b d) = has_encryption x d"
  "admin_count x (set_key_rotation_pending room b d) = admin_count x d"
  by (simp_all add: set_key_rotation_pending_def views)

lemma insert_room_views [views]:
  assumes "insert_room r d = Inr d'"
  shows "get_room (rm_id r) d = None"
    "get_room x d' = (if x = rm_id r then Some r else get_room x d)"
    "is_member x a d' = is_member x a d" "is_admin x a d' = is_admin x a d"
    "has_pending_invitation x a d' = has_pending_invitation x a d"
    "key_exists x a v d' = key_exists x a v d" "admin_count x d' = admin_count x d"
proof -
  have new: "\<not> room_exists (rm_id r) d"
    and d': "d' = d\<lparr>sv_rooms := sv_rooms d @ [r],
      sv_store := (sv_store d)\<lparr>db_rooms := db_rooms (sv_store d) @ [rm_id r]\<rparr>\<rparr>"
    using assms by (auto simp: insert_room_def split: if_splits)
  show "get_room (rm_id r) d = None" using new by (simp add: get_room_None)
  have "find (\<lambda>r. rm_id r = x) (rs @ [r]) = (if x = rm_id r then Some r else find (\<lambda>r. rm_id r = x) rs)"
    if "rm_id r \<notin> rm_id ` set rs" for rs :: "room_row list"
    using that by (induction rs) auto
  then show "get_room x d' = (if x = rm_id r then Some r else get_room x d)"
    using new by (simp add: d' get_room_def room_exists_def)
qed (use assms in \<open>auto simp: insert_room_def split: if_splits\<close>)

lemma insert_serial_views [views]:
  assumes "insert_serial room n d = Inr d'"
  shows "get_room x d' = get_room x d" "is_member x a d' = is_member x a d" "is_admin x a d' = is_admin x a d"
    "has_pending_invitation x a d' = has_pending_invitation x a d"
    "key_exists x a v d' = key_exists x a v d" "admin_count x d' = admin_count x d"
  using assms by (auto simp: insert_serial_def split: if_splits)

lemma insert_member_views [views]:
  assumes "insert_member room m now d = Inr d'"
  shows "room_exists room d" "get_room x d' = get_room x d"
    "is_member x a d' \<longleftrightarrow> is_member x a d \<or> (x = room \<and> a = m)" "is_admin x a d' = is_admin x a d"
    "has_pending_invitation x a d' = has_pending_invitation x a d"
    "key_exists x a v d' = key_exists x a v d" "admin_count x d' = admin_count x d"
  using assms by (auto simp: insert_member_def is_member_def split: if_splits)

lemma insert_admin_views [views]:
  assumes "insert_admin room m now d = Inr d'"
  shows "room_exists room d" "\<not> is_admin room m d" "get_room x d' = get_room x d"
    "is_member x a d' = is_member x a d" "is_admin x a d' \<longleftrightarrow> is_admin x a d \<or> (x = room \<and> a = m)"
    "has_pending_invitation x a d' = has_pending_invitation x a d"
    "key_exists x a v d' = key_exists x a v d"
    "admin_count x d' = admin_count x d + (if x = room then 1 else 0)"
  using assms by (auto simp: insert_admin_def is_admin_def admin_count_def split: if_splits)

lemma add_member_views [views]:
  assumes "add_member room m now d = Inr d'"
  shows "get_room x d' = get_room x d"
    "is_member x a d' \<longleftrightarrow> is_member x a d \<or> (x = room \<and> a = m)" "is_admin x a d' = is_admin x a d"
    "has_pending_invitation x a d' = has_pending_invitation x a d"
    "key_exists x a v d' = key_exists x a v d" "has_encryption x d' = has_encryption x d"
    "admin_count x d' = admin_count x d"
  using assms by (auto simp: add_member_def insert_member_def is_member_def split: if_splits)

lemma remove_member_views [views]:
  "get_room x (remove_member room m d) = get_room x d"
  "is_member x a (remove_member room m d) \<longleftrightarrow> is_member x a d \<and> \<not> (x = room \<and> a = m)"
  "is_admin x a (remove_member room m d) = is_admin x a d"
  "has_pending_invitation x a (remove_member room m d) = has_pending_invitation x a d"
  "key_exists x a v (remove_member room m d) = key_exists x a v d"
  "admin_count x (remove_member room m d) = admin_count x d"
  by (auto simp: remove_member_def forget_reads_def is_member_def)

lemma remove_admin_views [views]:
  "get_room x (remove_admin room m d) = get_room x d"
  "is_member x a (remove_admin room m d) = is_member x a d"
  "is_admin x a (remove_admin room m d) \<longleftrightarrow> is_admin x a d \<and> \<not> (x = room \<and> a = m)"
  "has_pending_invitation x a (remove_admin room m d) = has_pending_invitation x a d"
  "key_exists x a v (remove_admin room m d) = key_exists x a v d"
  by (auto simp: remove_admin_def is_admin_def)

lemma delete_user_keys_views [views]:
  "get_room x (delete_user_keys room m d) = get_room x d"
  "is_member x a (delete_user_keys room m d) = is_member x a d"
  "is_admin x a (delete_user_keys room m d) = is_admin x a d"
  "has_pending_invitation x a (delete_user_keys room m d) = has_pending_invitation x a d"
  "key_exists x a v (delete_user_keys room m d) \<longleftrightarrow> key_exists x a v d \<and> \<not> (x = room \<and> a = m)"
  "admin_count x (delete_user_keys room m d) = admin_count x d"
  by (auto simp: delete_user_keys_def key_exists_def)

lemma delete_invitation_views [views]:
  "get_room x (delete_invitation room m d) = get_room x d"
  "is_member x a (delete_invitation room m d) = is_member x a d"
  "is_admin x a (delete_invitation room m d) = is_admin x a d"
  "has_pending_invitation x a (delete_invitation room m d) \<longleftrightarrow>
     has_pending_invitation x a d \<and> \<not> (x = room \<and> a = m)"
  "key_exists x a v (delete_invitation room m d) = key_exists x a v d"
  "admin_count x (delete_invitation room m d) = admin_count x d"
  by (auto simp: delete_invitation_def has_pending_invitation_def)

lemma create_invitation_views [views]:
  assumes "create_invitation room m by_whom now d = Inr d'"
  shows "get_room x d' = get_room x d" "is_member x a d' = is_member x a d" "is_admin x a d' = is_admin x a d"
    "has_pending_invitation x a d' \<longleftrightarrow> has_pending_invitation x a d \<or> (x = room \<and> a = m)"
    "key_exists x a v d' = key_exists x a v d" "admin_count x d' = admin_count x d"
  using assms by (auto simp: create_invitation_def has_pending_invitation_def split: if_splits)

lemma store_key_views [views]:
  assumes "store_key room w n now d = Inr d'"
  shows "get_room x d' = get_room x d" "is_member x a d' = is_member x a d" "is_admin x a d' = is_admin x a d"
    "has_pending_invitation x a d' = has_pending_invitation x a d"
    "key_exists x a v d' \<longleftrightarrow> key_exists x a v d \<or> (x = room \<and> a = kw_user w \<and> v = n)"
    "admin_count x d' = admin_count x d"
proof -
  show "key_exists x a v d' \<longleftrightarrow> key_exists x a v d \<or> (x = room \<and> a = kw_user w \<and> v = n)"
  proof -
    let ?row = "\<lparr>rk_room = room, rk_wrap = w, rk_version = n, rk_created_at = now\<rparr>"
    let ?here = "\<lambda>k. rk_room k = room \<and> rk_user k = kw_user w \<and> rk_version k = n"
    let ?P = "\<lambda>k. rk_room k = x \<and> rk_user k = a \<and> rk_version k = v"
    have same: "?P (if ?here k then ?row else k) \<longleftrightarrow> ?P k" for k by (auto simp: rk_user_def)
    show ?thesis
    proof (cases "\<exists>k \<in> set (sv_keys d). ?here k")
      case True
      then have keys: "sv_keys d' = map (\<lambda>k. if ?here k then ?row else k) (sv_keys d)"
        using assms by (auto simp: store_key_def Let_def)
      have "(\<exists>k \<in> set (map f ks). P k) \<longleftrightarrow> (\<exists>k \<in> set ks. P k)" if "\<And>k. P (f k) \<longleftrightarrow> P k"
        for f P and ks :: "key_row list" using that by auto
      from this [where P = ?P and f = "\<lambda>k. if ?here k then ?row else k", OF same]
      have "key_exists x a v d' \<longleftrightarrow> key_exists x a v d" unfolding key_exists_def keys .
      then show ?thesis using True by (auto simp: key_exists_def)
    next
      case False
      then have "d' = d\<lparr>sv_keys := sv_keys d @ [?row]\<rparr>"
        using assms by (auto simp: store_key_def Let_def split: if_splits)
      then show ?thesis by (auto simp: key_exists_def rk_user_def)
    qed
  qed
qed (use assms in \<open>auto simp: store_key_def Let_def split: if_splits\<close>)

lemma store_key_room:
  assumes "store_key room w n now d = Inr d'" "\<forall>a v. key_exists room a v d \<longrightarrow> room_exists room d"
  shows "room_exists room d"
  using assms by (auto simp: store_key_def Let_def key_exists_def split: if_splits)

lemma store_keys_views [views]:
  assumes "store_keys room ws n now d = Inr d'"
  shows "get_room x d' = get_room x d" "is_member x a d' = is_member x a d" "is_admin x a d' = is_admin x a d"
    "has_pending_invitation x a d' = has_pending_invitation x a d"
    "key_exists x a v d' \<longleftrightarrow> key_exists x a v d \<or> (x = room \<and> a \<in> kw_user ` set ws \<and> v = n)"
    "admin_count x d' = admin_count x d"
proof -
  have "get_room x d' = get_room x d \<and> is_member x a d' = is_member x a d \<and> is_admin x a d' = is_admin x a d
    \<and> has_pending_invitation x a d' = has_pending_invitation x a d
    \<and> (key_exists x a v d' \<longleftrightarrow> key_exists x a v d \<or> (x = room \<and> a \<in> kw_user ` set ws \<and> v = n))
    \<and> admin_count x d' = admin_count x d"
    using assms
  proof (induction ws arbitrary: d)
    case (Cons w ws)
    then obtain d1 where d1: "store_key room w n now d = Inr d1" "store_keys room ws n now d1 = Inr d'"
      by (auto simp: try_bind_Inr_iff)
    show ?case using Cons.IH [OF d1(2)] by (auto simp: store_key_views [OF d1(1)])
  qed simp
  then show "get_room x d' = get_room x d" "is_member x a d' = is_member x a d" "is_admin x a d' = is_admin x a d"
    "has_pending_invitation x a d' = has_pending_invitation x a d"
    "key_exists x a v d' \<longleftrightarrow> key_exists x a v d \<or> (x = room \<and> a \<in> kw_user ` set ws \<and> v = n)"
    "admin_count x d' = admin_count x d"
    by blast+
qed

lemma delete_room_views [views]:
  "get_room x (delete_room room d) = (if x = room then None else get_room x d)"
  "is_member x a (delete_room room d) \<longleftrightarrow> is_member x a d \<and> x \<noteq> room"
  "is_admin x a (delete_room room d) \<longleftrightarrow> is_admin x a d \<and> x \<noteq> room"
  "has_pending_invitation x a (delete_room room d) \<longleftrightarrow> has_pending_invitation x a d \<and> x \<noteq> room"
  "key_exists x a v (delete_room room d) \<longleftrightarrow> key_exists x a v d \<and> x \<noteq> room"
proof -
  have "find (\<lambda>r. rm_id r = x) [r \<leftarrow> rs. rm_id r \<noteq> room] = (if x = room then None else find (\<lambda>r. rm_id r = x) rs)"
    for rs :: "room_row list" by (induction rs) auto
  then show "get_room x (delete_room room d) = (if x = room then None else get_room x d)"
    by (simp add: delete_room_def get_room_def Let_def)
qed (auto simp: delete_room_def Let_def is_member_def is_admin_def has_pending_invitation_def key_exists_def)

lemma has_encryption_keys: "has_encryption x d \<longleftrightarrow> (\<exists>a v. key_exists x a v d)"
  by (auto simp: has_encryption_def key_exists_def)

lemma create_room_views:
  assumes "create_room room name description creator now d = Inr (row, d')"
  shows "get_room room d = None" "rm_kind row = ROOM_KIND_CHANNEL" "rm_id row = room" "rm_dm_key row = None"
    "get_room x d' = (if x = room then Some row else get_room x d)"
    "is_member x a d' \<longleftrightarrow> is_member x a d \<or> (x = room \<and> a = creator)"
    "is_admin x a d' \<longleftrightarrow> is_admin x a d \<or> (x = room \<and> a = creator)"
    "has_pending_invitation x a d' = has_pending_invitation x a d"
    "key_exists x a v d' = key_exists x a v d"
    "admin_count x d' = admin_count x d + (if x = room then 1 else 0)"
proof -
  let ?row = "\<lparr>rm_id = room, rm_name = name, rm_description = description, rm_key_version = 1,
      rm_pending = False, rm_kind = ROOM_KIND_CHANNEL, rm_dm_key = None, rm_created_at = now\<rparr>"
  obtain d1 d2 d3 where s: "insert_room ?row d = Inr d1" "insert_admin room creator now d1 = Inr d2"
    "insert_member room creator now d2 = Inr d3" "insert_serial room now d3 = Inr d'" "row = ?row"
    using assms by (auto simp: create_room_def Let_def try_bind_Inr_iff)
  note v = insert_room_views [OF s(1)] insert_admin_views [OF s(2)] insert_member_views [OF s(3)]
    insert_serial_views [OF s(4)]
  show "get_room room d = None" using v(1) by simp
  show "rm_kind row = ROOM_KIND_CHANNEL" "rm_id row = room" "rm_dm_key row = None" by (simp_all add: s(5))
  show "get_room x d' = (if x = room then Some row else get_room x d)"
    "is_member x a d' \<longleftrightarrow> is_member x a d \<or> (x = room \<and> a = creator)"
    "is_admin x a d' \<longleftrightarrow> is_admin x a d \<or> (x = room \<and> a = creator)"
    "has_pending_invitation x a d' = has_pending_invitation x a d"
    "key_exists x a v d' = key_exists x a v d"
    "admin_count x d' = admin_count x d + (if x = room then 1 else 0)"
    by (simp_all add: v s(5))
qed

lemma seat_all_views:
  assumes "seat_all room ms now d = Inr d'"
  shows "get_room x d' = get_room x d \<and> (is_member x a d' \<longleftrightarrow> is_member x a d \<or> (x = room \<and> a \<in> set ms))
    \<and> (is_admin x a d' \<longleftrightarrow> is_admin x a d \<or> (x = room \<and> a \<in> set ms))
    \<and> has_pending_invitation x a d' = has_pending_invitation x a d
    \<and> key_exists x a v d' = key_exists x a v d
    \<and> admin_count x d' = admin_count x d + (if x = room then length ms else 0)
    \<and> sv_rooms d' = sv_rooms d"
  using assms
proof (induction ms arbitrary: d)
  case (Cons m ms)
  obtain d1 d2 where s: "insert_member room m now d = Inr d1" "insert_admin room m now d1 = Inr d2"
    "seat_all room ms now d2 = Inr d'" using Cons.prems by (auto simp: try_bind_Inr_iff)
  have "sv_rooms d2 = sv_rooms d"
    using s(1,2) by (auto simp: insert_member_def insert_admin_def split: if_splits)
  then show ?case using Cons.IH [OF s(3)]
    by (auto simp: insert_member_views [OF s(1)] insert_admin_views [OF s(2)])
qed simp

lemma create_dm_new:
  assumes "create_dm room members now d = Inr (row, d')" "find_dm (dm_key members) d = None"
  shows "get_room room d = None" "is_direct row" "rm_id row = room" "rm_dm_key row = Some (dm_key members)"
    "get_room x d' = (if x = room then Some row else get_room x d)"
    "is_member x a d' \<longleftrightarrow> is_member x a d \<or> (x = room \<and> a \<in> set (dedup_sorted members))"
    "is_admin x a d' \<longleftrightarrow> is_admin x a d \<or> (x = room \<and> a \<in> set (dedup_sorted members))"
    "has_pending_invitation x a d' = has_pending_invitation x a d"
    "key_exists x a v d' = key_exists x a v d"
    "admin_count x d' = admin_count x d + (if x = room then length (dedup_sorted members) else 0)"
    "sv_rooms d' = sv_rooms d @ [row]"
proof -
  obtain d1 d2 where s: "insert_room row d = Inr d1" "seat_all room (dedup_sorted members) now d1 = Inr d2"
      "insert_serial room now d2 = Inr d'"
    and row: "is_direct row" "rm_id row = room" "rm_dm_key row = Some (dm_key members)"
    using assms by (auto simp: create_dm_def Let_def try_bind_Inr_iff is_direct_def split: if_splits)
  note v = insert_room_views [OF s(1)] seat_all_views [OF s(2)] insert_serial_views [OF s(3)]
  show "get_room room d = None" using v(1) row by simp
  show "is_direct row" "rm_id row = room" "rm_dm_key row = Some (dm_key members)" by fact+
  show "get_room x d' = (if x = room then Some row else get_room x d)"
    "is_member x a d' \<longleftrightarrow> is_member x a d \<or> (x = room \<and> a \<in> set (dedup_sorted members))"
    "is_admin x a d' \<longleftrightarrow> is_admin x a d \<or> (x = room \<and> a \<in> set (dedup_sorted members))"
    "has_pending_invitation x a d' = has_pending_invitation x a d"
    "key_exists x a v d' = key_exists x a v d"
    "admin_count x d' = admin_count x d + (if x = room then length (dedup_sorted members) else 0)"
    by (simp_all add: v row)
  show "sv_rooms d' = sv_rooms d @ [row]"
    using s(1,3) v by (auto simp: insert_room_def insert_serial_def split: if_splits)
qed

lemma create_dm_found:
  assumes "find_dm (dm_key members) d = Some r"
  shows "create_dm room members now d = Inr (r, d)"
  using assms by (simp add: create_dm_def)

section \<open>Provisioning\<close>

lemma set_dedup_seen:
  "set (dedup_seen seen ms) \<subseteq> set ms
    \<and> to_ascii_lowercase ` set (dedup_seen seen ms) \<union> set seen = to_ascii_lowercase ` set ms \<union> set seen"
proof (induction seen ms rule: dedup_seen.induct)
  case (2 seen m ms)
  show ?case
  proof (cases "to_ascii_lowercase m \<in> set seen")
    case True
    then show ?thesis using "2.IH"(1) by auto
  next
    case False
    then show ?thesis using "2.IH"(2) by (simp add: insert_commute) blast
  qed
qed simp

lemma dedup_seen_distinct:
  "distinct (map to_ascii_lowercase (dedup_seen seen ms))
    \<and> set seen \<inter> to_ascii_lowercase ` set (dedup_seen seen ms) = {}"
proof (induction seen ms rule: dedup_seen.induct)
  case (2 seen m ms)
  show ?case
  proof (cases "to_ascii_lowercase m \<in> set seen")
    case True
    then show ?thesis using "2.IH"(1) by simp
  next
    case False
    then show ?thesis using "2.IH"(2) by (auto simp: Int_insert_left split: if_splits)
  qed
qed simp

lemma dedup_sorted_distinct: "distinct (dedup_sorted ms)"
  using dedup_seen_distinct [of "[]" ms] by (simp add: dedup_sorted_def distinct_map)

lemma owner_in_roster: "to_ascii_lowercase owner \<in> set (static_roster kind owner agent admins)"
  by (simp add: static_roster_def dedup_sorted_def set_insort_key)

lemma provision_room_views:
  assumes "provision_room kind owner agent admins now d = (moved, d')"
  defines "room \<equiv> static_room_id kind owner" and "roster \<equiv> static_roster kind owner agent admins"
  shows "x \<noteq> room \<Longrightarrow> get_room x d' = get_room x d"
    "is_member x a d' \<longleftrightarrow> (if x = room then a \<in> set roster else is_member x a d)"
    "is_admin x a d' \<longleftrightarrow> is_admin x a d \<or> (x = room \<and> a = to_ascii_lowercase owner)"
    "has_pending_invitation x a d' = has_pending_invitation x a d"
    "key_exists x a v d' = key_exists x a v d"
    "admin_count x d' = admin_count x d
       + (if x = room \<and> \<not> is_admin room (to_ascii_lowercase owner) d then 1 else 0)"
    "\<exists>r'. get_room room d' = Some r'
       \<and> (case get_room room d of
            Some r \<Rightarrow> rm_key_version r' = rm_key_version r \<and> rm_kind r' = rm_kind r
              \<and> (rm_pending r \<longrightarrow> rm_pending r')
              \<and> ((\<exists>a. is_member room a d \<and> a \<notin> set roster) \<and> has_encryption room d \<longrightarrow> rm_pending r')
          | None \<Rightarrow> rm_kind r' = kind)"
proof -
  define row where "row = \<lparr>rm_id = room, rm_name = static_room_name kind, rm_description = None,
      rm_key_version = 1, rm_pending = False, rm_kind = kind, rm_dm_key = None, rm_created_at = now\<rparr>"
  define d1 where "d1 = (if room_exists room d then d else d\<lparr>sv_rooms := sv_rooms d @ [row],
      sv_store := (sv_store d)\<lparr>db_rooms := db_rooms (sv_store d) @ [room]\<rparr>\<rparr>)"
  define d2 where "d2 = (if db_serials (sv_store d1) room \<noteq> None then d1 else
      d1\<lparr>sv_store := (sv_store d1)\<lparr>db_serials := (db_serials (sv_store d1))(room \<mapsto> now)\<rparr>\<rparr>)"
  define d3 where "d3 = (if is_admin room (to_ascii_lowercase owner) d2 then d2 else
      d2\<lparr>sv_admins := sv_admins d2 @ [\<lparr>ad_room = room, ad_user = to_ascii_lowercase owner,
        ad_created_at = now\<rparr>]\<rparr>)"
  define seated where "seated = [m \<leftarrow> roster. \<not> is_member room m d3]"
  define d4 where "d4 = d3\<lparr>sv_members := sv_members d3
      @ map (\<lambda>m. \<lparr>mb_room = room, mb_user = m, mb_joined_at = now\<rparr>) seated\<rparr>"
  define removed where "removed = [mb_user m. m \<leftarrow> sv_members d4, mb_room m = room, mb_user m \<notin> set roster]"
  define d5 where "d5 = (forget_reads (\<lambda>k. fst k = room \<and> snd k \<notin> set roster) d4)
      \<lparr>sv_members := [m \<leftarrow> sv_members d4. \<not> (mb_room m = room \<and> mb_user m \<notin> set roster)],
       sv_hidden := [h \<leftarrow> sv_hidden d4. \<not> (hd_room h = room \<and> hd_user h \<notin> set roster)]\<rparr>"
  have d': "d' = (if (seated \<noteq> [] \<or> removed \<noteq> []) \<and> has_encryption room d5
      then set_key_rotation_pending room True d5 else d5)"
    using assms(1) unfolding provision_room_def Let_def room_def [symmetric] roster_def [symmetric]
      row_def [symmetric] d1_def [symmetric] d2_def [symmetric] d3_def [symmetric] seated_def [symmetric]
      d4_def [symmetric] removed_def [symmetric] d5_def [symmetric] by simp
  have g1: "get_room x d1 = (if x = room \<and> get_room room d = None then Some row else get_room x d)" for x
  proof (cases "room_exists room d")
    case True
    then show ?thesis by (auto simp: d1_def get_room_None)
  next
    case False
    then have "insert_room row d = Inr d1" by (simp add: insert_room_def d1_def row_def)
    from insert_room_views(2) [OF this, of x] False show ?thesis by (simp add: get_room_None row_def)
  qed
  have f2: "sv_members d2 = sv_members d" "sv_admins d2 = sv_admins d"
    "sv_invitations d2 = sv_invitations d" "sv_keys d2 = sv_keys d" "sv_rooms d2 = sv_rooms d1"
    by (simp_all add: d2_def d1_def)
  then have f3: "sv_members d3 = sv_members d" "sv_invitations d3 = sv_invitations d"
    "sv_keys d3 = sv_keys d" "sv_rooms d3 = sv_rooms d1" by (simp_all add: d3_def)
  have v3: "get_room x d3 = get_room x d1" "is_member x a d3 = is_member x a d"
    "has_pending_invitation x a d3 = has_pending_invitation x a d" "key_exists x a v d3 = key_exists x a v d"
    "has_encryption x d3 = has_encryption x d" for x a v
    by (simp_all add: view_defs f3)
  have adm2: "is_admin x a d2 = is_admin x a d" "admin_count x d2 = admin_count x d" for x a
    by (simp_all add: view_defs f2)
  have adm3: "is_admin x a d3 \<longleftrightarrow> is_admin x a d \<or> (x = room \<and> a = to_ascii_lowercase owner)"
    "admin_count x d3 = admin_count x d
       + (if x = room \<and> \<not> is_admin room (to_ascii_lowercase owner) d then 1 else 0)" for x a
  proof -
    let ?new = "\<lparr>ad_room = room, ad_user = to_ascii_lowercase owner, ad_created_at = now\<rparr>"
    have "is_admin x a (d2\<lparr>sv_admins := sv_admins d2 @ [?new]\<rparr>)
        \<longleftrightarrow> is_admin x a d2 \<or> (x = room \<and> a = to_ascii_lowercase owner)"
      and "admin_count x (d2\<lparr>sv_admins := sv_admins d2 @ [?new]\<rparr>) = admin_count x d2 + (if x = room then 1 else 0)"
      by (auto simp: is_admin_def admin_count_def)
    then show "is_admin x a d3 \<longleftrightarrow> is_admin x a d \<or> (x = room \<and> a = to_ascii_lowercase owner)"
      "admin_count x d3 = admin_count x d
         + (if x = room \<and> \<not> is_admin room (to_ascii_lowercase owner) d then 1 else 0)"
      using adm2 by (auto simp: d3_def)
  qed
  have mem4: "is_member x a d4 \<longleftrightarrow> is_member x a d \<or> (x = room \<and> a \<in> set roster)" for x a
  proof -
    have "is_member x a d4 \<longleftrightarrow> is_member x a d3 \<or> (x = room \<and> a \<in> set seated)"
      by (auto simp: d4_def is_member_def bex_Un)
    then show ?thesis by (auto simp: seated_def v3)
  qed
  have v5: "get_room x d5 = get_room x d1" "is_admin x a d5 = is_admin x a d3"
    "has_pending_invitation x a d5 = has_pending_invitation x a d" "key_exists x a v d5 = key_exists x a v d"
    "has_encryption x d5 = has_encryption x d" "admin_count x d5 = admin_count x d3"
    "is_member x a d5 \<longleftrightarrow> (if x = room then a \<in> set roster else is_member x a d)" for x a v
    using mem4 [of x a] by (auto simp: d5_def forget_reads_def d4_def v3 is_member_def)
  show "x \<noteq> room \<Longrightarrow> get_room x d' = get_room x d" by (simp add: d' views v5 g1)
  show "is_member x a d' \<longleftrightarrow> (if x = room then a \<in> set roster else is_member x a d)"
    "is_admin x a d' \<longleftrightarrow> is_admin x a d \<or> (x = room \<and> a = to_ascii_lowercase owner)"
    "has_pending_invitation x a d' = has_pending_invitation x a d"
    "key_exists x a v d' = key_exists x a v d"
    "admin_count x d' = admin_count x d
       + (if x = room \<and> \<not> is_admin room (to_ascii_lowercase owner) d then 1 else 0)"
    by (simp_all add: d' views v5 v3 adm3)
  have "removed \<noteq> []" if "is_member room a d" "a \<notin> set roster" for a
    using mem4 [of room a] that by (auto simp: removed_def is_member_def)
  then show "\<exists>r'. get_room room d' = Some r'
       \<and> (case get_room room d of
            Some r \<Rightarrow> rm_key_version r' = rm_key_version r \<and> rm_kind r' = rm_kind r
              \<and> (rm_pending r \<longrightarrow> rm_pending r')
              \<and> ((\<exists>a. is_member room a d \<and> a \<notin> set roster) \<and> has_encryption room d \<longrightarrow> rm_pending r')
          | None \<Rightarrow> rm_kind r' = kind)"
    by (cases "get_room room d") (auto simp: d' views v5 g1 row_def)
qed

lemma upsert_user_views [views]:
  "get_room x (snd (upsert_user u n pk sig now d)) = get_room x d"
  "is_member x a (snd (upsert_user u n pk sig now d)) = is_member x a d"
  "is_admin x a (snd (upsert_user u n pk sig now d)) = is_admin x a d"
  "has_pending_invitation x a (snd (upsert_user u n pk sig now d)) = has_pending_invitation x a d"
  "key_exists x a v (snd (upsert_user u n pk sig now d)) = key_exists x a v d"
  "admin_count x (snd (upsert_user u n pk sig now d)) = admin_count x d"
  by (simp_all add: upsert_user_def Let_def)

section \<open>Links and eviction\<close>

lemma link_views [views]:
  "get_room x (snd (consume h now d)) = get_room x d"
  "is_member x a (snd (consume h now d)) = is_member x a d"
  "is_admin x a (snd (consume h now d)) = is_admin x a d"
  "has_pending_invitation x a (snd (consume h now d)) = has_pending_invitation x a d"
  "key_exists x a v (snd (consume h now d)) = key_exists x a v d"
  "has_encryption x (snd (consume h now d)) = has_encryption x d"
  "admin_count x (snd (consume h now d)) = admin_count x d"
  by (simp_all add: consume_def Let_def)

lemma fold_pending_views:
  "get_room x (fold (\<lambda>r. set_key_rotation_pending r True) rs d) =
     (if x \<in> set rs then map_option (\<lambda>r. r\<lparr>rm_pending := True\<rparr>) (get_room x d) else get_room x d)"
  "is_member x a (fold (\<lambda>r. set_key_rotation_pending r True) rs d) = is_member x a d"
  "is_admin x a (fold (\<lambda>r. set_key_rotation_pending r True) rs d) = is_admin x a d"
  "has_pending_invitation x a (fold (\<lambda>r. set_key_rotation_pending r True) rs d) = has_pending_invitation x a d"
  "key_exists x a v (fold (\<lambda>r. set_key_rotation_pending r True) rs d) = key_exists x a v d"
  "admin_count x (fold (\<lambda>r. set_key_rotation_pending r True) rs d) = admin_count x d"
  by (induction rs arbitrary: d) (auto simp: views option.map_comp o_def)

lemma evict_views:
  assumes "evict_from_all_rooms m d = (touched, d')"
  shows "get_room x d' = (if is_member x m d then map_option (\<lambda>r. r\<lparr>rm_pending := True\<rparr>) (get_room x d)
      else get_room x d)"
    "is_member x a d' \<longleftrightarrow> is_member x a d \<and> a \<noteq> m"
    "is_admin x a d' \<longleftrightarrow> is_admin x a d \<and> a \<noteq> m"
    "has_pending_invitation x a d' \<longleftrightarrow> has_pending_invitation x a d \<and> a \<noteq> m"
    "key_exists x a v d' \<longleftrightarrow> key_exists x a v d \<and> a \<noteq> m"
    "admin_count x d' \<le> admin_count x d"
    "sv_admins d' = [r \<leftarrow> sv_admins d. ad_user r \<noteq> m]"
proof -
  define d1 where "d1 = (forget_reads (\<lambda>k. snd k = m) d)
      \<lparr>sv_keys := [k \<leftarrow> sv_keys d. rk_user k \<noteq> m], sv_members := [r \<leftarrow> sv_members d. mb_user r \<noteq> m],
       sv_admins := [r \<leftarrow> sv_admins d. ad_user r \<noteq> m],
       sv_invitations := [v \<leftarrow> sv_invitations d. vi_invited v \<noteq> m],
       sv_hidden := [h \<leftarrow> sv_hidden d. hd_user h \<noteq> m]\<rparr>"
  obtain store where d': "d' = fold (\<lambda>r. set_key_rotation_pending r True)
      (map mb_room [r \<leftarrow> sv_members d. mb_user r = m]) (d1\<lparr>sv_store := store\<rparr>)"
    using assms by (auto simp: evict_from_all_rooms_def Let_def d1_def)
  have here: "x \<in> set (map mb_room [r \<leftarrow> sv_members d. mb_user r = m]) \<longleftrightarrow> is_member x m d"
    by (auto simp: is_member_def)
  show "get_room x d' = (if is_member x m d then map_option (\<lambda>r. r\<lparr>rm_pending := True\<rparr>) (get_room x d)
      else get_room x d)"
    unfolding d' fold_pending_views here by (simp add: d1_def forget_reads_def)
  show "is_member x a d' \<longleftrightarrow> is_member x a d \<and> a \<noteq> m" "is_admin x a d' \<longleftrightarrow> is_admin x a d \<and> a \<noteq> m"
    "has_pending_invitation x a d' \<longleftrightarrow> has_pending_invitation x a d \<and> a \<noteq> m"
    "key_exists x a v d' \<longleftrightarrow> key_exists x a v d \<and> a \<noteq> m"
    unfolding d' fold_pending_views by (auto simp: d1_def view_defs)
  have "sv_admins (fold (\<lambda>r. set_key_rotation_pending r True) rs d2) = sv_admins d2" for rs d2
    by (induction rs arbitrary: d2) (simp_all add: set_key_rotation_pending_def update_room_def)
  then show adm: "sv_admins d' = [r \<leftarrow> sv_admins d. ad_user r \<noteq> m]" by (simp add: d' d1_def)
  have "length (filter P (filter Q rs)) \<le> length (filter P rs)" for P Q and rs :: "admin_row list"
    by (induction rs) auto
  then show "admin_count x d' \<le> admin_count x d" by (simp only: admin_count_def adm)
qed

section \<open>Steps of the room routes\<close>

text \<open>The ids of rooms that the routes create: \<^verbatim>\<open>format!("room_{}_{}", now_ms(), Uuid::new_v4())\<close>.\<close>

definition generated_id :: "string \<Rightarrow> bool" where
  "generated_id i \<longleftrightarrow> (\<exists>ms uuid. i = ''room_'' @ decimal ms @ ''_'' @ uuid)"

text \<open>Beside the state a ghost set records who has ever learned a room key through the server: a triple
(room, version, address) for a member that read a wrap of the room's current epoch, stored one for it or
installed it by a rotation.  A wrap of an epoch that has not begun seals no key of that epoch.\<close>

type_synonym learned = "(string \<times> int \<times> string) set"

definition current_version :: "string \<Rightarrow> server_db \<Rightarrow> int option" where
  "current_version room d = map_option rm_key_version (get_room room d)"

inductive room_step :: "string list \<Rightarrow> server_db \<times> learned \<Rightarrow> server_db \<times> learned \<Rightarrow> bool" for ops where
  rt_create: "create_route caller room name description now d = Inr (row, d') \<Longrightarrow> generated_id room \<Longrightarrow>
    \<forall>v a. (room, v, a) \<notin> K \<Longrightarrow> room_step ops (d, K) (d', K)"
| rt_dm: "open_dm caller room others now d = Inr (row, d') \<Longrightarrow> generated_id room \<Longrightarrow>
    \<forall>v a. (room, v, a) \<notin> K \<Longrightarrow> \<forall>a \<in> set (caller # others). a \<noteq> [] \<and> CHR ''|'' \<notin> set a \<Longrightarrow>
    room_step ops (d, K) (d', K)"
| rt_list: "list_route sha256 enc ops caller clk d = (rooms, d') \<Longrightarrow> room_step ops (d, K) (d', K)"
| rt_rename: "rename_route ops caller room name d = Inr (row, d') \<Longrightarrow> room_step ops (d, K) (d', K)"
| rt_delete: "delete_route ops caller room d = Inr (told, d') \<Longrightarrow> room_step ops (d, K) (d', K)"
| rt_leave: "leave_route caller room d = Inr (u, d') \<Longrightarrow> room_step ops (d, K) (d', K)"
| rt_kick: "kick_route ops caller room target d = Inr (u, d') \<Longrightarrow> room_step ops (d, K) (d', K)"
| rt_add_admin: "add_admin_route ops caller room target now d = Inr (u, d') \<Longrightarrow> room_step ops (d, K) (d', K)"
| rt_remove_admin: "remove_admin_route ops caller room target d = Inr (u, d') \<Longrightarrow>
    room_step ops (d, K) (d', K)"
| rt_hide: "hide_route caller room now d = Inr (h, d') \<Longrightarrow> room_step ops (d, K) (d', K)"
| rt_unhide: "unhide_route caller room d = Inr (u, d') \<Longrightarrow> room_step ops (d, K) (d', K)"
| rt_store: "store_route caller room wrap version now d = Inr (u, d') \<Longrightarrow>
    K' = K \<union> (if is_member room caller d \<and> current_version room d = Some version
              then {(room, version, caller)} else {}) \<Longrightarrow> room_step ops (d, K) (d', K')"
| rt_read: "versions_route caller room d = Inr ks \<Longrightarrow>
    K' = K \<union> {(room, v, caller) | v. v \<in> rk_version ` set ks \<and> current_version room d = Some v} \<Longrightarrow>
    room_step ops (d, K) (d, K')"
| rt_rotate: "rotate_route caller room version wraps now d = Inr (u, d') \<Longrightarrow>
    K' = K \<union> {(room, version, caller)} \<Longrightarrow> room_step ops (d, K) (d', K')"
| rt_send: "send_route iso_ms clk new d = Inr (m, d') \<Longrightarrow> room_step ops (d, K) (d', K)"
| rt_invite: "invite_route caller room invitee now d = Inr (u, d') \<Longrightarrow> room_step ops (d, K) (d', K)"
| rt_accept: "accept_route caller room now d = (res, d') \<Longrightarrow> room_step ops (d, K) (d', K)"
| rt_decline: "decline_route caller room d = Inr (u, d') \<Longrightarrow> room_step ops (d, K) (d', K)"
| rt_link: "create_link_route ops caller room lid hash hours uses clk d = Inr (l, d') \<Longrightarrow>
    room_step ops (d, K) (d', K)"
| rt_revoke: "revoke_link_route ops caller room lid now d = Inr (u, d') \<Longrightarrow> room_step ops (d, K) (d', K)"
| rt_redeem: "redeem_route token_hash caller token clk d = (res, d') \<Longrightarrow> room_step ops (d, K) (d', K)"
| rt_evict: "evict_route ops caller target d = Inr (touched, d') \<Longrightarrow> room_step ops (d, K) (d', K)"
| rt_block: "room_step ops (d, K) (d\<lparr>sv_store := (sv_store d)\<lparr>db_blocked := blocked\<rparr>\<rparr>, K)"
| rt_store_step: "store_step v (sv_store d) store \<Longrightarrow> room_step ops (d, K) (d\<lparr>sv_store := store\<rparr>, K)"

definition empty_server :: server_db where
  "empty_server = \<lparr>sv_store = \<lparr>db_rooms = [], db_users = \<lambda>_. None, db_messages = [],
      db_serials = \<lambda>_. None, db_mentions = [], db_media = [], db_docs = [], db_blocked = [],
      db_reads = \<lambda>_. None\<rparr>, sv_rooms = [], sv_members = [], sv_admins = [], sv_invitations = [],
    sv_hidden = [], sv_keys = [], sv_links = []\<rparr>"

text \<open>A server starts with some registered users and block lists and no room.\<close>

inductive room_reach :: "string list \<Rightarrow> server_db \<times> learned \<Rightarrow> bool" for ops where
  rr_start: "room_reach ops (empty_server\<lparr>sv_store := (sv_store empty_server)\<lparr>db_users := users,
     db_blocked := blocked\<rparr>\<rparr>, {})"
| rr_step: "room_reach ops s \<Longrightarrow> room_step ops s s' \<Longrightarrow> room_reach ops s'"

section \<open>Names of rooms\<close>

lemma static_id_inj:
  assumes "static_room_id k o1 = static_room_id k' o2" "k \<in> set STATIC_ROOM_KINDS" "k' \<in> set STATIC_ROOM_KINDS"
  shows "k = k' \<and> to_ascii_lowercase o1 = to_ascii_lowercase o2"
  using assms by (auto simp: static_room_id_def STATIC_ROOM_KINDS_def room_kind_defs)

lemma generated_not_static:
  assumes "generated_id x" "k \<in> set STATIC_ROOM_KINDS" shows "x \<noteq> static_room_id k owner"
proof
  assume eq: "x = static_room_id k owner"
  obtain ms uuid where x: "x = ''room_'' @ decimal ms @ ''_'' @ uuid"
    using assms(1) by (auto simp: generated_id_def)
  have "decimal ms \<noteq> []" by (simp add: decimal_def)
  then obtain c cs where "decimal ms = c # cs" "is_ascii_digit c"
    using decimal_digits [of ms] by (cases "decimal ms") auto
  then show False using eq assms(2)
    by (auto simp: x static_room_id_def STATIC_ROOM_KINDS_def room_kind_defs char_class_codes)
qed

end
