(* ===== verification/Room_Safety.thy ===== *)
theory Room_Safety imports Room_Spec begin

text \<open>The invariant of the room routes and its preservation by every step.  What holds of a room is a
relation between its row, its members, admins, invitees and wraps, and the epochs of its keys that someone
has learned; a step that touches one room keeps it for the others by its views.\<close>

section \<open>The invariant\<close>

definition static_named :: "string \<Rightarrow> bool" where
  "static_named x \<longleftrightarrow> (\<exists>k owner. k \<in> set STATIC_ROOM_KINDS \<and> x = static_room_id k owner)"

text \<open>A room with the name of a built-in one is of that kind, and its owner is its only admin.\<close>

definition owned :: "string \<Rightarrow> string \<Rightarrow> string set \<Rightarrow> bool" where
  "owned x kind A \<longleftrightarrow> (\<forall>k owner. k \<in> set STATIC_ROOM_KINDS \<and> x = static_room_id k owner \<longrightarrow>
     kind = k \<and> A \<subseteq> {to_ascii_lowercase owner})"

text \<open>Members M, admins A, invitees I, wraps E as (address, version) and learned keys L as (version,
address) of the room x whose row is given.\<close>

definition room_good ::
  "string \<Rightarrow> room_row option \<Rightarrow> string set \<Rightarrow> string set \<Rightarrow> string set \<Rightarrow> (string \<times> int) set
     \<Rightarrow> (int \<times> string) set \<Rightarrow> bool" where
  "room_good x row M A I E L \<longleftrightarrow> A \<subseteq> M \<and> finite A \<and> card A \<le> MAX_ADMINS \<and>
     (case row of
        None \<Rightarrow> M = {} \<and> I = {} \<and> E = {} \<and> (static_named x \<longrightarrow> L = {})
      | Some r \<Rightarrow>
          (if is_static r then I = {} else \<forall>a v. (a, v) \<in> E \<longrightarrow> a \<in> M \<or> a \<in> I)
          \<and> owned x (rm_kind r) A
          \<and> (\<forall>v a. (v, a) \<in> L \<longrightarrow> v \<le> rm_key_version r)
          \<and> (\<not> rm_pending r \<longrightarrow> (\<forall>a. (rm_key_version r, a) \<in> L \<longrightarrow>
                a \<in> M \<and> (is_static r \<longrightarrow> (\<exists>b v. (b, v) \<in> E \<and> b \<in> M)))))"

definition good_at :: "string \<Rightarrow> server_db \<Rightarrow> learned \<Rightarrow> bool" where
  "good_at x d K \<longleftrightarrow> room_good x (get_room x d) {a. is_member x a d} {a. is_admin x a d}
     {a. has_pending_invitation x a d} {(a, v). key_exists x a v d} {(v, a). (x, v, a) \<in> K}"

definition room_inv :: "server_db \<Rightarrow> learned \<Rightarrow> bool" where
  "room_inv d K \<longleftrightarrow> (\<forall>x. good_at x d K)"

lemma good_atI:
  assumes "room_good x r M A I E L" "get_room x d = r" "\<And>a. is_member x a d \<longleftrightarrow> a \<in> M"
    "\<And>a. is_admin x a d \<longleftrightarrow> a \<in> A" "\<And>a. has_pending_invitation x a d \<longleftrightarrow> a \<in> I"
    "\<And>a v. key_exists x a v d \<longleftrightarrow> (a, v) \<in> E" "\<And>v a. (x, v, a) \<in> K \<longleftrightarrow> (v, a) \<in> L"
  shows "good_at x d K"
  using assms by (simp add: good_at_def)

lemma room_invD: "room_inv d K \<Longrightarrow> good_at x d K"
  by (simp add: room_inv_def)

lemma static_named_kind: "k \<in> set STATIC_ROOM_KINDS \<Longrightarrow> static_named (static_room_id k owner)"
  by (auto simp: static_named_def)

lemma generated_not_named: "generated_id x \<Longrightarrow> \<not> static_named x"
  using generated_not_static by (auto simp: static_named_def)

lemma named_static: "room_good x (Some r) M A I E L \<Longrightarrow> static_named x \<Longrightarrow> is_static r"
  by (auto simp: room_good_def static_named_def is_static_def owned_def)

lemma owned_mono: "owned x k A \<Longrightarrow> A' \<subseteq> A \<Longrightarrow> owned x k A'"
  unfolding owned_def by blast

lemma owned_unnamed: "\<not> static_named x \<Longrightarrow> owned x k A"
  by (auto simp: owned_def static_named_def)

lemma is_static_update [simp]:
  "is_static (r\<lparr>rm_pending := b\<rparr>) = is_static r" "is_static (r\<lparr>rm_key_version := v\<rparr>) = is_static r"
  by (simp_all add: is_static_def)

text \<open>The rows of a room before and after a step that leaves its epoch alone.\<close>

definition same_epoch :: "room_row option \<Rightarrow> room_row option \<Rightarrow> bool" where
  "same_epoch r r' \<longleftrightarrow> map_option (\<lambda>r. (rm_key_version r, rm_pending r, rm_kind r)) r
     = map_option (\<lambda>r. (rm_key_version r, rm_pending r, rm_kind r)) r'"

lemma same_epoch_refl [simp]: "same_epoch r r"
  by (simp add: same_epoch_def)

lemma room_good_same: "room_good x r M A I E L \<Longrightarrow> same_epoch r r' \<Longrightarrow> room_good x r' M A I E L"
  by (cases r; cases r') (auto simp: room_good_def same_epoch_def is_static_def)

definition same_views :: "string \<Rightarrow> server_db \<Rightarrow> server_db \<Rightarrow> bool" where
  "same_views x d d' \<longleftrightarrow> same_epoch (get_room x d) (get_room x d')
     \<and> (\<forall>a. is_member x a d' = is_member x a d) \<and> (\<forall>a. is_admin x a d' = is_admin x a d)
     \<and> (\<forall>a. has_pending_invitation x a d' = has_pending_invitation x a d)
     \<and> (\<forall>a v. key_exists x a v d' = key_exists x a v d)"

lemma good_at_same:
  assumes "good_at x d K" "same_views x d d'" "\<And>v a. (x, v, a) \<in> K' \<longleftrightarrow> (x, v, a) \<in> K"
  shows "good_at x d' K'"
  using room_good_same assms by (simp add: good_at_def same_views_def)

lemma room_inv_same: "room_inv d K \<Longrightarrow> (\<And>x. same_views x d d') \<Longrightarrow> room_inv d' K"
  unfolding room_inv_def by (blast intro: good_at_same)

lemma room_inv_at:
  assumes "room_inv d K" "\<And>x. x \<noteq> room \<Longrightarrow> same_views x d d'"
    "\<And>x v a. x \<noteq> room \<Longrightarrow> (x, v, a) \<in> K' \<longleftrightarrow> (x, v, a) \<in> K" "good_at room d' K'"
  shows "room_inv d' K'"
  unfolding room_inv_def
proof
  fix x show "good_at x d' K'"
  proof (cases "x = room")
    case False
    show ?thesis by (rule good_at_same [OF room_invD [OF assms(1)] assms(2) [OF False] assms(3) [OF False]])
  qed (simp add: assms(4))
qed

section \<open>Steps that move nothing\<close>

lemma same_views_store: "same_views x d (d\<lparr>sv_store := y\<rparr>)"
  "same_views x d (d\<lparr>sv_hidden := h\<rparr>)" "same_views x d (d\<lparr>sv_links := l\<rparr>)" "same_views x d d"
  by (simp_all add: same_views_def)

lemma same_views_list:
  "same_views x d d'" if "sv_rooms d' = sv_rooms d" "sv_members d' = sv_members d" "sv_admins d' = sv_admins d"
    "sv_invitations d' = sv_invitations d" "sv_keys d' = sv_keys d"
  using that by (simp add: same_views_def view_defs)

lemma rename_same:
  assumes "rename_route ops caller room name d = Inr (row, d')" shows "same_views x d d'"
proof -
  have d': "d' = update_room room (\<lambda>r. r\<lparr>rm_name := name\<rparr>) d"
    using assms by (auto simp: rename_route_def require_room_exists_def require_admin_def require_channel_def
      fetch_room_def update_room_name_def Let_def split: option.splits prod.splits if_splits)
  show ?thesis by (cases "get_room x d") (auto simp: same_views_def same_epoch_def d' views)
qed

lemma hide_same: "hide_route caller room now d = Inr (h, d') \<Longrightarrow> same_views x d d'"
  by (auto simp: hide_route_def hide_room_def Let_def same_views_store split: if_splits)

lemma unhide_same: "unhide_route caller room d = Inr (u, d') \<Longrightarrow> same_views x d d'"
  by (auto simp: unhide_route_def unhide_room_def same_views_store)

lemma send_same: "send_route iso_ms clk new d = Inr (m, d') \<Longrightarrow> same_views x d d'"
  by (auto simp: send_route_def require_member_def try_bind_Inr_iff same_views_store split: prod.splits)

lemma link_same: "create_link_route ops caller room lid hash hours uses clk d = Inr (l, d') \<Longrightarrow> same_views x d d'"
  by (auto simp: create_link_route_def require_admin_def require_channel_def fetch_room_def create_link_def Let_def
     same_views_store split: option.splits if_splits)

lemma revoke_same: "revoke_link_route ops caller room lid now d = Inr (u, d') \<Longrightarrow> same_views x d d'"
  by (auto simp: revoke_link_route_def require_admin_def require_room_exists_def revoke_link_def Let_def same_views_store)

section \<open>A room is made or destroyed\<close>

lemma good_new:
  assumes "get_room x d' = Some r" "\<not> is_static r" "\<not> static_named x"
    "\<And>a. is_member x a d' \<longleftrightarrow> a \<in> M" "\<And>a. is_admin x a d' \<longleftrightarrow> a \<in> M" "finite M" "card M \<le> MAX_ADMINS"
    "\<And>a. \<not> has_pending_invitation x a d'" "\<And>a v. \<not> key_exists x a v d'" "\<And>v a. (x, v, a) \<notin> K"
  shows "good_at x d' K"
  using assms by (auto simp: good_at_def room_good_def owned_def static_named_def)

lemma absent_room:
  assumes "good_at x d K" "get_room x d = None"
  shows "\<not> is_member x a d" "\<not> is_admin x a d" "\<not> has_pending_invitation x a d" "\<not> key_exists x a v d"
  using assms by (auto simp: good_at_def room_good_def)

lemma create_inv:
  assumes inv: "room_inv d K" and step: "create_route caller room name description now d = Inr (row, d')"
    and new: "generated_id room" "\<forall>v a. (room, v, a) \<notin> K"
  shows "room_inv d' K"
proof (rule room_inv_at [OF inv, where room = room])
  have c: "create_room room name description caller now d = Inr (row, d')"
    using step by (simp add: create_route_def)
  note v = create_room_views [OF c] and old = absent_room [OF room_invD [OF inv] v(1)]
  show "same_views x d d'" if "x \<noteq> room" for x using that by (simp add: same_views_def v)
  show "good_at room d' K"
    by (rule good_new [of _ _ row "{caller}"])
      (use v old new generated_not_named [OF new(1)] in
        \<open>auto simp: is_static_def STATIC_ROOM_KINDS_def room_kind_defs MAX_ADMINS_def\<close>)
qed simp

lemma delete_inv:
  assumes inv: "room_inv d K" and step: "delete_route ops caller room d = Inr (told, d')"
  shows "room_inv d' K"
proof (rule room_inv_at [OF inv, where room = room])
  obtain r where r: "get_room room d = Some r" "\<not> is_static r" and d': "d' = delete_room room d"
    using step by (auto simp: delete_route_def require_room_exists_def require_admin_def refuse_static_removal_def
      fetch_room_def split: option.splits)
  show "same_views x d d'" if "x \<noteq> room" for x using that by (simp add: same_views_def d' views)
  have "\<not> static_named room"
    using named_static [of room r] room_invD [OF inv, of room] r by (auto simp: good_at_def)
  then show "good_at room d' K" by (simp add: good_at_def room_good_def d' views)
qed simp

section \<open>Steps in one room\<close>

text \<open>A member goes: the admin row, the wraps and the membership with them, and a rotation is due.\<close>

lemma card_remove_le: "finite A \<Longrightarrow> card A \<le> n \<Longrightarrow> card (A - B) \<le> n"
  by (meson Diff_subset card_mono le_trans)

lemma room_good_gone:
  assumes "room_good x (Some r) M A I E L" "\<not> is_static r"
  shows "room_good x (Some (r\<lparr>rm_pending := True\<rparr>)) (M - {m}) (A - {m}) I {e \<in> E. fst e \<noteq> m} L"
  using assms owned_mono [of x "rm_kind r" A "A - {m}"] card_remove_le [of A MAX_ADMINS "{m}"]
  by (auto simp: room_good_def)

lemma room_good_promoted:
  assumes "room_good x (Some r) M A I E L" "\<not> is_static r" "m \<in> M" "card A < MAX_ADMINS"
  shows "room_good x (Some r) M (insert m A) I E L"
proof -
  have "owned x (rm_kind r) (insert m A)" using named_static [OF assms(1)] assms(2) owned_unnamed by blast
  then show ?thesis using assms by (auto simp: room_good_def card_insert_if)
qed

lemma room_good_demoted:
  assumes "room_good x (Some r) M A I E L"
  shows "room_good x (Some r) M (A - {m}) I E L"
  using assms owned_mono [of x "rm_kind r" A "A - {m}"] card_remove_le [of A MAX_ADMINS "{m}"]
  by (auto simp: room_good_def)

lemma good_at_gone:
  assumes "good_at room d K" "get_room room d = Some r" "\<not> is_static r"
    "get_room room d' = Some (r\<lparr>rm_pending := True\<rparr>)"
    "\<And>a. is_member room a d' \<longleftrightarrow> is_member room a d \<and> a \<noteq> m"
    "\<And>a. is_admin room a d' \<longleftrightarrow> is_admin room a d \<and> a \<noteq> m"
    "\<And>a. has_pending_invitation room a d' = has_pending_invitation room a d"
    "\<And>a v. key_exists room a v d' \<longleftrightarrow> key_exists room a v d \<and> a \<noteq> m"
  shows "good_at room d' K"
  by (rule good_atI [OF room_good_gone [OF assms(1) [unfolded good_at_def assms(2)] assms(3), of m]])
     (auto simp: assms)

lemma leave_inv:
  assumes inv: "room_inv d K" and step: "leave_route caller room d = Inr (u, d')"
  shows "room_inv d' K"
proof (rule room_inv_at [OF inv, where room = room])
  obtain r where r: "get_room room d = Some r" "\<not> is_static r"
    and d': "d' = set_key_rotation_pending room True (remove_member room caller (delete_user_keys room caller
      (if is_admin room caller d then remove_admin room caller d else d)))"
    using step by (auto simp: leave_route_def require_room_exists_def require_member_def refuse_static_removal_def
      fetch_room_def Let_def split: option.splits)
  show "same_views x d d'" if "x \<noteq> room" for x using that by (simp add: same_views_def d' views)
  show "good_at room d' K"
    by (rule good_at_gone [OF room_invD [OF inv] r, where m = caller]) (auto simp: d' views r)
qed simp

lemma channel_room:
  assumes "fixed_roster r = None" shows "\<not> is_static r" "\<not> is_direct r"
  using assms by (auto simp: fixed_roster_def split: if_splits)

lemma kick_inv:
  assumes inv: "room_inv d K" and step: "kick_route ops caller room target d = Inr (u, d')"
  shows "room_inv d' K"
proof (rule room_inv_at [OF inv, where room = room])
  obtain r where r: "get_room room d = Some r" "fixed_roster r = None"
    and d': "d' = set_key_rotation_pending room True (remove_member room target (delete_user_keys room target
      (remove_admin room target d)))"
    using step by (auto simp: kick_route_def require_admin_def require_channel_def
      fetch_room_def Let_def split: option.splits)
  show "same_views x d d'" if "x \<noteq> room" for x using that by (simp add: same_views_def d' views)
  show "good_at room d' K"
    by (rule good_at_gone [OF room_invD [OF inv] r(1) channel_room(1) [OF r(2)], where m = target])
       (auto simp: d' views r)
qed simp

lemma card_admins_le: "card {a. is_admin x a d} \<le> admin_count x d" "finite {a. is_admin x a d}"
proof -
  have eq: "{a. is_admin x a d} = ad_user ` set [m \<leftarrow> sv_admins d. ad_room m = x]" by (auto simp: is_admin_def)
  then show "card {a. is_admin x a d} \<le> admin_count x d" "finite {a. is_admin x a d}"
    unfolding admin_count_def by (metis card_image_le card_length finite_set le_trans) (simp add: eq)
qed

lemma add_admin_inv:
  assumes inv: "room_inv d K" and step: "add_admin_route ops caller room target now d = Inr (u, d')"
  shows "room_inv d' K"
proof (rule room_inv_at [OF inv, where room = room])
  obtain r where r: "get_room room d = Some r" "fixed_roster r = None"
    and few: "admin_count room d < MAX_ADMINS" and member: "is_member room target d"
    and d': "insert_admin room target now d = Inr d'"
    using step by (auto simp: add_admin_route_def require_admin_def require_room_exists_def require_channel_def
      fetch_room_def add_admin_def split: option.splits if_splits)
  note v = insert_admin_views [OF d']
  show "same_views x d d'" if "x \<noteq> room" for x using that by (simp add: same_views_def v)
  have "card {a. is_admin room a d} < MAX_ADMINS" using few card_admins_le(1) [of room d] by simp
  from room_good_promoted [OF room_invD [OF inv, of room, unfolded good_at_def r(1)] channel_room(1) [OF r(2)] _ this,
      of target]
  show "good_at room d' K" by (rule good_atI) (use member in \<open>auto simp: v r\<close>)
qed simp

lemma remove_admin_inv:
  assumes inv: "room_inv d K" and step: "remove_admin_route ops caller room target d = Inr (u, d')"
  shows "room_inv d' K"
proof (rule room_inv_at [OF inv, where room = room])
  obtain r where r: "get_room room d = Some r" and d': "d' = remove_admin room target d"
    using step by (auto simp: remove_admin_route_def require_admin_def require_room_exists_def require_channel_def
      fetch_room_def split: option.splits if_splits)
  show "same_views x d d'" if "x \<noteq> room" for x using that by (simp add: same_views_def d' views)
  from room_good_demoted [OF room_invD [OF inv, of room, unfolded good_at_def r], of target]
  show "good_at room d' K" by (rule good_atI) (auto simp: d' views r)
qed simp

section \<open>Keys, invitations and links\<close>

text \<open>A wrap for a member or an invitee, and a member that learns a key of the current epoch.\<close>

lemma room_good_learned:
  assumes "room_good x (Some r) M A I E L" "\<And>v a. (v, a) \<in> L' \<Longrightarrow> v = rm_key_version r \<and> a \<in> M \<and> (\<exists>v. (a, v) \<in> E)"
  shows "room_good x (Some r) M A I E (L \<union> L')"
  using assms(1) unfolding room_good_def by (auto dest: assms(2)) (use assms(2) in blast)+

lemma room_good_wrapped:
  assumes "room_good x (Some r) M A I E L" "m \<in> M \<or> m \<in> I"
  shows "room_good x (Some r) M A I (insert (m, v) E) L"
  using assms by (auto simp: room_good_def)

lemma room_good_learned_own:
  assumes "room_good x (Some r) M A I E L" "c \<in> M" "m \<in> M \<or> m \<in> I"
  shows "room_good x (Some r) M A I (insert (m, v) E) (insert (rm_key_version r, c) L)"
  using assms by (auto simp: room_good_def)

lemma store_inv:
  assumes inv: "room_inv d K" and step: "store_route caller room wrap version now d = Inr (u, d')"
    and K': "K' = K \<union> (if is_member room caller d \<and> current_version room d = Some version
              then {(room, version, caller)} else {})"
  shows "room_inv d' K'"
proof (rule room_inv_at [OF inv, where room = room])
  obtain r where r: "get_room room d = Some r"
    and t: "is_member room (kw_user wrap) d \<or> has_pending_invitation room (kw_user wrap) d"
    and d': "store_key room wrap version now d = Inr d'"
    using step by (auto simp: store_route_def Let_def)
  note v = store_key_views [OF d']
  show "same_views x d d'" if "x \<noteq> room" for x using that by (simp add: same_views_def v)
  show "(x, v, a) \<in> K' \<longleftrightarrow> (x, v, a) \<in> K" if "x \<noteq> room" for x v a using that by (simp add: K')
  note good = room_invD [OF inv, of room, unfolded good_at_def r]
  show "good_at room d' K'"
  proof (cases "is_member room caller d \<and> current_version room d = Some version")
    case True
    then have "version = rm_key_version r" "K' = insert (room, version, caller) K"
      by (auto simp: current_version_def r K')
    with room_good_learned_own [OF good, of caller "kw_user wrap" version] True t show ?thesis
      by (intro good_atI) (auto simp: v r)
  next
    case False
    then have "K' = K" by (auto simp: K')
    with room_good_wrapped [OF good, of "kw_user wrap" version] t show ?thesis
      by (intro good_atI) (auto simp: v r)
  qed
qed

lemma read_inv:
  assumes inv: "room_inv d K" and step: "versions_route caller room d = Inr ks"
    and K': "K' = K \<union> {(room, v, caller) | v. v \<in> rk_version ` set ks \<and> current_version room d = Some v}"
  shows "room_inv d K'"
proof (rule room_inv_at [OF inv, where room = room])
  have m: "is_member room caller d" and ks: "\<And>k. k \<in> set ks \<Longrightarrow> key_exists room caller (rk_version k) d"
    using step by (auto simp: versions_route_def require_member_def all_keys_def key_exists_def)
  show "same_views x d d" for x by (simp add: same_views_def)
  show "(x, v, a) \<in> K' \<longleftrightarrow> (x, v, a) \<in> K" if "x \<noteq> room" for x v a using that by (simp add: K')
  note good = room_invD [OF inv, of room, unfolded good_at_def]
  obtain r where r: "get_room room d = Some r"
    using m absent_room(1) [OF room_invD [OF inv]] by (cases "get_room room d") auto
  let ?L = "{(v, caller) | v. v \<in> rk_version ` set ks \<and> v = rm_key_version r}"
  from room_good_learned [OF good [unfolded r], of ?L] m ks show "good_at room d K'"
    by (intro good_atI) (auto simp: r K' current_version_def)
qed

text \<open>A rotation begins an epoch whose wraps go to the members, and whose key only its author knows.\<close>

lemma room_good_rotated:
  assumes "room_good x (Some r) M A I E L" "rm_key_version r < v" "c \<in> M" "W \<noteq> {}" "W \<subseteq> M"
  shows "room_good x (Some (r\<lparr>rm_key_version := v, rm_pending := False\<rparr>)) M A I
     (E \<union> {(a, v) | a. a \<in> W}) (insert (v, c) L)"
proof -
  obtain w where w: "w \<in> W" "w \<in> M" using assms(4,5) by blast
  have old: "u \<le> rm_key_version r" if "(u, a) \<in> L" for u a using assms(1) that by (auto simp: room_good_def)
  have "(v, a) \<notin> L" for a using old [of v a] assms(2) by auto
  moreover have "u \<le> v" if "(u, a) \<in> L" for u a using old [OF that] assms(2) by simp
  ultimately show ?thesis using assms(1,3,5) w by (auto simp: room_good_def)
qed

lemma list_members_member: "m \<in> set (list_members room d) \<Longrightarrow> is_member room (mb_user (fst m)) d"
  by (auto simp: list_members_def is_member_def)

lemma rotate_commit_views:
  assumes "rotate_commit room version wraps now d = Inr (u, d')"
  obtains r where "get_room room d = Some r" "version = rm_key_version r + 1"
    "\<And>x. get_room x d' = (if x = room then Some (r\<lparr>rm_key_version := version, rm_pending := False\<rparr>) else get_room x d)"
    "\<And>x a. is_member x a d' = is_member x a d" "\<And>x a. is_admin x a d' = is_admin x a d"
    "\<And>x a. has_pending_invitation x a d' = has_pending_invitation x a d"
    "\<And>x a v. key_exists x a v d' \<longleftrightarrow> key_exists x a v d \<or> (x = room \<and> a \<in> kw_user ` set wraps \<and> v = version)"
proof -
  obtain r d1 where r: "get_room room d = Some r" "version = rm_key_version r + 1"
    and d1: "store_keys room wraps version now d = Inr d1"
    and d': "d' = update_room room (\<lambda>r. r\<lparr>rm_key_version := version, rm_pending := False\<rparr>) d1"
  proof -
    obtain out d2 where "rotate room version wraps now d = Inr (out, d2)" "out = Rotated" "d2 = d'"
      using assms by (auto simp: rotate_commit_def split: rotate_outcome.splits) (meson rotate_outcome.exhaust)
    then show ?thesis
      by (auto simp: rotate_def try_bind_Inr_iff split: option.splits if_splits intro: that)
  qed
  show ?thesis by (rule that [OF r]) (auto simp: d' views store_keys_views [OF d1] r)
qed

lemma rotate_inv:
  assumes inv: "room_inv d K" and step: "rotate_route caller room version wraps now d = Inr (u, d')"
  shows "room_inv d' (K \<union> {(room, version, caller)})"
proof (rule room_inv_at [OF inv, where room = room])
  have m: "is_member room caller d" and W: "wraps \<noteq> []" "kw_user ` set wraps \<subseteq> {a. is_member room a d}"
    and commit: "rotate_commit room version wraps now d = Inr (u, d')"
    using step by (auto simp: rotate_route_def rotate_check_def try_bind_Inr_iff Let_def dest!: list_members_member)
  obtain r where r: "get_room room d = Some r" "version = rm_key_version r + 1"
    and v: "\<And>x. get_room x d' = (if x = room then Some (r\<lparr>rm_key_version := version, rm_pending := False\<rparr>) else get_room x d)"
    "\<And>x a. is_member x a d' = is_member x a d" "\<And>x a. is_admin x a d' = is_admin x a d"
    "\<And>x a. has_pending_invitation x a d' = has_pending_invitation x a d"
    "\<And>x a v. key_exists x a v d' \<longleftrightarrow> key_exists x a v d \<or> (x = room \<and> a \<in> kw_user ` set wraps \<and> v = version)"
    by (rule rotate_commit_views [OF commit], rule that)
  show "same_views x d d'" if "x \<noteq> room" for x using that by (simp add: same_views_def v)
  have "kw_user ` set wraps \<noteq> {}" using W by simp
  from room_good_rotated [OF room_invD [OF inv, of room, unfolded good_at_def r(1)] _ _ this W(2), of version caller]
  show "good_at room d' (K \<union> {(room, version, caller)})"
    by (intro good_atI) (use m r in \<open>auto simp: v\<close>)
qed simp

lemma invite_inv:
  assumes inv: "room_inv d K" and step: "invite_route caller room invitee now d = Inr (u, d')"
  shows "room_inv d' K"
proof (rule room_inv_at [OF inv, where room = room])
  obtain r where r: "get_room room d = Some r" "\<not> is_static r"
    and d': "create_invitation room invitee caller now d = Inr d'"
    using step by (auto simp: invite_route_def fetch_room_def split: option.splits)
  note v = create_invitation_views [OF d']
  show "same_views x d d'" if "x \<noteq> room" for x using that by (simp add: same_views_def v)
  have "room_good room (Some r) M A (insert invitee I) E L" if "room_good room (Some r) M A I E L" for M A I E L
    using that r by (auto simp: room_good_def)
  from this [OF room_invD [OF inv, of room, unfolded good_at_def r(1)]]
  show "good_at room d' K" by (rule good_atI) (auto simp: v r)
qed simp

lemma invited_room:
  assumes "room_inv d K" "has_pending_invitation room a d"
  obtains r where "get_room room d = Some r" "\<not> is_static r"
  using room_invD [OF assms(1), of room] assms(2)
  by (cases "get_room room d") (auto simp: good_at_def room_good_def split: if_splits)

lemma room_good_joined:
  assumes "room_good x (Some r) M A I E L"
  shows "room_good x (Some r) (insert m M) A (I - {m}) E L" "room_good x (Some r) (insert m M) A I E L"
    "room_good x (Some (r\<lparr>rm_pending := True\<rparr>)) (insert m M) A I E L"
  using assms by (auto simp: room_good_def; blast)+

lemma accept_inv:
  assumes inv: "room_inv d K" and step: "accept_route caller room now d = (res, d')"
  shows "room_inv d' K"
proof (cases "d' = d")
  case False
  then have p: "has_pending_invitation room caller d"
    using step by (auto simp: accept_route_def split: if_splits)
  obtain r where r: "get_room room d = Some r" "\<not> is_static r" by (rule invited_room [OF inv p])
  obtain d1 where d1: "add_member room caller now d = Inr d1" and d': "d' = delete_invitation room caller d1"
    using step False p r by (auto simp: accept_route_def split: sum.splits)
  note v = add_member_views [OF d1]
  show ?thesis
  proof (rule room_inv_at [OF inv, where room = room])
    show "same_views x d d'" if "x \<noteq> room" for x using that by (simp add: same_views_def v d' views)
    from room_good_joined(1) [OF room_invD [OF inv, of room, unfolded good_at_def r(1)], of caller]
    show "good_at room d' K" by (rule good_atI) (auto simp: v r d' views)
  qed simp
qed (simp add: inv)

lemma decline_inv:
  assumes inv: "room_inv d K" and step: "decline_route caller room d = Inr (u, d')"
  shows "room_inv d' K"
proof (rule room_inv_at [OF inv, where room = room])
  have p: "has_pending_invitation room caller d"
    and d': "d' = delete_user_keys room caller (delete_invitation room caller d)"
    using step by (auto simp: decline_route_def)
  show "same_views x d d'" if "x \<noteq> room" for x using that by (simp add: same_views_def d' views)
  obtain r where r: "get_room room d = Some r" "\<not> is_static r" by (rule invited_room [OF inv p])
  have "room_good room (Some r) M A (I - {caller}) {e \<in> E. fst e \<noteq> caller} L"
    if "room_good room (Some r) M A I E L" for M A I E L
    using that r by (auto simp: room_good_def)
  from this [OF room_invD [OF inv, of room, unfolded good_at_def r(1)]]
  show "good_at room d' K" by (rule good_atI) (auto simp: d' views r)
qed simp

lemma redeem_inv:
  assumes inv: "room_inv d K" and step: "redeem_route token_hash caller token clk d = (res, d')"
  shows "room_inv d' K"
proof (cases "\<exists>room d1 d2. get_room room d \<noteq> None \<and> d1 = snd (consume (token_hash token) (clk 1) d)
    \<and> add_member room caller (clk 2) d1 = Inr d2
    \<and> d' = (if has_encryption room d2 then set_key_rotation_pending room True d2 else d2)")
  case True
  then obtain room r d1 d2 where r: "get_room room d = Some r"
    and d1: "d1 = snd (consume (token_hash token) (clk 1) d)" and d2: "add_member room caller (clk 2) d1 = Inr d2"
    and d': "d' = (if has_encryption room d2 then set_key_rotation_pending room True d2 else d2)" by auto
  note v = add_member_views [OF d2]
  show ?thesis
  proof (rule room_inv_at [OF inv, where room = room])
    show "same_views x d d'" if "x \<noteq> room" for x using that by (simp add: same_views_def v d' d1 views)
    note j = room_good_joined(2,3) [OF room_invD [OF inv, of room, unfolded good_at_def r], of caller]
    have e: "has_encryption room d2 = has_encryption room d" by (simp add: v d1 views)
    show "good_at room d' K"
    proof (cases "has_encryption room d")
      case True
      show ?thesis by (rule good_atI [OF j(2)]) (auto simp: v r d' d1 views True e)
    next
      case False
      show ?thesis by (rule good_atI [OF j(1)]) (auto simp: v r d' d1 views False e)
    qed
  qed simp
next
  case False
  then have "d' = d \<or> d' = snd (consume (token_hash token) (clk 1) d)"
    using step by (auto simp: redeem_route_def presented_token_def ensure_def Let_def
      split: sum.splits option.splits if_splits prod.splits consume_outcome.splits) (metis option.distinct(1))+
  then have "same_views x d d'" for x by (auto simp: same_views_def views)
  then show ?thesis using room_inv_same [OF inv] by blast
qed

lemma room_good_evicted:
  assumes "room_good x (Some r) M A I E L"
  shows "room_good x (Some (r\<lparr>rm_pending := True\<rparr>)) (M - {m}) (A - {m}) (I - {m}) {e \<in> E. fst e \<noteq> m} L"
    "m \<notin> M \<Longrightarrow> room_good x (Some r) (M - {m}) (A - {m}) (I - {m}) {e \<in> E. fst e \<noteq> m} L"
  using assms owned_mono [of x "rm_kind r" A "A - {m}"] card_remove_le [of A MAX_ADMINS "{m}"]
  by (auto simp: room_good_def; blast)+

lemma evict_inv:
  assumes inv: "room_inv d K" and step: "evict_route ops caller m d = Inr (touched, d')"
  shows "room_inv d' K"
  unfolding room_inv_def
proof
  fix x
  have "evict_from_all_rooms m d = (touched, d')" using step by (simp add: evict_route_def)
  note v = evict_views [OF this]
  note good = room_invD [OF inv, of x, unfolded good_at_def]
  show "good_at x d' K"
  proof (cases "get_room x d")
    case None
    then show ?thesis using good by (auto simp: good_at_def room_good_def v)
  next
    case (Some r)
    note e = room_good_evicted [OF good [unfolded Some], of m]
    show ?thesis
    proof (cases "is_member x m d")
      case True
      show ?thesis by (rule good_atI [OF e(1)]) (auto simp: v Some True)
    next
      case False
      then have m: "m \<notin> {a. is_member x a d}" by simp
      show ?thesis by (rule good_atI [OF e(2) [OF m]]) (auto simp: v Some False)
    qed
  qed
qed

lemma owned_static:
  "k \<in> set STATIC_ROOM_KINDS \<Longrightarrow> owned (static_room_id k owner) k {to_ascii_lowercase owner}"
  using static_id_inj unfolding owned_def by blast

lemma provision_room_inv:
  assumes inv: "room_inv d K" and kind: "kind \<in> set STATIC_ROOM_KINDS"
    and step: "provision_room kind owner agent admins now d = (moved, d')"
  shows "room_inv d' K"
proof (rule room_inv_at [OF inv, where room = "static_room_id kind owner"])
  let ?x = "static_room_id kind owner" and ?R = "set (static_roster kind owner agent admins)"
  note v = provision_room_views [OF step]
  show "same_views x d d'" if "x \<noteq> ?x" for x using that by (simp add: same_views_def v)
  note good = room_invD [OF inv, of ?x, unfolded good_at_def]
  obtain r' where r': "get_room ?x d' = Some r'" "case get_room ?x d of
      Some r \<Rightarrow> rm_key_version r' = rm_key_version r \<and> rm_kind r' = rm_kind r \<and> (rm_pending r \<longrightarrow> rm_pending r')
        \<and> ((\<exists>a. is_member ?x a d \<and> a \<notin> ?R) \<and> has_encryption ?x d \<longrightarrow> rm_pending r')
    | None \<Rightarrow> rm_kind r' = kind" using v(7) by blast
  note named = static_named_kind [OF kind, of owner]
  have A: "{a. is_admin ?x a d} \<subseteq> {to_ascii_lowercase owner}"
  proof (cases "get_room ?x d")
    case None
    then show ?thesis using good by (auto simp: room_good_def)
  next
    case (Some r)
    then have "owned ?x (rm_kind r) {a. is_admin ?x a d}" using good by (simp add: room_good_def)
    then show ?thesis using kind unfolding owned_def by blast
  qed
  have "is_admin ?x a d' \<longleftrightarrow> a = to_ascii_lowercase owner" for a using A by (auto simp: v)
  have "room_good ?x (Some r') ?R {to_ascii_lowercase owner} {} {(a, v). key_exists ?x a v d} {(v, a). (?x, v, a) \<in> K}"
  proof (cases "get_room ?x d")
    case None
    then have "is_static r'" "rm_kind r' = kind" using r' kind by (simp_all add: is_static_def)
    then show ?thesis using good owner_in_roster owned_static [OF kind, of owner] named
      by (auto simp: None room_good_def MAX_ADMINS_def)
  next
    case (Some r)
    have st: "is_static r" using named_static [OF good [unfolded Some] named] .
    then have st': "is_static r'" using r' by (simp add: Some is_static_def)
    have "rm_kind r = kind" using good kind by (auto simp: Some room_good_def owned_def)
    then have kind': "rm_kind r' = kind" using r' by (simp add: Some)
    have enc: "has_encryption ?x d" if "key_exists ?x b w d" for b w using that has_encryption_keys by blast
    show ?thesis using good st st' r' owner_in_roster owned_static [OF kind, of owner] kind' enc
      by (auto simp: Some room_good_def MAX_ADMINS_def) blast+
  qed
  moreover have "\<not> has_pending_invitation ?x a d" for a
  proof (cases "get_room ?x d")
    case (Some r)
    show ?thesis using good named_static [OF good [unfolded Some] named] by (auto simp: Some room_good_def)
  qed (use good in \<open>auto simp: room_good_def\<close>)
  ultimately show "good_at ?x d' K"
    using A by (intro good_atI) (auto simp: v r')
qed simp

lemma list_inv:
  assumes inv: "room_inv d K" and step: "list_route sha256 enc ops caller clk d = (rooms, d')"
  shows "room_inv d' K"
proof (cases "provision_static_rooms sha256 enc caller ops clk d")
  case (Inl e)
  then show ?thesis using step inv by (simp add: list_route_def)
next
  case (Inr res)
  then obtain w agent c1 d1 c2 d2 c3 d3 where
    s: "provision_room ROOM_KIND_NOTE caller agent ops (clk 0) d = (c1, d1)"
      "provision_room ROOM_KIND_JARVIS caller agent ops (clk 1) d1 = (c2, d2)"
      "provision_room ROOM_KIND_LOBBY caller agent ops (clk 2) d2 = (c3, d3)"
      "d' = snd (upsert_user agent ''Jarvis'' None None (clk 3) d3)"
    using step by (auto simp: list_route_def provision_static_rooms_def Let_def split: sum.splits prod.splits)
  have kinds: "ROOM_KIND_NOTE \<in> set STATIC_ROOM_KINDS" "ROOM_KIND_JARVIS \<in> set STATIC_ROOM_KINDS"
    "ROOM_KIND_LOBBY \<in> set STATIC_ROOM_KINDS" by (simp_all add: STATIC_ROOM_KINDS_def)
  have "room_inv d3 K"
    using provision_room_inv [OF _ kinds(3) s(3)] provision_room_inv [OF _ kinds(2) s(2)]
      provision_room_inv [OF inv kinds(1) s(1)] by blast
  then show ?thesis by (rule room_inv_same) (simp add: same_views_def s(4) views)
qed

section \<open>Direct messages\<close>

lemma split_join_with:
  assumes "xs \<noteq> []" "\<forall>x \<in> set xs. c \<notin> set x"
  shows "split_char c (join_with [c] xs) = xs"
  using assms by (induction "[c]" xs rule: join_with.induct) (auto simp: split_char_append split_char_single)

lemma lower_keeps_bar: "CHR ''|'' \<in> set (to_ascii_lowercase a) \<Longrightarrow> CHR ''|'' \<in> set a"
proof -
  have bar: "c = CHR ''|''" if "ascii_lower_char c = CHR ''|''" for c
  proof -
    have "(of_char (ascii_lower_char c) :: nat) = 124" using that by simp
    then have "(of_char c :: nat) = of_char (CHR ''|'')"
      unfolding ascii_lower_char_code by (simp split: if_splits)
    then show ?thesis by (simp only: of_char_eq_iff)
  qed
  assume "CHR ''|'' \<in> set (to_ascii_lowercase a)"
  then obtain c where "c \<in> set a" "ascii_lower_char c = CHR ''|''" by (auto simp: to_ascii_lowercase_def)
  then show "CHR ''|'' \<in> set a" using bar by blast
qed

lemma distinct_remdups_adj_sorted: "sorted xs \<Longrightarrow> distinct (remdups_adj xs)"
  by (induction xs rule: remdups_adj.induct) auto

text \<open>The parts of the key of a direct message: the members in lower case, each once, in order.\<close>

definition dm_parts :: "string list \<Rightarrow> string list" where
  "dm_parts members = remdups_adj (sort (map to_ascii_lowercase members))"

lemma dm_parts_props:
  "set (dm_parts ms) = to_ascii_lowercase ` set ms" "distinct (dm_parts ms)" "sorted (dm_parts ms)"
  by (simp_all add: dm_parts_def distinct_remdups_adj_sorted)

lemma dm_parts_cong:
  "to_ascii_lowercase ` set ms = to_ascii_lowercase ` set ms' \<Longrightarrow> dm_parts ms = dm_parts ms'"
  using sorted_distinct_set_unique dm_parts_props by metis

lemma dm_key_parts:
  assumes "ms \<noteq> []" "\<forall>a \<in> set ms. CHR ''|'' \<notin> set a"
  shows "split_char (CHR ''|'') (dm_key ms) = dm_parts ms"
proof -
  have "\<forall>x \<in> set (dm_parts ms). CHR ''|'' \<notin> set x"
    using assms(2) lower_keeps_bar by (auto simp: dm_parts_props)
  moreover have "dm_parts ms \<noteq> []" using assms(1) dm_parts_props(1) [of ms] by force
  ultimately show ?thesis using split_join_with by (simp add: dm_key_def dm_parts_def)
qed

lemma card_dedup_sorted: "card (set (dedup_sorted ms)) = length (dm_parts ms)"
proof -
  have "set (dedup_sorted ms) = set (dedup_seen [] ms)" by (simp add: dedup_sorted_def)
  moreover have "inj_on to_ascii_lowercase (set (dedup_seen [] ms))"
    using dedup_seen_distinct [of "[]" ms] by (simp add: distinct_map)
  moreover have "to_ascii_lowercase ` set (dedup_seen [] ms) = set (dm_parts ms)"
    using set_dedup_seen [of "[]" ms] by (simp add: dm_parts_props)
  ultimately show ?thesis using card_image distinct_card dm_parts_props(2) by metis
qed

lemma open_dm_cases:
  assumes "open_dm caller room others now d = Inr (row, d')"
  obtains "find_dm (dm_key (caller # others)) d = Some row" "d' = d"
  | "find_dm (dm_key (caller # others)) d = None" "create_dm room (caller # others) now d = Inr (row, d')"
  using assms by (cases "find_dm (dm_key (caller # others)) d") (auto simp: open_dm_def create_dm_found Let_def)

lemma dm_inv:
  assumes inv: "room_inv d K" and step: "open_dm caller room others now d = Inr (row, d')"
    and new: "generated_id room" "\<forall>v a. (room, v, a) \<notin> K"
    and clean: "\<forall>a \<in> set (caller # others). a \<noteq> [] \<and> CHR ''|'' \<notin> set a"
  shows "room_inv d' K"
  using step
proof (cases rule: open_dm_cases)
  case 1
  then show ?thesis using inv by simp
next
  case 2
  let ?ms = "caller # others"
  note v = create_dm_new [OF 2(2) 2(1)] and old = absent_room [OF room_invD [OF inv] create_dm_new(1) [OF 2(2) 2(1)]]
  have "length (split_char (CHR ''|'') (dm_key ?ms)) \<le> MAX_ADMINS"
    using step by (auto simp: open_dm_def Let_def)
  then have few: "card (set (dedup_sorted ?ms)) \<le> MAX_ADMINS"
    using dm_key_parts [of ?ms] clean by (simp add: card_dedup_sorted)
  show ?thesis
  proof (rule room_inv_at [OF inv, where room = room])
    show "same_views x d d'" if "x \<noteq> room" for x using that by (simp add: same_views_def v)
    show "good_at room d' K"
      by (rule good_new [of _ _ row "set (dedup_sorted ?ms)"])
        (use v old new few generated_not_named [OF new(1)] in
          \<open>auto simp: is_static_def STATIC_ROOM_KINDS_def room_kind_defs is_direct_def\<close>)
  qed simp
qed

section \<open>Every reachable state\<close>

lemma room_step_inv: "room_step ops s s' \<Longrightarrow> room_inv (fst s) (snd s) \<Longrightarrow> room_inv (fst s') (snd s')"
proof (induction rule: room_step.induct)
  case rt_create then show ?case by (simp add: create_inv)
next
  case rt_dm then show ?case using dm_inv by simp
next
  case rt_list then show ?case using list_inv by simp
next
  case rt_rename then show ?case using room_inv_same rename_same by (metis fst_conv snd_conv)
next
  case rt_delete then show ?case using delete_inv by simp
next
  case rt_leave then show ?case using leave_inv by simp
next
  case rt_kick then show ?case using kick_inv by simp
next
  case rt_add_admin then show ?case using add_admin_inv by simp
next
  case rt_remove_admin then show ?case using remove_admin_inv by simp
next
  case rt_hide then show ?case using room_inv_same hide_same by (metis fst_conv snd_conv)
next
  case rt_unhide then show ?case using room_inv_same unhide_same by (metis fst_conv snd_conv)
next
  case rt_store then show ?case using store_inv by simp
next
  case rt_read then show ?case using read_inv by simp
next
  case rt_rotate then show ?case using rotate_inv by simp
next
  case rt_send then show ?case using room_inv_same send_same by (metis fst_conv snd_conv)
next
  case rt_invite then show ?case using invite_inv by simp
next
  case rt_accept then show ?case using accept_inv by simp
next
  case rt_decline then show ?case using decline_inv by simp
next
  case rt_link then show ?case using room_inv_same link_same by (metis fst_conv snd_conv)
next
  case rt_revoke then show ?case using room_inv_same revoke_same by (metis fst_conv snd_conv)
next
  case rt_redeem then show ?case using redeem_inv by simp
next
  case rt_evict then show ?case using evict_inv by simp
next
  case rt_block then show ?case using room_inv_same same_views_store(1) by (metis fst_conv snd_conv)
next
  case rt_store_step then show ?case using room_inv_same same_views_store(1) by (metis fst_conv snd_conv)
qed

lemma room_reach_inv: "room_reach ops s \<Longrightarrow> room_inv (fst s) (snd s)"
proof (induction rule: room_reach.induct)
  case (rr_start users blocked)
  show ?case by (simp add: room_inv_def good_at_def room_good_def empty_server_def view_defs)
next
  case (rr_step s s')
  then show ?case using room_step_inv by blast
qed

end
