(* ===== verification/Room_Properties.thy ===== *)
theory Room_Properties imports Room_Safety begin

text \<open>What the room routes promise, from the invariant of Room_Safety, with concrete histories.\<close>

section \<open>A history of a room\<close>

definition server0 :: server_db where
  "server0 = empty_server\<lparr>sv_store := (sv_store empty_server)\<lparr>db_users :=
     (\<lambda>a. if a = ''alice'' \<or> a = ''bob'' then Some \<lparr>ur_username = a, ur_public_key = None,
        ur_public_key_sig = None, ur_profile_image = None, ur_created_at = 1, ur_updated_at = 1\<rparr> else None)\<rparr>\<rparr>"

definition team :: string where "team = ''room_1_x''"

definition served :: "api_error + ('a \<times> server_db) \<Rightarrow> server_db" where
  "served r = (case r of Inl _ \<Rightarrow> server0 | Inr (_, d) \<Rightarrow> d)"

definition answered :: "api_error + 'a \<Rightarrow> bool" where
  "answered r = (case r of Inl _ \<Rightarrow> False | Inr _ \<Rightarrow> True)"

definition wrap_for :: "string \<Rightarrow> key_wrap" where
  "wrap_for a = \<lparr>kw_user = a, kw_key = ''k'', kw_ephemeral = ''e'', kw_iv = ''i'', kw_hmac = ''h'', kw_enc_ver = 2\<rparr>"

definition sealed_post :: "int \<Rightarrow> new_message" where
  "sealed_post v = \<lparr>nm_id = ''m'', nm_room = team, nm_sender = ''alice'', nm_content = ''c'', nm_hash = [],
     nm_encrypted = True, nm_iv = Some ''i'', nm_hmac = Some ''h'', nm_enc_ver = 2, nm_key_version = v,
     nm_parent = None, nm_mentions = [], nm_media = []\<rparr>"

definition founded :: server_db where "founded = served (create_route ''alice'' team ''Team'' None 5 server0)"
definition keyed :: server_db where
  "keyed = served (store_route ''alice'' team (wrap_for ''alice'') 1 6 founded)"
definition asked :: server_db where "asked = served (invite_route ''alice'' team ''bob'' 7 keyed)"
definition wrapped :: server_db where
  "wrapped = served (store_route ''alice'' team (wrap_for ''bob'') 1 8 asked)"
definition joined :: server_db where "joined = snd (accept_route ''bob'' team 9 wrapped)"
definition kicked :: server_db where "kicked = served (kick_route [] ''alice'' team ''bob'' joined)"
definition rekeyed :: server_db where
  "rekeyed = served (rotate_route ''alice'' team 2 [wrap_for ''alice''] 10 kicked)"

definition history_keys :: learned where
  "history_keys = {(team, 1, ''alice''), (team, 1, ''bob''), (team, 2, ''alice'')}"

lemma served_Inr: "answered r \<Longrightarrow> \<exists>u. r = Inr (u, served r)"
  by (auto simp: answered_def served_def split: sum.splits)

lemma history_reached: "room_reach [] (rekeyed, history_keys)"
proof -
  have step: "room_reach [] (d', K')" if "room_reach [] (d, K)" "room_step [] (d, K) (d', K')" for d K d' K'
    using rr_step that by blast
  have gen: "generated_id team"
    unfolding generated_id_def team_def by (rule exI [of _ 1], rule exI [of _ "''x''"]) code_simp
  have s0: "room_reach [] (server0, {})"
    unfolding server0_def using rr_start [where blocked = "[]"] by (simp add: empty_server_def)
  have "answered (create_route ''alice'' team ''Team'' None 5 server0)" by code_simp
  from served_Inr [OF this] have s1: "room_reach [] (founded, {})"
    using step [OF s0 rt_create] gen by (auto simp: founded_def)
  have "answered (store_route ''alice'' team (wrap_for ''alice'') 1 6 founded)" by code_simp
  note a2 = served_Inr [OF this]
  have s2: "room_reach [] (keyed, {(team, 1, ''alice'')})"
  proof -
    have "is_member team ''alice'' founded \<and> current_version team founded = Some 1" by code_simp
    then show ?thesis using a2 step [OF s1 rt_store]
      by (force simp: keyed_def)
  qed
  have "answered (invite_route ''alice'' team ''bob'' 7 keyed)" by code_simp
  from served_Inr [OF this] have s3: "room_reach [] (asked, {(team, 1, ''alice'')})"
    using step [OF s2 rt_invite] by (auto simp: asked_def)
  have "answered (store_route ''alice'' team (wrap_for ''bob'') 1 8 asked)" by code_simp
  note a4 = served_Inr [OF this]
  have s4: "room_reach [] (wrapped, {(team, 1, ''alice'')})"
  proof -
    have "is_member team ''alice'' asked \<and> current_version team asked = Some 1" by code_simp
    then show ?thesis using a4 step [OF s3 rt_store]
      by (force simp: wrapped_def)
  qed
  have s5: "room_reach [] (joined, {(team, 1, ''alice'')})"
    unfolding joined_def by (rule step [OF s4 rt_accept [OF prod.collapse [symmetric]]])
  have s6: "room_reach [] (joined, {(team, 1, ''alice''), (team, 1, ''bob'')})"
  proof -
    have "versions_route ''bob'' team joined = Inr [\<lparr>rk_room = team, rk_wrap = wrap_for ''bob'',
        rk_version = 1, rk_created_at = 8\<rparr>]" "current_version team joined = Some 1" by code_simp+
    then show ?thesis using step [OF s5 rt_read] by (force simp: insert_commute)
  qed
  have "answered (kick_route [] ''alice'' team ''bob'' joined)" by code_simp
  from served_Inr [OF this] have s7: "room_reach [] (kicked, {(team, 1, ''alice''), (team, 1, ''bob'')})"
    using step [OF s6 rt_kick] by (auto simp: kicked_def)
  have "answered (rotate_route ''alice'' team 2 [wrap_for ''alice''] 10 kicked)" by code_simp
  from served_Inr [OF this] show ?thesis
    using step [OF s7 rt_rotate] by (force simp: rekeyed_def history_keys_def insert_commute)
qed

section \<open>Epochs\<close>

lemma check_epoch_Inr:
  "check_epoch room v d = Inr u \<longleftrightarrow> (\<exists>r. get_room room d = Some r \<and> \<not> rm_pending r \<and> v = rm_key_version r)"
  by (auto simp: check_epoch_def fetch_room_def split: option.splits)





section \<open>A rotation that overlaps a departure\<close>

lemma store_keys_total:
  "room_exists room d \<Longrightarrow> \<exists>d2. store_keys room ws n now d = Inr d2"
proof (induction ws arbitrary: d)
  case (Cons w ws)
  have "\<exists>d2. store_key room w n now d = Inr d2" using Cons.prems by (auto simp: store_key_def Let_def)
  then obtain d2 where d2: "store_key room w n now d = Inr d2" by blast
  then have "room_exists room d2" using Cons.prems by (simp add: room_exists_get store_key_views [OF d2])
  then show ?case using Cons.IH d2 by (simp add: try_bind_def)
qed simp

lemma rotate_commit_total:
  assumes "get_room room d = Some r"
  shows "\<exists>d2. store_keys room wraps (rm_key_version r + 1) now d = Inr d2
    \<and> rotate_commit room (rm_key_version r + 1) wraps now d = Inr ((), update_room room
        (\<lambda>s. s\<lparr>rm_key_version := rm_key_version r + 1, rm_pending := False\<rparr>) d2)"
proof -
  obtain d2 where d2: "store_keys room wraps (rm_key_version r + 1) now d = Inr d2"
    using store_keys_total assms by (metis room_exists_get)
  then show ?thesis by (simp add: rotate_commit_def rotate_def assms try_bind_def on_db_def)
qed

text \<open>The roster is read in one database call and the epoch moves in another.  When a member is
kicked between the two, nothing in the second call stops it: the member that was just removed gets a
wrap of the new epoch, the flag that the kick raised is cleared, and encrypted messages are accepted
under the new epoch at once.\<close>

theorem rotation_race:
  assumes "rotate_check caller room (rm_key_version r + 1) wraps d = Inr ()" "get_room room d = Some r"
    "kick_route ops admin room target d = Inr (u, d1)" "user_exists target d"
  shows "\<exists>d2. rotate_commit room (rm_key_version r + 1) wraps now d1 = Inr ((), d2)
    \<and> \<not> is_member room target d2 \<and> key_exists room target (rm_key_version r + 1) d2
    \<and> check_epoch room (rm_key_version r + 1) d2 = Inr ()"
proof -
  let ?v = "rm_key_version r + 1"
  have d1: "d1 = set_key_rotation_pending room True (remove_member room target (delete_user_keys room target
      (remove_admin room target d)))" and m: "is_member room target d"
    using assms(3) by (auto simp: kick_route_def require_admin_def require_channel_def
      fetch_room_def Let_def split: option.splits)
  have "target \<in> (mb_user \<circ> fst) ` set (list_members room d)"
    using m assms(4) by (force simp: list_members_def is_member_def user_exists_def)
  moreover have "(mb_user \<circ> fst) ` set (list_members room d) \<subseteq> kw_user ` set wraps"
    using assms(1) by (auto simp: rotate_check_def Let_def filter_empty_conv)
  ultimately have covered: "target \<in> kw_user ` set wraps" by blast
  have g1: "get_room room d1 = Some (r\<lparr>rm_pending := True\<rparr>)" by (simp add: d1 views assms(2))
  from rotate_commit_total [OF this, of wraps now] obtain d2 where d2: "store_keys room wraps ?v now d1 = Inr d2"
    and c: "rotate_commit room ?v wraps now d1 =
      Inr ((), update_room room (\<lambda>r. r\<lparr>rm_key_version := ?v, rm_pending := False\<rparr>) d2)" by auto
  show ?thesis unfolding c
    using covered by (auto simp: views store_keys_views [OF d2] check_epoch_Inr g1) (simp add: d1 views)
qed

theorem rotation_race_witness:
  "\<exists>d2. rotate_commit team 2 [wrap_for ''alice'', wrap_for ''bob''] 10 kicked = Inr ((), d2)
    \<and> \<not> is_member team ''bob'' d2 \<and> key_exists team ''bob'' 2 d2 \<and> check_epoch team 2 d2 = Inr ()"
proof -
  have "answered (kick_route [] ''alice'' team ''bob'' joined)" by code_simp
  from served_Inr [OF this] obtain u where k: "kick_route [] ''alice'' team ''bob'' joined = Inr (u, kicked)"
    by (auto simp: kicked_def)
  have c: "rotate_check ''alice'' team 2 [wrap_for ''alice'', wrap_for ''bob''] joined = Inr ()" by code_simp
  have "map_option rm_key_version (get_room team joined) = Some 1" "user_exists ''bob'' joined" by code_simp+
  then obtain r where r: "get_room team joined = Some r" "rm_key_version r = 1" "user_exists ''bob'' joined"
    by auto
  show ?thesis using rotation_race [of "''alice''" team r, OF _ r(1) k r(3)] c r(2) by simp
qed

section \<open>Direct messages\<close>

lemma seat_all_store: "seat_all room ms now d = Inr d' \<Longrightarrow> sv_store d' = sv_store d"
  by (induction ms arbitrary: d)
     (auto simp: try_bind_Inr_iff insert_member_def insert_admin_def split: if_splits)

lemma open_dm_users:
  assumes "open_dm caller room others now d = Inr (row, d')"
  shows "db_users (sv_store d') = db_users (sv_store d)"
  using assms
proof (cases rule: open_dm_cases)
  case 2
  then show ?thesis
    by (auto simp: create_dm_def Let_def try_bind_Inr_iff insert_room_def insert_serial_def
      split: if_splits dest!: seat_all_store)
qed simp

text \<open>A direct message is one room per set of people: once it was opened, opening it again, by any
of its members, in any order and with any spelling of the addresses, gives the same room and changes
nothing.\<close>

theorem dm_identity:
  assumes "open_dm caller room others now d = Inr (row, d')"
    "to_ascii_lowercase ` set (caller' # others') = to_ascii_lowercase ` set (caller # others)" "others' \<noteq> []"
    "\<forall>a \<in> set others'. \<not> is_reserved (WalletAddress a)" "\<forall>a \<in> set (caller' # others'). user_exists a d"
  shows "open_dm caller' room' others' now' d' = Inr (row, d')"
proof -
  let ?ms = "caller # others" and ?ms' = "caller' # others'"
  have key: "dm_key ?ms' = dm_key ?ms"
    using dm_parts_cong [OF assms(2)] by (simp add: dm_key_def dm_parts_def)
  have users: "user_exists a d' = user_exists a d" for a
    using open_dm_users [OF assms(1)] by (simp add: user_exists_def)
  have "find_dm (dm_key ?ms) d' = Some row"
    using assms(1)
  proof (cases rule: open_dm_cases)
    case 2
    note v = create_dm_new [OF 2(2) 2(1)]
    have "find P (xs @ [y]) = Some y" if "find P xs = None" "P y" for P xs and y :: room_row
      using that by (induction xs) (auto split: if_splits)
    then show ?thesis using 2(1) v(4,11) by (simp add: find_dm_def)
  qed simp
  then have "create_dm room' ?ms' now' d' = Inr (row, d')"
    using create_dm_found [of ?ms' d' row] key by simp
  moreover have "length (split_char (CHR ''|'') (dm_key ?ms)) \<le> MAX_ADMINS"
    using assms(1) by (simp add: open_dm_def Let_def)
  ultimately show ?thesis using assms(3-5) key users
    by (simp add: open_dm_def Let_def ensure_def on_db_def)
qed

theorem dm_identity_witness:
  "answered (open_dm ''alice'' team [''bob''] 5 server0)
    \<and> open_dm ''bob'' ''room_2_y'' [''alice'', ''bob''] 9 (served (open_dm ''alice'' team [''bob''] 5 server0))
      = open_dm ''alice'' team [''bob''] 5 server0"
proof -
  let ?first = "open_dm ''alice'' team [''bob''] 5 server0"
  have a: "answered ?first" by code_simp
  from served_Inr [OF this] obtain row where r: "?first = Inr (row, served ?first)" by blast
  have "to_ascii_lowercase ` set [''bob'', ''alice'', ''bob''] = to_ascii_lowercase ` set [''alice'', ''bob'']" by auto
  moreover have "(\<forall>a \<in> set [''alice'', ''bob'']. \<not> is_reserved (WalletAddress a))
      \<and> (\<forall>a \<in> set [''bob'', ''alice'', ''bob'']. user_exists a server0)" by code_simp
  ultimately have "open_dm ''bob'' ''room_2_y'' [''alice'', ''bob''] 9 (served ?first) = Inr (row, served ?first)"
    using dm_identity [OF r, of "''bob''" "[''alice'', ''bob'']"] by simp
  then show ?thesis using a r by simp
qed

section \<open>Invite links\<close>

text \<open>How many of a run of redemptions, at the given times, a link admits.\<close>

fun admitted :: "string \<Rightarrow> int list \<Rightarrow> server_db \<Rightarrow> nat" where
  "admitted hash [] d = 0"
| "admitted hash (t # ts) d =
     (case consume hash t d of
        (Consumed _, d') \<Rightarrow> Suc (admitted hash ts d')
      | (_, d') \<Rightarrow> admitted hash ts d')"

definition spent :: "invite_link \<Rightarrow> invite_link" where
  "spent l = l\<lparr>il_use_count := il_use_count l + 1\<rparr>"

definition linked :: server_db where
  "linked = served (create_link_route [] ''alice'' team ''l'' ''h'' (Some 1) (Some 2) (\<lambda>i. 5) founded)"

lemma consume_spec:
  assumes "find_by_hash hash d = Some l" "distinct (map il_hash (sv_links d))"
  shows "fst (consume hash t d) = (if spendable hash t l then Consumed (spent l)
       else case refusal_of l t of Some r \<Rightarrow> Refused r | None \<Rightarrow> Refused Expired)"
    "find_by_hash hash (snd (consume hash t d)) = Some (if spendable hash t l then spent l else l)"
    "distinct (map il_hash (sv_links (snd (consume hash t d))))"
proof -
  let ?f = "\<lambda>l. if spendable hash t l then spent l else l"
  have d': "snd (consume hash t d) = d\<lparr>sv_links := map ?f (sv_links d)\<rparr>"
    by (simp add: consume_def Let_def spent_def)
  have f: "il_hash (?f l) = il_hash l" for l by (simp add: spent_def)
  have "find (\<lambda>l. il_hash l = hash) (map ?f ls) = map_option ?f (find (\<lambda>l. il_hash l = hash) ls)" for ls
    by (induction ls) (auto simp: f)
  then show found: "find_by_hash hash (snd (consume hash t d)) = Some (?f l)"
    using assms(1) by (simp add: find_by_hash_def d')
  show "distinct (map il_hash (sv_links (snd (consume hash t d))))"
    using assms(2) by (simp add: d' o_def f)
  have l: "l \<in> set (sv_links d)" "il_hash l = hash"
    using assms(1) by (auto simp: find_by_hash_def find_Some_iff)
  have "(\<exists>l' \<in> set (sv_links d). spendable hash t l') \<longleftrightarrow> spendable hash t l"
    using l assms(2) by (auto simp: spendable_def distinct_map inj_on_def)
  moreover have "find_by_hash hash (d\<lparr>sv_links := map (\<lambda>l. if spendable hash t l
      then l\<lparr>il_use_count := il_use_count l + 1\<rparr> else l) (sv_links d)\<rparr>) = Some (?f l)"
    using found unfolding d' spent_def .
  ultimately show "fst (consume hash t d) = (if spendable hash t l then Consumed (spent l)
       else case refusal_of l t of Some r \<Rightarrow> Refused r | None \<Rightarrow> Refused Expired)"
    by (simp add: consume_def Let_def)
qed

text \<open>C24. A link with a use limit admits exactly as many of any run of redemptions as fall before its
expiry, up to the uses that it has left, and none once it is revoked: the conditional update spends a
use and admits the redeemer in one statement, so two redemptions never share the last use.\<close>

theorem link_budget:
  assumes "find_by_hash hash d = Some l" "distinct (map il_hash (sv_links d))" "il_max_uses l = Some n"
  shows "admitted hash ts d =
    (if il_revoked_at l = None then min (nat (n - il_use_count l)) (length [t \<leftarrow> ts. t < il_expires_at l]) else 0)"
  using assms
proof (induction ts arbitrary: d l)
  case (Cons t ts)
  note c = consume_spec [OF Cons.prems(1,2), of t]
  let ?rest = "admitted hash ts (snd (consume hash t d))"
  have step: "admitted hash (t # ts) d = (if spendable hash t l then Suc ?rest else ?rest)"
    using c(1) by (cases "consume hash t d") (auto split: option.splits)
  have here: "il_hash l = hash" using Cons.prems(1) by (auto simp: find_by_hash_def find_Some_iff)
  show ?case
  proof (cases "spendable hash t l")
    case True
    have "?rest = min (nat (n - (il_use_count l + 1))) (length [t \<leftarrow> ts. t < il_expires_at l])"
      using Cons.IH [OF c(2) c(3)] Cons.prems(3) True by (simp add: spent_def spendable_def)
    moreover have "nat (n - il_use_count l) = Suc (nat (n - (il_use_count l + 1)))"
      "t < il_expires_at l" "il_revoked_at l = None"
      using True Cons.prems(3) by (auto simp: spendable_def)
    ultimately show ?thesis unfolding step using True by simp
  next
    case False
    then show ?thesis using Cons.IH [OF c(2) c(3)] Cons.prems(3) unfolding step
      by (auto simp: spendable_def here)
  qed
qed simp


theorem link_budget_witness:
  "\<exists>l. find_by_hash ''h'' linked = Some l \<and> admitted ''h'' [8, 9, 10, il_expires_at l] linked = 2
     \<and> admitted ''h'' [il_expires_at l, 8] linked = 1"
proof -
  have "map_option (\<lambda>l. (il_max_uses l, il_expires_at l, il_use_count l, il_revoked_at l)) (find_by_hash ''h'' linked)
      = Some (Some 2, 3600005, 0, None) \<and> distinct (map il_hash (sv_links linked))" by code_simp
  then obtain l where l: "find_by_hash ''h'' linked = Some l" "distinct (map il_hash (sv_links linked))"
    "il_max_uses l = Some 2" "il_expires_at l = 3600005" "il_use_count l = 0" "il_revoked_at l = None" by auto
  show ?thesis
    using link_budget [OF l(1-3), of "[8, 9, 10, 3600005]"] link_budget [OF l(1-3), of "[3600005, 8]"] l
    by (simp del: admitted.simps)
qed

section \<open>Invitations that outlive a membership\<close>

text \<open>A pending invitation is not spent when its invitee joins by an invite link, and a kick does
not withdraw it: bob, invited and then admitted by a link, is kicked, accepts the old invitation and is a
member of the room again without anyone's leave.\<close>

theorem kicked_member_reenters:
  "let hash = (\<lambda>t. ''h''); token = ''inv_'' @ replicate 64 (CHR ''0'');
       invited = served (invite_route ''alice'' team ''bob'' 6 linked);
       entered = snd (redeem_route hash ''bob'' token (\<lambda>i. 8) invited);
       out = served (kick_route [] ''alice'' team ''bob'' entered);
       back = snd (accept_route ''bob'' team 9 out)
   in is_member team ''bob'' entered \<and> \<not> is_member team ''bob'' out \<and> is_member team ''bob'' back
      \<and> sv_invitations entered = sv_invitations invited"
  by code_simp

section \<open>Re-keying a room\<close>

definition roster_of :: "string \<Rightarrow> server_db \<Rightarrow> string list" where
  "roster_of room d = map (mb_user \<circ> fst) (list_members room d)"



end
