(* ===== verification/Message_Access.thy ===== *)
theory Message_Access imports Message_Routes Room_Properties begin

text \<open>What the message routes promise as a whole: an accepted write is one step of the message store, a
room's messages change only at the hands of its members, and ciphertext is edited in only under an epoch
that is sealed to the roster.\<close>

section \<open>A write\<close>

text \<open>A request that a message route accepts.  The label is the id of the message it is aimed at.\<close>

inductive message_write :: "string list \<Rightarrow> string \<Rightarrow> string option \<Rightarrow> server_db \<Rightarrow> server_db \<Rightarrow> bool"
  for ops caller where
  mw_send: "send_handler alnum iso_ms clk new_id caller raw body d = Inr (m, d') \<Longrightarrow> \<forall>i. 0 < clk i
    \<Longrightarrow> message_write ops caller None d d'"
| mw_edit: "edit_route alnum iso_ms clk caller raw body d = Inr (m, d') \<Longrightarrow> \<forall>i. 0 < clk i
    \<Longrightarrow> validate_message_id raw = Inr mid \<Longrightarrow> message_write ops caller (Some mid) d d'"
| mw_remove: "remove_route iso_ms clk caller raw d = Inr (n, d') \<Longrightarrow> \<forall>i. 0 < clk i
    \<Longrightarrow> validate_message_id raw = Inr mid \<Longrightarrow> message_write ops caller (Some mid) d d'"
| mw_publish: "publish_route server_wallet iso_ms clk caller raw tx to_addr d = Inr (m, d') \<Longrightarrow> \<forall>i. 0 < clk i
    \<Longrightarrow> validate_message_id raw = Inr mid \<Longrightarrow> message_write ops caller (Some mid) d d'"
| mw_react: "react_route iso_ms sha clk event_id caller raw code add d = Inr (m, d') \<Longrightarrow> \<forall>i. 0 < clk i
    \<Longrightarrow> message_write ops caller None d d'"
| mw_purge: "purge_route ops iso_ms clk marker caller raw d = Inr (n, d') \<Longrightarrow> \<forall>i. 0 < clk i
    \<Longrightarrow> message_write ops caller None d d'"
| mw_read: "mark_read_route now caller raw serial d = Inr (n, d') \<Longrightarrow> message_write ops caller None d d'"

section \<open>What an accepted request did\<close>

lemma get_message_row:
  assumes "get_message iso_ms now mid st = Some m"
  obtains x where "x \<in> set (db_messages st)" "mr_id x = mid" "\<not> mr_deleted x" "m = from_joined_row iso_ms now st x"
  using assms by (auto simp: get_message_def read_message_def find_Some_iff in_set_conv_nth)

lemma send_handler_created:
  assumes "send_handler alnum iso_ms clk new_id caller raw body d = Inr (m, d')"
  shows "\<exists>new. send_route iso_ms clk new d = Inr (m, d') \<and> nm_sender new = caller
    \<and> is_member (nm_room new) caller d"
  using assms
  apply (clarsimp simp: send_handler_def require_member_def try_bind_Inr_iff Let_def)
  apply (rule exI, intro conjI, assumption)
   apply simp_all
  done

lemma send_route_created:
  assumes "send_route iso_ms clk new d = Inr (m, d')"
  obtains p store where "create_message iso_ms clk (new\<lparr>nm_parent := p\<rparr>) (sv_store d) = Inr (m, store)"
    "d' = d\<lparr>sv_store := store\<rparr>"
  using assms by (auto simp: send_route_def require_member_def try_bind_Inr_iff)

lemma edit_route_updated:
  assumes "edit_route alnum iso_ms clk caller raw body d = Inr (m, d')" "validate_message_id raw = Inr mid"
  obtains x r e ms md store where "x \<in> set (db_messages (sv_store d))" "mr_id x = mid" "\<not> mr_deleted x"
    "mr_sender x = caller" "is_member (mr_room x) caller d"
    "room_id_new (mr_room x) = Inr r"
    "update_message iso_ms (\<lambda>n. clk (n + 1)) mid (mr_room x) e ms md (sv_store d) = Inr (Some m, store)"
    "d' = d\<lparr>sv_store := store\<rparr>"
    "mr_encrypted x \<longrightarrow> me_iv e \<noteq> None \<and> me_hmac e \<noteq> None"
    "me_iv e \<noteq> None \<and> me_hmac e \<noteq> None \<longrightarrow> check_epoch (room_str r) (me_key_version e) d = Inr ()"
proof -
  have "\<exists>old r e ms md store. update_message iso_ms (\<lambda>n. clk (n + 1)) mid (sm_room old) e ms md (sv_store d)
        = Inr (Some m, store)
      \<and> d' = d\<lparr>sv_store := store\<rparr> \<and> get_message iso_ms (clk 0) mid (sv_store d) = Some old
      \<and> room_id_new (sm_room old) = Inr r \<and> is_member (sm_room old) caller d \<and> sm_sender_address old = caller
      \<and> (sm_encrypted old \<longrightarrow> me_iv e \<noteq> None \<and> me_hmac e \<noteq> None)
      \<and> (me_iv e \<noteq> None \<and> me_hmac e \<noteq> None \<longrightarrow> check_epoch (room_str r) (me_key_version e) d = Inr ())"
    using assms
    apply (clarsimp simp: edit_route_def try_bind_Inr_iff Let_def)
    apply (rule exI, rule exI, rule exI, rule exI, rule conjI, assumption)
    apply (auto split: if_splits)
    done
  then obtain old r e ms md store where
    u: "update_message iso_ms (\<lambda>n. clk (n + 1)) mid (sm_room old) e ms md (sv_store d) = Inr (Some m, store)"
      "d' = d\<lparr>sv_store := store\<rparr>"
    and g: "get_message iso_ms (clk 0) mid (sv_store d) = Some old" "room_id_new (sm_room old) = Inr r"
      "is_member (sm_room old) caller d" "sm_sender_address old = caller"
      "sm_encrypted old \<longrightarrow> me_iv e \<noteq> None \<and> me_hmac e \<noteq> None"
      "me_iv e \<noteq> None \<and> me_hmac e \<noteq> None \<longrightarrow> check_epoch (room_str r) (me_key_version e) d = Inr ()"
    by blast
  obtain x where x: "x \<in> set (db_messages (sv_store d))" "mr_id x = mid" "\<not> mr_deleted x"
      "old = from_joined_row iso_ms (clk 0) (sv_store d) x" by (rule get_message_row [OF g(1)])
  note f = g [unfolded x(4) from_joined_fields]
  show ?thesis
    by (rule that [OF x(1-3) f(4) f(3) f(2) u(1) [unfolded x(4) from_joined_fields] u(2) f(5,6)])
qed

lemma remove_route_deleted:
  assumes "remove_route iso_ms clk caller raw d = Inr (n, d')" "validate_message_id raw = Inr mid"
  obtains x store where "x \<in> set (db_messages (sv_store d))" "mr_id x = mid" "\<not> mr_deleted x"
    "is_member (mr_room x) caller d" "d' = d\<lparr>sv_store := store\<rparr>"
    "soft_delete_message (\<lambda>n. clk (n + 1)) mid (mr_room x) (sv_store d) = Inr (True, store)"
proof -
  obtain old store where
    u: "soft_delete_message (\<lambda>n. clk (n + 1)) mid (sm_room old) (sv_store d) = Inr (True, store)"
      "d' = d\<lparr>sv_store := store\<rparr>"
    and g: "get_message iso_ms (clk 0) mid (sv_store d) = Some old" "is_member (sm_room old) caller d"
    using assms by (auto simp: remove_route_def try_bind_Inr_iff)
  obtain x where x: "x \<in> set (db_messages (sv_store d))" "mr_id x = mid" "\<not> mr_deleted x"
      "old = from_joined_row iso_ms (clk 0) (sv_store d) x" by (rule get_message_row [OF g(1)])
  show ?thesis by (rule that [OF x(1-3) _ u(2)]) (use u(1) g(2) x(4) in auto)
qed

lemma publish_route_published:
  assumes "publish_route wallet iso_ms clk caller raw tx to_addr d = Inr (m, d')" "validate_message_id raw = Inr mid"
  obtains x h store where "x \<in> set (db_messages (sv_store d))" "mr_id x = mid" "\<not> mr_deleted x"
    "mr_sender x = caller" "d' = d\<lparr>sv_store := store\<rparr>"
    "publish_tx_hash iso_ms (\<lambda>n. clk (n + 1)) mid (mr_room x) h (sv_store d) = Inr (Some m, store)"
proof -
  have "\<exists>old h store. publish_tx_hash iso_ms (\<lambda>n. clk (n + 1)) mid (sm_room old) h (sv_store d) = Inr (Some m, store)
      \<and> d' = d\<lparr>sv_store := store\<rparr> \<and> get_message iso_ms (clk 0) mid (sv_store d) = Some old
      \<and> sm_sender_address old = caller"
    using assms by (force simp: publish_route_def try_bind_Inr_iff split: if_splits)
  then obtain old h store where
    u: "publish_tx_hash iso_ms (\<lambda>n. clk (n + 1)) mid (sm_room old) h (sv_store d) = Inr (Some m, store)"
      "d' = d\<lparr>sv_store := store\<rparr>"
    and g: "get_message iso_ms (clk 0) mid (sv_store d) = Some old" "sm_sender_address old = caller"
    by blast
  obtain x where x: "x \<in> set (db_messages (sv_store d))" "mr_id x = mid" "\<not> mr_deleted x"
      "old = from_joined_row iso_ms (clk 0) (sv_store d) x" by (rule get_message_row [OF g(1)])
  show ?thesis by (rule that [OF x(1-3) _ u(2)]) (use u(1) g(2) x(4) in auto)
qed

lemma room_id_new_trim: "room_id_new s = Inr r \<Longrightarrow> room_str r = trim s"
  by (cases r) (auto simp: room_id_new_def opaque_new_def Let_def split: if_splits)

lemma react_route_reacted:
  assumes "react_route iso_ms sha clk event_id caller raw code add d = Inr (m, d')"
  obtains x c event store where "x \<in> set (db_messages (sv_store d))" "is_member (mr_room x) caller d"
    "d' = d\<lparr>sv_store := store\<rparr>"
    "create_emoticon_event iso_ms sha (\<lambda>n. clk (n + 1)) event_id (trim (mr_room x)) caller (mr_id x) c add
       (sv_store d) = Inr (event, store)"
proof -
  obtain mid old r c event store where
    u: "create_emoticon_event iso_ms sha (\<lambda>n. clk (n + 1)) event_id (room_str r) caller (sm_id old) c add
         (sv_store d) = Inr (event, store)" "d' = d\<lparr>sv_store := store\<rparr>"
    and g: "get_message iso_ms (clk 0) mid (sv_store d) = Some old" "is_member (sm_room old) caller d"
      "room_id_new (sm_room old) = Inr r"
    using assms by (auto simp: react_route_def target_room_def try_bind_Inr_iff)
  obtain x where x: "x \<in> set (db_messages (sv_store d))" "mr_id x = mid" "\<not> mr_deleted x"
      "old = from_joined_row iso_ms (clk 0) (sv_store d) x" by (rule get_message_row [OF g(1)])
  show ?thesis
    by (rule that [OF x(1) _ u(2)]) (use u(1) g(2,3) x(2,4) in \<open>auto simp: room_id_new_trim\<close>)
qed

lemma purge_route_purged:
  assumes "purge_route ops iso_ms clk marker caller raw d = Inr (n, d')"
  obtains room k store where "is_server_admin ops caller \<or> is_admin room caller d" "d' = d\<lparr>sv_store := store\<rparr>"
    "delete_all_messages iso_ms clk room caller marker (sv_store d) = Inr (n, k, store)"
proof -
  have "\<exists>room store k. delete_all_messages iso_ms clk room caller marker (sv_store d) = Inr (n, k, store)
      \<and> d' = d\<lparr>sv_store := store\<rparr> \<and> (is_server_admin ops caller \<or> is_admin room caller d)"
    using assms
    apply (clarsimp simp: purge_route_def require_admin_def require_static_owner_def fetch_room_def
      try_bind_Inr_iff split: option.splits)
    apply (rule exI, rule exI, rule conjI, rule exI, assumption)
    apply auto
    done
  then show ?thesis using that by blast
qed

lemma mark_read_marked:
  assumes "mark_read_route now caller raw serial d = Inr (n, d')"
  obtains room s store where "is_member room caller d" "d' = d\<lparr>sv_store := store\<rparr>"
    "mark_read room caller s now (sv_store d) = Inr (n, store)"
  using assms by (auto simp: mark_read_route_def member_room_def require_member_def try_bind_Inr_iff)

section \<open>The routes and the store\<close>

text \<open>Every room id in the tables was made by the server and carries no white space.\<close>

definition rooms_trimmed :: "server_db \<Rightarrow> bool" where
  "rooms_trimmed d \<longleftrightarrow> list_all (\<lambda>r. trim r = r) (db_rooms (sv_store d))"


definition lab :: server_db where
  "lab = served (create_route ''alice'' ''room_10_abc'' ''Lab'' None 5 server0)"

definition text_body :: "string \<Rightarrow> message_body" where
  "text_body t = \<lparr>bd_content = Some t, bd_msg_hash = Some (replicate 64 (CHR ''a'')), bd_is_encrypted = None,
     bd_iv = None, bd_hmac = None, bd_enc_ver = None, bd_key_version = None, bd_parent = None,
     bd_mentions = None, bd_media = None\<rparr>"

definition post :: "string \<Rightarrow> message_body \<Rightarrow> server_db \<Rightarrow> api_error + (message \<times> server_db)" where
  "post mid = send_handler (\<lambda>_. False) (\<lambda>_. []) (\<lambda>i. 7) mid ''alice'' ''room_10_abc''"

definition posted :: server_db where "posted = served (post ''msg_1_aaaaaa'' (text_body ''hi'') lab)"

lemma posted_write: "message_write [] ''alice'' None lab posted"
proof -
  have "answered (post ''msg_1_aaaaaa'' (text_body ''hi'') lab)" by code_simp
  from served_Inr [OF this] obtain m where "post ''msg_1_aaaaaa'' (text_body ''hi'') lab = Inr (m, posted)"
    unfolding posted_def by blast
  then show ?thesis unfolding post_def by (rule mw_send) simp
qed

lemma lab_ok: "store_ok (sv_store lab)"
proof -
  have "db_messages (sv_store lab) = [] \<and> db_serials (sv_store lab) = [''room_10_abc'' \<mapsto> 5]"
    by (simp add: lab_def served_def create_route_def create_room_def server0_def empty_server_def
      insert_room_def insert_serial_def insert_member_def insert_admin_def room_exists_def is_member_def is_admin_def
      try_bind_def on_db_def Let_def)
  then show ?thesis by (simp add: store_ok_def)
qed


section \<open>Who changes a room\<close>

text \<open>A row without its anchor and serial.\<close>

definition unanchored :: "message_row \<Rightarrow> message_row" where
  "unanchored m = m\<lparr>mr_tx_hash := None, mr_serial := 0\<rparr>"

definition room_rows :: "string \<Rightarrow> db \<Rightarrow> message_row list" where
  "room_rows x d = map unanchored [m \<leftarrow> db_messages d. mr_room m = x]"

lemma room_rows_added: "row_added m d d' \<Longrightarrow> mr_room m \<noteq> x \<Longrightarrow> room_rows x d' = room_rows x d"
  by (simp add: row_added_def room_rows_def)

lemma filter_map_other:
  assumes "\<And>y. y \<in> set ms \<Longrightarrow> P (g y) = P y" "\<And>y. y \<in> set ms \<Longrightarrow> P y \<Longrightarrow> u (g y) = u y"
  shows "map u (filter P (map g ms)) = map u (filter P ms)"
  using assms by (induction ms) auto

lemma room_rows_changed:
  assumes "row_changed f m d d'" "distinct (map mr_id (db_messages d))" "mr_room (f m) = mr_room m"
    "mr_room m \<noteq> x \<or> unanchored (f m) = unanchored m"
  shows "room_rows x d' = room_rows x d"
proof -
  have m: "m \<in> set (db_messages d)" "db_messages d' = map (\<lambda>y. if mr_id y = mr_id m then f y else y) (db_messages d)"
    using assms(1) by (auto simp: row_changed_def)
  let ?g = "\<lambda>y. if mr_id y = mr_id m then f y else y"
  have g: "?g y = (if y = m then f m else y)" if "y \<in> set (db_messages d)" for y
    using row_of_id [OF assms(2) that m(1)] by auto
  show ?thesis unfolding room_rows_def m(2)
    by (rule filter_map_other) (use assms(3,4) in \<open>auto simp only: g split: if_splits\<close>)
qed

lemma room_rows_purged: "room_purged k d d' \<Longrightarrow> mr_room k \<noteq> x \<Longrightarrow> room_rows x d' = room_rows x d"
  by (auto simp: room_purged_def room_rows_def intro!: arg_cong [where f = "map unanchored"] filter_cong)

text \<open>What each route does to the rows of a room.\<close>

lemma send_rows:
  assumes "send_handler alnum iso_ms clk new_id caller raw body d = Inr (m, d')" "\<not> is_member x caller d"
  shows "room_rows x (sv_store d') = room_rows x (sv_store d)"
proof -
  obtain new where n: "send_route iso_ms clk new d = Inr (m, d')" "is_member (nm_room new) caller d"
    using send_handler_created [OF assms(1)] by blast
  then obtain p store where c: "create_message iso_ms clk (new\<lparr>nm_parent := p\<rparr>) (sv_store d) = Inr (m, store)"
      "d' = d\<lparr>sv_store := store\<rparr>" using send_route_created by blast
  obtain s where "row_added (created_row (clk 0) s (new\<lparr>nm_parent := p\<rparr>)) (sv_store d) store"
    by (rule create_message_added [OF c(1)])
  from room_rows_added [OF this, of x] show ?thesis using n(2) assms(2) c(2) by (auto simp: created_row_def)
qed

lemma edit_rows:
  assumes "edit_route alnum iso_ms clk caller raw body d = Inr (m, d')" "validate_message_id raw = Inr mid"
    and dist: "distinct (map mr_id (db_messages (sv_store d)))" and "\<not> is_member x caller d"
  shows "room_rows x (sv_store d') = room_rows x (sv_store d)"
proof (rule edit_route_updated [OF assms(1,2)])
  fix y r e ms md store
  assume y: "y \<in> set (db_messages (sv_store d))" "mr_id y = mid" "d' = d\<lparr>sv_store := store\<rparr>"
    "update_message iso_ms (\<lambda>n. clk (n + 1)) mid (mr_room y) e ms md (sv_store d) = Inr (Some m, store)"
    "is_member (mr_room y) caller d"
  show ?thesis
  proof (rule update_message_changed [OF y(4) dist])
    fix s z d4 assume z: "z \<in> set (db_messages (sv_store d))" "mr_id z = mid"
      "mr_room z = mr_room y \<Longrightarrow> row_changed (edited_row (clk (0 + 1)) s e) z (sv_store d) store"
    have "z = y" using row_of_id [OF dist z(1) y(1)] z(2) y(2) by simp
    with room_rows_changed [OF z(3) dist, of x] y(3,5) assms(4) show ?thesis
      by (auto simp: edited_row_def Let_def)
  qed (use y in auto)
qed

lemma remove_rows:
  assumes "remove_route iso_ms clk caller raw d = Inr (n, d')" "validate_message_id raw = Inr mid"
    and dist: "distinct (map mr_id (db_messages (sv_store d)))" and "\<not> is_member x caller d"
  shows "room_rows x (sv_store d') = room_rows x (sv_store d)"
proof (rule remove_route_deleted [OF assms(1,2)])
  fix y store assume y: "d' = d\<lparr>sv_store := store\<rparr>" "is_member (mr_room y) caller d"
    "soft_delete_message (\<lambda>n. clk (n + 1)) mid (mr_room y) (sv_store d) = Inr (True, store)"
  show ?thesis
  proof (rule soft_delete_changed [OF y(3) dist])
    fix s z assume z: "mr_room z = mr_room y" "row_changed (tombstone s) z (sv_store d) store"
    with room_rows_changed [OF z(2) dist, of x] y(1,2) assms(4) show ?thesis
      by (auto simp: tombstone_def)
  qed simp
qed

lemma publish_rows:
  assumes "publish_route wallet iso_ms clk caller raw tx to_addr d = Inr (m, d')" "validate_message_id raw = Inr mid"
    and dist: "distinct (map mr_id (db_messages (sv_store d)))"
  shows "room_rows x (sv_store d') = room_rows x (sv_store d)"
proof (rule publish_route_published [OF assms(1,2)])
  fix y h store
  assume y: "y \<in> set (db_messages (sv_store d))" "mr_id y = mid" "d' = d\<lparr>sv_store := store\<rparr>"
    "publish_tx_hash iso_ms (\<lambda>n. clk (n + 1)) mid (mr_room y) h (sv_store d) = Inr (Some m, store)"
  show ?thesis
  proof (rule publish_changed [OF y(4) dist])
    fix s z assume z: "z \<in> set (db_messages (sv_store d))" "mr_id z = mid"
      "mr_room z = mr_room y \<Longrightarrow>
         row_changed (\<lambda>m. m\<lparr>mr_tx_hash := Some h, mr_serial := s\<rparr>) z (sv_store d) store"
    have "z = y" using row_of_id [OF dist z(1) y(1)] z(2) y(2) by simp
    with room_rows_changed [OF z(3) dist, of x] y(3) show ?thesis by (auto simp: unanchored_def)
  qed (use y in auto)
qed

lemma react_rows:
  assumes "react_route iso_ms sha clk event_id caller raw code add d = Inr (m, d')" "\<not> is_member x caller d"
    and trimmed: "rooms_trimmed d" "\<forall>m \<in> set (db_messages (sv_store d)). mr_room m \<in> set (db_rooms (sv_store d))"
  shows "room_rows x (sv_store d') = room_rows x (sv_store d)"
proof (rule react_route_reacted [OF assms(1)])
  fix y c event store
  assume y: "y \<in> set (db_messages (sv_store d))" "is_member (mr_room y) caller d" "d' = d\<lparr>sv_store := store\<rparr>"
    "create_emoticon_event iso_ms sha (\<lambda>n. clk (n + 1)) event_id (trim (mr_room y)) caller (mr_id y) c add
     (sv_store d) = Inr (event, store)"
  have t: "trim (mr_room y) = mr_room y" using trimmed y(1) by (simp add: rooms_trimmed_def list_all_iff)
  show ?thesis
  proof (rule create_emoticon_added [OF y(4)])
    fix s assume "row_added (emoticon_row sha (clk (0 + 1)) s event_id (trim (mr_room y)) caller (mr_id y) c add)
      (sv_store d) store"
    from room_rows_added [OF this, of x] show ?thesis using y(2,3) t assms(2) by (auto simp: emoticon_row_def)
  qed
qed

lemma purge_rows:
  assumes "purge_route ops iso_ms clk marker caller raw d = Inr (n, d')"
    "\<not> is_admin x caller d" "\<not> is_server_admin ops caller"
  shows "room_rows x (sv_store d') = room_rows x (sv_store d)"
proof (rule purge_route_purged [OF assms(1)])
  fix room k store assume p: "is_server_admin ops caller \<or> is_admin room caller d" "d' = d\<lparr>sv_store := store\<rparr>"
    "delete_all_messages iso_ms clk room caller marker (sv_store d) = Inr (n, k, store)"
  show ?thesis
  proof (rule delete_all_purged [OF p(3)])
    fix s assume "room_purged (marker_row (clk 0) s marker room caller) (sv_store d) store"
    from room_rows_purged [OF this, of x] show ?thesis using p(1,2) assms(2,3) by (auto simp: marker_row_def)
  qed
qed

lemma mark_read_rows:
  assumes "mark_read_route now caller raw serial d = Inr (n, d')"
  shows "room_rows x (sv_store d') = room_rows x (sv_store d)"
proof (rule mark_read_marked [OF assms])
  fix room s store assume "d' = d\<lparr>sv_store := store\<rparr>" "mark_read room caller s now (sv_store d) = Inr (n, store)"
  then show ?thesis by (auto simp: mark_read_def Let_def room_rows_def split: if_splits)
qed


text \<open>alice posts to her lab; nothing that mallory, who is not in it, gets accepted changes its rows.\<close>

definition annex :: server_db where
  "annex = served (create_route ''mallory'' ''room_20_def'' ''Annex'' None 8 posted)"

definition noted :: server_db where
  "noted = served (send_handler (\<lambda>_. False) (\<lambda>_. []) (\<lambda>i. 9) ''msg_2_bbbbbb'' ''mallory'' ''room_20_def''
     (text_body ''mine'') annex)"


definition anchor_wallet :: string where "anchor_wallet = ''0x'' @ replicate 40 (CHR ''a'')"

definition evicted_author :: server_db where
  "evicted_author =
     (let d = snd (accept_route ''bob'' ''room_10_abc'' 6
                (served (invite_route ''alice'' ''room_10_abc'' ''bob'' 6 lab)));
          d = served (send_handler (\<lambda>_. False) (\<lambda>_. []) (\<lambda>i. 7) ''msg_1_aaaaaa'' ''bob'' ''room_10_abc''
                (text_body ''hi'') d)
      in served (kick_route [] ''alice'' ''room_10_abc'' ''bob'' d))"

text \<open>A member who was kicked out can still write: publishing an anchor asks who sent the message and
not who is in the room, so bob's anchor, and a new serial with it, reach the room that he was removed
from.\<close>

theorem kicked_author_publishes:
  "let out = publish_route anchor_wallet (\<lambda>_. []) (\<lambda>i. 9) ''bob'' ''msg_1_aaaaaa''
        (Some (''0x'' @ replicate 64 (CHR ''0''))) (Some anchor_wallet) evicted_author
   in \<not> is_member ''room_10_abc'' ''bob'' evicted_author \<and> answered out
      \<and> map mr_serial (db_messages (sv_store evicted_author)) = [7]
      \<and> map mr_serial (db_messages (sv_store (served out))) = [9]
      \<and> \<not> answered (edit_route (\<lambda>_. False) (\<lambda>_. []) (\<lambda>i. 9) ''bob'' ''msg_1_aaaaaa'' (text_body ''ho'') evicted_author)"
  by code_simp

section \<open>Edited ciphertext\<close>

lemma update_message_row:
  assumes "update_message iso_ms clk mid room e ms md d = Inr (Some m, d')"
    "distinct (map mr_id (db_messages d))"
  shows "(sm_encrypted m \<longleftrightarrow> me_iv e \<noteq> None \<and> me_hmac e \<noteq> None)
    \<and> (sm_encrypted m \<longrightarrow> sm_key_version m = me_key_version e)
    \<and> (\<forall>x \<in> set (db_messages d). mr_id x = mid \<longrightarrow> sm_room m = mr_room x)"
proof -
  obtain s d1 where s: "next_serial room (clk 1) d = Inr (s, d1)"
    using assms(1) by (auto simp: update_message_def try_bind_Inr_iff)
  have same: "db_messages d1 = db_messages d" using next_serial_Inr(5) [OF s] by simp
  let ?f = "edited_row (clk 0) s e" and ?P = "\<lambda>m. mr_id m = mid \<and> \<not> mr_deleted m"
  obtain changed d2 where up: "update_rows ?P ?f d1 = (changed, d2)" by fastforce
  have c: "changed \<noteq> 0" and r: "read_message iso_ms (clk 2) mid True d2 = Some m"
    using assms(1) s up by (auto simp: update_message_def Let_def split: option.splits if_splits)
  have dist: "distinct (map mr_id (db_messages d1))" using assms(2) same by simp
  obtain y where y: "y \<in> set (db_messages d1)" "mr_id y = mid"
      "d2 = d1\<lparr>db_messages := map (\<lambda>x. if mr_id x = mid then ?f x else x) (db_messages d1)\<rparr>"
    by (rule update_rows_row [OF dist up c])
  obtain z where z: "z \<in> set (db_messages d2)" "mr_id z = mid" "m = from_joined_row iso_ms (clk 2) d2 z"
    using r by (auto simp: read_message_def find_Some_iff in_set_conv_nth)
  have "z = ?f y"
  proof -
    obtain w where w: "w \<in> set (db_messages d1)" "z = (if mr_id w = mid then ?f w else w)"
      using z(1) y(3) by auto
    have "mr_id w = mid" using w(2) z(2) by (auto split: if_splits)
    then show ?thesis using row_of_id [OF dist w(1) y(1)] y(2) w(2) by simp
  qed
  moreover have "sm_room m = mr_room x" if "x \<in> set (db_messages d)" "mr_id x = mid" for x
    using row_of_id [OF dist _ y(1), of x] that y(2) same z(3) \<open>z = ?f y\<close> by (simp add: edited_row_def Let_def)
  ultimately show ?thesis using z(3)
    by (auto simp: edited_row_def Let_def from_joined_row_def from_row_def)
qed


definition sealed_body :: "int \<Rightarrow> message_body" where
  "sealed_body v = (text_body ''c2VhbGVk'')\<lparr>bd_is_encrypted := Some True, bd_iv := Some (replicate 32 (CHR ''b'')),
     bd_hmac := Some (replicate 64 (CHR ''c'')), bd_enc_ver := Some 2, bd_key_version := Some v\<rparr>"

definition keyed_lab :: server_db where
  "keyed_lab = served (store_route ''alice'' ''room_10_abc'' (wrap_for ''alice'') 1 6 lab)"

definition sealed_lab :: server_db where
  "sealed_lab = served (post ''msg_1_aaaaaa'' (sealed_body 1) keyed_lab)"

definition edited :: "message_body \<Rightarrow> api_error + (message \<times> server_db)" where
  "edited body = edit_route (\<lambda>_. False) (\<lambda>_. []) (\<lambda>i. 9) ''alice'' ''msg_1_aaaaaa'' body sealed_lab"

lemma sealed_lab_reached: "room_reach [] (sealed_lab, {(''room_10_abc'', 1, ''alice'')})"
proof -
  have step: "room_reach [] (d', K')" if "room_reach [] (d, K)" "room_step [] (d, K) (d', K')" for d K d' K'
    using rr_step that by blast
  have gen: "generated_id ''room_10_abc''"
    unfolding generated_id_def by (rule exI [of _ 10], rule exI [of _ "''abc''"]) code_simp
  have s0: "room_reach [] (server0, {})"
    unfolding server0_def using rr_start [where blocked = "[]"] by (simp add: empty_server_def)
  have "answered (create_route ''alice'' ''room_10_abc'' ''Lab'' None 5 server0)" by code_simp
  from served_Inr [OF this] have s1: "room_reach [] (lab, {})"
    using step [OF s0 rt_create] gen by (auto simp: lab_def)
  have "answered (store_route ''alice'' ''room_10_abc'' (wrap_for ''alice'') 1 6 lab)" by code_simp
  note a2 = served_Inr [OF this]
  have "is_member ''room_10_abc'' ''alice'' lab \<and> current_version ''room_10_abc'' lab = Some 1" by code_simp
  then have s2: "room_reach [] (keyed_lab, {(''room_10_abc'', 1, ''alice'')})"
    using a2 step [OF s1 rt_store] by (force simp: keyed_lab_def)
  have "answered (post ''msg_1_aaaaaa'' (sealed_body 1) keyed_lab)" by code_simp
  from served_Inr [OF this] obtain m where "post ''msg_1_aaaaaa'' (sealed_body 1) keyed_lab = Inr (m, sealed_lab)"
    unfolding sealed_lab_def by blast
  from send_handler_created [OF this [unfolded post_def]] show ?thesis
    using step [OF s2 rt_send] by blast
qed


end
