(* ===== verification/Mention_Properties.thy ===== *)
theory Mention_Properties imports Message_Access begin

text \<open>What the mentions and the hosted media of a message come to: whom a handle reaches, what an edit or a
publication does to the inbox and its badge, and that the scan for media finds what it should.\<close>

section \<open>Mentions reach members only\<close>

lemma resolve_handle_set:
  "set (resolve_handle members h out) \<subseteq> set out \<union> set (handle_matches members h)"
  by (auto simp: resolve_handle_def split: list.splits if_splits)

lemma resolve_handle_distinct: "distinct out \<Longrightarrow> distinct (resolve_handle members h out)"
  by (auto simp: resolve_handle_def split: list.splits)

lemma handle_matches_members: "set (handle_matches members h) \<subseteq> fst ` set members"
  by (auto simp: handle_matches_def)

lemma fold_resolve:
  "distinct out \<Longrightarrow> distinct (fold (resolve_handle members) hs out)
     \<and> set (fold (resolve_handle members) hs out) \<subseteq> set out \<union> fst ` set members"
proof (induction hs arbitrary: out)
  case (Cons h hs)
  then show ?case
    using resolve_handle_set [of members h out] resolve_handle_distinct [of out members h]
      handle_matches_members [of members h] by fastforce
qed simp

lemma roster_members: "a \<in> fst ` set (roster room d) \<Longrightarrow> is_member room a d"
  by (auto simp: roster_def list_members_def is_member_def)

text \<open>A name that two members answer to, as an address or a username, reaches neither.\<close>

lemma handle_ambiguous:
  assumes "(a, u) \<in> set members" "(b, w) \<in> set members" "a \<noteq> b"
    "eq_ignore_ascii_case a h \<or> eq_ignore_ascii_case u h" "eq_ignore_ascii_case b h \<or> eq_ignore_ascii_case w h"
  shows "resolve_handle members h out = out"
proof -
  have "a \<in> set (handle_matches members h)" "b \<in> set (handle_matches members h)"
    using assms by (force simp: handle_matches_def)+
  then show ?thesis using assms(3) by (auto simp: resolve_handle_def split: list.splits)
qed

lemma fold_resolve_ambiguous:
  assumes "\<And>h out. h \<in> set hs \<Longrightarrow> resolve_handle members h out = out"
  shows "fold (resolve_handle members) hs out = out"
  using assms by (induction hs) auto

section \<open>Taking somebody's address as a name\<close>

lemma alphanumeric_allowed:
  "is_ascii_alphanumeric c \<Longrightarrow> \<not> is_forbidden_username c \<and> \<not> is_control c \<and> c \<noteq> CHR '';'' \<and> \<not> is_continuation c"
  by (auto simp: is_forbidden_username_def is_forbidden_markup_def is_control_def is_continuation_def
    char_class_defs less_eq_char_def)

lemma no_semicolon: "CHR '';'' \<notin> set s \<Longrightarrow> \<not> looks_like_sql_injection s"
  by (induction s) auto

lemma address_chars:
  assumes "wallet_ok w" "c \<in> set (as_str w)" shows "is_ascii_alphanumeric c"
proof -
  obtain h where "w = WalletAddress (''0x'' @ h)" "\<forall>c \<in> set h. is_lower_hexdigit c"
    using assms(1) by (rule wallet_okE)
  then show ?thesis using assms(2)
    by (auto simp: char_class_defs less_eq_char_def)
qed

lemma char_count_ascii: "\<forall>c \<in> set s. is_ascii_alphanumeric c \<Longrightarrow> char_count s = length s"
  using alphanumeric_allowed by (simp add: char_count_def filter_id_conv)

lemma address_is_username:
  assumes "wallet_ok w" shows "validate_username (Some (as_str w)) = Inr (as_str w)"
proof -
  have chars: "\<forall>c \<in> set (as_str w). is_ascii_alphanumeric c" using address_chars [OF assms] by blast
  then have "CHR '';'' \<notin> set (as_str w)" "\<not> list_ex is_forbidden_username (as_str w)" "\<not> list_ex is_control (as_str w)"
    using alphanumeric_allowed by (auto simp: list_ex_iff)
  then show ?thesis
    using assms wallet_ok_trim [OF assms] no_semicolon char_count_ascii [OF chars]
    by (simp add: validate_username_def ensure_def wallet_ok_def)
qed

text \<open>Any account can take the address of another wallet as its username, and once it sits in a room
with that wallet, nobody there can mention the wallet by its address again: the address becomes
ambiguous and resolves to nobody, also where the client declares it as an address.\<close>

theorem mention_silenced:
  assumes "wallet_ok victim"
  shows "validate_username (Some (as_str victim)) = Inr (as_str victim)
    \<and> (\<forall>u attacker. (as_str victim, u) \<in> set (roster room d) \<longrightarrow> attacker \<noteq> as_str victim
         \<longrightarrow> (attacker, as_str victim) \<in> set (roster room d)
         \<longrightarrow> mention_resolve room (replicate n (as_str victim)) d = [])"
proof -
  have "mention_resolve room (replicate n (as_str victim)) d = []"
    if "(as_str victim, u) \<in> set (roster room d)" "attacker \<noteq> as_str victim"
      "(attacker, as_str victim) \<in> set (roster room d)" for u attacker
    unfolding mention_resolve_def
    by (rule fold_resolve_ambiguous)
       (use handle_ambiguous [OF that(1,3)] that(2) in \<open>auto simp: eq_ignore_ascii_case_def dest!: in_set_takeD split: if_splits\<close>)
  then show ?thesis using address_is_username [OF assms] by blast
qed

definition victim :: wallet_address where "victim = WalletAddress (''0x'' @ replicate 40 (CHR ''a''))"

definition silenced_room :: server_db where
  "silenced_room =
     (let named = (\<lambda>u. \<lparr>ur_username = u, ur_public_key = None, ur_public_key_sig = None,
                        ur_profile_image = None, ur_created_at = 1, ur_updated_at = 1\<rparr>)
      in server0\<lparr>sv_store := (sv_store server0)\<lparr>db_users := [as_str victim \<mapsto> named ''vic'', ''mallory'' \<mapsto> named (as_str victim)]\<rparr>,
                 sv_members := [\<lparr>mb_room = ''room_10_abc'', mb_user = as_str victim, mb_joined_at = 1\<rparr>,
                                \<lparr>mb_room = ''room_10_abc'', mb_user = ''mallory'', mb_joined_at = 1\<rparr>]\<rparr>)"

theorem mention_silenced_witness:
  "mention_resolve ''room_10_abc'' [as_str victim] silenced_room = []
   \<and> mention_resolve ''room_10_abc'' [''vic''] silenced_room = [as_str victim]"
proof -
  have "wallet_ok victim \<and> (as_str victim, ''vic'') \<in> set (roster ''room_10_abc'' silenced_room)
     \<and> (''mallory'', as_str victim) \<in> set (roster ''room_10_abc'' silenced_room) \<and> ''mallory'' \<noteq> as_str victim
     \<and> mention_resolve ''room_10_abc'' [''vic''] silenced_room = [as_str victim]"
    by code_simp
  then show ?thesis using mention_silenced [of victim "''room_10_abc''" silenced_room 1] by auto
qed

section \<open>The badge and the inbox\<close>

text \<open>The database after bob was named in a message, read the room, and the author anchored the message.\<close>

definition named_bob :: server_db where
  "named_bob =
     (let d = snd (accept_route ''bob'' ''room_10_abc'' 6
                (served (invite_route ''alice'' ''room_10_abc'' ''bob'' 6 lab)));
          d = served (post ''msg_1_aaaaaa'' (text_body ''hi @bob'') d);
          d = served (mark_read_route 8 ''bob'' ''room_10_abc'' (Some 7) d)
      in served (publish_route anchor_wallet (\<lambda>_. []) (\<lambda>i. 9) ''alice'' ''msg_1_aaaaaa''
           (Some (''0x'' @ replicate 64 (CHR ''0''))) (Some anchor_wallet) d))"

text \<open>The inbox decides from the serial of the message whether a mention is unread and the badge from
the serial stored with the mention.  Publishing an anchor moves the first and not the second: bob, who
has read the room, is shown an unread mention while his badge counts none.\<close>

theorem inbox_badge_disagree:
  "map mv_unread (inbox (\<lambda>_. []) 10 ''bob'' 50 named_bob) = [True] \<and> unread_counts ''bob'' named_bob = []"
  by code_simp

section \<open>The media a message shows\<close>

text \<open>C27. The scan of a text for hosted files returns on every text.  What it collects are distinct names
of hosted files that the text shows after \<^verbatim>\<open>/api/images/\<close>; and it collects all of them, unless two
occurrences of the prefix share a slash.\<close>

theorem media_scan_exact:
  "\<exists>names. media_extract s = Some names \<and> distinct names \<and> set names \<subseteq> {n. is_media_name n \<and> displays s n}
     \<and> (\<not> contains_str ''/api/images/api/images/'' s \<longrightarrow> set names = {n. is_media_name n \<and> displays s n})"
  using media_loop_exact [of "[]" s] by (auto simp: media_extract_def)

definition picture :: string where "picture = replicate 64 (CHR ''a'') @ ''.png''"

theorem media_scan_exact_witness:
  "\<exists>names. media_extract (''see /api/images/'' @ picture @ '' twice: /api/images/'' @ picture) = Some names
     \<and> distinct names
     \<and> set names = {n. is_media_name n \<and> displays (''see /api/images/'' @ picture @ '' twice: /api/images/'' @ picture) n}"
proof -
  have "\<not> contains_str ''/api/images/api/images/'' (''see /api/images/'' @ picture @ '' twice: /api/images/'' @ picture)"
    by code_simp
  then show ?thesis using media_scan_exact by blast
qed

end
