(* ===== verification/Uploads.thy ===== *)
theory Uploads imports Validate begin

text \<open>Resumable uploads: src/app/server/src/db/uploads.rs (the session rows) and routes/uploads.rs (the
protocol).  The bytes of a session are in a temp file beside its row.  An append is three separate
accesses with other requests between them: it reads the session and checks the offset, claims the bytes
by advancing the row, and only then writes them to the end of the file.  The state carries the appends that are
between two of these accesses.  SHA-256 of a file, in hex, is the parameter \<^verbatim>\<open>sha\<close>, and the finalisers of
the file, image and site routes are the parameter \<^verbatim>\<open>finalise\<close>, which may refuse.\<close>

section \<open>Rows\<close>

datatype upload_kind = Upload_file | Upload_image | Upload_site

definition kind_str :: "upload_kind \<Rightarrow> string" where
  "kind_str k = (case k of Upload_file \<Rightarrow> ''file'' | Upload_image \<Rightarrow> ''image'' | Upload_site \<Rightarrow> ''site'')"

definition parse_kind :: "string \<Rightarrow> upload_kind option" where
  "parse_kind raw =
     (if raw = ''file'' then Some Upload_file else if raw = ''image'' then Some Upload_image
      else if raw = ''site'' then Some Upload_site else None)"

record session =
  se_id :: string
  se_owner :: string
  se_kind :: upload_kind
  se_room :: "string option"
  se_filename :: string
  se_caption :: string
  se_mime :: string
  se_declared :: nat
  se_received :: nat
  se_sha256 :: "string option"
  se_temp :: string
  se_extra :: string
  se_created :: int
  se_updated :: int

text \<open>An append in flight: checked against the row it read, or with its bytes claimed.\<close>

datatype in_flight = Checked session "byte list" | Claimed session "byte list"

record uploads =
  up_sessions :: "session list"
  up_files :: "string \<Rightarrow> byte list option"
  up_requests :: "in_flight list"

definition create_session :: "session \<Rightarrow> uploads \<Rightarrow> db_error + (session \<times> uploads)" where
  "create_session new u =
     (if se_id new \<in> se_id ` set (up_sessions u) then Inl Sql_constraint
      else Inr (new, u\<lparr>up_sessions := up_sessions u @ [new]\<rparr>))"

definition read_session :: "string \<Rightarrow> uploads \<Rightarrow> session option" where
  "read_session sid u = find (\<lambda>s. se_id s = sid) (up_sessions u)"

text \<open>advance: whether exactly one row moved, and the rows after the UPDATE.  The offsets are those that
the routes pass: \<^verbatim>\<open>from\<close> and the offset after it.\<close>

definition advance :: "string \<Rightarrow> nat \<Rightarrow> nat \<Rightarrow> int \<Rightarrow> uploads \<Rightarrow> bool \<times> uploads" where
  "advance sid from_offset to_offset now u =
     (let here = (\<lambda>s. se_id s = sid \<and> se_received s = from_offset)
      in (length (filter here (up_sessions u)) = 1,
          u\<lparr>up_sessions := map (\<lambda>s. if here s then s\<lparr>se_received := to_offset, se_updated := now\<rparr> else s)
                              (up_sessions u)\<rparr>))"

definition touch_session :: "string \<Rightarrow> int \<Rightarrow> uploads \<Rightarrow> uploads" where
  "touch_session sid now u =
     u\<lparr>up_sessions := map (\<lambda>s. if se_id s = sid then s\<lparr>se_updated := now\<rparr> else s) (up_sessions u)\<rparr>"

definition delete_session :: "string \<Rightarrow> uploads \<Rightarrow> uploads" where
  "delete_session sid u = u\<lparr>up_sessions := [s \<leftarrow> up_sessions u. se_id s \<noteq> sid]\<rparr>"

definition stale_sessions :: "int \<Rightarrow> nat \<Rightarrow> uploads \<Rightarrow> session list" where
  "stale_sessions cutoff limit u =
     take limit (sort_key se_updated [s \<leftarrow> up_sessions u. se_updated s < cutoff])"

definition sessions_for_room :: "string \<Rightarrow> uploads \<Rightarrow> session list" where
  "sessions_for_room room u = [s \<leftarrow> up_sessions u. se_room s = Some room]"

definition open_count :: "string \<Rightarrow> uploads \<Rightarrow> nat" where
  "open_count owner u = length [s \<leftarrow> up_sessions u. se_owner s = owner]"

section \<open>Beginning\<close>

definition MAX_UPLOAD_BYTES :: nat where "MAX_UPLOAD_BYTES = 4 * 1024 * 1024 * 1024 - 1"
definition MAX_UPLOAD_GB :: nat where "MAX_UPLOAD_GB = (MAX_UPLOAD_BYTES + 1) div (1024 * 1024 * 1024)"

text \<open>The large bounds, for evaluation.\<close>

lemma MAX_UPLOAD_GB_code [code]: "MAX_UPLOAD_GB = 4"
  by (simp add: MAX_UPLOAD_GB_def MAX_UPLOAD_BYTES_def)

lemma upload_bounds [code_unfold]:
  "n \<le> MAX_UPLOAD_BYTES \<longleftrightarrow> int n \<le> 4294967295" "n < u64_limit \<longleftrightarrow> int n < 18446744073709551616"
  by (auto simp: MAX_UPLOAD_BYTES_def u64_limit_def)

definition MAX_CHUNK_BYTES :: nat where "MAX_CHUNK_BYTES = 16 * 1024 * 1024"
definition SUGGESTED_CHUNK_BYTES :: int where "SUGGESTED_CHUNK_BYTES = 500 * 1024"
definition SESSION_TTL_MS :: int where "SESSION_TTL_MS = 24 * 60 * 60 * 1000"
definition MAX_OPEN_SESSIONS :: nat where "MAX_OPEN_SESSIONS = 8"

record begin_request =
  br_kind :: string
  br_room :: "string option"
  br_filename :: "string option"
  br_caption :: "string option"
  br_mime :: "string option"
  br_size :: nat
  br_sha256 :: "string option"
  br_extra :: "string option"

record session_view =
  sn_id :: string
  sn_offset :: nat
  sn_size :: nat
  sn_chunk_size :: int

definition session_view :: "session \<Rightarrow> session_view" where
  "session_view s = \<lparr>sn_id = se_id s, sn_offset = se_received s, sn_size = se_declared s,
                     sn_chunk_size = SUGGESTED_CHUNK_BYTES\<rparr>"

definition normalise_digest :: "string option \<Rightarrow> api_error + string option" where
  "normalise_digest raw =
     (case map_option trim raw of
        None \<Rightarrow> Inr None
      | Some s \<Rightarrow>
          if s = [] then Inr None
          else let lower = to_ascii_lowercase s in
               ensure (length lower = 64 \<and> list_all is_ascii_hexdigit lower)
                 (Bad_request ''sha256 must be 64 hexadecimal characters'') (Inr (Some lower)))"

text \<open>begin: the session to create, from the checks of the request.\<close>

definition begin_checked ::
  "string \<Rightarrow> string \<Rightarrow> begin_request \<Rightarrow> int \<Rightarrow> server_db \<Rightarrow> uploads \<Rightarrow> api_error + session" where
  "begin_checked sid caller req now d u =
     try_bind (ok_or (Bad_request ''Unknown upload kind'') (parse_kind (br_kind req))) (\<lambda>kind.
     ensure (br_size req \<noteq> 0) (Bad_request ''Empty file'')
    (ensure (br_size req \<le> MAX_UPLOAD_BYTES)
       (Bad_request (''File is larger than the '' @ decimal MAX_UPLOAD_GB @ '' GB limit''))
    (try_bind (normalise_digest (br_sha256 req)) (\<lambda>sha256.
     try_bind (validate_filename (br_filename req)) (\<lambda>filename.
     try_bind (validate_caption (br_caption req)) (\<lambda>caption.
     try_bind (case kind of
         Upload_file \<Rightarrow>
           try_bind (ok_or (Bad_request ''roomId is required for a file upload'') (br_room req)) (\<lambda>raw.
             case room_id_new raw of
               Inl _ \<Rightarrow> Inl (Not_found ''Room not found'')
             | Inr r \<Rightarrow> require_member (room_str r) caller d (Inr (Some (room_str r))))
       | _ \<Rightarrow> Inr None) (\<lambda>room.
     ensure (open_count caller u < MAX_OPEN_SESSIONS)
       (Bad_request (''You already have '' @ decimal MAX_OPEN_SESSIONS
          @ '' uploads in progress. Finish or cancel one first.''))
    (Inr \<lparr>se_id = sid, se_owner = caller, se_kind = kind, se_room = room, se_filename = filename,
           se_caption = caption, se_mime = (case br_mime req of Some m \<Rightarrow> m | None \<Rightarrow> []),
           se_declared = br_size req, se_received = 0, se_sha256 = sha256, se_temp = sid @ ''.part'',
           se_extra = (case br_extra req of Some e \<Rightarrow> e | None \<Rightarrow> []), se_created = now,
           se_updated = now\<rparr>))))))))"

text \<open>The file is created, empty, before the row, and removed again when the insert fails.\<close>

definition begin_route ::
  "string \<Rightarrow> string \<Rightarrow> begin_request \<Rightarrow> int \<Rightarrow> server_db \<Rightarrow> uploads \<Rightarrow> (api_error + session_view) \<times> uploads" where
  "begin_route sid caller req now d u =
     (case begin_checked sid caller req now d u of
        Inl e \<Rightarrow> (Inl e, u)
      | Inr new \<Rightarrow>
          let u = u\<lparr>up_files := (up_files u)(se_temp new \<mapsto> [])\<rparr>
          in case create_session new u of
               Inl e \<Rightarrow> (Inl (Database e), u\<lparr>up_files := (up_files u)(se_temp new := None)\<rparr>)
             | Inr (s, u') \<Rightarrow> (Inr (session_view s), u'))"

section \<open>Appending\<close>

definition owned_session :: "string \<Rightarrow> string \<Rightarrow> uploads \<Rightarrow> api_error + session" where
  "owned_session caller sid u =
     (case read_session sid u of
        None \<Rightarrow> Inl (Not_found ''Upload not found'')
      | Some s \<Rightarrow> ensure (se_owner s = caller) (Not_found ''Upload not found'') (Inr s))"

definition temp_path :: "session \<Rightarrow> api_error + string" where
  "temp_path s =
     (let name = se_temp s in
      ensure (5 < length name \<and> starts_with (rev ''.part'') (rev name)
              \<and> list_all (\<lambda>b. is_ascii_alphanumeric b \<or> b = CHR ''_'' \<or> b = CHR ''-'' \<or> b = CHR ''.'') name
              \<and> \<not> contains_str ''..'' name)
        (Internal_error ''refusing to touch upload temp name'') (Inr name))"

definition offset_conflict :: "session \<Rightarrow> api_error" where
  "offset_conflict s =
     conflict (''Upload is at offset '' @ decimal (se_received s) @ ''; resume from there'')"

text \<open>append, first access: the session as it is read, if the chunk fits at the offset it names.  The sum
of an offset that equals a row's and a chunk is far from the end of u64, so the refusal of an overflow is
never taken.\<close>

definition append_check ::
  "string \<Rightarrow> string \<Rightarrow> nat option \<Rightarrow> byte list \<Rightarrow> uploads \<Rightarrow> api_error + session" where
  "append_check caller sid offset body u =
     try_bind (owned_session caller sid u) (\<lambda>s.
     ensure (body \<noteq> []) (Bad_request ''Empty chunk'')
    (try_bind (ok_or (Bad_request ''offset is required'') offset) (\<lambda>offset.
     ensure (offset = se_received s) (offset_conflict s)
    (ensure (offset + length body < u64_limit) (Bad_request ''Chunk overflows the file'')
    (ensure (offset + length body \<le> se_declared s)
       (Bad_request ''Chunk would write past the declared file size'')
    (try_bind (temp_path s) (\<lambda>_. Inr s)))))))"

text \<open>append, second access: the claim, with the session as it was read; a lost claim reads it again.\<close>

definition append_claim :: "int \<Rightarrow> session \<Rightarrow> byte list \<Rightarrow> uploads \<Rightarrow> (api_error + unit) \<times> uploads" where
  "append_claim now s body u =
     (let (claimed, u') = advance (se_id s) (se_received s) (se_received s + length body) now u
      in if claimed then (Inr (), u')
         else (case owned_session (se_owner s) (se_id s) u' of
                 Inl e \<Rightarrow> (Inl e, u') | Inr fresh \<Rightarrow> (Inl (offset_conflict fresh), u')))"

text \<open>append, third access: the write to the end of the file, whose offset is given back in the answer.  A
write that fails has written some prefix of the chunk, and then the claim is undone.\<close>

definition append_write :: "session \<Rightarrow> byte list \<Rightarrow> uploads \<Rightarrow> (api_error + nat) \<times> uploads" where
  "append_write s body u =
     (case up_files u (se_temp s) of
        None \<Rightarrow> (Inl (Not_found ''Upload not found''), u)
      | Some f \<Rightarrow> (Inr (se_received s + length body), u\<lparr>up_files := (up_files u)(se_temp s \<mapsto> f @ body)\<rparr>))"

definition append_write_failed :: "int \<Rightarrow> nat \<Rightarrow> session \<Rightarrow> byte list \<Rightarrow> uploads \<Rightarrow> (api_error + nat) \<times> uploads" where
  "append_write_failed now written s body u =
     (case up_files u (se_temp s) of
        None \<Rightarrow> (Inl (Not_found ''Upload not found''), u)
      | Some f \<Rightarrow>
          (Inl (Internal_error ''write failed''),
           snd (advance (se_id s) (se_received s + length body) (se_received s) now
             (u\<lparr>up_files := (up_files u)(se_temp s \<mapsto> f @ take written body)\<rparr>))))"

section \<open>Status, abort, finish and sweep\<close>

definition status_route :: "int \<Rightarrow> string \<Rightarrow> string \<Rightarrow> uploads \<Rightarrow> (api_error + session_view) \<times> uploads" where
  "status_route now caller sid u =
     (case owned_session caller sid u of
        Inl e \<Rightarrow> (Inl e, u) | Inr s \<Rightarrow> (Inr (session_view s), touch_session sid now u))"

definition discard :: "session \<Rightarrow> uploads \<Rightarrow> uploads" where
  "discard s u =
     (let u = (case temp_path s of
                 Inl _ \<Rightarrow> u | Inr name \<Rightarrow> u\<lparr>up_files := (up_files u)(name := None)\<rparr>)
      in delete_session (se_id s) u)"

definition abort_route :: "string \<Rightarrow> string \<Rightarrow> uploads \<Rightarrow> (api_error + unit) \<times> uploads" where
  "abort_route caller sid u =
     (case owned_session caller sid u of Inl e \<Rightarrow> (Inl e, u) | Inr s \<Rightarrow> (Inr (), discard s u))"

text \<open>finish: the bytes are what the finaliser is given.\<close>

definition finish_route ::
  "(byte list \<Rightarrow> string) \<Rightarrow> (session \<Rightarrow> byte list \<Rightarrow> api_error + unit) \<Rightarrow> string \<Rightarrow> string \<Rightarrow> uploads
     \<Rightarrow> (api_error + byte list) \<times> uploads" where
  "finish_route sha finalise caller sid u =
     (case owned_session caller sid u of
        Inl e \<Rightarrow> (Inl e, u)
      | Inr s \<Rightarrow>
          if se_received s \<noteq> se_declared s
          then (Inl (Bad_request (''Upload is incomplete: '' @ decimal (se_received s) @ '' of ''
                       @ decimal (se_declared s) @ '' bytes received'')), u)
          else case temp_path s of
            Inl e \<Rightarrow> (Inl e, u)
          | Inr name \<Rightarrow>
              (case up_files u name of
                 None \<Rightarrow> (Inl (Internal_error ''no such file''), u)
               | Some f \<Rightarrow>
                   if length f \<noteq> se_declared s
                   then (Inl (Internal_error ''assembled upload has another length''), discard s u)
                   else if se_sha256 s \<noteq> None \<and> se_sha256 s \<noteq> Some (sha f)
                   then (Inl (Bad_request ''Uploaded data does not match the declared sha256 checksum''), discard s u)
                   else case finalise s f of
                     Inl e \<Rightarrow> (Inl e, u) | Inr _ \<Rightarrow> (Inr f, discard s u)))"

definition sweep_abandoned :: "int \<Rightarrow> uploads \<Rightarrow> uploads" where
  "sweep_abandoned now u = fold discard (stale_sessions (now - SESSION_TTL_MS) 100 u) u"

section \<open>Requests and their interleaving\<close>

definition request_of :: "in_flight \<Rightarrow> session" where
  "request_of q = (case q of Checked s _ \<Rightarrow> s | Claimed s _ \<Rightarrow> s)"

definition put_request :: "in_flight \<Rightarrow> uploads \<Rightarrow> uploads" where
  "put_request q u = u\<lparr>up_requests := q # up_requests u\<rparr>"

definition drop_request :: "in_flight \<Rightarrow> uploads \<Rightarrow> uploads" where
  "drop_request q u = u\<lparr>up_requests := remove1 q (up_requests u)\<rparr>"

text \<open>One access of one request.  A session id is made of a clock reading and a random number: it is new.\<close>

inductive upload_step ::
  "(byte list \<Rightarrow> string) \<Rightarrow> (session \<Rightarrow> byte list \<Rightarrow> api_error + unit) \<Rightarrow> uploads \<Rightarrow> uploads \<Rightarrow> bool"
  for sha finalise where
  up_begin: "begin_route sid caller req now d u = (res, u')
    \<Longrightarrow> \<forall>s \<in> set (up_sessions u) \<union> request_of ` set (up_requests u). se_id s \<noteq> sid
    \<Longrightarrow> upload_step sha finalise u u'"
| up_check: "append_check caller sid offset body u = Inr s
    \<Longrightarrow> upload_step sha finalise u (put_request (Checked s body) u)"
| up_claim: "Checked s body \<in> set (up_requests u)
    \<Longrightarrow> append_claim now s body (drop_request (Checked s body) u) = (res, u')
    \<Longrightarrow> upload_step sha finalise u (case res of Inl _ \<Rightarrow> u' | Inr _ \<Rightarrow> put_request (Claimed s body) u')"
| up_write: "Claimed s body \<in> set (up_requests u)
    \<Longrightarrow> append_write s body (drop_request (Claimed s body) u) = (res, u') \<Longrightarrow> upload_step sha finalise u u'"
| up_status: "status_route now caller sid u = (res, u') \<Longrightarrow> upload_step sha finalise u u'"
| up_abort: "abort_route caller sid u = (res, u') \<Longrightarrow> upload_step sha finalise u u'"
| up_finish: "finish_route sha finalise caller sid u = (res, u') \<Longrightarrow> upload_step sha finalise u u'"
| up_sweep: "upload_step sha finalise u (sweep_abandoned now u)"

definition no_uploads :: uploads where
  "no_uploads = \<lparr>up_sessions = [], up_files = \<lambda>_. None, up_requests = []\<rparr>"

inductive upload_reach ::
  "(byte list \<Rightarrow> string) \<Rightarrow> (session \<Rightarrow> byte list \<Rightarrow> api_error + unit) \<Rightarrow> uploads \<Rightarrow> bool"
  for sha finalise where
  ur_start: "upload_reach sha finalise no_uploads"
| ur_step: "upload_reach sha finalise u \<Longrightarrow> upload_step sha finalise u u' \<Longrightarrow> upload_reach sha finalise u'"

end
