(* ===== verification/Upload_Spec.thy ===== *)
theory Upload_Spec imports Uploads Room_Properties begin

text \<open>What the upload protocol promises: the bytes of a session are counted exactly, whatever appends,
probes, aborts and sweeps overlap, and a chunk that is alone in flight lands at the offset it named; and
what it does not promise once two appends overlap or a write fails half way.\<close>

section \<open>The invariant\<close>

fun claimed_length :: "string \<Rightarrow> in_flight \<Rightarrow> nat" where
  "claimed_length sid (Checked s body) = 0"
| "claimed_length sid (Claimed s body) = (if se_id s = sid then length body else 0)"

fun chunk_of :: "in_flight \<Rightarrow> byte list" where
  "chunk_of (Checked s body) = body" | "chunk_of (Claimed s body) = body"

definition claimed_bytes :: "string \<Rightarrow> uploads \<Rightarrow> nat" where
  "claimed_bytes sid u = sum_list (map (claimed_length sid) (up_requests u))"

text \<open>The bytes of the file and those that are claimed and not yet written add up to the offset of the row;
\<^verbatim>\<open>k\<close> gives the surplus of a session whose file has bytes that no claim accounts for.\<close>

definition session_ok :: "(string \<Rightarrow> nat) \<Rightarrow> uploads \<Rightarrow> session \<Rightarrow> bool" where
  "session_ok k u s \<longleftrightarrow>
     se_temp s = se_id s @ ''.part'' \<and> se_received s \<le> se_declared s
     \<and> (\<exists>f. up_files u (se_temp s) = Some f \<and> length f + claimed_bytes (se_id s) u = se_received s + k (se_id s))"

definition request_ok :: "uploads \<Rightarrow> in_flight \<Rightarrow> bool" where
  "request_ok u q \<longleftrightarrow>
     se_temp (request_of q) = se_id (request_of q) @ ''.part''
     \<and> se_received (request_of q) + length (chunk_of q) \<le> se_declared (request_of q)
     \<and> (\<forall>s \<in> set (up_sessions u). se_id s = se_id (request_of q) \<longrightarrow> se_declared s = se_declared (request_of q))"

definition upload_ok :: "(string \<Rightarrow> nat) \<Rightarrow> uploads \<Rightarrow> bool" where
  "upload_ok k u \<longleftrightarrow>
     distinct (map se_id (up_sessions u)) \<and> (\<forall>s \<in> set (up_sessions u). session_ok k u s)
     \<and> (\<forall>q \<in> set (up_requests u). request_ok u q)"

lemma session_unique:
  "distinct (map se_id ss) \<Longrightarrow> s \<in> set ss \<Longrightarrow> t \<in> set ss \<Longrightarrow> se_id s = se_id t \<Longrightarrow> s = t"
  by (metis distinct_map inj_onD)

lemma read_session_Some: "read_session sid u = Some s \<Longrightarrow> s \<in> set (up_sessions u) \<and> se_id s = sid"
  by (auto simp: read_session_def find_Some_iff in_set_conv_nth)

lemma owned_session_Inr: "owned_session caller sid u = Inr s \<Longrightarrow> s \<in> set (up_sessions u) \<and> se_id s = sid \<and> se_owner s = caller"
  by (auto simp: owned_session_def split: option.splits dest: read_session_Some)

lemma claimed_fresh:
  "\<forall>s \<in> request_of ` set (up_requests u). se_id s \<noteq> sid \<Longrightarrow> claimed_bytes sid u = 0"
proof -
  assume fresh: "\<forall>s \<in> request_of ` set (up_requests u). se_id s \<noteq> sid"
  have "claimed_length sid q = 0" if "q \<in> set (up_requests u)" for q
    using fresh that by (cases q) (auto simp: request_of_def)
  then show ?thesis by (simp add: claimed_bytes_def sum_list_eq_0_iff)
qed

lemma claimed_drop:
  assumes "q \<in> set (up_requests u)"
  shows "claimed_bytes sid u = claimed_bytes sid (drop_request q u) + claimed_length sid q"
  using sum_list_map_remove1 [OF assms, of "claimed_length sid"] by (simp add: claimed_bytes_def drop_request_def)

lemma claimed_put: "claimed_bytes sid (put_request q u) = claimed_bytes sid u + claimed_length sid q"
  by (simp add: claimed_bytes_def put_request_def)

lemma request_frames [simp]:
  "up_sessions (put_request q u) = up_sessions u" "up_files (put_request q u) = up_files u"
  "up_sessions (drop_request q u) = up_sessions u" "up_files (drop_request q u) = up_files u"
  "up_requests (put_request q u) = q # up_requests u"
  "set (up_requests (drop_request q u)) \<subseteq> set (up_requests u)"
  by (simp_all add: put_request_def drop_request_def set_remove1_subset)

lemma drop_member [dest]: "q' \<in> set (up_requests (drop_request q u)) \<Longrightarrow> q' \<in> set (up_requests u)"
  using request_frames(6) by blast

lemma claimed_frames [simp]:
  "claimed_bytes sid (u\<lparr>up_sessions := ss\<rparr>) = claimed_bytes sid u"
  "claimed_bytes sid (u\<lparr>up_files := fs\<rparr>) = claimed_bytes sid u"
  by (simp_all add: claimed_bytes_def)

text \<open>Changing rows in place.\<close>

lemma rows_updated:
  assumes ok: "upload_ok k u" and f: "\<And>s. se_id (f s) = se_id s" "\<And>s. se_declared (f s) = se_declared s"
    and rows: "\<And>s. s \<in> set (up_sessions u) \<Longrightarrow> session_ok k (u\<lparr>up_requests := qs, up_files := fs\<rparr>) (f s)"
    and qs: "\<And>q. q \<in> set qs \<Longrightarrow> request_ok u q"
  shows "upload_ok k (u\<lparr>up_sessions := map f (up_sessions u), up_requests := qs, up_files := fs\<rparr>)"
proof -
  have "distinct (map se_id (map f (up_sessions u)))"
    using ok f(1) by (simp add: upload_ok_def o_def)
  moreover have "session_ok k (u\<lparr>up_sessions := map f (up_sessions u), up_requests := qs, up_files := fs\<rparr>) t"
    if "t \<in> f ` set (up_sessions u)" for t
    using rows that by (auto simp: session_ok_def claimed_bytes_def)
  moreover have "request_ok (u\<lparr>up_sessions := map f (up_sessions u), up_requests := qs, up_files := fs\<rparr>) q"
    if "q \<in> set qs" for q
    using qs [OF that] f by (auto simp: request_ok_def)
  ultimately show ?thesis by (simp add: upload_ok_def)
qed

lemma ok_request: "upload_ok k u \<Longrightarrow> q \<in> set (up_requests u) \<Longrightarrow> request_ok u q"
  by (simp add: upload_ok_def)

lemma ok_row: "upload_ok k u \<Longrightarrow> s \<in> set (up_sessions u) \<Longrightarrow> session_ok k u s"
  by (simp add: upload_ok_def)

section \<open>Each access keeps it\<close>

lemma begin_checked_Inr:
  "begin_checked sid caller req now d u = Inr new \<Longrightarrow>
     se_id new = sid \<and> se_temp new = sid @ ''.part'' \<and> se_received new = 0 \<and> se_owner new = caller
     \<and> se_declared new = br_size req \<and> 0 < br_size req \<and> br_size req \<le> MAX_UPLOAD_BYTES"
  by (auto simp: begin_checked_def try_bind_Inr_iff)

lemma begin_rows:
  assumes "begin_route sid caller req now d u = (res, u')" "\<forall>s \<in> set (up_sessions u). se_id s \<noteq> sid"
  obtains "u' = u"
  | new where "se_id new = sid" "se_temp new = sid @ ''.part''" "se_received new = 0"
      "u' = u\<lparr>up_files := (up_files u)(se_temp new \<mapsto> []), up_sessions := up_sessions u @ [new]\<rparr>"
proof (cases "begin_checked sid caller req now d u")
  case (Inl e)
  then show ?thesis using assms(1) that(1) by (simp add: begin_route_def)
next
  case (Inr new)
  have new: "se_id new = sid" "se_temp new = sid @ ''.part''" "se_received new = 0"
    using begin_checked_Inr [OF Inr] by blast+
  have "u' = u\<lparr>up_files := (up_files u)(se_temp new \<mapsto> []), up_sessions := up_sessions u @ [new]\<rparr>"
  proof -
    have "se_id new \<notin> se_id ` set (up_sessions u)" using assms(2) new(1) by auto
    then show ?thesis using assms(1) Inr by (simp add: begin_route_def create_session_def Let_def)
  qed
  then show ?thesis using that(2) [OF new] by blast
qed

lemma begin_ok:
  assumes "begin_route sid caller req now d u = (res, u')" "upload_ok k u"
    "\<forall>s \<in> set (up_sessions u) \<union> request_of ` set (up_requests u). se_id s \<noteq> sid" "k sid = 0"
  shows "upload_ok k u'"
proof (rule begin_rows [OF assms(1)])
  fix new assume new: "se_id new = sid" "se_temp new = sid @ ''.part''" "se_received new = 0"
    and u': "u' = u\<lparr>up_files := (up_files u)(se_temp new \<mapsto> []), up_sessions := up_sessions u @ [new]\<rparr>"
  have other: "se_id s \<noteq> sid" "se_temp s \<noteq> se_temp new" if "s \<in> set (up_sessions u)" for s
    using assms(3) that ok_row [OF assms(2) that] new by (auto simp: session_ok_def)
  have "claimed_bytes sid u = 0" using assms(3) by (intro claimed_fresh) blast
  then show ?thesis using assms(2-4) new other
    by (auto simp: u' upload_ok_def session_ok_def request_ok_def)
qed (use assms in auto)

lemma check_ok:
  assumes "append_check caller sid offset body u = Inr s" "upload_ok k u"
  shows "upload_ok k (put_request (Checked s body) u)"
proof -
  have s: "s \<in> set (up_sessions u)" "se_received s + length body \<le> se_declared s"
    using assms(1) by (auto simp: append_check_def try_bind_Inr_iff dest: owned_session_Inr)
  have "t = s" if "t \<in> set (up_sessions u)" "se_id t = se_id s" for t
    using assms(2) that s session_unique by (auto simp: upload_ok_def)
  then show ?thesis using assms(2) s ok_row [OF assms(2) s(1)]
    by (auto simp: upload_ok_def session_ok_def request_ok_def request_of_def claimed_put)
qed

lemma drop_checked_ok:
  assumes "Checked s body \<in> set (up_requests u)" "upload_ok k u"
  shows "upload_ok k (drop_request (Checked s body) u)"
proof -
  have "claimed_bytes sid (drop_request (Checked s body) u) = claimed_bytes sid u" for sid
    using claimed_drop [OF assms(1), of sid] by simp
  then show ?thesis using assms(2)
    by (auto simp: upload_ok_def session_ok_def request_ok_def dest!: drop_member)
qed

lemma distinct_same: "distinct (map g xs) \<Longrightarrow> (\<And>x. x \<in> set xs \<Longrightarrow> g x = c) \<Longrightarrow> length xs \<le> 1"
  by (cases xs; cases "tl xs") auto

lemma claim_rows:
  assumes "append_claim now s body u = (res, u')" "upload_ok k u"
  shows "(\<exists>e. res = Inl e) \<and> u' = u
    \<or> res = Inr () \<and> (\<exists>t \<in> set (up_sessions u). se_id t = se_id s \<and> se_received t = se_received s)
       \<and> u' = u\<lparr>up_sessions := map (\<lambda>x. if se_id x = se_id s
             then x\<lparr>se_received := se_received s + length body, se_updated := now\<rparr> else x) (up_sessions u)\<rparr>"
proof -
  let ?here = "\<lambda>t. se_id t = se_id s \<and> se_received t = se_received s"
  let ?f = "\<lambda>t. if ?here t then t\<lparr>se_received := se_received s + length body, se_updated := now\<rparr> else t"
  have dist: "distinct (map se_id (up_sessions u))" using assms(2) by (simp add: upload_ok_def)
  have u': "u' = u\<lparr>up_sessions := map ?f (up_sessions u)\<rparr>"
    and res: "case res of Inl _ \<Rightarrow> length (filter ?here (up_sessions u)) \<noteq> 1
        | Inr _ \<Rightarrow> length (filter ?here (up_sessions u)) = 1"
    using assms(1) by (auto simp: append_claim_def advance_def Let_def split: if_splits sum.splits)
  show ?thesis
  proof (cases res)
    case (Inl e)
    have "distinct (map se_id (filter ?here (up_sessions u)))" using dist by (simp add: distinct_map_filter)
    then have "length (filter ?here (up_sessions u)) \<le> 1" by (rule distinct_same) simp
    moreover have "length (filter ?here (up_sessions u)) \<noteq> 1" using res Inl by simp
    ultimately have "length (filter ?here (up_sessions u)) = 0" by linarith
    then have "filter ?here (up_sessions u) = []" by simp
    then have "map ?f (up_sessions u) = up_sessions u" by (intro map_idI) (auto simp: filter_empty_conv)
    then show ?thesis using u' Inl by simp
  next
    case (Inr unit)
    have "filter ?here (up_sessions u) \<noteq> []" using res Inr by auto
    then obtain t where t: "t \<in> set (up_sessions u)" "?here t" by (auto simp: filter_empty_conv)
    have "?here x \<longleftrightarrow> se_id x = se_id s" if "x \<in> set (up_sessions u)" for x
      using session_unique [OF dist that t(1)] t(2) by auto
    then have "map ?f (up_sessions u) = map (\<lambda>x. if se_id x = se_id s
        then x\<lparr>se_received := se_received s + length body, se_updated := now\<rparr> else x) (up_sessions u)" by simp
    then show ?thesis using u' Inr t by auto
  qed
qed

lemma claim_ok:
  assumes "append_claim now s body u = (res, u')" "upload_ok k u" "request_ok u (Checked s body)"
  shows "upload_ok k (case res of Inl _ \<Rightarrow> u' | Inr _ \<Rightarrow> put_request (Claimed s body) u')"
  using claim_rows [OF assms(1,2)]
proof (elim disjE conjE exE bexE)
  fix t assume r: "res = Inr ()" and t: "t \<in> set (up_sessions u)" "se_id t = se_id s" "se_received t = se_received s"
    and u': "u' = u\<lparr>up_sessions := map (\<lambda>x. if se_id x = se_id s
             then x\<lparr>se_received := se_received s + length body, se_updated := now\<rparr> else x) (up_sessions u)\<rparr>"
  let ?f = "\<lambda>x. if se_id x = se_id s then x\<lparr>se_received := se_received s + length body, se_updated := now\<rparr> else x"
  have b: "se_received s + length body \<le> se_declared s"
    "\<And>t. t \<in> set (up_sessions u) \<Longrightarrow> se_id t = se_id s \<Longrightarrow> se_declared t = se_declared s"
    using assms(3) by (auto simp: request_ok_def request_of_def)
  have "upload_ok k (u\<lparr>up_sessions := map ?f (up_sessions u), up_requests := Claimed s body # up_requests u,
      up_files := up_files u\<rparr>)"
  proof (rule rows_updated [OF assms(2)])
    fix x assume x: "x \<in> set (up_sessions u)"
    have "se_id x = se_id s \<Longrightarrow> x = t" using session_unique [OF _ x t(1)] assms(2) t(2) by (simp add: upload_ok_def)
    then show "session_ok k (u\<lparr>up_requests := Claimed s body # up_requests u, up_files := up_files u\<rparr>) (?f x)"
      using ok_row [OF assms(2) x] b(1) b(2) [OF x] t(2,3) by (auto simp: session_ok_def claimed_bytes_def)
  next
    fix q assume "q \<in> set (Claimed s body # up_requests u)"
    then show "request_ok u q"
      using ok_request [OF assms(2)] assms(3) by (auto simp: request_ok_def request_of_def)
  qed auto
  then show ?thesis by (simp add: u' r put_request_def)
qed (use assms(2) in auto)

lemma write_ok:
  assumes "Claimed s body \<in> set (up_requests u)" "upload_ok k u"
    "append_write s body (drop_request (Claimed s body) u) = (res, u')"
  shows "upload_ok k u'"
proof -
  let ?u = "drop_request (Claimed s body) u"
  note claims = claimed_drop [OF assms(1)]
  have s: "se_temp s = se_id s @ ''.part''"
    using ok_request [OF assms(2,1)] by (simp add: request_ok_def request_of_def)
  have same: "se_temp t = se_temp s \<longleftrightarrow> se_id t = se_id s" if "t \<in> set (up_sessions u)" for t
    using ok_row [OF assms(2) that] s by (simp add: session_ok_def)
  have keep: "distinct (map se_id (up_sessions u))" "\<forall>q \<in> set (up_requests ?u). request_ok u q"
    using assms(2) by (auto simp: upload_ok_def)
  show ?thesis
  proof (cases "up_files u (se_temp s)")
    case None
    then have u': "u' = ?u" using assms(3) by (simp add: append_write_def)
    have "session_ok k u' t" if "t \<in> set (up_sessions u)" for t
      using ok_row [OF assms(2) that] same [OF that] None claims [of "se_id t"]
      by (auto simp: session_ok_def u')
    then show ?thesis using keep by (simp add: upload_ok_def u' request_ok_def)
  next
    case (Some f)
    then have u': "u' = ?u\<lparr>up_files := (up_files u)(se_temp s \<mapsto> f @ body)\<rparr>"
      using assms(3) by (simp add: append_write_def)
    have "session_ok k u' t" if "t \<in> set (up_sessions u)" for t
      using ok_row [OF assms(2) that] same [OF that] Some claims [of "se_id t"]
      by (auto simp: session_ok_def u')
    then show ?thesis using keep by (simp add: upload_ok_def u' request_ok_def)
  qed
qed

lemma discard_ok:
  assumes "upload_ok k u" "se_temp s = se_id s @ ''.part''"
  shows "upload_ok k (discard s u)"
proof -
  have "session_ok k (discard s u) t" if "t \<in> set (up_sessions u)" "se_id t \<noteq> se_id s" for t
    using ok_row [OF assms(1) that(1)] that(2) assms(2)
    by (auto simp: session_ok_def discard_def delete_session_def temp_path_def ensure_def Let_def claimed_bytes_def)
  moreover have "up_sessions (discard s u) = [t \<leftarrow> up_sessions u. se_id t \<noteq> se_id s]"
    "up_requests (discard s u) = up_requests u"
    by (auto simp: discard_def delete_session_def temp_path_def ensure_def Let_def)
  ultimately show ?thesis using assms(1)
    by (auto simp: upload_ok_def request_ok_def distinct_map_filter)
qed

lemma owned_ok: "upload_ok k u \<Longrightarrow> owned_session caller sid u = Inr s \<Longrightarrow> se_temp s = se_id s @ ''.part''"
  using ok_row owned_session_Inr by (fastforce simp: session_ok_def)

lemma status_ok:
  assumes "status_route now caller sid u = (res, u')" "upload_ok k u" shows "upload_ok k u'"
proof (cases "owned_session caller sid u")
  case (Inr s)
  let ?f = "\<lambda>s. if se_id s = sid then s\<lparr>se_updated := now\<rparr> else s"
  have u': "u' = u\<lparr>up_sessions := map ?f (up_sessions u), up_requests := up_requests u, up_files := up_files u\<rparr>"
    using assms(1) Inr by (auto simp: status_route_def touch_session_def)
  show ?thesis unfolding u'
  proof (rule rows_updated [OF assms(2)])
    fix x assume "x \<in> set (up_sessions u)"
    from ok_row [OF assms(2) this]
    show "session_ok k (u\<lparr>up_requests := up_requests u, up_files := up_files u\<rparr>) (?f x)" by (cases "se_id x = sid") (auto simp: session_ok_def)
  qed (use ok_request [OF assms(2)] in auto)
qed (use assms in \<open>simp add: status_route_def\<close>)

lemma sweep_ok:
  assumes "upload_ok k u" shows "upload_ok k (sweep_abandoned now u)"
proof -
  have "upload_ok k (fold discard ss v)" if "upload_ok k v" "\<forall>s \<in> set ss. se_temp s = se_id s @ ''.part''" for ss v
    using that by (induction ss arbitrary: v) (auto simp: discard_ok)
  moreover have "\<forall>s \<in> set (stale_sessions c n u). se_temp s = se_id s @ ''.part''" for c n
    using ok_row [OF assms] by (auto simp: stale_sessions_def session_ok_def dest!: in_set_takeD)
  ultimately show ?thesis using assms by (simp add: sweep_abandoned_def)
qed

lemma upload_step_ok:
  "upload_step sha finalise u u' \<Longrightarrow> upload_ok k u \<Longrightarrow> \<forall>sid. k sid \<noteq> 0 \<longrightarrow> sid \<in> se_id ` set (up_sessions u)
     \<Longrightarrow> upload_ok k u'"
proof (induction rule: upload_step.induct)
  case (up_begin sid caller req now d u res u')
  then have "k sid = 0" by blast
  then show ?case by (rule begin_ok [OF up_begin(1,3,2)])
next
  case (up_check caller sid offset body u s) show ?case by (rule check_ok [OF up_check(1,2)])
next
  case (up_claim s body u now res u')
  have "request_ok (drop_request (Checked s body) u) (Checked s body)"
    using ok_request [OF up_claim(3,1)] by (simp add: request_ok_def)
  then show ?case using claim_ok [OF up_claim(2) drop_checked_ok [OF up_claim(1,3)]] by simp
next
  case (up_write s body u res u') show ?case by (rule write_ok [OF up_write(1,3,2)])
next
  case (up_status now caller sid u res u') show ?case by (rule status_ok [OF up_status(1,2)])
next
  case (up_abort caller sid u res u')
  then show ?case using discard_ok owned_ok by (auto simp: abort_route_def split: sum.splits)
next
  case (up_finish caller sid u res u')
  then show ?case using discard_ok owned_ok
    by (auto simp: finish_route_def split: sum.splits if_splits option.splits)
next
  case (up_sweep u now) show ?case by (rule sweep_ok [OF up_sweep(1)])
qed

lemma upload_reach_ok: "upload_reach sha finalise u \<Longrightarrow> upload_ok (\<lambda>_. 0) u"
proof (induction rule: upload_reach.induct)
  case ur_start
  then show ?case by (simp add: no_uploads_def upload_ok_def)
next
  case (ur_step u u')
  then show ?case by (auto intro: upload_step_ok)
qed

section \<open>Counting\<close>


text \<open>An image of four bytes, in two chunks.\<close>

definition four_bytes :: begin_request where
  "four_bytes = \<lparr>br_kind = ''image'', br_room = None, br_filename = Some ''a.png'', br_caption = None,
     br_mime = None, br_size = 4, br_sha256 = None, br_extra = None\<rparr>"

definition began :: uploads where "began = snd (begin_route ''up_1'' ''alice'' four_bytes 1 server0 no_uploads)"

definition checked_at :: "nat \<Rightarrow> byte list \<Rightarrow> uploads \<Rightarrow> session" where
  "checked_at offset body u =
     (case append_check ''alice'' ''up_1'' (Some offset) body u of Inr s \<Rightarrow> s | Inl _ \<Rightarrow> hd (up_sessions u))"

definition claimed_at :: "nat \<Rightarrow> byte list \<Rightarrow> uploads \<Rightarrow> uploads" where
  "claimed_at offset body u =
     (let s = checked_at offset body u
      in put_request (Claimed s body) (snd (append_claim 2 s body u)))"

definition accepted_at :: "nat \<Rightarrow> byte list \<Rightarrow> uploads \<Rightarrow> bool" where
  "accepted_at offset body u =
     (let s = checked_at offset body u
      in append_check ''alice'' ''up_1'' (Some offset) body u = Inr s \<and> fst (append_claim 2 s body u) = Inr ())"

definition written :: "session \<Rightarrow> byte list \<Rightarrow> uploads \<Rightarrow> uploads" where
  "written s body u = snd (append_write s body (drop_request (Claimed s body) u))"

lemma claimed_steps:
  assumes "accepted_at offset body u"
  shows "upload_step sha finalise u (put_request (Checked (checked_at offset body u) body) u)"
    "upload_step sha finalise (put_request (Checked (checked_at offset body u) body) u) (claimed_at offset body u)"
proof -
  let ?s = "checked_at offset body u" and ?v = "put_request (Checked (checked_at offset body u) body) u"
  have a: "append_check ''alice'' ''up_1'' (Some offset) body u = Inr ?s" "fst (append_claim 2 ?s body u) = Inr ()"
    using assms by (simp_all add: accepted_at_def Let_def)
  show "upload_step sha finalise u ?v" by (rule up_check [OF a(1)])
  have "drop_request (Checked ?s body) ?v = u" by (simp add: drop_request_def put_request_def)
  then have "append_claim 2 ?s body (drop_request (Checked ?s body) ?v) = (Inr (), snd (append_claim 2 ?s body u))"
    using a(2) by (simp add: prod_eq_iff)
  from up_claim [OF _ this] show "upload_step sha finalise ?v (claimed_at offset body u)"
    by (simp add: claimed_at_def Let_def)
qed

lemma claimed_step:
  "accepted_at offset body u \<Longrightarrow> upload_reach sha finalise u \<Longrightarrow> upload_reach sha finalise (claimed_at offset body u)"
  by (rule ur_step [OF ur_step [OF _ claimed_steps(1)] claimed_steps(2)])

lemma written_steps: "Claimed s body \<in> set (up_requests u) \<Longrightarrow> upload_step sha finalise u (written s body u)"
  using up_write by (metis prod.collapse written_def)

lemma written_step:
  "Claimed s body \<in> set (up_requests u) \<Longrightarrow> upload_reach sha finalise u \<Longrightarrow> upload_reach sha finalise (written s body u)"
  by (rule ur_step [OF _ written_steps])

lemma began_reached: "upload_reach sha finalise began"
  unfolding began_def
  by (rule ur_step [OF ur_start up_begin [OF prod.collapse [symmetric]]]) (simp add: no_uploads_def)

definition first_half :: uploads where
  "first_half = (let u = claimed_at 0 [1, 2] began in written (checked_at 0 [1, 2] began) [1, 2] u)"

definition whole :: uploads where
  "whole = (let u = claimed_at 2 [3, 4] first_half in written (checked_at 2 [3, 4] first_half) [3, 4] u)"

lemma claimed_in: "Claimed (checked_at offset body u) body \<in> set (up_requests (claimed_at offset body u))"
  by (simp add: claimed_at_def Let_def put_request_def)

lemma whole_reached: "upload_reach sha finalise whole"
proof -
  have "accepted_at 0 [1, 2] began" "accepted_at 2 [3, 4] first_half" by code_simp+
  then show ?thesis
    using claimed_step written_step claimed_in began_reached
    unfolding whole_def first_half_def Let_def by metis
qed


section \<open>Chunks that overlap\<close>

text \<open>An append claims its bytes before it writes them, and the status shows the claim.  A client that
goes on from the offset it is shown while the first write is still under way has both chunks accepted,
each at its offset, and the file holds them in the order in which the writes came: the finished upload is
not the one that was sent.\<close>

theorem pipelined_chunks_swap:
  "let one = claimed_at 0 [1, 2] began; two = claimed_at 2 [3, 4] one;
       late = written (checked_at 0 [1, 2] began) [1, 2] (written (checked_at 2 [3, 4] one) [3, 4] two)
   in accepted_at 0 [1, 2] began \<and> map_sum id sn_offset (fst (status_route 3 ''alice'' ''up_1'' one)) = Inr 2
      \<and> accepted_at 2 [3, 4] one
      \<and> fst (finish_route (\<lambda>_. []) (\<lambda>_ _. Inr ()) ''alice'' ''up_1'' late) = Inr [3, 4, 1, 2]"
  by code_simp

section \<open>A write that fails\<close>

lemma failed_write_ok:
  assumes "Claimed s body \<in> set (up_requests u)" "upload_ok k u"
    "append_write_failed now n s body (drop_request (Claimed s body) u) = (res, v)" "n \<le> length body"
    and t: "t \<in> set (up_sessions u)" "se_id t = se_id s" "se_received t = se_received s + length body"
  shows "upload_ok (k(se_id s := k (se_id s) + n)) v"
    "\<exists>x \<in> set (up_sessions v). se_id x = se_id s \<and> se_received x = se_received s"
proof -
  let ?u = "drop_request (Claimed s body) u" and ?k = "k(se_id s := k (se_id s) + n)"
  let ?f = "\<lambda>x. if se_id x = se_id s then x\<lparr>se_received := se_received s, se_updated := now\<rparr> else x"
  note claims = claimed_drop [OF assms(1)]
  have temp: "se_temp s = se_id s @ ''.part''"
    using ok_request [OF assms(2,1)] by (simp add: request_ok_def request_of_def)
  obtain f where f: "up_files u (se_temp s) = Some f" "length f + claimed_bytes (se_id s) u = se_received t + k (se_id s)"
    using ok_row [OF assms(2) t(1)] t(2) temp by (auto simp: session_ok_def)
  let ?w = "?u\<lparr>up_files := (up_files u)(se_temp s \<mapsto> f @ take n body)\<rparr>"
  have "snd (advance (se_id s) (se_received s + length body) (se_received s) now ?w)
      = ?w\<lparr>up_sessions := map ?f (up_sessions u)\<rparr>"
  proof -
    have "(se_id x = se_id s \<and> se_received x = se_received s + length body) = (se_id x = se_id s)"
      if "x \<in> set (up_sessions u)" for x
      using session_unique [OF _ that t(1)] assms(2) t(2,3) by (auto simp: upload_ok_def)
    then show ?thesis by (simp add: advance_def Let_def)
  qed
  then have v: "v = ?w\<lparr>up_sessions := map ?f (up_sessions u)\<rparr>"
    using assms(3) f(1) by (simp add: append_write_failed_def)
  have "session_ok ?k v (?f x)" if x: "x \<in> set (up_sessions u)" for x
  proof (cases "se_id x = se_id s")
    case True
    then have "x = t" using session_unique [OF _ x t(1)] assms(2) t(2) by (auto simp: upload_ok_def)
    then show ?thesis using ok_row [OF assms(2) x] claims [of "se_id s"] f t temp assms(4)
      by (auto simp: session_ok_def v)
  next
    case False
    then show ?thesis using ok_row [OF assms(2) x] claims [of "se_id x"] temp by (auto simp: session_ok_def v)
  qed
  then have each: "\<forall>y \<in> ?f ` set (up_sessions u). session_ok ?k v y" by (intro ballI, elim imageE) (simp only:)
  have sess: "up_sessions v = map ?f (up_sessions u)" by (simp add: v)
  have rows: "\<forall>x \<in> set (up_sessions v). session_ok ?k v x" using each unfolding sess set_map .
  have reqs: "request_ok v q" if "q \<in> set (up_requests ?u)" for q
    using ok_request [OF assms(2), of q] that by (auto simp: request_ok_def v)
  have "distinct (map se_id (up_sessions v))"
    using assms(2) by (simp add: v upload_ok_def o_def if_distrib [of se_id] cong: if_cong)
  then show "upload_ok ?k v" using rows reqs by (simp add: upload_ok_def v)
  show "\<exists>x \<in> set (up_sessions v). se_id x = se_id s \<and> se_received x = se_received s"
    unfolding sess set_map by (rule bexI [OF _ imageI [OF t(1)]]) (simp add: t(2))
qed

text \<open>A run during which a session stays open.\<close>

definition while_open ::
  "(byte list \<Rightarrow> string) \<Rightarrow> (session \<Rightarrow> byte list \<Rightarrow> api_error + unit) \<Rightarrow> string \<Rightarrow> uploads \<Rightarrow> uploads \<Rightarrow> bool" where
  "while_open sha finalise sid =
     (\<lambda>u u'. upload_step sha finalise u u' \<and> read_session sid u' \<noteq> None)\<^sup>*\<^sup>*"

lemma while_open_ok:
  assumes "while_open sha finalise sid v w" "upload_ok (\<lambda>x. if x = sid then n else 0) v" "read_session sid v \<noteq> None"
  shows "upload_ok (\<lambda>x. if x = sid then n else 0) w"
proof -
  have "upload_ok (\<lambda>x. if x = sid then n else 0) w \<and> read_session sid w \<noteq> None"
    using assms(1) unfolding while_open_def
  proof (induction rule: rtranclp_induct)
    case base
    then show ?case using assms(2,3) by simp
  next
    case (step y z)
    then have "sid \<in> se_id ` set (up_sessions y)" using read_session_Some by force
    then show ?case using upload_step_ok [of sha finalise y z "\<lambda>x. if x = sid then n else 0"] step by simp
  qed
  then show ?thesis ..
qed

text \<open>A write that fails after some bytes reached the file is undone in the row only.  The client is
told to resend from the old offset, but the stray bytes stay: while the session lives, whatever is sent
again, it cannot be finished once nothing is in flight.\<close>

theorem failed_write_dooms_upload:
  assumes "upload_reach sha finalise u" "Claimed s body \<in> set (up_requests u)"
    "append_write_failed now n s body (drop_request (Claimed s body) u) = (res, v)" "0 < n" "n \<le> length body"
    "t \<in> set (up_sessions u)" "se_id t = se_id s" "se_received t = se_received s + length body"
    "while_open sha finalise (se_id s) v w" "claimed_bytes (se_id s) w = 0"
  shows "(\<exists>x \<in> set (up_sessions v). se_id x = se_id s \<and> se_received x = se_received s)
    \<and> finish_route sha finalise caller (se_id s) w \<noteq> (Inr bytes, w')"
proof (intro conjI notI)
  note failed = failed_write_ok [OF assms(2) upload_reach_ok [OF assms(1)] assms(3,5-8)]
  show "\<exists>x \<in> set (up_sessions v). se_id x = se_id s \<and> se_received x = se_received s" by (rule failed(2))
  have k: "(\<lambda>_. 0)(se_id s := 0 + n) = (\<lambda>x. if x = se_id s then n else 0)" by auto
  have "read_session (se_id s) v \<noteq> None" using failed(2) by (auto simp: read_session_def find_None_iff)
  with while_open_ok [OF assms(9)] failed(1) have ok: "upload_ok (\<lambda>x. if x = se_id s then n else 0) w"
    unfolding k by blast
  assume "finish_route sha finalise caller (se_id s) w = (Inr bytes, w')"
  then obtain x where x: "owned_session caller (se_id s) w = Inr x" "se_received x = se_declared x"
      "up_files w (se_temp x) = Some bytes" "length bytes = se_declared x"
    by (auto simp: finish_route_def temp_path_def ensure_def Let_def split: sum.splits if_splits option.splits)
  from owned_session_Inr [OF x(1)] have "session_ok (\<lambda>x. if x = se_id s then n else 0) w x"
    using ok_row [OF ok] by blast
  then show False using x(2-4) owned_session_Inr [OF x(1)] assms(4,10) by (auto simp: session_ok_def)
qed

text \<open>One stray byte of the first chunk; then both chunks are sent as the client is told.\<close>

definition stray :: uploads where
  "stray = (let u = claimed_at 0 [1, 2] began; s = checked_at 0 [1, 2] began
            in snd (append_write_failed 3 1 s [1, 2] (drop_request (Claimed s [1, 2]) u)))"

definition resent :: uploads where
  "resent = (let u = claimed_at 0 [1, 2] stray; v = written (checked_at 0 [1, 2] stray) [1, 2] u;
                 w = claimed_at 2 [3, 4] v in written (checked_at 2 [3, 4] v) [3, 4] w)"

lemma while_open_step:
  "while_open sha finalise sid u v \<Longrightarrow> upload_step sha finalise v w \<Longrightarrow> read_session sid w \<noteq> None
     \<Longrightarrow> while_open sha finalise sid u w"
  unfolding while_open_def by (rule rtranclp.rtrancl_into_rtrancl) auto

lemma while_open_chunk:
  assumes "while_open sha finalise ''up_1'' u v" "accepted_at offset body v" "read_session ''up_1'' v \<noteq> None"
    "read_session ''up_1'' (claimed_at offset body v) \<noteq> None"
  shows "while_open sha finalise ''up_1'' u (written (checked_at offset body v) body (claimed_at offset body v))"
proof -
  note steps = claimed_steps [OF assms(2), of sha finalise] written_steps [OF claimed_in, of sha finalise offset body v]
  have "read_session ''up_1'' (put_request q x) = read_session ''up_1'' x" for q x by (simp add: read_session_def)
  moreover have "up_sessions (written s b x) = up_sessions x" for s b x
    by (simp add: written_def append_write_def split: option.split)
  then have "read_session ''up_1'' (written s b x) = read_session ''up_1'' x" for s b x by (simp add: read_session_def)
  ultimately show ?thesis
    using while_open_step [OF while_open_step [OF while_open_step [OF assms(1) steps(1)] steps(2)] steps(3)] assms(3,4)
    by simp
qed

theorem failed_write_dooms_upload_witness:
  "(\<forall>bytes. fst (finish_route (\<lambda>_. []) (\<lambda>_ _. Inr ()) ''alice'' ''up_1'' resent) \<noteq> Inr bytes)
   \<and> map se_received (up_sessions resent) = [4] \<and> map se_declared (up_sessions resent) = [4]"
proof -
  let ?u = "claimed_at 0 [1, 2] began" and ?s = "checked_at 0 [1, 2] began"
  let ?v = "written (checked_at 0 [1, 2] stray) [1, 2] (claimed_at 0 [1, 2] stray)"
  have a: "accepted_at 0 [1, 2] began" "accepted_at 0 [1, 2] stray" "accepted_at 2 [3, 4] ?v"
    "read_session ''up_1'' stray \<noteq> None" "read_session ''up_1'' (claimed_at 0 [1, 2] stray) \<noteq> None"
    "read_session ''up_1'' ?v \<noteq> None" "read_session ''up_1'' (claimed_at 2 [3, 4] ?v) \<noteq> None" by code_simp+
  have u: "upload_reach (\<lambda>_. []) (\<lambda>_ _. Inr ()) ?u" by (rule claimed_step [OF a(1) began_reached])
  have "while_open (\<lambda>_. []) (\<lambda>_ _. Inr ()) ''up_1'' stray ?v"
    by (rule while_open_chunk [OF _ a(2,4,5)]) (simp add: while_open_def)
  from while_open_chunk [OF this a(3,6,7)]
  have run: "while_open (\<lambda>_. []) (\<lambda>_ _. Inr ()) ''up_1'' stray resent" by (simp add: resent_def Let_def)
  have f: "append_write_failed 3 1 ?s [1, 2] (drop_request (Claimed ?s [1, 2]) ?u)
      = (fst (append_write_failed 3 1 ?s [1, 2] (drop_request (Claimed ?s [1, 2]) ?u)), stray)"
    by (simp add: stray_def Let_def)
  have t: "hd (up_sessions ?u) \<in> set (up_sessions ?u)" "se_id (hd (up_sessions ?u)) = ''up_1''" "se_id ?s = ''up_1''"
    "se_received (hd (up_sessions ?u)) = se_received ?s + length [1, 2 :: byte]"
    "claimed_bytes ''up_1'' resent = 0" "map se_received (up_sessions resent) = [4]"
    "map se_declared (up_sessions resent) = [4]" by code_simp+
  have "finish_route (\<lambda>_. []) (\<lambda>_ _. Inr ()) ''alice'' ''up_1'' resent \<noteq> (Inr bytes, w')" for bytes w'
    using failed_write_dooms_upload [OF u claimed_in f _ _ t(1)] t run by simp
  then have "\<forall>bytes. fst (finish_route (\<lambda>_. []) (\<lambda>_ _. Inr ()) ''alice'' ''up_1'' resent) \<noteq> Inr bytes"
    by (metis prod.collapse)
  then show ?thesis using t(6,7) by simp
qed

section \<open>Chunks that do not overlap\<close>

fun is_claim :: "string \<Rightarrow> in_flight \<Rightarrow> bool" where
  "is_claim sid (Checked s body) = False"
| "is_claim sid (Claimed s body) = (se_id s = sid)"

definition one_in_flight :: "uploads \<Rightarrow> bool" where
  "one_in_flight u \<longleftrightarrow> (\<forall>sid. length (filter (is_claim sid) (up_requests u)) \<le> 1)"

text \<open>A run in which no session ever has two claimed chunks in flight.\<close>

inductive calm_reach ::
  "(byte list \<Rightarrow> string) \<Rightarrow> (session \<Rightarrow> byte list \<Rightarrow> api_error + unit) \<Rightarrow> uploads \<Rightarrow> bool"
  for sha finalise where
  cr_start: "calm_reach sha finalise no_uploads"
| cr_step: "calm_reach sha finalise u \<Longrightarrow> upload_step sha finalise u u' \<Longrightarrow> one_in_flight u'
    \<Longrightarrow> calm_reach sha finalise u'"

definition claims_current :: "uploads \<Rightarrow> bool" where
  "claims_current u \<longleftrightarrow>
     (\<forall>s body. Claimed s body \<in> set (up_requests u) \<longrightarrow>
        (\<forall>t \<in> set (up_sessions u). se_id t = se_id s \<longrightarrow> se_received t = se_received s + length body))"

lemma calm_reach_reach: "calm_reach sha finalise u \<Longrightarrow> upload_reach sha finalise u"
  by (induction rule: calm_reach.induct) (auto intro: ur_start ur_step)

lemma discard_current: "claims_current u \<Longrightarrow> claims_current (discard s u)"
  by (auto simp: claims_current_def discard_def delete_session_def temp_path_def ensure_def Let_def)

lemma claims_elsewhere:
  assumes "one_in_flight (put_request (Claimed s body) u)" "Claimed r b \<in> set (up_requests u)"
  shows "se_id r \<noteq> se_id s"
proof
  assume "se_id r = se_id s"
  then have "filter (is_claim (se_id s)) (up_requests u) \<noteq> []" using assms(2) by (force simp: filter_empty_conv)
  then have "1 \<le> length (filter (is_claim (se_id s)) (up_requests u))" by (simp add: Suc_le_eq)
  moreover have "length (filter (is_claim (se_id s)) (up_requests (put_request (Claimed s body) u))) \<le> 1"
    using assms(1) unfolding one_in_flight_def by blast
  ultimately show False by simp
qed

lemma claim_current:
  assumes "append_claim now s body u = (res, u')" "upload_ok k u" "claims_current u"
    "one_in_flight (case res of Inl _ \<Rightarrow> u' | Inr _ \<Rightarrow> put_request (Claimed s body) u')"
  shows "claims_current (case res of Inl _ \<Rightarrow> u' | Inr _ \<Rightarrow> put_request (Claimed s body) u')"
  using claim_rows [OF assms(1,2)]
proof (elim disjE conjE exE bexE)
  fix t assume r: "res = Inr ()"
    and u': "u' = u\<lparr>up_sessions := map (\<lambda>x. if se_id x = se_id s
             then x\<lparr>se_received := se_received s + length body, se_updated := now\<rparr> else x) (up_sessions u)\<rparr>"
  have "se_id q \<noteq> se_id s" if "Claimed q b \<in> set (up_requests u)" for q b
    using claims_elsewhere [of s body u' q b] assms(4) that by (simp add: r u')
  then show ?thesis using assms(3) by (fastforce simp: claims_current_def r u')
qed (use assms(3) in auto)

lemma current_frame:
  assumes "claims_current u" "set (up_requests u') \<subseteq> set (up_requests u)"
    "\<And>t. t \<in> set (up_sessions u') \<Longrightarrow>
       \<exists>x \<in> set (up_sessions u). se_id x = se_id t \<and> se_received x = se_received t"
  shows "claims_current u'"
  using assms unfolding claims_current_def by (metis subsetD)

lemma begin_current:
  assumes "begin_route sid caller req now d u = (res, u')" "claims_current u"
    "\<forall>s \<in> set (up_sessions u) \<union> request_of ` set (up_requests u). se_id s \<noteq> sid"
  shows "claims_current u'"
proof (rule begin_rows [OF assms(1)])
  fix new assume new: "se_id new = sid"
    and u': "u' = u\<lparr>up_files := (up_files u)(se_temp new \<mapsto> []), up_sessions := up_sessions u @ [new]\<rparr>"
  have other: "se_id s \<noteq> sid" if "Claimed s b \<in> set (up_requests u)" for s b
    using assms(3) that by (force simp: request_of_def)
  then show ?thesis using assms(2) by (auto simp: claims_current_def u' new dest: other)
qed (use assms in auto)

lemma calm_step_current:
  assumes "upload_step sha finalise u u'" "one_in_flight u'" "upload_ok k u" "claims_current u"
  shows "claims_current u'"
  using assms
proof (induction rule: upload_step.induct)
  case (up_begin sid caller req now d u res u')
  show ?case by (rule begin_current [OF up_begin(1,5,2)])
next
  case (up_check caller sid offset body u s)
  then show ?case by (auto simp: claims_current_def)
next
  case (up_claim s body u now res u')
  let ?u = "drop_request (Checked s body) u"
  have "claims_current ?u" by (rule current_frame [OF up_claim(5)]) auto
  then show ?case by (rule claim_current [OF up_claim(2) drop_checked_ok [OF up_claim(1,4)] _ up_claim(3)])
next
  case (up_write s body u res u')
  then have "up_requests u' = up_requests (drop_request (Claimed s body) u)" "up_sessions u' = up_sessions u"
    by (auto simp: append_write_def split: option.splits)
  then show ?case by (intro current_frame [OF up_write(5)]) auto
next
  case (up_status now caller sid u res u')
  then show ?case
    by (intro current_frame [OF up_status(4)]; fastforce simp: status_route_def touch_session_def split: sum.splits)
next
  case (up_abort caller sid u res u')
  then show ?case using discard_current by (auto simp: abort_route_def split: sum.splits)
next
  case (up_finish caller sid u res u')
  then show ?case using discard_current
    by (auto simp: finish_route_def split: sum.splits if_splits option.splits)
next
  case (up_sweep u now)
  have "claims_current (fold discard ss v)" if "claims_current v" for ss v
    using that by (induction ss arbitrary: v) (auto simp: discard_current)
  then show ?case using up_sweep by (simp add: sweep_abandoned_def)
qed

lemma calm_current: "calm_reach sha finalise u \<Longrightarrow> claims_current u \<and> one_in_flight u"
proof (induction rule: calm_reach.induct)
  case cr_start
  then show ?case by (simp add: claims_current_def one_in_flight_def no_uploads_def)
next
  case (cr_step u u')
  then show ?case
    using calm_step_current [OF cr_step(2,3) upload_reach_ok [OF calm_reach_reach [OF cr_step(1)]]] by blast
qed

lemma only_claim:
  assumes "one_in_flight u" "Claimed s body \<in> set (up_requests u)"
  shows "claimed_bytes (se_id s) u = length body"
proof -
  let ?q = "Claimed s body" and ?u = "drop_request (Claimed s body) u"
  have "?q \<in> set (filter (is_claim (se_id s)) (up_requests u))" using assms(2) by simp
  moreover have "length (filter (is_claim (se_id s)) (up_requests u)) \<le> 1"
    using assms(1) unfolding one_in_flight_def by blast
  ultimately have "filter (is_claim (se_id s)) (up_requests u) = [?q]"
    by (cases "filter (is_claim (se_id s)) (up_requests u)") auto
  then have "filter (is_claim (se_id s)) (up_requests ?u) = []" by (simp add: drop_request_def filter_remove1)
  moreover have "claimed_length (se_id s) q = 0" if "\<not> is_claim (se_id s) q" for q using that by (cases q) auto
  ultimately have "\<forall>q \<in> set (up_requests ?u). claimed_length (se_id s) q = 0" by (auto simp: filter_empty_conv)
  then have "claimed_bytes (se_id s) ?u = 0" by (simp add: claimed_bytes_def sum_list_eq_0_iff)
  then show ?thesis using claimed_drop [OF assms(2), of "se_id s"] by simp
qed

text \<open>As long as no session has two claimed chunks in flight, every chunk lands where it was claimed:
when it is written, the file is exactly as long as the offset that the chunk named.\<close>

theorem lone_chunks_land:
  assumes "calm_reach sha finalise u" "Claimed s body \<in> set (up_requests u)" "t \<in> set (up_sessions u)"
    "se_id t = se_id s"
  shows "\<exists>f. up_files u (se_temp s) = Some f \<and> length f = se_received s
    \<and> up_files (snd (append_write s body (drop_request (Claimed s body) u))) (se_temp s) = Some (f @ body)"
proof -
  have ok: "upload_ok (\<lambda>_. 0) u" by (rule upload_reach_ok [OF calm_reach_reach [OF assms(1)]])
  have "se_temp s = se_temp t"
    using ok_request [OF ok assms(2)] ok_row [OF ok assms(3)] assms(4)
    by (simp add: request_ok_def request_of_def session_ok_def)
  moreover obtain f where "up_files u (se_temp t) = Some f" "length f + claimed_bytes (se_id s) u = se_received t"
    using ok_row [OF ok assms(3)] assms(4) by (auto simp: session_ok_def)
  moreover have "se_received t = se_received s + length body" "claimed_bytes (se_id s) u = length body"
    using calm_current [OF assms(1)] only_claim [OF _ assms(2)] assms(2-4) by (auto simp: claims_current_def)
  ultimately show ?thesis by (simp add: append_write_def)
qed

lemma calm_chunk:
  assumes "calm_reach sha finalise u" "accepted_at offset body u" "up_requests u = []"
  shows "calm_reach sha finalise (claimed_at offset body u)"
    "up_requests (written (checked_at offset body u) body (claimed_at offset body u)) = []"
    "calm_reach sha finalise (written (checked_at offset body u) body (claimed_at offset body u))"
proof -
  let ?s = "checked_at offset body u" and ?v = "claimed_at offset body u"
  note steps = claimed_steps [OF assms(2), of sha finalise]
  have one: "one_in_flight x" if "length (up_requests x) \<le> 1" for x
    using that le_trans [OF length_filter_le] unfolding one_in_flight_def by blast
  have reqs: "up_requests ?v = [Claimed ?s body]"
    using assms(3) by (auto simp: claimed_at_def Let_def append_claim_def advance_def put_request_def split: sum.splits)
  have w: "up_requests (written ?s body ?v) = []"
    using reqs by (auto simp: written_def append_write_def drop_request_def split: option.split)
  have "calm_reach sha finalise (put_request (Checked ?s body) u)"
    by (rule cr_step [OF assms(1) steps(1) one]) (simp add: assms(3))
  then show v: "calm_reach sha finalise ?v" by (rule cr_step [OF _ steps(2) one]) (simp add: reqs)
  show "up_requests (written ?s body ?v) = []" by (rule w)
  show "calm_reach sha finalise (written ?s body ?v)"
    by (rule cr_step [OF v written_steps [OF claimed_in] one]) (simp add: w)
qed

theorem lone_chunks_land_witness:
  "let u = claimed_at 2 [3, 4] first_half; s = checked_at 2 [3, 4] first_half
   in \<exists>f. up_files u (se_temp s) = Some f \<and> length f = 2
        \<and> up_files (written s [3, 4] u) (se_temp s) = Some (f @ [3, 4])"
proof -
  let ?u = "claimed_at 2 [3, 4] first_half" and ?s = "checked_at 2 [3, 4] first_half"
  have acc: "accepted_at 0 [1, 2] began" "accepted_at 2 [3, 4] first_half" "up_requests began = []" by code_simp+
  have "upload_step (\<lambda>_. []) (\<lambda>_ _. Inr ()) no_uploads began"
    unfolding began_def by (rule up_begin [OF prod.collapse [symmetric]]) (simp add: no_uploads_def)
  then have "calm_reach (\<lambda>_. []) (\<lambda>_ _. Inr ()) began"
    by (rule cr_step [OF cr_start]) (simp add: one_in_flight_def acc(3))
  note half = calm_chunk(2,3) [OF this acc(1,3)]
  have "calm_reach (\<lambda>_. []) (\<lambda>_ _. Inr ()) ?u"
    by (rule calm_chunk(1)) (use half acc(2) in \<open>simp_all add: first_half_def Let_def\<close>)
  note land = lone_chunks_land [OF this claimed_in]
  have "hd (up_sessions ?u) \<in> set (up_sessions ?u)" "se_id (hd (up_sessions ?u)) = se_id ?s" "se_received ?s = 2"
    by code_simp+
  from land [OF this(1,2)] this(3) show ?thesis by (simp add: Let_def written_def)
qed

end
