(* ===== verification/Attachments.thy ===== *)
theory Attachments
  imports Message_Routes Uploads
begin

text \<open>Attachments: src/app/server/src/db/files.rs, routes/files.rs, routes/gallery.rs, thumbs.rs and the hashtags
of search/text.rs.  A directory is a map from names to bytes; the SHA-256 digest in hexadecimal, the decoder
that renders a thumbnail, base64, the clock and the Unicode tables are parameters.  A write and the rename
that publishes it are one step.\<close>

type_synonym directory = "string \<Rightarrow> byte list option"

section \<open>Hashtags\<close>

text \<open>What the standard library knows of characters above ASCII, each given as its bytes.\<close>

record unicode =
  un_alnum :: "string \<Rightarrow> bool"
  un_alpha :: "string \<Rightarrow> bool"
  un_lower :: "string \<Rightarrow> string"

definition is_alphabetic :: "unicode \<Rightarrow> string \<Rightarrow> bool" where
  "is_alphabetic u c =
     (case c of [b] \<Rightarrow> is_ascii_alphanumeric b \<and> \<not> is_ascii_digit b | _ \<Rightarrow> un_alpha u c)"

definition char_lowercase :: "unicode \<Rightarrow> string \<Rightarrow> string" where
  "char_lowercase u c = (case c of [b] \<Rightarrow> to_ascii_lowercase c | _ \<Rightarrow> un_lower u c)"

definition MAX_TAG_CHARS :: nat where "MAX_TAG_CHARS = 64"

definition is_tag_char :: "unicode \<Rightarrow> string \<Rightarrow> bool" where
  "is_tag_char u c \<longleftrightarrow> is_alphanumeric (un_alnum u) c \<or> c = ''_'' \<or> c = ''-''"

function tag_loop :: "unicode \<Rightarrow> string option \<Rightarrow> string list \<Rightarrow> string list \<Rightarrow> string list" where
  "tag_loop u prev [] out = out"
| "tag_loop u prev (c # cs) out =
     (if c \<noteq> ''#'' \<or> \<not> (case prev of None \<Rightarrow> True | Some p \<Rightarrow> is_whitespace p)
      then tag_loop u (Some c) cs out
      else let name = takeWhile (is_tag_char u) cs; tag = concat (map (char_lowercase u) name)
           in tag_loop u (Some (last (c # name))) (dropWhile (is_tag_char u) cs)
                (if list_ex (is_alphabetic u) name \<and> tag \<noteq> [] \<and> char_count tag \<le> MAX_TAG_CHARS
                    \<and> tag \<notin> set out
                 then out @ [tag] else out))"
  by pat_completeness auto
termination
  by (relation "measure (\<lambda>(_, _, cs, _). length cs)")
     (simp_all add: length_dropWhile_le less_Suc_eq_le)

definition hashtags :: "unicode \<Rightarrow> string \<Rightarrow> string list" where
  "hashtags u s = tag_loop u None (utf8_chars s) []"

section \<open>Thumbnails\<close>

definition ext_of :: "string \<Rightarrow> string" where
  "ext_of stored = (case rsplit_once (CHR ''.'') stored of None \<Rightarrow> [] | Some (_, e) \<Rightarrow> e)"

definition sidecar_name :: "string \<Rightarrow> string option" where
  "sidecar_name stored =
     Option.bind (rsplit_once (CHR ''.'') stored) (\<lambda>(stem, _).
       if length stem = 64 \<and> list_all is_ascii_hexdigit stem then Some (stem @ ''.thumb.jpg'') else None)"

definition is_thumbable_image :: "string \<Rightarrow> bool" where
  "is_thumbable_image ext \<longleftrightarrow> ext \<in> set [''png'', ''jpg'', ''jpeg'', ''webp'', ''gif'', ''bmp'']"

definition is_video :: "string \<Rightarrow> bool" where
  "is_video ext \<longleftrightarrow> ext \<in> set [''mp4'', ''m4v'', ''webm'', ''ogv'', ''mov'']"

definition thumb_exists :: "directory \<Rightarrow> string \<Rightarrow> bool" where
  "thumb_exists dir stored = (case sidecar_name stored of None \<Rightarrow> False | Some name \<Rightarrow> dir name \<noteq> None)"

definition store_thumb :: "string \<Rightarrow> byte list \<Rightarrow> directory \<Rightarrow> directory" where
  "store_thumb stored jpeg dir =
     (case sidecar_name stored of
        None \<Rightarrow> dir
      | Some name \<Rightarrow> if dir name \<noteq> None then dir else dir(name \<mapsto> jpeg))"

definition accompany :: "(byte list \<Rightarrow> byte list option) \<Rightarrow> string \<Rightarrow> byte list \<Rightarrow> directory \<Rightarrow> directory" where
  "accompany render stored bytes dir =
     (if \<not> is_thumbable_image (ext_of stored) \<or> thumb_exists dir stored then dir
      else case render bytes of None \<Rightarrow> dir | Some jpeg \<Rightarrow> store_thumb stored jpeg dir)"

definition accompany_file :: "(byte list \<Rightarrow> byte list option) \<Rightarrow> string \<Rightarrow> nat \<Rightarrow> directory \<Rightarrow> directory" where
  "accompany_file render stored cap dir =
     (if \<not> is_thumbable_image (ext_of stored) \<or> thumb_exists dir stored then dir
      else case dir stored of
        None \<Rightarrow> dir
      | Some bytes \<Rightarrow> if cap < length bytes then dir else accompany render stored bytes dir)"

section \<open>The table of attachments\<close>

record file_row =
  fl_id :: string
  fl_room :: string
  fl_uploader :: string
  fl_filename :: string
  fl_stored :: string
  fl_mime :: string
  fl_size :: nat
  fl_caption :: string
  fl_created :: int

record file_meta =
  fm_id :: string
  fm_room :: string
  fm_uploader :: string
  fm_filename :: string
  fm_mime :: string
  fm_size :: nat
  fm_caption :: string
  fm_tags :: "string list"
  fm_url :: string
  fm_created_at :: string

text \<open>The database with the attachments and the directories of the server.\<close>

record attachments =
  at_db :: server_db
  at_files :: "file_row list"
  at_dir :: directory
  at_images :: directory
  at_uploads :: uploads

definition KIND_FILE :: string where "KIND_FILE = ''file''"

definition file_meta_of :: "unicode \<Rightarrow> (int \<Rightarrow> string) \<Rightarrow> file_row \<Rightarrow> file_meta" where
  "file_meta_of u iso_ms f =
     \<lparr>fm_id = fl_id f, fm_room = fl_room f, fm_uploader = fl_uploader f, fm_filename = fl_filename f,
      fm_mime = fl_mime f, fm_size = fl_size f, fm_caption = fl_caption f,
      fm_tags = hashtags u (fl_caption f), fm_url = ''/api/files/'' @ fl_id f @ ''/raw'',
      fm_created_at = iso_ms (fl_created f)\<rparr>"

definition read_file :: "unicode \<Rightarrow> (int \<Rightarrow> string) \<Rightarrow> string \<Rightarrow> attachments \<Rightarrow> file_meta option" where
  "read_file u iso_ms fid a = map_option (file_meta_of u iso_ms) (find (\<lambda>f. fl_id f = fid) (at_files a))"

definition stored_name :: "string \<Rightarrow> attachments \<Rightarrow> string option" where
  "stored_name fid a = map_option fl_stored (find (\<lambda>f. fl_id f = fid) (at_files a))"

definition index_file :: "int \<Rightarrow> file_meta \<Rightarrow> db \<Rightarrow> db" where
  "index_file now f d =
     (let body = (if trim (fm_caption f) = [] then fm_filename f else fm_filename f @ '' '' @ fm_caption f)
      in upsert_doc KIND_FILE (fm_id f) (Some (fm_room f)) (Some (fm_uploader f)) now body d)"

text \<open>create: the row that is inserted carries the clock; the room is a foreign key.\<close>

definition create_file ::
  "unicode \<Rightarrow> (int \<Rightarrow> string) \<Rightarrow> clock \<Rightarrow> file_row \<Rightarrow> attachments \<Rightarrow> db_error + (file_meta \<times> attachments)" where
  "create_file u iso_ms clk new a =
     (if fl_id new \<in> fl_id ` set (at_files a) \<or> fl_room new \<notin> set (db_rooms (sv_store (at_db a)))
      then Inl Sql_constraint
      else let a' = a\<lparr>at_files := at_files a @ [new\<lparr>fl_created := clk 0\<rparr>]\<rparr>
           in case read_file u iso_ms (fl_id new) a' of
                None \<Rightarrow> Inl (Internal ''file vanished after insert'')
              | Some f \<Rightarrow>
                  Inr (f, a'\<lparr>at_db := (at_db a)\<lparr>sv_store := index_file (clk 1) f (sv_store (at_db a))\<rparr>\<rparr>))"

text \<open>The rows of a room, newest first; rows of one instant by their rowid, newest first.\<close>

definition newest_files :: "(file_row \<Rightarrow> bool) \<Rightarrow> attachments \<Rightarrow> file_row list" where
  "newest_files keep a = sort_key (\<lambda>f. - fl_created f) (rev (filter keep (at_files a)))"

definition list_for_room ::
  "unicode \<Rightarrow> (int \<Rightarrow> string) \<Rightarrow> string \<Rightarrow> string option \<Rightarrow> nat \<Rightarrow> attachments \<Rightarrow> file_meta list" where
  "list_for_room u iso_ms room tag limit a =
     map (file_meta_of u iso_ms) (take limit (newest_files
       (\<lambda>f. fl_room f = room \<and>
          (case tag of None \<Rightarrow> True
           | Some t \<Rightarrow> \<exists>x \<in> set (db_docs (sv_store (at_db a))).
                        sd_kind x = KIND_FILE \<and> sd_ref x = fl_id f \<and> t \<in> set (hashtags u (sd_text x)))) a))"

text \<open>The extension of a stored name starts at its 66th character.\<close>

definition media_for_room ::
  "unicode \<Rightarrow> (int \<Rightarrow> string) \<Rightarrow> string \<Rightarrow> int \<Rightarrow> nat \<Rightarrow> string list \<Rightarrow> attachments
     \<Rightarrow> (file_meta \<times> string \<times> int) list" where
  "media_for_room u iso_ms room before_ms limit exts a =
     (if exts = [] then []
      else map (\<lambda>f. (file_meta_of u iso_ms f, fl_stored f, fl_created f))
             (take limit (newest_files
                (\<lambda>f. fl_room f = room \<and> fl_created f < before_ms \<and> drop 65 (fl_stored f) \<in> set exts) a)))"

definition delete_file :: "string \<Rightarrow> attachments \<Rightarrow> bool \<times> attachments" where
  "delete_file fid a =
     (fid \<in> fl_id ` set (at_files a),
      a\<lparr>at_files := [f \<leftarrow> at_files a. fl_id f \<noteq> fid],
        at_db := (at_db a)\<lparr>sv_store := unindex KIND_FILE fid (sv_store (at_db a))\<rparr>\<rparr>)"

definition stored_names_for_room :: "string \<Rightarrow> attachments \<Rightarrow> string list" where
  "stored_names_for_room room a = remdups (map fl_stored [f \<leftarrow> at_files a. fl_room f = room])"

definition orphan_candidates :: "string list \<Rightarrow> attachments \<Rightarrow> string list" where
  "orphan_candidates names a = [n \<leftarrow> names. n \<notin> fl_stored ` set (at_files a)]"

section \<open>Names, ranges and headers\<close>

text \<open>extension_of: the characters after the last dot that are letters or digits of ASCII.\<close>

definition extension_of :: "string \<Rightarrow> string" where
  "extension_of filename =
     (let ext = take 8 (to_ascii_lowercase (filter is_ascii_alphanumeric (ext_of filename)))
      in if ext = [] then ''bin'' else ext)"

definition INLINE_MEDIA :: "(string \<times> string) list" where
  "INLINE_MEDIA =
     [(''png'', ''image/png''), (''gif'', ''image/gif''), (''webp'', ''image/webp''), (''avif'', ''image/avif''),
      (''bmp'', ''image/bmp''), (''jpg'', ''image/jpeg''), (''jpeg'', ''image/jpeg''), (''mp4'', ''video/mp4''),
      (''m4v'', ''video/mp4''), (''webm'', ''video/webm''), (''ogv'', ''video/ogg''), (''mov'', ''video/quicktime'')]"

definition inline_media_mime :: "string \<Rightarrow> string option" where
  "inline_media_mime ext = map_of INLINE_MEDIA ext"

definition download_scope :: "string \<Rightarrow> string" where "download_scope fid = ''file:'' @ fid"

text \<open>validated_path: the digest, and the name under the directory of the attachments.\<close>

definition validated_path :: "string \<Rightarrow> api_error + (string \<times> string)" where
  "validated_path stored =
     (case rsplit_once (CHR ''.'') stored of
        None \<Rightarrow> Inl (Not_found ''File not found'')
      | Some (stem, ext) \<Rightarrow>
          ensure (length stem = 64 \<and> list_all is_ascii_hexdigit stem \<and> ext \<noteq> [] \<and> length ext \<le> 8
                  \<and> list_all is_ascii_alphanumeric ext)
            (Not_found ''File not found'') (Inr (to_ascii_lowercase stem, stored)))"

definition parse_u64 :: "string \<Rightarrow> nat option" where "parse_u64 s = from_str_radix u64_limit 10 s"

text \<open>parse_range: the header as text; the refusal of a range is \<^verbatim>\<open>Inl ()\<close>.\<close>

definition range_bounds :: "string \<Rightarrow> string \<Rightarrow> nat \<Rightarrow> unit + (nat \<times> nat)" where
  "range_bounds from to size_now =
     (if from = [] \<and> to = [] then Inl ()
      else if from = [] then
        try_bind (ok_or () (parse_u64 to)) (\<lambda>n.
          if n = 0 then Inl () else Inr (size_now - n, size_now - 1))
      else if to = [] then try_bind (ok_or () (parse_u64 from)) (\<lambda>s. Inr (s, size_now - 1))
      else
        try_bind (ok_or () (parse_u64 from)) (\<lambda>s.
        try_bind (ok_or () (parse_u64 to)) (\<lambda>e.
          if e < s then Inl () else Inr (s, min e (size_now - 1)))))"

definition parse_range :: "string option \<Rightarrow> nat \<Rightarrow> unit + (nat \<times> nat) option" where
  "parse_range header size_now =
     (case header of
        None \<Rightarrow> Inr None
      | Some raw \<Rightarrow>
          (case strip_prefix ''bytes='' (trim raw) of
             None \<Rightarrow> Inr None
           | Some spec \<Rightarrow>
               if CHR '','' \<in> set spec then Inr None
               else case split_once (CHR ''-'') spec of
                 None \<Rightarrow> Inl ()
               | Some (from, to) \<Rightarrow>
                   if size_now = 0 then Inl ()
                   else try_bind (range_bounds (trim from) (trim to) size_now) (\<lambda>(start, end_at).
                          if size_now \<le> start then Inl () else Inr (Some (start, end_at)))))"

fun hex_to_bytes :: "string \<Rightarrow> byte list" where
  "hex_to_bytes (a # b # s) =
     (case from_str_radix 256 16 [a, b] of None \<Rightarrow> hex_to_bytes s | Some n \<Rightarrow> word_of_nat n # hex_to_bytes s)"
| "hex_to_bytes [a] = (case from_str_radix 256 16 [a] of None \<Rightarrow> [] | Some n \<Rightarrow> [word_of_nat n])"
| "hex_to_bytes [] = []"

definition escape_byte :: "char \<Rightarrow> string" where
  "escape_byte c =
     (if is_ascii_alphanumeric c \<or> c \<in> {CHR ''-'', CHR ''.'', CHR ''_'', CHR ''~''} then [c]
      else CHR ''%'' # map ascii_upper_char (hex_encode (bytes_of [c])))"

definition url_escape :: "string \<Rightarrow> string" where "url_escape s = concat (map escape_byte s)"

definition percent_encode :: "string \<Rightarrow> string" where "percent_encode s = concat (map escape_byte s)"

definition ascii_fallback :: "string \<Rightarrow> string" where
  "ascii_fallback s =
     (let mapped = map (\<lambda>c. case c of [b] \<Rightarrow> if 32 \<le> (of_char b :: nat) \<and> (of_char b :: nat) < 127 then b else CHR ''_''
                                    | _ \<Rightarrow> CHR ''_'') (utf8_chars s);
          trimmed = trim mapped
      in if trimmed = [] then ''download'' else trimmed)"

section \<open>Uploading\<close>

definition MAX_FILE_BYTES :: nat where "MAX_FILE_BYTES = 25 * 1024 * 1024"

definition file_room :: "string \<Rightarrow> string \<Rightarrow> (string \<Rightarrow> api_error + 'a) \<Rightarrow> api_error + 'a" where
  "file_room raw msg k = (case room_id_new raw of Inl _ \<Rightarrow> Inl (Not_found msg) | Inr r \<Rightarrow> k (room_str r))"

lemma file_room_Inr [simp]:
  "file_room raw msg k = Inr y \<longleftrightarrow> (\<exists>r. room_id_new raw = Inr r \<and> k (room_str r) = Inr y)"
  by (auto simp: file_room_def split: sum.splits)

text \<open>upload up to the row: the checks, the name the content gets, and the bytes on disk.\<close>

definition upload_checked ::
  "(byte list \<Rightarrow> string) \<Rightarrow> string \<Rightarrow> string \<Rightarrow> string option \<Rightarrow> string option \<Rightarrow> byte list \<Rightarrow> string \<Rightarrow> attachments
     \<Rightarrow> api_error + file_row" where
  "upload_checked sha caller raw_room filename caption body new_id a =
     file_room raw_room ''Room not found'' (\<lambda>room.
     require_member room caller (at_db a)
    (try_bind (validate_filename filename) (\<lambda>filename.
     try_bind (validate_caption caption) (\<lambda>caption.
     ensure (body \<noteq> []) (Bad_request ''Empty file'')
       (Inr \<lparr>fl_id = new_id, fl_room = room, fl_uploader = caller, fl_filename = filename,
             fl_stored = sha body @ ''.'' @ extension_of filename, fl_mime = ''application/octet-stream'',
             fl_size = length body, fl_caption = caption, fl_created = 0\<rparr>)))))"

definition upload_bytes ::
  "(byte list \<Rightarrow> byte list option) \<Rightarrow> string \<Rightarrow> byte list \<Rightarrow> attachments \<Rightarrow> attachments" where
  "upload_bytes render stored body a =
     (let dir = (if at_dir a stored = None then (at_dir a)(stored \<mapsto> body) else at_dir a)
      in a\<lparr>at_dir := accompany render stored body dir\<rparr>)"

definition upload_row ::
  "unicode \<Rightarrow> (int \<Rightarrow> string) \<Rightarrow> clock \<Rightarrow> file_row \<Rightarrow> attachments \<Rightarrow> (api_error + file_meta) \<times> attachments" where
  "upload_row u iso_ms clk new a =
     (case create_file u iso_ms clk new a of Inl e \<Rightarrow> (Inl (Database e), a) | Inr (f, a') \<Rightarrow> (Inr f, a'))"

definition upload_route ::
  "unicode \<Rightarrow> (byte list \<Rightarrow> string) \<Rightarrow> (byte list \<Rightarrow> byte list option) \<Rightarrow> (int \<Rightarrow> string) \<Rightarrow> clock \<Rightarrow> string
     \<Rightarrow> string \<Rightarrow> string \<Rightarrow> string option \<Rightarrow> string option \<Rightarrow> byte list \<Rightarrow> attachments
     \<Rightarrow> (api_error + file_meta) \<times> attachments" where
  "upload_route u sha render iso_ms clk new_id caller raw_room filename caption body a =
     (case upload_checked sha caller raw_room filename caption body new_id a of
        Inl e \<Rightarrow> (Inl e, a)
      | Inr new \<Rightarrow> upload_row u iso_ms clk new (upload_bytes render (fl_stored new) body a))"

text \<open>finalize_upload: the bytes of a finished session, moved under the name of their digest.\<close>

definition finalize_room :: "string \<Rightarrow> session \<Rightarrow> attachments \<Rightarrow> api_error + string" where
  "finalize_room caller s a =
     (case se_room s of
        None \<Rightarrow> Inl (Internal_error ''file session with no room'')
      | Some raw \<Rightarrow> file_room raw ''Room not found'' (\<lambda>room. require_member room caller (at_db a) (Inr room)))"

definition finalize_bytes ::
  "(byte list \<Rightarrow> byte list option) \<Rightarrow> string \<Rightarrow> string \<Rightarrow> attachments \<Rightarrow> attachments" where
  "finalize_bytes render stored temp a =
     (let files = up_files (at_uploads a);
          dir = (if at_dir a stored = None then (at_dir a)(stored := files temp) else at_dir a)
      in a\<lparr>at_dir := accompany_file render stored MAX_FILE_BYTES dir,
           at_uploads := (at_uploads a)\<lparr>up_files := files(temp := None)\<rparr>\<rparr>)"

definition finalize_file ::
  "unicode \<Rightarrow> (byte list \<Rightarrow> byte list option) \<Rightarrow> (int \<Rightarrow> string) \<Rightarrow> clock \<Rightarrow> string \<Rightarrow> string \<Rightarrow> session \<Rightarrow> string \<Rightarrow> string
     \<Rightarrow> attachments \<Rightarrow> (api_error + file_meta) \<times> attachments" where
  "finalize_file u render iso_ms clk new_id caller s temp digest a =
     (let stored = digest @ ''.'' @ extension_of (se_filename s) in
      case finalize_room caller s a of
        Inl e \<Rightarrow> (Inl e, a)
      | Inr room \<Rightarrow>
          if at_dir a stored = None \<and> up_files (at_uploads a) temp = None
          then (Inl (Internal_error ''rename failed''), a)
          else upload_row u iso_ms clk
                 \<lparr>fl_id = new_id, fl_room = room, fl_uploader = caller, fl_filename = se_filename s,
                  fl_stored = stored, fl_mime = ''application/octet-stream'', fl_size = se_declared s,
                  fl_caption = se_caption s, fl_created = 0\<rparr> (finalize_bytes render stored temp a))"

section \<open>Reading and deleting\<close>

definition list_files_route ::
  "unicode \<Rightarrow> (string \<Rightarrow> string) \<Rightarrow> (int \<Rightarrow> string) \<Rightarrow> string \<Rightarrow> string \<Rightarrow> string option \<Rightarrow> int option \<Rightarrow> attachments
     \<Rightarrow> api_error + file_meta list" where
  "list_files_route u lowercase iso_ms caller raw_room tag limit a =
     file_room raw_room ''Room not found'' (\<lambda>room.
     require_member room caller (at_db a)
       (let tag = map_option (\<lambda>t. lowercase (dropWhile (\<lambda>c. c = CHR ''#'') (trim t))) tag;
            tag = (if tag = Some [] then None else tag);
            limit = max 1 (min 200 (case limit of None \<Rightarrow> 100 | Some n \<Rightarrow> n))
        in Inr (list_for_room u iso_ms room tag (nat limit) a)))"

definition visible_file ::
  "unicode \<Rightarrow> (int \<Rightarrow> string) \<Rightarrow> string \<Rightarrow> string \<Rightarrow> attachments \<Rightarrow> api_error + file_meta" where
  "visible_file u iso_ms caller fid a =
     found ''File not found'' (read_file u iso_ms fid a) (\<lambda>f.
     file_room (fm_room f) ''File not found'' (\<lambda>_.
     ensure (is_member (fm_room f) caller (at_db a)) (Not_found ''File not found'') (Inr f)))"

definition remove_file_route ::
  "unicode \<Rightarrow> (int \<Rightarrow> string) \<Rightarrow> string \<Rightarrow> string \<Rightarrow> attachments \<Rightarrow> api_error + attachments" where
  "remove_file_route u iso_ms caller fid a =
     try_bind (visible_file u iso_ms caller fid a) (\<lambda>f.
     ensure (fm_uploader f = caller \<or> is_admin (fm_room f) caller (at_db a))
       (Forbidden ''Only the uploader or a room admin can delete an attachment'')
       (Inr (snd (delete_file fid a))))"

text \<open>resolve_downloader: the verification of a capability against its scope and of a bearer token are
parameters.\<close>

definition resolve_downloader ::
  "(string \<Rightarrow> string \<Rightarrow> api_error + string) \<Rightarrow> (string \<Rightarrow> api_error + string) \<Rightarrow> string option \<Rightarrow> string \<Rightarrow> string option
     \<Rightarrow> api_error + string" where
  "resolve_downloader verify_download verify bearer fid dl =
     (case dl of
        Some token \<Rightarrow> verify_download token (download_scope fid)
      | None \<Rightarrow> try_bind (ok_or (Unauthorized ''Missing token'') bearer) verify)"

record download =
  dn_status :: nat
  dn_body :: "byte list"
  dn_content_range :: "string option"
  dn_repr_digest :: string
  dn_sha256 :: string
  dn_type :: string
  dn_disposition :: string

text \<open>download: the length header is that of the body; a range that cannot be met is an answer without one.\<close>

definition download_answer ::
  "(byte list \<Rightarrow> string) \<Rightarrow> string option \<Rightarrow> bool \<Rightarrow> string \<Rightarrow> string \<Rightarrow> string \<Rightarrow> byte list \<Rightarrow> nat + download" where
  "download_answer base64 header want_inline filename stored digest bytes =
     (let size_now = length bytes in
      case parse_range header size_now of
        Inl _ \<Rightarrow> Inl size_now
      | Inr asked \<Rightarrow>
          (let (start, end_at) = (case asked of Some r \<Rightarrow> r | None \<Rightarrow> (0, size_now - 1));
               len = (if size_now = 0 then 0 else end_at - start + 1);
               mime = inline_media_mime (ext_of stored);
               inline = (want_inline \<and> mime \<noteq> None)
           in Inr \<lparr>dn_status = (if asked = None then 200 else 206),
                   dn_body = take len (drop start bytes),
                   dn_content_range = (if asked = None then None
                     else Some (''bytes '' @ decimal start @ ''-'' @ decimal end_at @ ''/'' @ decimal size_now)),
                   dn_repr_digest = ''sha-256=:'' @ base64 (hex_to_bytes digest) @ '':'',
                   dn_sha256 = digest,
                   dn_type = (if inline then the mime else ''application/octet-stream''),
                   dn_disposition = (if inline then ''inline'' else ''attachment'') @ ''; filename='' @ [CHR 0x22]
                     @ ascii_fallback filename @ [CHR 0x22] @ ''; filename*=UTF-8'' @ [CHR 0x27, CHR 0x27]
                     @ percent_encode filename\<rparr>))"

definition download_route ::
  "unicode \<Rightarrow> (byte list \<Rightarrow> string) \<Rightarrow> (int \<Rightarrow> string) \<Rightarrow> (api_error + string) \<Rightarrow> string option \<Rightarrow> bool \<Rightarrow> string \<Rightarrow> attachments
     \<Rightarrow> api_error + (nat + download)" where
  "download_route u base64 iso_ms downloader header want_inline fid a =
     try_bind downloader (\<lambda>caller.
     try_bind (visible_file u iso_ms caller fid a) (\<lambda>f.
     found ''File not found'' (stored_name fid a) (\<lambda>stored.
     try_bind (validated_path stored) (\<lambda>(digest, path).
     found ''File not found'' (at_dir a path) (\<lambda>bytes.
       Inr (download_answer base64 header want_inline (fm_filename f) stored digest bytes))))))"

section \<open>The gallery\<close>

datatype gallery_item = Gallery_file file_meta bool | Gallery_hosted shown_media bool

definition kind_of_media :: "string \<Rightarrow> string" where
  "kind_of_media ext = (if is_video ext then ''video'' else ''image'')"

text \<open>list of gallery.rs: the items with their time, newest first, attachments before hosted media of the
same instant; whether each has a thumbnail; and whether there are more.\<close>

definition gallery_route ::
  "unicode \<Rightarrow> (int \<Rightarrow> string) \<Rightarrow> string \<Rightarrow> string \<Rightarrow> int option \<Rightarrow> int option \<Rightarrow> attachments
     \<Rightarrow> api_error + ((int \<times> gallery_item) list \<times> bool)" where
  "gallery_route u iso_ms caller raw_room limit before a =
     file_room raw_room ''Room not found'' (\<lambda>room.
     require_member room caller (at_db a)
       (let limit = nat (max 1 (min 500 (case limit of None \<Rightarrow> 200 | Some n \<Rightarrow> n)));
            before = (case before of None \<Rightarrow> 2 ^ 63 - 1 | Some n \<Rightarrow> n);
            attached = map (\<lambda>(f, stored, ms). (ms, Gallery_file f (thumb_exists (at_dir a) stored)))
              (media_for_room u iso_ms room before (limit + 1) (map fst INLINE_MEDIA) a);
            hosted = map (\<lambda>s. (sh_created_ms s, Gallery_hosted s (thumb_exists (at_images a) (sh_name s))))
              (shown_for_room room before (limit + 1) (sv_store (at_db a)));
            items = sort_key (\<lambda>i. - fst i) (attached @ hosted)
        in Inr (take limit items, limit < length items)))"

end
