(* ===== verification/Purge.thy ===== *)
theory Purge
  imports Attachments
begin

text \<open>Destroying a room down to the disk: src/app/server/src/purge.rs.  The three accesses to the database are
definitions of their own, since other requests may run between them.  \<^verbatim>\<open>stuck\<close> holds the names that the
file system refuses to remove; a missing file counts as removed.\<close>

record purge_report =
  pr_attachments :: nat
  pr_media :: nat
  pr_uploads :: nat
  pr_failed :: nat

record candidates =
  cd_stored :: "string list"
  cd_media :: "string list"
  cd_temp :: "string list"

section \<open>Unlinking\<close>

text \<open>Path::components on Unix: empty parts vanish, and so does a dot that is not the first part.\<close>

datatype component = Root_dir | Cur_dir | Parent_dir | Normal string

definition component_of :: "string \<Rightarrow> component" where
  "component_of s = (if s = ''.'' then Cur_dir else if s = ''..'' then Parent_dir else Normal s)"

definition path_components :: "string \<Rightarrow> component list" where
  "path_components path =
     (let parts = split_char (CHR ''/'') path; kept = filter (\<lambda>s. s \<noteq> [] \<and> s \<noteq> ''.'')
      in if starts_with ''/'' path then Root_dir # map component_of (kept parts)
         else case parts of
           [] \<Rightarrow> []
         | s # ss \<Rightarrow> map component_of ((if s = [] then [] else [s]) @ kept ss))"

definition is_plain_filename :: "string \<Rightarrow> bool" where
  "is_plain_filename name = (case path_components name of [Normal _] \<Rightarrow> True | _ \<Rightarrow> False)"

definition remove_named :: "(string \<Rightarrow> bool) \<Rightarrow> string \<Rightarrow> directory \<Rightarrow> bool \<times> directory" where
  "remove_named stuck name dir = (if stuck name then (False, dir) else (True, dir(name := None)))"

definition unlink :: "(string \<Rightarrow> bool) \<Rightarrow> string \<Rightarrow> directory \<Rightarrow> bool \<times> directory" where
  "unlink stuck name dir = (if is_plain_filename name then remove_named stuck name dir else (False, dir))"

definition unlink_sidecar :: "(string \<Rightarrow> bool) \<Rightarrow> string \<Rightarrow> directory \<Rightarrow> bool \<times> directory" where
  "unlink_sidecar stuck stored dir =
     (case sidecar_name stored of None \<Rightarrow> (True, dir) | Some name \<Rightarrow> remove_named stuck name dir)"

text \<open>The loops: the directory, how many names were removed and how many removals failed.\<close>

definition unlink_with_sidecar ::
  "(string \<Rightarrow> bool) \<Rightarrow> string \<Rightarrow> directory \<times> nat \<times> nat \<Rightarrow> directory \<times> nat \<times> nat" where
  "unlink_with_sidecar stuck name = (\<lambda>(dir, gone, failed).
     let (ok, dir) = unlink stuck name dir; (ok', dir) = unlink_sidecar stuck name dir
     in (dir, (if ok then gone + 1 else gone), failed + (if ok then 0 else 1) + (if ok' then 0 else 1)))"

definition unlink_temp ::
  "(string \<Rightarrow> bool) \<Rightarrow> string \<Rightarrow> directory \<times> nat \<times> nat \<Rightarrow> directory \<times> nat \<times> nat" where
  "unlink_temp stuck name = (\<lambda>(dir, gone, failed).
     let (ok, dir) = unlink stuck name dir in if ok then (dir, gone + 1, failed) else (dir, gone, failed + 1))"

section \<open>Gather, delete, unlink\<close>

definition purge_gather :: "string \<Rightarrow> attachments \<Rightarrow> candidates" where
  "purge_gather room a =
     \<lparr>cd_stored = stored_names_for_room room a, cd_media = names_for_room room (sv_store (at_db a)),
      cd_temp = map se_temp (sessions_for_room room (at_uploads a))\<rparr>"

text \<open>The rows of the attachments go with the room.\<close>

definition purge_delete :: "string \<Rightarrow> attachments \<Rightarrow> attachments" where
  "purge_delete room a =
     a\<lparr>at_uploads := fold (\<lambda>s. delete_session (se_id s)) (sessions_for_room room (at_uploads a)) (at_uploads a),
       at_db := delete_room room (at_db a), at_files := [f \<leftarrow> at_files a. fl_room f \<noteq> room]\<rparr>"

definition purge_orphans :: "string list \<Rightarrow> string list \<Rightarrow> candidates \<Rightarrow> attachments \<Rightarrow> string list \<times> string list" where
  "purge_orphans profiles notes c a =
     (orphan_candidates (cd_stored c) a, unreferenced profiles notes (cd_media c) (sv_store (at_db a)))"

definition purge_unlink ::
  "(string \<Rightarrow> bool) \<Rightarrow> string list \<Rightarrow> string list \<Rightarrow> string list \<Rightarrow> attachments \<Rightarrow> purge_report \<times> attachments" where
  "purge_unlink stuck orphan_files orphan_media temps a =
     (let (dir, attached, failed1) = fold (unlink_with_sidecar stuck) orphan_files (at_dir a, 0, 0);
          (images, media, failed2) = fold (unlink_with_sidecar stuck) orphan_media (at_images a, 0, failed1);
          (temp_dir, dropped, failed3) = fold (unlink_temp stuck) temps (up_files (at_uploads a), 0, failed2)
      in (\<lparr>pr_attachments = attached, pr_media = media, pr_uploads = dropped, pr_failed = failed3\<rparr>,
          a\<lparr>at_dir := dir, at_images := images, at_uploads := (at_uploads a)\<lparr>up_files := temp_dir\<rparr>\<rparr>))"

definition destroy_room ::
  "string list \<Rightarrow> string list \<Rightarrow> (string \<Rightarrow> bool) \<Rightarrow> string \<Rightarrow> attachments \<Rightarrow> purge_report \<times> attachments" where
  "destroy_room profiles notes stuck room a =
     (let c = purge_gather room a; a = purge_delete room a;
          (orphan_files, orphan_media) = purge_orphans profiles notes c a
      in purge_unlink stuck orphan_files orphan_media (cd_temp c) a)"

end
