(* ===== verification/Attachment_Spec.thy ===== *)
theory Attachment_Spec
  imports Purge Room_Properties
begin

text \<open>What the attachments and the purge promise: every row has its bytes, the purge takes what the room
held and leaves what the others hold, and the histories in which it does not.\<close>

section \<open>Names of stored content\<close>

definition content_name :: "string \<Rightarrow> bool" where
  "content_name n \<longleftrightarrow>
     (\<exists>stem ext. n = stem @ ''.'' @ ext \<and> length stem = 64 \<and> list_all is_ascii_hexdigit stem
        \<and> ext \<noteq> [] \<and> list_all is_ascii_alphanumeric ext)"

lemma rsplit_once_last: "c \<notin> set b \<Longrightarrow> rsplit_once c (a @ c # b) = Some (a, b)"
  using split_once_append [of c "rev b" "rev a"] by (simp add: rsplit_once_def)

lemma rsplit_once_parts: "rsplit_once (CHR ''.'') n = Some (a, b) \<Longrightarrow> n = a @ ''.'' @ b"
proof -
  assume "rsplit_once (CHR ''.'') n = Some (a, b)"
  then have "split_once (CHR ''.'') (rev n) = Some (rev b, rev a)" by (auto simp: rsplit_once_def)
  then have "rev n = rev b @ CHR ''.'' # rev a" using split_once_Some by blast
  then have "rev (rev n) = rev (rev b @ CHR ''.'' # rev a)" by simp
  then show ?thesis by simp
qed

lemma no_dot: "list_all is_ascii_alphanumeric s \<Longrightarrow> CHR ''.'' \<notin> set s \<and> CHR ''/'' \<notin> set s"
  by (auto simp: list_all_iff is_ascii_alphanumeric_def char_class_codes)

lemma hexdigit_alphanumeric: "is_ascii_hexdigit c \<Longrightarrow> is_ascii_alphanumeric c"
  by (auto simp: is_ascii_alphanumeric_def char_class_codes)

lemma content_parts:
  assumes "length stem = 64" "list_all is_ascii_hexdigit stem" "ext \<noteq> []" "list_all is_ascii_alphanumeric ext"
  shows "rsplit_once (CHR ''.'') (stem @ ''.'' @ ext) = Some (stem, ext)"
    "sidecar_name (stem @ ''.'' @ ext) = Some (stem @ ''.thumb.jpg'')"
    "ext_of (stem @ ''.'' @ ext) = ext"
proof -
  show "rsplit_once (CHR ''.'') (stem @ ''.'' @ ext) = Some (stem, ext)"
    using rsplit_once_last [of _ ext stem] no_dot [OF assms(4)] by simp
  then show "sidecar_name (stem @ ''.'' @ ext) = Some (stem @ ''.thumb.jpg'')" "ext_of (stem @ ''.'' @ ext) = ext"
    using assms by (simp_all add: sidecar_name_def ext_of_def)
qed

lemma content_nameE:
  assumes "content_name n"
  obtains stem ext where "n = stem @ ''.'' @ ext" "length stem = 64" "list_all is_ascii_hexdigit stem" "ext \<noteq> []"
    "list_all is_ascii_alphanumeric ext" "rsplit_once (CHR ''.'') n = Some (stem, ext)"
    "sidecar_name n = Some (stem @ ''.thumb.jpg'')"
  using assms content_parts that unfolding content_name_def by metis

lemma sidecar_not_content: "content_name n \<Longrightarrow> sidecar_name m \<noteq> Some n"
proof
  assume n: "content_name n" and m: "sidecar_name m = Some n"
  then obtain stem where s: "n = stem @ ''.thumb.jpg''" "length stem = 64"
    by (auto simp: sidecar_name_def bind_eq_Some_conv split: if_splits)
  have "rsplit_once (CHR ''.'') n = Some (stem @ ''.thumb'', ''jpg'')"
    using rsplit_once_last [of "CHR ''.''" "''jpg''" "stem @ ''.thumb''"] s(1) by simp
  moreover obtain t e where "rsplit_once (CHR ''.'') n = Some (t, e)" "length t = 64" using n by (rule content_nameE)
  ultimately show False using s(2) by simp
qed

lemma content_plain: "content_name n \<Longrightarrow> is_plain_filename n"
proof (erule content_nameE)
  fix stem ext assume n: "n = stem @ ''.'' @ ext" "length stem = 64" "list_all is_ascii_hexdigit stem"
    "list_all is_ascii_alphanumeric ext"
  have "CHR ''/'' \<notin> set n"
    using n no_dot [of stem] no_dot [of ext] hexdigit_alphanumeric by (auto simp: list_all_iff)
  moreover have "n \<noteq> [] \<and> n \<noteq> ''.'' \<and> n \<noteq> ''..''" using n(1,2) by (auto dest!: arg_cong [where f = length])
  moreover have "\<not> starts_with ''/'' n" using \<open>CHR ''/'' \<notin> set n\<close> by (cases n) (auto simp: starts_with_def)
  ultimately show ?thesis
    by (simp add: is_plain_filename_def path_components_def split_char_single component_of_def)
qed

lemma media_content: "is_media_name n \<Longrightarrow> content_name n"
proof -
  assume "is_media_name n"
  then obtain stem ext where p: "rsplit_once (CHR ''.'') n = Some (stem, ext)" "length stem = 64"
    "list_all is_ascii_hexdigit stem" "mime_for ext \<noteq> None"
    by (auto simp: is_media_name_def split: option.splits)
  have "n = stem @ ''.'' @ ext"
    using p(1) by (rule rsplit_once_parts)
  moreover have "ext \<in> set [''png'', ''jpg'', ''webp'', ''gif'', ''mp4'', ''webm'']"
    using p(4) by (auto simp: mime_for_def ALLOWED_MEDIA_def split: if_splits)
  then have "ext \<noteq> [] \<and> list_all is_ascii_alphanumeric ext"
    by (auto simp: is_ascii_alphanumeric_def char_class_codes)
  ultimately show ?thesis using p(2,3) unfolding content_name_def by blast
qed

section \<open>The loops of the purge\<close>

lemma unlink_loop:
  assumes "\<forall>n \<in> set ns. content_name n" "\<And>x. \<not> stuck x"
  shows "fold (unlink_with_sidecar stuck) ns (dir, g, f) =
    ((\<lambda>x. if x \<in> set ns \<or> (\<exists>n \<in> set ns. sidecar_name n = Some x) then None else dir x), g + length ns, f)"
  using assms(1)
proof (induction ns arbitrary: dir g)
  case (Cons n ns)
  obtain s where "sidecar_name n = Some s" using Cons.prems by (auto elim: content_nameE)
  with Cons assms(2) show ?case
    by (auto simp: unlink_with_sidecar_def unlink_def unlink_sidecar_def remove_named_def content_plain fun_eq_iff)
qed simp

lemma unlink_loop_keeps:
  "content_name x \<Longrightarrow> x \<notin> set ns \<Longrightarrow> fst (fold (unlink_with_sidecar stuck) ns (dir, g, f)) x = dir x"
proof (induction ns arbitrary: dir g f)
  case (Cons n ns)
  have "fst (unlink_with_sidecar stuck n (dir, g, f)) x = dir x"
    using Cons.prems sidecar_not_content [OF Cons.prems(1)]
    by (auto simp: unlink_with_sidecar_def unlink_def unlink_sidecar_def remove_named_def split: option.splits)
  moreover obtain dir' g' f' where "unlink_with_sidecar stuck n (dir, g, f) = (dir', g', f')"
    by (cases "unlink_with_sidecar stuck n (dir, g, f)")
  ultimately show ?case using Cons.IH [of dir' g' f'] Cons.prems by simp
qed simp

section \<open>Every row has its bytes\<close>

definition digest_hex :: "(byte list \<Rightarrow> string) \<Rightarrow> bool" where
  "digest_hex sha \<longleftrightarrow> (\<forall>b. length (sha b) = 64 \<and> list_all is_lower_hexdigit (sha b))"

definition content_of :: "(byte list \<Rightarrow> string) \<Rightarrow> string \<Rightarrow> byte list \<Rightarrow> bool" where
  "content_of sha n b \<longleftrightarrow>
     (\<exists>ext. n = sha b @ ''.'' @ ext \<and> ext \<noteq> [] \<and> length ext \<le> 8 \<and> list_all is_ascii_alphanumeric ext)"

definition att_ok :: "(byte list \<Rightarrow> string) \<Rightarrow> attachments \<Rightarrow> bool" where
  "att_ok sha a \<longleftrightarrow>
     (\<forall>f \<in> set (at_files a). at_dir a (fl_stored f) \<noteq> None)
     \<and> (\<forall>f \<in> set (at_files a). \<exists>b. content_of sha (fl_stored f) b)
     \<and> (\<forall>n b. content_name n \<longrightarrow> at_dir a n = Some b \<longrightarrow> (\<exists>ext. n = sha b @ ''.'' @ ext \<and> CHR ''.'' \<notin> set ext))"

lemma content_of_name: "digest_hex sha \<Longrightarrow> content_of sha n b \<Longrightarrow> content_name n"
  unfolding content_name_def content_of_def digest_hex_def
  by (metis (no_types, lifting) is_lower_hexdigit_def is_ascii_hexdigit_def list_all_iff)

lemma extension_of_ok:
  "extension_of s \<noteq> [] \<and> length (extension_of s) \<le> 8 \<and> list_all is_ascii_alphanumeric (extension_of s)"
proof -
  let ?e = "take 8 (to_ascii_lowercase (filter is_ascii_alphanumeric (ext_of s)))"
  have "is_ascii_alphanumeric (ascii_lower_char c)" if "is_ascii_alphanumeric c" for c
    using that by (auto simp: is_ascii_alphanumeric_def char_class_codes ascii_lower_char_code)
  then have "list_all is_ascii_alphanumeric ?e"
    by (auto simp: list_all_iff to_ascii_lowercase_def dest!: in_set_takeD)
  then show ?thesis
    by (auto simp: extension_of_def Let_def is_ascii_alphanumeric_def char_class_codes)
qed

lemma content_of_new: "content_of sha (sha b @ ''.'' @ extension_of s) b"
  using extension_of_ok [of s] unfolding content_of_def by blast

lemma store_thumb_keeps: "content_name n \<Longrightarrow> store_thumb stored jpeg dir n = dir n"
  using sidecar_not_content [of n stored] by (auto simp: store_thumb_def split: option.splits)

lemma accompany_keeps:
  "content_name n \<Longrightarrow> accompany render stored bytes dir n = dir n"
  "content_name n \<Longrightarrow> accompany_file render stored cap dir n = dir n"
  by (auto simp: accompany_def accompany_file_def store_thumb_keeps split: option.splits)

lemma unlink_loop_shrinks:
  "fst (fold (unlink_with_sidecar stuck) ns (dir, g, f)) x \<in> {dir x, None}"
proof (induction ns arbitrary: dir g f)
  case (Cons n ns)
  obtain dir' g' f' where u: "unlink_with_sidecar stuck n (dir, g, f) = (dir', g', f')"
    by (cases "unlink_with_sidecar stuck n (dir, g, f)")
  then have "dir' x \<in> {dir x, None}"
    by (auto simp: unlink_with_sidecar_def unlink_def unlink_sidecar_def remove_named_def
        split: option.splits if_splits)
  then show ?case using Cons.IH [of dir' g' f'] u by auto
qed simp

inductive att_step ::
  "(byte list \<Rightarrow> string) \<Rightarrow> (byte list \<Rightarrow> byte list option) \<Rightarrow> attachments \<Rightarrow> attachments \<Rightarrow> bool"
  for sha :: "byte list \<Rightarrow> string" and render :: "byte list \<Rightarrow> byte list option" where
  as_upload: "upload_route u sha render iso_ms clk new_id caller raw_room filename caption body a = (res, a')
     \<Longrightarrow> att_step sha render a a'"
| as_finish: "\<lbrakk>up_files (at_uploads a) temp = Some bytes;
     finalize_file u render iso_ms clk new_id caller s temp (sha bytes) a = (res, a')\<rbrakk> \<Longrightarrow> att_step sha render a a'"
| as_remove: "remove_file_route u iso_ms caller fid a = Inr a' \<Longrightarrow> att_step sha render a a'"
| as_destroy: "destroy_room profiles notes stuck room a = (report, a') \<Longrightarrow> att_step sha render a a'"
| as_thumbnail: "att_step sha render a (a\<lparr>at_dir := store_thumb stored jpeg (at_dir a)\<rparr>)"
| as_other: "\<lbrakk>at_files a' = at_files a; at_dir a' = at_dir a\<rbrakk> \<Longrightarrow> att_step sha render a a'"

inductive att_reach ::
  "(byte list \<Rightarrow> string) \<Rightarrow> (byte list \<Rightarrow> byte list option) \<Rightarrow> attachments \<Rightarrow> bool"
  for sha :: "byte list \<Rightarrow> string" and render :: "byte list \<Rightarrow> byte list option" where
  ar_start: "\<lbrakk>at_files a = []; at_dir a = (\<lambda>_. None)\<rbrakk> \<Longrightarrow> att_reach sha render a"
| ar_step: "\<lbrakk>att_reach sha render a; att_step sha render a a'\<rbrakk> \<Longrightarrow> att_reach sha render a'"

lemma upload_row_cases:
  assumes "upload_row u iso_ms clk new a = (res, a')"
  shows "at_dir a' = at_dir a"
    "at_files a' = at_files a \<or> at_files a' = at_files a @ [new\<lparr>fl_created := clk 0\<rparr>]"
  using assms by (auto simp: upload_row_def create_file_def Let_def split: sum.splits if_splits option.splits)

text \<open>Storing bytes under the name of their digest, with whatever thumbnail they get, and then a row.\<close>

lemma stored_ok:
  assumes ok: "att_ok sha a" and sha: "digest_hex sha" and n: "n = sha body @ ''.'' @ extension_of name"
    and dir: "\<And>x. content_name x \<Longrightarrow> at_dir a' x = (if at_dir a n = None then (at_dir a)(n \<mapsto> body) else at_dir a) x"
    and rows: "at_files a' = at_files a \<or> (\<exists>new. at_files a' = at_files a @ [new] \<and> fl_stored new = n)"
  shows "att_ok sha a'"
proof -
  have c: "content_of sha n body" unfolding n by (rule content_of_new)
  have row: "content_name (fl_stored f) \<and> at_dir a (fl_stored f) \<noteq> None" if "f \<in> set (at_files a)" for f
    using ok that content_of_name [OF sha] unfolding att_ok_def by blast
  have "at_dir a' (fl_stored f) \<noteq> None" if "f \<in> set (at_files a')" for f
    using rows that row dir [of "fl_stored f"] content_of_name [OF sha c] by auto
  moreover have "\<exists>b. content_of sha (fl_stored f) b" if "f \<in> set (at_files a')" for f
    using rows that ok c unfolding att_ok_def by auto
  moreover have "\<exists>ext. x = sha b @ ''.'' @ ext \<and> CHR ''.'' \<notin> set ext" if "content_name x" "at_dir a' x = Some b" for x b
    using that dir [OF that(1)] ok n no_dot extension_of_ok [of name] unfolding att_ok_def
    by (cases "at_dir a n = None"; cases "x = n") auto
  ultimately show ?thesis unfolding att_ok_def by blast
qed

lemma att_ok_row: "att_ok sha a \<Longrightarrow> digest_hex sha \<Longrightarrow> f \<in> set (at_files a) \<Longrightarrow> content_name (fl_stored f)"
  using content_of_name unfolding att_ok_def by blast

lemma att_ok_shrink:
  assumes "att_ok sha a" "digest_hex sha" "set (at_files a') \<subseteq> set (at_files a)"
    "\<And>f. f \<in> set (at_files a') \<Longrightarrow> at_dir a' (fl_stored f) = at_dir a (fl_stored f)"
    "\<And>x. content_name x \<Longrightarrow> at_dir a' x = at_dir a x \<or> at_dir a' x = None"
  shows "att_ok sha a'"
  using assms unfolding att_ok_def by (metis option.distinct(1) subsetD)

lemma destroy_fields:
  assumes "destroy_room profiles notes stuck room a = (r, a')"
  shows "at_db a' = delete_room room (at_db a)" "at_files a' = [f \<leftarrow> at_files a. fl_room f \<noteq> room]"
    "at_dir a' = fst (fold (unlink_with_sidecar stuck) (orphan_candidates (stored_names_for_room room a) a')
       (at_dir a, 0, 0))"
    "\<exists>k. at_images a' = fst (fold (unlink_with_sidecar stuck)
       (unreferenced profiles notes (names_for_room room (sv_store (at_db a))) (sv_store (at_db a'))) (at_images a, 0, k))"
proof -
  show "at_db a' = delete_room room (at_db a)" "at_files a' = [f \<leftarrow> at_files a. fl_room f \<noteq> room]"
    "at_dir a' = fst (fold (unlink_with_sidecar stuck) (orphan_candidates (stored_names_for_room room a) a')
       (at_dir a, 0, 0))"
    using assms by (auto simp: destroy_room_def purge_unlink_def purge_gather_def purge_orphans_def
        purge_delete_def Let_def orphan_candidates_def split: prod.splits)
  show "\<exists>k. at_images a' = fst (fold (unlink_with_sidecar stuck)
       (unreferenced profiles notes (names_for_room room (sv_store (at_db a))) (sv_store (at_db a'))) (at_images a, 0, k))"
    using assms by (intro exI [of _ "snd (snd (fold (unlink_with_sidecar stuck)
        (orphan_candidates (stored_names_for_room room a) a') (at_dir a, 0, 0)))"])
      (auto simp: destroy_room_def purge_unlink_def purge_gather_def purge_orphans_def
        purge_delete_def Let_def orphan_candidates_def split: prod.splits)
qed

lemma upload_row_ok:
  assumes "upload_row u iso_ms clk new a' = (res, a'')" "att_ok sha a" "digest_hex sha"
    "fl_stored new = sha body @ ''.'' @ extension_of name" "at_files a' = at_files a"
    "\<And>x. content_name x \<Longrightarrow> at_dir a' x
       = (if at_dir a (fl_stored new) = None then (at_dir a)(fl_stored new \<mapsto> body) else at_dir a) x"
  shows "att_ok sha a''"
  by (rule stored_ok [OF assms(2,3,4)]) (use assms(5,6) upload_row_cases [OF assms(1)] in auto)

lemma att_step_ok: "att_step sha render a a' \<Longrightarrow> digest_hex sha \<Longrightarrow> att_ok sha a \<Longrightarrow> att_ok sha a'"
proof (induction rule: att_step.induct)
  case (as_upload u iso_ms clk new_id caller raw_room filename caption body a res a')
  show ?case
  proof (cases "upload_checked sha caller raw_room filename caption body new_id a")
    case (Inr new)
    then obtain name where "fl_stored new = sha body @ ''.'' @ extension_of name"
      by (auto simp: upload_checked_def require_member_def try_bind_Inr_iff)
    then show ?thesis
      using as_upload Inr
      by (intro upload_row_ok [of u iso_ms clk new "upload_bytes render (fl_stored new) body a" res a' sha a body name])
         (simp_all add: upload_route_def upload_bytes_def Let_def accompany_keeps)
  qed (use as_upload in \<open>auto simp: upload_route_def\<close>)
next
  case (as_finish a temp bytes u iso_ms clk new_id caller s res a')
  show ?case
  proof (cases "finalize_room caller s a")
    case (Inr room)
    let ?n = "sha bytes @ ''.'' @ extension_of (se_filename s)"
    from as_finish Inr show ?thesis
      by (intro upload_row_ok [of u iso_ms clk "\<lparr>fl_id = new_id, fl_room = room, fl_uploader = caller,
          fl_filename = se_filename s, fl_stored = ?n, fl_mime = ''application/octet-stream'',
          fl_size = se_declared s, fl_caption = se_caption s, fl_created = 0\<rparr>" "finalize_bytes render ?n temp a" res a'
          sha a bytes "se_filename s"])
        (simp_all add: finalize_file_def finalize_bytes_def Let_def accompany_keeps)
  qed (use as_finish in \<open>auto simp: finalize_file_def\<close>)
next
  case (as_remove u iso_ms caller fid a a')
  then have "a' = snd (delete_file fid a)" by (auto simp: remove_file_route_def try_bind_Inr_iff)
  with as_remove show ?case by - (rule att_ok_shrink [of sha a a'], auto simp: delete_file_def)
next
  case (as_destroy profiles taught stuck room a report a')
  note d = destroy_fields [OF as_destroy(1)]
  note name = att_ok_row [OF as_destroy(3,2)]
  show ?case
  proof (rule att_ok_shrink [OF as_destroy(3,2)])
    show "at_dir a' (fl_stored f) = at_dir a (fl_stored f)" if "f \<in> set (at_files a')" for f
      using that name [of f] by (simp add: d(2,3) unlink_loop_keeps orphan_candidates_def)
    show "at_dir a' x = at_dir a x \<or> at_dir a' x = None" for x
      using unlink_loop_shrinks [of stuck "orphan_candidates (stored_names_for_room room a) a'" "at_dir a" 0 0 x]
      by (simp add: d(3))
  qed (simp add: d(2))
next
  case (as_thumbnail a stored jpeg)
  then show ?case by - (rule att_ok_shrink [of sha a], simp_all add: store_thumb_keeps att_ok_row)
next
  case (as_other a' a)
  then show ?case by (simp add: att_ok_def)
qed

lemma att_reach_ok: "att_reach sha render a \<Longrightarrow> digest_hex sha \<Longrightarrow> att_ok sha a"
  by (induction rule: att_reach.induct) (simp add: att_ok_def, blast intro: att_step_ok)

text \<open>C13. Whatever is uploaded, finished, deleted or purged, one request at a time: every attachment has its
bytes on disk, under a name that the download route accepts and whose digest is the digest of these bytes.\<close>

theorem attachments_backed:
  assumes "att_reach sha render a" "digest_hex sha" "f \<in> set (at_files a)"
  shows "\<exists>bytes. at_dir a (fl_stored f) = Some bytes \<and> validated_path (fl_stored f) = Inr (sha bytes, fl_stored f)"
proof -
  have ok: "att_ok sha a" by (rule att_reach_ok [OF assms(1,2)])
  then obtain bytes where b: "at_dir a (fl_stored f) = Some bytes" using assms(3) by (auto simp: att_ok_def)
  obtain b' where c: "content_of sha (fl_stored f) b'" using ok assms(3) unfolding att_ok_def by blast
  obtain ext where e: "fl_stored f = sha bytes @ ''.'' @ ext" "CHR ''.'' \<notin> set ext"
    using ok b content_of_name [OF assms(2) c] unfolding att_ok_def by blast
  obtain ext' where e': "fl_stored f = sha b' @ ''.'' @ ext'" "ext' \<noteq> []" "length ext' \<le> 8"
    "list_all is_ascii_alphanumeric ext'" using c by (auto simp: content_of_def)
  have len: "length (sha b) = 64 \<and> list_all is_lower_hexdigit (sha b)" for b
    using assms(2) by (simp add: digest_hex_def)
  have "sha bytes = sha b' \<and> ext = ext'" using e(1) e'(1) len by (metis append_eq_append_conv same_append_eq)
  moreover have "rsplit_once (CHR ''.'') (fl_stored f) = Some (sha bytes, ext)"
    using rsplit_once_last [OF e(2), of "sha bytes"] e(1) by simp
  ultimately show ?thesis
    using b e'(2-4) len lowercase_fixes_lower_hex_string [of "sha bytes"] lower_hexdigit_hexdigit by (simp add: validated_path_def list_all_iff)
qed

section \<open>What the purge leaves\<close>

lemma delete_room_messages_of:
  "db_messages (sv_store (delete_room room d)) = [m \<leftarrow> db_messages (sv_store d). mr_room m \<noteq> room]"
  by (simp add: delete_room_def delete_room_messages_def Let_def unindex_room_messages_def)

lemma displays_contains: "displays s n \<Longrightarrow> like_contains n s"
proof -
  assume "displays s n"
  then obtain p t where "s = p @ URL_PREFIX @ t" "n = takeWhile name_char t" by (auto simp: displays_def)
  then have "s = (p @ URL_PREFIX) @ n @ dropWhile name_char t" by simp
  then have "to_ascii_lowercase s = to_ascii_lowercase (p @ URL_PREFIX) @ to_ascii_lowercase n
      @ to_ascii_lowercase (dropWhile name_char t)"
    by (simp add: to_ascii_lowercase_def)
  then show ?thesis unfolding like_contains_def contains_str_iff by blast
qed

lemma profile_contains: "like_contains n (URL_PREFIX @ n)"
  unfolding like_contains_def contains_str_iff to_ascii_lowercase_def map_append by (metis append_Nil2)

text \<open>C14. A purge of one room takes nothing from anybody else, whatever the file system refuses to remove:
the attachments that are left keep their bytes, and so does every hosted picture that a message of another
room records or shows in plain text, or that is somebody's avatar.\<close>

theorem purge_spares_survivors:
  assumes "att_reach sha render a" "digest_hex sha" "destroy_room profiles taught stuck room a = (r, a')"
  shows "(\<forall>f \<in> set (at_files a'). at_dir a' (fl_stored f) = at_dir a (fl_stored f))
    \<and> (\<forall>m \<in> set (db_messages (sv_store (at_db a))). mr_room m \<noteq> room \<longrightarrow> \<not> mr_encrypted m
         \<longrightarrow> (\<forall>n. is_media_name n \<and> displays (mr_content m) n \<longrightarrow> at_images a' n = at_images a n))
    \<and> (\<forall>x \<in> set (db_media (sv_store (at_db a'))). is_media_name (md_name x)
         \<longrightarrow> at_images a' (md_name x) = at_images a (md_name x))
    \<and> (\<forall>n. is_media_name n \<and> ''/api/images/'' @ n \<in> set profiles \<longrightarrow> at_images a' n = at_images a n)"
proof -
  note d = destroy_fields [OF assms(3)]
  obtain k where img: "at_images a' = fst (fold (unlink_with_sidecar stuck)
       (unreferenced profiles taught (names_for_room room (sv_store (at_db a))) (sv_store (at_db a'))) (at_images a, 0, k))"
    using d(4) by blast
  have kept: "at_images a' n = at_images a n"
    if "is_media_name n" "is_referenced profiles taught n (sv_store (at_db a'))" for n
    unfolding img by (rule unlink_loop_keeps [OF media_content [OF that(1)]]) (use that(2) in \<open>simp add: unreferenced_def\<close>)
  have "at_dir a' (fl_stored f) = at_dir a (fl_stored f)" if "f \<in> set (at_files a')" for f
    unfolding d(3) by (rule unlink_loop_keeps)
      (use that d(2) att_ok_row [OF att_reach_ok [OF assms(1,2)] assms(2)] in \<open>auto simp: orphan_candidates_def\<close>)
  moreover have "at_images a' n = at_images a n"
    if "m \<in> set (db_messages (sv_store (at_db a)))" "mr_room m \<noteq> room" "\<not> mr_encrypted m" "is_media_name n"
      "displays (mr_content m) n" for m n
    by (rule kept [OF that(4)])
      (use that displays_contains in \<open>auto simp: is_referenced_def d(1) delete_room_messages_of\<close>)
  moreover have "at_images a' (md_name x) = at_images a (md_name x)"
    if "x \<in> set (db_media (sv_store (at_db a')))" "is_media_name (md_name x)" for x
    by (rule kept [OF that(2)]) (use that(1) in \<open>auto simp: is_referenced_def\<close>)
  moreover have "at_images a' n = at_images a n" if "is_media_name n" "''/api/images/'' @ n \<in> set profiles" for n
    by (rule kept [OF that(1)])
      (use that(2) profile_contains [of n] in \<open>auto simp: is_referenced_def URL_PREFIX_def\<close>)
  ultimately show ?thesis by blast
qed

lemma set_fold_push_new: "set (fold push_new names out) = set names \<union> set out"
  by (induction names arbitrary: out) (auto simp: push_new_def)

lemma scanned_names:
  "set (the (media_extract s)) \<subseteq> {n. is_media_name n}"
  "\<not> contains_str ''/api/images/api/images/'' s \<Longrightarrow> is_media_name n \<Longrightarrow> displays s n \<Longrightarrow> n \<in> set (the (media_extract s))"
  using media_loop_exact [of "[]" s] by (auto simp: media_extract_def)

lemma names_for_room_media: "n \<in> set (names_for_room room d) \<Longrightarrow> is_media_name n"
  using scanned_names(1) by (fastforce simp: names_for_room_def Let_def set_fold_push_new)

definition names_in_room :: "string \<Rightarrow> db \<Rightarrow> string \<Rightarrow> bool" where
  "names_in_room room d n \<longleftrightarrow> is_media_name n \<and>
     ((\<exists>x \<in> set (db_media d). md_room x = room \<and> md_name x = n)
      \<or> (\<exists>m \<in> set (db_messages d). mr_room m = room \<and> \<not> mr_encrypted m \<and> displays (mr_content m) n
            \<and> \<not> contains_str ''/api/images/api/images/'' (mr_content m)))"

lemma names_in_room_found: "names_in_room room d n \<Longrightarrow> n \<in> set (names_for_room room d)"
  using scanned_names(2) by (fastforce simp: names_in_room_def names_for_room_def Let_def set_fold_push_new)

lemma temp_plain:
  assumes "temp_path s = Inr name" shows "is_plain_filename name"
proof -
  have n: "name = se_temp s" "5 < length name" "CHR ''/'' \<notin> set name"
    using assms by (auto simp: temp_path_def Let_def list_all_iff is_ascii_alphanumeric_def char_class_codes)
  moreover have "\<not> starts_with ''/'' name" using n(2,3) by (cases name) (auto simp: starts_with_def)
  moreover have "name \<noteq> [] \<and> name \<noteq> ''.'' \<and> name \<noteq> ''..''" using n(2) by auto
  ultimately show ?thesis
    by (simp add: is_plain_filename_def path_components_def split_char_single component_of_def)
qed

lemma unlink_temp_loop:
  assumes "\<forall>n \<in> set ns. is_plain_filename n" "\<And>x. \<not> stuck x"
  shows "fold (unlink_temp stuck) ns (dir, g, f) = ((\<lambda>x. if x \<in> set ns then None else dir x), g + length ns, f)"
  using assms(1)
  by (induction ns arbitrary: dir g)
     (auto simp: unlink_temp_def unlink_def remove_named_def assms(2) fun_eq_iff)

lemma delete_sessions:
  "up_sessions (fold (\<lambda>s. delete_session (se_id s)) ss u) = [s \<leftarrow> up_sessions u. se_id s \<notin> se_id ` set ss]
   \<and> up_files (fold (\<lambda>s. delete_session (se_id s)) ss u) = up_files u"
  by (induction ss arbitrary: u) (auto simp: delete_session_def intro!: filter_cong)

text \<open>What a purge does when nothing is stuck, in closed form.\<close>

lemma destroy_done:
  assumes "destroy_room profiles taught stuck room a = (r, a')" "\<And>x. \<not> stuck x"
    "\<forall>f \<in> set (at_files a). content_name (fl_stored f)"
    "\<forall>s \<in> set (up_sessions (at_uploads a)). temp_path s = Inr (se_temp s)"
  shows "pr_failed r = 0"
    "at_dir a' = (\<lambda>x. if x \<in> set (orphan_candidates (stored_names_for_room room a) a')
        \<or> (\<exists>n \<in> set (orphan_candidates (stored_names_for_room room a) a'). sidecar_name n = Some x)
        then None else at_dir a x)"
    "at_images a' = (let gone = unreferenced profiles taught (names_for_room room (sv_store (at_db a))) (sv_store (at_db a'))
      in (\<lambda>x. if x \<in> set gone \<or> (\<exists>n \<in> set gone. sidecar_name n = Some x) then None else at_images a x))"
    "up_sessions (at_uploads a') = [s \<leftarrow> up_sessions (at_uploads a).
       se_id s \<notin> se_id ` set (sessions_for_room room (at_uploads a))]"
    "up_files (at_uploads a') = (\<lambda>x. if x \<in> se_temp ` set (sessions_for_room room (at_uploads a)) then None
       else up_files (at_uploads a) x)"
proof -
  have f: "\<forall>n \<in> set (orphan_candidates (stored_names_for_room room a) b). content_name n" for b
    using assms(3) by (auto simp: orphan_candidates_def stored_names_for_room_def)
  have m: "\<forall>n \<in> set (unreferenced profiles taught (names_for_room room d) e). content_name n" for d e
    using names_for_room_media media_content by (auto simp: unreferenced_def)
  have t: "\<forall>n \<in> set (map se_temp (sessions_for_room room (at_uploads a))). is_plain_filename n"
    using assms(4) temp_plain by (fastforce simp: sessions_for_room_def)
  note loops = unlink_loop [where stuck = stuck, OF f assms(2)] unlink_loop [where stuck = stuck, OF m assms(2)]
    unlink_temp_loop [where stuck = stuck, OF t assms(2)]
  have fields: "at_files (purge_delete room a) = at_files a'" "at_db (purge_delete room a) = at_db a'"
    using destroy_fields [OF assms(1)] by (simp_all add: purge_delete_def)
  have o: "orphan_candidates names (purge_delete room a) = orphan_candidates names a'" for names
    by (simp add: orphan_candidates_def fields)
  have r: "(r, a') = purge_unlink stuck (orphan_candidates (stored_names_for_room room a) a')
      (unreferenced profiles taught (names_for_room room (sv_store (at_db a))) (sv_store (at_db a')))
      (map se_temp (sessions_for_room room (at_uploads a))) (purge_delete room a)"
    using assms(1) by (simp add: destroy_room_def purge_gather_def purge_orphans_def o fields)
  have rest: "at_dir (purge_delete room a) = at_dir a" "at_images (purge_delete room a) = at_images a"
    "up_files (at_uploads (purge_delete room a)) = up_files (at_uploads a)"
    "up_sessions (at_uploads (purge_delete room a)) = [s \<leftarrow> up_sessions (at_uploads a).
       se_id s \<notin> se_id ` set (sessions_for_room room (at_uploads a))]"
    by (simp_all add: purge_delete_def delete_sessions)
  note result = r [unfolded purge_unlink_def loops Let_def prod.case rest, THEN prod.inject [THEN iffD1]]
  show "pr_failed r = 0" using result by simp
  note a' = result [THEN conjunct2]
  show "at_dir a' = (\<lambda>x. if x \<in> set (orphan_candidates (stored_names_for_room room a) a')
        \<or> (\<exists>n \<in> set (orphan_candidates (stored_names_for_room room a) a'). sidecar_name n = Some x)
        then None else at_dir a x)"
    using arg_cong [OF a', of at_dir] by simp
  show "at_images a' = (let gone = unreferenced profiles taught (names_for_room room (sv_store (at_db a))) (sv_store (at_db a'))
      in (\<lambda>x. if x \<in> set gone \<or> (\<exists>n \<in> set gone. sidecar_name n = Some x) then None else at_images a x))"
    unfolding Let_def using arg_cong [OF a', of at_images] by simp
  show "up_sessions (at_uploads a') = [s \<leftarrow> up_sessions (at_uploads a).
       se_id s \<notin> se_id ` set (sessions_for_room room (at_uploads a))]"
    using arg_cong [OF a', of "\<lambda>x. up_sessions (at_uploads x)"] rest(4) by simp
  show "up_files (at_uploads a') = (\<lambda>x. if x \<in> se_temp ` set (sessions_for_room room (at_uploads a)) then None
       else up_files (at_uploads a) x)"
    using arg_cong [OF a', of "\<lambda>x. up_files (at_uploads x)"] by simp
qed

text \<open>Where the file system refuses nothing, a purge of one room forgets what the room held: of an
attachment that no other room holds, and of a hosted picture that the room recorded or showed in plain text
and that nothing else refers to, neither the bytes nor the thumbnail are left, and no upload into the room.\<close>

theorem purge_forgets:
  assumes "att_reach sha render a" "digest_hex sha" "\<And>x. \<not> stuck x"
    "\<forall>s \<in> set (up_sessions (at_uploads a)). temp_path s = Inr (se_temp s)"
    "destroy_room profiles taught stuck room a = (r, a')"
  shows "pr_failed r = 0
    \<and> (\<forall>f \<in> set (at_files a). fl_room f = room \<longrightarrow> fl_stored f \<notin> fl_stored ` set (at_files a')
         \<longrightarrow> at_dir a' (fl_stored f) = None \<and> \<not> thumb_exists (at_dir a') (fl_stored f))
    \<and> (\<forall>n. names_in_room room (sv_store (at_db a)) n \<and> \<not> is_referenced profiles taught n (sv_store (at_db a'))
         \<longrightarrow> at_images a' n = None \<and> \<not> thumb_exists (at_images a') n)
    \<and> (\<forall>s \<in> set (up_sessions (at_uploads a)). se_room s = Some room
         \<longrightarrow> s \<notin> set (up_sessions (at_uploads a')) \<and> up_files (at_uploads a') (se_temp s) = None)"
proof -
  have names: "\<forall>f \<in> set (at_files a). content_name (fl_stored f)"
    using att_ok_row [OF att_reach_ok [OF assms(1,2)] assms(2)] by blast
  note d = destroy_done [OF assms(5,3) names assms(4)]
  have "at_dir a' (fl_stored f) = None \<and> \<not> thumb_exists (at_dir a') (fl_stored f)"
    if "f \<in> set (at_files a)" "fl_room f = room" "fl_stored f \<notin> fl_stored ` set (at_files a')" for f
  proof -
    have "fl_stored f \<in> set (orphan_candidates (stored_names_for_room room a) a')"
      using that by (auto simp: orphan_candidates_def stored_names_for_room_def)
    then show ?thesis by (auto simp: d(2) thumb_exists_def split: option.split)
  qed
  moreover have "at_images a' n = None \<and> \<not> thumb_exists (at_images a') n"
    if "names_in_room room (sv_store (at_db a)) n" "\<not> is_referenced profiles taught n (sv_store (at_db a'))" for n
  proof -
    have "n \<in> set (unreferenced profiles taught (names_for_room room (sv_store (at_db a))) (sv_store (at_db a')))"
      using names_in_room_found [OF that(1)] that(2) by (simp add: unreferenced_def)
    then show ?thesis by (auto simp: d(3) Let_def thumb_exists_def split: option.split)
  qed
  moreover have "s \<notin> set (up_sessions (at_uploads a')) \<and> up_files (at_uploads a') (se_temp s) = None"
    if "s \<in> set (up_sessions (at_uploads a))" "se_room s = Some room" for s
  proof -
    have "s \<in> set (sessions_for_room room (at_uploads a))" using that by (simp add: sessions_for_room_def)
    then show ?thesis by (simp add: d(4,5))
  qed
  ultimately show ?thesis using d(1) by blast
qed

section \<open>What it forgets to forget\<close>

text \<open>The text of the attachments survives their room: the search index keeps the file name and the
caption of every attachment of the room that was destroyed, for nothing ever takes these rows out.\<close>

theorem purge_keeps_captions:
  assumes "destroy_room profiles taught stuck room a = (r, a')"
  shows "[x \<leftarrow> db_docs (sv_store (at_db a')). sd_kind x = KIND_FILE] = [x \<leftarrow> db_docs (sv_store (at_db a)). sd_kind x = KIND_FILE]
    \<and> fl_room ` set (at_files a') \<subseteq> - {room}"
proof -
  have "KIND_FILE \<noteq> KIND_MESSAGE" by (simp add: KIND_FILE_def KIND_MESSAGE_def)
  then have "[x \<leftarrow> db_docs (sv_store (delete_room room (at_db a))). sd_kind x = KIND_FILE]
      = [x \<leftarrow> db_docs (sv_store (at_db a)). sd_kind x = KIND_FILE]"
    by (auto simp: delete_room_def delete_room_messages_def Let_def unindex_room_messages_def intro!: filter_cong)
  then show ?thesis using destroy_fields(1,2) [OF assms] by auto
qed

text \<open>A thumbnail belongs to the bytes and not to the name: when two rooms hold the same bytes under
two extensions, purging one takes the thumbnail of the attachment that the other keeps.\<close>

theorem purge_takes_shared_thumbnail:
  assumes "att_reach sha render a" "digest_hex sha" "\<And>x. \<not> stuck x"
    "\<forall>s \<in> set (up_sessions (at_uploads a)). temp_path s = Inr (se_temp s)"
    "destroy_room profiles taught stuck room a = (r, a')"
    "f \<in> set (at_files a)" "fl_room f = room" "fl_stored f \<notin> fl_stored ` set (at_files a')"
    "g \<in> set (at_files a)" "fl_room g \<noteq> room" "sidecar_name (fl_stored g) = sidecar_name (fl_stored f)"
  shows "g \<in> set (at_files a') \<and> at_dir a' (fl_stored g) \<noteq> None \<and> \<not> thumb_exists (at_dir a') (fl_stored g)"
proof -
  have ok: "att_ok sha a" by (rule att_reach_ok [OF assms(1,2)])
  have names: "\<forall>f \<in> set (at_files a). content_name (fl_stored f)" using att_ok_row [OF ok assms(2)] by blast
  note d = destroy_done [OF assms(5,3) names assms(4)]
  have g: "g \<in> set (at_files a')" using assms(9,10) destroy_fields(2) [OF assms(5)] by simp
  have f: "fl_stored f \<in> set (orphan_candidates (stored_names_for_room room a) a')"
    using assms(6-8) by (auto simp: orphan_candidates_def stored_names_for_room_def)
  have "at_dir a' (fl_stored g) = at_dir a (fl_stored g)"
    unfolding destroy_fields(3) [OF assms(5)]
    by (rule unlink_loop_keeps) (use g names assms(9) in \<open>auto simp: orphan_candidates_def\<close>)
  moreover have "at_dir a (fl_stored g) \<noteq> None" using ok assms(9) by (simp add: att_ok_def)
  moreover have "\<not> thumb_exists (at_dir a') (fl_stored g)"
    using f assms(11) by (auto simp: d(2) thumb_exists_def split: option.split)
  ultimately show ?thesis using g by simp
qed

lemma find_last: "\<forall>x \<in> set xs. \<not> P x \<Longrightarrow> P y \<Longrightarrow> find P (xs @ [y]) = Some y"
  by (induction xs) auto

text \<open>C28. An upload looks at the disk before it writes its row, and a purge may run in between: the upload
finds the bytes there and writes nothing, the purge of the last room that held them unlinks them, and the
upload adds a row without a file.\<close>

theorem upload_purge_race:
  assumes "att_reach sha render a" "digest_hex sha" "\<And>x. \<not> stuck x"
    "\<forall>s \<in> set (up_sessions (at_uploads a)). temp_path s = Inr (se_temp s)"
    "upload_checked sha caller raw filename caption body fid a = Inr new"
    "\<forall>f \<in> set (at_files a). fl_stored f = fl_stored new \<longrightarrow> fl_room f = room"
    "\<exists>f \<in> set (at_files a). fl_stored f = fl_stored new"
    "destroy_room profiles taught stuck room (upload_bytes render (fl_stored new) body a) = (r, b)"
    "upload_row u iso_ms clk new b = (Inr meta, c)"
  shows "at_dir c (fl_stored new) = None \<and> stored_name (fl_id new) c = Some (fl_stored new)"
proof -
  let ?a = "upload_bytes render (fl_stored new) body a"
  have ok: "att_ok sha a" by (rule att_reach_ok [OF assms(1,2)])
  have names: "\<forall>f \<in> set (at_files ?a). content_name (fl_stored f)"
    using att_ok_row [OF ok assms(2)] by (auto simp: upload_bytes_def Let_def)
  have up: "\<forall>s \<in> set (up_sessions (at_uploads ?a)). temp_path s = Inr (se_temp s)"
    using assms(4) by (simp add: upload_bytes_def Let_def)
  note d = destroy_done [OF assms(8,3) names up]
  have files: "at_files ?a = at_files a" by (simp add: upload_bytes_def Let_def)
  have gone: "fl_stored new \<notin> fl_stored ` set (at_files b)"
    using assms(6) destroy_fields(2) [OF assms(8)] files by fastforce
  have "fl_stored new \<in> set (stored_names_for_room room ?a)"
    using assms(6,7) files by (force simp: stored_names_for_room_def image_iff)
  then have "at_dir b (fl_stored new) = None" using gone by (simp add: d(2) orphan_candidates_def)
  moreover have "fl_id new \<notin> fl_id ` set (at_files b)" "at_files c = at_files b @ [new\<lparr>fl_created := clk 0\<rparr>]"
    using assms(9) by (auto simp: upload_row_def create_file_def Let_def split: sum.splits if_splits option.splits)
  then have "find (\<lambda>f. fl_id f = fl_id new) (at_files c) = Some (new\<lparr>fl_created := clk 0\<rparr>)"
    by (auto intro!: find_last dest: image_eqI [OF sym])
  ultimately show ?thesis using upload_row_cases(1) [OF assms(9)] by (simp add: stored_name_def)
qed

section \<open>A small server\<close>

definition sha_lab :: "byte list \<Rightarrow> string" where
  "sha_lab b = replicate 64 (if b = [1] then CHR ''a'' else CHR ''b'')"

definition plain_chars :: unicode where
  "plain_chars = \<lparr>un_alnum = \<lambda>_. False, un_alpha = \<lambda>_. False, un_lower = id\<rparr>"

definition two_rooms :: server_db where
  "two_rooms = served (create_route ''bob'' ''room_20_def'' ''Annex'' None 6
     (served (create_route ''alice'' ''room_10_abc'' ''Lab'' None 5 server0)))"

definition shelf :: attachments where
  "shelf = \<lparr>at_db = two_rooms, at_files = [], at_dir = (\<lambda>_. None), at_images = (\<lambda>_. None), at_uploads = no_uploads\<rparr>"

definition uploaded :: "string \<Rightarrow> string \<Rightarrow> string \<Rightarrow> string \<Rightarrow> byte list \<Rightarrow> attachments \<Rightarrow> attachments" where
  "uploaded fid caller room name body a =
     snd (upload_route plain_chars sha_lab Some (\<lambda>_. []) (\<lambda>_. 7) fid caller room (Some name) (Some ''#cat'') body a)"

definition one_cat :: attachments where
  "one_cat = uploaded ''file_1'' ''alice'' ''room_10_abc'' ''cat.png'' [1] shelf"

definition two_cats :: attachments where
  "two_cats = uploaded ''file_2'' ''bob'' ''room_20_def'' ''cat.jpg'' [1] one_cat"

definition purged :: "string \<Rightarrow> attachments \<Rightarrow> attachments" where
  "purged room a = snd (destroy_room [] [] (\<lambda>_. False) room a)"

lemma uploaded_reach: "att_reach sha_lab Some a \<Longrightarrow> att_reach sha_lab Some (uploaded fid caller room name body a)"
  unfolding uploaded_def by (rule ar_step, assumption, rule as_upload, rule prod.collapse [symmetric])

lemma purged_room: "destroy_room [] [] (\<lambda>_. False) room a = (fst (destroy_room [] [] (\<lambda>_. False) room a), purged room a)"
  by (simp add: purged_def)

lemma shelf_reach: "att_reach sha_lab Some shelf" by (rule ar_start) (simp_all add: shelf_def)

lemma one_cat_reach: "att_reach sha_lab Some one_cat"
  unfolding one_cat_def by (rule uploaded_reach [OF shelf_reach])

lemma two_cats_reach: "att_reach sha_lab Some two_cats"
  unfolding two_cats_def by (rule uploaded_reach [OF one_cat_reach])

lemma sha_lab_hex: "digest_hex sha_lab"
  by (auto simp: digest_hex_def sha_lab_def list_all_iff char_class_codes)

lemma cats_on_shelf:
  "map fl_room (at_files two_cats) = [''room_10_abc'', ''room_20_def'']" "up_sessions (at_uploads two_cats) = []"
  "map fl_stored (at_files two_cats) = [sha_lab [1] @ ''.png'', sha_lab [1] @ ''.jpg'']"
  "map fl_room (at_files one_cat) = [''room_10_abc'']" "up_sessions (at_uploads one_cat) = []"
  "map fl_stored (at_files one_cat) = [sha_lab [1] @ ''.png'']"
  by code_simp+

lemma cat_rows:
  obtains f g where "at_files two_cats = [f, g]" "fl_room f = ''room_10_abc''" "fl_room g = ''room_20_def''"
    "fl_stored f = sha_lab [1] @ ''.png''" "fl_stored g = sha_lab [1] @ ''.jpg''"
proof -
  have "length (at_files two_cats) = 2" using arg_cong [OF cats_on_shelf(1), of length] by simp
  then obtain f g where fg: "at_files two_cats = [f, g]" by (auto simp: numeral_2_eq_2 length_Suc_conv)
  then show ?thesis using that [OF fg] cats_on_shelf(1,3) by simp
qed

theorem attachments_backed_witness:
  "\<exists>f bytes. at_files one_cat = [f] \<and> at_dir one_cat (fl_stored f) = Some bytes
     \<and> validated_path (fl_stored f) = Inr (sha_lab bytes, fl_stored f)"
proof -
  obtain f where f: "at_files one_cat = [f]"
    using arg_cong [OF cats_on_shelf(4), of length] by (auto simp: length_Suc_conv)
  then show ?thesis using attachments_backed [OF one_cat_reach sha_lab_hex, of f] by auto
qed

theorem purge_spares_survivors_witness:
  "\<exists>g. at_files (purged ''room_10_abc'' two_cats) = [g]
     \<and> at_dir (purged ''room_10_abc'' two_cats) (fl_stored g) = at_dir two_cats (fl_stored g)"
proof -
  obtain f g where fg: "at_files two_cats = [f, g]" "fl_room f = ''room_10_abc''" "fl_room g = ''room_20_def''"
    by (rule cat_rows)
  then have "at_files (purged ''room_10_abc'' two_cats) = [g]"
    using destroy_fields(2) [OF purged_room, of "''room_10_abc''" two_cats] by simp
  then show ?thesis
    using purge_spares_survivors [OF two_cats_reach sha_lab_hex purged_room, of "''room_10_abc''"] by auto
qed

theorem purge_forgets_witness:
  "at_dir two_cats (sha_lab [1] @ ''.png'') \<noteq> None
   \<and> at_dir (purged ''room_10_abc'' two_cats) (sha_lab [1] @ ''.png'') = None"
proof -
  obtain f g where fg: "at_files two_cats = [f, g]" "fl_room f = ''room_10_abc''" "fl_room g = ''room_20_def''"
    "fl_stored f = sha_lab [1] @ ''.png''" "fl_stored g = sha_lab [1] @ ''.jpg''"
    by (rule cat_rows)
  have rows: "at_files (purged ''room_10_abc'' two_cats) = [g]"
    using fg destroy_fields(2) [OF purged_room, of "''room_10_abc''" two_cats] by simp
  have "at_dir two_cats (fl_stored f) \<noteq> None"
    using att_reach_ok [OF two_cats_reach sha_lab_hex] fg(1) by (simp add: att_ok_def)
  moreover have "at_dir (purged ''room_10_abc'' two_cats) (fl_stored f) = None"
    using purge_forgets [OF two_cats_reach sha_lab_hex _ _ purged_room, of "''room_10_abc''"] fg rows cats_on_shelf(2)
    by simp
  ultimately show ?thesis by (simp add: fg(4))
qed

theorem purge_takes_shared_thumbnail_witness:
  "thumb_exists (at_dir two_cats) (sha_lab [1] @ ''.jpg'')
   \<and> at_dir (purged ''room_10_abc'' two_cats) (sha_lab [1] @ ''.jpg'') \<noteq> None
   \<and> \<not> thumb_exists (at_dir (purged ''room_10_abc'' two_cats)) (sha_lab [1] @ ''.jpg'')"
proof -
  obtain f g where fg: "at_files two_cats = [f, g]" "fl_room f = ''room_10_abc''" "fl_room g = ''room_20_def''"
    "fl_stored f = sha_lab [1] @ ''.png''" "fl_stored g = sha_lab [1] @ ''.jpg''"
    by (rule cat_rows)
  have rows: "at_files (purged ''room_10_abc'' two_cats) = [g]"
    using fg destroy_fields(2) [OF purged_room, of "''room_10_abc''" two_cats] by simp
  have names: "sidecar_name (sha_lab [1] @ ''.jpg'') = sidecar_name (sha_lab [1] @ ''.png'')"
    "thumb_exists (at_dir two_cats) (sha_lab [1] @ ''.jpg'')" by code_simp+
  have "g \<in> set (at_files (purged ''room_10_abc'' two_cats))
      \<and> at_dir (purged ''room_10_abc'' two_cats) (fl_stored g) \<noteq> None
      \<and> \<not> thumb_exists (at_dir (purged ''room_10_abc'' two_cats)) (fl_stored g)"
    by (rule purge_takes_shared_thumbnail [OF two_cats_reach sha_lab_hex _ _ purged_room, where f = f])
      (use fg rows names(1) cats_on_shelf(2) in simp_all)
  then show ?thesis using names(2) by (simp add: fg(5))
qed

theorem purge_keeps_captions_witness:
  "map sd_text [x \<leftarrow> db_docs (sv_store (at_db (purged ''room_10_abc'' one_cat))). sd_kind x = KIND_FILE] = [''cat.png #cat'']"
proof -
  have "map sd_text [x \<leftarrow> db_docs (sv_store (at_db one_cat)). sd_kind x = KIND_FILE] = [''cat.png #cat'']" by code_simp
  then show ?thesis using purge_keeps_captions [OF purged_room, of "''room_10_abc''" one_cat] by simp
qed

text \<open>bob uploads the cat of alice into his own room while her room is being destroyed.\<close>

definition second_cat :: file_row where
  "second_cat = projr (upload_checked sha_lab ''bob'' ''room_20_def'' (Some ''cat.png'') None [1] ''file_2'' one_cat)"

definition raced :: "(api_error + file_meta) \<times> attachments" where
  "raced = upload_row plain_chars (\<lambda>_. []) (\<lambda>_. 8) second_cat
     (purged ''room_10_abc'' (upload_bytes Some (fl_stored second_cat) [1] one_cat))"

theorem upload_purge_race_witness:
  "answered (fst raced) \<and> at_dir (snd raced) (fl_stored second_cat) = None
   \<and> stored_name (fl_id second_cat) (snd raced) = Some (fl_stored second_cat)"
proof -
  obtain f where f: "at_files one_cat = [f]" "fl_room f = ''room_10_abc''" "fl_stored f = sha_lab [1] @ ''.png''"
    using arg_cong [OF cats_on_shelf(4), of length] cats_on_shelf(4,6) by (auto simp: length_Suc_conv)
  have new: "fl_stored second_cat = sha_lab [1] @ ''.png''" "answered (fst raced)"
    "answered (upload_checked sha_lab ''bob'' ''room_20_def'' (Some ''cat.png'') None [1] ''file_2'' one_cat)"
    by code_simp+
  have up: "upload_checked sha_lab ''bob'' ''room_20_def'' (Some ''cat.png'') None [1] ''file_2'' one_cat = Inr second_cat"
    using new(3) by (auto simp: answered_def second_cat_def split: sum.splits)
  obtain meta where meta: "fst raced = Inr meta" using new(2) by (auto simp: answered_def split: sum.splits)
  have row: "upload_row plain_chars (\<lambda>_. []) (\<lambda>_. 8) second_cat
      (purged ''room_10_abc'' (upload_bytes Some (fl_stored second_cat) [1] one_cat)) = (Inr meta, snd raced)"
    using meta by (simp add: raced_def prod_eq_iff)
  have "at_dir (snd raced) (fl_stored second_cat) = None \<and> stored_name (fl_id second_cat) (snd raced) = Some (fl_stored second_cat)"
    by (rule upload_purge_race [OF one_cat_reach sha_lab_hex _ _ up _ _ purged_room row])
      (use f new(1) cats_on_shelf(5) in simp_all)
  then show ?thesis using new(2) by blast
qed

section \<open>Ranges\<close>

lemma range_bounds_in: "range_bounds from to n = Inr (s, e) \<Longrightarrow> s < n \<Longrightarrow> s \<le> e \<and> e < n"
  by (auto simp: range_bounds_def try_bind_Inr_iff split: if_splits)

lemma parse_range_in:
  assumes "parse_range header n = Inr (Some (s, e))" shows "s \<le> e \<and> e < n"
  using assms range_bounds_in
  by (fastforce simp: parse_range_def try_bind_Inr_iff split: option.splits prod.splits if_splits)

lemma decimal_trimmed: "trim (decimal k) = decimal k"
  by (rule trim_graphic) (use decimal_digits [of k] in \<open>auto simp: list_all_iff is_graphic_def char_class_codes\<close>)

lemma parse_u64_decimal: "k < u64_limit \<Longrightarrow> parse_u64 (decimal k) = Some k"
proof -
  have "hd (decimal k) \<in> set (decimal k)" by (simp add: decimal_def radix_string_not_Nil)
  then have "hd (decimal k) \<noteq> CHR ''+''" using decimal_digits [of k] by (auto simp: char_class_codes)
  then show "k < u64_limit \<Longrightarrow> parse_u64 (decimal k) = Some k" unfolding parse_u64_def
    by (intro from_str_radix_digits) (simp_all add: decimal_def digits_value_radix_string radix_string_not_Nil)
qed

lemma resume_range:
  assumes "k < n" "n < u64_limit"
  shows "parse_range (Some (''bytes='' @ decimal k @ ''-'')) n = Inr (Some (k, n - 1))"
proof -
  have t: "trim (''bytes='' @ decimal k @ ''-'') = ''bytes='' @ decimal k @ ''-''"
    by (rule trim_graphic) (use decimal_digits [of k] in \<open>auto simp: list_all_iff is_graphic_def char_class_codes\<close>)
  have "CHR '','' \<notin> set (decimal k)" "CHR ''-'' \<notin> set (decimal k)"
    using decimal_digits [of k] by (auto simp: list_all_iff char_class_codes)
  moreover have "split_once (CHR ''-'') (decimal k @ ''-'') = Some (decimal k, [])"
    using split_once_append [of _ "decimal k" "[]"] calculation(2) by simp
  moreover have "trim [] = []" by code_simp
  moreover have "decimal k \<noteq> []" by (simp add: decimal_def radix_string_not_Nil)
  ultimately show ?thesis
    using assms parse_u64_decimal [of k] decimal_trimmed
    unfolding parse_range_def option.case t strip_prefix_append by (simp add: range_bounds_def)
qed

text \<open>C29. A download never serves a byte outside the file: an answer is either the whole file or exactly the
bytes of a range inside it, named in the header.  A download that stopped after k bytes and is resumed from k
completes to the file.\<close>

theorem downloads_are_slices:
  assumes "length bytes < u64_limit"
  shows "(download_answer base64 header inline name stored digest bytes = Inr d \<longrightarrow>
       (dn_status d = 200 \<and> dn_body d = bytes \<and> dn_content_range d = None)
       \<or> (\<exists>s e. s \<le> e \<and> e < length bytes \<and> dn_status d = 206 \<and> dn_body d = take (e - s + 1) (drop s bytes)
            \<and> length (dn_body d) = e - s + 1
            \<and> dn_content_range d = Some (''bytes '' @ decimal s @ ''-'' @ decimal e @ ''/'' @ decimal (length bytes))))
    \<and> (k < length bytes \<longrightarrow> (\<exists>d. download_answer base64 (Some (''bytes='' @ decimal k @ ''-'')) inline name stored digest bytes = Inr d
         \<and> take k bytes @ dn_body d = bytes))"
proof (intro conjI impI)
  assume d: "download_answer base64 header inline name stored digest bytes = Inr d"
  then obtain asked where a: "parse_range header (length bytes) = Inr asked"
    by (auto simp: download_answer_def Let_def split: sum.splits)
  show "(dn_status d = 200 \<and> dn_body d = bytes \<and> dn_content_range d = None)
       \<or> (\<exists>s e. s \<le> e \<and> e < length bytes \<and> dn_status d = 206 \<and> dn_body d = take (e - s + 1) (drop s bytes)
            \<and> length (dn_body d) = e - s + 1
            \<and> dn_content_range d = Some (''bytes '' @ decimal s @ ''-'' @ decimal e @ ''/'' @ decimal (length bytes)))"
  proof (cases asked)
    case None
    with a d show ?thesis by (cases bytes) (auto simp: download_answer_def Let_def)
  next
    case (Some r)
    obtain s e where r: "r = (s, e)" by (cases r)
    have "s \<le> e" "e < length bytes" using parse_range_in [of header _ s e] a Some r by simp_all
    moreover from this have "bytes \<noteq> []" by auto
    ultimately show ?thesis using a d Some r by (intro disjI2 exI [of _ s] exI [of _ e]) (auto simp: download_answer_def Let_def)
  qed
next
  assume k: "k < length bytes"
  have "parse_range (Some (''bytes='' @ decimal k @ ''-'')) (length bytes) = Inr (Some (k, length bytes - 1))"
    by (rule resume_range [OF k assms])
  with k show "\<exists>d. download_answer base64 (Some (''bytes='' @ decimal k @ ''-'')) inline name stored digest bytes = Inr d
         \<and> take k bytes @ dn_body d = bytes"
    by (simp add: download_answer_def Let_def)
qed

theorem downloads_are_slices_witness:
  "\<exists>d. download_answer (\<lambda>_. []) (Some ''bytes=1-'') True ''cat.png'' (replicate 64 (CHR ''a'') @ ''.png'') [] [7, 8, 9] = Inr d
     \<and> [7] @ dn_body d = [7, 8, 9]"
proof -
  have "decimal 1 = ''1''" by code_simp
  moreover have "length [7, 8, 9 :: byte] < u64_limit" by (simp add: u64_limit_def)
  ultimately show ?thesis
    using downloads_are_slices [of "[7, 8, 9]" "\<lambda>_. []" None True "''cat.png''" "replicate 64 (CHR ''a'') @ ''.png''" "[]" _ 1]
    by simp
qed

end
