(* ===== verification/Crypto.thy ===== *)
theory Crypto
  imports Hex_Interface Json_Interface Validate
begin

text \<open>The framing of the end-to-end encryption: src/app/core/src/crypto.rs, secrets.rs, eip191.rs, keys.rs,
wallet.rs, random.rs and hash.rs.  The primitives of the crates are a record of functions: HMAC-SHA-256, AES-256-CBC with PKCS#7,
base64, Diffie-Hellman and ECDSA on secp256k1, Keccak-256 and SHA-256.  A text is a list of characters, one
per byte.  The system's entropy is the list of the bytes it will still give; a draw past its end is refused.\<close>

record ('sk, 'pk) primitives =
  hmac :: "byte list \<Rightarrow> byte list \<Rightarrow> byte list"
  cbc_encrypt :: "byte list \<Rightarrow> byte list \<Rightarrow> byte list \<Rightarrow> byte list"
  cbc_decrypt :: "byte list \<Rightarrow> byte list \<Rightarrow> byte list \<Rightarrow> byte list option"
  base64_encode :: "byte list \<Rightarrow> string"
  base64_decode :: "string \<Rightarrow> byte list option"
  diffie_hellman :: "'sk \<Rightarrow> 'pk \<Rightarrow> byte list"
  public_of :: "'sk \<Rightarrow> 'pk"
  sec1_bytes :: "'pk \<Rightarrow> byte list"
  from_sec1 :: "byte list \<Rightarrow> 'pk option"
  scalar_from :: "byte list \<Rightarrow> 'sk option"
  scalar_bytes :: "'sk \<Rightarrow> byte list"
  sign_prehash :: "'sk \<Rightarrow> byte list \<Rightarrow> (byte list \<times> nat) option"
  canonical_signature :: "byte list \<Rightarrow> bool"
  recover_prehash :: "byte list \<Rightarrow> byte list \<Rightarrow> nat \<Rightarrow> 'pk option"
  keccak256 :: "byte list \<Rightarrow> byte list"
  sha256 :: "byte list \<Rightarrow> byte list"
  hmac_sha512 :: "byte list \<Rightarrow> byte list \<Rightarrow> byte list"
  compressed_bytes :: "'pk \<Rightarrow> byte list"
  scalar_add :: "byte list \<Rightarrow> 'sk \<Rightarrow> 'sk option"
  mnemonic_from_entropy :: "byte list \<Rightarrow> string option"
  mnemonic_parse :: "string \<Rightarrow> string option"
  mnemonic_seed :: "string \<Rightarrow> byte list"

datatype crypto_error =
  Decryption_failed
| Invalid_private_key
| Invalid_public_key
| Invalid_encoding
| Invalid_signature
| Signing_failed
| Key_binding_failed
| No_local_key
| Invalid_mnemonic
| Key_derivation
| Unsupported_version nat
| Empty_plaintext
| Invalid_salt
| Randomness

section \<open>Entropy\<close>

type_synonym entropy = "byte list"

definition draw :: "nat \<Rightarrow> entropy \<Rightarrow> crypto_error + (byte list \<times> entropy)" where
  "draw n e = (if length e < n then Inl Randomness else Inr (take n e, drop n e))"

definition SECRET_KEY_ATTEMPTS :: nat where "SECRET_KEY_ATTEMPTS = 8"

primrec secret_key_attempts ::
  "('sk, 'pk) primitives \<Rightarrow> nat \<Rightarrow> entropy \<Rightarrow> crypto_error + ('sk \<times> entropy)" where
  "secret_key_attempts P 0 e = Inl Randomness"
| "secret_key_attempts P (Suc k) e =
     try_bind (draw 32 e) (\<lambda>(candidate, e').
       case scalar_from P candidate of Some secret \<Rightarrow> Inr (secret, e') | None \<Rightarrow> secret_key_attempts P k e')"

definition fresh_secret_key :: "('sk, 'pk) primitives \<Rightarrow> entropy \<Rightarrow> crypto_error + ('sk \<times> entropy)" where
  "fresh_secret_key P e = secret_key_attempts P SECRET_KEY_ATTEMPTS e"

definition hex_32 :: "entropy \<Rightarrow> crypto_error + string" where
  "hex_32 e = try_bind (draw 32 e) (\<lambda>(bytes, _). Inr (hex_encode bytes))"

section \<open>Subkeys and authentication\<close>

definition MSG_ENC_LABEL :: string where "MSG_ENC_LABEL = ''FruitNation/v2/message/enc''"
definition MSG_MAC_LABEL :: string where "MSG_MAC_LABEL = ''FruitNation/v2/message/mac''"
definition WRAP_ENC_LABEL :: string where "WRAP_ENC_LABEL = ''FruitNation/v2/roomkey/enc''"
definition WRAP_MAC_LABEL :: string where "WRAP_MAC_LABEL = ''FruitNation/v2/roomkey/mac''"

definition derive_subkey :: "('sk, 'pk) primitives \<Rightarrow> byte list \<Rightarrow> string \<Rightarrow> byte list" where
  "derive_subkey P key label = hmac P key (bytes_of label)"

definition mac_hex :: "('sk, 'pk) primitives \<Rightarrow> byte list \<Rightarrow> string \<Rightarrow> string" where
  "mac_hex P key input = hex_encode (hmac P key (bytes_of input))"

definition verify_mac :: "('sk, 'pk) primitives \<Rightarrow> byte list \<Rightarrow> string \<Rightarrow> string \<Rightarrow> bool" where
  "verify_mac P key input expected_hex =
     (case hex_decode expected_hex of
        None \<Rightarrow> False
      | Some expected \<Rightarrow> length expected = 32 \<and> hmac P key (bytes_of input) = expected)"

definition aes_cbc_decrypt ::
  "('sk, 'pk) primitives \<Rightarrow> byte list \<Rightarrow> byte list \<Rightarrow> byte list \<Rightarrow> crypto_error + byte list" where
  "aes_cbc_decrypt P key iv ciphertext =
     (if ciphertext = [] \<or> length ciphertext mod 16 \<noteq> 0 then Inl Decryption_failed
      else ok_or Decryption_failed (cbc_decrypt P key iv ciphertext))"

definition generate_room_key :: "entropy \<Rightarrow> crypto_error + byte list" where
  "generate_room_key e = try_bind (draw 32 e) (\<lambda>(key, _). Inr key)"

definition decode_iv :: "string \<Rightarrow> byte list option" where
  "decode_iv iv_hex = (if length iv_hex = 32 then hex_decode iv_hex else None)"

text \<open>String::from_utf8.\<close>

definition from_utf8 :: "byte list \<Rightarrow> crypto_error + string" where
  "from_utf8 bytes =
     (let s = map (\<lambda>b. char_of (unat b)) bytes in if valid_utf8 s then Inr s else Inl Decryption_failed)"

section \<open>Messages\<close>

record encrypted_message =
  em_content :: string
  em_iv :: string
  em_hmac :: string

definition message_mac_input :: "string \<Rightarrow> string \<Rightarrow> string \<Rightarrow> string" where
  "message_mac_input room iv_hex ciphertext = ''FNv2|message|'' @ room @ ''|'' @ iv_hex @ ''|'' @ ciphertext"

definition encrypt_message_v2_with_iv ::
  "('sk, 'pk) primitives \<Rightarrow> string \<Rightarrow> byte list \<Rightarrow> string \<Rightarrow> byte list \<Rightarrow> crypto_error + encrypted_message" where
  "encrypt_message_v2_with_iv P plaintext room_key room iv =
     (if trim plaintext = [] then Inl Empty_plaintext
      else let enc_key = derive_subkey P room_key MSG_ENC_LABEL; mac_key = derive_subkey P room_key MSG_MAC_LABEL;
               content = base64_encode P (cbc_encrypt P enc_key iv (bytes_of plaintext));
               iv_hex = hex_encode iv
           in Inr \<lparr>em_content = content, em_iv = iv_hex,
                   em_hmac = mac_hex P mac_key (message_mac_input room iv_hex content)\<rparr>)"

definition encrypt_message_v2 ::
  "('sk, 'pk) primitives \<Rightarrow> entropy \<Rightarrow> string \<Rightarrow> byte list \<Rightarrow> string \<Rightarrow> crypto_error + encrypted_message" where
  "encrypt_message_v2 P e plaintext room_key room =
     try_bind (draw 16 e) (\<lambda>(iv, _). encrypt_message_v2_with_iv P plaintext room_key room iv)"

definition decrypt_message_v2 ::
  "('sk, 'pk) primitives \<Rightarrow> string \<Rightarrow> string \<Rightarrow> string \<Rightarrow> byte list \<Rightarrow> string \<Rightarrow> crypto_error + string" where
  "decrypt_message_v2 P ciphertext iv_hex hmac_hex room_key room =
     (if \<not> verify_mac P (derive_subkey P room_key MSG_MAC_LABEL) (message_mac_input room iv_hex ciphertext) hmac_hex
      then Inl Decryption_failed
      else try_bind (ok_or Decryption_failed (decode_iv iv_hex)) (\<lambda>iv.
           try_bind (ok_or Decryption_failed (base64_decode P ciphertext)) (\<lambda>bytes.
           try_bind (aes_cbc_decrypt P (derive_subkey P room_key MSG_ENC_LABEL) iv bytes) (\<lambda>plaintext.
           try_bind (from_utf8 plaintext) (\<lambda>s. if s = [] then Inl Decryption_failed else Inr s)))))"

text \<open>The legacy scheme authenticates the ciphertext alone, under the hexadecimal text of the key.\<close>

definition verify_mac_v1 :: "('sk, 'pk) primitives \<Rightarrow> byte list \<Rightarrow> string \<Rightarrow> string \<Rightarrow> bool" where
  "verify_mac_v1 P key ciphertext hmac_hex = verify_mac P (bytes_of (hex_encode key)) ciphertext hmac_hex"

definition decrypt_message_v1 ::
  "('sk, 'pk) primitives \<Rightarrow> string \<Rightarrow> string \<Rightarrow> string \<Rightarrow> byte list \<Rightarrow> crypto_error + string" where
  "decrypt_message_v1 P ciphertext iv_hex hmac_hex room_key =
     (if \<not> verify_mac_v1 P room_key ciphertext hmac_hex then Inl Decryption_failed
      else try_bind (ok_or Decryption_failed (decode_iv iv_hex)) (\<lambda>iv.
           try_bind (ok_or Decryption_failed (base64_decode P ciphertext)) (\<lambda>bytes.
           try_bind (aes_cbc_decrypt P room_key iv bytes) (\<lambda>plaintext.
           try_bind (from_utf8 plaintext) (\<lambda>s. if s = [] then Inl Decryption_failed else Inr s)))))"

definition effective_enc_ver :: "nat option \<Rightarrow> nat" where
  "effective_enc_ver v = (case v of None \<Rightarrow> 1 | Some n \<Rightarrow> n)"

definition decrypt_message_by_version ::
  "('sk, 'pk) primitives \<Rightarrow> nat option \<Rightarrow> string \<Rightarrow> string \<Rightarrow> string \<Rightarrow> byte list \<Rightarrow> string \<Rightarrow> crypto_error + string" where
  "decrypt_message_by_version P v ciphertext iv_hex hmac_hex room_key room =
     (let v = effective_enc_ver v in
      if 2 \<le> v then decrypt_message_v2 P ciphertext iv_hex hmac_hex room_key room
      else if v = 1 then decrypt_message_v1 P ciphertext iv_hex hmac_hex room_key
      else Inl (Unsupported_version v))"

section \<open>Wrapped room keys\<close>

record wrapped_room_key =
  wk_key :: string
  wk_ephemeral :: string
  wk_iv :: string
  wk_hmac :: string

definition room_key_mac_input :: "string \<Rightarrow> string \<Rightarrow> string \<Rightarrow> string \<Rightarrow> string" where
  "room_key_mac_input room ephemeral iv_hex ciphertext =
     ''FNv2|roomkey|'' @ room @ ''|'' @ ephemeral @ ''|'' @ iv_hex @ ''|'' @ ciphertext"

definition uncompressed_public_key_hex :: "('sk, 'pk) primitives \<Rightarrow> 'pk \<Rightarrow> string" where
  "uncompressed_public_key_hex P pk = hex_encode (sec1_bytes P pk)"

definition parse_uncompressed_public_key :: "('sk, 'pk) primitives \<Rightarrow> string \<Rightarrow> crypto_error + 'pk" where
  "parse_uncompressed_public_key P s =
     (if length s \<noteq> 130 then Inl Invalid_public_key
      else try_bind (ok_or Invalid_public_key (hex_decode s)) (\<lambda>bytes.
           if hd bytes \<noteq> 4 then Inl Invalid_public_key else ok_or Invalid_public_key (from_sec1 P bytes)))"

definition parse_room_key_hex :: "byte list \<Rightarrow> crypto_error + byte list" where
  "parse_room_key_hex plaintext =
     (let s = map (\<lambda>b. char_of (unat b)) plaintext in
      if length s \<noteq> 64 \<or> \<not> list_all is_ascii_hexdigit s then Inl Decryption_failed
      else ok_or Decryption_failed (hex_decode s))"

definition wrap_room_key_v2_with ::
  "('sk, 'pk) primitives \<Rightarrow> byte list \<Rightarrow> 'pk \<Rightarrow> string \<Rightarrow> 'sk \<Rightarrow> byte list \<Rightarrow> wrapped_room_key" where
  "wrap_room_key_v2_with P room_key recipient room ephemeral iv =
     (let shared = diffie_hellman P ephemeral recipient;
          enc_key = derive_subkey P shared WRAP_ENC_LABEL; mac_key = derive_subkey P shared WRAP_MAC_LABEL;
          wrapped = base64_encode P (cbc_encrypt P enc_key iv (bytes_of (hex_encode room_key)));
          ephemeral_hex = uncompressed_public_key_hex P (public_of P ephemeral); iv_hex = hex_encode iv
      in \<lparr>wk_key = wrapped, wk_ephemeral = ephemeral_hex, wk_iv = iv_hex,
          wk_hmac = mac_hex P mac_key (room_key_mac_input room ephemeral_hex iv_hex wrapped)\<rparr>)"

definition wrap_room_key_v2 ::
  "('sk, 'pk) primitives \<Rightarrow> entropy \<Rightarrow> byte list \<Rightarrow> 'pk \<Rightarrow> string \<Rightarrow> crypto_error + (wrapped_room_key \<times> entropy)" where
  "wrap_room_key_v2 P e room_key recipient room =
     try_bind (fresh_secret_key P e) (\<lambda>(ephemeral, e').
     try_bind (draw 16 e') (\<lambda>(iv, e''). Inr (wrap_room_key_v2_with P room_key recipient room ephemeral iv, e'')))"

text \<open>The end of both unwraps, and the public key of the wrap, whose every error is the same.\<close>

definition open_wrap ::
  "('sk, 'pk) primitives \<Rightarrow> byte list \<Rightarrow> wrapped_room_key \<Rightarrow> crypto_error + byte list" where
  "open_wrap P aes_key wrap =
     try_bind (ok_or Decryption_failed (decode_iv (wk_iv wrap))) (\<lambda>iv.
     try_bind (ok_or Decryption_failed (base64_decode P (wk_key wrap))) (\<lambda>bytes.
     try_bind (aes_cbc_decrypt P aes_key iv bytes) parse_room_key_hex))"

definition unwrap_room_key_v2 ::
  "('sk, 'pk) primitives \<Rightarrow> wrapped_room_key \<Rightarrow> 'sk \<Rightarrow> string \<Rightarrow> crypto_error + byte list" where
  "unwrap_room_key_v2 P wrap recipient room =
     (case parse_uncompressed_public_key P (wk_ephemeral wrap) of
        Inl _ \<Rightarrow> Inl Decryption_failed
      | Inr ephemeral \<Rightarrow>
          (let shared = diffie_hellman P recipient ephemeral in
           if \<not> verify_mac P (derive_subkey P shared WRAP_MAC_LABEL)
                (room_key_mac_input room (wk_ephemeral wrap) (wk_iv wrap) (wk_key wrap)) (wk_hmac wrap)
           then Inl Decryption_failed
           else open_wrap P (derive_subkey P shared WRAP_ENC_LABEL) wrap))"

definition unwrap_room_key_v1 ::
  "('sk, 'pk) primitives \<Rightarrow> wrapped_room_key \<Rightarrow> 'sk \<Rightarrow> crypto_error + byte list" where
  "unwrap_room_key_v1 P wrap recipient =
     (case parse_uncompressed_public_key P (wk_ephemeral wrap) of
        Inl _ \<Rightarrow> Inl Decryption_failed
      | Inr ephemeral \<Rightarrow>
          (let shared = diffie_hellman P recipient ephemeral in
           if \<not> verify_mac_v1 P shared (wk_key wrap) (wk_hmac wrap) then Inl Decryption_failed
           else open_wrap P shared wrap))"

definition unwrap_room_key_by_version ::
  "('sk, 'pk) primitives \<Rightarrow> nat option \<Rightarrow> wrapped_room_key \<Rightarrow> 'sk \<Rightarrow> string \<Rightarrow> crypto_error + byte list" where
  "unwrap_room_key_by_version P v wrap recipient room =
     (let v = effective_enc_ver v in
      if 2 \<le> v then unwrap_room_key_v2 P wrap recipient room
      else if v = 1 then unwrap_room_key_v1 P wrap recipient
      else Inl (Unsupported_version v))"

section \<open>The vault of passwords\<close>

datatype vault_field = Field_key | Field_value

definition field_str :: "vault_field \<Rightarrow> string" where
  "field_str f = (case f of Field_key \<Rightarrow> ''key'' | Field_value \<Rightarrow> ''value'')"

record sealed_field =
  sf_ciphertext :: string
  sf_iv :: string
  sf_hmac :: string

record vault_key =
  vk_enc :: "byte list"
  vk_mac :: "byte list"

definition VAULT_LABEL :: string where "VAULT_LABEL = ''PocketSkynet/v1/password/vault''"
definition SECRET_ENC_LABEL :: string where "SECRET_ENC_LABEL = ''PocketSkynet/v1/password/enc''"
definition SECRET_MAC_LABEL :: string where "SECRET_MAC_LABEL = ''PocketSkynet/v1/password/mac''"

definition MAX_SECRET_BYTES :: nat where "MAX_SECRET_BYTES = 4096"

definition derive_vault :: "('sk, 'pk) primitives \<Rightarrow> byte list \<Rightarrow> vault_key" where
  "derive_vault P private_key =
     (let root = derive_subkey P private_key VAULT_LABEL
      in \<lparr>vk_enc = derive_subkey P root SECRET_ENC_LABEL, vk_mac = derive_subkey P root SECRET_MAC_LABEL\<rparr>)"

definition secret_mac_input :: "string \<Rightarrow> vault_field \<Rightarrow> string \<Rightarrow> string \<Rightarrow> string" where
  "secret_mac_input entry fld iv_hex ciphertext =
     ''PSv1|secret|'' @ entry @ ''|'' @ field_str fld @ ''|'' @ iv_hex @ ''|'' @ ciphertext"

definition seal_field_with_iv ::
  "('sk, 'pk) primitives \<Rightarrow> vault_key \<Rightarrow> string \<Rightarrow> vault_field \<Rightarrow> string \<Rightarrow> byte list \<Rightarrow> crypto_error + sealed_field" where
  "seal_field_with_iv P vault entry fld plaintext iv =
     (if \<not> is_valid_entry_id entry \<or> MAX_SECRET_BYTES < length plaintext then Inl Invalid_encoding
      else let ciphertext = base64_encode P (cbc_encrypt P (vk_enc vault) iv (bytes_of plaintext)); iv_hex = hex_encode iv
           in Inr \<lparr>sf_ciphertext = ciphertext, sf_iv = iv_hex,
                   sf_hmac = mac_hex P (vk_mac vault) (secret_mac_input entry fld iv_hex ciphertext)\<rparr>)"

definition seal_field ::
  "('sk, 'pk) primitives \<Rightarrow> entropy \<Rightarrow> vault_key \<Rightarrow> string \<Rightarrow> vault_field \<Rightarrow> string \<Rightarrow> crypto_error + sealed_field" where
  "seal_field P e vault entry fld plaintext =
     try_bind (draw 16 e) (\<lambda>(iv, _). seal_field_with_iv P vault entry fld plaintext iv)"

definition open_field ::
  "('sk, 'pk) primitives \<Rightarrow> vault_key \<Rightarrow> string \<Rightarrow> vault_field \<Rightarrow> sealed_field \<Rightarrow> crypto_error + string" where
  "open_field P vault entry fld sealed =
     (if \<not> verify_mac P (vk_mac vault) (secret_mac_input entry fld (sf_iv sealed) (sf_ciphertext sealed)) (sf_hmac sealed)
      then Inl Decryption_failed
      else try_bind (ok_or Decryption_failed (decode_iv (sf_iv sealed))) (\<lambda>iv.
           try_bind (ok_or Decryption_failed (base64_decode P (sf_ciphertext sealed))) (\<lambda>bytes.
           try_bind (aes_cbc_decrypt P (vk_enc vault) iv bytes) from_utf8)))"

definition new_entry_id :: "entropy \<Rightarrow> crypto_error + string" where
  "new_entry_id e = try_bind (draw 16 e) (\<lambda>(bytes, _). Inr (''sec_'' @ hex_encode bytes))"

section \<open>Signatures of wallets\<close>

definition eip191_prefix :: "byte list" where
  "eip191_prefix = 25 # bytes_of ''Ethereum Signed Message:'' @ [10]"

definition eip191_preimage :: "string \<Rightarrow> byte list" where
  "eip191_preimage message = eip191_prefix @ bytes_of (decimal (length message)) @ bytes_of message"

definition eip191_digest :: "('sk, 'pk) primitives \<Rightarrow> string \<Rightarrow> byte list" where
  "eip191_digest P message = keccak256 P (eip191_preimage message)"

definition personal_sign :: "('sk, 'pk) primitives \<Rightarrow> 'sk \<Rightarrow> string \<Rightarrow> crypto_error + string" where
  "personal_sign P secret message =
     try_bind (ok_or Signing_failed (sign_prehash P secret (eip191_digest P message))) (\<lambda>(signature, recovery).
       Inr (''0x'' @ hex_encode (signature @ [word_of_nat recovery + 27])))"

definition strip_0x_any :: "string \<Rightarrow> string option" where
  "strip_0x_any s = (case strip_prefix ''0x'' s of Some t \<Rightarrow> Some t | None \<Rightarrow> strip_prefix ''0X'' s)"

definition parse_signature :: "('sk, 'pk) primitives \<Rightarrow> string \<Rightarrow> crypto_error + (byte list \<times> nat)" where
  "parse_signature P s =
     try_bind (ok_or Invalid_signature (strip_0x_any s)) (\<lambda>stripped.
       if length stripped \<noteq> 130 then Inl Invalid_signature
       else try_bind (ok_or Invalid_signature (hex_decode stripped)) (\<lambda>bytes.
         let v = bytes ! 64 in
         try_bind (if v = 27 \<or> v = 28 then Inr (v - 27) else if v = 0 \<or> v = 1 then Inr v
                   else Inl Invalid_signature) (\<lambda>v.
           if canonical_signature P (take 64 bytes) then Inr (take 64 bytes, unat v) else Inl Invalid_signature)))"

definition recover_public_key :: "('sk, 'pk) primitives \<Rightarrow> string \<Rightarrow> string \<Rightarrow> crypto_error + 'pk" where
  "recover_public_key P message signature =
     try_bind (parse_signature P signature) (\<lambda>(bytes, v).
       ok_or Invalid_signature (recover_prehash P (eip191_digest P message) bytes v))"

definition address_from_public_key :: "('sk, 'pk) primitives \<Rightarrow> 'pk \<Rightarrow> wallet_address" where
  "address_from_public_key P pk = from_bytes hex_encode (take 20 (drop 12 (keccak256 P (tl (sec1_bytes P pk)))))"

definition recover_address :: "('sk, 'pk) primitives \<Rightarrow> string \<Rightarrow> string \<Rightarrow> crypto_error + wallet_address" where
  "recover_address P message signature =
     map_sum id (address_from_public_key P) (recover_public_key P message signature)"

definition verify_signature :: "('sk, 'pk) primitives \<Rightarrow> string \<Rightarrow> string \<Rightarrow> wallet_address \<Rightarrow> bool" where
  "verify_signature P message signature expected \<longleftrightarrow> recover_address P message signature = Inr expected"

section \<open>Wallets\<close>

text \<open>A wallet is its secret key; its address is that of its public key.  A node of the derivation is a
key and its chain code.\<close>

definition wallet_of :: "('sk, 'pk) primitives \<Rightarrow> 'sk \<Rightarrow> wallet_address" where
  "wallet_of P secret = address_from_public_key P (public_of P secret)"

datatype mnemonic_length = Words12 | Words24

definition entropy_bytes :: "mnemonic_length \<Rightarrow> nat" where
  "entropy_bytes l = (case l of Words12 \<Rightarrow> 16 | Words24 \<Rightarrow> 32)"

definition generate_mnemonic ::
  "('sk, 'pk) primitives \<Rightarrow> entropy \<Rightarrow> mnemonic_length \<Rightarrow> crypto_error + string" where
  "generate_mnemonic P e l =
     try_bind (draw (entropy_bytes l) e) (\<lambda>(bytes, _). ok_or Invalid_mnemonic (mnemonic_from_entropy P bytes))"

definition parse_mnemonic :: "('sk, 'pk) primitives \<Rightarrow> string \<Rightarrow> crypto_error + string" where
  "parse_mnemonic P phrase = ok_or Invalid_mnemonic (mnemonic_parse P (trim phrase))"

definition validate_mnemonic :: "('sk, 'pk) primitives \<Rightarrow> string \<Rightarrow> bool" where
  "validate_mnemonic P phrase \<longleftrightarrow> \<not> isl (parse_mnemonic P phrase)"

definition HARDENED :: nat where "HARDENED = 0x80000000"

definition ETH_PATH_PREFIX :: "nat list" where
  "ETH_PATH_PREFIX = [44 + HARDENED, 60 + HARDENED, HARDENED, 0]"

definition derivation_path :: "nat \<Rightarrow> string" where
  "derivation_path index = ''m/44'' @ [CHR 0x27] @ ''/60'' @ [CHR 0x27] @ ''/0'' @ [CHR 0x27] @ ''/0/'' @ decimal index"

record extended_key =
  xk_key :: "byte list"
  xk_chain :: "byte list"

definition master_of_seed :: "('sk, 'pk) primitives \<Rightarrow> byte list \<Rightarrow> crypto_error + extended_key" where
  "master_of_seed P seed =
     (let i = hmac_sha512 P (bytes_of ''Bitcoin seed'') seed; key = take 32 i in
      try_bind (ok_or Key_derivation (scalar_from P key)) (\<lambda>_. Inr \<lparr>xk_key = key, xk_chain = drop 32 i\<rparr>))"

definition derive_child :: "('sk, 'pk) primitives \<Rightarrow> extended_key \<Rightarrow> nat \<Rightarrow> crypto_error + extended_key" where
  "derive_child P node index =
     try_bind (ok_or Key_derivation (scalar_from P (xk_key node))) (\<lambda>parent.
       let i = hmac_sha512 P (xk_chain node)
             ((if HARDENED \<le> index then 0 # xk_key node else compressed_bytes P (public_of P parent))
              @ be_bytes 4 index) in
       try_bind (ok_or Key_derivation (scalar_add P (take 32 i) parent)) (\<lambda>child.
         Inr \<lparr>xk_key = scalar_bytes P child, xk_chain = drop 32 i\<rparr>))"

fun derive_path :: "('sk, 'pk) primitives \<Rightarrow> extended_key \<Rightarrow> nat list \<Rightarrow> crypto_error + extended_key" where
  "derive_path P node [] = Inr node"
| "derive_path P node (step # steps) = try_bind (derive_child P node step) (\<lambda>n. derive_path P n steps)"

definition from_private_key_bytes :: "('sk, 'pk) primitives \<Rightarrow> byte list \<Rightarrow> crypto_error + 'sk" where
  "from_private_key_bytes P bytes = ok_or Invalid_private_key (scalar_from P bytes)"

definition wallet_from_seed :: "('sk, 'pk) primitives \<Rightarrow> byte list \<Rightarrow> nat \<Rightarrow> crypto_error + 'sk" where
  "wallet_from_seed P seed index =
     (if HARDENED \<le> index then Inl Key_derivation
      else try_bind (master_of_seed P seed) (\<lambda>master.
           try_bind (derive_path P master (ETH_PATH_PREFIX @ [index])) (\<lambda>node.
           from_private_key_bytes P (xk_key node))))"

definition wallet_from_mnemonic :: "('sk, 'pk) primitives \<Rightarrow> string \<Rightarrow> nat \<Rightarrow> crypto_error + 'sk" where
  "wallet_from_mnemonic P phrase index =
     try_bind (parse_mnemonic P phrase) (\<lambda>m. wallet_from_seed P (mnemonic_seed P m) index)"

text \<open>trim_start_matches strips every leading copy of its pattern.\<close>

fun trim_start_2 :: "char \<Rightarrow> char \<Rightarrow> string \<Rightarrow> string" where
  "trim_start_2 a b (c # d # s) = (if c = a \<and> d = b then trim_start_2 a b s else c # d # s)"
| "trim_start_2 a b s = s"

definition wallet_from_private_key_hex :: "('sk, 'pk) primitives \<Rightarrow> string \<Rightarrow> crypto_error + 'sk" where
  "wallet_from_private_key_hex P s =
     (let stripped = trim_start_2 CHR ''0'' CHR ''X'' (trim_start_2 CHR ''0'' CHR ''x'' (trim s)) in
      if length stripped \<noteq> 64 then Inl Invalid_private_key
      else try_bind (ok_or Invalid_private_key (hex_decode stripped)) (from_private_key_bytes P))"

definition random_wallet :: "('sk, 'pk) primitives \<Rightarrow> entropy \<Rightarrow> crypto_error + 'sk" where
  "random_wallet P e = try_bind (fresh_secret_key P e) (\<lambda>(secret, _). Inr secret)"

definition wallet_private_key_hex :: "('sk, 'pk) primitives \<Rightarrow> 'sk \<Rightarrow> string" where
  "wallet_private_key_hex P secret = ''0x'' @ hex_encode (scalar_bytes P secret)"

section \<open>Encryption keys and their binding\<close>

record ('sk) encryption_keypair =
  ek_secret :: 'sk
  ek_public :: string

definition keypair_of :: "('sk, 'pk) primitives \<Rightarrow> 'sk \<Rightarrow> 'sk encryption_keypair" where
  "keypair_of P secret = \<lparr>ek_secret = secret, ek_public = uncompressed_public_key_hex P (public_of P secret)\<rparr>"

definition private_key_hex :: "('sk, 'pk) primitives \<Rightarrow> 'sk encryption_keypair \<Rightarrow> string" where
  "private_key_hex P k = ''0x'' @ hex_encode (scalar_bytes P (ek_secret k))"

definition from_private_key_hex :: "('sk, 'pk) primitives \<Rightarrow> string \<Rightarrow> crypto_error + 'sk encryption_keypair" where
  "from_private_key_hex P private_hex =
     (let stripped = (case strip_0x_any private_hex of Some t \<Rightarrow> t | None \<Rightarrow> private_hex) in
      if length stripped \<noteq> 64 then Inl Invalid_private_key
      else try_bind (ok_or Invalid_private_key (hex_decode stripped)) (\<lambda>bytes.
           try_bind (ok_or Invalid_private_key (scalar_from P bytes)) (\<lambda>secret. Inr (keypair_of P secret))))"

definition generate_keypair :: "('sk, 'pk) primitives \<Rightarrow> entropy \<Rightarrow> crypto_error + 'sk encryption_keypair" where
  "generate_keypair P e = try_bind (fresh_secret_key P e) (\<lambda>(secret, _). Inr (keypair_of P secret))"

definition nl :: string where "nl = [CHR 0x0A]"

definition build_salted_encryption_message :: "wallet_address \<Rightarrow> string \<Rightarrow> crypto_error + string" where
  "build_salted_encryption_message w salt =
     (if length salt \<noteq> 64 \<or> \<not> list_all is_ascii_hexdigit salt then Inl Invalid_salt
      else Inr (''FruitNation Encryption Key Derivation v2'' @ nl @ nl @ ''Address: '' @ as_str w @ nl
                @ ''Salt: '' @ salt @ nl @ ''Purpose: End-to-end encryption only''))"

definition build_legacy_encryption_message :: "wallet_address \<Rightarrow> string" where
  "build_legacy_encryption_message w =
     ''FruitNation Encryption Key Derivation'' @ nl @ nl @ ''Address: '' @ as_str w @ nl
     @ ''Purpose: End-to-end encryption only''"

definition derive_encryption_keys_from_signature ::
  "('sk, 'pk) primitives \<Rightarrow> string \<Rightarrow> crypto_error + 'sk encryption_keypair" where
  "derive_encryption_keys_from_signature P signature =
     try_bind (ok_or Invalid_signature (strip_0x_any signature)) (\<lambda>stripped.
       if length stripped \<noteq> 130 then Inl Invalid_signature
       else try_bind (ok_or Invalid_signature (hex_decode stripped)) (\<lambda>bytes.
            try_bind (ok_or Invalid_private_key (scalar_from P (keccak256 P bytes))) (\<lambda>secret. Inr (keypair_of P secret))))"

definition derive_encryption_keys_v2 ::
  "('sk, 'pk) primitives \<Rightarrow> 'sk \<Rightarrow> string \<Rightarrow> crypto_error + 'sk encryption_keypair" where
  "derive_encryption_keys_v2 P wallet salt =
     try_bind (build_salted_encryption_message (wallet_of P wallet) salt) (\<lambda>message.
     try_bind (personal_sign P wallet message) (derive_encryption_keys_from_signature P))"

definition derive_legacy_encryption_keys ::
  "('sk, 'pk) primitives \<Rightarrow> 'sk \<Rightarrow> crypto_error + 'sk encryption_keypair" where
  "derive_legacy_encryption_keys P wallet =
     try_bind (personal_sign P wallet (build_legacy_encryption_message (wallet_of P wallet)))
       (derive_encryption_keys_from_signature P)"

definition build_key_binding_message :: "wallet_address \<Rightarrow> string \<Rightarrow> string" where
  "build_key_binding_message w enc_pub_hex =
     ''FruitNation Public Key Binding'' @ nl @ nl @ ''Address: '' @ as_str w @ nl
     @ ''Encryption Public Key: '' @ enc_pub_hex"

definition sign_key_binding :: "('sk, 'pk) primitives \<Rightarrow> 'sk \<Rightarrow> string \<Rightarrow> crypto_error + string" where
  "sign_key_binding P wallet enc_pub_hex =
     personal_sign P wallet (build_key_binding_message (wallet_of P wallet) enc_pub_hex)"

definition present :: "string option \<Rightarrow> crypto_error + string" where
  "present s = ok_or Key_binding_failed
     (case map_option trim s of None \<Rightarrow> None | Some t \<Rightarrow> if t = [] then None else Some t)"

definition verify_key_binding ::
  "('sk, 'pk) primitives \<Rightarrow> wallet_address \<Rightarrow> string option \<Rightarrow> string option \<Rightarrow> crypto_error + 'pk" where
  "verify_key_binding P w public_key public_key_sig =
     try_bind (present public_key) (\<lambda>public_key.
     try_bind (present public_key_sig) (\<lambda>signature.
       case parse_uncompressed_public_key P public_key of
         Inl _ \<Rightarrow> Inl Key_binding_failed
       | Inr parsed \<Rightarrow>
           if recover_address P (build_key_binding_message w public_key) signature = Inr w then Inr parsed
           else Inl Key_binding_failed))"

section \<open>Message hashes\<close>

definition sha256_hex :: "('sk, 'pk) primitives \<Rightarrow> byte list \<Rightarrow> string" where
  "sha256_hex P data = hex_encode (sha256 P data)"

text \<open>A stream is the bytes it was fed.\<close>

definition stream_finish :: "('sk, 'pk) primitives \<Rightarrow> byte list list \<Rightarrow> string" where
  "stream_finish P pieces = sha256_hex P (concat pieces)"

definition msg_hash_encrypted :: "('sk, 'pk) primitives \<Rightarrow> string \<Rightarrow> string" where
  "msg_hash_encrypted P ciphertext = sha256_hex P (bytes_of ciphertext)"

definition msg_hash_plaintext :: "('sk, 'pk) primitives \<Rightarrow> string \<Rightarrow> string" where
  "msg_hash_plaintext P content = sha256_hex P (bytes_of (trim content))"

definition msg_hash_edit :: "('sk, 'pk) primitives \<Rightarrow> string \<Rightarrow> bool \<Rightarrow> string" where
  "msg_hash_edit P content encrypted =
     (if encrypted then msg_hash_encrypted P content else msg_hash_plaintext P content)"

definition msg_hash_delete :: string where "msg_hash_delete = []"

datatype emoticon_action = Emoticon_add | Emoticon_remove

definition action_str :: "emoticon_action \<Rightarrow> string" where
  "action_str a = (case a of Emoticon_add \<Rightarrow> ''add'' | Emoticon_remove \<Rightarrow> ''remove'')"

definition msg_hash_emoticon ::
  "('sk, 'pk) primitives \<Rightarrow> message_id \<Rightarrow> string \<Rightarrow> emoticon_action \<Rightarrow> wallet_address \<Rightarrow> int \<Rightarrow> string" where
  "msg_hash_emoticon P mid code action sender timestamp_ms =
     sha256_hex P (bytes_of (message_str mid @ '':'' @ code @ '':'' @ action_str action @ '':'' @ as_str sender
       @ '':'' @ show_int timestamp_ms))"

end
