(* ===== verification/Auth.thy ===== *)
theory Auth
  imports Crypto Attachments
begin

text \<open>Authentication and accounts: src/app/server/src/auth.rs, routes/auth.rs, routes/users.rs, db/users.rs, the
suspensions of db/admin.rs and routes/admin.rs with their cache in lib.rs, and the minting of a download
capability in routes/files.rs.  A request is a function of the state it finds; where a handler makes several
database calls its later reads are of the state its earlier calls left.  Tokens are those of the jsonwebtoken
crate, whose two functions are parameters; times are arguments.\<close>

section \<open>State\<close>

record challenge_row =
  ch_id :: string
  ch_wallet :: string
  ch_nonce :: string
  ch_message :: string
  ch_expires_at :: int

text \<open>The database, the salts, the challenges, the table of suspended accounts, and the set that fronts it.\<close>

record auth_state =
  au_db :: server_db
  au_salts :: "string \<Rightarrow> string option"
  au_challenges :: "challenge_row list"
  au_suspended :: "(string \<times> string option \<times> string) list"
  au_cache :: "string list"

section \<open>Tokens\<close>

record claims =
  cl_wallet :: string
  cl_scope :: "string option"
  cl_iat :: int
  cl_exp :: int

text \<open>encode under a secret; decode under a secret at a time, with the signature and the expiry checked.\<close>

record jwt =
  jwt_encode :: "byte list \<Rightarrow> claims \<Rightarrow> string option"
  jwt_decode :: "byte list \<Rightarrow> int \<Rightarrow> string \<Rightarrow> claims option"

record jwt_keys =
  jk_secret :: "byte list"
  jk_download :: "byte list"
  jk_ttl :: int

definition DOWNLOAD_TTL_SECONDS :: int where "DOWNLOAD_TTL_SECONDS = 3600"

definition download_secret :: "('sk, 'pk) primitives \<Rightarrow> byte list \<Rightarrow> byte list" where
  "download_secret P secret = sha256 P (bytes_of ''pocketskynet/download-token/v1'' @ [0] @ secret)"

definition jwt_keys_new :: "('sk, 'pk) primitives \<Rightarrow> byte list \<Rightarrow> int \<Rightarrow> jwt_keys" where
  "jwt_keys_new P secret ttl_hours =
     \<lparr>jk_secret = secret, jk_download = download_secret P secret, jk_ttl = max ttl_hours 1 * 3600\<rparr>"

definition issue_token :: "jwt \<Rightarrow> jwt_keys \<Rightarrow> int \<Rightarrow> wallet_address \<Rightarrow> api_error + string" where
  "issue_token J K now_s w =
     ok_or (Internal_error ''signing token'')
       (jwt_encode J (jk_secret K) \<lparr>cl_wallet = as_str w, cl_scope = None, cl_iat = now_s, cl_exp = now_s + jk_ttl K\<rparr>)"

definition verify_token :: "jwt \<Rightarrow> jwt_keys \<Rightarrow> int \<Rightarrow> string \<Rightarrow> api_error + (wallet_address \<times> claims)" where
  "verify_token J K now_s token =
     (case jwt_decode J (jk_secret K) now_s token of
        None \<Rightarrow> Inl (Unauthorized ''Invalid token'')
      | Some c \<Rightarrow> (case wallet_new (cl_wallet c) of
                    Inl _ \<Rightarrow> Inl (Unauthorized ''Invalid token'') | Inr w \<Rightarrow> Inr (w, c)))"

definition issue_download :: "jwt \<Rightarrow> jwt_keys \<Rightarrow> int \<Rightarrow> wallet_address \<Rightarrow> string \<Rightarrow> api_error + string" where
  "issue_download J K now_s w scope =
     ok_or (Internal_error ''signing download token'')
       (jwt_encode J (jk_download K)
          \<lparr>cl_wallet = as_str w, cl_scope = Some scope, cl_iat = now_s, cl_exp = now_s + DOWNLOAD_TTL_SECONDS\<rparr>)"

definition bad_link :: api_error where "bad_link = Unauthorized ''Invalid or expired download link''"

definition verify_download :: "jwt \<Rightarrow> jwt_keys \<Rightarrow> int \<Rightarrow> string \<Rightarrow> string \<Rightarrow> api_error + wallet_address" where
  "verify_download J K now_s token scope =
     (case jwt_decode J (jk_download K) now_s token of
        None \<Rightarrow> Inl bad_link
      | Some c \<Rightarrow>
          if cl_scope c \<noteq> Some scope then Inl bad_link
          else (case wallet_new (cl_wallet c) of Inl _ \<Rightarrow> Inl bad_link | Inr w \<Rightarrow> Inr w))"

section \<open>The caller of a request\<close>

text \<open>split_once of the first white space character of a header, which is a text of ASCII and so of one byte.\<close>

definition is_header_space :: "char \<Rightarrow> bool" where
  "is_header_space c \<longleftrightarrow> [c] \<in> set white_space"

definition bearer_token :: "string option \<Rightarrow> string option" where
  "bearer_token header =
     (case header of
        None \<Rightarrow> None
      | Some raw \<Rightarrow>
          (let raw = trim raw in
           if raw = [] then None
           else let scheme = takeWhile (\<lambda>c. \<not> is_header_space c) raw; rest = drop (length scheme + 1) raw in
             if length scheme < length raw
             then (if eq_ignore_ascii_case scheme ''bearer''
                   then (let token = trim rest in if token = [] then None else Some token) else None)
             else if eq_ignore_ascii_case raw ''bearer'' then None else Some raw))"

definition is_suspended :: "string \<Rightarrow> auth_state \<Rightarrow> bool" where
  "is_suspended a st \<longleftrightarrow> to_ascii_lowercase a \<in> set (au_cache st)"

definition suspended_message :: string where
  "suspended_message = ''This account has been suspended by a server administrator.''"

definition auth_user :: "jwt \<Rightarrow> jwt_keys \<Rightarrow> int \<Rightarrow> string option \<Rightarrow> auth_state \<Rightarrow> api_error + wallet_address" where
  "auth_user J K now_s header st =
     try_bind (ok_or (Unauthorized ''No token provided'') (bearer_token header)) (\<lambda>token.
     try_bind (verify_token J K now_s token) (\<lambda>(w, _).
       ensure (\<not> is_suspended (as_str w) st) (Unauthorized suspended_message) (Inr w)))"

definition server_admins :: "string option \<Rightarrow> string list" where
  "server_admins setting =
     (case setting of
        None \<Rightarrow> []
      | Some raw \<Rightarrow> filter (\<lambda>e. e \<noteq> []) (map (\<lambda>e. to_ascii_lowercase (trim e)) (split_char CHR '','' raw)))"

definition is_configured_admin :: "string option \<Rightarrow> string \<Rightarrow> bool" where
  "is_configured_admin setting a \<longleftrightarrow> to_ascii_lowercase a \<in> set (server_admins setting)"

definition server_admin ::
  "string option \<Rightarrow> jwt \<Rightarrow> jwt_keys \<Rightarrow> int \<Rightarrow> string option \<Rightarrow> auth_state \<Rightarrow> api_error + wallet_address" where
  "server_admin setting J K now_s header st =
     try_bind (auth_user J K now_s header st) (\<lambda>w.
       ensure (is_configured_admin setting (as_str w)) (Forbidden ''This action requires a server administrator.'') (Inr w))"

section \<open>Challenges\<close>

definition CHALLENGE_TTL_MS :: int where "CHALLENGE_TTL_MS = 10 * 60 * 1000"

definition challenge_message :: "wallet_address \<Rightarrow> string \<Rightarrow> string" where
  "challenge_message w nonce =
     ''Welcome to FruitNation!'' @ nl @ nl
     @ ''Click to sign in and accept the FruitNation Terms of Service.'' @ nl @ nl
     @ ''This request will not trigger a blockchain transaction or cost any gas fees.'' @ nl @ nl
     @ ''Wallet address:'' @ nl @ as_str w @ nl @ nl @ ''Nonce:'' @ nl @ nonce"

definition gc_challenges :: "int \<Rightarrow> auth_state \<Rightarrow> auth_state" where
  "gc_challenges now st = st\<lparr>au_challenges := [c \<leftarrow> au_challenges st. \<not> ch_expires_at c < now]\<rparr>"

definition insert_challenge :: "challenge_row \<Rightarrow> auth_state \<Rightarrow> db_error + auth_state" where
  "insert_challenge c st =
     (if (\<exists>x \<in> set (au_challenges st). ch_id x = ch_id c) then Inl Sql_constraint
      else Inr (st\<lparr>au_challenges := au_challenges st @ [c]\<rparr>))"

definition consume_challenge :: "string \<Rightarrow> auth_state \<Rightarrow> challenge_row option \<times> auth_state" where
  "consume_challenge cid st =
     (find (\<lambda>c. ch_id c = cid) (au_challenges st),
      st\<lparr>au_challenges := [c \<leftarrow> au_challenges st. ch_id c \<noteq> cid]\<rparr>)"

text \<open>The handler: the entropy of the nonce, the id a UUID, and the clock at the two points it is read.\<close>

definition challenge_route ::
  "entropy \<Rightarrow> string \<Rightarrow> int \<Rightarrow> int \<Rightarrow> string option \<Rightarrow> auth_state \<Rightarrow> (api_error + (string \<times> string \<times> int)) \<times> auth_state" where
  "challenge_route e cid now gc_now body_wallet st =
     (case validate_wallet ''walletAddress'' body_wallet of
        Inl er \<Rightarrow> (Inl er, st)
      | Inr a \<Rightarrow>
          (case hex_32 e of
             Inl _ \<Rightarrow> (Inl (Internal_error ''entropy''), st)
           | Inr nonce \<Rightarrow>
               (let w = WalletAddress a; message = challenge_message w nonce; expires = now + CHALLENGE_TTL_MS;
                    st = gc_challenges gc_now st in
                case insert_challenge \<lparr>ch_id = cid, ch_wallet = a, ch_nonce = nonce, ch_message = message,
                                       ch_expires_at = expires\<rparr> st of
                  Inl er \<Rightarrow> (Inl (Database er), st)
                | Inr st \<Rightarrow> (Inr (cid, message, expires), st))))"

definition verify_challenge_signature ::
  "('sk, 'pk) primitives \<Rightarrow> wallet_address \<Rightarrow> string \<Rightarrow> string \<Rightarrow> api_error + unit" where
  "verify_challenge_signature P w message signature =
     (case recover_address P message signature of
        Inl _ \<Rightarrow> Inl (Unauthorized ''Invalid signature format'')
      | Inr a \<Rightarrow> if a = w then Inr () else Inl (Unauthorized ''Invalid signature''))"

definition server_verify_key_binding ::
  "('sk, 'pk) primitives \<Rightarrow> wallet_address \<Rightarrow> string \<Rightarrow> string \<Rightarrow> bool" where
  "server_verify_key_binding P w public_key signature \<longleftrightarrow>
     \<not> isl (verify_key_binding P w (Some public_key) (Some signature))"

section \<open>Accounts\<close>

definition get_user :: "string \<Rightarrow> auth_state \<Rightarrow> user_row option" where
  "get_user a st = db_users (sv_store (au_db st)) a"

definition set_user :: "string \<Rightarrow> user_row \<Rightarrow> auth_state \<Rightarrow> auth_state" where
  "set_user a u st =
     st\<lparr>au_db := (au_db st)\<lparr>sv_store := (sv_store (au_db st))\<lparr>db_users := (db_users (sv_store (au_db st)))(a \<mapsto> u)\<rparr>\<rparr>\<rparr>"

definition update_profile ::
  "string \<Rightarrow> string \<Rightarrow> string option option \<Rightarrow> int \<Rightarrow> auth_state \<Rightarrow> user_row option \<times> auth_state" where
  "update_profile a username picture now st =
     (case get_user a st of
        None \<Rightarrow> (None, st)
      | Some u \<Rightarrow>
          (let u = u\<lparr>ur_username := username, ur_updated_at := now,
                     ur_profile_image := (case picture of None \<Rightarrow> ur_profile_image u | Some v \<Rightarrow> v)\<rparr>
           in (Some u, set_user a u st)))"

definition set_encryption_key :: "string \<Rightarrow> string \<Rightarrow> string \<Rightarrow> int \<Rightarrow> auth_state \<Rightarrow> bool \<times> auth_state" where
  "set_encryption_key a public_key sig now st =
     (case get_user a st of
        None \<Rightarrow> (False, st)
      | Some u \<Rightarrow> (True, set_user a (u\<lparr>ur_public_key := Some public_key, ur_public_key_sig := Some sig,
                                       ur_updated_at := now\<rparr>) st))"

definition get_public_keys :: "string list \<Rightarrow> auth_state \<Rightarrow> (string \<times> string \<times> string option) list" where
  "get_public_keys addresses st =
     concat (map (\<lambda>a. case get_user a st of
                        None \<Rightarrow> []
                      | Some u \<Rightarrow> (case ur_public_key u of None \<Rightarrow> [] | Some k \<Rightarrow> [(a, k, ur_public_key_sig u)])) addresses)"

definition get_or_create_salt :: "entropy \<Rightarrow> string \<Rightarrow> auth_state \<Rightarrow> api_error + (string \<times> auth_state)" where
  "get_or_create_salt e a st =
     (case hex_32 e of
        Inl _ \<Rightarrow> Inl (Internal_error ''entropy'')
      | Inr candidate \<Rightarrow>
          (case au_salts st a of
             Some salt \<Rightarrow> Inr (salt, st)
           | None \<Rightarrow> Inr (candidate, st\<lparr>au_salts := (au_salts st)(a \<mapsto> candidate)\<rparr>)))"

section \<open>Logging in\<close>

text \<open>The supplied username: what the reference's JavaScript made of any JSON value.  The texts of numbers and
of compound values are a parameter.\<close>

definition js_string_or_empty :: "(json \<Rightarrow> string) \<Rightarrow> json option \<Rightarrow> string" where
  "js_string_or_empty show value =
     (case value of
        None \<Rightarrow> []
      | Some v \<Rightarrow>
          (case v of
             JNull \<Rightarrow> []
           | JBool b \<Rightarrow> if b then ''true'' else []
           | JStr s \<Rightarrow> trim s
           | JNum n \<Rightarrow> if n = 0 then [] else show v
           | _ \<Rightarrow> show v))"

record login_body =
  lb_wallet :: "string option"
  lb_username :: "json option"
  lb_challenge_id :: "string option"
  lb_signature :: "string option"
  lb_public_key :: "string option"
  lb_public_key_sig :: "string option"

definition login_username :: "(json \<Rightarrow> string) \<Rightarrow> json option \<Rightarrow> user_row option \<Rightarrow> api_error + string" where
  "login_username show value existing =
     (let supplied = js_string_or_empty show value in
      if supplied = []
      then (case existing of
              Some u \<Rightarrow> if ur_username u = [] then Inl (Bad_request ''Username is required for first-time login'')
                        else Inr (ur_username u)
            | None \<Rightarrow> Inl (Bad_request ''Username is required for first-time login''))
      else validate_username (Some supplied))"

definition login_keys ::
  "('sk, 'pk) primitives \<Rightarrow> wallet_address \<Rightarrow> string option \<Rightarrow> string option
   \<Rightarrow> api_error + (string option \<times> string option)" where
  "login_keys P w public_key public_key_sig =
     (case (public_key, public_key_sig) of
        (Some key, Some sig) \<Rightarrow>
          try_bind (validate_public_key (Some key)) (\<lambda>key.
          try_bind (validate_signature ''publicKeySig'' (Some sig)) (\<lambda>sig.
            ensure (server_verify_key_binding P w key sig) (Bad_request ''Invalid public key binding signature'')
              (Inr (Some key, Some sig))))
      | _ \<Rightarrow> Inr (None, None))"

record login_answer =
  la_user :: user_row
  la_token :: string
  la_salt :: string
  la_admin :: bool

text \<open>What follows the consumption of the challenge.\<close>

definition login_checks ::
  "('sk, 'pk) primitives \<Rightarrow> (json \<Rightarrow> string) \<Rightarrow> int \<Rightarrow> wallet_address \<Rightarrow> string \<Rightarrow> login_body \<Rightarrow> challenge_row option
   \<Rightarrow> auth_state \<Rightarrow> api_error + (string \<times> string option \<times> string option)" where
  "login_checks P show now w signature b challenge st =
     try_bind (ok_or (Bad_request ''Invalid or expired challenge'') challenge) (\<lambda>c.
       ensure (\<not> ch_expires_at c < now) (Bad_request ''Challenge has expired'')
      (ensure (eq_ignore_ascii_case (ch_wallet c) (as_str w)) (Bad_request ''Wallet address mismatch'')
      (try_bind (verify_challenge_signature P w (ch_message c) signature) (\<lambda>_.
       try_bind (login_username show (lb_username b) (get_user (as_str w) st)) (\<lambda>username.
       try_bind (login_keys P w (lb_public_key b) (lb_public_key_sig b)) (\<lambda>(key, sig).
         ensure (\<not> is_suspended (as_str w) st) (Forbidden suspended_message) (Inr (username, key, sig))))))))"

definition login_route ::
  "('sk, 'pk) primitives \<Rightarrow> (json \<Rightarrow> string) \<Rightarrow> string option \<Rightarrow> jwt \<Rightarrow> jwt_keys \<Rightarrow> entropy \<Rightarrow> int \<Rightarrow> int \<Rightarrow> login_body \<Rightarrow> auth_state
   \<Rightarrow> (api_error + login_answer) \<times> auth_state" where
  "login_route P show setting J K e now now_s b st =
     (case try_bind (validate_wallet ''walletAddress'' (lb_wallet b)) (\<lambda>a.
           try_bind (ok_or (required ''challengeId'' ''Challenge ID'')
                       (case lb_challenge_id b of None \<Rightarrow> None | Some s \<Rightarrow> if s = [] then None else Some s)) (\<lambda>cid.
           try_bind (validate_signature ''signature'' (lb_signature b)) (\<lambda>signature. Inr (a, cid, signature)))) of
        Inl er \<Rightarrow> (Inl er, st)
      | Inr (a, cid, signature) \<Rightarrow>
          (let w = WalletAddress a; (challenge, st) = consume_challenge cid st in
           case login_checks P show now w signature b challenge st of
             Inl er \<Rightarrow> (Inl er, st)
           | Inr (username, key, sig) \<Rightarrow>
               (let (u, d) = upsert_user a username key sig now (au_db st); st = st\<lparr>au_db := d\<rparr> in
                case get_or_create_salt e a st of
                  Inl er \<Rightarrow> (Inl er, st)
                | Inr (salt, st) \<Rightarrow>
                    (case issue_token J K now_s w of
                       Inl er \<Rightarrow> (Inl er, st)
                     | Inr token \<Rightarrow>
                         (Inr \<lparr>la_user = u, la_token = token, la_salt = salt,
                               la_admin = is_configured_admin setting a\<rparr>, st)))))"

section \<open>The other routes of an account\<close>

definition encryption_salt_route :: "entropy \<Rightarrow> wallet_address \<Rightarrow> auth_state \<Rightarrow> api_error + (string \<times> auth_state)" where
  "encryption_salt_route e caller st = get_or_create_salt e (as_str caller) st"

definition encryption_key_route ::
  "('sk, 'pk) primitives \<Rightarrow> wallet_address \<Rightarrow> string option \<Rightarrow> string option \<Rightarrow> int \<Rightarrow> auth_state
   \<Rightarrow> api_error + (string \<times> auth_state)" where
  "encryption_key_route P caller public_key public_key_sig now st =
     try_bind (validate_public_key public_key) (\<lambda>key.
     try_bind (validate_signature ''publicKeySig'' public_key_sig) (\<lambda>sig.
       ensure (server_verify_key_binding P caller key sig) (Bad_request ''Invalid public key binding signature'')
         (let (updated, st) = set_encryption_key (as_str caller) key sig now st in
          ensure updated (Not_found ''User not found'') (Inr (key, st)))))"

definition profile_route :: "wallet_address \<Rightarrow> auth_state \<Rightarrow> api_error + user_row" where
  "profile_route caller st = ok_or (Not_found ''User not found'') (get_user (as_str caller) st)"

definition update_profile_route ::
  "wallet_address \<Rightarrow> string option \<Rightarrow> string option \<Rightarrow> int \<Rightarrow> auth_state \<Rightarrow> api_error + (user_row \<times> auth_state)" where
  "update_profile_route caller username picture now st =
     try_bind (validate_username username) (\<lambda>username.
     try_bind (validate_profile_image picture) (\<lambda>picture.
       (case update_profile (as_str caller) username picture now st of
          (None, _) \<Rightarrow> Inl (Not_found ''User not found'') | (Some u, st) \<Rightarrow> Inr (u, st))))"

definition public_keys_route ::
  "string list option \<Rightarrow> auth_state \<Rightarrow> api_error + (string \<times> string \<times> string option) list" where
  "public_keys_route raw st =
     try_bind (ok_or (required ''addresses'' ''Addresses'') raw) (\<lambda>raw.
       ensure (raw \<noteq> [] \<and> length raw \<le> 50)
         (field_error ''addresses'' ''Addresses must contain between 1 and 50 entries'')
         (map_sum id (\<lambda>as. get_public_keys as st) (collect_results (\<lambda>e. validate_wallet ''addresses'' (Some e)) raw)))"

definition get_by_address_route :: "string \<Rightarrow> auth_state \<Rightarrow> api_error + user_row" where
  "get_by_address_route raw st =
     try_bind (validate_wallet ''address'' (Some raw)) (\<lambda>a. ok_or (Not_found ''User not found'') (get_user a st))"

section \<open>Search\<close>

text \<open>SQLite's LIKE: a percent sign is any text, an underline one character, and the escape character takes
the next one as it is; letters of ASCII match in either case.  A character is a lead byte with its
continuation bytes.\<close>

definition drop_char :: "string \<Rightarrow> string" where
  "drop_char s = dropWhile is_continuation (tl s)"

fun like_match :: "string \<Rightarrow> string \<Rightarrow> bool" where
  "like_match [] s = (s = [])"
| "like_match [c] s =
     (if c = CHR ''%'' then True
      else if c = CHR 0x5C then False
      else if c = CHR ''_'' then s \<noteq> [] \<and> drop_char s = []
      else (case s of [] \<Rightarrow> False | d # t \<Rightarrow> ascii_lower_char c = ascii_lower_char d \<and> t = []))"
| "like_match (c # e # p) s =
     (if c = CHR ''%'' then (\<exists>k \<in> set [0..<Suc (length s)]. like_match (e # p) (drop k s))
      else if c = CHR 0x5C then (case s of [] \<Rightarrow> False | d # t \<Rightarrow> ascii_lower_char e = ascii_lower_char d \<and> like_match p t)
      else if c = CHR ''_'' then s \<noteq> [] \<and> like_match (e # p) (drop_char s)
      else (case s of [] \<Rightarrow> False | d # t \<Rightarrow> ascii_lower_char c = ascii_lower_char d \<and> like_match (e # p) t))"

definition like_escape :: "string \<Rightarrow> string" where
  "like_escape q = concat (map (\<lambda>c. if c \<in> set [CHR 0x5C, CHR ''%'', CHR ''_''] then [CHR 0x5C, c] else [c]) q)"

definition SEARCH_LIMIT :: nat where "SEARCH_LIMIT = 50"

text \<open>The rows of the users table are an argument.\<close>

definition search_users ::
  "(string \<times> user_row) list \<Rightarrow> string \<Rightarrow> string \<Rightarrow> nat \<Rightarrow> auth_state \<Rightarrow> (string \<times> user_row) list" where
  "search_users rows viewer q limit st =
     (let pattern = ''%'' @ like_escape q @ ''%''; blocked = set (db_blocked (sv_store (au_db st))) in
      take limit (sort_key (\<lambda>(a, u). (ur_username u, a))
        [(a, u) \<leftarrow> rows. (like_match pattern (ur_username u) \<or> like_match pattern a)
           \<and> \<not> like_match (webhook_sender_prefix @ ''%'') a \<and> \<not> like_match (agent_sender_prefix @ ''%'') a
           \<and> (viewer, a) \<notin> blocked \<and> (a, viewer) \<notin> blocked]))"

definition search_route ::
  "(string \<times> user_row) list \<Rightarrow> wallet_address \<Rightarrow> string option \<Rightarrow> auth_state \<Rightarrow> api_error + (string \<times> user_row) list" where
  "search_route rows caller q st =
     map_sum id (\<lambda>q. search_users rows (as_str caller) q SEARCH_LIMIT st) (validate_search_query q)"

section \<open>Blocks\<close>

definition set_blocks :: "((string \<times> string) list \<Rightarrow> (string \<times> string) list) \<Rightarrow> auth_state \<Rightarrow> auth_state" where
  "set_blocks f st =
     st\<lparr>au_db := (au_db st)\<lparr>sv_store := (sv_store (au_db st))\<lparr>db_blocked := f (db_blocked (sv_store (au_db st)))\<rparr>\<rparr>\<rparr>"

definition block_list :: "auth_state \<Rightarrow> (string \<times> string) list" where
  "block_list st = db_blocked (sv_store (au_db st))"

definition list_blocked :: "string \<Rightarrow> auth_state \<Rightarrow> (string \<times> string) list" where
  "list_blocked viewer st = [b \<leftarrow> block_list st. fst b = viewer]"

definition list_blocked_by :: "string \<Rightarrow> auth_state \<Rightarrow> (string \<times> string) list" where
  "list_blocked_by viewer st = [b \<leftarrow> block_list st. snd b = viewer]"

definition block_user :: "string \<Rightarrow> string \<Rightarrow> auth_state \<Rightarrow> auth_state" where
  "block_user blocker target st =
     set_blocks (\<lambda>bs. if (blocker, target) \<in> set bs then bs else bs @ [(blocker, target)]) st"

definition unblock_user :: "string \<Rightarrow> string \<Rightarrow> auth_state \<Rightarrow> auth_state" where
  "unblock_user blocker target st = set_blocks (\<lambda>bs. [b \<leftarrow> bs. b \<noteq> (blocker, target)]) st"

definition blocked_by_viewer :: "string \<Rightarrow> auth_state \<Rightarrow> string set" where
  "blocked_by_viewer viewer st = snd ` set (list_blocked viewer st)"

definition mutual_block_set :: "string \<Rightarrow> auth_state \<Rightarrow> string set" where
  "mutual_block_set viewer st = snd ` set (list_blocked viewer st) \<union> fst ` set (list_blocked_by viewer st)"

definition room_peers :: "string \<Rightarrow> auth_state \<Rightarrow> string set" where
  "room_peers viewer st =
     set [mb_user peer. mine \<leftarrow> sv_members (au_db st), mb_user mine = viewer,
                        peer \<leftarrow> sv_members (au_db st), mb_room peer = mb_room mine \<and> mb_user peer \<noteq> viewer]"

definition block_route :: "wallet_address \<Rightarrow> string option \<Rightarrow> auth_state \<Rightarrow> api_error + auth_state" where
  "block_route caller raw st =
     try_bind (ok_or (Bad_request ''Wallet address is required'') raw) (\<lambda>raw.
       case wallet_new raw of
         Inl _ \<Rightarrow> Inl (Bad_request ''Invalid wallet address format'')
       | Inr target \<Rightarrow>
           ensure (target \<noteq> caller) (Bad_request ''Cannot block yourself'')
          (ensure (\<not> is_reserved target) (Bad_request ''That is not a person you can block.'')
          (ensure (get_user (as_str target) st \<noteq> None) (Not_found ''User not found'')
          (Inr (block_user (as_str caller) (as_str target) st)))))"

definition unblock_route :: "wallet_address \<Rightarrow> string \<Rightarrow> auth_state \<Rightarrow> api_error + auth_state" where
  "unblock_route caller raw st =
     (case wallet_new raw of
        Inl _ \<Rightarrow> Inl (Bad_request ''Invalid wallet address format'')
      | Inr target \<Rightarrow> Inr (unblock_user (as_str caller) (as_str target) st))"

definition is_blocked_route :: "wallet_address \<Rightarrow> string \<Rightarrow> auth_state \<Rightarrow> api_error + bool" where
  "is_blocked_route caller raw st =
     (case wallet_new raw of
        Inl _ \<Rightarrow> Inl (Bad_request ''Invalid wallet address format'')
      | Inr target \<Rightarrow> Inr (is_blocked (as_str caller) (as_str target) (au_db st)))"

section \<open>Suspensions\<close>

definition suspend_row :: "string \<Rightarrow> string option \<Rightarrow> string \<Rightarrow> auth_state \<Rightarrow> auth_state" where
  "suspend_row a reason by_admin st =
     st\<lparr>au_suspended := (if a \<in> fst ` set (au_suspended st)
        then map (\<lambda>r. if fst r = a then (a, reason, by_admin) else r) (au_suspended st)
        else au_suspended st @ [(a, reason, by_admin)])\<rparr>"

definition reinstate_row :: "string \<Rightarrow> auth_state \<Rightarrow> auth_state" where
  "reinstate_row a st = st\<lparr>au_suspended := [r \<leftarrow> au_suspended st. fst r \<noteq> a]\<rparr>"

definition suspended_addresses :: "auth_state \<Rightarrow> string list" where
  "suspended_addresses st = map fst (au_suspended st)"

text \<open>refresh_suspensions: the read of the table, and the write of the set, which happens whenever the task
runs on.\<close>

definition write_cache :: "string list \<Rightarrow> auth_state \<Rightarrow> auth_state" where
  "write_cache addresses st = st\<lparr>au_cache := map to_ascii_lowercase addresses\<rparr>"

definition refresh_suspensions :: "auth_state \<Rightarrow> auth_state" where
  "refresh_suspensions st = write_cache (suspended_addresses st) st"

primrec take_chars :: "nat \<Rightarrow> string \<Rightarrow> string" where
  "take_chars 0 s = []"
| "take_chars (Suc n) s =
     (case s of [] \<Rightarrow> []
      | c # t \<Rightarrow> c # takeWhile is_continuation t @ take_chars n (dropWhile is_continuation t))"

definition suspend_reason :: "string option \<Rightarrow> string option" where
  "suspend_reason raw =
     (case map_option trim raw of
        None \<Rightarrow> None
      | Some r \<Rightarrow> if r = [] then None else Some (take_chars 500 r))"

definition suspend_target :: "string option \<Rightarrow> wallet_address \<Rightarrow> string \<Rightarrow> string \<Rightarrow> api_error + string" where
  "suspend_target setting admin own raw =
     try_bind (validate_wallet ''walletAddress'' (Some raw)) (\<lambda>target.
       ensure (\<not> eq_ignore_ascii_case target (as_str admin)) (Bad_request own)
      (ensure (\<not> is_configured_admin setting target)
         (Bad_request ''That wallet is a server administrator. Remove it from VITE_FRUITNATION_ADMIN first.'')
      (Inr target)))"

definition suspend_route ::
  "string option \<Rightarrow> wallet_address \<Rightarrow> string \<Rightarrow> string option \<Rightarrow> auth_state \<Rightarrow> api_error + auth_state" where
  "suspend_route setting admin raw reason st =
     try_bind (suspend_target setting admin
       ''You cannot suspend yourself. Remove your address from VITE_FRUITNATION_ADMIN instead.'' raw) (\<lambda>target.
       Inr (refresh_suspensions (suspend_row target (suspend_reason reason) (as_str admin) st)))"

definition reinstate_route :: "wallet_address \<Rightarrow> string \<Rightarrow> auth_state \<Rightarrow> api_error + auth_state" where
  "reinstate_route admin raw st =
     try_bind (validate_wallet ''walletAddress'' (Some raw)) (\<lambda>target.
       Inr (refresh_suspensions (reinstate_row target st)))"

definition evict_user_route ::
  "string option \<Rightarrow> wallet_address \<Rightarrow> string \<Rightarrow> auth_state \<Rightarrow> api_error + (string list \<times> auth_state)" where
  "evict_user_route setting admin raw st =
     try_bind (suspend_target setting admin ''You cannot remove yourself.'' raw) (\<lambda>target.
       let (rooms, d) = evict_from_all_rooms target (au_db st) in
       Inr (rooms, refresh_suspensions
              (suspend_row target (Some ''Removed from the server'') (as_str admin) (st\<lparr>au_db := d\<rparr>))))"

section \<open>Download capabilities\<close>

definition download_token_route ::
  "unicode \<Rightarrow> (int \<Rightarrow> string) \<Rightarrow> jwt \<Rightarrow> jwt_keys \<Rightarrow> int \<Rightarrow> wallet_address \<Rightarrow> string \<Rightarrow> attachments
   \<Rightarrow> api_error + (string \<times> string \<times> bool)" where
  "download_token_route u iso_ms J K now_s caller fid a =
     try_bind (visible_file u iso_ms (as_str caller) fid a) (\<lambda>f.
     try_bind (issue_download J K now_s caller (download_scope fid)) (\<lambda>token.
     found ''File not found'' (stored_name fid a) (\<lambda>stored.
     try_bind (validated_path stored) (\<lambda>(digest, _).
       Inr (token, digest, thumb_exists (at_dir a) stored)))))"

text \<open>The credential of a download, with the tokens of this module.\<close>

definition downloader ::
  "jwt \<Rightarrow> jwt_keys \<Rightarrow> int \<Rightarrow> string option \<Rightarrow> string \<Rightarrow> string option \<Rightarrow> api_error + string" where
  "downloader J K now_s header fid dl =
     resolve_downloader (\<lambda>token scope. map_sum id as_str (verify_download J K now_s token scope))
       (\<lambda>token. map_sum id (as_str \<circ> fst) (verify_token J K now_s token)) (bearer_token header) fid dl"

end
