(* ===== verification/Crypto_Spec.thy ===== *)
theory Crypto_Spec
  imports Crypto
begin

section \<open>What the crates promise\<close>

definition hmac_ok :: "('sk, 'pk) primitives \<Rightarrow> bool" where
  "hmac_ok P \<longleftrightarrow> (\<forall>k m. length (hmac P k m) = 32)"

definition cipher_ok :: "('sk, 'pk) primitives \<Rightarrow> bool" where
  "cipher_ok P \<longleftrightarrow>
     (\<forall>k iv m. length k = 32 \<longrightarrow> length iv = 16 \<longrightarrow>
        cbc_decrypt P k iv (cbc_encrypt P k iv m) = Some m
        \<and> length (cbc_encrypt P k iv m) = 16 * (length m div 16 + 1))"

definition base64_ok :: "('sk, 'pk) primitives \<Rightarrow> bool" where
  "base64_ok P \<longleftrightarrow> (\<forall>b. base64_decode P (base64_encode P b) = Some b \<and> CHR ''|'' \<notin> set (base64_encode P b))"

definition curve_ok :: "('sk, 'pk) primitives \<Rightarrow> bool" where
  "curve_ok P \<longleftrightarrow>
     (\<forall>a b. diffie_hellman P a (public_of P b) = diffie_hellman P b (public_of P a))
     \<and> (\<forall>q. \<exists>rest. length rest = 64 \<and> sec1_bytes P q = 4 # rest)
     \<and> (\<forall>q. from_sec1 P (sec1_bytes P q) = Some q)
     \<and> (\<forall>s. length (scalar_bytes P s) = 32 \<and> scalar_from P (scalar_bytes P s) = Some s)"

definition ecdsa_ok :: "('sk, 'pk) primitives \<Rightarrow> bool" where
  "ecdsa_ok P \<longleftrightarrow>
     (\<forall>s h r v. sign_prehash P s h = Some (r, v) \<longrightarrow>
        length r = 64 \<and> v < 2 \<and> canonical_signature P r \<and> recover_prehash P h r v = Some (public_of P s))"

definition keccak_ok :: "('sk, 'pk) primitives \<Rightarrow> bool" where
  "keccak_ok P \<longleftrightarrow> (\<forall>m. length (keccak256 P m) = 32)"

definition primitives_ok :: "('sk, 'pk) primitives \<Rightarrow> bool" where
  "primitives_ok P \<longleftrightarrow>
     hmac_ok P \<and> cipher_ok P \<and> base64_ok P \<and> curve_ok P \<and> ecdsa_ok P \<and> keccak_ok P"

lemma primitives_okD:
  assumes "primitives_ok P"
  shows "hmac_ok P" "cipher_ok P" "base64_ok P" "curve_ok P" "ecdsa_ok P" "keccak_ok P"
  using assms by (simp_all add: primitives_ok_def)

lemma length_hmac: "hmac_ok P \<Longrightarrow> length (hmac P k m) = 32"
  by (simp add: hmac_ok_def)

lemma length_derive_subkey: "hmac_ok P \<Longrightarrow> length (derive_subkey P k l) = 32"
  by (simp add: derive_subkey_def length_hmac)

section \<open>Texts and bytes\<close>

lemma text_of_bytes: "map (\<lambda>b. char_of (unat b)) (bytes_of s) = s"
  by (simp add: bytes_of_def comp_def char_byte)

lemma bytes_of_inject: "bytes_of a = bytes_of b \<longleftrightarrow> a = b"
  using text_of_bytes by metis

lemma from_utf8_bytes_of: "valid_utf8 s \<Longrightarrow> from_utf8 (bytes_of s) = Inr s"
  by (simp add: from_utf8_def text_of_bytes)

lemma byte_char: "of_char (char_of (unat b)) = (b :: byte)"
proof -
  have "of_char (char_of (unat b)) = (of_nat (of_char (char_of (unat b))) :: byte)"
    by (simp only: of_nat_of_char)
  also have "\<dots> = b" using unat_byte_bound [of b] by (simp add: of_char_of)
  finally show ?thesis .
qed

lemma from_utf8_Inr: "from_utf8 b = Inr s \<Longrightarrow> b = bytes_of s \<and> valid_utf8 s"
  by (auto simp: from_utf8_def Let_def bytes_of_def comp_def byte_char split: if_splits)

definition pipe_free :: "string \<Rightarrow> bool" where
  "pipe_free s \<longleftrightarrow> CHR ''|'' \<notin> set s"

lemma pipe_splits:
  assumes "pipe_free a" "pipe_free b"
  shows "a @ ''|'' @ s = b @ ''|'' @ t \<longleftrightarrow> a = b \<and> s = t"
  using assms
proof (induction a arbitrary: b)
  case Nil
  then show ?case by (cases b) (auto simp: pipe_free_def)
next
  case (Cons c a)
  then show ?case by (cases b) (auto simp: pipe_free_def)
qed

lemma hex_pipe_free: "pipe_free (hex_encode b)"
  using hexc.enc_lower by (fastforce simp: pipe_free_def char_class_codes)

lemma decode_iv_pipe_free: "decode_iv s = Some iv \<Longrightarrow> pipe_free s \<and> length iv = 16"
proof -
  assume *: "decode_iv s = Some iv"
  then have "hex_decode s = Some iv" "length s = 32" by (auto simp: decode_iv_def split: if_splits)
  then show ?thesis using hexc.dec_digits [of s iv] hexc.dec_length [of s iv]
    by (fastforce simp: pipe_free_def char_class_codes)
qed

lemma decode_iv_encode: "length iv = 16 \<Longrightarrow> decode_iv (hex_encode iv) = Some iv"
  by (simp add: decode_iv_def hexc.enc_length hexc.dec_enc)

section \<open>The tag\<close>

lemma verify_mac_iff:
  "hmac_ok P \<Longrightarrow> verify_mac P k i h \<longleftrightarrow> hex_decode h = Some (hmac P k (bytes_of i))"
  by (auto simp: verify_mac_def length_hmac split: option.splits)

lemma verify_mac_hex: "hmac_ok P \<Longrightarrow> to_ascii_lowercase h = mac_hex P k i \<Longrightarrow> verify_mac P k i h"
proof -
  assume ok: "hmac_ok P" and h: "to_ascii_lowercase h = mac_hex P k i"
  have len: "length h = 2 * 32"
    using arg_cong [OF h, of length] ok by (simp add: mac_hex_def hexc.enc_length length_hmac)
  have low: "\<forall>c \<in> set (to_ascii_lowercase h). is_lower_hexdigit c"
    unfolding h mac_hex_def using hexc.enc_lower by blast
  have "\<forall>c \<in> set h. is_ascii_hexdigit c"
  proof
    fix c assume "c \<in> set h"
    then have "is_lower_hexdigit (ascii_lower_char c)" using low by (simp add: to_ascii_lowercase_def)
    then show "is_ascii_hexdigit c"
      by (auto simp: char_class_codes ascii_lower_char_code split: if_splits)
  qed
  then obtain bs where bs: "hex_decode h = Some bs" using hexc.dec_length_defined [OF len] by blast
  then have "hex_encode bs = hex_encode (hmac P k (bytes_of i))"
    using hexc.dec_spelling [OF bs] h by (simp add: mac_hex_def)
  then show ?thesis using bs ok by (simp add: verify_mac_iff hexc.enc_inject)
qed

lemma aes_cbc_roundtrip:
  "cipher_ok P \<Longrightarrow> length k = 32 \<Longrightarrow> length iv = 16 \<Longrightarrow> aes_cbc_decrypt P k iv (cbc_encrypt P k iv m) = Inr m"
proof -
  assume "cipher_ok P" "length k = 32" "length iv = 16"
  then have c: "cbc_decrypt P k iv (cbc_encrypt P k iv m) = Some m"
      "length (cbc_encrypt P k iv m) = 16 * (length m div 16 + 1)" by (auto simp: cipher_ok_def)
  then have "cbc_encrypt P k iv m \<noteq> []" by auto
  with c show ?thesis by (simp add: aes_cbc_decrypt_def ok_or_def)
qed

section \<open>Messages\<close>

lemma message_opens:
  assumes ok: "primitives_ok P" and iv: "length iv = 16" and utf: "valid_utf8 s"
    and enc: "encrypt_message_v2_with_iv P s key room iv = Inr m"
  shows "decrypt_message_v2 P (em_content m) (em_iv m) h key room
         = (if verify_mac P (derive_subkey P key MSG_MAC_LABEL)
                 (message_mac_input room (em_iv m) (em_content m)) h
            then Inr s else Inl Decryption_failed)"
proof -
  note ok = primitives_okD [OF ok]
  have ne: "s \<noteq> []" and m: "em_iv m = hex_encode iv"
      "em_content m = base64_encode P (cbc_encrypt P (derive_subkey P key MSG_ENC_LABEL) iv (bytes_of s))"
    using enc by (auto simp: encrypt_message_v2_with_iv_def Let_def split: if_splits)
  show ?thesis
    using ok(3) ne aes_cbc_roundtrip [OF ok(2) length_derive_subkey [OF ok(1)] iv]
    by (simp add: decrypt_message_v2_def m decode_iv_encode iv ok_or_def base64_ok_def from_utf8_bytes_of utf)
qed

text \<open>The inputs an honest holder of a message key has tagged, and what a forgery is: a tag that verifies on
an input outside them.\<close>

type_synonym sealing = "string \<times> string \<times> byte list"

definition honest_log :: "sealing list \<Rightarrow> bool" where
  "honest_log log \<longleftrightarrow> (\<forall>(s, room, iv) \<in> set log. valid_utf8 s \<and> pipe_free room \<and> length iv = 16)"

definition message_tagged :: "('sk, 'pk) primitives \<Rightarrow> byte list \<Rightarrow> sealing list \<Rightarrow> string set" where
  "message_tagged P key log =
     {message_mac_input room (em_iv m) (em_content m) | s room iv m.
        (s, room, iv) \<in> set log \<and> encrypt_message_v2_with_iv P s key room iv = Inr m}"

definition forged :: "('sk, 'pk) primitives \<Rightarrow> byte list \<Rightarrow> string set \<Rightarrow> string \<Rightarrow> string \<Rightarrow> bool" where
  "forged P k tagged input h \<longleftrightarrow> verify_mac P k input h \<and> input \<notin> tagged"

lemma mac_hex_of_verified:
  "hmac_ok P \<Longrightarrow> verify_mac P k i h \<Longrightarrow> mac_hex P k i = to_ascii_lowercase h"
  using hexc.dec_spelling by (auto simp: verify_mac_iff mac_hex_def)

lemma message_mac_input_inject:
  assumes "pipe_free r" "pipe_free r'" "pipe_free i" "pipe_free i'"
  shows "message_mac_input r i c = message_mac_input r' i' c' \<longleftrightarrow> r = r' \<and> i = i' \<and> c = c'"
  using assms pipe_splits [of r r' "i @ ''|'' @ c" "i' @ ''|'' @ c'"] pipe_splits [of i i' c c']
  unfolding message_mac_input_def by (simp only: same_append_eq)

lemma encrypt_message_fields:
  assumes "encrypt_message_v2_with_iv P s key room iv = Inr m"
  shows "em_iv m = hex_encode iv"
    "em_hmac m = mac_hex P (derive_subkey P key MSG_MAC_LABEL) (message_mac_input room (em_iv m) (em_content m))"
  using assms by (auto simp: encrypt_message_v2_with_iv_def Let_def split: if_splits)

lemma accepted_message:
  assumes "decrypt_message_v2 P ct iv_hex h key room = Inr s"
  shows "verify_mac P (derive_subkey P key MSG_MAC_LABEL) (message_mac_input room iv_hex ct) h" "pipe_free iv_hex"
proof -
  show "verify_mac P (derive_subkey P key MSG_MAC_LABEL) (message_mac_input room iv_hex ct) h"
    using assms by (auto simp: decrypt_message_v2_def split: if_splits)
  obtain iv where "decode_iv iv_hex = Some iv"
    using assms by (cases "decode_iv iv_hex") (auto simp: decrypt_message_v2_def ok_or_def split: if_splits)
  then show "pipe_free iv_hex" using decode_iv_pipe_free by blast
qed

text \<open>C5.  A message that opens in a room was sealed for that room, or its tag is a forgery: whatever the
server returns for a room with a plain name, if the client reads a text out of it, then a member sealed
that very text for that very room, with that IV and ciphertext, or else somebody tagged an input that no
member ever tagged.  So a server that has no key can neither move a message to another room, nor pair
an IV with another ciphertext, nor alter a byte.\<close>

theorem opened_was_sealed:
  assumes ok: "primitives_ok P" and room: "pipe_free room" and log: "honest_log log"
    and opened: "decrypt_message_v2 P ct iv_hex h key room = Inr s"
  shows "(\<exists>iv. (s, room, iv) \<in> set log
            \<and> encrypt_message_v2_with_iv P s key room iv = Inr \<lparr>em_content = ct, em_iv = iv_hex, em_hmac = to_ascii_lowercase h\<rparr>)
         \<or> forged P (derive_subkey P key MSG_MAC_LABEL) (message_tagged P key log) (message_mac_input room iv_hex ct) h"
proof (rule disjCI)
  note tag = accepted_message [OF opened]
  assume "\<not> forged P (derive_subkey P key MSG_MAC_LABEL) (message_tagged P key log) (message_mac_input room iv_hex ct) h"
  then obtain s' room' iv m where e: "(s', room', iv) \<in> set log" "encrypt_message_v2_with_iv P s' key room' iv = Inr m"
      and i: "message_mac_input room iv_hex ct = message_mac_input room' (em_iv m) (em_content m)"
    using tag(1) by (auto simp: forged_def message_tagged_def)
  have h: "valid_utf8 s'" "pipe_free room'" "length iv = 16" using e(1) log by (auto simp: honest_log_def)
  have eq: "room' = room" "em_iv m = iv_hex" "em_content m = ct"
    using i room h tag(2) encrypt_message_fields(1) [OF e(2)]
    by (simp_all add: message_mac_input_inject hex_pipe_free)
  have "s' = s" using message_opens [OF ok h(3,1) e(2), of h] opened tag(1) by (simp add: eq)
  moreover have "em_hmac m = to_ascii_lowercase h"
    using encrypt_message_fields(2) [OF e(2)] mac_hex_of_verified [OF primitives_okD(1) [OF ok] tag(1)] by (simp add: eq)
  ultimately show "\<exists>iv. (s, room, iv) \<in> set log
      \<and> encrypt_message_v2_with_iv P s key room iv = Inr \<lparr>em_content = ct, em_iv = iv_hex, em_hmac = to_ascii_lowercase h\<rparr>"
    using e eq by (intro exI [of _ iv]) (cases m, simp)
qed

section \<open>Primitives that keep the promises\<close>

text \<open>Small functions that satisfy the documented laws, for the witnesses: a tag and a hash that add up their
input, padding without a cipher, the group of bytes under multiplication, a signature that shows its key.\<close>

definition byte_sum :: "byte list \<Rightarrow> byte list" where
  "byte_sum m = replicate 31 0 @ [foldr (+) m 0]"

definition toy_tag :: "byte list \<Rightarrow> byte list" where
  "toy_tag h = take 63 (h @ replicate 63 0)"

definition pad16 :: "byte list \<Rightarrow> byte list" where
  "pad16 m = m @ replicate (16 - length m mod 16) (word_of_nat (16 - length m mod 16))"

definition unpad16 :: "byte list \<Rightarrow> byte list option" where
  "unpad16 c = (if c = [] then None else Some (take (length c - unat (last c)) c))"

definition toy_primitives :: "(byte, byte) primitives" where
  "toy_primitives =
     \<lparr>hmac = \<lambda>k m. byte_sum (k @ m),
      cbc_encrypt = \<lambda>k iv. pad16,
      cbc_decrypt = \<lambda>k iv. unpad16,
      base64_encode = hex_encode, base64_decode = hex_decode,
      diffie_hellman = \<lambda>a q. replicate 32 (a * q), public_of = \<lambda>a. a,
      sec1_bytes = \<lambda>q. 4 # q # replicate 63 0, from_sec1 = \<lambda>bs. Some (bs ! 1),
      scalar_from = \<lambda>bs. if length bs = 32 then Some (hd bs) else None,
      scalar_bytes = \<lambda>s. s # replicate 31 0,
      sign_prehash = \<lambda>s h. Some (s # toy_tag h, 0),
      canonical_signature = \<lambda>r. True,
      recover_prehash = \<lambda>h r v. if tl r = toy_tag h then Some (hd r) else None,
      keccak256 = byte_sum, sha256 = byte_sum,
      hmac_sha512 = \<lambda>k m. byte_sum (k @ m) @ byte_sum m,
      compressed_bytes = \<lambda>q. 2 # q # replicate 31 0,
      scalar_add = \<lambda>i s. Some (last (0 # i) + s),
      mnemonic_from_entropy = \<lambda>e. Some (hex_encode e), mnemonic_parse = Some, mnemonic_seed = bytes_of\<rparr>"

lemma unpad_pad: "unpad16 (pad16 m) = Some m"
proof -
  have r: "16 - length m mod 16 \<noteq> 0" by simp
  have u: "unat (word_of_nat (16 - length m mod 16) :: byte) = 16 - length m mod 16"
    by (rule unat_byte_of_nat) simp
  have "last (pad16 m) = word_of_nat (16 - length m mod 16)" using r unfolding pad16_def by (simp add: last_append)
  then have "length (pad16 m) - unat (last (pad16 m)) = length m" using u by (simp add: pad16_def)
  moreover have "pad16 m \<noteq> []" using r by (simp add: pad16_def)
  ultimately show ?thesis by (simp add: unpad16_def) (simp add: pad16_def)
qed

lemma length_pad16: "length (pad16 m) = 16 * (length m div 16 + 1)"
proof -
  have "length m = 16 * (length m div 16) + length m mod 16" "length m mod 16 < 16" by simp_all
  then have "length m + (16 - length m mod 16) = 16 * (length m div 16 + 1)" by arith
  then show ?thesis by (simp add: pad16_def)
qed

lemma toy_primitives_ok: "primitives_ok toy_primitives"
proof -
  have p: "CHR ''|'' \<notin> set (hex_encode b)" for b using hex_pipe_free by (simp add: pipe_free_def)
  have "hmac_ok toy_primitives" "base64_ok toy_primitives" "keccak_ok toy_primitives"
    by (simp_all add: hmac_ok_def base64_ok_def keccak_ok_def toy_primitives_def byte_sum_def hexc.dec_enc p)
  moreover have "cipher_ok toy_primitives"
    by (simp add: cipher_ok_def toy_primitives_def unpad_pad length_pad16)
  moreover have "curve_ok toy_primitives"
    by (simp add: curve_ok_def toy_primitives_def mult.commute)
  moreover have "ecdsa_ok toy_primitives"
    by (simp add: ecdsa_ok_def toy_primitives_def toy_tag_def min_def)
  ultimately show ?thesis by (simp add: primitives_ok_def)
qed

lemma sealed_example:
  "encrypt_message_v2_with_iv toy_primitives ''hi'' (replicate 32 7) ''room'' (replicate 16 0)
   = Inr (let ct = hex_encode (pad16 (bytes_of ''hi'')); iv = hex_encode (replicate 16 0)
          in \<lparr>em_content = ct, em_iv = iv,
              em_hmac = mac_hex toy_primitives (derive_subkey toy_primitives (replicate 32 7) MSG_MAC_LABEL)
                (message_mac_input ''room'' iv ct)\<rparr>)"
proof -
  have t: "trim ''hi'' = ''hi''" by (rule trim_graphic) (simp add: is_graphic_def)
  show ?thesis unfolding encrypt_message_v2_with_iv_def t
    by (simp add: toy_primitives_def Let_def)
qed

lemma hi_utf8: "valid_utf8 ''hi''"
  by (simp add: between_def)

text \<open>A message sealed and opened, by the theorem found in the log.\<close>

theorem opened_was_sealed_witness:
  "\<exists>m. encrypt_message_v2_with_iv toy_primitives ''hi'' (replicate 32 7) ''room'' (replicate 16 0) = Inr m
     \<and> decrypt_message_v2 toy_primitives (em_content m) (em_iv m) (em_hmac m) (replicate 32 7) ''room'' = Inr ''hi''
     \<and> ((\<exists>iv. (''hi'', ''room'', iv) \<in> set [(''hi'', ''room'', replicate 16 0)]
            \<and> encrypt_message_v2_with_iv toy_primitives ''hi'' (replicate 32 7) ''room'' iv
              = Inr \<lparr>em_content = em_content m, em_iv = em_iv m, em_hmac = to_ascii_lowercase (em_hmac m)\<rparr>)
        \<or> forged toy_primitives (derive_subkey toy_primitives (replicate 32 7) MSG_MAC_LABEL)
            (message_tagged toy_primitives (replicate 32 7) [(''hi'', ''room'', replicate 16 0)])
            (message_mac_input ''room'' (em_iv m) (em_content m)) (em_hmac m))"
proof -
  obtain m where m: "encrypt_message_v2_with_iv toy_primitives ''hi'' (replicate 32 7) ''room'' (replicate 16 0) = Inr m"
    using sealed_example by blast
  have iv: "length (replicate 16 (0 :: byte)) = 16" by simp
  have v: "verify_mac toy_primitives (derive_subkey toy_primitives (replicate 32 7) MSG_MAC_LABEL)
        (message_mac_input ''room'' (em_iv m) (em_content m)) (em_hmac m)"
    unfolding encrypt_message_fields(2) [OF m]
    using primitives_okD(1) [OF toy_primitives_ok] by (simp add: verify_mac_iff mac_hex_def hexc.dec_enc)
  have o: "decrypt_message_v2 toy_primitives (em_content m) (em_iv m) (em_hmac m) (replicate 32 7) ''room'' = Inr ''hi''"
    using message_opens [OF toy_primitives_ok iv hi_utf8 m] v by simp
  have "pipe_free ''room''" "honest_log [(''hi'', ''room'', replicate 16 0)]"
    using hi_utf8 by (simp_all add: pipe_free_def honest_log_def)
  from opened_was_sealed [OF toy_primitives_ok this o] show ?thesis using m o by blast
qed

section \<open>The vault\<close>

type_synonym vault_sealing = "string \<times> vault_field \<times> string \<times> byte list"

definition vault_log :: "vault_sealing list \<Rightarrow> bool" where
  "vault_log log \<longleftrightarrow> (\<forall>(entry, fld, s, iv) \<in> set log. valid_utf8 s \<and> length iv = 16)"

definition vault_tagged :: "('sk, 'pk) primitives \<Rightarrow> vault_key \<Rightarrow> vault_sealing list \<Rightarrow> string set" where
  "vault_tagged P vault log =
     {secret_mac_input entry fld (sf_iv f) (sf_ciphertext f) | entry fld s iv f.
        (entry, fld, s, iv) \<in> set log \<and> seal_field_with_iv P vault entry fld s iv = Inr f}"

lemma pipe_free_iff: "pipe_free s \<longleftrightarrow> count_list s CHR ''|'' = 0"
  by (simp add: pipe_free_def count_list_0_iff)

lemma field_str_pipe_free: "pipe_free (field_str f)"
  by (cases f) (simp_all add: pipe_free_def field_str_def)

lemma field_str_inject: "field_str f = field_str g \<longleftrightarrow> f = g"
  by (cases f; cases g) (simp_all add: field_str_def)

lemma entry_id_pipe_free: "is_valid_entry_id s \<Longrightarrow> pipe_free s"
proof -
  have "\<not> message_id_char CHR ''|''"
    by (simp add: message_id_char_def is_ascii_alphanumeric_def char_class_codes)
  then show "is_valid_entry_id s \<Longrightarrow> pipe_free s"
    by (auto simp: is_valid_entry_id_def pipe_free_def list_all_iff)
qed

text \<open>The input of a tag has three bars after its domain when an honest client made it, so it splits in one
way only, whatever entry id and ciphertext the reader was given.\<close>

lemma secret_mac_input_inject:
  assumes honest: "pipe_free e" "pipe_free i" "pipe_free c" and i': "pipe_free i'"
    and eq: "secret_mac_input e f i c = secret_mac_input e' f' i' c'"
  shows "e = e' \<and> f = f' \<and> i = i' \<and> c = c'"
proof -
  have eq: "e @ ''|'' @ field_str f @ ''|'' @ i @ ''|'' @ c = e' @ ''|'' @ field_str f' @ ''|'' @ i' @ ''|'' @ c'"
    using eq unfolding secret_mac_input_def by (simp only: same_append_eq)
  from arg_cong [OF this, of "\<lambda>s. count_list s CHR ''|''"]
  have "pipe_free e'"
    using honest i' field_str_pipe_free [of f] field_str_pipe_free [of f'] by (simp add: pipe_free_iff)
  with eq show ?thesis
    using honest i' field_str_pipe_free [of f] field_str_pipe_free [of f'] field_str_inject [of f f']
    by (simp only: pipe_splits)
qed

lemma seal_fields:
  assumes "seal_field_with_iv P vault entry fld s iv = Inr f"
  shows "is_valid_entry_id entry" "sf_iv f = hex_encode iv"
    "sf_ciphertext f = base64_encode P (cbc_encrypt P (vk_enc vault) iv (bytes_of s))"
    "sf_hmac f = mac_hex P (vk_mac vault) (secret_mac_input entry fld (sf_iv f) (sf_ciphertext f))"
  using assms by (auto simp: seal_field_with_iv_def Let_def split: if_splits)

lemma field_opens:
  assumes ok: "primitives_ok P" and key: "length (vk_enc vault) = 32" and iv: "length iv = 16" and utf: "valid_utf8 s"
    and seal: "seal_field_with_iv P vault entry fld s iv = Inr f"
    and same: "sf_iv g = sf_iv f" "sf_ciphertext g = sf_ciphertext f"
  shows "open_field P vault entry fld g
         = (if verify_mac P (vk_mac vault) (secret_mac_input entry fld (sf_iv f) (sf_ciphertext f)) (sf_hmac g)
            then Inr s else Inl Decryption_failed)"
  using primitives_okD(3) [OF ok] seal_fields(2,3) [OF seal] same
    aes_cbc_roundtrip [OF primitives_okD(2) [OF ok] key iv]
  by (simp add: open_field_def decode_iv_encode iv ok_or_def base64_ok_def from_utf8_bytes_of utf)

lemma derive_vault_length: "hmac_ok P \<Longrightarrow> length (vk_enc (derive_vault P k)) = 32"
  by (simp add: derive_vault_def Let_def length_derive_subkey)

text \<open>C30.  The server cannot rearrange the vault: whatever row it serves, under whatever entry id and in
whichever slot, a field that opens is the text its owner sealed for that entry and for that slot, or its
tag is a forgery.  In particular a value never opens as a label and no entry's secret opens under another
entry.\<close>

theorem vault_not_rearranged:
  assumes ok: "primitives_ok P" and log: "vault_log log" and vault: "vault = derive_vault P private_key"
    and opened: "open_field P vault entry fld f = Inr s"
  shows "(\<exists>iv. (entry, fld, s, iv) \<in> set log
            \<and> seal_field_with_iv P vault entry fld s iv = Inr (f\<lparr>sf_hmac := to_ascii_lowercase (sf_hmac f)\<rparr>))
         \<or> forged P (vk_mac vault) (vault_tagged P vault log)
             (secret_mac_input entry fld (sf_iv f) (sf_ciphertext f)) (sf_hmac f)"
proof (rule disjCI)
  note p = primitives_okD [OF ok]
  have tag: "verify_mac P (vk_mac vault) (secret_mac_input entry fld (sf_iv f) (sf_ciphertext f)) (sf_hmac f)"
    using opened by (auto simp: open_field_def split: if_splits)
  obtain iv' where "decode_iv (sf_iv f) = Some iv'"
    using opened by (cases "decode_iv (sf_iv f)") (auto simp: open_field_def ok_or_def split: if_splits)
  then have fp: "pipe_free (sf_iv f)" using decode_iv_pipe_free by blast
  assume "\<not> forged P (vk_mac vault) (vault_tagged P vault log)
            (secret_mac_input entry fld (sf_iv f) (sf_ciphertext f)) (sf_hmac f)"
  then obtain e g s' iv f' where e: "(e, g, s', iv) \<in> set log" "seal_field_with_iv P vault e g s' iv = Inr f'"
      and i: "secret_mac_input e g (sf_iv f') (sf_ciphertext f')
              = secret_mac_input entry fld (sf_iv f) (sf_ciphertext f)"
    using tag by (auto simp: forged_def vault_tagged_def)
  note sf = seal_fields [OF e(2)]
  have "pipe_free (sf_ciphertext f')" using p(3) by (simp add: sf base64_ok_def pipe_free_def)
  then have eq: "e = entry" "g = fld" "sf_iv f' = sf_iv f" "sf_ciphertext f' = sf_ciphertext f"
    using secret_mac_input_inject [OF entry_id_pipe_free [OF sf(1)] _ _ fp i] hex_pipe_free sf(2) by auto
  have h: "valid_utf8 s'" "length iv = 16" using e(1) log by (auto simp: vault_log_def)
  have "length (vk_enc vault) = 32" using vault derive_vault_length [OF p(1)] by simp
  from field_opens [OF ok this h(2,1) e(2) eq(3,4) [symmetric]] have "s' = s"
    using opened tag by (simp add: eq)
  moreover have "sf_hmac f' = to_ascii_lowercase (sf_hmac f)"
    using sf(4) mac_hex_of_verified [OF p(1) tag] by (simp add: eq)
  ultimately show "\<exists>iv. (entry, fld, s, iv) \<in> set log
      \<and> seal_field_with_iv P vault entry fld s iv = Inr (f\<lparr>sf_hmac := to_ascii_lowercase (sf_hmac f)\<rparr>)"
    using e eq by (intro exI [of _ iv]) (cases f, cases f', simp)
qed

text \<open>A label sealed and opened again.\<close>

definition toy_vault :: vault_key where
  "toy_vault = derive_vault toy_primitives (replicate 32 5)"

lemma toy_sealed:
  "\<exists>f. seal_field_with_iv toy_primitives toy_vault ''sec_000000'' Field_key ''hi'' (replicate 16 0) = Inr f"
  by (simp add: seal_field_with_iv_def Let_def is_valid_entry_id_def message_id_char_def is_ascii_alphanumeric_def
      char_class_codes MAX_SECRET_BYTES_def)

theorem vault_not_rearranged_witness:
  "\<exists>f. seal_field_with_iv toy_primitives toy_vault ''sec_000000'' Field_key ''hi'' (replicate 16 0) = Inr f
     \<and> open_field toy_primitives toy_vault ''sec_000000'' Field_key f = Inr ''hi''
     \<and> ((\<exists>iv. (''sec_000000'', Field_key, ''hi'', iv) \<in> set [(''sec_000000'', Field_key, ''hi'', replicate 16 0)]
            \<and> seal_field_with_iv toy_primitives toy_vault ''sec_000000'' Field_key ''hi'' iv
              = Inr (f\<lparr>sf_hmac := to_ascii_lowercase (sf_hmac f)\<rparr>))
         \<or> forged toy_primitives (vk_mac toy_vault)
             (vault_tagged toy_primitives toy_vault [(''sec_000000'', Field_key, ''hi'', replicate 16 0)])
             (secret_mac_input ''sec_000000'' Field_key (sf_iv f) (sf_ciphertext f)) (sf_hmac f))"
proof -
  obtain f where f: "seal_field_with_iv toy_primitives toy_vault ''sec_000000'' Field_key ''hi'' (replicate 16 0) = Inr f"
    using toy_sealed by blast
  have iv: "length (replicate 16 (0 :: byte)) = 16" by simp
  have v: "verify_mac toy_primitives (vk_mac toy_vault)
        (secret_mac_input ''sec_000000'' Field_key (sf_iv f) (sf_ciphertext f)) (sf_hmac f)"
    unfolding seal_fields(4) [OF f]
    using primitives_okD(1) [OF toy_primitives_ok] by (simp add: verify_mac_iff mac_hex_def hexc.dec_enc)
  have k: "length (vk_enc toy_vault) = 32"
    using derive_vault_length [OF primitives_okD(1) [OF toy_primitives_ok]] by (simp add: toy_vault_def)
  have o: "open_field toy_primitives toy_vault ''sec_000000'' Field_key f = Inr ''hi''"
    using field_opens [OF toy_primitives_ok k iv hi_utf8 f refl refl] v by simp
  have "vault_log [(''sec_000000'', Field_key, ''hi'', replicate 16 0)]"
    using hi_utf8 by (simp add: vault_log_def)
  from vault_not_rearranged [OF toy_primitives_ok this toy_vault_def o] show ?thesis using f o by blast
qed

section \<open>Round trips\<close>

lemma draw_enough: "n \<le> length e \<Longrightarrow> draw n e = Inr (take n e, drop n e)"
  by (simp add: draw_def)

lemma lower_hexes:
  assumes "length b = n"
  shows "is_lower_hex (hex_encode b) (2 * n)"
  using assms hexc.enc_length [of b] hexc.enc_lower [of _ b] by (auto simp: is_lower_hex_def list_all_iff)

text \<open> What a member seals under the key of a room reads back as it was, for every holder of that key:
the sealing succeeds on any text that is not blank, its IV and tag have the shape the server's validation
asks for, and opening it in that room returns the text, also when the tag comes in the other case of its
hexadecimal digits.\<close>

theorem message_roundtrip:
  assumes ok: "primitives_ok P" and e: "16 \<le> length e" and utf: "valid_utf8 s" and s: "trim s \<noteq> []"
  shows "\<exists>m. encrypt_message_v2 P e s key room = Inr m
    \<and> message_iv (Some (em_iv m)) = Inr (Some (em_iv m))
    \<and> message_hmac (Some (em_hmac m)) = Inr (Some (em_hmac m))
    \<and> (\<forall>h. to_ascii_lowercase h = em_hmac m \<longrightarrow>
          decrypt_message_by_version P (Some 2) (em_content m) (em_iv m) h key room = Inr s)"
proof -
  note p = primitives_okD(1) [OF ok]
  have iv: "length (take 16 e) = 16" using e by simp
  obtain m where m: "encrypt_message_v2_with_iv P s key room (take 16 e) = Inr m"
    using s by (simp add: encrypt_message_v2_with_iv_def Let_def)
  have t: "length (hmac P (derive_subkey P key MSG_MAC_LABEL)
            (bytes_of (message_mac_input room (em_iv m) (em_content m)))) = 32" using p by (rule length_hmac)
  have "is_lower_hex (em_iv m) 32" "is_lower_hex (em_hmac m) 64"
    using lower_hexes [OF iv] lower_hexes [OF t] encrypt_message_fields [OF m] by (simp_all add: mac_hex_def)
  moreover have "decrypt_message_by_version P (Some 2) (em_content m) (em_iv m) h key room = Inr s"
    if "to_ascii_lowercase h = em_hmac m" for h
    using message_opens [OF ok iv utf m] verify_mac_hex [OF p, of h] that encrypt_message_fields(2) [OF m]
    by (simp add: decrypt_message_by_version_def effective_enc_ver_def)
  ultimately show ?thesis
    using m e by (simp add: encrypt_message_v2_def draw_enough message_iv_def message_hmac_def)
qed

theorem message_roundtrip_witness:
  "\<exists>m. encrypt_message_v2 toy_primitives (replicate 16 0) ''hi'' (replicate 32 7) ''room'' = Inr m
    \<and> message_iv (Some (em_iv m)) = Inr (Some (em_iv m))
    \<and> message_hmac (Some (em_hmac m)) = Inr (Some (em_hmac m))
    \<and> (\<forall>h. to_ascii_lowercase h = em_hmac m \<longrightarrow>
          decrypt_message_by_version toy_primitives (Some 2) (em_content m) (em_iv m) h (replicate 32 7) ''room''
          = Inr ''hi'')"
proof -
  have "trim ''hi'' = ''hi''" by (rule trim_graphic) (simp add: is_graphic_def)
  then show ?thesis using message_roundtrip [OF toy_primitives_ok _ hi_utf8, of "replicate 16 0"] by simp
qed

lemma parse_public_key:
  assumes "curve_ok P"
  shows "parse_uncompressed_public_key P (uncompressed_public_key_hex P q) = Inr q"
proof -
  obtain rest where r: "length rest = 64" "sec1_bytes P q = 4 # rest" "from_sec1 P (sec1_bytes P q) = Some q"
    using assms unfolding curve_ok_def by blast
  have "hex_decode (uncompressed_public_key_hex P q) = Some (4 # rest)"
    unfolding uncompressed_public_key_hex_def r(2) by (rule hexc.dec_enc)
  moreover have "length (uncompressed_public_key_hex P q) = 130"
    unfolding uncompressed_public_key_hex_def hexc.enc_length using r by simp
  ultimately show ?thesis using r by (simp add: parse_uncompressed_public_key_def ok_or_def)
qed

lemma hexdigits_of_key: "list_all is_ascii_hexdigit (hex_encode b)"
  using hexc.enc_lower [of _ b] by (auto simp: list_all_iff char_class_codes)

lemma parse_room_key: "length key = 32 \<Longrightarrow> parse_room_key_hex (bytes_of (hex_encode key)) = Inr key"
  by (simp add: parse_room_key_hex_def text_of_bytes hexdigits_of_key hexc.enc_length hexc.dec_enc ok_or_def)

lemma unwraps:
  assumes ok: "primitives_ok P" and key: "length key = 32" and iv: "length iv = 16"
  shows "unwrap_room_key_v2 P (wrap_room_key_v2_with P key (public_of P r) room eph iv) r room = Inr key"
proof -
  note p = primitives_okD [OF ok]
  have dh: "diffie_hellman P r (public_of P eph) = diffie_hellman P eph (public_of P r)"
    using p(4) by (simp add: curve_ok_def)
  have b: "base64_decode P (base64_encode P b) = Some b" for b using p(3) by (simp add: base64_ok_def)
  show ?thesis
    using aes_cbc_roundtrip [OF p(2) length_derive_subkey [OF p(1)] iv]
    by (simp add: unwrap_room_key_v2_def wrap_room_key_v2_with_def Let_def parse_public_key [OF p(4)] dh
        verify_mac_iff [OF p(1)] mac_hex_def hexc.dec_enc open_wrap_def decode_iv_encode iv ok_or_def b
        parse_room_key key)
qed

lemma wraps_and_unwraps:
  assumes ok: "primitives_ok P" and key: "length key = 32"
    and w: "wrap_room_key_v2 P e key (public_of P r) room = Inr (w, e'')"
  shows "unwrap_room_key_v2 P w r room = Inr key"
proof -
  obtain eph e' where f: "fresh_secret_key P e = Inr (eph, e')"
    using w by (cases "fresh_secret_key P e") (auto simp: wrap_room_key_v2_def)
  then have d: "16 \<le> length e'" "w = wrap_room_key_v2_with P key (public_of P r) room eph (take 16 e')"
    using w by (auto simp: wrap_room_key_v2_def draw_def split: if_splits)
  then show ?thesis using unwraps [OF ok key, of "take 16 e'" r room eph] by simp
qed

section \<open>Signatures\<close>

lemma strip_0x: "strip_0x_any (''0x'' @ s) = Some s"
  by (simp add: strip_0x_any_def strip_prefix_def starts_with_def)

lemma parse_own_signature:
  assumes "length r = 64" "v < 2" "canonical_signature P r"
  shows "parse_signature P (''0x'' @ hex_encode (r @ [word_of_nat v + 27])) = Inr (r, v)"
proof -
  have l: "length (hex_encode (r @ [word_of_nat v + 27])) = 130" unfolding hexc.enc_length using assms by simp
  have "v = 0 \<or> v = 1" using assms(2) by auto
  then show ?thesis
    using assms(1,3) l unfolding parse_signature_def strip_0x
    by (auto simp: ok_or_def hexc.dec_enc nth_append)
qed

lemma personal_sign_recovers:
  assumes ok: "ecdsa_ok P" and s: "personal_sign P w m = Inr sig"
  shows "recover_address P m sig = Inr (wallet_of P w)"
proof -
  obtain r v where rv: "sign_prehash P w (eip191_digest P m) = Some (r, v)" "sig = ''0x'' @ hex_encode (r @ [word_of_nat v + 27])"
    using s by (cases "sign_prehash P w (eip191_digest P m)") (auto simp: personal_sign_def ok_or_def)
  then have o: "length r = 64" "v < 2" "canonical_signature P r"
      "recover_prehash P (eip191_digest P m) r v = Some (public_of P w)" using ok unfolding ecdsa_ok_def by blast+
  show ?thesis unfolding recover_address_def recover_public_key_def rv(2) parse_own_signature [OF o(1-3)]
    by (simp add: o(4) ok_or_def wallet_of_def)
qed

end
