(* ===== verification/Session_Keys.thy ===== *)
theory Session_Keys
  imports Crypto_Spec Room_Stream
begin

text \<open>The keys of a signed-in client: src/app/web/src/crypto.rs, and of src/app/web/src/actions.rs the sign-in
of a local wallet, the send of a message and the choice of its key.  The state of a session is explicit; the
server's answers are arguments.  A handle on the client's store is the snapshot it was taken from: an action
dispatched by a task is in a list of actions and not in the snapshot the task reads.\<close>

section \<open>The session\<close>

datatype 'sk signer = Local_wallet 'sk | External_wallet wallet_address | Tss_wallet wallet_address

record 'sk session_keys =
  sk_signer :: "'sk signer"
  sk_encryption :: "'sk encryption_keypair"
  sk_binding :: string
  sk_legacy :: "'sk encryption_keypair option"

definition derive_session ::
  "('sk, 'pk) primitives \<Rightarrow> 'sk \<Rightarrow> string \<Rightarrow> crypto_error + 'sk session_keys" where
  "derive_session P wallet salt =
     try_bind (derive_encryption_keys_v2 P wallet salt) (\<lambda>encryption.
     try_bind (sign_key_binding P wallet (ek_public encryption)) (\<lambda>binding.
       Inr \<lparr>sk_signer = Local_wallet wallet, sk_encryption = encryption, sk_binding = binding, sk_legacy = None\<rparr>))"

definition session_from_external ::
  "('sk, 'pk) primitives \<Rightarrow> wallet_address \<Rightarrow> string \<Rightarrow> string \<Rightarrow> crypto_error + 'sk session_keys" where
  "session_from_external P address derivation_sig binding =
     try_bind (derive_encryption_keys_from_signature P derivation_sig) (\<lambda>encryption.
       Inr \<lparr>sk_signer = External_wallet address, sk_encryption = encryption, sk_binding = binding, sk_legacy = None\<rparr>)"

definition session_from_tss ::
  "('sk, 'pk) primitives \<Rightarrow> wallet_address \<Rightarrow> string \<Rightarrow> string \<Rightarrow> crypto_error + 'sk session_keys" where
  "session_from_tss P address enc_priv_hex binding =
     try_bind (from_private_key_hex P enc_priv_hex) (\<lambda>encryption.
       Inr \<lparr>sk_signer = Tss_wallet address, sk_encryption = encryption, sk_binding = binding, sk_legacy = None\<rparr>)"

definition can_sign_locally :: "'sk session_keys \<Rightarrow> bool" where
  "can_sign_locally s = (case sk_signer s of Local_wallet _ \<Rightarrow> True | _ \<Rightarrow> False)"

definition can_sign :: "'sk session_keys \<Rightarrow> bool" where
  "can_sign s = (case sk_signer s of Local_wallet _ \<Rightarrow> True | Tss_wallet _ \<Rightarrow> True | External_wallet _ \<Rightarrow> False)"

definition tss_address :: "'sk session_keys \<Rightarrow> wallet_address option" where
  "tss_address s = (case sk_signer s of Tss_wallet a \<Rightarrow> Some a | _ \<Rightarrow> None)"

definition session_address :: "('sk, 'pk) primitives \<Rightarrow> 'sk session_keys \<Rightarrow> wallet_address" where
  "session_address P s =
     (case sk_signer s of Local_wallet w \<Rightarrow> wallet_of P w | External_wallet a \<Rightarrow> a | Tss_wallet a \<Rightarrow> a)"

definition session_vault_key :: "('sk, 'pk) primitives \<Rightarrow> 'sk session_keys \<Rightarrow> vault_key" where
  "session_vault_key P s = derive_vault P (scalar_bytes P (ek_secret (sk_encryption s)))"

definition local_store_key :: "('sk, 'pk) primitives \<Rightarrow> 'sk session_keys \<Rightarrow> byte list" where
  "local_store_key P s =
     derive_subkey P (scalar_bytes P (ek_secret (sk_encryption s))) ''pocketskynet-local-store-v1''"

definition legacy_keys ::
  "('sk, 'pk) primitives \<Rightarrow> 'sk session_keys \<Rightarrow> (crypto_error + 'sk encryption_keypair) \<times> 'sk session_keys" where
  "legacy_keys P s =
     (case sk_signer s of
        Local_wallet w \<Rightarrow>
          (case sk_legacy s of
             Some k \<Rightarrow> (Inr k, s)
           | None \<Rightarrow>
               (case derive_legacy_encryption_keys P w of
                  Inl e \<Rightarrow> (Inl e, s)
                | Inr k \<Rightarrow> (Inr k, s\<lparr>sk_legacy := Some k\<rparr>)))
      | _ \<Rightarrow> (Inl No_local_key, s))"

section \<open>The epochs of a room\<close>

record room_key_bundle =
  rb_epochs :: "(int \<times> byte list) list"
  rb_failed :: "int list"

definition empty_bundle :: room_key_bundle where
  "empty_bundle = \<lparr>rb_epochs = [], rb_failed = []\<rparr>"

definition latest_epoch :: "room_key_bundle \<Rightarrow> (int \<times> byte list) option" where
  "latest_epoch b = (if rb_epochs b = [] then None else Some (last (rb_epochs b)))"

definition bundle_get :: "int \<Rightarrow> room_key_bundle \<Rightarrow> byte list option" where
  "bundle_get version b = map_of (rb_epochs b) version"

definition coverage :: "room_key_bundle \<Rightarrow> nat \<times> int option" where
  "coverage b = (length (rb_epochs b), map_option fst (latest_epoch b))"

definition bundle_insert :: "int \<Rightarrow> byte list \<Rightarrow> room_key_bundle \<Rightarrow> room_key_bundle" where
  "bundle_insert version key b =
     b\<lparr>rb_epochs := bt_insert version key (rb_epochs b), rb_failed := filter (\<lambda>v. v \<noteq> version) (rb_failed b)\<rparr>"

text \<open>A row of a wrap as the client received it; the version of a negative or absent encVer is 1, and a cast
to 32 bits keeps the low bits.\<close>

definition wire_wrap :: "key_row \<Rightarrow> wrapped_room_key" where
  "wire_wrap w = \<lparr>wk_key = kw_key (rk_wrap w), wk_ephemeral = kw_ephemeral (rk_wrap w),
                  wk_iv = kw_iv (rk_wrap w), wk_hmac = kw_hmac (rk_wrap w)\<rparr>"

definition cast_enc_ver :: "int \<Rightarrow> nat" where
  "cast_enc_ver v = nat (max v 1) mod 2 ^ 32"

definition unwrap_one ::
  "('sk, 'pk) primitives \<Rightarrow> string \<Rightarrow> key_row \<Rightarrow> 'sk session_keys \<times> room_key_bundle \<times> int list
   \<Rightarrow> 'sk session_keys \<times> room_key_bundle \<times> int list" where
  "unwrap_one P room w = (\<lambda>(s, bundle, healed).
     let wire = wire_wrap w; v = Some (cast_enc_ver (kw_enc_ver (rk_wrap w))) in
     (case unwrap_room_key_by_version P v wire (ek_secret (sk_encryption s)) room of
        Inr key \<Rightarrow> (s, bundle_insert (rk_version w) key bundle, healed)
      | Inl _ \<Rightarrow>
          (case legacy_keys P s of
             (Inr legacy, s') \<Rightarrow>
               (case unwrap_room_key_by_version P v wire (ek_secret legacy) room of
                  Inr key \<Rightarrow> (s', bundle_insert (rk_version w) key bundle, healed @ [rk_version w])
                | Inl _ \<Rightarrow> (s', bundle\<lparr>rb_failed := rb_failed bundle @ [rk_version w]\<rparr>, healed))
           | (Inl _, s') \<Rightarrow> (s', bundle\<lparr>rb_failed := rb_failed bundle @ [rk_version w]\<rparr>, healed))))"

definition unwrap_bundle ::
  "('sk, 'pk) primitives \<Rightarrow> 'sk session_keys \<Rightarrow> string \<Rightarrow> key_row list
   \<Rightarrow> 'sk session_keys \<times> room_key_bundle \<times> int list" where
  "unwrap_bundle P s room wraps = fold (unwrap_one P room) wraps (s, empty_bundle, [])"

section \<open>Messages\<close>

datatype decrypted =
  Plaintext string
| Opened string
| No_key_for_epoch int
| Missing_metadata
| Failed_to_open

definition message_enc_ver :: "chat_message \<Rightarrow> int" where
  "message_enc_ver m = (case cm_enc_ver m of None \<Rightarrow> 1 | Some v \<Rightarrow> v)"

definition decrypt_message ::
  "('sk, 'pk) primitives \<Rightarrow> room_key_bundle \<Rightarrow> string \<Rightarrow> chat_message \<Rightarrow> decrypted" where
  "decrypt_message P bundle room m =
     (if \<not> cm_encrypted m then Plaintext (cm_content m)
      else if \<not> has_crypto_metadata m then Missing_metadata
      else case bundle_get (key_version m) bundle of
        None \<Rightarrow> No_key_for_epoch (key_version m)
      | Some key \<Rightarrow>
          (case (cm_iv m, cm_hmac m) of
             (Some iv, Some mac) \<Rightarrow>
               (case decrypt_message_by_version P (Some (cast_enc_ver (message_enc_ver m)))
                       (cm_content m) iv mac key room of
                  Inr s \<Rightarrow> Opened s | Inl _ \<Rightarrow> Failed_to_open)
           | _ \<Rightarrow> Missing_metadata))"

record client_body =
  cb_content :: string
  cb_hash :: string
  cb_encrypted :: bool
  cb_iv :: "string option"
  cb_hmac :: "string option"
  cb_enc_ver :: int
  cb_key_version :: int

definition plaintext_body :: "('sk, 'pk) primitives \<Rightarrow> string \<Rightarrow> client_body" where
  "plaintext_body P content =
     (let trimmed = trim content
      in \<lparr>cb_content = trimmed, cb_hash = msg_hash_plaintext P trimmed, cb_encrypted = False,
          cb_iv = None, cb_hmac = None, cb_enc_ver = 1, cb_key_version = 1\<rparr>)"

definition encrypted_body ::
  "('sk, 'pk) primitives \<Rightarrow> entropy \<Rightarrow> byte list \<Rightarrow> int \<Rightarrow> string \<Rightarrow> string \<Rightarrow> crypto_error + client_body" where
  "encrypted_body P e room_key epoch room plaintext =
     try_bind (encrypt_message_v2 P e (trim plaintext) room_key room) (\<lambda>enc.
       Inr \<lparr>cb_content = em_content enc, cb_hash = msg_hash_encrypted P (em_content enc), cb_encrypted = True,
            cb_iv = Some (em_iv enc), cb_hmac = Some (em_hmac enc), cb_enc_ver = 2, cb_key_version = epoch\<rparr>)"

section \<open>Wrapping for others\<close>

record public_key_entry =
  pe_address :: wallet_address
  pe_public_key :: string
  pe_sig :: "string option"

datatype refusal_reason = No_published_key | Unverifiable | Binding_mismatch | Wrap_failed

definition refusal_message :: "refusal_reason \<Rightarrow> string" where
  "refusal_message r =
     (case r of
        No_published_key \<Rightarrow> ''hasn'' @ [CHR 0x27] @ ''t signed in yet, so has no encryption key''
      | Unverifiable \<Rightarrow> ''has an unsigned encryption key''
      | Binding_mismatch \<Rightarrow> ''has a key that doesn'' @ [CHR 0x27] @ ''t match their wallet''
      | Wrap_failed \<Rightarrow> ''could not be sent a key'')"

text \<open>A wrap on its way out: the columns of the server's row and the epoch, where the request names one.
A draw that was refused leaves no entropy for those that follow.\<close>

type_synonym outgoing_wrap = "key_wrap \<times> int option"

definition outgoing :: "wallet_address \<Rightarrow> wrapped_room_key \<Rightarrow> int option \<Rightarrow> outgoing_wrap" where
  "outgoing a w version =
     (\<lparr>kw_user = as_str a, kw_key = wk_key w, kw_ephemeral = wk_ephemeral w, kw_iv = wk_iv w,
       kw_hmac = wk_hmac w, kw_enc_ver = 2\<rparr>, version)"

definition find_entry :: "wallet_address \<Rightarrow> public_key_entry list \<Rightarrow> public_key_entry option" where
  "find_entry a entries = find (\<lambda>e. pe_address e = a) entries"

fun wrap_room_key_for ::
  "('sk, 'pk) primitives \<Rightarrow> entropy \<Rightarrow> byte list \<Rightarrow> string \<Rightarrow> wallet_address list \<Rightarrow> public_key_entry list
   \<Rightarrow> int option \<Rightarrow> outgoing_wrap list \<times> (wallet_address \<times> refusal_reason) list" where
  "wrap_room_key_for P e key room [] entries version = ([], [])"
| "wrap_room_key_for P e key room (a # as) entries version =
     (let refuse = (\<lambda>reason e'. let (wraps, refusals) = wrap_room_key_for P e' key room as entries version
                                in (wraps, (a, reason) # refusals)) in
      case find_entry a entries of
        None \<Rightarrow> refuse No_published_key e
      | Some entry \<Rightarrow>
          if trim (case pe_sig entry of None \<Rightarrow> [] | Some sig \<Rightarrow> sig) = [] then refuse Unverifiable e
          else case verify_key_binding P a (Some (pe_public_key entry)) (pe_sig entry) of
            Inl _ \<Rightarrow> refuse Binding_mismatch e
          | Inr public \<Rightarrow>
              (case wrap_room_key_v2 P e key public room of
                 Inl _ \<Rightarrow> refuse Wrap_failed []
               | Inr (w, e') \<Rightarrow>
                   let (wraps, refusals) = wrap_room_key_for P e' key room as entries version
                   in (outgoing a w version # wraps, refusals)))"

definition wrap_room_key_for_self ::
  "('sk, 'pk) primitives \<Rightarrow> entropy \<Rightarrow> byte list \<Rightarrow> string \<Rightarrow> 'sk session_keys \<Rightarrow> int \<Rightarrow> crypto_error + outgoing_wrap" where
  "wrap_room_key_for_self P e key room s version =
     try_bind (wrap_room_key_v2 P e key (public_of P (ek_secret (sk_encryption s))) room) (\<lambda>(w, _).
       Inr (outgoing (session_address P s) w (Some version)))"

text \<open>The part of rotate_key before its request: a new key, a wrap for every address of the roster, and no
request at all when one of them was refused.\<close>

definition rotation_request ::
  "('sk, 'pk) primitives \<Rightarrow> entropy \<Rightarrow> string \<Rightarrow> wallet_address list \<Rightarrow> public_key_entry list \<Rightarrow> int
   \<Rightarrow> (wallet_address \<times> refusal_reason) list + (int \<times> key_wrap list)" where
  "rotation_request P e room people entries current =
     (case draw 32 e of
        Inl _ \<Rightarrow> Inl []
      | Inr (key, e') \<Rightarrow>
          (let (wraps, refusals) = wrap_room_key_for P e' key room people entries None
           in if people = [] \<or> refusals \<noteq> [] then Inl refusals else Inr (current + 1, map fst wraps)))"

section \<open>Sending\<close>

text \<open>A snapshot of the store for one room: whether it has encryption, its epoch and the keys held.  An
answer of the server to a send is the message, a stale epoch with the current one, or another failure.\<close>

record room_snapshot =
  sn_encrypted :: bool
  sn_version :: "int option"
  sn_bundle :: "room_key_bundle option"

datatype send_answer = Sent | Stale_key "int option" | Send_refused

datatype send_failure = No_room_key_yet | No_current_key | Cannot_encrypt crypto_error | Server_refused

datatype action = Set_bundle room_key_bundle | Rooms_loaded | Send_succeeded | Send_failed send_failure

definition build_body ::
  "('sk, 'pk) primitives \<Rightarrow> entropy \<Rightarrow> room_snapshot \<Rightarrow> string \<Rightarrow> string \<Rightarrow> int \<Rightarrow> send_failure + client_body" where
  "build_body P e store room content version =
     (if \<not> sn_encrypted store then Inr (plaintext_body P content)
      else try_bind (ok_or No_room_key_yet (sn_bundle store)) (\<lambda>bundle.
           try_bind (ok_or No_current_key (bundle_get version bundle)) (\<lambda>key.
             map_sum Cannot_encrypt id (encrypted_body P e key version room content))))"

text \<open>The loop runs at most twice.  Between its two rounds refresh_keys unwraps the rows the server hands out
and dispatches the bundle, which the snapshot does not see; its healing request is left out.\<close>

definition refresh_keys :: "('sk, 'pk) primitives \<Rightarrow> 'sk session_keys \<Rightarrow> string \<Rightarrow> key_row list option \<Rightarrow> action list" where
  "refresh_keys P s room answer =
     (case answer of
        None \<Rightarrow> []
      | Some wraps \<Rightarrow> if wraps = [] then [] else [Set_bundle (fst (snd (unwrap_bundle P s room wraps)))])"

fun send_loop ::
  "('sk, 'pk) primitives \<Rightarrow> 'sk session_keys \<Rightarrow> entropy \<Rightarrow> room_snapshot \<Rightarrow> string \<Rightarrow> string
   \<Rightarrow> (client_body \<Rightarrow> send_answer) list \<Rightarrow> key_row list option \<Rightarrow> int \<Rightarrow> bool \<Rightarrow> action list \<times> bool" where
  "send_loop P s e store room content [] wraps version again = ([Send_failed Server_refused], False)"
| "send_loop P s e store room content (server # servers) wraps version again =
     (case build_body P e store room content version of
        Inl why \<Rightarrow> ([Send_failed why], False)
      | Inr body \<Rightarrow>
          (case server body of
             Sent \<Rightarrow> ([Send_succeeded], True)
           | Stale_key current \<Rightarrow>
               if again then ([Send_failed Server_refused], False)
               else let (actions, sent) =
                      send_loop P s (drop 16 e) store room content servers wraps
                        (case current of Some v \<Rightarrow> v | None \<Rightarrow> version + 1) True
                    in (refresh_keys P s room wraps @ Rooms_loaded # actions, sent)
           | Send_refused \<Rightarrow> ([Send_failed Server_refused], False)))"

definition send_message ::
  "('sk, 'pk) primitives \<Rightarrow> 'sk session_keys \<Rightarrow> entropy \<Rightarrow> room_snapshot \<Rightarrow> string \<Rightarrow> string
   \<Rightarrow> (client_body \<Rightarrow> send_answer) \<Rightarrow> (client_body \<Rightarrow> send_answer) \<Rightarrow> key_row list option \<Rightarrow> action list \<times> bool" where
  "send_message P s e store room content first second wraps =
     send_loop P s e store room content [first, second] wraps
       (case sn_version store of Some v \<Rightarrow> v | None \<Rightarrow> 1) False"

section \<open>Signing in\<close>

text \<open>What the server sees of a sign-in, in order, and what it answers: the text of the challenge with its id,
then the token with the salt.\<close>

datatype request =
  Ask_challenge wallet_address
| Login_with wallet_address string string string
| Ask_salt
| Publish_key string string

record auth_answers =
  an_challenge :: "(string \<times> string) option"
  an_login :: "(string \<times> string option) option"
  an_salt :: "string option"

datatype sign_in_error = Api_error | Cannot_sign crypto_error | Cannot_derive crypto_error

definition sign_in ::
  "('sk, 'pk) primitives \<Rightarrow> auth_answers \<Rightarrow> 'sk \<Rightarrow> string
   \<Rightarrow> request list \<times> (sign_in_error + (string \<times> 'sk session_keys))" where
  "sign_in P server wallet username =
     (let address = wallet_of P wallet; asked = [Ask_challenge address] in
      case an_challenge server of
        None \<Rightarrow> (asked, Inl Api_error)
      | Some (cid, message) \<Rightarrow>
          (case personal_sign P wallet message of
             Inl e \<Rightarrow> (asked, Inl (Cannot_sign e))
           | Inr signature \<Rightarrow>
               (let asked = asked @ [Login_with address username cid signature] in
                case an_login server of
                  None \<Rightarrow> (asked, Inl Api_error)
                | Some (token, offered) \<Rightarrow>
                    (let (asked, salt) =
                       (case offered of
                          Some v \<Rightarrow> if length v = 64 then (asked, Some v) else (asked @ [Ask_salt], an_salt server)
                        | None \<Rightarrow> (asked @ [Ask_salt], an_salt server)) in
                     case salt of
                       None \<Rightarrow> (asked, Inl Api_error)
                     | Some salt \<Rightarrow>
                         (case derive_session P wallet salt of
                            Inl e \<Rightarrow> (asked, Inl (Cannot_derive e))
                          | Inr s \<Rightarrow>
                              (asked @ [Publish_key (ek_public (sk_encryption s)) (sk_binding s)],
                               Inr (token, s)))))))"

end
