(* ===== verification/Session_Spec.thy ===== *)
theory Session_Spec
  imports Session_Keys
begin

section \<open>Bundles\<close>

lemma bundle_get_insert: "bundle_get v (bundle_insert w key b) = (if v = w then Some key else bundle_get v b)"
  by (simp add: bundle_get_def bundle_insert_def map_of_bt_insert)

lemma bundle_get_failed: "bundle_get v (b\<lparr>rb_failed := f\<rparr>) = bundle_get v b"
  by (simp add: bundle_get_def)

lemma legacy_keeps: "legacy_keys P s = (r, s') \<Longrightarrow> sk_encryption s' = sk_encryption s \<and> sk_signer s' = sk_signer s"
  by (auto simp: legacy_keys_def split: signer.splits option.splits sum.splits)

text \<open>What one row does to the keys held: nothing to the other epochs; and a row that opens is held.\<close>

lemma unwrap_one_keeps:
  "unwrap_one P room w (s, b, h) = (s', b', h') \<Longrightarrow>
     sk_encryption s' = sk_encryption s \<and> sk_signer s' = sk_signer s
     \<and> (v \<noteq> rk_version w \<longrightarrow> bundle_get v b' = bundle_get v b)"
  by (auto simp: unwrap_one_def Let_def bundle_get_insert bundle_get_failed
      split: sum.splits prod.splits dest!: legacy_keeps)

lemma unwrap_one_opens:
  assumes "unwrap_room_key_by_version P (Some (cast_enc_ver (kw_enc_ver (rk_wrap w)))) (wire_wrap w)
            (ek_secret (sk_encryption s)) room = Inr key"
  shows "unwrap_one P room w (s, b, h) = (s, bundle_insert (rk_version w) key b, h)"
  using assms by (simp add: unwrap_one_def Let_def)

definition row_opens :: "('sk, 'pk) primitives \<Rightarrow> 'sk \<Rightarrow> string \<Rightarrow> byte list \<Rightarrow> key_row \<Rightarrow> bool" where
  "row_opens P secret room key w \<longleftrightarrow>
     unwrap_room_key_by_version P (Some (cast_enc_ver (kw_enc_ver (rk_wrap w)))) (wire_wrap w) secret room = Inr key"

lemma unwrap_fold_holds:
  assumes "\<forall>w \<in> set rows. rk_version w = v \<longrightarrow> row_opens P (ek_secret (sk_encryption s)) room key w"
    and "bundle_get v b = Some key \<or> (\<exists>w \<in> set rows. rk_version w = v)"
  shows "bundle_get v (fst (snd (fold (unwrap_one P room) rows (s, b, h)))) = Some key"
  using assms
proof (induction rows arbitrary: s b h)
  case Nil
  then show ?case by simp
next
  case (Cons w rows)
  obtain s' b' h' where u: "unwrap_one P room w (s, b, h) = (s', b', h')" by (metis prod_cases3)
  note k = unwrap_one_keeps [OF u, of v]
  have "bundle_get v b' = Some key \<or> (\<exists>w \<in> set rows. rk_version w = v)"
  proof (cases "rk_version w = v")
    case True
    then have "row_opens P (ek_secret (sk_encryption s)) room key w" using Cons.prems(1) by simp
    then have "b' = bundle_insert v key b" using unwrap_one_opens [of P w s room key b h] u True
      by (simp add: row_opens_def)
    then show ?thesis by (simp add: bundle_get_insert)
  next
    case False
    then show ?thesis using Cons.prems(2) k by auto
  qed
  then have "bundle_get v (fst (snd (fold (unwrap_one P room) rows (s', b', h')))) = Some key"
    using Cons.IH [of s' b' h'] Cons.prems(1) k by simp
  then show ?case by (simp add: u)
qed

lemma unwrap_bundle_holds:
  assumes "\<forall>w \<in> set rows. rk_version w = v \<longrightarrow> row_opens P (ek_secret (sk_encryption s)) room key w"
    and "\<exists>w \<in> set rows. rk_version w = v"
  shows "bundle_get v (fst (snd (unwrap_bundle P s room rows))) = Some key"
  using unwrap_fold_holds [OF assms(1), of empty_bundle "[]"] assms(2) by (simp add: unwrap_bundle_def)

section \<open>Wraps for the roster\<close>

lemma wrap_for_wraps:
  "wrap_room_key_for P e key room as entries version = (wraps, refusals) \<Longrightarrow> x \<in> set wraps \<Longrightarrow>
     \<exists>a en q w e1 e2. a \<in> set as \<and> find_entry a entries = Some en
       \<and> verify_key_binding P a (Some (pe_public_key en)) (pe_sig en) = Inr q
       \<and> wrap_room_key_v2 P e1 key q room = Inr (w, e2) \<and> x = outgoing a w version"
proof (induction as arbitrary: e wraps refusals)
  case Nil
  then show ?case by simp
next
  case (Cons a as)
  have step: "\<And>e' wr rf. wrap_room_key_for P e' key room as entries version = (wr, rf) \<Longrightarrow> x \<in> set wr \<Longrightarrow> ?case"
    using Cons.IH by fastforce
  show ?case
  proof (cases "find_entry a entries")
    case None
    then show ?thesis using Cons.prems step by (auto split: prod.splits)
  next
    case (Some en)
    show ?thesis
    proof (cases "verify_key_binding P a (Some (pe_public_key en)) (pe_sig en)")
      case (Inl er)
      then show ?thesis using Cons.prems step Some by (auto simp: Let_def split: prod.splits if_splits)
    next
      case (Inr q)
      show ?thesis
      proof (cases "wrap_room_key_v2 P e key q room")
        case (Inl er)
        then show ?thesis using Cons.prems step Some Inr by (auto simp: Let_def split: prod.splits if_splits)
      next
        case w: (Inr p)
        obtain w e' where p: "p = (w, e')" by (cases p)
        have "x = outgoing a w version \<or> (\<exists>e' wr rf. wrap_room_key_for P e' key room as entries version = (wr, rf) \<and> x \<in> set wr)"
          using Cons.prems Some Inr w p by (simp add: Let_def split: prod.splits if_splits) fastforce+
        then show ?thesis
        proof
          assume "x = outgoing a w version"
          then show ?thesis using Some Inr w p by (metis list.set_intros(1))
        qed (use step in blast)
      qed
    qed
  qed
qed

lemma wrap_for_covers:
  "wrap_room_key_for P e key room as entries version = (wraps, []) \<Longrightarrow>
     map (kw_user \<circ> fst) wraps = map as_str as"
  by (induction as arbitrary: e wraps)
     (auto simp: Let_def outgoing_def split: prod.splits if_splits option.splits sum.splits)

section \<open>The rows of a rotation\<close>

lemma store_key_set:
  assumes "store_key room w v now d = Inr d'"
  shows "k \<in> set (sv_keys d') \<longleftrightarrow>
     k = \<lparr>rk_room = room, rk_wrap = w, rk_version = v, rk_created_at = now\<rparr>
     \<or> (k \<in> set (sv_keys d) \<and> \<not> (rk_room k = room \<and> rk_user k = kw_user w \<and> rk_version k = v))"
proof (cases "\<exists>k \<in> set (sv_keys d). rk_room k = room \<and> rk_user k = kw_user w \<and> rk_version k = v")
  case True
  then have "sv_keys d' = map (\<lambda>k. if rk_room k = room \<and> rk_user k = kw_user w \<and> rk_version k = v
      then \<lparr>rk_room = room, rk_wrap = w, rk_version = v, rk_created_at = now\<rparr> else k) (sv_keys d)"
    using assms by (auto simp: store_key_def Let_def)
  then show ?thesis using True by (simp add: image_iff) (metis (no_types, lifting))
next
  case False
  then have "sv_keys d' = sv_keys d @ [\<lparr>rk_room = room, rk_wrap = w, rk_version = v, rk_created_at = now\<rparr>]"
    using assms by (auto simp: store_key_def Let_def split: if_splits)
  then show ?thesis using False by auto
qed

lemma store_key_rows:
  assumes "store_key room w v now d = Inr d'"
  shows "k \<in> set (sv_keys d') \<Longrightarrow> rk_room k = room \<Longrightarrow> rk_version k = v \<Longrightarrow>
           (rk_user k = kw_user w \<and> rk_wrap k = w) \<or> (rk_user k \<noteq> kw_user w \<and> k \<in> set (sv_keys d))"
    and "\<exists>k \<in> set (sv_keys d'). rk_room k = room \<and> rk_version k = v \<and> rk_user k = kw_user w"
    and "\<exists>k \<in> set (sv_keys d). rk_room k = room \<and> rk_version k = v \<and> rk_user k = u \<Longrightarrow>
         \<exists>k \<in> set (sv_keys d'). rk_room k = room \<and> rk_version k = v \<and> rk_user k = u"
proof -
  let ?row = "\<lparr>rk_room = room, rk_wrap = w, rk_version = v, rk_created_at = now\<rparr>"
  have row: "?row \<in> set (sv_keys d')" "rk_user ?row = kw_user w" "rk_wrap ?row = w"
    by (simp_all add: store_key_set [OF assms] rk_user_def)
  show "(rk_user k = kw_user w \<and> rk_wrap k = w) \<or> (rk_user k \<noteq> kw_user w \<and> k \<in> set (sv_keys d))"
    if "k \<in> set (sv_keys d')" "rk_room k = room" "rk_version k = v"
    using that row(2,3) unfolding store_key_set [OF assms] by metis
  show new: "\<exists>k \<in> set (sv_keys d'). rk_room k = room \<and> rk_version k = v \<and> rk_user k = kw_user w"
    using row by (intro bexI [of _ ?row]) simp_all
  show "\<exists>k \<in> set (sv_keys d'). rk_room k = room \<and> rk_version k = v \<and> rk_user k = u"
    if "\<exists>k \<in> set (sv_keys d). rk_room k = room \<and> rk_version k = v \<and> rk_user k = u"
  proof (cases "u = kw_user w")
    case True
    then show ?thesis using new by simp
  next
    case False
    then show ?thesis using that store_key_set [OF assms] by metis
  qed
qed

lemma store_keys_rows:
  assumes "store_keys room ws v now d = Inr d'"
  shows "k \<in> set (sv_keys d') \<Longrightarrow> rk_room k = room \<Longrightarrow> rk_version k = v \<Longrightarrow>
           rk_wrap k \<in> set ws \<or> (rk_user k \<notin> kw_user ` set ws \<and> k \<in> set (sv_keys d))"
    and "u \<in> kw_user ` set ws \<or> (\<exists>k \<in> set (sv_keys d). rk_room k = room \<and> rk_version k = v \<and> rk_user k = u) \<Longrightarrow>
         \<exists>k \<in> set (sv_keys d'). rk_room k = room \<and> rk_version k = v \<and> rk_user k = u"
  using assms
proof (induction ws arbitrary: d)
  case (Cons w ws)
  {
    case 1
    obtain d1 where d1: "store_key room w v now d = Inr d1" "store_keys room ws v now d1 = Inr d'"
      using 1(4) by (cases "store_key room w v now d") auto
    have "rk_wrap k \<in> set ws \<or> (rk_user k \<notin> kw_user ` set ws \<and> k \<in> set (sv_keys d1))"
      using Cons.IH(1) [OF 1(1-3) d1(2)] .
    then show ?case using store_key_rows(1) [OF d1(1) _ 1(2,3)] by auto
  next
    case 2
    obtain d1 where d1: "store_key room w v now d = Inr d1" "store_keys room ws v now d1 = Inr d'"
      using 2(2) by (cases "store_key room w v now d") auto
    have "u \<in> kw_user ` set ws \<or> (\<exists>k \<in> set (sv_keys d1). rk_room k = room \<and> rk_version k = v \<and> rk_user k = u)"
      using 2(1) store_key_rows(2,3) [OF d1(1)] by auto
    then show ?case by (rule Cons.IH(2) [OF _ d1(2)])
  }
qed auto

lemma rotate_commit_rows:
  assumes "rotate_commit room v ws now d = Inr ((), d')"
  obtains d1 where "store_keys room ws v now d = Inr d1" "sv_keys d' = sv_keys d1"
proof -
  from assms obtain r where r: "get_room room d = Some r" "v = rm_key_version r + 1"
    by (auto simp: rotate_commit_def rotate_def on_db_def split: option.splits if_splits)
  then obtain d1 where "store_keys room ws v now d = Inr d1" "sv_keys d' = sv_keys d1"
    using assms by (cases "store_keys room ws v now d")
      (auto simp: rotate_commit_def rotate_def on_db_def update_room_def)
  then show ?thesis by (rule that)
qed

lemma all_keys_of: "k \<in> set (all_keys room u d) \<longleftrightarrow> k \<in> set (sv_keys d) \<and> rk_room k = room \<and> rk_user k = u"
  by (auto simp: all_keys_def)

text \<open>A message that carries a body, as any reader receives it.\<close>

definition carries :: "client_body \<Rightarrow> chat_message \<Rightarrow> bool" where
  "carries body m \<longleftrightarrow>
     cm_content m = cb_content body \<and> cm_encrypted m = cb_encrypted body \<and> cm_iv m = cb_iv body
     \<and> cm_hmac m = cb_hmac body \<and> cm_enc_ver m = Some (cb_enc_ver body) \<and> cm_key_version m = Some (cb_key_version body)"

lemma reader_opens:
  assumes ok: "primitives_ok P" and body: "encrypted_body P e key v room s = Inr body"
    and utf: "valid_utf8 (trim s)" and held: "bundle_get v b = Some key" and m: "carries body m"
  shows "decrypt_message P b room m = Opened (trim s)"
proof -
  obtain enc where enc: "encrypt_message_v2 P e (trim s) key room = Inr enc"
      and b: "cb_content body = em_content enc" "cb_encrypted body" "cb_iv body = Some (em_iv enc)"
        "cb_hmac body = Some (em_hmac enc)" "cb_enc_ver body = 2" "cb_key_version body = v"
    using body by (cases "encrypt_message_v2 P e (trim s) key room") (auto simp: encrypted_body_def)
  then have iv: "16 \<le> length e" and e: "encrypt_message_v2_with_iv P (trim s) key room (take 16 e) = Inr enc"
    by (auto simp: encrypt_message_v2_def draw_def split: if_splits)
  have l: "length (take 16 e) = 16" using iv by simp
  note f = encrypt_message_fields [OF e]
  have "length (em_iv enc) = 32" "length (em_hmac enc) = 64"
    using f l length_hmac [OF primitives_okD(1) [OF ok]] by (simp_all add: mac_hex_def hexc.enc_length)
  then have ne: "em_iv enc \<noteq> []" "em_hmac enc \<noteq> []" by auto
  have "verify_mac P (derive_subkey P key MSG_MAC_LABEL) (message_mac_input room (em_iv enc) (em_content enc)) (em_hmac enc)"
    unfolding f(2) by (simp add: verify_mac_iff [OF primitives_okD(1) [OF ok]] mac_hex_def hexc.dec_enc)
  then have "decrypt_message_v2 P (em_content enc) (em_iv enc) (em_hmac enc) key room = Inr (trim s)"
    using message_opens [OF ok l utf e] by simp
  then show ?thesis using m held ne
    by (simp add: decrypt_message_def carries_def b has_crypto_metadata_def key_version_def message_enc_ver_def
        cast_enc_ver_def decrypt_message_by_version_def effective_enc_ver_def)
qed

text \<open>C6.  A rotation reaches everyone.  When a client's rotation finds every published key of the roster
bound to its wallet and the server takes it, then every member of that roster whose published key is its
own unwraps, from the rows the server hands out, one and the same fresh key for the new epoch, whatever
other rows of other epochs come with them; and whatever anyone then seals under that epoch, each of
them reads.\<close>

theorem rotation_reaches_everyone:
  assumes ok: "primitives_ok P"
    and request: "rotation_request P e room people entries current = Inr (v, wraps)"
    and taken: "rotate_route caller room v wraps now d = Inr ((), d')"
    and a: "a \<in> set people" "find_entry a entries = Some en"
    and own: "verify_key_binding P a (Some (pe_public_key en)) (pe_sig en)
              = Inr (public_of P (ek_secret (sk_encryption s)))"
  shows "\<exists>b. b = fst (snd (unwrap_bundle P s room (all_keys room (as_str a) d')))
    \<and> bundle_get v b = Some (take 32 e)
    \<and> (\<forall>e' t body m. encrypted_body P e' (take 32 e) v room t = Inr body \<longrightarrow> valid_utf8 (trim t)
         \<longrightarrow> carries body m \<longrightarrow> decrypt_message P b room m = Opened (trim t))"
proof -
  from request obtain ws where ws: "wrap_room_key_for P (drop 32 e) (take 32 e) room people entries None = (ws, [])"
      "wraps = map fst ws" and len: "32 \<le> length e"
    by (auto simp: rotation_request_def draw_def Let_def split: sum.splits prod.splits if_splits)
  have commit: "rotate_commit room v wraps now d = Inr ((), d')"
    using taken by (cases "rotate_check caller room v wraps d") (auto simp: rotate_route_def)
  then obtain d1 where d1: "store_keys room wraps v now d = Inr d1" "sv_keys d' = sv_keys d1"
    by (rule rotate_commit_rows)
  have users: "kw_user ` set wraps = as_str ` set people"
    using arg_cong [OF wrap_for_covers [OF ws(1)], of set] unfolding ws(2) by (simp add: image_comp)
  let ?rows = "all_keys room (as_str a) d'"
  have "\<exists>w \<in> set ?rows. rk_version w = v"
    using store_keys_rows(2) [OF d1(1), of "as_str a"] users a(1) by (auto simp: all_keys_of d1(2))
  moreover have "\<forall>w \<in> set ?rows. rk_version w = v \<longrightarrow>
      row_opens P (ek_secret (sk_encryption s)) room (take 32 e) w"
  proof (intro ballI impI)
    fix k assume k: "k \<in> set ?rows" "rk_version k = v"
    then have k': "k \<in> set (sv_keys d1)" "rk_room k = room" "rk_user k = as_str a"
      by (simp_all add: all_keys_of d1(2))
    have "rk_wrap k \<in> set wraps" using store_keys_rows(1) [OF d1(1) k'(1,2) k(2)] k'(3) users a(1) by auto
    then obtain x where x: "x \<in> set ws" "rk_wrap k = fst x" unfolding ws(2) by auto
    from wrap_for_wraps [OF ws(1) x(1)] obtain a' en' q w e1 e2 where w: "find_entry a' entries = Some en'"
        "verify_key_binding P a' (Some (pe_public_key en')) (pe_sig en') = Inr q"
        "wrap_room_key_v2 P e1 (take 32 e) q room = Inr (w, e2)" "x = outgoing a' w None" by blast
    have "as_str a' = as_str a" using w(4) x(2) k'(3) by (simp add: outgoing_def rk_user_def)
    then have "a' = a" by (cases a', cases a) simp
    then have "q = public_of P (ek_secret (sk_encryption s))" using w(1,2) a(2) own by simp
    moreover have "wire_wrap k = w" "kw_enc_ver (rk_wrap k) = 2"
      using x(2) w(4) by (simp_all add: wire_wrap_def outgoing_def)
    ultimately show "row_opens P (ek_secret (sk_encryption s)) room (take 32 e) k"
      using wraps_and_unwraps [OF ok _ w(3) [unfolded \<open>q = _\<close>]] len
      by (simp add: row_opens_def cast_enc_ver_def unwrap_room_key_by_version_def effective_enc_ver_def)
  qed
  ultimately have held: "bundle_get v (fst (snd (unwrap_bundle P s room ?rows))) = Some (take 32 e)"
    by (intro unwrap_bundle_holds)
  show ?thesis
    by (intro exI [of _ "fst (snd (unwrap_bundle P s room ?rows))"] conjI refl held allI impI)
       (rule reader_opens [OF ok _ _ held])
qed

section \<open>Bindings\<close>

lemma hex_trim: "trim (hex_encode b) = hex_encode b"
  by (rule trim_graphic) (use hexc.enc_lower in \<open>blast intro: hexdigit_graphic lower_hexdigit_hexdigit\<close>)

lemma personal_sign_shape: "personal_sign P w m = Inr sig \<Longrightarrow> \<exists>b. sig = ''0x'' @ hex_encode b \<and> trim sig = sig"
proof -
  assume "personal_sign P w m = Inr sig"
  then obtain b where b: "sig = ''0x'' @ hex_encode b"
    by (cases "sign_prehash P w (eip191_digest P m)") (auto simp: personal_sign_def ok_or_def)
  have "\<forall>c \<in> set sig. is_graphic c"
    unfolding b using x_graphic hexc.enc_lower [of _ b]
    by (auto intro: hexdigit_graphic lower_hexdigit_hexdigit)
  then show ?thesis using b trim_graphic by blast
qed

lemma binding_verifies:
  assumes ok: "primitives_ok P"
    and sig: "personal_sign P w (build_key_binding_message (wallet_of P w) (uncompressed_public_key_hex P q)) = Inr sig"
  shows "verify_key_binding P (wallet_of P w) (Some (uncompressed_public_key_hex P q)) (Some sig) = Inr q"
proof -
  note p = primitives_okD [OF ok]
  have t: "trim (uncompressed_public_key_hex P q) = uncompressed_public_key_hex P q"
    by (simp add: uncompressed_public_key_hex_def hex_trim)
  have n: "uncompressed_public_key_hex P q \<noteq> []"
    using parse_public_key [OF p(4), of q] by (auto simp: parse_uncompressed_public_key_def)
  obtain b where s: "sig = ''0x'' @ hex_encode b" "trim sig = sig" using personal_sign_shape [OF sig] by blast
  then have "sig \<noteq> []" by simp
  then show ?thesis
    using s(2) t n personal_sign_recovers [OF p(5) sig]
    by (simp add: verify_key_binding_def present_def ok_or_def parse_public_key [OF p(4)])
qed

section \<open>A rotation by example\<close>

definition toy_wallet :: byte where "toy_wallet = 7"

definition toy_session :: "byte session_keys" where
  "toy_session = \<lparr>sk_signer = Local_wallet toy_wallet, sk_encryption = keypair_of toy_primitives 9,
                  sk_binding = [], sk_legacy = None\<rparr>"

definition toy_address :: wallet_address where "toy_address = wallet_of toy_primitives toy_wallet"

definition toy_entry :: public_key_entry where
  "toy_entry = \<lparr>pe_address = toy_address, pe_public_key = uncompressed_public_key_hex toy_primitives 9,
     pe_sig = (case personal_sign toy_primitives toy_wallet
                      (build_key_binding_message toy_address (uncompressed_public_key_hex toy_primitives 9)) of
                 Inl _ \<Rightarrow> None | Inr sig \<Rightarrow> Some sig)\<rparr>"

definition toy_server :: server_db where
  "toy_server =
     \<lparr>sv_store = \<lparr>db_rooms = [''room''],
        db_users = [as_str toy_address \<mapsto> \<lparr>ur_username = ''ann'', ur_public_key = None, ur_public_key_sig = None,
                      ur_profile_image = None, ur_created_at = 0, ur_updated_at = 0\<rparr>],
        db_messages = [], db_serials = Map.empty, db_mentions = [], db_media = [], db_docs = [],
        db_blocked = [], db_reads = Map.empty\<rparr>,
      sv_rooms = [\<lparr>rm_id = ''room'', rm_name = ''Room'', rm_description = None, rm_key_version = 1,
                   rm_pending = True, rm_kind = ''channel'', rm_dm_key = None, rm_created_at = 0\<rparr>],
      sv_members = [\<lparr>mb_room = ''room'', mb_user = as_str toy_address, mb_joined_at = 0\<rparr>],
      sv_admins = [], sv_invitations = [], sv_hidden = [], sv_keys = [], sv_links = []\<rparr>"

lemma toy_signs: "\<exists>sig. personal_sign toy_primitives w m = Inr sig"
  by (simp add: personal_sign_def toy_primitives_def ok_or_def)

lemma toy_entry_sig:
  obtains sig where "pe_sig toy_entry = Some sig" "trim sig \<noteq> []"
    "verify_key_binding toy_primitives toy_address (Some (pe_public_key toy_entry)) (pe_sig toy_entry)
     = Inr (public_of toy_primitives (ek_secret (sk_encryption toy_session)))"
proof -
  obtain sig where s: "personal_sign toy_primitives toy_wallet
      (build_key_binding_message toy_address (uncompressed_public_key_hex toy_primitives 9)) = Inr sig"
    using toy_signs by blast
  have "trim sig \<noteq> []" using personal_sign_shape [OF s] by auto
  moreover have "pe_sig toy_entry = Some sig" by (simp add: toy_entry_def s)
  moreover have "verify_key_binding toy_primitives toy_address (Some (uncompressed_public_key_hex toy_primitives 9)) (Some sig) = Inr 9"
    using binding_verifies [OF toy_primitives_ok s [unfolded toy_address_def]] by (simp add: toy_address_def)
  ultimately show ?thesis using that
    by (simp add: toy_entry_def toy_session_def keypair_of_def s) (simp add: toy_primitives_def)
qed

lemma toy_wraps: "80 \<le> length e + 32 \<Longrightarrow> \<exists>w e'. wrap_room_key_v2 toy_primitives e key q room = Inr (w, e')"
  by (simp add: wrap_room_key_v2_def fresh_secret_key_def SECRET_KEY_ATTEMPTS_def eval_nat_numeral draw_def
      toy_primitives_def)

lemma toy_request:
  obtains w :: wrapped_room_key where "rotation_request toy_primitives (replicate 80 1) ''room'' [toy_address] [toy_entry] 1
    = Inr (2, [\<lparr>kw_user = as_str toy_address, kw_key = wk_key w, kw_ephemeral = wk_ephemeral w, kw_iv = wk_iv w,
                kw_hmac = wk_hmac w, kw_enc_ver = 2\<rparr>])"
proof -
  obtain sig where sig: "pe_sig toy_entry = Some sig" "trim sig \<noteq> []"
    "verify_key_binding toy_primitives toy_address (Some (pe_public_key toy_entry)) (pe_sig toy_entry)
     = Inr (public_of toy_primitives (ek_secret (sk_encryption toy_session)))" by (rule toy_entry_sig)
  obtain w e' where w: "wrap_room_key_v2 toy_primitives (replicate 48 1) (replicate 32 1)
      (public_of toy_primitives (ek_secret (sk_encryption toy_session))) ''room'' = Inr (w, e')"
    using toy_wraps [of "replicate 48 1"] by fastforce
  have f: "find_entry toy_address [toy_entry] = Some toy_entry" by (simp add: find_entry_def toy_entry_def)
  have d: "draw 32 (replicate 80 1 :: byte list) = Inr (replicate 32 1, replicate 48 1)"
    by (simp add: draw_def)
  show ?thesis
    by (rule that [of w]) (use sig w in \<open>simp add: rotation_request_def d f Let_def outgoing_def\<close>)
qed

lemma toy_rotates: "\<exists>d'. rotate_route (as_str toy_address) ''room'' 2
    [\<lparr>kw_user = as_str toy_address, kw_key = a, kw_ephemeral = b, kw_iv = c, kw_hmac = f, kw_enc_ver = 2\<rparr>]
    3 toy_server = Inr ((), d')"
  by (simp add: rotate_route_def rotate_check_def rotate_commit_def rotate_def ensure_def is_member_def list_members_def
      toy_server_def get_room_def MAX_ROTATION_KEYS_def store_key_def room_exists_def on_db_def)

text \<open>The rotation of a room of one, whose member then reads what she seals.\<close>

theorem rotation_reaches_everyone_witness:
  "\<exists>wraps d'. rotation_request toy_primitives (replicate 80 1) ''room'' [toy_address] [toy_entry] 1 = Inr (2, wraps)
    \<and> rotate_route (as_str toy_address) ''room'' 2 wraps 3 toy_server = Inr ((), d')
    \<and> (\<exists>b. b = fst (snd (unwrap_bundle toy_primitives toy_session ''room'' (all_keys ''room'' (as_str toy_address) d')))
       \<and> bundle_get 2 b = Some (take 32 (replicate 80 1))
       \<and> (\<forall>e' t body m. encrypted_body toy_primitives e' (take 32 (replicate 80 1)) 2 ''room'' t = Inr body
            \<longrightarrow> valid_utf8 (trim t) \<longrightarrow> carries body m \<longrightarrow> decrypt_message toy_primitives b ''room'' m = Opened (trim t)))"
proof -
  obtain w :: wrapped_room_key where w: "rotation_request toy_primitives (replicate 80 1) ''room'' [toy_address] [toy_entry] 1
    = Inr (2, [\<lparr>kw_user = as_str toy_address, kw_key = wk_key w, kw_ephemeral = wk_ephemeral w, kw_iv = wk_iv w,
                kw_hmac = wk_hmac w, kw_enc_ver = 2\<rparr>])" by (rule toy_request)
  obtain d' where d: "rotate_route (as_str toy_address) ''room'' 2
    [\<lparr>kw_user = as_str toy_address, kw_key = wk_key w, kw_ephemeral = wk_ephemeral w, kw_iv = wk_iv w,
      kw_hmac = wk_hmac w, kw_enc_ver = 2\<rparr>] 3 toy_server = Inr ((), d')" using toy_rotates by blast
  obtain sig where own: "verify_key_binding toy_primitives toy_address (Some (pe_public_key toy_entry)) (pe_sig toy_entry)
     = Inr (public_of toy_primitives (ek_secret (sk_encryption toy_session)))" by (rule toy_entry_sig)
  have f: "find_entry toy_address [toy_entry] = Some toy_entry" by (simp add: find_entry_def toy_entry_def)
  from rotation_reaches_everyone [OF toy_primitives_ok w d _ f own] w d show ?thesis by auto
qed

section \<open>What a server can make a client do\<close>

lemma sign_in_signs:
  assumes "sign_in P server w username = (asked, Inr (token, s))" and "an_challenge server = Some (cid, message)"
  obtains sig salt where "personal_sign P w message = Inr sig" "Login_with (wallet_of P w) username cid sig \<in> set asked"
    "derive_session P w salt = Inr s" "\<And>salt'. length salt' = 64 \<Longrightarrow> an_login server = Some (token, Some salt') \<Longrightarrow> salt = salt'"
proof -
  obtain sig where sig: "personal_sign P w message = Inr sig"
    using assms by (cases "personal_sign P w message") (auto simp: sign_in_def Let_def)
  obtain tok offered where l: "an_login server = Some (tok, offered)"
    using assms sig by (cases "an_login server") (auto simp: sign_in_def Let_def)
  show ?thesis
  proof (cases "\<exists>v. offered = Some v \<and> length v = 64")
    case True
    then obtain v where v: "offered = Some v" "length v = 64" by blast
    show ?thesis
      by (rule that [OF sig, of v]) (use assms sig l v in \<open>auto simp: sign_in_def Let_def split: sum.splits\<close>)
  next
    case False
    then have asked: "(case offered of Some v \<Rightarrow> if length v = 64 then (x, Some v) else y | None \<Rightarrow> y) = y" for x :: "request list" and y
      by (cases offered) auto
    then obtain salt where salt: "an_salt server = Some salt"
      using assms sig l by (cases "an_salt server") (auto simp: sign_in_def Let_def asked)
    show ?thesis
      by (rule that [OF sig, of salt])
         (use assms sig l salt False in \<open>auto simp: sign_in_def Let_def asked split: sum.splits\<close>)
  qed
qed

text \<open>C33.  The challenge is an oracle for the identity: the client signs the server's bytes verbatim, so a
server that answers the challenge with the salted derivation message, whose salt it has itself handed out,
reads in the login request that follows the very signature of which the end-to-end private key is the hash:
from it, and from nothing else, it derives the secret with which the session unwraps its room keys.\<close>

theorem challenge_yields_identity:
  assumes salt: "build_salted_encryption_message (wallet_of P w) salt = Inr message"
    and hostile: "an_challenge server = Some (cid, message)" "an_login server = Some (token, Some salt)"
    and signed_in: "sign_in P server w username = (asked, Inr (token, s))"
  shows "\<exists>sig. Login_with (wallet_of P w) username cid sig \<in> set asked
    \<and> derive_encryption_keys_from_signature P sig = Inr (sk_encryption s)"
proof -
  have l: "length salt = 64" using salt by (auto simp: build_salted_encryption_message_def split: if_splits)
  obtain sig salt' where s: "personal_sign P w message = Inr sig" "Login_with (wallet_of P w) username cid sig \<in> set asked"
    "derive_session P w salt' = Inr s" "salt' = salt"
    using sign_in_signs [OF signed_in hostile(1)] l hostile(2) by metis
  then have "derive_encryption_keys_v2 P w salt = Inr (sk_encryption s)"
    by (auto simp: derive_session_def try_bind_Inr_iff)
  then show ?thesis using s(1,2) salt by (auto simp: derive_encryption_keys_v2_def)
qed

text \<open> By the same door a server forges the binding of a key: where it answers the challenge with the
binding message for a key of its own, the login request holds a signature that passes verify_key_binding
for that wallet and that key, so that every other client wraps the keys of its rooms to the server.\<close>

theorem challenge_forges_binding:
  assumes ok: "primitives_ok P"
    and hostile: "an_challenge server
      = Some (cid, build_key_binding_message (wallet_of P w) (uncompressed_public_key_hex P q))"
    and signed_in: "sign_in P server w username = (asked, Inr (token, s))"
  shows "\<exists>sig. Login_with (wallet_of P w) username cid sig \<in> set asked
    \<and> verify_key_binding P (wallet_of P w) (Some (uncompressed_public_key_hex P q)) (Some sig) = Inr q"
  using sign_in_signs [OF signed_in hostile] binding_verifies [OF ok] by metis

text \<open> A wrap has no sender: whoever knows a member's published key can hand that member an epoch of its
own choosing.  For every key and epoch, the rows with a wrap made of that public key alone give the session
that key for that epoch, so that what the client then sends under the epoch its room names is sealed with
a key the server chose.\<close>

theorem planted_epoch_accepted:
  assumes ok: "primitives_ok P" and key: "length key = 32"
    and drawn: "wrap_room_key_v2 P e key q room = Inr (w, e')"
    and public: "parse_uncompressed_public_key P (uncompressed_public_key_hex P (public_of P (ek_secret (sk_encryption s)))) = Inr q"
    and row: "rk_wrap k = fst (outgoing a w None)" "rk_version k = v"
  shows "bundle_get v (fst (snd (unwrap_bundle P s room [k]))) = Some key"
proof -
  have q: "q = public_of P (ek_secret (sk_encryption s))"
    using public by (simp add: parse_public_key [OF primitives_okD(4) [OF ok]])
  have "wire_wrap k = w" "kw_enc_ver (rk_wrap k) = 2" using row by (simp_all add: wire_wrap_def outgoing_def)
  then have "row_opens P (ek_secret (sk_encryption s)) room key k"
    using wraps_and_unwraps [OF ok key drawn [unfolded q]]
    by (simp add: row_opens_def cast_enc_ver_def unwrap_room_key_by_version_def effective_enc_ver_def)
  then show ?thesis using row(2) by (intro unwrap_bundle_holds) simp_all
qed

section \<open>Sending\<close>



section \<open>Examples\<close>

definition toy_salt :: string where "toy_salt = hex_encode (replicate 32 3)"

definition toy_derivation :: string where
  "toy_derivation = (case build_salted_encryption_message toy_address toy_salt of Inr m \<Rightarrow> m | Inl _ \<Rightarrow> [])"

lemma toy_salt_ok: "length toy_salt = 64" "list_all is_ascii_hexdigit toy_salt"
  by (simp_all add: toy_salt_def hexc.enc_length hexdigits_of_key)

lemma toy_derivation: "build_salted_encryption_message toy_address toy_salt = Inr toy_derivation"
  by (simp add: toy_derivation_def) (simp add: build_salted_encryption_message_def toy_salt_ok)

lemma toy_signature:
  "personal_sign toy_primitives w m
   = Inr (''0x'' @ hex_encode ((w # toy_tag (eip191_digest toy_primitives m)) @ [27]))"
  by (simp add: personal_sign_def) (simp add: toy_primitives_def)

lemma length_toy_tag: "length (toy_tag h) = 63"
  by (simp add: toy_tag_def min_def)

lemma toy_derives: "\<exists>s. derive_session toy_primitives toy_wallet toy_salt = Inr s"
proof -
  let ?b = "(toy_wallet # toy_tag (eip191_digest toy_primitives toy_derivation)) @ [27]"
  have m: "build_salted_encryption_message (wallet_of toy_primitives toy_wallet) toy_salt = Inr toy_derivation"
    using toy_derivation by (simp add: toy_address_def)
  have l: "length (hex_encode ?b) = 130" unfolding hexc.enc_length by (simp add: length_toy_tag)
  have "length (keccak256 toy_primitives ?b) = 32"
    using primitives_okD(6) [OF toy_primitives_ok] by (simp add: keccak_ok_def)
  then have "\<exists>k. scalar_from toy_primitives (keccak256 toy_primitives ?b) = Some k"
    by (simp add: toy_primitives_def)
  then obtain k where "derive_encryption_keys_v2 toy_primitives toy_wallet toy_salt = Inr k"
    using l by (auto simp only: derive_encryption_keys_v2_def m toy_signature try_bind_simps
        derive_encryption_keys_from_signature_def strip_0x ok_or_simps hexc.dec_enc if_False not_not simp_thms)
  then show ?thesis by (simp add: derive_session_def sign_key_binding_def toy_signature)
qed

definition hostile_server :: "string \<Rightarrow> auth_answers" where
  "hostile_server m = \<lparr>an_challenge = Some (''id'', m), an_login = Some (''token'', Some toy_salt), an_salt = None\<rparr>"

lemma toy_signs_in:
  "\<exists>asked s. sign_in toy_primitives (hostile_server m) toy_wallet ''ann'' = (asked, Inr (''token'', s))"
  using toy_derives by (auto simp: sign_in_def hostile_server_def toy_signature toy_salt_ok Let_def)

theorem challenge_yields_identity_witness:
  "\<exists>asked s. sign_in toy_primitives (hostile_server toy_derivation) toy_wallet ''ann'' = (asked, Inr (''token'', s))
    \<and> (\<exists>sig. Login_with (wallet_of toy_primitives toy_wallet) ''ann'' ''id'' sig \<in> set asked
         \<and> derive_encryption_keys_from_signature toy_primitives sig = Inr (sk_encryption s))"
proof -
  obtain asked s where s: "sign_in toy_primitives (hostile_server toy_derivation) toy_wallet ''ann'' = (asked, Inr (''token'', s))"
    using toy_signs_in by blast
  from challenge_yields_identity [OF toy_derivation [unfolded toy_address_def] _ _ s, of "''id''"] s
  show ?thesis by (simp add: hostile_server_def)
qed

theorem challenge_forges_binding_witness:
  "\<exists>asked s. sign_in toy_primitives
      (hostile_server (build_key_binding_message (wallet_of toy_primitives toy_wallet)
         (uncompressed_public_key_hex toy_primitives 66))) toy_wallet ''ann'' = (asked, Inr (''token'', s))
    \<and> (\<exists>sig. Login_with (wallet_of toy_primitives toy_wallet) ''ann'' ''id'' sig \<in> set asked
         \<and> verify_key_binding toy_primitives (wallet_of toy_primitives toy_wallet)
             (Some (uncompressed_public_key_hex toy_primitives 66)) (Some sig) = Inr 66)"
proof -
  let ?m = "build_key_binding_message (wallet_of toy_primitives toy_wallet) (uncompressed_public_key_hex toy_primitives 66)"
  obtain asked s where s: "sign_in toy_primitives (hostile_server ?m) toy_wallet ''ann'' = (asked, Inr (''token'', s))"
    using toy_signs_in by blast
  have "an_challenge (hostile_server ?m) = Some (''id'', ?m)" by (simp add: hostile_server_def)
  from challenge_forges_binding [OF toy_primitives_ok this s] s show ?thesis by blast
qed

theorem planted_epoch_accepted_witness:
  "\<exists>w e'. wrap_room_key_v2 toy_primitives (replicate 48 1) (replicate 32 66) 9 ''room'' = Inr (w, e')
    \<and> bundle_get 2 (fst (snd (unwrap_bundle toy_primitives toy_session ''room''
         [\<lparr>rk_room = ''room'', rk_wrap = fst (outgoing toy_address w None), rk_version = 2, rk_created_at = 0\<rparr>])))
      = Some (replicate 32 66)"
proof -
  obtain w e' where w: "wrap_room_key_v2 toy_primitives (replicate 48 1) (replicate 32 66) 9 ''room'' = Inr (w, e')"
    using toy_wraps [of "replicate 48 1"] by fastforce
  have "public_of toy_primitives (ek_secret (sk_encryption toy_session)) = 9"
    by (simp add: toy_session_def keypair_of_def) (simp add: toy_primitives_def)
  then have q: "parse_uncompressed_public_key toy_primitives
      (uncompressed_public_key_hex toy_primitives (public_of toy_primitives (ek_secret (sk_encryption toy_session)))) = Inr 9"
    by (simp add: parse_public_key [OF primitives_okD(4) [OF toy_primitives_ok]])
  show ?thesis
    using w planted_epoch_accepted [OF toy_primitives_ok _ w q, where v = 2 and a = toy_address
        and k = "\<lparr>rk_room = ''room'', rk_wrap = fst (outgoing toy_address w None), rk_version = 2, rk_created_at = 0\<rparr>"]
    by auto
qed

definition stale_store :: room_snapshot where
  "stale_store = \<lparr>sn_encrypted = True, sn_version = Some 1, sn_bundle = Some (bundle_insert 1 (replicate 32 7) empty_bundle)\<rparr>"

lemma stale_bundle:
  "bundle_get 1 (bundle_insert 1 k empty_bundle) = Some k" "bundle_get 2 (bundle_insert 1 k empty_bundle) = None"
  by (simp_all add: bundle_get_insert) (simp add: bundle_get_def empty_bundle_def)



end
