(* ===== verification/Auth_Spec.thy ===== *)
theory Auth_Spec
  imports Auth Session_Spec
begin

text \<open>What authentication guarantees: a challenge opens at most one session, for the wallet that signed it and
before it expires; every key the server publishes is bound to its wallet; the texts a wallet signs are told
apart.  And where it does not hold what it says: suspensions.\<close>

section \<open>Requests\<close>

text \<open>The requests that touch the state of this module, each an atomic step of a run, and what a run shows:
the challenges issued and the logins that succeed, by the id of their challenge.\<close>

datatype auth_request =
  Req_challenge entropy string int int "string option"
| Req_login entropy int int login_body
| Req_salt entropy wallet_address
| Req_key wallet_address "string option" "string option" int
| Req_profile wallet_address "string option" "string option" int
| Req_block wallet_address "string option"
| Req_unblock wallet_address string
| Req_suspend wallet_address string "string option"
| Req_reinstate wallet_address string
| Req_evict wallet_address string

datatype auth_event = Issued string | Logged_in string

record ('sk, 'pk) auth_setup =
  sp_primitives :: "('sk, 'pk) primitives"
  sp_show :: "json \<Rightarrow> string"
  sp_admins :: "string option"
  sp_jwt :: jwt
  sp_keys :: jwt_keys

definition settled :: "auth_state \<Rightarrow> api_error + 'a \<times> auth_state \<Rightarrow> auth_state" where
  "settled st r = (case r of Inl _ \<Rightarrow> st | Inr (_, st') \<Rightarrow> st')"

definition settled_state :: "auth_state \<Rightarrow> api_error + auth_state \<Rightarrow> auth_state" where
  "settled_state st r = (case r of Inl _ \<Rightarrow> st | Inr st' \<Rightarrow> st')"

fun auth_step :: "('sk, 'pk) auth_setup \<Rightarrow> auth_request \<Rightarrow> auth_state \<Rightarrow> auth_event list \<times> auth_state" where
  "auth_step S (Req_challenge e cid now gc_now w) st =
     (case challenge_route e cid now gc_now w st of
        (Inl _, st') \<Rightarrow> ([], st') | (Inr _, st') \<Rightarrow> ([Issued cid], st'))"
| "auth_step S (Req_login e now now_s b) st =
     (case login_route (sp_primitives S) (sp_show S) (sp_admins S) (sp_jwt S) (sp_keys S) e now now_s b st of
        (Inl _, st') \<Rightarrow> ([], st')
      | (Inr _, st') \<Rightarrow> ([Logged_in (case lb_challenge_id b of None \<Rightarrow> [] | Some cid \<Rightarrow> cid)], st'))"
| "auth_step S (Req_salt e w) st = ([], settled st (encryption_salt_route e w st))"
| "auth_step S (Req_key w k sig now) st = ([], settled st (encryption_key_route (sp_primitives S) w k sig now st))"
| "auth_step S (Req_profile w u p now) st = ([], settled st (update_profile_route w u p now st))"
| "auth_step S (Req_block w raw) st = ([], settled_state st (block_route w raw st))"
| "auth_step S (Req_unblock w raw) st = ([], settled_state st (unblock_route w raw st))"
| "auth_step S (Req_suspend w raw reason) st = ([], settled_state st (suspend_route (sp_admins S) w raw reason st))"
| "auth_step S (Req_reinstate w raw) st = ([], settled_state st (reinstate_route w raw st))"
| "auth_step S (Req_evict w raw) st = ([], settled st (evict_user_route (sp_admins S) w raw st))"

fun auth_run :: "('sk, 'pk) auth_setup \<Rightarrow> auth_request list \<Rightarrow> auth_state \<Rightarrow> auth_event list \<times> auth_state" where
  "auth_run S [] st = ([], st)"
| "auth_run S (r # rs) st =
     (let (shown, st) = auth_step S r st; (later, st) = auth_run S rs st in (shown @ later, st))"

section \<open>Challenges are spent once\<close>

definition pending :: "string \<Rightarrow> auth_state \<Rightarrow> nat" where
  "pending cid st = length [c \<leftarrow> au_challenges st. ch_id c = cid]"

lemma salt_challenges: "get_or_create_salt e a st = Inr (salt, st') \<Longrightarrow> au_challenges st' = au_challenges st \<and> au_db st' = au_db st \<and> au_cache st' = au_cache st"
  by (auto simp: get_or_create_salt_def split: sum.splits option.splits)

lemma writes_keep_challenges [simp]:
  "au_challenges (set_user a u st) = au_challenges st"
  "au_challenges (set_blocks f st) = au_challenges st"
  "au_challenges (refresh_suspensions st) = au_challenges st"
  "au_challenges (suspend_row a reason w st) = au_challenges st"
  "au_challenges (reinstate_row a st) = au_challenges st"
  "au_challenges (block_user a b st) = au_challenges st"
  "au_challenges (unblock_user a b st) = au_challenges st"
  by (simp_all add: set_user_def set_blocks_def refresh_suspensions_def write_cache_def suspend_row_def
      reinstate_row_def block_user_def unblock_user_def)

lemma set_encryption_key_challenges: "au_challenges (snd (set_encryption_key a k s now st)) = au_challenges st"
  by (simp add: set_encryption_key_def split: option.splits)

lemma update_profile_challenges: "au_challenges (snd (update_profile a u p now st)) = au_challenges st"
  by (simp add: update_profile_def Let_def split: option.splits)

lemma settled_Inr: "(\<And>x st'. r = Inr (x, st') \<Longrightarrow> Q st') \<Longrightarrow> Q st \<Longrightarrow> Q (settled st r)"
  by (auto simp: settled_def split: sum.splits prod.splits)

lemma settled_state_Inr: "(\<And>st'. r = Inr st' \<Longrightarrow> Q st') \<Longrightarrow> Q st \<Longrightarrow> Q (settled_state st r)"
  by (auto simp: settled_state_def split: sum.splits)

lemma encryption_key_Inr:
  assumes "encryption_key_route P w k sig now st = Inr (x, st')"
  shows "\<exists>key s. x = key \<and> validate_public_key k = Inr key \<and> server_verify_key_binding P w key s
       \<and> st' = snd (set_encryption_key (as_str w) key s now st)"
proof -
  from assms obtain key s where v: "validate_public_key k = Inr key" "validate_signature ''publicKeySig'' sig = Inr s"
      "server_verify_key_binding P w key s"
    by (auto simp: encryption_key_route_def try_bind_Inr_iff)
  obtain u st1 where "set_encryption_key (as_str w) key s now st = (u, st1)"
    by (cases "set_encryption_key (as_str w) key s now st")
  with assms v show ?thesis by (auto simp: encryption_key_route_def)
qed

lemma update_profile_Inr:
  assumes "update_profile_route w u p now st = Inr (x, st')"
  shows "\<exists>name picture. st' = snd (update_profile (as_str w) name picture now st)"
proof -
  from assms obtain name picture where v: "validate_username u = Inr name" "validate_profile_image p = Inr picture"
    by (auto simp: update_profile_route_def try_bind_Inr_iff)
  obtain r st1 where "update_profile (as_str w) name picture now st = (r, st1)"
    by (cases "update_profile (as_str w) name picture now st")
  with assms v have "st' = snd (update_profile (as_str w) name picture now st)"
    by (cases r) (auto simp: update_profile_route_def)
  then show ?thesis by blast
qed

lemma block_Inr: "block_route w raw st = Inr st' \<Longrightarrow> \<exists>a. st' = block_user (as_str w) a st"
  by (cases raw; cases "wallet_new (the raw)") (auto simp: block_route_def)

lemma unblock_Inr: "unblock_route w raw st = Inr st' \<Longrightarrow> \<exists>a. st' = unblock_user (as_str w) a st"
  by (auto simp: unblock_route_def split: sum.splits)

lemma suspend_Inr: "suspend_route setting w raw reason st = Inr st' \<Longrightarrow>
    \<exists>a r. st' = refresh_suspensions (suspend_row a r (as_str w) st)"
  by (auto simp: suspend_route_def try_bind_Inr_iff)

lemma reinstate_Inr: "reinstate_route w raw st = Inr st' \<Longrightarrow> \<exists>a. st' = refresh_suspensions (reinstate_row a st)"
  by (auto simp: reinstate_route_def try_bind_Inr_iff)

lemma evict_user_Inr: "evict_user_route setting w raw st = Inr (x, st') \<Longrightarrow>
    \<exists>a r. st' = refresh_suspensions (suspend_row a r (as_str w) (st\<lparr>au_db := snd (evict_from_all_rooms a (au_db st))\<rparr>))"
  by (auto simp: evict_user_route_def try_bind_Inr_iff case_prod_beta)

lemma other_challenges:
  "au_challenges (settled st (encryption_salt_route e w st)) = au_challenges st"
  "au_challenges (settled st (encryption_key_route P w k sig now st)) = au_challenges st"
  "au_challenges (settled st (update_profile_route w u p now st)) = au_challenges st"
  "au_challenges (settled_state st (block_route w raw' st)) = au_challenges st"
  "au_challenges (settled_state st (unblock_route w raw st)) = au_challenges st"
  "au_challenges (settled_state st (suspend_route setting w raw reason st)) = au_challenges st"
  "au_challenges (settled_state st (reinstate_route w raw st)) = au_challenges st"
  "au_challenges (settled st (evict_user_route setting w raw st)) = au_challenges st"
proof -
  show "au_challenges (settled st (encryption_salt_route e w st)) = au_challenges st"
    by (rule settled_Inr) (auto simp: encryption_salt_route_def dest: salt_challenges)
  show "au_challenges (settled st (encryption_key_route P w k sig now st)) = au_challenges st"
    by (rule settled_Inr) (auto dest!: encryption_key_Inr simp: set_encryption_key_challenges)
  show "au_challenges (settled st (update_profile_route w u p now st)) = au_challenges st"
    by (rule settled_Inr) (auto dest!: update_profile_Inr simp: update_profile_challenges)
  show "au_challenges (settled_state st (block_route w raw' st)) = au_challenges st"
    by (rule settled_state_Inr) (auto dest!: block_Inr)
  show "au_challenges (settled_state st (unblock_route w raw st)) = au_challenges st"
    by (rule settled_state_Inr) (auto dest!: unblock_Inr)
  show "au_challenges (settled_state st (suspend_route setting w raw reason st)) = au_challenges st"
    by (rule settled_state_Inr) (auto dest!: suspend_Inr)
  show "au_challenges (settled_state st (reinstate_route w raw st)) = au_challenges st"
    by (rule settled_state_Inr) (auto dest!: reinstate_Inr)
  show "au_challenges (settled st (evict_user_route setting w raw st)) = au_challenges st"
    by (rule settled_Inr) (auto dest!: evict_user_Inr)
qed

lemma login_route_cases:
  assumes "login_route P sh setting J K e now now_s b st = (r, st')"
  obtains (malformed) er where "r = Inl er" "st' = st"
      "isl (validate_wallet ''walletAddress'' (lb_wallet b)) \<or> lb_challenge_id b = None \<or> lb_challenge_id b = Some []
       \<or> isl (validate_signature ''signature'' (lb_signature b))"
  | (taken) a cid signature c st1 where
      "validate_wallet ''walletAddress'' (lb_wallet b) = Inr a" "lb_challenge_id b = Some cid" "cid \<noteq> []"
      "validate_signature ''signature'' (lb_signature b) = Inr signature"
      "consume_challenge cid st = (c, st1)" "au_challenges st' = au_challenges st1" "au_cache st' = au_cache st"
      "(\<exists>er. r = Inl er) \<or> (\<exists>x. login_checks P sh now (WalletAddress a) signature b c st1 = Inr x)"
proof (cases "try_bind (validate_wallet ''walletAddress'' (lb_wallet b)) (\<lambda>a.
           try_bind (ok_or (required ''challengeId'' ''Challenge ID'')
                       (case lb_challenge_id b of None \<Rightarrow> None | Some s \<Rightarrow> if s = [] then None else Some s)) (\<lambda>cid.
           try_bind (validate_signature ''signature'' (lb_signature b)) (\<lambda>signature. Inr (a, cid, signature))))")
  case (Inl er)
  then have "isl (validate_wallet ''walletAddress'' (lb_wallet b)) \<or> lb_challenge_id b = None \<or> lb_challenge_id b = Some []
       \<or> isl (validate_signature ''signature'' (lb_signature b))"
    by (cases "validate_wallet ''walletAddress'' (lb_wallet b)"; cases "lb_challenge_id b";
        cases "validate_signature ''signature'' (lb_signature b)") (auto split: if_splits)
  then show ?thesis using Inl assms malformed [of er] by (simp add: login_route_def)
next
  case (Inr x)
  obtain a cid signature where x: "x = (a, cid, signature)" by (cases x)
  have v: "validate_wallet ''walletAddress'' (lb_wallet b) = Inr a" "lb_challenge_id b = Some cid" "cid \<noteq> []"
      "validate_signature ''signature'' (lb_signature b) = Inr signature"
    using Inr x by (auto simp: try_bind_Inr_iff ok_or_def split: option.splits if_splits)
  obtain c st1 where c: "consume_challenge cid st = (c, st1)" by (cases "consume_challenge cid st")
  have cache: "au_cache st1 = au_cache st" using c by (auto simp: consume_challenge_def)
  show ?thesis
  proof (cases "login_checks P sh now (WalletAddress a) signature b c st1")
    case (Inl er)
    then have "r = Inl er" "st' = st1" using assms Inr x c by (simp_all add: login_route_def)
    then show ?thesis using cache taken [OF v c] by simp
  next
    case checks: (Inr y)
    obtain username key sig where y: "y = (username, key, sig)" by (cases y)
    obtain u d where u: "upsert_user a username key sig now (au_db st1) = (u, d)"
      by (cases "upsert_user a username key sig now (au_db st1)")
    have "au_challenges st' = au_challenges st1 \<and> au_cache st' = au_cache st1"
    proof (cases "get_or_create_salt e a (st1\<lparr>au_db := d\<rparr>)")
      case (Inl er)
      then have "st' = st1\<lparr>au_db := d\<rparr>" using assms Inr x c checks y u by (simp add: login_route_def)
      then show ?thesis by simp
    next
      case salt: (Inr p)
      then show ?thesis using assms Inr x c checks y u salt_challenges [of e a "st1\<lparr>au_db := d\<rparr>" "fst p" "snd p"]
        by (cases p) (auto simp: login_route_def split: sum.splits)
    qed
    then show ?thesis using taken [OF v c] checks cache by metis
  qed
qed

lemma challenge_route_pending:
  assumes "challenge_route e cid now gc_now w st = (r, st')"
  shows "pending k st' \<le> pending k st + (if (\<exists>x. r = Inr x) \<and> k = cid then 1 else 0)"
proof -
  have gc: "pending k (gc_challenges gc_now st) \<le> pending k st"
  proof -
    have "length (filter P (filter Q xs)) \<le> length (filter P xs)" for P Q and xs :: "challenge_row list"
      by (induction xs) auto
    then show ?thesis by (simp add: pending_def gc_challenges_def del: filter_filter)
  qed
  consider "st' = st" | "st' = gc_challenges gc_now st"
    | c where "\<exists>x. r = Inr x" "ch_id c = cid" "insert_challenge c (gc_challenges gc_now st) = Inr st'"
    using assms by (auto simp: challenge_route_def Let_def split: sum.splits) (metis challenge_row.select_convs(1))
  then show ?thesis
  proof cases
    case 3
    then have "pending k st' = pending k (gc_challenges gc_now st) + (if k = cid then 1 else 0)"
      by (auto simp: insert_challenge_def pending_def split: if_splits)
    then show ?thesis using gc 3 by simp
  qed (use gc in auto)
qed

lemma consumed:
  assumes "consume_challenge cid st = (c, st1)"
  shows "pending k st1 = (if k = cid then 0 else pending k st)"
    and "c = Some x \<Longrightarrow> x \<in> set (au_challenges st) \<and> ch_id x = cid \<and> pending cid st \<noteq> 0"
proof -
  show "pending k st1 = (if k = cid then 0 else pending k st)"
  proof -
    have "[c \<leftarrow> [c \<leftarrow> xs. ch_id c \<noteq> cid]. ch_id c = k] = (if k = cid then [] else [c \<leftarrow> xs. ch_id c = k])" for xs :: "challenge_row list"
      by (induction xs) auto
    then show ?thesis using assms by (auto simp: consume_challenge_def pending_def simp del: filter_filter)
  qed
  assume "c = Some x"
  then have "find (\<lambda>c. ch_id c = cid) (au_challenges st) = Some x" using assms by (simp add: consume_challenge_def)
  then show "x \<in> set (au_challenges st) \<and> ch_id x = cid \<and> pending cid st \<noteq> 0"
    by (auto simp: find_Some_iff pending_def filter_empty_conv)
qed

lemma pending_same: "au_challenges st' = au_challenges st \<Longrightarrow> pending k st' = pending k st"
  by (simp add: pending_def)

lemma step_balance:
  assumes "auth_step S r st = (shown, st')"
  shows "pending k st' + count_list shown (Logged_in k) \<le> pending k st + count_list shown (Issued k)"
proof (cases r)
  case (Req_challenge e cid now gc_now w)
  obtain x s where c: "challenge_route e cid now gc_now w st = (x, s)" by (cases "challenge_route e cid now gc_now w st")
  then show ?thesis using assms Req_challenge challenge_route_pending [OF c, of k] by (cases x) auto
next
  case (Req_login e now now_s b)
  obtain x s where c: "login_route (sp_primitives S) (sp_show S) (sp_admins S) (sp_jwt S) (sp_keys S) e now now_s b st = (x, s)"
    by (cases "login_route (sp_primitives S) (sp_show S) (sp_admins S) (sp_jwt S) (sp_keys S) e now now_s b st")
  then have s: "s = st'" "shown = (case x of Inl _ \<Rightarrow> [] | Inr _ \<Rightarrow> [Logged_in (case lb_challenge_id b of None \<Rightarrow> [] | Some cid \<Rightarrow> cid)])"
    using assms Req_login by (auto split: sum.splits)
  from c show ?thesis
  proof (cases rule: login_route_cases)
    case malformed
    then show ?thesis using s by simp
  next
    case (taken a cid signature c st1)
    have p: "pending k st' = (if k = cid then 0 else pending k st)"
      using consumed(1) [OF taken(5)] pending_same [OF taken(6)] s(1) by simp
    show ?thesis
    proof (cases "\<exists>er. x = Inl er")
      case True
      then show ?thesis using p s(2) by auto
    next
      case False
      then obtain y where "login_checks (sp_primitives S) (sp_show S) now (WalletAddress a) signature b c st1 = Inr y"
        using taken(8) by blast
      then obtain row where "c = Some row" by (cases c) (auto simp: login_checks_def)
      then have "pending cid st \<noteq> 0" using consumed(2) [OF taken(5)] by blast
      then show ?thesis using p s(2) taken(2) False by (cases x) auto
    qed
  qed
qed (use assms in \<open>auto intro!: eq_refl pending_same other_challenges\<close>)

text \<open>C7.  A challenge opens at most one session: in every run of the server, whatever the requests, their
order and their outcome, the logins that succeed on a challenge id are at most the challenges that were
issued under that id, those pending at the start included.  So a replayed login finds nothing.\<close>

theorem challenges_spent_once:
  "count_list (fst (auth_run S rs st)) (Logged_in cid)
   \<le> count_list (fst (auth_run S rs st)) (Issued cid) + pending cid st"
proof (induction rs arbitrary: st)
  case Nil
  then show ?case by simp
next
  case (Cons r rs)
  obtain shown st1 where s: "auth_step S r st = (shown, st1)" by (cases "auth_step S r st")
  obtain later st2 where l: "auth_run S rs st1 = (later, st2)" by (cases "auth_run S rs st1")
  show ?case using Cons.IH [of st1] step_balance [OF s, of cid] by (simp add: s l)
qed

section \<open>Who logs in\<close>

text \<open>C10.  A login is the wallet's own and costs its challenge: where a login succeeds, the server had a
pending challenge under the id it names, unexpired at that time, for that wallet, and the signature
recovers exactly that wallet from exactly the text of that challenge; and after any login that names a
challenge and is well formed, successful or not, no challenge of that id is left.\<close>

theorem login_is_authentic:
  assumes login: "login_route P sh setting J K e now now_s b st = (r, st')"
    and named: "lb_challenge_id b = Some cid" "cid \<noteq> []"
    and formed: "validate_wallet ''walletAddress'' (lb_wallet b) = Inr a"
      "validate_signature ''signature'' (lb_signature b) = Inr signature"
  shows "pending cid st' = 0
    \<and> (\<forall>ans. r = Inr ans \<longrightarrow>
         (\<exists>c \<in> set (au_challenges st). ch_id c = cid \<and> now \<le> ch_expires_at c
            \<and> eq_ignore_ascii_case (ch_wallet c) a \<and> recover_address P (ch_message c) signature = Inr (WalletAddress a)
            \<and> \<not> is_suspended a st))"
proof -
  obtain c st1 where c: "consume_challenge cid st = (c, st1)" "au_challenges st' = au_challenges st1"
      "(\<exists>er. r = Inl er) \<or> (\<exists>x. login_checks P sh now (WalletAddress a) signature b c st1 = Inr x)"
    using login
  proof (cases rule: login_route_cases)
    case (malformed er)
    then show ?thesis using named formed by simp
  next
    case (taken a' cid' signature' c st1)
    then show ?thesis using named formed that by auto
  qed
  have spent: "pending cid st' = 0" using consumed(1) [OF c(1), of cid] pending_same [OF c(2)] by simp
  {
  fix ans assume "r = Inr ans"
  then obtain x where x: "login_checks P sh now (WalletAddress a) signature b c st1 = Inr x" using c(3) by blast
  then obtain row where row: "c = Some row" by (cases c) (auto simp: login_checks_def)
  have st1: "au_cache st1 = au_cache st" using c(1) by (auto simp: consume_challenge_def)
  have "\<exists>c \<in> set (au_challenges st). ch_id c = cid \<and> now \<le> ch_expires_at c
      \<and> eq_ignore_ascii_case (ch_wallet c) a \<and> recover_address P (ch_message c) signature = Inr (WalletAddress a)
      \<and> \<not> is_suspended a st"
  proof (rule bexI [of _ row])
    show "row \<in> set (au_challenges st)" using consumed(2) [OF c(1) row] by blast
    show "ch_id row = cid \<and> now \<le> ch_expires_at row \<and> eq_ignore_ascii_case (ch_wallet row) a
      \<and> recover_address P (ch_message row) signature = Inr (WalletAddress a) \<and> \<not> is_suspended a st"
      using consumed(2) [OF c(1) row] x st1
      by (auto simp: login_checks_def row try_bind_Inr_iff is_suspended_def verify_challenge_signature_def
          split: sum.splits if_splits)
  qed
  }
  then show ?thesis using spent by blast
qed

section \<open>Published keys\<close>

definition key_bound :: "('sk, 'pk) primitives \<Rightarrow> string \<Rightarrow> user_row \<Rightarrow> bool" where
  "key_bound P a u \<longleftrightarrow>
     (\<forall>k. ur_public_key u = Some k \<longrightarrow>
        (\<exists>s. ur_public_key_sig u = Some s \<and> server_verify_key_binding P (WalletAddress a) k s))"

definition keys_bound :: "('sk, 'pk) primitives \<Rightarrow> auth_state \<Rightarrow> bool" where
  "keys_bound P st \<longleftrightarrow> (\<forall>a u. get_user a st = Some u \<longrightarrow> key_bound P a u)"

lemma keys_boundI: "(\<And>a u. get_user a st = Some u \<Longrightarrow> key_bound P a u) \<Longrightarrow> keys_bound P st"
  by (simp add: keys_bound_def)

lemma keys_boundD: "keys_bound P st \<Longrightarrow> get_user a st = Some u \<Longrightarrow> key_bound P a u"
  by (simp add: keys_bound_def)

lemma keys_bound_users: "(\<And>a. get_user a st' = get_user a st) \<Longrightarrow> keys_bound P st \<Longrightarrow> keys_bound P st'"
  by (simp add: keys_bound_def)

lemma writes_keep_users [simp]:
  "get_user a (set_blocks f st) = get_user a st"
  "get_user a (refresh_suspensions st) = get_user a st"
  "get_user a (suspend_row b reason w st) = get_user a st"
  "get_user a (reinstate_row b st) = get_user a st"
  "get_user a (block_user b c st) = get_user a st"
  "get_user a (unblock_user b c st) = get_user a st"
  "get_user a (gc_challenges now st) = get_user a st"
  "get_user a (set_user b u st) = (if a = b then Some u else get_user a st)"
  by (simp_all add: get_user_def set_user_def set_blocks_def refresh_suspensions_def write_cache_def suspend_row_def
      reinstate_row_def block_user_def unblock_user_def gc_challenges_def)

lemma insert_challenge_user: "insert_challenge c st = Inr st' \<Longrightarrow> get_user a st' = get_user a st"
  by (auto simp: insert_challenge_def get_user_def split: if_splits)

lemma salt_user: "get_or_create_salt e b st = Inr (s, st') \<Longrightarrow> get_user a st' = get_user a st"
  using salt_challenges [of e b st s st'] by (simp add: get_user_def)

lemma challenge_route_user: "get_user a (snd (challenge_route e cid now gc_now w st)) = get_user a st"
  by (auto simp: challenge_route_def Let_def dest: insert_challenge_user split: sum.splits)

lemma set_key_bound:
  "keys_bound P st \<Longrightarrow> server_verify_key_binding P (WalletAddress a) k s \<Longrightarrow> keys_bound P (snd (set_encryption_key a k s now st))"
  by (auto simp: keys_bound_def key_bound_def set_encryption_key_def split: option.splits if_splits)

lemma update_profile_bound: "keys_bound P st \<Longrightarrow> keys_bound P (snd (update_profile a name picture now st))"
  by (auto simp: keys_bound_def key_bound_def update_profile_def Let_def split: option.splits if_splits)

lemma forget_reads_user: "db_users (sv_store (forget_reads f d)) = db_users (sv_store d)"
  by (simp add: forget_reads_def)

lemma pending_users: "db_users (sv_store (fold (\<lambda>r. set_key_rotation_pending r True) rooms d)) = db_users (sv_store d)"
  by (induction rooms arbitrary: d) (simp_all add: set_key_rotation_pending_def update_room_def)

lemma evict_user:
  "db_users (sv_store (snd (evict_from_all_rooms a d))) b =
     (if b = a then map_option (\<lambda>u. u\<lparr>ur_public_key := None, ur_public_key_sig := None\<rparr>) (db_users (sv_store d) a)
      else db_users (sv_store d) b)"
  by (simp add: evict_from_all_rooms_def Let_def pending_users forget_reads_user split: option.splits)

lemma evict_bound: "keys_bound P st \<Longrightarrow> keys_bound P (st\<lparr>au_db := snd (evict_from_all_rooms a (au_db st))\<rparr>)"
  by (auto simp: keys_bound_def key_bound_def get_user_def evict_user split: if_splits)

lemma login_keys_bound:
  assumes "login_keys P w k s = Inr (key, sig)"
  shows "key = None \<or> (\<exists>k' s'. key = Some k' \<and> sig = Some s' \<and> server_verify_key_binding P w k' s')"
  using assms by (cases k; cases s) (auto simp: login_keys_def try_bind_Inr_iff)

lemma upsert_bound:
  assumes "keys_bound P st" and "upsert_user a name key sig now (au_db st) = (u, d)"
    and "key = None \<or> (\<exists>k s. key = Some k \<and> sig = Some s \<and> server_verify_key_binding P (WalletAddress a) k s)"
  shows "keys_bound P (st\<lparr>au_db := d\<rparr>)"
proof (rule keys_boundI)
  fix b v assume "get_user b (st\<lparr>au_db := d\<rparr>) = Some v"
  then have v: "b \<noteq> a \<and> get_user b st = Some v \<or> b = a \<and> v = u"
    using assms(2) by (auto simp: upsert_user_def Let_def get_user_def split: if_splits)
  moreover have "key_bound P a u"
  proof (cases "db_users (sv_store (au_db st)) a")
    case None
    then show ?thesis using assms by (auto simp: upsert_user_def Let_def key_bound_def)
  next
    case (Some u0)
    then have "key_bound P a u0" using keys_boundD [OF assms(1)] by (simp add: get_user_def)
    then show ?thesis using assms(2,3) Some by (auto simp: upsert_user_def Let_def key_bound_def)
  qed
  ultimately show "key_bound P b v" using keys_boundD [OF assms(1)] by auto
qed

lemma login_bound:
  assumes bound: "keys_bound P st" and login: "login_route P sh setting J K e now now_s b st = (r, st')"
  shows "keys_bound P st'"
proof (cases "try_bind (validate_wallet ''walletAddress'' (lb_wallet b)) (\<lambda>a.
           try_bind (ok_or (required ''challengeId'' ''Challenge ID'')
                       (case lb_challenge_id b of None \<Rightarrow> None | Some s \<Rightarrow> if s = [] then None else Some s)) (\<lambda>cid.
           try_bind (validate_signature ''signature'' (lb_signature b)) (\<lambda>signature. Inr (a, cid, signature))))")
  case (Inl er)
  then show ?thesis using assms by (simp add: login_route_def)
next
  case (Inr x)
  obtain a cid signature where x: "x = (a, cid, signature)" by (cases x)
  obtain c st1 where c: "consume_challenge cid st = (c, st1)" by (cases "consume_challenge cid st")
  have st1: "keys_bound P st1"
    using bound c by (auto simp: consume_challenge_def keys_bound_def get_user_def)
  show ?thesis
  proof (cases "login_checks P sh now (WalletAddress a) signature b c st1")
    case (Inl er)
    then have "st' = st1" using login Inr x c by (simp add: login_route_def)
    then show ?thesis using st1 by simp
  next
    case checks: (Inr y)
    obtain name key sig where y: "y = (name, key, sig)" by (cases y)
    obtain u d where u: "upsert_user a name key sig now (au_db st1) = (u, d)"
      by (cases "upsert_user a name key sig now (au_db st1)")
    have "login_keys P (WalletAddress a) (lb_public_key b) (lb_public_key_sig b) = Inr (key, sig)"
      using checks y by (auto simp: login_checks_def try_bind_Inr_iff)
    then have d: "keys_bound P (st1\<lparr>au_db := d\<rparr>)" using upsert_bound [OF st1 u] login_keys_bound by blast
    show ?thesis
    proof (cases "get_or_create_salt e a (st1\<lparr>au_db := d\<rparr>)")
      case (Inl er)
      then have "st' = st1\<lparr>au_db := d\<rparr>" using login Inr x c checks y u by (simp add: login_route_def)
      then show ?thesis using d by simp
    next
      case salt: (Inr p)
      obtain s st2 where p: "p = (s, st2)" by (cases p)
      then have "st' = st2" using login Inr x c checks y u salt by (auto simp: login_route_def split: sum.splits)
      then have st2: "get_or_create_salt e a (st1\<lparr>au_db := d\<rparr>) = Inr (s, st')" using salt p by simp
      show ?thesis by (rule keys_bound_users [OF salt_user [OF st2] d])
    qed
  qed
qed

lemma step_bound:
  assumes "keys_bound (sp_primitives S) st"
  shows "keys_bound (sp_primitives S) (snd (auth_step S r st))"
proof (cases r)
  case (Req_challenge e cid now gc_now w)
  then have "snd (auth_step S r st) = snd (challenge_route e cid now gc_now w st)"
    by (auto split: sum.splits prod.splits)
  then show ?thesis using keys_bound_users [OF challenge_route_user assms] by simp
next
  case (Req_login e now now_s b)
  obtain x s where l: "login_route (sp_primitives S) (sp_show S) (sp_admins S) (sp_jwt S) (sp_keys S) e now now_s b st = (x, s)"
    by (cases "login_route (sp_primitives S) (sp_show S) (sp_admins S) (sp_jwt S) (sp_keys S) e now now_s b st")
  then show ?thesis using login_bound [OF assms l] Req_login by (auto split: sum.splits)
next
  case (Req_salt e w)
  have "keys_bound (sp_primitives S) (settled st (encryption_salt_route e w st))"
    by (rule settled_Inr [where Q = "keys_bound (sp_primitives S)", OF _ assms]) (use keys_bound_users [OF salt_user assms] in \<open>auto simp: encryption_salt_route_def\<close>)
  then show ?thesis using Req_salt by simp
next
  case (Req_key w k sig now)
  have "keys_bound (sp_primitives S) (settled st (encryption_key_route (sp_primitives S) w k sig now st))"
    by (rule settled_Inr [where Q = "keys_bound (sp_primitives S)", OF _ assms]) (cases w; auto dest!: encryption_key_Inr intro: set_key_bound assms)
  then show ?thesis using Req_key by simp
next
  case (Req_profile w u p now)
  have "keys_bound (sp_primitives S) (settled st (update_profile_route w u p now st))"
    by (rule settled_Inr [where Q = "keys_bound (sp_primitives S)", OF _ assms]) (auto dest!: update_profile_Inr intro: update_profile_bound assms)
  then show ?thesis using Req_profile by simp
next
  case (Req_block w raw)
  have "keys_bound (sp_primitives S) (settled_state st (block_route w raw st))"
    by (rule settled_state_Inr [where Q = "keys_bound (sp_primitives S)", OF _ assms]) (auto dest!: block_Inr intro: keys_bound_users [OF _ assms])
  then show ?thesis using Req_block by simp
next
  case (Req_unblock w raw)
  have "keys_bound (sp_primitives S) (settled_state st (unblock_route w raw st))"
    by (rule settled_state_Inr [where Q = "keys_bound (sp_primitives S)", OF _ assms]) (auto dest!: unblock_Inr intro: keys_bound_users [OF _ assms])
  then show ?thesis using Req_unblock by simp
next
  case (Req_suspend w raw reason)
  have "keys_bound (sp_primitives S) (settled_state st (suspend_route (sp_admins S) w raw reason st))"
    by (rule settled_state_Inr [where Q = "keys_bound (sp_primitives S)", OF _ assms]) (auto dest!: suspend_Inr intro: keys_bound_users [OF _ assms])
  then show ?thesis using Req_suspend by simp
next
  case (Req_reinstate w raw)
  have "keys_bound (sp_primitives S) (settled_state st (reinstate_route w raw st))"
    by (rule settled_state_Inr [where Q = "keys_bound (sp_primitives S)", OF _ assms]) (auto dest!: reinstate_Inr intro: keys_bound_users [OF _ assms])
  then show ?thesis using Req_reinstate by simp
next
  case (Req_evict w raw)
  have "keys_bound (sp_primitives S) (settled st (evict_user_route (sp_admins S) w raw st))"
    by (rule settled_Inr [where Q = "keys_bound (sp_primitives S)", OF _ assms])
       (auto dest!: evict_user_Inr intro: keys_bound_users [OF _ evict_bound [OF assms]])
  then show ?thesis using Req_evict by simp
qed

lemma run_bound: "keys_bound (sp_primitives S) st \<Longrightarrow> keys_bound (sp_primitives S) (snd (auth_run S rs st))"
proof (induction rs arbitrary: st)
  case (Cons r rs)
  then show ?case using step_bound [OF Cons.prems, of r] by (simp add: case_prod_beta)
qed simp

text \<open>C8.  Every key the server hands out verifies: from a server whose keys are bound to their wallets, after
any run of logins, key uploads, profile changes, blocks, suspensions and removals, each entry of an
answer to a request for public keys passes the client's own verify_key_binding for the address it was asked
for.  So an honest server never makes a client refuse a rotation for an unverifiable key.\<close>

theorem published_keys_verify:
  assumes start: "keys_bound (sp_primitives S) st"
    and answer: "public_keys_route raw (snd (auth_run S rs st)) = Inr entries" and entry: "(a, k, sig) \<in> set entries"
  shows "\<exists>q. verify_key_binding (sp_primitives S) (WalletAddress a) (Some k) sig = Inr q"
proof -
  let ?st = "snd (auth_run S rs st)"
  from answer obtain as where "entries = get_public_keys as ?st"
    by (auto simp: public_keys_route_def try_bind_Inr_iff)
  then obtain u where u: "get_user a ?st = Some u" "ur_public_key u = Some k" "sig = ur_public_key_sig u"
    using entry by (auto simp: get_public_keys_def dest!: sym [where s = "Some _"] split: option.splits)
  then obtain s where "sig = Some s" "server_verify_key_binding (sp_primitives S) (WalletAddress a) k s"
    using keys_boundD [OF run_bound [OF start] u(1)] by (auto simp: key_bound_def)
  then show ?thesis
    by (cases "verify_key_binding (sp_primitives S) (WalletAddress a) (Some k) (Some s)")
       (auto simp: server_verify_key_binding_def)
qed

section \<open>An honest wallet gets in\<close>

text \<open>What the server relies on of the token library: it signs anything, under a token of visible characters,
and gives back what it signed until it expires.\<close>

definition jwt_ok :: "jwt \<Rightarrow> bool" where
  "jwt_ok J \<longleftrightarrow>
     (\<forall>k c. \<exists>t. jwt_encode J k c = Some t \<and> t \<noteq> [] \<and> (\<forall>x \<in> set t. is_graphic x))
     \<and> (\<forall>k c t now. jwt_encode J k c = Some t \<longrightarrow> now \<le> cl_exp c \<longrightarrow> jwt_decode J k now t = Some c)"

lemma jwt_okD:
  assumes "jwt_ok J"
  shows "\<exists>t. jwt_encode J k c = Some t \<and> t \<noteq> [] \<and> (\<forall>x \<in> set t. is_graphic x)"
    and "jwt_encode J k c = Some t \<Longrightarrow> now \<le> cl_exp c \<Longrightarrow> jwt_decode J k now t = Some c"
  using assms by (simp_all add: jwt_ok_def)

lemma wallet_of_ok: "primitives_ok P \<Longrightarrow> wallet_ok (wallet_of P s)"
proof -
  assume ok: "primitives_ok P"
  let ?b = "take 20 (drop 12 (keccak256 P (tl (sec1_bytes P (public_of P s)))))"
  have "length ?b = 20" using primitives_okD(6) [OF ok] by (simp add: keccak_ok_def)
  then have "length (hex_encode ?b) = 40" by (simp only: hexc.enc_length)
  moreover have "\<forall>c \<in> set (hex_encode ?b). is_lower_hexdigit c" using hexc.enc_lower [of _ ?b] by blast
  ultimately show ?thesis
    by (auto simp: wallet_ok_iff wallet_of_def address_from_public_key_def from_bytes_def)
qed

lemma validate_own_wallet: "wallet_ok a \<Longrightarrow> validate_wallet f (Some (as_str a)) = Inr (as_str a)"
  by (simp add: validate_wallet_def wallet_new_fixed)

lemma validate_own_signature:
  assumes "ecdsa_ok P" and "personal_sign P s m = Inr sig"
  shows "validate_signature f (Some sig) = Inr sig"
proof -
  obtain r v where rv: "sign_prehash P s (eip191_digest P m) = Some (r, v)" "sig = ''0x'' @ hex_encode (r @ [word_of_nat v + 27])"
    using assms(2) by (cases "sign_prehash P s (eip191_digest P m)") (auto simp: personal_sign_def ok_or_def)
  let ?h = "hex_encode (r @ [word_of_nat v + 27])"
  have "length r = 64" using assms(1) rv(1) unfolding ecdsa_ok_def by blast
  then have "length ?h = 130" unfolding hexc.enc_length by simp
  moreover have "list_all is_ascii_hexdigit ?h"
    unfolding list_all_iff using hexc.enc_lower lower_hexdigit_hexdigit by blast
  ultimately show ?thesis by (simp add: validate_signature_def rv(2) starts_with_iff)
qed

lemma bearer_header:
  assumes "t \<noteq> []" and "\<forall>x \<in> set t. is_graphic x"
  shows "bearer_token (Some (''Bearer '' @ t)) = Some t"
proof -
  have "trim (''Bearer '' @ t) = ''Bearer '' @ t"
    by (rule trim_graphic_ends) (use assms in \<open>auto simp: is_graphic_def\<close>)
  moreover have "takeWhile (\<lambda>c. \<not> is_header_space c) (''Bearer '' @ t) = ''Bearer''"
    by (simp add: is_header_space_def white_space_def)
  moreover have s: "eq_ignore_ascii_case ''Bearer'' ''bearer''" by code_simp
  ultimately show ?thesis using assms
    by (simp add: bearer_token_def Let_def trim_graphic s)
qed

lemma issued_challenge:
  assumes "challenge_route e cid now gc_now (Some (as_str w)) st = (Inr (cid', m, expires), st1)" and "wallet_ok w"
  obtains row where "consume_challenge cid st1 = (Some row, st1\<lparr>au_challenges := [c \<leftarrow> au_challenges st1. ch_id c \<noteq> cid]\<rparr>)"
    "cid' = cid" "ch_message row = m" "ch_expires_at row = expires" "ch_wallet row = as_str w"
    "expires = now + CHALLENGE_TTL_MS" "au_cache st1 = au_cache st"
proof -
  obtain nonce where n: "hex_32 e = Inr nonce"
    using assms by (cases "hex_32 e") (auto simp: challenge_route_def validate_own_wallet)
  let ?c = "\<lparr>ch_id = cid, ch_wallet = as_str w, ch_nonce = nonce, ch_message = challenge_message w nonce,
             ch_expires_at = now + CHALLENGE_TTL_MS\<rparr>"
  have w: "WalletAddress (as_str w) = w" by (cases w) simp
  obtain st0 where i: "insert_challenge ?c (gc_challenges gc_now st) = Inr st0" and eq: "st1 = st0" "cid' = cid"
      "m = challenge_message w nonce" "expires = now + CHALLENGE_TTL_MS"
    using assms n by (cases "insert_challenge ?c (gc_challenges gc_now st)")
      (auto simp: challenge_route_def validate_own_wallet Let_def w)
  then have s: "au_challenges st1 = au_challenges (gc_challenges gc_now st) @ [?c]"
      "\<forall>x \<in> set (au_challenges (gc_challenges gc_now st)). ch_id x \<noteq> cid" "au_cache st1 = au_cache st"
    by (auto simp: insert_challenge_def gc_challenges_def split: if_splits)
  have "find (\<lambda>c. ch_id c = cid) (xs @ [?c]) = Some ?c" if "\<forall>x \<in> set xs. ch_id x \<noteq> cid" for xs
    using that by (induction xs) auto
  then have "consume_challenge cid st1 = (Some ?c, st1\<lparr>au_challenges := [c \<leftarrow> au_challenges st1. ch_id c \<noteq> cid]\<rparr>)"
    using s by (simp add: consume_challenge_def)
  then show ?thesis using that [of ?c] eq s(3) by simp
qed

definition wallet_login :: "wallet_address \<Rightarrow> string \<Rightarrow> string \<Rightarrow> string \<Rightarrow> login_body" where
  "wallet_login w username cid signature =
     \<lparr>lb_wallet = Some (as_str w), lb_username = Some (JStr username), lb_challenge_id = Some cid,
      lb_signature = Some signature, lb_public_key = None, lb_public_key_sig = None\<rparr>"

lemma signed_checks:
  assumes ok: "primitives_ok P" and sig: "personal_sign P s (ch_message row) = Inr sig"
    and row: "now \<le> ch_expires_at row" "ch_wallet row = as_str (wallet_of P s)"
    and free: "\<not> is_suspended (as_str (wallet_of P s)) st"
    and named: "validate_username (Some username) = Inr username" "username \<noteq> []" "trim username = username"
  shows "login_checks P sh now (wallet_of P s) sig (wallet_login (wallet_of P s) username cid sig) (Some row) st
         = Inr (username, None, None)"
  using personal_sign_recovers [OF primitives_okD(5) [OF ok] sig] assms
  by (simp add: login_checks_def wallet_login_def ok_or_def verify_challenge_signature_def login_username_def
      js_string_or_empty_def login_keys_def eq_ignore_ascii_case_def not_less)

lemma signed_challenge_opens:
  assumes ok: "primitives_ok P" "jwt_ok J"
    and asked: "challenge_route e cid now gc_now (Some (as_str (wallet_of P s))) st = (Inr (cid', m, expires), st1)"
      "cid \<noteq> []"
    and signed: "personal_sign P s m = Inr sig" and soon: "later \<le> now + CHALLENGE_TTL_MS"
    and free: "\<not> is_suspended (as_str (wallet_of P s)) st"
    and username: "validate_username (Some u) = Inr u" "u \<noteq> []" "trim u = u"
    and entropy: "32 \<le> length e'"
  obtains ans st2 where
    "login_route P sh setting J K e' later now_s (wallet_login (wallet_of P s) u cid sig) st1 = (Inr ans, st2)"
    "issue_token J K now_s (wallet_of P s) = Inr (la_token ans)"
    "au_challenges st2 = [c \<leftarrow> au_challenges st1. ch_id c \<noteq> cid]" "au_cache st2 = au_cache st"
proof -
  let ?w = "wallet_of P s" and ?b = "wallet_login (wallet_of P s) u cid sig"
  have w: "wallet_ok ?w" using wallet_of_ok [OF ok(1)] .
  have a: "WalletAddress (as_str ?w) = ?w" by (cases ?w) simp
  obtain row where c: "consume_challenge cid st1 = (Some row, st1\<lparr>au_challenges := [c \<leftarrow> au_challenges st1. ch_id c \<noteq> cid]\<rparr>)"
    and row: "ch_message row = m" "ch_expires_at row = now + CHALLENGE_TTL_MS" "ch_wallet row = as_str ?w"
      "au_cache st1 = au_cache st"
    using asked(1) w by (rule issued_challenge) auto
  let ?st = "st1\<lparr>au_challenges := [c \<leftarrow> au_challenges st1. ch_id c \<noteq> cid]\<rparr>"
  have v: "validate_wallet f (lb_wallet ?b) = Inr (as_str ?w)" "validate_signature f (lb_signature ?b) = Inr sig"
      "lb_challenge_id ?b = Some cid" for f
    by (simp_all add: wallet_login_def validate_own_wallet [OF w]
        validate_own_signature [OF primitives_okD(5) [OF ok(1)] signed])
  have "\<not> is_suspended (as_str ?w) ?st" using free row(4) by (simp add: is_suspended_def)
  then have checks: "login_checks P sh later ?w sig ?b (Some row) ?st = Inr (u, None, None)"
    using signed row soon username by (intro signed_checks [OF ok(1)]) auto
  obtain r d where r: "upsert_user (as_str ?w) u None None later (au_db ?st) = (r, d)"
    by (cases "upsert_user (as_str ?w) u None None later (au_db ?st)")
  obtain h where "hex_32 e' = Inr h" using entropy by (auto simp: hex_32_def draw_def)
  then obtain salt st2 where salt: "get_or_create_salt e' (as_str ?w) (?st\<lparr>au_db := d\<rparr>) = Inr (salt, st2)"
    by (cases "au_salts st1 (as_str ?w)") (auto simp: get_or_create_salt_def)
  obtain t where t: "issue_token J K now_s ?w = Inr t"
    using jwt_okD(1) [OF ok(2), of "jk_secret K" "\<lparr>cl_wallet = as_str ?w, cl_scope = None, cl_iat = now_s,
        cl_exp = now_s + jk_ttl K\<rparr>"] by (auto simp: issue_token_def ok_or_def)
  let ?ans = "\<lparr>la_user = r, la_token = t, la_salt = salt, la_admin = is_configured_admin setting (as_str ?w)\<rparr>"
  have login: "login_route P sh setting J K e' later now_s ?b st1 = (Inr ?ans, st2)"
    using asked(2) r salt by (simp add: login_route_def v ok_or_def c a checks t)
  then show ?thesis using that [OF login] t salt_challenges [OF salt] row(4) by simp
qed

lemma issued_token_opens:
  assumes ok: "jwt_ok J" and w: "wallet_ok w" and t: "issue_token J K now_s w = Inr t"
    and alive: "now \<le> now_s + jk_ttl K" and free: "\<not> is_suspended (as_str w) st"
  shows "auth_user J K now (Some (''Bearer '' @ t)) st = Inr w"
proof -
  let ?c = "\<lparr>cl_wallet = as_str w, cl_scope = None, cl_iat = now_s, cl_exp = now_s + jk_ttl K\<rparr>"
  have e: "jwt_encode J (jk_secret K) ?c = Some t"
    using t by (auto simp: issue_token_def ok_or_def split: option.splits)
  then have shape: "t \<noteq> []" "\<forall>x \<in> set t. is_graphic x" using jwt_okD(1) [OF ok, of "jk_secret K" ?c] by auto
  have d: "jwt_decode J (jk_secret K) now t = Some ?c" using jwt_okD(2) [OF ok e] alive by simp
  show ?thesis unfolding auth_user_def bearer_header [OF shape]
    using free by (simp add: ok_or_def verify_token_def d wallet_new_fixed [OF w])
qed

text \<open>C9.  An honest wallet gets in: a wallet that asks for a challenge, signs its text and answers before it
expires is logged in unless it is suspended, whatever is in the tables; the token it gets, sent as a
bearer header, is its own identity at every route until the token expires; and the same login sent again is
refused.\<close>

theorem honest_wallet_signs_in:
  assumes ok: "primitives_ok P" "jwt_ok J"
    and asked: "challenge_route e cid now gc_now (Some (as_str (wallet_of P s))) st = (Inr (cid', m, expires), st1)"
      "cid \<noteq> []"
    and signed: "personal_sign P s m = Inr sig" and soon: "later \<le> now + CHALLENGE_TTL_MS"
    and free: "\<not> is_suspended (as_str (wallet_of P s)) st"
    and username: "validate_username (Some u) = Inr u" "u \<noteq> []" "trim u = u"
    and entropy: "32 \<le> length e'" and alive: "use \<le> now_s + jk_ttl K"
  shows "\<exists>ans st2. login_route P sh setting J K e' later now_s (wallet_login (wallet_of P s) u cid sig) st1 = (Inr ans, st2)
    \<and> auth_user J K use (Some (''Bearer '' @ la_token ans)) st2 = Inr (wallet_of P s)
    \<and> (\<exists>er. login_route P sh setting J K e' later now_s (wallet_login (wallet_of P s) u cid sig) st2 = (Inl er, st2))"
proof -
  let ?w = "wallet_of P s" and ?b = "wallet_login (wallet_of P s) u cid sig"
  have w: "wallet_ok ?w" using wallet_of_ok [OF ok(1)] .
  obtain ans st2 where login: "login_route P sh setting J K e' later now_s ?b st1 = (Inr ans, st2)"
      "issue_token J K now_s ?w = Inr (la_token ans)"
    and st2: "au_challenges st2 = [c \<leftarrow> au_challenges st1. ch_id c \<noteq> cid]" "au_cache st2 = au_cache st"
    by (rule signed_challenge_opens [OF ok asked signed soon free username entropy])
  have "auth_user J K use (Some (''Bearer '' @ la_token ans)) st2 = Inr ?w"
    using free st2(2) by (intro issued_token_opens [OF ok(2) w login(2) alive]) (simp add: is_suspended_def)
  moreover have "consume_challenge cid st2 = (None, st2)"
    by (simp add: consume_challenge_def st2(1) find_None_iff)
  then have "login_route P sh setting J K e' later now_s ?b st2 = (Inl (Bad_request ''Invalid or expired challenge''), st2)"
    using asked(2) by (simp add: login_route_def wallet_login_def validate_own_wallet [OF w]
        validate_own_signature [OF primitives_okD(5) [OF ok(1)] signed] ok_or_def login_checks_def)
  ultimately show ?thesis using login by blast
qed

section \<open>Suspensions\<close>

text \<open>One refresh is two steps, the read of the table and the write of the whole cache, and other requests run
between them.\<close>

text \<open>C35.  Two refreshes can lose a suspension: where one has read the table, a second administrator suspends
an account and refreshes, and only then the first writes what it read, the account is in the table and yet is
not suspended: its tokens open every route, until some later change of the table refreshes the cache.\<close>

theorem suspension_lost:
  assumes "\<not> is_suspended a st" and "au_cache st = map to_ascii_lowercase (suspended_addresses st)"
    and "verify_token J K now_s token = Inr (WalletAddress a, c)" and "bearer_token h = Some token"
  shows "let between = refresh_suspensions (suspend_row a reason by_admin st);
             late = write_cache (suspended_addresses st) between
         in auth_user J K now_s h between = Inl (Unauthorized suspended_message)
          \<and> a \<in> set (suspended_addresses late) \<and> \<not> is_suspended a late
          \<and> auth_user J K now_s h late = Inr (WalletAddress a)"
proof -
  have listed: "a \<in> set (suspended_addresses (suspend_row a reason by_admin st))"
    by (cases "a \<in> fst ` set (au_suspended st)") (auto simp: suspended_addresses_def suspend_row_def image_image image_iff)
  then have s: "is_suspended a (refresh_suspensions (suspend_row a reason by_admin st))"
    by (simp add: is_suspended_def refresh_suspensions_def write_cache_def)
  have l: "\<not> is_suspended a (write_cache (suspended_addresses st) (refresh_suspensions (suspend_row a reason by_admin st)))"
    using assms(1,2) by (simp add: is_suspended_def write_cache_def)
  have k: "suspended_addresses (write_cache x (refresh_suspensions y)) = suspended_addresses y" for x y
    by (simp add: suspended_addresses_def write_cache_def refresh_suspensions_def)
  show ?thesis
    using s l listed assms(3,4) by (simp add: Let_def k auth_user_def ok_or_def ensure_def)
qed


section \<open>Examples\<close>

text \<open>A token library: the claims in the clear.\<close>

definition tally :: "int \<Rightarrow> string" where
  "tally i = (if i < 0 then CHR ''n'' else CHR ''p'') # replicate (nat \<bar>i\<bar>) CHR ''1''"

definition untally :: "string \<Rightarrow> int" where
  "untally s = (if hd s = CHR ''n'' then - int (length (tl s)) else int (length (tl s)))"

lemma untally_tally: "untally (tally i) = i"
  by (simp add: untally_def tally_def)

definition toy_jwt :: jwt where
  "toy_jwt =
     \<lparr>jwt_encode = \<lambda>k c. Some (join_with ''.''
        [hex_text (cl_wallet c), (case cl_scope c of None \<Rightarrow> ''n'' | Some s \<Rightarrow> CHR ''s'' # hex_text s),
         tally (cl_iat c), tally (cl_exp c)]),
      jwt_decode = \<lambda>k now t.
        (case split_char CHR ''.'' t of
           [w, s, iat, ex] \<Rightarrow>
             (case unhex_text w of
                None \<Rightarrow> None
              | Some w \<Rightarrow>
                  (let c = \<lparr>cl_wallet = w, cl_scope = (if hd s = CHR ''s'' then unhex_text (tl s) else None),
                            cl_iat = untally iat, cl_exp = untally ex\<rparr>
                   in if now \<le> cl_exp c then Some c else None))
         | _ \<Rightarrow> None)\<rparr>"

lemma toy_jwt_ok: "jwt_ok toy_jwt"
proof -
  have hex: "is_lower_hexdigit x" if "x \<in> set (hex_text s)" for x s
    using that hexc.enc_lower by (auto simp: hex_text_def)
  have dot: "CHR ''.'' \<notin> set (hex_text s)" for s
    using hex [of "CHR ''.''" s] by (auto simp: char_class_codes)
  have g: "x \<in> set (hex_text s) \<Longrightarrow> is_graphic x" for x s
    using hex hexdigit_graphic lower_hexdigit_hexdigit by blast
  have e: "jwt_encode toy_jwt k c \<noteq> None" for k c by (simp add: toy_jwt_def)
  have "t \<noteq> [] \<and> (\<forall>x \<in> set t. is_graphic x)" if "jwt_encode toy_jwt k c = Some t" for k c t
    using that g by (auto simp: toy_jwt_def tally_def is_graphic_def split: option.splits if_splits)
  moreover have "jwt_decode toy_jwt k now t = Some c" if t: "jwt_encode toy_jwt k c = Some t" and n: "now \<le> cl_exp c" for k c t now
  proof -
    let ?s = "case cl_scope c of None \<Rightarrow> ''n'' | Some s \<Rightarrow> CHR ''s'' # hex_text s"
    have "split_char CHR ''.'' t = [hex_text (cl_wallet c), ?s, tally (cl_iat c), tally (cl_exp c)]"
      using t dot by (auto simp: toy_jwt_def tally_def split_char_append split_char_single split: option.splits)
    then show ?thesis using n by (cases c) (auto simp: toy_jwt_def untally_tally unhex_hex split: option.splits)
  qed
  ultimately show ?thesis unfolding jwt_ok_def using e by (metis not_None_eq)
qed

definition toy_accounts :: auth_state where
  "toy_accounts = \<lparr>au_db = toy_server, au_salts = Map.empty, au_challenges = [], au_suspended = [], au_cache = []\<rparr>"

definition toy_jwt_keys :: jwt_keys where
  "toy_jwt_keys = \<lparr>jk_secret = [], jk_download = [0], jk_ttl = 3600\<rparr>"

lemma toy_address_ok: "wallet_ok toy_address"
  by (simp add: toy_address_def wallet_of_ok toy_primitives_ok)

lemma toy_challenge:
  "\<exists>m expires st. challenge_route (replicate 32 1) ''c1'' 0 0 (Some (as_str toy_address)) toy_accounts = (Inr (''c1'', m, expires), st)"
  by (simp add: challenge_route_def validate_own_wallet toy_address_ok hex_32_def draw_def insert_challenge_def
      gc_challenges_def toy_accounts_def Let_def)

lemma ann_ok: "validate_username (Some ''ann'') = Inr ''ann''" "trim ''ann'' = ''ann''"
proof -
  show t: "trim ''ann'' = ''ann''" by (rule trim_graphic) (simp add: is_graphic_def)
  show "validate_username (Some ''ann'') = Inr ''ann''" by code_simp
qed

theorem honest_wallet_signs_in_witness:
  "\<exists>cid' m expires st1 sig ans st2.
     challenge_route (replicate 32 1) ''c1'' 0 0 (Some (as_str (wallet_of toy_primitives toy_wallet))) toy_accounts
       = (Inr (cid', m, expires), st1)
   \<and> personal_sign toy_primitives toy_wallet m = Inr sig
   \<and> login_route toy_primitives (\<lambda>_. []) None toy_jwt toy_jwt_keys (replicate 32 2) 5 0
       (wallet_login (wallet_of toy_primitives toy_wallet) ''ann'' ''c1'' sig) st1 = (Inr ans, st2)
   \<and> auth_user toy_jwt toy_jwt_keys 9 (Some (''Bearer '' @ la_token ans)) st2 = Inr (wallet_of toy_primitives toy_wallet)"
proof -
  obtain cid' m expires st1 where c: "challenge_route (replicate 32 1) ''c1'' 0 0
      (Some (as_str (wallet_of toy_primitives toy_wallet))) toy_accounts = (Inr (cid', m, expires), st1)"
    using toy_challenge by (auto simp: toy_address_def)
  obtain sig where s: "personal_sign toy_primitives toy_wallet m = Inr sig" using toy_signs by blast
  have "\<not> is_suspended (as_str (wallet_of toy_primitives toy_wallet)) toy_accounts"
    by (simp add: is_suspended_def toy_accounts_def)
  from honest_wallet_signs_in [OF toy_primitives_ok toy_jwt_ok c _ s _ this ann_ok(1) _ ann_ok(2),
      where later = 5 and e' = "replicate 32 2" and use = 9 and now_s = 0 and K = toy_jwt_keys and sh = "\<lambda>_. []" and setting = None]
  have "\<exists>ans st2. login_route toy_primitives (\<lambda>_. []) None toy_jwt toy_jwt_keys (replicate 32 2) 5 0
       (wallet_login (wallet_of toy_primitives toy_wallet) ''ann'' ''c1'' sig) st1 = (Inr ans, st2)
     \<and> auth_user toy_jwt toy_jwt_keys 9 (Some (''Bearer '' @ la_token ans)) st2 = Inr (wallet_of toy_primitives toy_wallet)"
    by (fastforce simp: CHALLENGE_TTL_MS_def toy_jwt_keys_def)
  then show ?thesis using c s by blast
qed

text \<open>A login that succeeds.\<close>

theorem login_is_authentic_witness:
  "\<exists>cid' m expires st1 sig ans st2.
     challenge_route (replicate 32 1) ''c1'' 0 0 (Some (as_str (wallet_of toy_primitives toy_wallet))) toy_accounts
       = (Inr (cid', m, expires), st1)
   \<and> login_route toy_primitives (\<lambda>_. []) None toy_jwt toy_jwt_keys (replicate 32 2) 5 0
       (wallet_login (wallet_of toy_primitives toy_wallet) ''ann'' ''c1'' sig) st1 = (Inr ans, st2)
   \<and> pending ''c1'' st2 = 0
   \<and> (\<exists>c \<in> set (au_challenges st1). recover_address toy_primitives (ch_message c) sig
        = Inr (WalletAddress (as_str (wallet_of toy_primitives toy_wallet))))"
proof -
  obtain cid' m expires st1 where c: "challenge_route (replicate 32 1) ''c1'' 0 0
      (Some (as_str (wallet_of toy_primitives toy_wallet))) toy_accounts = (Inr (cid', m, expires), st1)"
    using toy_challenge by (auto simp: toy_address_def)
  obtain sig where s: "personal_sign toy_primitives toy_wallet m = Inr sig" using toy_signs by blast
  have free: "\<not> is_suspended (as_str (wallet_of toy_primitives toy_wallet)) toy_accounts"
    by (simp add: is_suspended_def toy_accounts_def)
  obtain ans st2 where l: "login_route toy_primitives (\<lambda>_. []) None toy_jwt toy_jwt_keys (replicate 32 2) 5 0
       (wallet_login (wallet_of toy_primitives toy_wallet) ''ann'' ''c1'' sig) st1 = (Inr ans, st2)"
    by (rule signed_challenge_opens [OF toy_primitives_ok toy_jwt_ok c _ s _ free ann_ok(1) _ ann_ok(2),
          where later = 5 and e' = "replicate 32 2" and now_s = 0 and K = toy_jwt_keys and setting = None and sh = "\<lambda>_. []"])
       (auto simp: CHALLENGE_TTL_MS_def)
  let ?b = "wallet_login (wallet_of toy_primitives toy_wallet) ''ann'' ''c1'' sig"
  have v: "lb_challenge_id ?b = Some ''c1''" "validate_wallet ''walletAddress'' (lb_wallet ?b) = Inr (as_str (wallet_of toy_primitives toy_wallet))"
     "validate_signature ''signature'' (lb_signature ?b) = Inr sig"
    by (simp_all add: wallet_login_def validate_own_wallet wallet_of_ok [OF toy_primitives_ok]
        validate_own_signature [OF primitives_okD(5) [OF toy_primitives_ok] s])
  from login_is_authentic [OF l v(1) _ v(2,3)] c l show ?thesis by fastforce
qed

definition toy_setup :: "(byte, byte) auth_setup" where
  "toy_setup = \<lparr>sp_primitives = toy_primitives, sp_show = \<lambda>_. [], sp_admins = None, sp_jwt = toy_jwt, sp_keys = toy_jwt_keys\<rparr>"

text \<open>A key uploaded and handed out.\<close>

theorem published_keys_verify_witness:
  "\<exists>sig st entries. personal_sign toy_primitives toy_wallet
      (build_key_binding_message toy_address (uncompressed_public_key_hex toy_primitives 9)) = Inr sig
   \<and> st = snd (auth_run toy_setup [Req_key toy_address (Some (uncompressed_public_key_hex toy_primitives 9)) (Some sig) 3] toy_accounts)
   \<and> public_keys_route (Some [as_str toy_address]) st = Inr entries
   \<and> (as_str toy_address, uncompressed_public_key_hex toy_primitives 9, Some sig) \<in> set entries
   \<and> (\<exists>q. verify_key_binding toy_primitives (WalletAddress (as_str toy_address))
            (Some (uncompressed_public_key_hex toy_primitives 9)) (Some sig) = Inr q)"
proof -
  let ?k = "uncompressed_public_key_hex toy_primitives 9"
  obtain sig where s: "personal_sign toy_primitives toy_wallet (build_key_binding_message toy_address ?k) = Inr sig"
    using toy_signs by blast
  have b: "verify_key_binding toy_primitives toy_address (Some ?k) (Some sig) = Inr 9"
    using binding_verifies [OF toy_primitives_ok s [unfolded toy_address_def]] by (simp add: toy_address_def)
  have k: "validate_public_key (Some ?k) = Inr ?k"
    by code_simp
  let ?st = "snd (auth_run toy_setup [Req_key toy_address (Some ?k) (Some sig) 3] toy_accounts)"
  have "encryption_key_route toy_primitives toy_address (Some ?k) (Some sig) 3 toy_accounts
      = Inr (?k, snd (set_encryption_key (as_str toy_address) ?k sig 3 toy_accounts))"
    by (simp add: encryption_key_route_def k validate_own_signature [OF primitives_okD(5) [OF toy_primitives_ok] s]
        server_verify_key_binding_def b)
       (simp add: set_encryption_key_def get_user_def toy_accounts_def toy_server_def)
  then have st: "?st = snd (set_encryption_key (as_str toy_address) ?k sig 3 toy_accounts)"
    by (simp add: toy_setup_def settled_def)
  have u: "\<exists>u. get_user (as_str toy_address) ?st = Some u \<and> ur_public_key u = Some ?k \<and> ur_public_key_sig u = Some sig"
    unfolding st by (simp add: set_encryption_key_def get_user_def toy_accounts_def toy_server_def set_user_def)
  then obtain entries where e: "public_keys_route (Some [as_str toy_address]) ?st = Inr entries"
      "(as_str toy_address, ?k, Some sig) \<in> set entries"
    by (auto simp: public_keys_route_def ok_or_def validate_own_wallet toy_address_ok get_public_keys_def)
  have "keys_bound (sp_primitives toy_setup) toy_accounts"
    by (simp add: keys_bound_def key_bound_def get_user_def toy_accounts_def toy_server_def)
  from published_keys_verify [OF this e] s e show ?thesis by (auto simp: toy_setup_def)
qed

text \<open>A session of the suspended wallet.\<close>

definition toy_token :: string where
  "toy_token = (case issue_token toy_jwt toy_jwt_keys 0 toy_address of Inr t \<Rightarrow> t | Inl _ \<Rightarrow> [])"

lemma toy_token:
  "\<exists>c. verify_token toy_jwt toy_jwt_keys 9 toy_token = Inr (toy_address, c)"
  "bearer_token (Some (''Bearer '' @ toy_token)) = Some toy_token"
proof -
  let ?c = "\<lparr>cl_wallet = as_str toy_address, cl_scope = None, cl_iat = 0, cl_exp = 3600\<rparr>"
  obtain t where t: "jwt_encode toy_jwt [] ?c = Some t" "t \<noteq> []" "\<forall>x \<in> set t. is_graphic x"
    using jwt_okD(1) [OF toy_jwt_ok] by blast
  then have "toy_token = t" by (simp add: toy_token_def issue_token_def toy_jwt_keys_def ok_or_def)
  moreover have "jwt_decode toy_jwt [] 9 t = Some ?c" using jwt_okD(2) [OF toy_jwt_ok t(1)] by simp
  ultimately show "\<exists>c. verify_token toy_jwt toy_jwt_keys 9 toy_token = Inr (toy_address, c)"
      "bearer_token (Some (''Bearer '' @ toy_token)) = Some toy_token"
    using bearer_header [OF t(2,3)] wallet_new_fixed [OF toy_address_ok]
    by (auto simp: verify_token_def toy_jwt_keys_def)
qed

theorem suspension_lost_witness:
  "auth_user toy_jwt toy_jwt_keys 9 (Some (''Bearer '' @ toy_token))
     (write_cache (suspended_addresses toy_accounts)
        (refresh_suspensions (suspend_row (as_str toy_address) None ''admin'' toy_accounts)))
   = Inr (WalletAddress (as_str toy_address))"
proof -
  have a: "\<not> is_suspended (as_str toy_address) toy_accounts"
      "au_cache toy_accounts = map to_ascii_lowercase (suspended_addresses toy_accounts)"
    by (simp_all add: is_suspended_def suspended_addresses_def toy_accounts_def)
  obtain c where "verify_token toy_jwt toy_jwt_keys 9 toy_token = Inr (WalletAddress (as_str toy_address), c)"
    using toy_token(1) by (cases toy_address) auto
  from suspension_lost [OF a this toy_token(2)] show ?thesis by (simp add: Let_def)
qed


section \<open>Search is containment\<close>

definition found_in :: "string \<Rightarrow> string \<Rightarrow> bool" where
  "found_in q s \<longleftrightarrow> list_ex (\<lambda>k. starts_with (to_ascii_lowercase q) (drop k (to_ascii_lowercase s))) [0..<Suc (length s)]"

lemma lower_Cons: "to_ascii_lowercase (c # s) = ascii_lower_char c # to_ascii_lowercase s"
  by (simp add: to_ascii_lowercase_def)

lemma like_step:
  "like_match (CHR 0x5C # e # p) s = (case s of [] \<Rightarrow> False | d # t \<Rightarrow> ascii_lower_char e = ascii_lower_char d \<and> like_match p t)"
  by simp

lemma like_plain:
  "c \<notin> {CHR 0x5C, CHR ''%'', CHR ''_''} \<Longrightarrow> p \<noteq> [] \<Longrightarrow>
   like_match (c # p) s = (case s of [] \<Rightarrow> False | d # t \<Rightarrow> ascii_lower_char c = ascii_lower_char d \<and> like_match p t)"
  by (cases p) (auto split: list.splits)

lemma like_escaped:
  "like_match (like_escape q @ ''%'') s \<longleftrightarrow> starts_with (to_ascii_lowercase q) (to_ascii_lowercase s)"
proof (induction q arbitrary: s)
  case Nil
  then show ?case by (simp add: like_escape_def to_ascii_lowercase_def starts_with_def)
next
  case (Cons c q)
  have e: "like_escape (c # q) @ ''%''
      = (if c \<in> {CHR 0x5C, CHR ''%'', CHR ''_''} then CHR 0x5C # c # (like_escape q @ ''%'') else c # (like_escape q @ ''%''))"
    by (simp add: like_escape_def)
  have "like_match (like_escape (c # q) @ ''%'') s
      = (case s of [] \<Rightarrow> False | d # t \<Rightarrow> ascii_lower_char c = ascii_lower_char d \<and> like_match (like_escape q @ ''%'') t)"
    unfolding e using like_plain [of c "like_escape q @ ''%''" s] like_step [of c "like_escape q @ ''%''" s] by simp
  then show ?case by (cases s) (auto simp: Cons.IH lower_Cons starts_with_def to_ascii_lowercase_def)
qed

lemma like_percent: "p \<noteq> [] \<Longrightarrow> like_match (CHR ''%'' # p) s \<longleftrightarrow> (\<exists>k \<in> set [0..<Suc (length s)]. like_match p (drop k s))"
  by (cases p) simp_all

lemma like_contains: "like_match (''%'' @ like_escape q @ ''%'') s \<longleftrightarrow> found_in q s"
  using like_percent [of "like_escape q @ ''%''" s]
  by (simp add: like_escaped found_in_def list_ex_iff to_ascii_lowercase_def drop_map del: upt_Suc)

lemma like_prefix:
  assumes "\<forall>c \<in> set p. c \<notin> {CHR 0x5C, CHR ''%'', CHR ''_''}"
  shows "like_match (p @ ''%'') s \<longleftrightarrow> starts_with (to_ascii_lowercase p) (to_ascii_lowercase s)"
proof -
  have "like_escape p = p" using assms by (induction p) (auto simp: like_escape_def)
  then show ?thesis using like_escaped [of p s] by simp
qed

text \<open>C32.  Search is plain containment: whatever the query holds, percent signs and underlines included, the
users found are those whose name or address contains it, letter case of ASCII apart, without service
senders and without anybody who blocks or is blocked by the viewer, by name, as many as the limit allows.\<close>

theorem search_is_containment:
  "search_users rows viewer q limit st =
     take limit (sort_key (\<lambda>(a, u). (ur_username u, a))
       [(a, u) \<leftarrow> rows. (found_in q (ur_username u) \<or> found_in q a)
          \<and> \<not> starts_with webhook_sender_prefix (to_ascii_lowercase a) \<and> \<not> starts_with agent_sender_prefix (to_ascii_lowercase a)
          \<and> (viewer, a) \<notin> set (block_list st) \<and> (a, viewer) \<notin> set (block_list st)])"
proof -
  have p: "like_match (webhook_sender_prefix @ ''%'') a \<longleftrightarrow> starts_with webhook_sender_prefix (to_ascii_lowercase a)"
    "like_match (agent_sender_prefix @ ''%'') a \<longleftrightarrow> starts_with agent_sender_prefix (to_ascii_lowercase a)" for a
    by (subst like_prefix; simp add: webhook_sender_prefix_def agent_sender_prefix_def to_ascii_lowercase_def ascii_lower_char_def char_class_codes)+
  show ?thesis by (simp only: search_users_def Let_def like_contains p block_list_def)
qed

end
