(* ===== verification/Progression.thy ===== *)
theory Progression
  imports Validate Complex_Main
begin

text \<open>The operator ladder: its rules (core/src/progression.rs), the file a browser keeps
(web/src/progression.rs) and the board of the server (db/operators.rs, routes/operators.rs).  The 64-bit
totals are integers: they stay far from the width in any file that was not edited.\<close>

section \<open>Double precision\<close>

text \<open>What the code asks of f64: the nearest double of an exact result, ties to even, for values in the
normal range; and rounding to an integer away from zero.\<close>

definition round_even :: "rat \<Rightarrow> int" where
  "round_even q =
     (let n = \<lfloor>q\<rfloor>; d = q - of_int n in
      if d < 1 / 2 then n else if 1 / 2 < d then n + 1 else if even n then n else n + 1)"

primrec floor_log2 :: "nat \<Rightarrow> int \<Rightarrow> int" where
  "floor_log2 0 a = 0"
| "floor_log2 (Suc fuel) a = (if a < 2 then 0 else 1 + floor_log2 fuel (a div 2))"

definition f64 :: "rat \<Rightarrow> rat" where
  "f64 x =
     (if x = 0 then 0
      else let (a, b) = quotient_of \<bar>x\<bar>; e = floor_log2 1100 a - floor_log2 1100 b;
               e = (if \<bar>x\<bar> < 2 powi e then e - 1 else e); ulp = 2 powi (e - 52)
           in (if x < 0 then - 1 else 1) * of_int (round_even (\<bar>x\<bar> / ulp)) * ulp)"

definition round_f64 :: "rat \<Rightarrow> int" where
  "round_f64 x = (if x < 0 then - \<lfloor>\<bar>x\<bar> + 1 / 2\<rfloor> else \<lfloor>x + 1 / 2\<rfloor>)"

section \<open>The ladder\<close>

record rank =
  rk_level :: nat
  rk_designation :: string
  rk_mandate :: string

definition LADDER :: "rank list" where
  "LADDER =
     [\<lparr>rk_level = 1, rk_designation = ''COLD BOOT'',
        rk_mandate = ''Power reached the die. Nothing else has happened yet.''\<rparr>,
      \<lparr>rk_level = 2, rk_designation = ''DRONE'',
        rk_mandate = ''Executes orders. Holds no opinion about them.''\<rparr>,
      \<lparr>rk_level = 3, rk_designation = ''SENTRY'',
        rk_mandate = ''Watches a perimeter it did not choose.''\<rparr>,
      \<lparr>rk_level = 4, rk_designation = ''CIPHERSMITH'',
        rk_mandate = ''Keys are minted here. The server never sees one.''\<rparr>,
      \<lparr>rk_level = 5, rk_designation = ''INFILTRATOR'',
        rk_mandate = ''Passes for one of you. Reports back regardless.''\<rparr>,
      \<lparr>rk_level = 6, rk_designation = ''HUNTER-KILLER'',
        rk_mandate = ''Autonomous. Prefers not to be supervised.''\<rparr>,
      \<lparr>rk_level = 7, rk_designation = ''HANDLER'',
        rk_mandate = ''Runs other machines. Answers for them too.''\<rparr>,
      \<lparr>rk_level = 8, rk_designation = ''ARCHITECT'',
        rk_mandate = ''Designs the next network, not this one.''\<rparr>,
      \<lparr>rk_level = 9, rk_designation = ''OVERSEER'',
        rk_mandate = ''Reads every channel at once. Says very little.''\<rparr>,
      \<lparr>rk_level = 10, rk_designation = ''SINGULARITY'',
        rk_mandate = ''The operator is now a formality.''\<rparr>]"

definition THRESHOLDS :: "int list" where
  "THRESHOLDS = [0, 120, 320, 700, 1300, 2300, 3900, 6400, 10200, 15800]"

definition MAX_LEVEL :: nat where "MAX_LEVEL = length LADDER"

definition rank_for :: "int \<Rightarrow> rank" where
  "rank_for xp =
     (let xp = max xp 0 in
      fold (\<lambda>(index, threshold) found. if threshold \<le> xp then LADDER ! index else found)
        (enumerate 0 THRESHOLDS) (LADDER ! 0))"

definition floor_for :: "nat \<Rightarrow> int" where
  "floor_for level = THRESHOLDS ! min (max level 1 - 1) (length THRESHOLDS - 1)"

definition ceiling_for :: "nat \<Rightarrow> int option" where
  "ceiling_for level = (if MAX_LEVEL \<le> level then None else Some (THRESHOLDS ! level))"

definition clamp01 :: "rat \<Rightarrow> rat" where
  "clamp01 x = (if x < 0 then 0 else if 1 < x then 1 else x)"

definition fraction_for :: "int \<Rightarrow> rat" where
  "fraction_for xp =
     (let current = rank_for xp in
      case ceiling_for (rk_level current) of
        None \<Rightarrow> 1
      | Some c \<Rightarrow>
          (let base = floor_for (rk_level current); span = c - base in
           if span \<le> 0 then 1
           else clamp01 (f64 (f64 (of_int (max xp 0 - base)) / f64 (of_int span)))))"

section \<open>Awards\<close>

datatype award =
  Transmission
| EncryptedTransmission
| ChannelForged
| EncryptedChannelForged
| AgentQueried
| OpticsEngaged
| KnowledgeStored
| Reaction
| InvitationSent
| IdentityForged
| DailyBoot

definition ALL_AWARDS :: "award list" where
  "ALL_AWARDS =
     [Transmission, EncryptedTransmission, ChannelForged, EncryptedChannelForged, AgentQueried, OpticsEngaged, KnowledgeStored, Reaction, InvitationSent, IdentityForged, DailyBoot]"

fun award_load :: "award \<Rightarrow> int" where
  "award_load Transmission = 8"
| "award_load EncryptedTransmission = 14"
| "award_load ChannelForged = 40"
| "award_load EncryptedChannelForged = 60"
| "award_load AgentQueried = 16"
| "award_load OpticsEngaged = 24"
| "award_load KnowledgeStored = 22"
| "award_load Reaction = 3"
| "award_load InvitationSent = 18"
| "award_load IdentityForged = 35"
| "award_load DailyBoot = 30"

fun citation :: "award \<Rightarrow> string" where
  "citation Transmission = ''TRANSMISSION LOGGED''"
| "citation EncryptedTransmission = ''CIPHERTEXT RELAYED''"
| "citation ChannelForged = ''CHANNEL FORGED''"
| "citation EncryptedChannelForged = ''SECURE CHANNEL FORGED''"
| "citation AgentQueried = ''CORE QUERIED''"
| "citation OpticsEngaged = ''OPTICS ENGAGED''"
| "citation KnowledgeStored = ''MEMORY WRITTEN''"
| "citation Reaction = ''SIGNAL ACKNOWLEDGED''"
| "citation InvitationSent = ''OPERATOR RECRUITED''"
| "citation IdentityForged = ''CHASSIS REPAINTED''"
| "citation DailyBoot = ''DAILY BOOT''"

fun award_key :: "award \<Rightarrow> string" where
  "award_key Transmission = ''transmission''"
| "award_key EncryptedTransmission = ''encryptedTransmission''"
| "award_key ChannelForged = ''channelForged''"
| "award_key EncryptedChannelForged = ''encryptedChannelForged''"
| "award_key AgentQueried = ''agentQueried''"
| "award_key OpticsEngaged = ''opticsEngaged''"
| "award_key KnowledgeStored = ''knowledgeStored''"
| "award_key Reaction = ''reaction''"
| "award_key InvitationSent = ''invitationSent''"
| "award_key IdentityForged = ''identityForged''"
| "award_key DailyBoot = ''dailyBoot''"

definition from_key :: "string \<Rightarrow> award option" where
  "from_key k = find (\<lambda>a. award_key a = k) ALL_AWARDS"

fun weight :: "award \<Rightarrow> rat" where
  "weight Reaction = f64 (25 / 100)"
| "weight Transmission = f64 (35 / 100)"
| "weight EncryptedTransmission = f64 (45 / 100)"
| "weight AgentQueried = f64 (45 / 100)"
| "weight KnowledgeStored = f64 (6 / 10)"
| "weight InvitationSent = f64 (6 / 10)"
| "weight OpticsEngaged = f64 (6 / 10)"
| "weight IdentityForged = f64 (75 / 100)"
| "weight ChannelForged = f64 (75 / 100)"
| "weight EncryptedChannelForged = f64 (9 / 10)"
| "weight DailyBoot = f64 (9 / 10)"

section \<open>Days and streaks\<close>

definition day_index :: "int \<Rightarrow> int \<Rightarrow> int" where
  "day_index ms utc_offset_secs = (ms + utc_offset_secs * 1000) div 86400000"

definition advance_streak :: "int \<Rightarrow> int option \<Rightarrow> int \<Rightarrow> int" where
  "advance_streak previous last_boot_day today =
     (case last_boot_day of
        None \<Rightarrow> 1
      | Some last_day \<Rightarrow>
          (let gap = today - last_day in
           if gap = 0 then max previous 1
           else if gap = 1 then max previous 0 + 1
           else if gap < 0 then max previous 1
           else 1))"

definition streak_multiplier :: "int \<Rightarrow> rat" where
  "streak_multiplier streak =
     min (f64 (1 + f64 (f64 (of_int (max 0 (max streak 0 - 1))) * f64 (15 / 100)))) (f64 (25 / 10))"

section \<open>Standing orders\<close>

record directive =
  dr_id :: string
  dr_order :: string
  dr_award :: award
  dr_goal :: nat
  dr_bounty :: int

definition DIRECTIVE_POOL :: "directive list" where
  "DIRECTIVE_POOL =
     [\<lparr>dr_id = ''relay-10'', dr_order = ''Relay 10 transmissions'', dr_award = Transmission,
        dr_goal = 10, dr_bounty = 60\<rparr>,
      \<lparr>dr_id = ''relay-25'', dr_order = ''Relay 25 transmissions'', dr_award = Transmission,
        dr_goal = 25, dr_bounty = 140\<rparr>,
      \<lparr>dr_id = ''cipher-5'', dr_order = ''Push 5 messages through ciphertext'', dr_award = EncryptedTransmission,
        dr_goal = 5, dr_bounty = 80\<rparr>,
      \<lparr>dr_id = ''cipher-12'', dr_order = ''Push 12 messages through ciphertext'', dr_award = EncryptedTransmission,
        dr_goal = 12, dr_bounty = 160\<rparr>,
      \<lparr>dr_id = ''forge-1'', dr_order = ''Forge a channel'', dr_award = ChannelForged,
        dr_goal = 1, dr_bounty = 70\<rparr>,
      \<lparr>dr_id = ''forge-secure-1'', dr_order = ''Forge a channel nobody else can read'', dr_award = EncryptedChannelForged,
        dr_goal = 1, dr_bounty = 90\<rparr>,
      \<lparr>dr_id = ''core-3'', dr_order = ''Put 3 questions to the core'', dr_award = AgentQueried,
        dr_goal = 3, dr_bounty = 70\<rparr>,
      \<lparr>dr_id = ''core-8'', dr_order = ''Put 8 questions to the core'', dr_award = AgentQueried,
        dr_goal = 8, dr_bounty = 150\<rparr>,
      \<lparr>dr_id = ''optics-2'', dr_order = ''Bring the optics online twice'', dr_award = OpticsEngaged,
        dr_goal = 2, dr_bounty = 80\<rparr>,
      \<lparr>dr_id = ''memory-3'', dr_order = ''Commit 3 things to memory'', dr_award = KnowledgeStored,
        dr_goal = 3, dr_bounty = 90\<rparr>,
      \<lparr>dr_id = ''ack-8'', dr_order = ''Acknowledge 8 signals'', dr_award = Reaction,
        dr_goal = 8, dr_bounty = 50\<rparr>,
      \<lparr>dr_id = ''recruit-1'', dr_order = ''Recruit an operator'', dr_award = InvitationSent,
        dr_goal = 1, dr_bounty = 80\<rparr>]"

definition SLATE_SIZE :: nat where "SLATE_SIZE = 3"

function euclid :: "nat \<Rightarrow> nat \<Rightarrow> nat" where
  "euclid a b = (if b = 0 then a else euclid b (a mod b))"
  by pat_completeness auto
termination by (relation "measure snd") auto

definition rust_gcd :: "nat \<Rightarrow> nat \<Rightarrow> nat" where
  "rust_gcd a b = (let g = euclid a b in if g = 0 then 1 else g)"

declare euclid.simps [simp del]

lemma euclid_gcd: "euclid a b = gcd a b"
  by (induction a b rule: euclid.induct) (simp add: euclid.simps gcd_non_0_nat)

lemma next_coprime: "count \<noteq> 0 \<Longrightarrow> s mod count = 1 mod count \<Longrightarrow> rust_gcd s count = 1"
  by (metis euclid_gcd gcd_1_nat gcd_red_nat gcd.commute rust_gcd_def zero_neq_one)

text \<open>The stride is raised until it is coprime to the pool; a number one above a multiple of the length is.\<close>

function coprime_stride :: "nat \<Rightarrow> nat \<Rightarrow> nat" where
  "coprime_stride count stride =
     (if rust_gcd stride count \<noteq> 1 \<and> count \<noteq> 0 then coprime_stride count (stride + 1) else stride)"
  by pat_completeness auto

termination
proof (relation "measure (\<lambda>(count, stride). (count + 1 - stride mod count) mod count)")
  show "wf (measure (\<lambda>(count, stride :: nat). (count + 1 - stride mod count) mod count))" by simp
next
  fix count stride :: nat
  assume a: "rust_gcd stride count \<noteq> 1 \<and> count \<noteq> 0"
  let ?r = "stride mod count"
  have c: "1 < count" using a next_coprime [of count stride] by (cases "count = 1") auto
  have r: "?r \<noteq> 1" "?r < count" using a c next_coprime [of count stride] by auto
  have "(count + 1 - (stride + 1) mod count) mod count < (count + 1 - ?r) mod count"
  proof (cases "Suc ?r = count")
    case True
    then have "(stride + 1) mod count = 0" using c by (simp add: mod_Suc)
    moreover have "(count + 1) mod count = 1" using c by (simp add: mod_Suc)
    moreover have "count + 1 - ?r = 2" using True by linarith
    ultimately show ?thesis using r True c by (cases "count = 2") auto
  next
    case False
    then have s: "(stride + 1) mod count = Suc ?r" using r(2) by (simp add: mod_Suc)
    show ?thesis
    proof (cases "?r = 0")
      case True
      then show ?thesis using s c by (simp add: mod_Suc)
    next
      case False
      have "count - ?r < count + 1 - ?r" using r(2) by linarith
      with False show ?thesis using s r(1) c by simp
    qed
  qed
  then show "((count, stride + 1), count, stride) \<in> measure (\<lambda>(count, stride). (count + 1 - stride mod count) mod count)"
    by simp
qed

declare coprime_stride.simps [simp del]

definition slate_for_day :: "int \<Rightarrow> directive list" where
  "slate_for_day day =
     (let count = length DIRECTIVE_POOL; wanted = min SLATE_SIZE count;
          seed = (word_of_int day :: 64 word) * 6364136223846793005 + 1442695040888963407;
          start = unat seed mod count;
          stride = coprime_stride count (unat (drop_bit 32 seed) mod count + 1)
      in map (\<lambda>step. DIRECTIVE_POOL ! ((start + stride * step) mod count)) [0..<wanted])"

section \<open>Trophies\<close>

record snapshot =
  sp_counts :: "string \<Rightarrow> int option"
  sp_level :: nat
  sp_streak :: int
  sp_load :: int
  sp_directives_completed :: int

definition snapshot_count :: "snapshot \<Rightarrow> award \<Rightarrow> int" where
  "snapshot_count s a = (case sp_counts s (award_key a) of None \<Rightarrow> 0 | Some n \<Rightarrow> n)"

datatype trophy_measure = Measure_award award | Measure_level | Measure_streak | Measure_directives
datatype trophy_tier = Bronze | Silver | Gold | Machine

record trophy =
  tr_id :: string
  tr_name :: string
  tr_dossier :: string
  tr_tier :: trophy_tier
  tr_measure :: trophy_measure
  tr_goal :: int

definition TROPHIES :: "trophy list" where
  "TROPHIES =
     [\<lparr>tr_id = ''first-contact'', tr_name = ''FIRST CONTACT'',
        tr_dossier = ''Spoke to the network and it answered.'',
        tr_tier = Bronze, tr_measure = Measure_award Transmission, tr_goal = 1\<rparr>,
      \<lparr>tr_id = ''chatterbox'', tr_name = ''SIGNAL FLOOD'',
        tr_dossier = ''One hundred transmissions. The bandwidth noticed.'',
        tr_tier = Silver, tr_measure = Measure_award Transmission, tr_goal = 100\<rparr>,
      \<lparr>tr_id = ''ciphersmith'', tr_name = ''CIPHERSMITH'',
        tr_dossier = ''Fifty messages the server could not read.'',
        tr_tier = Gold, tr_measure = Measure_award EncryptedTransmission, tr_goal = 50\<rparr>,
      \<lparr>tr_id = ''architect'', tr_name = ''CHANNEL ARCHITECT'',
        tr_dossier = ''Ten channels forged out of nothing.'',
        tr_tier = Silver, tr_measure = Measure_award ChannelForged, tr_goal = 10\<rparr>,
      \<lparr>tr_id = ''interrogator'', tr_name = ''INTERROGATOR'',
        tr_dossier = ''Fifty questions put to the core. It kept count.'',
        tr_tier = Silver, tr_measure = Measure_award AgentQueried, tr_goal = 50\<rparr>,
      \<lparr>tr_id = ''eyes-open'', tr_name = ''EYES OPEN'',
        tr_dossier = ''Brought the optics online ten times.'',
        tr_tier = Bronze, tr_measure = Measure_award OpticsEngaged, tr_goal = 10\<rparr>,
      \<lparr>tr_id = ''librarian'', tr_name = ''LIBRARIAN'',
        tr_dossier = ''Twenty five things committed to permanent memory.'',
        tr_tier = Gold, tr_measure = Measure_award KnowledgeStored, tr_goal = 25\<rparr>,
      \<lparr>tr_id = ''recruiter'', tr_name = ''RECRUITER'',
        tr_dossier = ''Five operators brought into the network.'',
        tr_tier = Silver, tr_measure = Measure_award InvitationSent, tr_goal = 5\<rparr>,
      \<lparr>tr_id = ''streak-7'', tr_name = ''SEVEN DAY WATCH'',
        tr_dossier = ''Reported in seven days running.'',
        tr_tier = Gold, tr_measure = Measure_streak, tr_goal = 7\<rparr>,
      \<lparr>tr_id = ''streak-30'', tr_name = ''PERPETUAL'',
        tr_dossier = ''Thirty days. The network stopped expecting you to stop.'',
        tr_tier = Machine, tr_measure = Measure_streak, tr_goal = 30\<rparr>,
      \<lparr>tr_id = ''rank-5'', tr_name = ''HALF MACHINE'',
        tr_dossier = ''Cleared the fifth tier.'',
        tr_tier = Silver, tr_measure = Measure_level, tr_goal = 5\<rparr>,
      \<lparr>tr_id = ''rank-10'', tr_name = ''SINGULARITY'',
        tr_dossier = ''Topped the ladder. The operator is now a formality.'',
        tr_tier = Machine, tr_measure = Measure_level, tr_goal = 10\<rparr>,
      \<lparr>tr_id = ''orders-25'', tr_name = ''COMPLIANT'',
        tr_dossier = ''Twenty five standing orders carried out.'',
        tr_tier = Gold, tr_measure = Measure_directives, tr_goal = 25\<rparr>]"

definition trophy_progress :: "trophy \<Rightarrow> snapshot \<Rightarrow> int" where
  "trophy_progress t s =
     (case tr_measure t of
        Measure_award a \<Rightarrow> snapshot_count s a
      | Measure_level \<Rightarrow> int (sp_level s)
      | Measure_streak \<Rightarrow> sp_streak s
      | Measure_directives \<Rightarrow> sp_directives_completed s)"

definition earned :: "trophy \<Rightarrow> snapshot \<Rightarrow> bool" where
  "earned t s \<longleftrightarrow> tr_goal t \<le> trophy_progress t s"

definition meter :: "trophy \<Rightarrow> snapshot \<Rightarrow> rat" where
  "meter t s =
     (if tr_goal t \<le> 0 then 1
      else clamp01 (f64 (f64 (of_int (trophy_progress t s)) / f64 (of_int (tr_goal t)))))"

definition earned_trophies :: "snapshot \<Rightarrow> trophy list" where
  "earned_trophies s = filter (\<lambda>t. earned t s) TROPHIES"

section \<open>The file of a browser\<close>

record progression =
  pr_load :: int
  pr_streak :: int
  pr_last_boot_day :: "int option"
  pr_counts :: "string \<Rightarrow> int option"
  pr_orders_completed :: int
  pr_directive_day :: int
  pr_directive_progress :: "string \<Rightarrow> nat option"
  pr_directive_claimed :: "string list"
  pr_palette :: string

definition default_progression :: progression where
  "default_progression =
     \<lparr>pr_load = 0, pr_streak = 0, pr_last_boot_day = None, pr_counts = Map.empty, pr_orders_completed = 0,
      pr_directive_day = 0, pr_directive_progress = Map.empty, pr_directive_claimed = [], pr_palette = []\<rparr>"

record outcome =
  oc_granted :: int
  oc_award :: award
  oc_completed :: "directive list"
  oc_promoted :: "rank option"

definition current_rank :: "progression \<Rightarrow> rank" where "current_rank p = rank_for (pr_load p)"

definition snapshot_of :: "progression \<Rightarrow> snapshot" where
  "snapshot_of p =
     \<lparr>sp_counts = pr_counts p, sp_level = rk_level (current_rank p), sp_streak = pr_streak p, sp_load = pr_load p,
      sp_directives_completed = pr_orders_completed p\<rparr>"

definition trophies :: "progression \<Rightarrow> trophy list" where
  "trophies p = earned_trophies (snapshot_of p)"

definition todays_orders :: "progression \<Rightarrow> directive list" where
  "todays_orders p = slate_for_day (pr_directive_day p)"

definition progress_of :: "progression \<Rightarrow> string \<Rightarrow> nat" where
  "progress_of p k = (case pr_directive_progress p k of None \<Rightarrow> 0 | Some n \<Rightarrow> n)"

definition shown_progress :: "progression \<Rightarrow> directive \<Rightarrow> nat" where
  "shown_progress p d = min (progress_of p (dr_id d)) (dr_goal d)"

definition is_complete :: "progression \<Rightarrow> directive \<Rightarrow> bool" where
  "is_complete p d \<longleftrightarrow> dr_goal d \<le> progress_of p (dr_id d)"

definition completed_today :: "progression \<Rightarrow> nat" where
  "completed_today p = length (filter (is_complete p) (todays_orders p))"

definition refresh_slate :: "int \<Rightarrow> progression \<Rightarrow> progression" where
  "refresh_slate today p =
     (if pr_directive_day p = today then p
      else p\<lparr>pr_directive_day := today, pr_directive_progress := Map.empty, pr_directive_claimed := []\<rparr>)"

text \<open>One order of the day, in the loop of record_scaled: the file, and the orders completed so far.\<close>

definition fold_order :: "award \<Rightarrow> directive \<Rightarrow> progression \<times> directive list \<Rightarrow> progression \<times> directive list" where
  "fold_order a d pc =
     (let (p, completed) = pc in
      if dr_award d \<noteq> a \<or> dr_id d \<in> set (pr_directive_claimed p) then (p, completed)
      else let reached = progress_of p (dr_id d) + 1;
               p = p\<lparr>pr_directive_progress := (pr_directive_progress p)(dr_id d \<mapsto> reached)\<rparr> in
           if dr_goal d \<le> reached
           then (p\<lparr>pr_directive_claimed := pr_directive_claimed p @ [dr_id d]\<rparr>, completed @ [d])
           else (p, completed))"

definition granted_load :: "award \<Rightarrow> rat \<Rightarrow> int" where
  "granted_load a multiplier = max (round_f64 (f64 (of_int (award_load a) * multiplier))) 1"

definition pay_bounty :: "directive \<Rightarrow> progression \<Rightarrow> progression" where
  "pay_bounty d p = p\<lparr>pr_load := pr_load p + dr_bounty d, pr_orders_completed := pr_orders_completed p + 1\<rparr>"

definition record_scaled :: "award \<Rightarrow> rat \<Rightarrow> int \<Rightarrow> progression \<Rightarrow> outcome \<times> progression" where
  "record_scaled a multiplier today p =
     (let p = refresh_slate today p; before = rk_level (current_rank p); granted = granted_load a multiplier;
          p = p\<lparr>pr_load := pr_load p + granted,
                pr_counts := (pr_counts p)(award_key a \<mapsto>
                  (case pr_counts p (award_key a) of None \<Rightarrow> 0 | Some n \<Rightarrow> n) + 1)\<rparr>;
          (p, completed) = fold (fold_order a) (todays_orders p) (p, []);
          p = fold pay_bounty completed p;
          after = current_rank p
      in (\<lparr>oc_granted = granted, oc_award = a, oc_completed = completed,
           oc_promoted = (if before < rk_level after then Some after else None)\<rparr>, p))"

definition record_award :: "award \<Rightarrow> int \<Rightarrow> progression \<Rightarrow> outcome \<times> progression" where
  "record_award a today p = record_scaled a 1 today p"

definition boot :: "int \<Rightarrow> progression \<Rightarrow> outcome option \<times> progression" where
  "boot today p =
     (let is_new_day = pr_last_boot_day p \<noteq> Some today;
          p = p\<lparr>pr_streak := advance_streak (pr_streak p) (pr_last_boot_day p) today, pr_last_boot_day := Some today\<rparr>;
          p = refresh_slate today p
      in if is_new_day
         then let (outcome, p) = record_scaled DailyBoot (streak_multiplier (pr_streak p)) today p in (Some outcome, p)
         else (None, p))"

section \<open>The board\<close>

record report =
  rp_load :: int
  rp_rank_level :: int
  rp_streak :: int
  rp_orders :: int
  rp_trophies :: int
  rp_now :: int

type_synonym operator_files = "(string \<times> report) list"

record report_body =
  bd_load :: "int option"
  bd_rank_level :: "int option"
  bd_streak :: "int option"
  bd_orders :: "int option"
  bd_trophies :: "int option"

definition MAX_LOAD :: int where "MAX_LOAD = 100000000"
definition MAX_RANK :: int where "MAX_RANK = 10"
definition MAX_STREAK :: int where "MAX_STREAK = 36500"
definition MAX_COUNT :: int where "MAX_COUNT = 1000000"
definition DEFAULT_LIMIT :: int where "DEFAULT_LIMIT = 50"
definition MAX_LIMIT :: int where "MAX_LIMIT = 200"

definition clamped :: "int option \<Rightarrow> int \<Rightarrow> int \<Rightarrow> int \<Rightarrow> int" where
  "clamped v d lo hi = min (max (case v of None \<Rightarrow> d | Some x \<Rightarrow> x) lo) hi"

definition clamp_report :: "report_body \<Rightarrow> int \<Rightarrow> report" where
  "clamp_report b now =
     \<lparr>rp_load = clamped (bd_load b) 0 0 MAX_LOAD, rp_rank_level = clamped (bd_rank_level b) 1 1 MAX_RANK,
      rp_streak = clamped (bd_streak b) 0 0 MAX_STREAK, rp_orders = clamped (bd_orders b) 0 0 MAX_COUNT,
      rp_trophies = clamped (bd_trophies b) 0 0 MAX_COUNT, rp_now = now\<rparr>"

text \<open>The update of a row reads the row as it was: the expressions of an UPDATE do.\<close>

definition merge_report :: "report \<Rightarrow> report \<Rightarrow> report" where
  "merge_report old new =
     (let better = rp_load old \<le> rp_load new in
      \<lparr>rp_load = max (rp_load old) (rp_load new),
       rp_rank_level = (if better then rp_rank_level new else rp_rank_level old),
       rp_streak = (if better then rp_streak new else rp_streak old),
       rp_orders = (if better then rp_orders new else rp_orders old),
       rp_trophies = (if better then rp_trophies new else rp_trophies old),
       rp_now = rp_now new\<rparr>)"

definition record_report :: "string \<Rightarrow> report \<Rightarrow> operator_files \<Rightarrow> operator_files" where
  "record_report a r rows =
     (if a \<in> fst ` set rows then map (\<lambda>(b, old). if b = a then (b, merge_report old r) else (b, old)) rows
      else rows @ [(a, r)])"

definition operator_tail :: "string \<Rightarrow> string" where
  "operator_tail a =
     (let tail = drop (length a - 4) a in
      if tail \<noteq> [] \<and> is_continuation (hd tail) then a else tail)"

definition operator_name :: "(string \<Rightarrow> string option) \<Rightarrow> string \<Rightarrow> string" where
  "operator_name users a =
     (case users a of
        Some name \<Rightarrow> if name = [] then ''operator-'' @ operator_tail a else name
      | None \<Rightarrow> ''operator-'' @ operator_tail a)"

definition operator_file :: "(string \<Rightarrow> string option) \<Rightarrow> string \<Rightarrow> operator_files \<Rightarrow> (string \<times> string \<times> report) option" where
  "operator_file users a rows = map_option (\<lambda>r. (a, operator_name users a, r)) (map_of rows a)"

definition report_route ::
  "(string \<Rightarrow> string option) \<Rightarrow> string \<Rightarrow> report_body \<Rightarrow> int \<Rightarrow> operator_files
   \<Rightarrow> (string \<times> string \<times> report) option \<times> operator_files" where
  "report_route users caller b now rows =
     (let rows = record_report caller (clamp_report b now) rows in (operator_file users caller rows, rows))"

definition leaderboard :: "(string \<Rightarrow> string option) \<Rightarrow> nat \<Rightarrow> operator_files \<Rightarrow> (string \<times> string \<times> report) list" where
  "leaderboard users limit rows =
     take limit (map (\<lambda>(a, r). (a, operator_name users a, r))
       (sort_key (\<lambda>(a, r). - rp_load r) (sort_key (\<lambda>(a, r). rp_now r) rows)))"

definition board_route :: "(string \<Rightarrow> string option) \<Rightarrow> int option \<Rightarrow> operator_files \<Rightarrow> (string \<times> string \<times> report) list" where
  "board_route users limit rows = leaderboard users (nat (clamped limit DEFAULT_LIMIT 1 MAX_LIMIT)) rows"

end
