(* ===== verification/Progression_Spec.thy ===== *)
theory Progression_Spec
  imports Progression
begin

text \<open>What the ladder promises: a rank for every load, three orders for every day, each paid once, a board of
best reports; and what a clock that runs backwards earns.\<close>

section \<open>The rank of a load\<close>

theorem rank_exact:
  "let r = rank_for xp; n = rk_level r in
     1 \<le> n \<and> n \<le> MAX_LEVEL \<and> floor_for n \<le> max xp 0 \<and> (case ceiling_for n of None \<Rightarrow> n = MAX_LEVEL | Some c \<Rightarrow> xp < c)"
proof -
  have f: "fold g (enumerate k (x # xs)) s = fold g (enumerate (Suc k) xs) (g (k, x) s)" for g :: "nat \<times> int \<Rightarrow> rank \<Rightarrow> rank" and k x xs s
    by simp
  consider "xp < 120" | "120 \<le> xp" "xp < 320" | "320 \<le> xp" "xp < 700" | "700 \<le> xp" "xp < 1300" | "1300 \<le> xp" "xp < 2300"
    | "2300 \<le> xp" "xp < 3900" | "3900 \<le> xp" "xp < 6400" | "6400 \<le> xp" "xp < 10200" | "10200 \<le> xp" "xp < 15800" | "15800 \<le> xp"
    by linarith
  then show ?thesis
    by cases (simp_all add: rank_for_def Let_def THRESHOLDS_def LADDER_def MAX_LEVEL_def floor_for_def ceiling_for_def max_def)
qed

section \<open>The orders of a day\<close>

lemma strides: "s \<in> set [1..<13] \<Longrightarrow> coprime_stride 12 s \<in> {1, 5, 7, 11, 13}"
proof -
  have "\<forall>s \<in> set [1..<13]. coprime_stride 12 s \<in> {1, 5, 7, 11, 13}" by code_simp
  then show "s \<in> set [1..<13] \<Longrightarrow> ?thesis" by blast
qed

lemma pool_distinct: "distinct (map dr_id DIRECTIVE_POOL)" "length DIRECTIVE_POOL = 12"
  by (simp_all add: DIRECTIVE_POOL_def)

lemma spread:
  assumes "s \<in> {1, 5, 7, 11, 13}" and "a < 12"
  shows "distinct (map (\<lambda>k. (a + s * k) mod 12) [0, 1, 2 :: nat])"
proof -
  have "\<forall>a \<in> set [0..<12]. \<forall>s \<in> set [1, 5, 7, 11, 13]. distinct (map (\<lambda>k. (a + s * k) mod 12) [0, 1, 2 :: nat])" by code_simp
  moreover have "a \<in> set [0..<12]" "s \<in> set [1, 5, 7, 11, 13]" using assms by auto
  ultimately show ?thesis by blast
qed

text \<open>C37.  Every day has its orders: for any day, the past included, the search for a stride ends and the
slate is three orders of the pool with three different ids.\<close>

theorem slate_of_three:
  "length (slate_for_day day) = 3 \<and> distinct (map dr_id (slate_for_day day)) \<and> set (slate_for_day day) \<subseteq> set DIRECTIVE_POOL"
proof -
  let ?seed = "(word_of_int day :: 64 word) * 6364136223846793005 + 1442695040888963407"
  let ?start = "unat ?seed mod 12" and ?stride = "coprime_stride 12 (unat (drop_bit 32 ?seed) mod 12 + 1)"
  have s: "slate_for_day day = map (\<lambda>k. DIRECTIVE_POOL ! ((?start + ?stride * k) mod 12)) [0, 1, 2]"
    by (simp add: slate_for_day_def Let_def pool_distinct(2) SLATE_SIZE_def numeral_3_eq_3 numeral_2_eq_2)
  have "?stride \<in> {1, 5, 7, 11, 13}" by (rule strides) simp
  moreover have "?start < 12" by simp
  ultimately have d: "distinct (map (\<lambda>k. (?start + ?stride * k) mod 12) [0, 1, 2])" by (rule spread)
  have "distinct (map (\<lambda>i. map dr_id DIRECTIVE_POOL ! i) (map (\<lambda>k. (?start + ?stride * k) mod 12) [0, 1, 2]))"
    using d by (simp add: nth_eq_iff_index_eq [OF pool_distinct(1)] pool_distinct(2) del: nth_map)
  then show ?thesis using s pool_distinct(2) by simp
qed


section \<open>What a record does\<close>

lemma fold_orders:
  assumes "fold (fold_order a) ds (p, c) = (p', c')"
  shows "\<exists>new. c' = c @ new \<and> pr_directive_claimed p' = pr_directive_claimed p @ map dr_id new
    \<and> set (map dr_id new) \<inter> set (pr_directive_claimed p) = {} \<and> distinct (map dr_id new) \<and> set new \<subseteq> set ds
    \<and> pr_load p' = pr_load p \<and> pr_counts p' = pr_counts p \<and> pr_orders_completed p' = pr_orders_completed p
    \<and> pr_directive_day p' = pr_directive_day p \<and> pr_streak p' = pr_streak p \<and> pr_last_boot_day p' = pr_last_boot_day p"
  using assms
proof (induction ds arbitrary: p c)
  case Nil
  then show ?case by simp
next
  case (Cons d ds)
  obtain p1 c1 where 1: "fold_order a d (p, c) = (p1, c1)" by (cases "fold_order a d (p, c)")
  with Cons.prems have "fold (fold_order a) ds (p1, c1) = (p', c')" by simp
  from Cons.IH [OF this] obtain new where n: "c' = c1 @ new" "pr_directive_claimed p' = pr_directive_claimed p1 @ map dr_id new"
      "set (map dr_id new) \<inter> set (pr_directive_claimed p1) = {}" "distinct (map dr_id new)" "set new \<subseteq> set ds"
      "pr_load p' = pr_load p1 \<and> pr_counts p' = pr_counts p1 \<and> pr_orders_completed p' = pr_orders_completed p1
       \<and> pr_directive_day p' = pr_directive_day p1 \<and> pr_streak p' = pr_streak p1 \<and> pr_last_boot_day p' = pr_last_boot_day p1"
    by auto
  consider "c1 = c" "pr_directive_claimed p1 = pr_directive_claimed p"
    | "c1 = c @ [d]" "pr_directive_claimed p1 = pr_directive_claimed p @ [dr_id d]" "dr_id d \<notin> set (pr_directive_claimed p)"
    using 1 by (auto simp: fold_order_def Let_def split: if_splits)
  moreover have same: "pr_load p1 = pr_load p \<and> pr_counts p1 = pr_counts p \<and> pr_orders_completed p1 = pr_orders_completed p
       \<and> pr_directive_day p1 = pr_directive_day p \<and> pr_streak p1 = pr_streak p \<and> pr_last_boot_day p1 = pr_last_boot_day p"
    using 1 by (auto simp: fold_order_def Let_def split: if_splits)
  ultimately show ?case
  proof cases
    case 1
    then show ?thesis using n same by (intro exI [of _ new]) auto
  next
    case 2
    then show ?thesis using n same by (intro exI [of _ "d # new"]) auto
  qed
qed

lemma fold_bounties:
  "pr_load (fold pay_bounty ds p) = pr_load p + sum_list (map dr_bounty ds)"
  "pr_orders_completed (fold pay_bounty ds p) = pr_orders_completed p + int (length ds)"
  "pr_directive_claimed (fold pay_bounty ds p) = pr_directive_claimed p" "pr_counts (fold pay_bounty ds p) = pr_counts p"
  "pr_directive_day (fold pay_bounty ds p) = pr_directive_day p" "pr_streak (fold pay_bounty ds p) = pr_streak p"
  "pr_last_boot_day (fold pay_bounty ds p) = pr_last_boot_day p"
  by (induction ds arbitrary: p) (simp_all add: pay_bounty_def)

definition claimed_on :: "int \<Rightarrow> progression \<Rightarrow> string set" where
  "claimed_on day p = (if pr_directive_day p = day then set (pr_directive_claimed p) else {})"

definition times_earned :: "award \<Rightarrow> progression \<Rightarrow> int" where
  "times_earned a p = (case pr_counts p (award_key a) of None \<Rightarrow> 0 | Some n \<Rightarrow> n)"

lemma award_key_inject: "award_key a = award_key b \<longleftrightarrow> a = b"
  by (cases a; cases b) simp_all

lemma recorded:
  assumes "record_scaled a m today p = (oc, p')"
  shows "oc_granted oc = granted_load a m" "oc_award oc = a"
    "pr_load p' = pr_load p + oc_granted oc + sum_list (map dr_bounty (oc_completed oc))"
    "times_earned b p' = times_earned b p + (if b = a then 1 else 0)"
    "pr_orders_completed p' = pr_orders_completed p + int (length (oc_completed oc))"
    "pr_directive_day p' = today" "pr_streak p' = pr_streak p" "pr_last_boot_day p' = pr_last_boot_day p"
    "claimed_on today p' = claimed_on today p \<union> dr_id ` set (oc_completed oc)"
    "distinct (map dr_id (oc_completed oc))" "dr_id ` set (oc_completed oc) \<inter> claimed_on today p = {}"
    "set (oc_completed oc) \<subseteq> set (slate_for_day today)"
proof -
  let ?p1 = "refresh_slate today p"
  let ?p2 = "?p1\<lparr>pr_load := pr_load ?p1 + granted_load a m,
      pr_counts := (pr_counts ?p1)(award_key a \<mapsto> (case pr_counts ?p1 (award_key a) of None \<Rightarrow> 0 | Some n \<Rightarrow> n) + 1)\<rparr>"
  obtain p3 completed where f: "fold (fold_order a) (todays_orders ?p2) (?p2, []) = (p3, completed)"
    by (cases "fold (fold_order a) (todays_orders ?p2) (?p2, [])")
  from fold_orders [OF f] have n: "pr_directive_claimed p3 = pr_directive_claimed ?p2 @ map dr_id completed"
      "set (map dr_id completed) \<inter> set (pr_directive_claimed ?p2) = {}" "distinct (map dr_id completed)"
      "set completed \<subseteq> set (todays_orders ?p2)" "pr_load p3 = pr_load ?p2" "pr_counts p3 = pr_counts ?p2"
      "pr_orders_completed p3 = pr_orders_completed ?p2" "pr_directive_day p3 = pr_directive_day ?p2"
      "pr_streak p3 = pr_streak ?p2" "pr_last_boot_day p3 = pr_last_boot_day ?p2"
    by auto
  have r: "pr_directive_day ?p1 = today" "pr_load ?p1 = pr_load p" "pr_counts ?p1 = pr_counts p" "pr_streak ?p1 = pr_streak p"
      "pr_orders_completed ?p1 = pr_orders_completed p" "pr_last_boot_day ?p1 = pr_last_boot_day p"
      "set (pr_directive_claimed ?p1) = claimed_on today p"
    by (auto simp: refresh_slate_def claimed_on_def)
  have o: "oc_granted oc = granted_load a m" "oc_award oc = a" "oc_completed oc = completed" "p' = fold pay_bounty completed p3"
    using assms f by (auto simp: record_scaled_def Let_def)
  show "oc_granted oc = granted_load a m" "oc_award oc = a"
    "pr_load p' = pr_load p + oc_granted oc + sum_list (map dr_bounty (oc_completed oc))"
    "pr_orders_completed p' = pr_orders_completed p + int (length (oc_completed oc))"
    "pr_directive_day p' = today" "pr_streak p' = pr_streak p" "pr_last_boot_day p' = pr_last_boot_day p"
    "distinct (map dr_id (oc_completed oc))"
    using o n r by (simp_all add: fold_bounties)
  show "times_earned b p' = times_earned b p + (if b = a then 1 else 0)"
    using o n r by (simp add: fold_bounties times_earned_def award_key_inject)
  show "claimed_on today p' = claimed_on today p \<union> dr_id ` set (oc_completed oc)"
    using o n r by (auto simp: fold_bounties claimed_on_def)
  show "dr_id ` set (oc_completed oc) \<inter> claimed_on today p = {}" using o n(2) r(7) by auto
  show "set (oc_completed oc) \<subseteq> set (slate_for_day today)" using o n(4) r(1) by (simp add: todays_orders_def)
qed


section \<open>A run of deeds\<close>

datatype deed = Record_deed award int | Boot_deed int

fun deed_day :: "deed \<Rightarrow> int" where
  "deed_day (Record_deed a day) = day"
| "deed_day (Boot_deed day) = day"

fun perform :: "deed \<Rightarrow> progression \<Rightarrow> outcome option \<times> progression" where
  "perform (Record_deed a day) p = (let (oc, p) = record_award a day p in (Some oc, p))"
| "perform (Boot_deed day) p = boot day p"

fun perform_all :: "deed list \<Rightarrow> progression \<Rightarrow> (int \<times> outcome) list \<times> progression" where
  "perform_all [] p = ([], p)"
| "perform_all (d # ds) p =
     (let (oc, p) = perform d p; (later, p) = perform_all ds p
      in ((case oc of None \<Rightarrow> [] | Some oc \<Rightarrow> [(deed_day d, oc)]) @ later, p))"

definition paid :: "(int \<times> outcome) list \<Rightarrow> (int \<times> string) list" where
  "paid ocs = concat (map (\<lambda>(day, oc). map (\<lambda>d. (day, dr_id d)) (oc_completed oc)) ocs)"

lemma performed:
  assumes "perform d p = (oc, p')"
  shows "pr_directive_day p' = deed_day d"
    "case oc of
       None \<Rightarrow> pr_load p' = pr_load p \<and> pr_orders_completed p' = pr_orders_completed p
               \<and> claimed_on (deed_day d) p' = claimed_on (deed_day d) p
     | Some x \<Rightarrow> pr_load p' = pr_load p + oc_granted x + sum_list (map dr_bounty (oc_completed x))
         \<and> pr_orders_completed p' = pr_orders_completed p + int (length (oc_completed x))
         \<and> claimed_on (deed_day d) p' = claimed_on (deed_day d) p \<union> dr_id ` set (oc_completed x)
         \<and> distinct (map dr_id (oc_completed x)) \<and> dr_id ` set (oc_completed x) \<inter> claimed_on (deed_day d) p = {}"
proof -
  have "pr_directive_day p' = deed_day d \<and> (case oc of
       None \<Rightarrow> pr_load p' = pr_load p \<and> pr_orders_completed p' = pr_orders_completed p
               \<and> claimed_on (deed_day d) p' = claimed_on (deed_day d) p
     | Some x \<Rightarrow> pr_load p' = pr_load p + oc_granted x + sum_list (map dr_bounty (oc_completed x))
         \<and> pr_orders_completed p' = pr_orders_completed p + int (length (oc_completed x))
         \<and> claimed_on (deed_day d) p' = claimed_on (deed_day d) p \<union> dr_id ` set (oc_completed x)
         \<and> distinct (map dr_id (oc_completed x)) \<and> dr_id ` set (oc_completed x) \<inter> claimed_on (deed_day d) p = {})"
  proof (cases d)
    case (Record_deed a day)
    obtain x q where r: "record_scaled a 1 day p = (x, q)" by (cases "record_scaled a 1 day p")
    then have "oc = Some x" "p' = q" using assms Record_deed by (simp_all add: record_award_def)
    then show ?thesis using Record_deed recorded [OF r] by simp
  next
    case (Boot_deed day)
    let ?p = "refresh_slate day (p\<lparr>pr_streak := advance_streak (pr_streak p) (pr_last_boot_day p) day, pr_last_boot_day := Some day\<rparr>)"
    have s: "pr_directive_day ?p = day" "pr_load ?p = pr_load p" "pr_orders_completed ?p = pr_orders_completed p"
        "claimed_on day ?p = claimed_on day p"
      by (auto simp: refresh_slate_def claimed_on_def)
    show ?thesis
    proof (cases "pr_last_boot_day p = Some day")
      case True
      then show ?thesis using assms Boot_deed s by (simp add: boot_def Let_def)
    next
      case False
      obtain x q where r: "record_scaled DailyBoot (streak_multiplier (pr_streak ?p)) day ?p = (x, q)"
        by (cases "record_scaled DailyBoot (streak_multiplier (pr_streak ?p)) day ?p")
      then have "oc = Some x" "p' = q" using assms Boot_deed False by (simp_all add: boot_def Let_def)
      then show ?thesis using Boot_deed s recorded [OF r] by simp
    qed
  qed
  then show "pr_directive_day p' = deed_day d"
    "case oc of
       None \<Rightarrow> pr_load p' = pr_load p \<and> pr_orders_completed p' = pr_orders_completed p
               \<and> claimed_on (deed_day d) p' = claimed_on (deed_day d) p
     | Some x \<Rightarrow> pr_load p' = pr_load p + oc_granted x + sum_list (map dr_bounty (oc_completed x))
         \<and> pr_orders_completed p' = pr_orders_completed p + int (length (oc_completed x))
         \<and> claimed_on (deed_day d) p' = claimed_on (deed_day d) p \<union> dr_id ` set (oc_completed x)
         \<and> distinct (map dr_id (oc_completed x)) \<and> dr_id ` set (oc_completed x) \<inter> claimed_on (deed_day d) p = {}"
    by blast+
qed

lemma paid_days: "x \<in> set (paid (fst (perform_all ds p))) \<Longrightarrow> fst x \<in> deed_day ` set ds"
proof (induction ds arbitrary: p)
  case (Cons d ds)
  obtain oc p1 where 1: "perform d p = (oc, p1)" by (cases "perform d p")
  obtain later p2 where 2: "perform_all ds p1 = (later, p2)" by (cases "perform_all ds p1")
  show ?case using Cons 1 2 Cons.IH [of p1] by (auto simp: paid_def split: option.splits)
qed (simp add: paid_def)

lemma paid_once_from:
  assumes "sorted (map deed_day ds)" and "\<forall>d \<in> set ds. pr_directive_day p \<le> deed_day d"
  shows "distinct (paid (fst (perform_all ds p)))
    \<and> (\<forall>k \<in> set (pr_directive_claimed p). (pr_directive_day p, k) \<notin> set (paid (fst (perform_all ds p))))"
  using assms
proof (induction ds arbitrary: p)
  case Nil
  then show ?case by (simp add: paid_def)
next
  case (Cons d ds)
  obtain oc p1 where 1: "perform d p = (oc, p1)" by (cases "perform d p")
  obtain later p2 where 2: "perform_all ds p1 = (later, p2)" by (cases "perform_all ds p1")
  have day: "pr_directive_day p1 = deed_day d" using performed(1) [OF 1] .
  let ?now = "case oc of None \<Rightarrow> [] | Some x \<Rightarrow> map (\<lambda>k. (deed_day d, k)) (map dr_id (oc_completed x))"
  have p: "paid (fst (perform_all (d # ds) p)) = ?now @ paid later"
    using 1 2 by (simp add: paid_def comp_def split: option.splits)
  have ih: "distinct (paid later)" "\<forall>k \<in> set (pr_directive_claimed p1). (deed_day d, k) \<notin> set (paid later)"
    using Cons.IH [of p1] Cons.prems(1) 2 day by auto
  have c: "claimed_on (deed_day d) p1 = set (pr_directive_claimed p1)" using day by (simp add: claimed_on_def)
  have now: "distinct ?now" "set ?now \<inter> set (paid later) = {}"
      "set ?now \<inter> (\<lambda>k. (deed_day d, k)) ` claimed_on (deed_day d) p = {}"
    using performed(2) [OF 1] ih(2) c by (auto simp: distinct_map inj_on_def split: option.splits)
  have "(pr_directive_day p, k) \<notin> set (?now @ paid later)" if k: "k \<in> set (pr_directive_claimed p)" for k
  proof (cases "pr_directive_day p = deed_day d")
    case True
    then have "k \<in> claimed_on (deed_day d) p" using k by (simp add: claimed_on_def)
    moreover from this have "k \<in> set (pr_directive_claimed p1)"
      using performed(2) [OF 1] c by (auto split: option.splits)
    ultimately show ?thesis using True now(3) ih(2) by auto
  next
    case False
    then have "pr_directive_day p < deed_day d" using Cons.prems(2) by auto
    moreover have "fst x \<ge> deed_day d" if "x \<in> set (paid later)" for x
      using paid_days [of x ds p1] 2 that Cons.prems(1) by auto
    ultimately show ?thesis using False by (fastforce split: option.splits)
  qed
  then show ?case unfolding p using now ih(1) by auto
qed

text \<open> An order of the day is paid once: as long as the clock does not run backwards, no run of awards and
boots pays the bounty of one order twice on one day, and the load and the count of orders are exactly what
the outcomes said.\<close>

theorem orders_paid_once:
  assumes "sorted (map deed_day ds)" and "perform_all ds p = (ocs, p')"
  shows "distinct (paid ocs)
    \<and> pr_load p' = pr_load p + (\<Sum>(day, oc) \<leftarrow> ocs. oc_granted oc + sum_list (map dr_bounty (oc_completed oc)))
    \<and> pr_orders_completed p' = pr_orders_completed p + int (length (paid ocs))"
proof -
  have "pr_load p' = pr_load p + (\<Sum>(day, oc) \<leftarrow> ocs. oc_granted oc + sum_list (map dr_bounty (oc_completed oc)))
    \<and> pr_orders_completed p' = pr_orders_completed p + int (length (paid ocs))"
    using assms(2)
  proof (induction ds arbitrary: p ocs)
    case (Cons d ds)
    obtain oc p1 where 1: "perform d p = (oc, p1)" by (cases "perform d p")
    obtain later p2 where 2: "perform_all ds p1 = (later, p2)" by (cases "perform_all ds p1")
    have "p2 = p'" "ocs = (case oc of None \<Rightarrow> [] | Some x \<Rightarrow> [(deed_day d, x)]) @ later" using Cons.prems 1 2 by simp_all
    then show ?case using Cons.IH [of p1 later] 2 performed(2) [OF 1] by (cases oc) (auto simp: paid_def)
  qed (auto simp: paid_def)
  moreover have "distinct (paid ocs)"
  proof (cases ds)
    case Nil
    then show ?thesis using assms(2) by (simp add: paid_def)
  next
    case (Cons d rest)
    obtain oc p1 where 1: "perform d p = (oc, p1)" by (cases "perform d p")
    obtain later p2 where 2: "perform_all rest p1 = (later, p2)" by (cases "perform_all rest p1")
    have day: "pr_directive_day p1 = deed_day d" using performed(1) [OF 1] .
    have "distinct (paid later) \<and> (\<forall>k \<in> set (pr_directive_claimed p1). (deed_day d, k) \<notin> set (paid later))"
      using paid_once_from [of rest p1] assms(1) Cons 2 day by simp
    moreover have "ocs = (case oc of None \<Rightarrow> [] | Some x \<Rightarrow> [(deed_day d, x)]) @ later" using assms(2) Cons 1 2 by simp
    then have "paid ocs = (case oc of None \<Rightarrow> [] | Some x \<Rightarrow> map (\<lambda>k. (deed_day d, k)) (map dr_id (oc_completed x))) @ paid later"
      by (simp add: paid_def comp_def split: option.splits)
    moreover have "claimed_on (deed_day d) p1 = set (pr_directive_claimed p1)" using day by (simp add: claimed_on_def)
    ultimately show ?thesis using performed(2) [OF 1]
      by (cases oc) (auto simp: distinct_map inj_on_def)
  qed
  ultimately show ?thesis by blast
qed

section \<open>A clock that runs backwards\<close>

lemma booted:
  assumes "boot day p = (oc, p')"
  shows "pr_streak p' = advance_streak (pr_streak p) (pr_last_boot_day p) day" "pr_last_boot_day p' = Some day"
    "times_earned DailyBoot p' = times_earned DailyBoot p + (if pr_last_boot_day p = Some day then 0 else 1)"
proof -
  let ?p = "refresh_slate day (p\<lparr>pr_streak := advance_streak (pr_streak p) (pr_last_boot_day p) day, pr_last_boot_day := Some day\<rparr>)"
  have s: "pr_streak ?p = advance_streak (pr_streak p) (pr_last_boot_day p) day" "pr_last_boot_day ?p = Some day"
      "times_earned DailyBoot ?p = times_earned DailyBoot p"
    by (simp_all add: refresh_slate_def times_earned_def)
  have "pr_streak p' = advance_streak (pr_streak p) (pr_last_boot_day p) day \<and> pr_last_boot_day p' = Some day
    \<and> times_earned DailyBoot p' = times_earned DailyBoot p + (if pr_last_boot_day p = Some day then 0 else 1)"
  proof (cases "pr_last_boot_day p = Some day")
    case True
    then show ?thesis using assms s by (auto simp: boot_def Let_def)
  next
    case False
    obtain x q where r: "record_scaled DailyBoot (streak_multiplier (pr_streak ?p)) day ?p = (x, q)"
      by (cases "record_scaled DailyBoot (streak_multiplier (pr_streak ?p)) day ?p")
    then have "p' = q" using assms False by (simp add: boot_def Let_def)
    then show ?thesis using False s recorded(7,8) [OF r] recorded(4) [OF r, of DailyBoot] by simp
  qed
  then show "pr_streak p' = advance_streak (pr_streak p) (pr_last_boot_day p) day" "pr_last_boot_day p' = Some day"
    "times_earned DailyBoot p' = times_earned DailyBoot p + (if pr_last_boot_day p = Some day then 0 else 1)" by blast+
qed

text \<open>C38.  A clock set back and forth earns a streak without a day going by: from a file booted today, each
boot of yesterday followed by a boot of today adds a day to the streak and two daily awards, though the rule
calls a clock that runs backwards the same day.\<close>

theorem rewound_clock_farms_streak:
  assumes "pr_last_boot_day p = Some today" and "1 \<le> pr_streak p"
  shows "let q = ((\<lambda>p. snd (boot today (snd (boot (today - 1) p)))) ^^ n) p in
           pr_last_boot_day q = Some today \<and> pr_streak q = pr_streak p + int n
         \<and> times_earned DailyBoot q = times_earned DailyBoot p + 2 * int n"
proof (induction n)
  case 0
  then show ?case using assms by simp
next
  case (Suc n)
  let ?q = "((\<lambda>p. snd (boot today (snd (boot (today - 1) p)))) ^^ n) p"
  obtain o1 p1 where 1: "boot (today - 1) ?q = (o1, p1)" by (cases "boot (today - 1) ?q")
  obtain o2 p2 where 2: "boot today p1 = (o2, p2)" by (cases "boot today p1")
  show ?case using Suc.IH assms 1 2 booted [OF 1] booted [OF 2] by (simp add: Let_def advance_streak_def)
qed

theorem rewound_clock_farms_streak_witness:
  "let p = snd (boot 5 default_progression); q = ((\<lambda>p. snd (boot 5 (snd (boot (5 - 1) p)))) ^^ 30) p in
     pr_streak q = 31 \<and> times_earned DailyBoot q = 61"
proof -
  obtain oc p where b: "boot 5 default_progression = (oc, p)" by (cases "boot 5 default_progression")
  have "pr_last_boot_day p = Some 5" "pr_streak p = 1" "times_earned DailyBoot p = 1"
    using booted [OF b] by (simp_all add: default_progression_def advance_streak_def times_earned_def)
  then show ?thesis using rewound_clock_farms_streak [of p 5 30] b by (simp add: Let_def)
qed

section \<open>The board\<close>

lemma record_report_of:
  "map_of (record_report b r rows) a
   = (if a = b then Some (case map_of rows a of None \<Rightarrow> r | Some old \<Rightarrow> merge_report old r) else map_of rows a)"
proof (cases "b \<in> fst ` set rows")
  case True
  have "map_of (map (\<lambda>(c, old). if c = b then (c, merge_report old r) else (c, old)) rows) a
      = (if a = b then map_option (\<lambda>old. merge_report old r) (map_of rows a) else map_of rows a)"
    by (induction rows) auto
  moreover have "map_of rows b \<noteq> None" using True by (simp add: map_of_eq_None_iff)
  ultimately show ?thesis using True by (auto simp: record_report_def)
next
  case False
  then have "map_of rows b = None" by (simp add: map_of_eq_None_iff)
  then show ?thesis using False by (auto simp: record_report_def map_add_def split: option.splits)
qed

fun board_run ::
  "(string \<Rightarrow> string option) \<Rightarrow> (string \<times> report_body \<times> int) list \<Rightarrow> operator_files \<Rightarrow> operator_files" where
  "board_run users [] rows = rows"
| "board_run users ((a, b, now) # rs) rows = board_run users rs (snd (report_route users a b now rows))"

definition reports_of :: "string \<Rightarrow> (string \<times> report_body \<times> int) list \<Rightarrow> report list" where
  "reports_of a rs = map (\<lambda>(_, b, now). clamp_report b now) (filter (\<lambda>(c, _, _). c = a) rs)"

definition merge_into :: "report \<Rightarrow> report option \<Rightarrow> report option" where
  "merge_into r cur = Some (case cur of None \<Rightarrow> r | Some old \<Rightarrow> merge_report old r)"

definition figures :: "report \<Rightarrow> int \<times> int \<times> int \<times> int \<times> int" where
  "figures r = (rp_load r, rp_rank_level r, rp_streak r, rp_orders r, rp_trophies r)"

lemma board_row: "map_of (board_run users rs rows) a = fold merge_into (reports_of a rs) (map_of rows a)"
proof (induction rs arbitrary: rows)
  case (Cons x rs)
  then show ?case
    by (cases x) (auto simp: report_route_def Let_def record_report_of reports_of_def merge_into_def)
qed (simp add: reports_of_def)

definition best_at :: "report list \<Rightarrow> nat \<Rightarrow> bool" where
  "best_at rs i \<longleftrightarrow> i < length rs \<and> (\<forall>j < length rs. rp_load (rs ! j) \<le> rp_load (rs ! i))
     \<and> (\<forall>j < length rs. i < j \<longrightarrow> rp_load (rs ! j) < rp_load (rs ! i))"

lemma best_snoc:
  assumes "best_at rs i"
  shows "rp_load (rs ! i) \<le> rp_load r \<Longrightarrow> best_at (rs @ [r]) (length rs)"
    and "rp_load r < rp_load (rs ! i) \<Longrightarrow> best_at (rs @ [r]) i"
  using assms unfolding best_at_def by (fastforce simp: nth_append less_Suc_eq)+

lemma merged_best:
  "rs \<noteq> [] \<Longrightarrow> \<exists>row i. fold merge_into rs None = Some row \<and> best_at rs i \<and> figures row = figures (rs ! i)
     \<and> rp_now row = rp_now (last rs)"
proof (induction rs rule: rev_induct)
  case (snoc r rs)
  show ?case
  proof (cases "rs = []")
    case True
    then show ?thesis by (auto simp: merge_into_def best_at_def intro: exI [of _ 0])
  next
    case False
    then obtain row i where row: "fold merge_into rs None = Some row" "best_at rs i" "figures row = figures (rs ! i)"
      using snoc.IH by blast
    have i: "i < length rs" "rp_load row = rp_load (rs ! i)" using row(2,3) by (auto simp: best_at_def figures_def)
    have m: "fold merge_into (rs @ [r]) None = Some (merge_report row r)" using row(1) by (simp add: merge_into_def)
    show ?thesis
    proof (cases "rp_load (rs ! i) \<le> rp_load r")
      case True
      then have "best_at (rs @ [r]) (length rs)" using best_snoc(1) row(2) by blast
      moreover have "figures (merge_report row r) = figures ((rs @ [r]) ! length rs)"
        using True i(2) by (simp add: figures_def merge_report_def)
      ultimately show ?thesis using m by (auto simp: merge_report_def Let_def)
    next
      case False
      then have "best_at (rs @ [r]) i" using best_snoc(2) row(2) by simp
      moreover have "figures (merge_report row r) = figures ((rs @ [r]) ! i)"
        using False i row(3) by (simp add: figures_def merge_report_def nth_append)
      ultimately show ?thesis using m by (auto simp: merge_report_def Let_def)
    qed
  qed
qed simp

text \<open> A row of the board is one report: whatever everybody reports and in whatever order, the figures on
the board of a wallet that reported are, all five of one moment, those of its last report among its reports of
greatest load, so that neither a reinstalled device nor a stale one takes a standing back.\<close>

theorem board_is_best_report:
  assumes "reports_of a rs \<noteq> []"
  shows "\<exists>row i. map_of (board_run users rs []) a = Some row \<and> best_at (reports_of a rs) i
    \<and> figures row = figures (reports_of a rs ! i) \<and> rp_now row = rp_now (last (reports_of a rs))"
  using merged_best [OF assms] by (simp add: board_row)

theorem board_is_best_report_witness:
  "\<exists>row i. map_of (board_run Map.empty
       [(''a'', \<lparr>bd_load = Some 500, bd_rank_level = Some 3, bd_streak = Some 4, bd_orders = None, bd_trophies = None\<rparr>, 1),
        (''b'', \<lparr>bd_load = Some 900, bd_rank_level = Some 4, bd_streak = None, bd_orders = None, bd_trophies = None\<rparr>, 2),
        (''a'', \<lparr>bd_load = Some 7, bd_rank_level = Some 1, bd_streak = Some 9, bd_orders = None, bd_trophies = None\<rparr>, 3)] []) ''a''
     = Some row \<and> i = 0 \<and> figures row = (500, 3, 4, 0, 0) \<and> rp_now row = 3"
proof -
  let ?rs = "[(''a'', \<lparr>bd_load = Some 500, bd_rank_level = Some 3, bd_streak = Some 4, bd_orders = None, bd_trophies = None\<rparr>, 1),
        (''b'', \<lparr>bd_load = Some 900, bd_rank_level = Some 4, bd_streak = None, bd_orders = None, bd_trophies = None\<rparr>, 2),
        (''a'', \<lparr>bd_load = Some 7, bd_rank_level = Some 1, bd_streak = Some 9, bd_orders = None, bd_trophies = None\<rparr>, 3)]"
  have r: "reports_of ''a'' ?rs
      = [\<lparr>rp_load = 500, rp_rank_level = 3, rp_streak = 4, rp_orders = 0, rp_trophies = 0, rp_now = 1\<rparr>,
         \<lparr>rp_load = 7, rp_rank_level = 1, rp_streak = 9, rp_orders = 0, rp_trophies = 0, rp_now = 3\<rparr>]"
    by (simp add: reports_of_def clamp_report_def clamped_def MAX_LOAD_def MAX_RANK_def MAX_STREAK_def MAX_COUNT_def)
  then have "reports_of ''a'' ?rs \<noteq> []" by simp
  from board_is_best_report [OF this, of Map.empty] obtain row i where
    row: "map_of (board_run Map.empty ?rs []) ''a'' = Some row" "best_at (reports_of ''a'' ?rs) i"
      "figures row = figures (reports_of ''a'' ?rs ! i)" "rp_now row = rp_now (last (reports_of ''a'' ?rs))" by blast
  have "i = 0" using row(2) by (auto simp: best_at_def r less_Suc_eq numeral_2_eq_2)
  then show ?thesis using row(1,3,4) by (auto simp: r figures_def)
qed

text \<open>A day with one order done.\<close>

theorem orders_paid_once_witness:
  "\<exists>ocs p'. perform_all [Boot_deed 5, Record_deed Reaction 5, Boot_deed 6] default_progression = (ocs, p') \<and> distinct (paid ocs)"
proof -
  obtain ocs p' where r: "perform_all [Boot_deed 5, Record_deed Reaction 5, Boot_deed 6] default_progression = (ocs, p')"
    by (cases "perform_all [Boot_deed 5, Record_deed Reaction 5, Boot_deed 6] default_progression")
  have "sorted (map deed_day [Boot_deed 5, Record_deed Reaction 5, Boot_deed 6])" by simp
  from orders_paid_once [OF this r] r show ?thesis by blast
qed

end
