(* ===== verification/Spec2Isabelle.thy ===== *)
theory Spec2Isabelle
  imports Abi Hub_Spec Time_Format Search_Index Room_Cache Rate_Spec Mention_Properties Upload_Spec Attachment_Spec Auth_Spec Progression_Spec
begin

text \<open>
  A model of PocketSkynet, a self-hosted messenger with end-to-end encrypted rooms and a wallet:
  a Rust server (src/app/server), a browser client compiled to WebAssembly (src/app/web) and a core
  library that both link (src/app/core).

  \<^bold>\<open>Parts and how they meet.\<close>  A wallet proves itself to the server by signing a challenge and gets a token
  (routes/auth.rs); the client derives its encryption key from another signature of the wallet and publishes it
  with a binding (keys.rs, web/src/crypto.rs).  Members wrap the key of a room for one another under those keys,
  one epoch after the other (crypto.rs, routes/keys.rs).  A client seals a message and posts it to a route of the
  server.  The route checks the roster and the key epoch of the room (routes/rooms.rs, keys.rs, messages.rs), the
  store gives the message the next serial of its room and writes it with its mentions, media and search row
  (db/messages.rs), the hub wakes the connections that may see it and appends the event to a durable log (hub.rs,
  jsonl.rs), and every client drains the stream of its rooms by serial into a folded room state (store.rs,
  actions.rs).  Files come in through resumable uploads, are stored under their digest, served in ranges and
  destroyed with their room (uploads.rs, files.rs, purge.rs).  A rate limiter stands in front of the routes
  (ratelimit.rs).  Payments and anchors are Ethereum transactions that the core library encodes (chain.rs, abi.rs).
  A game beside all this counts what an operator does (progression.rs).

  \<^bold>\<open>Theories.\<close>
  \<^item> Skynet_Prelude: bytes, hexadecimal, decimal text, ASCII classes, the result monad and the lemmas
    that the components share.  Hex_Interface and Json_Interface hold the locales for the hexadecimal and
    JSON codecs, each interpreted on the model's own functions.
  \<^item> Ids (core/src/ids.rs): wallet addresses, room and message ids, reserved senders.
  \<^item> Chain (core/src/chain.rs): amounts, JSON-RPC quantities, RLP, EIP-155 transactions.
  \<^item> Abi (core/src/abi.rs): the Solidity encoder and the decoders of contract returns.
  \<^item> Crypto (core/src/crypto.rs, secrets.rs, eip191.rs, keys.rs, wallet.rs, random.rs, hash.rs): messages,
    wrapped keys and vault fields at both versions, signatures, wallets, encryption keys and their bindings.
    Crypto_Spec: the laws of the primitives, an instance of them, and what a successful opening shows.
  \<^item> Session_Keys (web/src/crypto.rs, actions.rs): the keys of a session, bundles of room keys, sealing,
    wrapping for others, the send loop and the sign-in.  Session_Spec: a rotation end to end through the
    server's routes, and the attacks of a hostile server.
  \<^item> Events (core/src/events.rs): events, targets and the messages of the socket, with their JSON form.
  \<^item> Jsonl, Jsonl_Spec (server/src/jsonl.rs): the event log with its files, counter, rotation, recovery
    and failures; the log answers a cursor with exactly the gapless records after it, or refuses.
  \<^item> Hub, Hub_Spec (server/src/hub.rs): connections, indices, fan-out, replay and presence.
  \<^item> Message_Db, Message_Spec (server/src/db/messages.rs with mentions, media, search rows and reads): one
    definition per operation, and the step relation store_step of its writes.
  \<^item> Search_Index: the index holds the readable messages in every reachable store.
  \<^item> Room_Stream, Room_Cache (web/src/store.rs, cache.rs, parts of state.rs and actions.rs): the fold of
    the stream, history merges, views and snapshots.
  \<^item> Sync_Spec, Sync_Examples: server and client composed; drains converge, and the histories in which
    they do not.
  \<^item> Time_Format (web/src/format.rs): calendar arithmetic, labels and the ISO 8601 parser.
  \<^item> Rate_Limit, Rate_Spec (server/src/ratelimit.rs): the limiter against its fixed-window specification
    and the address that a request is billed to.
  \<^item> Room_Db (server/src/db/rooms.rs, keys.rs, invites.rs, users.rs, admin.rs): rooms, rosters, wrapped
    keys, direct messages, built-in rooms, links and the eviction, over the message store.
  \<^item> Room_Routes (server/src/routes/rooms.rs, keys.rs, invitations.rs, invites.rs, messages.rs, admin.rs):
    the handlers with their guards in order.
  \<^item> Room_Spec: what each operation does to the lookups of a room, and the step relation room_step of the
    routes with a ghost set of who has learned which room key.  Room_Safety: the invariant of a room and
    its preservation by every step.  Room_Properties: the promises that follow, and concrete histories.
  \<^item> Mentions_Media (server/src/db/mentions.rs, media.rs): the handles in a text and the hosted files it shows.
    Validate (server/src/validate.rs): the check of every field.  Message_Routes (server/src/routes/messages.rs,
    emoticons.rs, sync.rs, mentions.rs): the handlers of messages.  Message_Access and Mention_Properties: an
    accepted write is a step of the store by a member, edits stay sealed, mentions and the inbox.
  \<^item> Uploads, Upload_Spec (server/src/db/uploads.rs, routes/uploads.rs): upload sessions and the three
    accesses of an append; what the counters and the files have in common, whatever interleaves.
  \<^item> Attachments, Purge, Attachment_Spec (server/src/db/files.rs, routes/files.rs, routes/gallery.rs, thumbs.rs,
    purge.rs): attachments with their bytes, ranged downloads, the gallery and the destruction of a room.
  \<^item> Auth, Auth_Spec (server/src/auth.rs, routes/auth.rs, routes/users.rs, db/users.rs, db/admin.rs,
    routes/admin.rs, lib.rs): challenges, login, tokens, published keys, search, blocks and suspensions, and the
    runs of the server over them.
  \<^item> Progression, Progression_Spec (core/src/progression.rs, web/src/progression.rs, server/src/db/operators.rs,
    routes/operators.rs): the operator ladder, the file of a browser and the board.

  \<^bold>\<open>Correspondence.\<close>  A table is a list of records in insertion order, or a map where it has a key and no
  order; a HashMap is an association list; a directory is a map from names to bytes; a JSON value is a datatype;
  a String is the list of the bytes of its UTF-8 form, each written as a character, and a count of characters
  counts the bytes that begin one.  Machine integers are numbers with their wrap, saturation or check written out
  where a run can reach it.  A double is a rational rounded to 53 bits.
  A Result is a sum, a panic is None or a branch of its own.  A transaction is one function; a handler is one
  step, except where the code's separate database calls matter (register in Hub, the rotation in
  Room_Routes, an append in Uploads, the upload and the purge, the refresh of the suspensions), where the parts
  are definitions of their own.  Clocks, random ids, SHA-256, Keccak, AES, HMAC, curve arithmetic, the token
  library and the decoder of pictures are parameters; what a theorem needs of them is a hypothesis with a name
  (primitives_ok, jwt_ok), and an instance that meets it is proved to.  Randomness is the list of the bytes the
  system still gives.  A browser's handle on its store is the snapshot it was taken from.

  \<^bold>\<open>Lemma groups.\<close>  The collection views describes every room operation by get_room, is_member, is_admin,
  has_pending_invitation and key_exists; the invariants of Hub_Spec, Jsonl_Spec, Message_Spec, Upload_Spec,
  Attachment_Spec and Room_Safety are proved by rule induction over their step relations, those of Auth_Spec and
  Progression_Spec by induction over runs; the round trips of Chain, Abi, Ids, Events and Time_Format rest on the
  codec locales and on one lemma per field.  The safety of the encryption is stated against a log of what was
  sealed: what opens is in the log, or a tag under the key was made by somebody who did not seal it.

  \<^bold>\<open>Bounds.\<close>  A drain asks for at most 64 pages of 500 rows, as the code does, so a statement that one drain
  reaches the end has the bound of 32000 rows, and the general one counts drains.  A fresh secret key is drawn
  at most eight times and a message is sent at most twice, as in the code.  Loops of the code are
  structural recursions or have a measure; floor_log2 of Progression has fuel 1100, more than the binary digits of
  any double's numerator or denominator.

  \<^bold>\<open>Not modelled.\<close>  The primitives of third-party crates, the threshold signatures, the views and translations
  of the browser, the in-browser server and its assistants, the reducers of the client other than those of the
  stream, hosted sites and images beyond their names, webhooks, the password vault's table, shouts, search
  ranking (floating point), the reports of the administrator, configuration and transport.  Tables of Unicode
  characters (letters, digits, case) are parameters where the code uses them.
\<close>

end
